(* ===== verification/Prelude.thy ===== *)
theory Prelude
  imports Main "HOL-Library.Word" "HOL-Library.Monad_Syntax" "HOL-Library.Multiset"
begin

text \<open>
  Shared vocabulary of the development: the machine integers of the C program, C strings
  as NUL-free character lists, the big-endian wire format that \<open>htons\<close>, \<open>htonl\<close> and
  \<open>memcpy\<close> produce together, readers that take a value off the front of a buffer (an
  out-of-bounds read, undefined behaviour in C, is \<^const>\<open>None\<close>), decimal printing
  (\<open>%d\<close>), and the generic list lemmas the components use.

  The collections: \<open>wire\<close> holds the laws that reduce a reader applied to a written
  buffer, \<open>cstring\<close> those that turn C strings into bytes and back.
\<close>

unbundle bit_operations_syntax

named_theorems wire "reading back what was written to a buffer"
named_theorems cstring "C strings and their bytes"

type_synonym byte = "8 word"
type_synonym u16 = "16 word"
type_synonym u32 = "32 word"
type_synonym u64 = "64 word"

section \<open>Bytes and C strings\<close>

definition byte_of_char :: "char \<Rightarrow> byte" where
  "byte_of_char c = word_of_nat (of_char c)"

definition char_of_byte :: "byte \<Rightarrow> char" where
  "char_of_byte b = char_of (unat b)"

definition str_bytes :: "string \<Rightarrow> byte list" where
  "str_bytes s = map byte_of_char s"

text \<open>The C string at the start of a NUL-terminated buffer.\<close>

definition cstr :: "byte list \<Rightarrow> string" where
  "cstr bs = map char_of_byte (takeWhile (\<lambda>b. b \<noteq> 0) bs)"

text \<open>A string that C can hold: no NUL inside.\<close>

definition c_string :: "string \<Rightarrow> bool" where
  "c_string s \<longleftrightarrow> CHR 0x00 \<notin> set s"

lemma unat_byte_of_char: "unat (byte_of_char c) = of_char c"
proof -
  have "(of_char c :: nat) < 256" by simp
  then show ?thesis by (simp add: byte_of_char_def unat_of_nat take_bit_eq_mod)
qed

lemma char_of_byte_of_char [simp, cstring]: "char_of_byte (byte_of_char c) = c"
  by (simp add: char_of_byte_def unat_byte_of_char)

lemma byte_of_char_of_byte [simp, cstring]: "byte_of_char (char_of_byte b) = b"
proof -
  have "unat b < 256" using unsigned_less [of b] by simp
  then have "(of_char (char_of (unat b) :: char) :: nat) = unat b"
    by (simp add: of_char_of)
  then show ?thesis by (simp add: byte_of_char_def char_of_byte_def)
qed

lemma byte_of_char_eq_0 [simp, cstring]: "byte_of_char c = 0 \<longleftrightarrow> c = CHR 0x00"
proof
  assume "byte_of_char c = 0"
  then have "(of_char c :: nat) = 0" using unat_byte_of_char [of c] by simp
  then have "(of_char c :: nat) = of_char CHR 0x00" by simp
  then show "c = CHR 0x00" by (simp only: of_char_eq_iff)
next
  assume "c = CHR 0x00"
  then show "byte_of_char c = 0" by (simp add: byte_of_char_def)
qed

lemma length_str_bytes [simp, cstring]: "length (str_bytes s) = length s"
  by (simp add: str_bytes_def)

lemma str_bytes_Nil [simp, cstring]: "str_bytes [] = []"
  by (simp add: str_bytes_def)

lemma str_bytes_append [cstring]: "str_bytes (s @ t) = str_bytes s @ str_bytes t"
  by (simp add: str_bytes_def)

lemma c_string_no_zero: "c_string s \<Longrightarrow> 0 \<notin> set (str_bytes s)"
  by (auto simp: c_string_def str_bytes_def)

lemma takeWhile_str_bytes: "c_string s \<Longrightarrow> takeWhile (\<lambda>b. b \<noteq> 0) (str_bytes s @ 0 # bs) = str_bytes s"
  using c_string_no_zero [of s] by (auto simp: takeWhile_append)

lemma cstr_str_bytes [simp, cstring]: "c_string s \<Longrightarrow> cstr (str_bytes s) = s"
proof -
  assume "c_string s"
  then have "takeWhile (\<lambda>b. b \<noteq> 0) (str_bytes s) = str_bytes s"
    using c_string_no_zero by (metis (mono_tags, lifting) takeWhile_eq_all_conv)
  then have "cstr (str_bytes s) = map char_of_byte (str_bytes s)" by (simp only: cstr_def)
  then show ?thesis by (simp add: str_bytes_def comp_def)
qed

lemma cstr_str_bytes_0 [simp, cstring]: "c_string s \<Longrightarrow> cstr (str_bytes s @ 0 # bs) = s"
  by (simp add: cstr_def takeWhile_str_bytes) (simp add: str_bytes_def comp_def)

lemma c_string_cstr [simp, cstring]: "c_string (cstr bs)"
proof -
  have "char_of_byte b = CHR 0x00 \<Longrightarrow> b = 0" for b
    by (metis byte_of_char_eq_0 byte_of_char_of_byte)
  then show ?thesis
    unfolding c_string_def cstr_def by (auto dest: set_takeWhileD)
qed

text \<open>ASCII lower case, C's \<open>tolower\<close> in the default locale.\<close>

definition to_lower :: "char \<Rightarrow> char" where
  "to_lower c = (let n = of_char c :: nat in if 65 \<le> n \<and> n \<le> 90 then char_of (n + 32) else c)"

section \<open>Big-endian integers on the wire\<close>

fun be :: "nat \<Rightarrow> nat \<Rightarrow> byte list" where
  "be 0 v = []"
| "be (Suc n) v = be n (v div 256) @ [word_of_nat v]"

definition of_be :: "byte list \<Rightarrow> nat" where
  "of_be bs = foldl (\<lambda>a b. a * 256 + unat b) 0 bs"

definition be16 :: "u16 \<Rightarrow> byte list" where "be16 w = be 2 (unat w)"
definition be32 :: "u32 \<Rightarrow> byte list" where "be32 w = be 4 (unat w)"
definition be64 :: "u64 \<Rightarrow> byte list" where "be64 w = be 8 (unat w)"

lemma length_be [simp, wire]: "length (be n v) = n"
  by (induction n arbitrary: v) auto

lemma length_be16 [simp, wire]: "length (be16 w) = 2"
  by (simp add: be16_def)

lemma length_be32 [simp, wire]: "length (be32 w) = 4"
  by (simp add: be32_def)

lemma length_be64 [simp, wire]: "length (be64 w) = 8"
  by (simp add: be64_def)

lemma of_be_snoc: "of_be (bs @ [b]) = of_be bs * 256 + unat b"
  by (simp add: of_be_def)

lemma of_be_be: "of_be (be n v) = v mod 256 ^ n"
proof (induction n arbitrary: v)
  case 0
  show ?case by (simp add: of_be_def)
next
  case (Suc n)
  have "unat (word_of_nat v :: byte) = v mod 256"
    by (simp add: unat_of_nat take_bit_eq_mod)
  then have "of_be (be (Suc n) v) = (v div 256 mod 256 ^ n) * 256 + v mod 256"
    by (simp add: of_be_snoc Suc.IH)
  also have "\<dots> = v mod (256 * 256 ^ n)"
    by (simp add: mod_mult2_eq)
  finally show ?case by simp
qed

lemma of_be_be16 [simp, wire]: "word_of_nat (of_be (be16 w)) = w"
proof -
  have "unat w < 65536" using unsigned_less [of w] by simp
  then show ?thesis by (simp add: be16_def of_be_be)
qed

lemma of_be_be32 [simp, wire]: "word_of_nat (of_be (be32 w)) = w"
proof -
  have "unat w < 4294967296" using unsigned_less [of w] by simp
  then show ?thesis by (simp add: be32_def of_be_be)
qed

lemma of_be_be64 [simp, wire]: "word_of_nat (of_be (be64 w)) = w"
proof -
  have "unat w < 18446744073709551616" using unsigned_less [of w] by simp
  then show ?thesis by (simp add: be64_def of_be_be)
qed

section \<open>Reading a buffer\<close>

text \<open>
  \<open>memcpy(&x, buffer + offset, n); offset += n\<close> is a reader on what is left of the
  buffer from \<open>offset\<close> on. The program never checks the length of what it received, so
  a short buffer makes it read out of bounds: the reader is then \<^const>\<open>None\<close>.
\<close>

definition get_bytes :: "nat \<Rightarrow> byte list \<Rightarrow> (byte list \<times> byte list) option" where
  "get_bytes n bs = (if n \<le> length bs then Some (take n bs, drop n bs) else None)"

definition get_u8 :: "byte list \<Rightarrow> (byte \<times> byte list) option" where
  "get_u8 bs = (case bs of [] \<Rightarrow> None | b # r \<Rightarrow> Some (b, r))"

definition get_u16 :: "byte list \<Rightarrow> (u16 \<times> byte list) option" where
  "get_u16 bs = map_option (\<lambda>(h, r). (word_of_nat (of_be h), r)) (get_bytes 2 bs)"

definition get_u32 :: "byte list \<Rightarrow> (u32 \<times> byte list) option" where
  "get_u32 bs = map_option (\<lambda>(h, r). (word_of_nat (of_be h), r)) (get_bytes 4 bs)"

text \<open>\<open>malloc(n + 1)\<close>, \<open>memcpy\<close> of \<open>n\<close> bytes and a terminating NUL: the C string read is
  what stands before the first NUL.\<close>

definition get_str :: "nat \<Rightarrow> byte list \<Rightarrow> (string \<times> byte list) option" where
  "get_str n bs = map_option (\<lambda>(h, r). (cstr h, r)) (get_bytes n bs)"

lemma get_bytes_append [simp, wire]: "n = length xs \<Longrightarrow> get_bytes n (xs @ ys) = Some (xs, ys)"
  by (simp add: get_bytes_def)

lemma get_bytes_all [wire]: "n = length xs \<Longrightarrow> get_bytes n xs = Some (xs, [])"
  by (simp add: get_bytes_def)

lemma get_u8_Cons [simp, wire]: "get_u8 (b # r) = Some (b, r)"
  by (simp add: get_u8_def)

lemma get_u16_be16 [simp, wire]: "get_u16 (be16 w @ r) = Some (w, r)"
  by (simp add: get_u16_def)

lemma get_u32_be32 [simp, wire]: "get_u32 (be32 w @ r) = Some (w, r)"
  by (simp add: get_u32_def)

lemma get_str_str_bytes [simp, wire]:
  "c_string s \<Longrightarrow> n = length s \<Longrightarrow> get_str n (str_bytes s @ r) = Some (s, r)"
  by (simp add: get_str_def)

lemma get_str_all [wire]: "c_string s \<Longrightarrow> n = length s \<Longrightarrow> get_str n (str_bytes s) = Some (s, [])"
  using get_str_str_bytes [of s n "[]"] by simp

section \<open>Decimal printing (\<open>%d\<close> of a value that is not negative)\<close>

definition digit :: "nat \<Rightarrow> char" where
  "digit d = char_of (48 + d)"

fun dec :: "nat \<Rightarrow> string" where
  "dec n = (if n < 10 then [digit n] else dec (n div 10) @ [digit (n mod 10)])"

declare dec.simps [simp del]

definition undec :: "string \<Rightarrow> nat" where
  "undec s = foldl (\<lambda>a c. a * 10 + (of_char c - 48)) 0 s"

lemma of_char_digit: "d < 10 \<Longrightarrow> (of_char (digit d) :: nat) = 48 + d"
  by (simp add: digit_def of_char_of)

lemma undec_dec: "undec (dec n) = n"
proof (induction n rule: dec.induct)
  case (1 n)
  show ?case
  proof (cases "n < 10")
    case True
    then show ?thesis by (simp add: dec.simps [of n] undec_def of_char_digit)
  next
    case False
    then have "undec (dec n) = undec (dec (n div 10)) * 10 + n mod 10"
      by (simp add: dec.simps [of n] undec_def of_char_digit)
    with 1 False show ?thesis by simp
  qed
qed

lemma dec_inject [simp]: "dec m = dec n \<longleftrightarrow> m = n"
  by (metis undec_dec)

lemma dec_nonempty [simp]: "dec n \<noteq> []"
  by (simp add: dec.simps [of n])

lemma length_dec_le: "n < 10 ^ k \<Longrightarrow> 0 < k \<Longrightarrow> length (dec n) \<le> k"
proof (induction k arbitrary: n)
  case 0
  then show ?case by simp
next
  case (Suc k)
  show ?case
  proof (cases "n < 10")
    case True
    then show ?thesis by (simp add: dec.simps [of n])
  next
    case False
    with Suc.prems have "0 < k" by (cases k) auto
    moreover have "n div 10 < 10 ^ k" using Suc.prems by (simp add: div_less_iff_less_mult mult.commute)
    ultimately have "length (dec (n div 10)) \<le> k" by (rule Suc.IH [rotated])
    with False show ?thesis by (simp add: dec.simps [of n])
  qed
qed

section \<open>Lists\<close>

text \<open>\<open>list_remove_by_condition\<close>: the first element that satisfies the condition goes.\<close>

fun remove_first :: "('a \<Rightarrow> bool) \<Rightarrow> 'a list \<Rightarrow> 'a list" where
  "remove_first p [] = []"
| "remove_first p (x # xs) = (if p x then xs else x # remove_first p xs)"

lemma remove_first_id [simp]: "\<forall>x \<in> set xs. \<not> p x \<Longrightarrow> remove_first p xs = xs"
  by (induction xs) auto

lemma length_remove_first:
  "length (remove_first p xs) = (if \<exists>x \<in> set xs. p x then length xs - 1 else length xs)"
  by (induction xs) (auto simp: Suc_diff_1 dest: length_pos_if_in_set)

lemma set_remove_first: "set (remove_first p xs) \<subseteq> set xs"
  by (induction xs) auto

lemma find_Some_iff: "List.find p xs = Some x \<Longrightarrow> p x \<and> x \<in> set xs"
  by (induction xs) (auto split: if_splits)

lemma find_None_iff_all: "List.find p xs = None \<longleftrightarrow> (\<forall>x \<in> set xs. \<not> p x)"
  by (auto simp: find_None_iff)

lemma find_distinct:
  assumes "distinct (map f xs)" and "x \<in> set xs"
  shows "List.find (\<lambda>y. f y = f x) xs = Some x"
  using assms by (induction xs) (auto simp: rev_image_eqI)

text \<open>Threading a state through a list of steps, any of which may be undefined.\<close>

fun fold_opt :: "('a \<Rightarrow> 's \<Rightarrow> 's option) \<Rightarrow> 'a list \<Rightarrow> 's \<Rightarrow> 's option" where
  "fold_opt f [] s = Some s"
| "fold_opt f (x # xs) s = Option.bind (f x s) (fold_opt f xs)"

lemma fold_opt_append: "fold_opt f (xs @ ys) s = Option.bind (fold_opt f xs s) (fold_opt f ys)"
  by (induction xs arbitrary: s) (auto split: Option.bind_splits)

lemma fold_opt_inv:
  assumes "fold_opt f xs s = Some t" and "I s"
    and "\<And>x s t. x \<in> set xs \<Longrightarrow> f x s = Some t \<Longrightarrow> I s \<Longrightarrow> I t"
  shows "I t"
  using assms
proof (induction xs arbitrary: s)
  case Nil
  then show ?case by simp
next
  case (Cons x xs)
  from Cons.prems(1) obtain u where "f x s = Some u" and u: "fold_opt f xs u = Some t"
    by (auto simp: bind_eq_Some_conv)
  from \<open>f x s = Some u\<close> Cons.prems(2) have "I u" by (rule Cons.prems(3) [rotated]) simp
  with u show ?case by (rule Cons.IH) (rule Cons.prems(3), auto)
qed

lemma fold_opt_total:
  assumes "\<And>x s. x \<in> set xs \<Longrightarrow> f x s \<noteq> None"
  shows "fold_opt f xs s \<noteq> None"
  using assms
proof (induction xs arbitrary: s)
  case (Cons x xs)
  then obtain u where "f x s = Some u" by fastforce
  with Cons show ?case by simp
qed simp

lemma mset_eq_map: "mset xs = mset ys \<Longrightarrow> mset (map f xs) = mset (map f ys)"
  by simp

section \<open>Dictionaries\<close>

text \<open>A \<open>t_dictionary\<close>: its pairs; \<open>get\<close> is \<^const>\<open>map_of\<close>, \<open>put\<close> replaces.\<close>

definition dict_remove :: "'k \<Rightarrow> ('k \<times> 'v) list \<Rightarrow> ('k \<times> 'v) list" where
  "dict_remove k d = filter (\<lambda>e. fst e \<noteq> k) d"

definition dict_put :: "'k \<Rightarrow> 'v \<Rightarrow> ('k \<times> 'v) list \<Rightarrow> ('k \<times> 'v) list" where
  "dict_put k v d = (k, v) # dict_remove k d"

definition dict_keys :: "('k \<times> 'v) list \<Rightarrow> 'k set" where
  "dict_keys d = fst ` set d"

named_theorems dict "lookups and keys of a dictionary"

lemma map_of_dict_remove [simp, dict]: "map_of (dict_remove k d) j = (if j = k then None else map_of d j)"
  by (induction d) (auto simp: dict_remove_def)

lemma map_of_dict_put [simp, dict]: "map_of (dict_put k v d) j = (if j = k then Some v else map_of d j)"
  by (simp add: dict_put_def)

lemma dict_keys_remove [simp, dict]: "dict_keys (dict_remove k d) = dict_keys d - {k}"
  by (auto simp: dict_keys_def dict_remove_def)

lemma dict_keys_put [simp, dict]: "dict_keys (dict_put k v d) = insert k (dict_keys d)"
  by (auto simp: dict_keys_def dict_put_def dict_remove_def)

lemma distinct_dict_remove [simp, dict]: "distinct (map fst d) \<Longrightarrow> distinct (map fst (dict_remove k d))"
  by (simp add: dict_remove_def distinct_map_filter)

lemma distinct_dict_put [simp, dict]: "distinct (map fst d) \<Longrightarrow> distinct (map fst (dict_put k v d))"
  by (auto simp: dict_put_def) (auto simp: dict_remove_def)

lemma map_of_None_keys [dict]: "map_of d k = None \<longleftrightarrow> k \<notin> dict_keys d"
  by (simp add: dict_keys_def map_of_eq_None_iff)

lemma map_of_Some_keys: "map_of d k = Some v \<Longrightarrow> k \<in> dict_keys d"
  by (metis map_of_None_keys option.distinct(1))

lemma card_dict_keys: "distinct (map fst d) \<Longrightarrow> card (dict_keys d) = length d"
  by (metis dict_keys_def distinct_card length_map set_map)

section \<open>What every result satisfies\<close>

text \<open>A condition on the result of a computation that may be undefined, with a rule for each way the
  computations are put together.\<close>

definition returns :: "'a option \<Rightarrow> ('a \<Rightarrow> bool) \<Rightarrow> bool" where
  "returns r P \<longleftrightarrow> (\<forall>x. r = Some x \<longrightarrow> P x)"

lemma returnsD: "returns r P \<Longrightarrow> r = Some x \<Longrightarrow> P x"
  by (simp add: returns_def)

lemma returns_Some [simp]: "returns (Some x) P \<longleftrightarrow> P x"
  by (simp add: returns_def)

lemma returns_None [simp]: "returns None P"
  by (simp add: returns_def)

lemma returns_bind: "(\<And>x. r = Some x \<Longrightarrow> returns (f x) P) \<Longrightarrow> returns (Option.bind r f) P"
  by (auto simp: returns_def bind_eq_Some_conv)

lemma returns_map: "(\<And>x. r = Some x \<Longrightarrow> P (g x)) \<Longrightarrow> returns (map_option g r) P"
  by (auto simp: returns_def)

lemma returns_if: "(b \<Longrightarrow> returns x P) \<Longrightarrow> (\<not> b \<Longrightarrow> returns y P) \<Longrightarrow> returns (if b then x else y) P"
  by simp

lemma returns_option:
  "(r = None \<Longrightarrow> returns a P) \<Longrightarrow> (\<And>x. r = Some x \<Longrightarrow> returns (f x) P) \<Longrightarrow> returns (case r of None \<Rightarrow> a | Some x \<Rightarrow> f x) P"
  by (cases r) simp_all

lemma returns_prod: "(\<And>a b. p = (a, b) \<Longrightarrow> returns (f a b) P) \<Longrightarrow> returns (case p of (a, b) \<Rightarrow> f a b) P"
  by (cases p) simp

lemma returns_let: "returns (f v) P \<Longrightarrow> returns (let x = v in f x) P"
  by simp

lemmas returns_rules = returns_bind returns_map returns_if returns_option returns_prod returns_let

end
