(* ===== verification/Commons.thy ===== *)
theory Commons
  imports Prelude
begin

text \<open>
  The commons library (\<open>commons/bitarray.h\<close>, \<open>commons/string.h\<close>,
  \<open>commons/collections/list.h\<close>) is not part of the repository. A \<open>t_list\<close> is the list of
  its elements in order and a \<open>t_dictionary\<close> is its association list; the operations with
  an algorithm inside are a record of parameters, \<open>commons\<close>, which every definition that
  calls them takes as an argument. What the program relies on is stated as the laws of three
  locales, \<open>bitarray\<close>, \<open>string_lib\<close> and \<open>list_sorter\<close>. Each is interpreted on a complete
  implementation (bits numbered from the most significant one of each byte, splitting that
  drops empty pieces, insertion by the comparator), which the witnesses evaluate.
\<close>

record commons =
  c_test_bit :: "byte list \<Rightarrow> int \<Rightarrow> bool"
  c_set_bit :: "byte list \<Rightarrow> int \<Rightarrow> byte list"
  c_clean_bit :: "byte list \<Rightarrow> int \<Rightarrow> byte list"
  c_split :: "string \<Rightarrow> string \<Rightarrow> string list"
  c_eq_ignore_case :: "string \<Rightarrow> string \<Rightarrow> bool"
  c_substring_until :: "string \<Rightarrow> nat \<Rightarrow> string"
  c_substring_from :: "string \<Rightarrow> nat \<Rightarrow> string"

section \<open>Bit arrays\<close>

locale bitarray =
  fixes test :: "byte list \<Rightarrow> int \<Rightarrow> bool"
    and setb :: "byte list \<Rightarrow> int \<Rightarrow> byte list"
    and clean :: "byte list \<Rightarrow> int \<Rightarrow> byte list"
  assumes length_setb: "length (setb bs i) = length bs"
    and length_clean: "length (clean bs i) = length bs"
    and test_setb: "0 \<le> i \<Longrightarrow> i < 8 * int (length bs) \<Longrightarrow> 0 \<le> j \<Longrightarrow> j < 8 * int (length bs) \<Longrightarrow>
      test (setb bs i) j \<longleftrightarrow> j = i \<or> test bs j"
    and test_clean: "0 \<le> i \<Longrightarrow> i < 8 * int (length bs) \<Longrightarrow> 0 \<le> j \<Longrightarrow> j < 8 * int (length bs) \<Longrightarrow>
      test (clean bs i) j \<longleftrightarrow> j \<noteq> i \<and> test bs j"
    and test_zeros: "0 \<le> i \<Longrightarrow> i < 8 * int n \<Longrightarrow> \<not> test (replicate n 0) i"

text \<open>The bits of a byte numbered from the most significant one.\<close>

definition msb_test :: "byte list \<Rightarrow> int \<Rightarrow> bool" where
  "msb_test bs i = bit (bs ! nat (i div 8)) (nat (7 - i mod 8))"

definition msb_set :: "byte list \<Rightarrow> int \<Rightarrow> byte list" where
  "msb_set bs i = bs[nat (i div 8) := set_bit (nat (7 - i mod 8)) (bs ! nat (i div 8))]"

definition msb_clean :: "byte list \<Rightarrow> int \<Rightarrow> byte list" where
  "msb_clean bs i = bs[nat (i div 8) := unset_bit (nat (7 - i mod 8)) (bs ! nat (i div 8))]"

lemma msb_index:
  assumes "0 \<le> i" "i < 8 * int n"
  shows "nat (i div 8) < n" and "nat (7 - i mod 8) < 8"
  using assms by (auto simp: nat_less_iff)

lemma msb_index_eq:
  assumes "0 \<le> i" "0 \<le> j"
  shows "nat (i div 8) = nat (j div 8) \<and> nat (7 - i mod 8) = nat (7 - j mod 8) \<longleftrightarrow> i = j"
proof
  assume a: "nat (i div 8) = nat (j div 8) \<and> nat (7 - i mod 8) = nat (7 - j mod 8)"
  have "i div 8 \<ge> 0" "j div 8 \<ge> 0" using assms by auto
  with a have "i div 8 = j div 8" by (metis nat_eq_iff2)
  moreover have "i mod 8 \<le> 7" "j mod 8 \<le> 7" using pos_mod_bound [of 8 i] pos_mod_bound [of 8 j] by simp_all
  with a have "i mod 8 = j mod 8" by (simp add: nat_eq_iff2)
  ultimately show "i = j" by (metis div_mult_mod_eq)
qed simp

lemma bit_byte_upd:
  fixes bs :: "byte list"
  assumes "k < length bs" "m < 8"
  shows "bit (bs[k := set_bit m (bs ! k)] ! l) n \<longleftrightarrow> (l = k \<and> n = m) \<or> bit (bs ! l) n"
    and "bit (bs[k := unset_bit m (bs ! k)] ! l) n \<longleftrightarrow> \<not> (l = k \<and> n = m) \<and> bit (bs ! l) n"
  using assms by (cases "l = k"; auto simp: bit_set_bit_iff bit_unset_bit_iff)+

lemma msb_test_upd:
  assumes "0 \<le> i" "i < 8 * int (length bs)" "0 \<le> j" "j < 8 * int (length bs)"
  shows "msb_test (msb_set bs i) j \<longleftrightarrow> j = i \<or> msb_test bs j"
    and "msb_test (msb_clean bs i) j \<longleftrightarrow> j \<noteq> i \<and> msb_test bs j"
proof -
  have e: "nat (j div 8) = nat (i div 8) \<and> nat (7 - j mod 8) = nat (7 - i mod 8) \<longleftrightarrow> j = i"
    using assms(3,1) by (rule msb_index_eq)
  note upd = bit_byte_upd [OF msb_index [OF assms(1,2)]]
  show "msb_test (msb_set bs i) j \<longleftrightarrow> j = i \<or> msb_test bs j"
    unfolding msb_test_def msb_set_def upd e ..
  show "msb_test (msb_clean bs i) j \<longleftrightarrow> j \<noteq> i \<and> msb_test bs j"
    unfolding msb_test_def msb_clean_def upd e ..
qed

lemma msb_test_zeros: "0 \<le> i \<Longrightarrow> i < 8 * int n \<Longrightarrow> \<not> msb_test (replicate n 0) i"
  using msb_index [of i n] by (simp add: msb_test_def)

lemma length_msb_upd: "length (msb_set bs i) = length bs" "length (msb_clean bs i) = length bs"
  by (simp_all add: msb_set_def msb_clean_def)

interpretation msb: bitarray msb_test msb_set msb_clean
  by unfold_locales (rule length_msb_upd msb_test_upd msb_test_zeros; assumption?)+

section \<open>Strings\<close>

text \<open>The maximal runs without the separator: the components of a path, the words of a line.\<close>

fun pieces_from :: "char \<Rightarrow> string \<Rightarrow> string \<Rightarrow> string list" where
  "pieces_from sep acc [] = (if acc = [] then [] else [rev acc])"
| "pieces_from sep acc (c # cs) =
     (if c = sep then (if acc = [] then [] else [rev acc]) @ pieces_from sep [] cs
      else pieces_from sep (c # acc) cs)"

definition pieces :: "char \<Rightarrow> string \<Rightarrow> string list" where
  "pieces sep s = pieces_from sep [] s"

locale string_lib =
  fixes split :: "string \<Rightarrow> string \<Rightarrow> string list"
    and eq_ic :: "string \<Rightarrow> string \<Rightarrow> bool"
    and until :: "string \<Rightarrow> nat \<Rightarrow> string"
    and substr_from :: "string \<Rightarrow> nat \<Rightarrow> string"
  assumes split_pieces: "filter (\<lambda>p. p \<noteq> []) (split s [sep]) = pieces sep s"
    and eq_ic_lower: "eq_ic s t \<longleftrightarrow> map to_lower s = map to_lower t"
    and until_take: "until s n = take n s"
    and from_drop: "substr_from s n = drop n s"
begin

lemma eq_ic_refl: "eq_ic s s"
  by (simp add: eq_ic_lower)

lemma eq_ic_sym: "eq_ic s t \<longleftrightarrow> eq_ic t s"
  by (auto simp: eq_ic_lower)

lemma until_from: "until s n @ substr_from s n = s"
  by (simp add: until_take from_drop)

end

lemma pieces_from_nonempty: "\<forall>p \<in> set (pieces_from sep acc s). p \<noteq> []"
  by (induction sep acc s rule: pieces_from.induct) auto

lemma pieces_nonempty: "\<forall>p \<in> set (pieces sep s). p \<noteq> []"
  unfolding pieces_def by (rule pieces_from_nonempty)

lemma pieces_from_no_sep:
  "sep \<notin> set acc \<Longrightarrow> \<forall>p \<in> set (pieces_from sep acc s). sep \<notin> set p"
  by (induction sep acc s rule: pieces_from.induct) auto

lemma pieces_no_sep: "\<forall>p \<in> set (pieces sep s). sep \<notin> set p"
  unfolding pieces_def by (rule pieces_from_no_sep) simp

definition drop_empty_split :: "string \<Rightarrow> string \<Rightarrow> string list" where
  "drop_empty_split s sep = (case sep of [] \<Rightarrow> [s] | c # _ \<Rightarrow> pieces c s)"

definition lower_eq :: "string \<Rightarrow> string \<Rightarrow> bool" where
  "lower_eq s t \<longleftrightarrow> map to_lower s = map to_lower t"

interpretation strs: string_lib drop_empty_split lower_eq "\<lambda>s n. take n s" "\<lambda>s n. drop n s"
  using pieces_nonempty
  by unfold_locales (simp_all add: drop_empty_split_def lower_eq_def filter_id_conv)

text \<open>The complete instance of the record, used wherever a witness needs one.\<close>

definition commons_ref :: commons where
  "commons_ref = \<lparr>c_test_bit = msb_test, c_set_bit = msb_set, c_clean_bit = msb_clean,
     c_split = drop_empty_split, c_eq_ignore_case = lower_eq,
     c_substring_until = (\<lambda>s n. take n s), c_substring_from = (\<lambda>s n. drop n s)\<rparr>"

text \<open>The laws of the whole record, in one predicate, for the components that use all of it.\<close>

locale commons_laws =
  bits: bitarray "c_test_bit c" "c_set_bit c" "c_clean_bit c" +
  str: string_lib "c_split c" "c_eq_ignore_case c" "c_substring_until c" "c_substring_from c"
  for c :: "'z commons_scheme"

interpretation cref: commons_laws commons_ref
  using msb.bitarray_axioms strs.string_lib_axioms
  by (simp add: commons_laws_def commons_ref_def)

section \<open>Sorting a list by a comparator\<close>

text \<open>
  \<open>list_sort(list, comparator)\<close>, where \<open>comparator(a, b)\<close> says that \<open>a\<close> goes before
  \<open>b\<close>. The order of elements the comparator does not separate is not promised.
\<close>

locale list_sorter =
  fixes sort :: "('e \<Rightarrow> 'e \<Rightarrow> bool) \<Rightarrow> 'e list \<Rightarrow> 'e list"
  assumes sort_mset: "mset (sort f xs) = mset xs"
    and sort_sorted: "(\<And>x y. f x y \<longleftrightarrow> key y < (key x :: nat)) \<Longrightarrow>
      sorted_wrt (\<lambda>x y. key y \<le> key x) (sort f xs)"
begin

lemma sort_set: "set (sort f xs) = set xs"
  using sort_mset by (rule mset_eq_setD)

lemma sort_length: "length (sort f xs) = length xs"
  using sort_mset by (rule mset_eq_length)

lemma sort_distinct_map: "distinct (map g (sort f xs)) \<longleftrightarrow> distinct (map g xs)"
  by (rule mset_eq_imp_distinct_iff) (simp add: sort_mset)

end

fun insert_by :: "('e \<Rightarrow> 'e \<Rightarrow> bool) \<Rightarrow> 'e \<Rightarrow> 'e list \<Rightarrow> 'e list" where
  "insert_by f x [] = [x]"
| "insert_by f x (y # ys) = (if f y x then y # insert_by f x ys else x # y # ys)"

fun sort_by :: "('e \<Rightarrow> 'e \<Rightarrow> bool) \<Rightarrow> 'e list \<Rightarrow> 'e list" where
  "sort_by f [] = []"
| "sort_by f (x # xs) = insert_by f x (sort_by f xs)"

lemma mset_insert_by: "mset (insert_by f x xs) = add_mset x (mset xs)"
  by (induction xs) auto

lemma mset_sort_by: "mset (sort_by f xs) = mset xs"
  by (induction xs) (auto simp: mset_insert_by)

lemma set_insert_by: "set (insert_by f x xs) = insert x (set xs)"
  by (induction xs) auto

lemma sorted_insert_by:
  assumes "\<And>x y. f x y \<longleftrightarrow> key y < (key x :: nat)"
  shows "sorted_wrt (\<lambda>x y. key y \<le> key x) xs \<Longrightarrow> sorted_wrt (\<lambda>x y. key y \<le> key x) (insert_by f x xs)"
  by (induction xs) (auto simp: set_insert_by assms intro: order.trans)

interpretation sorter: list_sorter sort_by
proof
  show "mset (sort_by f xs) = mset xs" for f and xs :: "'a list"
    by (rule mset_sort_by)
  show "sorted_wrt (\<lambda>x y. key y \<le> key x) (sort_by f xs)"
    if "\<And>x y. f x y \<longleftrightarrow> key y < (key x :: nat)" for f key and xs :: "'a list"
    using that by (induction xs) (auto intro: sorted_insert_by)
qed

end
