(* ===== verification/FS_Structs.thy ===== *)
theory FS_Structs
  imports Commons
begin

text \<open>
  \<open>FileSystem/src/structs/dir.c\<close> and \<open>file.c\<close>: the directory and file records of the
  MDFS and their translation to and from BSON documents. A BSON document is the ordered list
  of its key-value pairs; the \<open>BSON_APPEND_*\<close> macros add at the end and a \<open>bson_iter_t\<close>
  visits the pairs in order. A pointer that may be NULL is an option; a \<open>char[25]\<close> takes a
  string of at most 24 characters, a longer \<open>strcpy\<close> writes out of bounds (\<^const>\<open>None\<close>).
  Lemmas: each decoder inverts its encoder (the \<open>bson_codec\<close> interface, interpreted for both
  records).
\<close>

section \<open>BSON documents\<close>

datatype bson =
    BUtf8 string
  | BNull
  | BInt32 u32
  | BInt64 u64
  | BBinary "byte list"
  | BDoc "(string \<times> bson) list"
  | BArray "(string \<times> bson) list"

type_synonym doc = "(string \<times> bson) list"

text \<open>\<open>BSON_APPEND_UTF8\<close> of a \<open>char*\<close>; libbson stores a null for a NULL pointer.\<close>

definition bson_utf8 :: "string option \<Rightarrow> bson" where
  "bson_utf8 p = (case p of Some s \<Rightarrow> BUtf8 s | None \<Rightarrow> BNull)"

text \<open>Reading one member of the value union; any other type of value is undefined.\<close>

fun v_utf8 :: "bson \<Rightarrow> string option" where
  "v_utf8 (BUtf8 s) = Some s"
| "v_utf8 _ = None"

fun v_int32 :: "bson \<Rightarrow> u32 option" where
  "v_int32 (BInt32 i) = Some i"
| "v_int32 _ = None"

fun v_int64 :: "bson \<Rightarrow> u64 option" where
  "v_int64 (BInt64 i) = Some i"
| "v_int64 _ = None"

fun v_binary :: "bson \<Rightarrow> byte list option" where
  "v_binary (BBinary b) = Some b"
| "v_binary _ = None"

fun v_doc :: "bson \<Rightarrow> doc option" where
  "v_doc (BDoc d) = Some d"
| "v_doc (BArray d) = Some d"
| "v_doc _ = None"

text \<open>\<open>sprintf(arrayKey, "%d", index)\<close> for the elements of an array, counted from \<open>i\<close>.\<close>

fun number_from :: "nat \<Rightarrow> bson list \<Rightarrow> doc" where
  "number_from i [] = []"
| "number_from i (b # bs) = (dec i, b) # number_from (Suc i) bs"

lemma map_snd_number_from [simp]: "map snd (number_from i bs) = bs"
  by (induction bs arbitrary: i) auto

text \<open>\<open>ID_SIZE\<close> is 25: room for 24 characters and the NUL.\<close>

definition ID_SIZE :: nat where "ID_SIZE = 25"

definition strcpy_id :: "string \<Rightarrow> string option" where
  "strcpy_id s = (if length s < ID_SIZE then Some s else None)"

definition ROOT_DIR_ID :: string where "ROOT_DIR_ID = ''0''"

text \<open>An identifier that fits its \<open>char[25]\<close>.\<close>

definition id_ok :: "string \<Rightarrow> bool" where
  "id_ok s \<longleftrightarrow> length s < ID_SIZE"

lemma strcpy_id_ok [simp]: "id_ok s \<Longrightarrow> strcpy_id s = Some s"
  by (simp add: id_ok_def strcpy_id_def)

lemma strcpy_id_Some: "strcpy_id s = Some t \<longleftrightarrow> t = s \<and> id_ok s"
  by (auto simp: id_ok_def strcpy_id_def)

lemma id_ok_root [simp]: "id_ok ROOT_DIR_ID"
  by (simp add: id_ok_def ROOT_DIR_ID_def ID_SIZE_def)

section \<open>dir.c\<close>

record dir_t =
  dir_id :: string
  dir_parentId :: string
  dir_name :: "string option"

text \<open>\<open>dir_create\<close> leaves the two identifier arrays unset; nothing reads them before they
  are written, so they are the empty string here.\<close>

definition dir_create :: dir_t where
  "dir_create = \<lparr>dir_id = '''', dir_parentId = '''', dir_name = None\<rparr>"

definition dir_getBSON :: "dir_t \<Rightarrow> doc" where
  "dir_getBSON d = [(''_id'', BUtf8 (dir_id d)), (''name'', bson_utf8 (dir_name d)),
     (''parentId'', BUtf8 (dir_parentId d))]"

fun dir_readField :: "string \<times> bson \<Rightarrow> dir_t \<Rightarrow> dir_t option" where
  "dir_readField (key, v) d =
     (if key = ''_id'' then do { s \<leftarrow> v_utf8 v; s' \<leftarrow> strcpy_id s; Some (d\<lparr>dir_id := s'\<rparr>) }
      else if key = ''name'' then do { s \<leftarrow> v_utf8 v; Some (d\<lparr>dir_name := Some s\<rparr>) }
      else if key = ''parentId'' then do { s \<leftarrow> v_utf8 v; s' \<leftarrow> strcpy_id s; Some (d\<lparr>dir_parentId := s'\<rparr>) }
      else Some d)"

definition dir_getDirFromBSON :: "doc \<Rightarrow> dir_t option" where
  "dir_getDirFromBSON doc = fold_opt dir_readField doc dir_create"

text \<open>
  \<open>getFileName\<close>: the last piece of the path. A path with no piece at all leaves the
  pointer it duplicates unset.
\<close>

definition getFileName :: "'z commons_scheme \<Rightarrow> string \<Rightarrow> string option" where
  "getFileName c path =
     (let dirNames = c_split c path ''/'' in if dirNames = [] then None else Some (last dirNames))"

definition dir_ok :: "dir_t \<Rightarrow> bool" where
  "dir_ok d \<longleftrightarrow> id_ok (dir_id d) \<and> id_ok (dir_parentId d) \<and> dir_name d \<noteq> None"

section \<open>file.c\<close>

record file_block_t =
  fb_nodeId :: string
  fb_blockIndex :: u16

record file_t =
  file_id :: string
  file_parentId :: string
  file_name :: "string option"
  file_size :: u64
  file_blocks :: "file_block_t list list"

definition file_create :: file_t where
  "file_create = \<lparr>file_id = '''', file_parentId = '''', file_name = None, file_size = 0,
     file_blocks = []\<rparr>"

definition file_block_create :: file_block_t where
  "file_block_create = \<lparr>fb_nodeId = '''', fb_blockIndex = 0\<rparr>"

definition file_block_getBSON :: "file_block_t \<Rightarrow> doc" where
  "file_block_getBSON b = [(''nodeId'', BUtf8 (fb_nodeId b)), (''blockIndex'', BInt32 (ucast (fb_blockIndex b)))]"

definition file_getBSON :: "file_t \<Rightarrow> doc" where
  "file_getBSON f =
     [(''_id'', BUtf8 (file_id f)), (''name'', bson_utf8 (file_name f)),
      (''size'', BInt64 (file_size f)), (''parentId'', BUtf8 (file_parentId f)),
      (''blocks'', BArray (number_from 0 (map (\<lambda>blockCopies.
          BArray (number_from 0 (map (\<lambda>b. BDoc (file_block_getBSON b)) blockCopies)))
        (file_blocks f))))]"

fun file_block_readField :: "string \<times> bson \<Rightarrow> file_block_t \<Rightarrow> file_block_t option" where
  "file_block_readField (key, v) b =
     (if key = ''nodeId'' then do { s \<leftarrow> v_utf8 v; Some (b\<lparr>fb_nodeId := s\<rparr>) }
      else if key = ''blockIndex'' then do { i \<leftarrow> v_int32 v; Some (b\<lparr>fb_blockIndex := ucast i\<rparr>) }
      else Some b)"

definition file_block_getFileFromBSON :: "doc \<Rightarrow> file_block_t option" where
  "file_block_getFileFromBSON doc = fold_opt file_block_readField doc file_block_create"

text \<open>The two nested loops over the \<open>blocks\<close> array.\<close>

fun file_readCopies :: "doc \<Rightarrow> file_block_t list option" where
  "file_readCopies [] = Some []"
| "file_readCopies ((_, v) # es) =
     do { d \<leftarrow> v_doc v; b \<leftarrow> file_block_getFileFromBSON d; bs \<leftarrow> file_readCopies es; Some (b # bs) }"

fun file_readBlocks :: "doc \<Rightarrow> file_block_t list list option" where
  "file_readBlocks [] = Some []"
| "file_readBlocks ((_, v) # es) =
     do { a \<leftarrow> v_doc v; cs \<leftarrow> file_readCopies a; bs \<leftarrow> file_readBlocks es; Some (cs # bs) }"

fun file_readField :: "string \<times> bson \<Rightarrow> file_t \<Rightarrow> file_t option" where
  "file_readField (key, v) f =
     (if key = ''_id'' then do { s \<leftarrow> v_utf8 v; s' \<leftarrow> strcpy_id s; Some (f\<lparr>file_id := s'\<rparr>) }
      else if key = ''name'' then do { s \<leftarrow> v_utf8 v; Some (f\<lparr>file_name := Some s\<rparr>) }
      else if key = ''size'' then do { i \<leftarrow> v_int64 v; Some (f\<lparr>file_size := i\<rparr>) }
      else if key = ''parentId'' then do { s \<leftarrow> v_utf8 v; s' \<leftarrow> strcpy_id s; Some (f\<lparr>file_parentId := s'\<rparr>) }
      else if key = ''blocks'' then
        do { a \<leftarrow> v_doc v; bs \<leftarrow> file_readBlocks a; Some (f\<lparr>file_blocks := file_blocks f @ bs\<rparr>) }
      else Some f)"

definition file_getFileFromBSON :: "doc \<Rightarrow> file_t option" where
  "file_getFileFromBSON doc = fold_opt file_readField doc file_create"

definition file_ok :: "file_t \<Rightarrow> bool" where
  "file_ok f \<longleftrightarrow> id_ok (file_id f) \<and> id_ok (file_parentId f) \<and> file_name f \<noteq> None"

section \<open>Documents that can be read back\<close>

locale bson_codec =
  fixes enc :: "'a \<Rightarrow> doc" and dec :: "doc \<Rightarrow> 'a option" and ident :: "'a \<Rightarrow> string" and ok :: "'a \<Rightarrow> bool"
  assumes dec_enc: "ok x \<Longrightarrow> dec (enc x) = Some x"
    and enc_id: "ok x \<Longrightarrow> map_of (enc x) ''_id'' = Some (BUtf8 (ident x))"
begin

lemma enc_inject: "ok x \<Longrightarrow> ok y \<Longrightarrow> enc x = enc y \<longleftrightarrow> x = y"
  by (metis dec_enc option.inject)

lemma dec_enc_list: "\<forall>x \<in> set xs. ok x \<Longrightarrow> map (\<lambda>x. dec (enc x)) xs = map Some xs"
  by (simp add: dec_enc)

end

lemma dir_dec_enc: "dir_ok d \<Longrightarrow> dir_getDirFromBSON (dir_getBSON d) = Some d"
  by (auto simp: dir_getDirFromBSON_def dir_getBSON_def dir_ok_def dir_create_def bson_utf8_def)

interpretation dir_codec: bson_codec dir_getBSON dir_getDirFromBSON dir_id dir_ok
  by unfold_locales (erule dir_dec_enc, simp add: dir_getBSON_def)

lemma ucast_u16_u32 [simp]: "ucast (ucast (w :: u16) :: u32) = w"
  by (rule ucast_up_ucast_id) (simp add: is_up)

lemma file_block_dec_enc: "file_block_getFileFromBSON (file_block_getBSON b) = Some b"
  by (simp add: file_block_getFileFromBSON_def file_block_getBSON_def)

lemma file_readCopies_enc:
  "file_readCopies (number_from i (map (\<lambda>b. BDoc (file_block_getBSON b)) bs)) = Some bs"
  by (induction bs arbitrary: i) (auto simp: file_block_dec_enc)

lemma file_readBlocks_enc:
  "file_readBlocks (number_from i (map (\<lambda>cs.
      BArray (number_from 0 (map (\<lambda>b. BDoc (file_block_getBSON b)) cs))) bss)) = Some bss"
  by (induction bss arbitrary: i) (auto simp: file_readCopies_enc)

lemma file_dec_enc: "file_ok f \<Longrightarrow> file_getFileFromBSON (file_getBSON f) = Some f"
  by (auto simp: file_getFileFromBSON_def file_getBSON_def file_ok_def file_create_def
      bson_utf8_def file_readBlocks_enc)

interpretation file_codec: bson_codec file_getBSON file_getFileFromBSON file_id file_ok
  by unfold_locales (erule file_dec_enc, simp add: file_getBSON_def)

end
