(* ===== verification/FS_Node.thy ===== *)
theory FS_Node
  imports FS_Structs
begin

text \<open>
  \<open>FileSystem/src/structs/node.c\<close>: a storage node as the file system sees it, its name, its
  number of 20 MB blocks and the bit array of the used ones. The bit operations are the
  library's (parameter \<open>c\<close>). An \<open>off_t\<close> index is an \<^typ>\<open>int\<close>. The
  \<open>block_space\<close> interface states what the allocator of the file system needs of a node
  (marking, releasing, counting and choosing blocks); it is interpreted on the operations of
  \<open>node.c\<close> for every library that satisfies its laws.
\<close>

record node_t =
  nd_id :: "string option"
  nd_blocks :: "byte list"
  nd_blocksCount :: u16

definition node_getBSON :: "node_t \<Rightarrow> doc" where
  "node_getBSON n = [(''_id'', bson_utf8 (nd_id n)), (''blocks'', BBinary (nd_blocks n)),
     (''blocksCount'', BInt32 (ucast (nd_blocksCount n)))]"

text \<open>The record of a fresh \<open>malloc\<close>, whose fields the document's pairs fill.\<close>

definition node_malloc :: node_t where
  "node_malloc = \<lparr>nd_id = None, nd_blocks = [], nd_blocksCount = 0\<rparr>"

fun node_readField :: "string \<times> bson \<Rightarrow> node_t \<Rightarrow> node_t option" where
  "node_readField (key, v) n =
     (if key = ''_id'' then do { s \<leftarrow> v_utf8 v; Some (n\<lparr>nd_id := Some s\<rparr>) }
      else if key = ''blocks'' then do { b \<leftarrow> v_binary v; Some (n\<lparr>nd_blocks := b\<rparr>) }
      else if key = ''blocksCount'' then do { i \<leftarrow> v_int32 v; Some (n\<lparr>nd_blocksCount := ucast i\<rparr>) }
      else Some n)"

definition node_getNodeFromBSON :: "doc \<Rightarrow> node_t option" where
  "node_getNodeFromBSON doc = fold_opt node_readField doc node_malloc"

text \<open>\<open>(cnt + 7) / 8\<close> zero bytes.\<close>

definition getByteArrayForBlocksCount :: "u16 \<Rightarrow> byte list" where
  "getByteArrayForBlocksCount cnt = replicate ((unat cnt + (8 - 1)) div 8) 0"

definition node_blockIsValidIndex :: "node_t \<Rightarrow> int \<Rightarrow> bool" where
  "node_blockIsValidIndex n blockIndex \<longleftrightarrow> blockIndex < uint (nd_blocksCount n)"

definition node_setAllBlocksFree :: "node_t \<Rightarrow> node_t" where
  "node_setAllBlocksFree n = n\<lparr>nd_blocks := getByteArrayForBlocksCount (nd_blocksCount n)\<rparr>"

definition node_setBlockUsed :: "'z commons_scheme \<Rightarrow> node_t \<Rightarrow> int \<Rightarrow> node_t" where
  "node_setBlockUsed c n blockIndex =
     (if node_blockIsValidIndex n blockIndex then n\<lparr>nd_blocks := c_set_bit c (nd_blocks n) blockIndex\<rparr> else n)"

definition node_setBlockFree :: "'z commons_scheme \<Rightarrow> node_t \<Rightarrow> int \<Rightarrow> node_t" where
  "node_setBlockFree c n blockIndex =
     (if node_blockIsValidIndex n blockIndex then n\<lparr>nd_blocks := c_clean_bit c (nd_blocks n) blockIndex\<rparr> else n)"

definition node_isBlockUsed :: "'z commons_scheme \<Rightarrow> node_t \<Rightarrow> int \<Rightarrow> bool" where
  "node_isBlockUsed c n blockIndex =
     (if node_blockIsValidIndex n blockIndex then c_test_bit c (nd_blocks n) blockIndex else False)"

text \<open>The two loops \<open>for (i = 0; i < node->blocksCount; i++)\<close>, from any \<open>i\<close>.\<close>

function node_countFree_loop :: "'z commons_scheme \<Rightarrow> node_t \<Rightarrow> nat \<Rightarrow> nat \<Rightarrow> nat" where
  "node_countFree_loop c n i cnt =
     (if i < unat (nd_blocksCount n)
      then node_countFree_loop c n (Suc i) (if \<not> node_isBlockUsed c n (int i) then Suc cnt else cnt)
      else cnt)"
  by pat_completeness auto
termination
  by (relation "measure (\<lambda>(c, n, i, cnt). unat (nd_blocksCount n) - i)") auto

definition node_getBlocksFreeCount :: "'z commons_scheme \<Rightarrow> node_t \<Rightarrow> nat" where
  "node_getBlocksFreeCount c n = node_countFree_loop c n 0 0"

function node_firstFree_loop :: "'z commons_scheme \<Rightarrow> node_t \<Rightarrow> nat \<Rightarrow> int" where
  "node_firstFree_loop c n i =
     (if i < unat (nd_blocksCount n)
      then if \<not> node_isBlockUsed c n (int i) then int i else node_firstFree_loop c n (Suc i)
      else -1)"
  by pat_completeness auto
termination
  by (relation "measure (\<lambda>(c, n, i). unat (nd_blocksCount n) - i)") auto

declare node_countFree_loop.simps [simp del] node_firstFree_loop.simps [simp del]

definition node_getFirstFreeBlock :: "'z commons_scheme \<Rightarrow> node_t \<Rightarrow> int" where
  "node_getFirstFreeBlock c n = node_firstFree_loop c n 0"

definition node_create :: "u16 \<Rightarrow> node_t" where
  "node_create blocksCount = \<lparr>nd_id = None, nd_blocks = getByteArrayForBlocksCount blocksCount,
     nd_blocksCount = blocksCount\<rparr>"

text \<open>\<open>node_printBlocksStatus\<close>: the line of 0 and 1 it prints, left is index 0.\<close>

definition node_printBlocksStatus :: "'z commons_scheme \<Rightarrow> node_t \<Rightarrow> string list" where
  "node_printBlocksStatus c n =
     [''NODE '' @ (case nd_id n of Some s \<Rightarrow> s | None \<Rightarrow> ''(null)'') @ '' BLOCKS USAGE: (left is 0-index) '',
      map (\<lambda>i. if c_test_bit c (nd_blocks n) (int i) then CHR ''1'' else CHR ''0'')
        [0..<unat (nd_blocksCount n)]]"

section \<open>Well-formed nodes and their free blocks\<close>

text \<open>The bit array has a bit for every block.\<close>

definition node_wf :: "node_t \<Rightarrow> bool" where
  "node_wf n \<longleftrightarrow> unat (nd_blocksCount n) \<le> 8 * length (nd_blocks n)"

definition node_ok :: "node_t \<Rightarrow> bool" where
  "node_ok n \<longleftrightarrow> nd_id n \<noteq> None"

definition node_freeBlocks :: "'z commons_scheme \<Rightarrow> node_t \<Rightarrow> nat set" where
  "node_freeBlocks c n = {i. i < unat (nd_blocksCount n) \<and> \<not> node_isBlockUsed c n (int i)}"

lemma node_dec_enc: "node_ok n \<Longrightarrow> node_getNodeFromBSON (node_getBSON n) = Some n"
  by (auto simp: node_getNodeFromBSON_def node_getBSON_def node_ok_def node_malloc_def bson_utf8_def)

interpretation node_codec: bson_codec node_getBSON node_getNodeFromBSON "\<lambda>n. the (nd_id n)" node_ok
proof
  show "node_ok n \<Longrightarrow> node_getNodeFromBSON (node_getBSON n) = Some n" for n
    by (rule node_dec_enc)
  show "node_ok n \<Longrightarrow> map_of (node_getBSON n) ''_id'' = Some (BUtf8 (the (nd_id n)))" for n
    by (cases "nd_id n") (simp_all add: node_getBSON_def node_ok_def bson_utf8_def)
qed

lemma node_fields [simp]:
  "nd_id (node_setBlockUsed c n i) = nd_id n"
  "nd_id (node_setBlockFree c n i) = nd_id n"
  "nd_id (node_setAllBlocksFree n) = nd_id n"
  "nd_blocksCount (node_setBlockUsed c n i) = nd_blocksCount n"
  "nd_blocksCount (node_setBlockFree c n i) = nd_blocksCount n"
  "nd_blocksCount (node_setAllBlocksFree n) = nd_blocksCount n"
  by (simp_all add: node_setBlockUsed_def node_setBlockFree_def node_setAllBlocksFree_def)

lemma uint_unat_count: "uint (w :: u16) = int (unat w)"
  by simp

lemma node_blockIsValidIndex_nat [simp]:
  "node_blockIsValidIndex n (int i) \<longleftrightarrow> i < unat (nd_blocksCount n)"
  unfolding node_blockIsValidIndex_def uint_unat_count by (simp only: of_nat_less_iff)

lemma byteArray_covers: "unat cnt \<le> 8 * length (getByteArrayForBlocksCount cnt)"
  unfolding getByteArrayForBlocksCount_def by simp

lemma node_wf_setAllBlocksFree [simp]: "node_wf (node_setAllBlocksFree n)"
  using byteArray_covers by (simp add: node_wf_def node_setAllBlocksFree_def)

lemma node_wf_create [simp]: "node_wf (node_create cnt)"
  using byteArray_covers by (simp add: node_wf_def node_create_def)

lemma finite_node_freeBlocks [simp]: "finite (node_freeBlocks c n)"
  by (rule finite_subset [of _ "{..<unat (nd_blocksCount n)}"]) (auto simp: node_freeBlocks_def)

lemma node_countFree_loop_eq:
  "node_countFree_loop c n i cnt = cnt + card {j \<in> node_freeBlocks c n. i \<le> j}"
proof (induction c n i cnt rule: node_countFree_loop.induct)
  case (1 c n i cnt)
  show ?case
  proof (cases "i < unat (nd_blocksCount n)")
    case False
    then have "{j \<in> node_freeBlocks c n. i \<le> j} = {}" by (auto simp: node_freeBlocks_def)
    with False show ?thesis by (simp only: node_countFree_loop.simps [of c n i cnt]) simp
  next
    case True
    have split: "{j \<in> node_freeBlocks c n. i \<le> j} =
        (if node_isBlockUsed c n (int i) then {} else {i}) \<union> {j \<in> node_freeBlocks c n. Suc i \<le> j}"
      using True by (auto simp: node_freeBlocks_def le_less Suc_le_eq)
    then have "card {j \<in> node_freeBlocks c n. i \<le> j} =
        (if node_isBlockUsed c n (int i) then 0 else 1) + card {j \<in> node_freeBlocks c n. Suc i \<le> j}"
      by (subst split, subst card_Un_disjoint) auto
    with True 1 show ?thesis by (simp add: node_countFree_loop.simps [of c n i cnt])
  qed
qed

lemma node_getBlocksFreeCount_card: "node_getBlocksFreeCount c n = card (node_freeBlocks c n)"
  by (simp add: node_getBlocksFreeCount_def node_countFree_loop_eq)

lemma node_getBlocksFreeCount_le: "node_getBlocksFreeCount c n \<le> unat (nd_blocksCount n)"
  unfolding node_getBlocksFreeCount_card
  by (rule order.trans [OF card_mono [of "{..<unat (nd_blocksCount n)}"]])
    (auto simp: node_freeBlocks_def)

lemma node_firstFree_loop_cases:
  "node_firstFree_loop c n i = -1 \<and> {j \<in> node_freeBlocks c n. i \<le> j} = {} \<or>
   (\<exists>k. node_firstFree_loop c n i = int k \<and> i \<le> k \<and> k \<in> node_freeBlocks c n \<and>
      (\<forall>j \<in> node_freeBlocks c n. i \<le> j \<longrightarrow> k \<le> j))"
proof (induction c n i rule: node_firstFree_loop.induct)
  case (1 c n i)
  show ?case
  proof (cases "i < unat (nd_blocksCount n) \<and> node_isBlockUsed c n (int i)")
    case False
    then show ?thesis
      by (simp only: node_firstFree_loop.simps [of c n i]) (auto simp: node_freeBlocks_def)
  next
    case True
    then have "i \<notin> node_freeBlocks c n" by (simp add: node_freeBlocks_def)
    then have "\<And>j. j \<in> node_freeBlocks c n \<Longrightarrow> i \<le> j \<longleftrightarrow> Suc i \<le> j" by (metis Suc_le_eq le_less)
    then show ?thesis
      using True 1 by (simp add: node_firstFree_loop.simps [of c n i] cong: conj_cong) (metis Suc_leD)
  qed
qed

lemma node_getFirstFreeBlock_None:
  "node_getFirstFreeBlock c n = -1 \<longleftrightarrow> node_freeBlocks c n = {}"
  using node_firstFree_loop_cases [of c n 0] by (auto simp: node_getFirstFreeBlock_def)

lemma node_getFirstFreeBlock_Some:
  assumes "node_getFirstFreeBlock c n \<noteq> -1"
  obtains k where "node_getFirstFreeBlock c n = int k" and "k \<in> node_freeBlocks c n"
    and "\<And>j. j \<in> node_freeBlocks c n \<Longrightarrow> k \<le> j"
  using node_firstFree_loop_cases [of c n 0] assms by (auto simp: node_getFirstFreeBlock_def)

lemma node_getFirstFreeBlock_Min:
  "node_freeBlocks c n \<noteq> {} \<Longrightarrow> node_getFirstFreeBlock c n = int (Min (node_freeBlocks c n))"
  by (metis Min_eqI finite_node_freeBlocks node_getFirstFreeBlock_None node_getFirstFreeBlock_Some)

section \<open>The block space of a node\<close>

locale block_space =
  fixes wf :: "'n \<Rightarrow> bool" and free :: "'n \<Rightarrow> nat set" and cap :: "'n \<Rightarrow> nat"
    and mark :: "'n \<Rightarrow> int \<Rightarrow> 'n" and release :: "'n \<Rightarrow> int \<Rightarrow> 'n"
    and first_free :: "'n \<Rightarrow> int" and free_count :: "'n \<Rightarrow> nat"
  assumes free_finite: "finite (free n)"
    and free_below: "free n \<subseteq> {..<cap n}"
    and wf_mark: "wf n \<Longrightarrow> wf (mark n b)"
    and wf_release: "wf n \<Longrightarrow> wf (release n b)"
    and cap_mark: "cap (mark n b) = cap n"
    and cap_release: "cap (release n b) = cap n"
    and free_mark: "wf n \<Longrightarrow> free (mark n (int i)) = free n - {i}"
    and free_release: "wf n \<Longrightarrow> i < cap n \<Longrightarrow> free (release n (int i)) = insert i (free n)"
    and first_none: "first_free n = -1 \<longleftrightarrow> free n = {}"
    and first_min: "free n \<noteq> {} \<Longrightarrow> first_free n = int (Min (free n))"
    and count_card: "free_count n = card (free n)"
begin

lemma first_in_free: "first_free n \<noteq> -1 \<Longrightarrow> nat (first_free n) \<in> free n \<and> first_free n = int (nat (first_free n))"
  using first_none [of n] first_min [of n] free_finite [of n] by auto

lemma first_below_cap: "first_free n \<noteq> -1 \<Longrightarrow> nat (first_free n) < cap n"
  using first_in_free [of n] free_below [of n] by auto

lemma allocate_free:
  assumes "wf n" "first_free n \<noteq> -1"
  shows "free (mark n (first_free n)) = free n - {nat (first_free n)}"
  using assms first_in_free [of n] free_mark [of n "nat (first_free n)"] by simp

lemma allocate_count:
  assumes "wf n" "first_free n \<noteq> -1"
  shows "Suc (free_count (mark n (first_free n))) = free_count n"
  unfolding count_card allocate_free [OF assms]
  using free_finite first_in_free [OF assms(2)] by (intro card_Suc_Diff1) simp_all

lemma count_zero: "free_count n = 0 \<longleftrightarrow> first_free n = -1"
  by (simp add: count_card first_none free_finite)

lemma release_mark:
  assumes "wf n" "i \<in> free n"
  shows "free (release (mark n (int i)) (int i)) = free n"
proof -
  have "i < cap n" using assms(2) free_below by auto
  then have "i < cap (mark n (int i))" by (simp add: cap_mark)
  then have "free (release (mark n (int i)) (int i)) = insert i (free (mark n (int i)))"
    by (rule free_release [OF wf_mark [OF assms(1)]])
  also have "\<dots> = insert i (free n - {i})"
    by (simp only: free_mark [OF assms(1)])
  finally show ?thesis using assms(2) by (simp add: insert_absorb)
qed

end

context commons_laws begin

lemma node_wf_upd:
  assumes "node_wf n"
  shows "node_wf (node_setBlockUsed c n i)" and "node_wf (node_setBlockFree c n i)"
  using assms
  by (simp_all add: node_wf_def node_setBlockUsed_def node_setBlockFree_def bits.length_setb bits.length_clean)

lemma node_bit_range:
  assumes "node_wf n" "i < unat (nd_blocksCount n)"
  shows "0 \<le> int i" and "int i < 8 * int (length (nd_blocks n))"
proof -
  have "i < 8 * length (nd_blocks n)" using assms by (simp add: node_wf_def)
  then show "int i < 8 * int (length (nd_blocks n))" by linarith
qed simp

lemma node_isBlockUsed_setBlockUsed:
  assumes "node_wf n" "i < unat (nd_blocksCount n)" "j < unat (nd_blocksCount n)"
  shows "node_isBlockUsed c (node_setBlockUsed c n (int i)) (int j) \<longleftrightarrow> j = i \<or> node_isBlockUsed c n (int j)"
  using bits.test_setb [OF node_bit_range [OF assms(1,2)] node_bit_range [OF assms(1,3)]] assms(2,3)
  unfolding node_isBlockUsed_def node_blockIsValidIndex_nat node_fields
  by (simp add: node_setBlockUsed_def)

lemma node_isBlockUsed_setBlockFree:
  assumes "node_wf n" "i < unat (nd_blocksCount n)" "j < unat (nd_blocksCount n)"
  shows "node_isBlockUsed c (node_setBlockFree c n (int i)) (int j) \<longleftrightarrow> j \<noteq> i \<and> node_isBlockUsed c n (int j)"
  using bits.test_clean [OF node_bit_range [OF assms(1,2)] node_bit_range [OF assms(1,3)]] assms(2,3)
  unfolding node_isBlockUsed_def node_blockIsValidIndex_nat node_fields
  by (simp add: node_setBlockFree_def)

lemma node_freeBlocks_setBlockUsed:
  assumes "node_wf n"
  shows "node_freeBlocks c (node_setBlockUsed c n (int i)) = node_freeBlocks c n - {i}"
proof (cases "i < unat (nd_blocksCount n)")
  case True
  then show ?thesis
    using node_isBlockUsed_setBlockUsed [OF assms True] by (auto simp: node_freeBlocks_def)
next
  case False
  then have "node_setBlockUsed c n (int i) = n" "i \<notin> node_freeBlocks c n"
    by (simp_all only: node_setBlockUsed_def node_blockIsValidIndex_nat) (simp_all add: node_freeBlocks_def)
  then show ?thesis by simp
qed

lemma node_freeBlocks_setBlockFree:
  assumes "node_wf n" "i < unat (nd_blocksCount n)"
  shows "node_freeBlocks c (node_setBlockFree c n (int i)) = insert i (node_freeBlocks c n)"
  using node_isBlockUsed_setBlockFree [OF assms] assms(2) by (auto simp: node_freeBlocks_def)

lemma node_freeBlocks_zeros:
  assumes "nd_blocks n = getByteArrayForBlocksCount (nd_blocksCount n)"
  shows "node_freeBlocks c n = {..<unat (nd_blocksCount n)}"
proof -
  let ?size = "(unat (nd_blocksCount n) + 7) div 8"
  have "\<not> c_test_bit c (replicate ?size 0) (int i)" if "i < unat (nd_blocksCount n)" for i
  proof (rule bits.test_zeros)
    have "i < 8 * ?size" using that by simp
    then show "int i < 8 * int ?size" by linarith
  qed simp
  then show ?thesis
    by (auto simp: node_freeBlocks_def node_isBlockUsed_def assms getByteArrayForBlocksCount_def)
qed

lemma node_freeBlocks_create: "node_freeBlocks c (node_create cnt) = {..<unat cnt}"
  by (subst node_freeBlocks_zeros) (simp_all add: node_create_def)

lemma node_freeBlocks_setAllBlocksFree:
  "node_freeBlocks c (node_setAllBlocksFree n) = {..<unat (nd_blocksCount n)}"
  by (subst node_freeBlocks_zeros) (simp_all add: node_setAllBlocksFree_def)

end

sublocale commons_laws \<subseteq> blk: block_space node_wf "node_freeBlocks c" "\<lambda>n. unat (nd_blocksCount n)"
    "node_setBlockUsed c" "node_setBlockFree c" "node_getFirstFreeBlock c" "node_getBlocksFreeCount c"
proof
  show "finite (node_freeBlocks c n)" for n
    by (rule finite_node_freeBlocks)
  show "node_freeBlocks c n \<subseteq> {..<unat (nd_blocksCount n)}" for n
    by (auto simp: node_freeBlocks_def)
qed (simp_all add: node_wf_upd node_freeBlocks_setBlockUsed node_freeBlocks_setBlockFree
    node_getFirstFreeBlock_None node_getFirstFreeBlock_Min node_getBlocksFreeCount_card)

context commons_laws begin

lemma allocate_first_free:
  assumes "node_wf n" and "node_getFirstFreeBlock c n \<noteq> -1"
  shows "\<exists>k. node_getFirstFreeBlock c n = int k \<and> k < unat (nd_blocksCount n) \<and>
    \<not> node_isBlockUsed c n (int k) \<and> (\<forall>j < k. node_isBlockUsed c n (int j)) \<and>
    node_freeBlocks c (node_setBlockUsed c n (int k)) = node_freeBlocks c n - {k} \<and>
    Suc (node_getBlocksFreeCount c (node_setBlockUsed c n (int k))) = node_getBlocksFreeCount c n"
proof -
  obtain k where k: "node_getFirstFreeBlock c n = int k" "k \<in> node_freeBlocks c n"
    and least: "\<And>j. j \<in> node_freeBlocks c n \<Longrightarrow> k \<le> j"
    using assms(2) by (rule node_getFirstFreeBlock_Some) auto
  have "node_isBlockUsed c n (int j)" if "j < k" for j
    using that k(2) least [of j] by (fastforce simp: node_freeBlocks_def)
  with k blk.allocate_free [OF assms] blk.allocate_count [OF assms] show ?thesis
    by (auto simp: node_freeBlocks_def)
qed

end

section \<open>Properties of node.c\<close>

text \<open>Taking the first free block of a node marks exactly that block: the index
  \<open>node_getFirstFreeBlock\<close> returns was free, is below the block count, is the least free one,
  and after \<open>node_setBlockUsed\<close> every other block keeps its state.\<close>

theorem node_allocate_first_free:
  assumes "commons_laws c" and "node_wf n" and "node_getFirstFreeBlock c n \<noteq> -1"
  shows "\<exists>k. node_getFirstFreeBlock c n = int k \<and> k < unat (nd_blocksCount n) \<and>
    \<not> node_isBlockUsed c n (int k) \<and> (\<forall>j < k. node_isBlockUsed c n (int j)) \<and>
    node_freeBlocks c (node_setBlockUsed c n (int k)) = node_freeBlocks c n - {k} \<and>
    Suc (node_getBlocksFreeCount c (node_setBlockUsed c n (int k))) = node_getBlocksFreeCount c n"
  using assms by (rule commons_laws.allocate_first_free)

theorem node_allocate_first_free_witness:
  "\<exists>k. node_getFirstFreeBlock commons_ref (node_create 3) = int k \<and> k < 3 \<and>
    Suc (node_getBlocksFreeCount commons_ref (node_setBlockUsed commons_ref (node_create 3) (int k))) = 3"
proof -
  have free: "node_freeBlocks commons_ref (node_create 3) = {..<3}"
    using cref.node_freeBlocks_create [of 3] by simp
  then have "node_getFirstFreeBlock commons_ref (node_create 3) \<noteq> -1"
    unfolding node_getFirstFreeBlock_None by (simp add: lessThan_empty_iff)
  from node_allocate_first_free [OF cref.commons_laws_axioms node_wf_create this]
  obtain k where "node_getFirstFreeBlock commons_ref (node_create 3) = int k"
    "k < unat (nd_blocksCount (node_create 3))"
    "Suc (node_getBlocksFreeCount commons_ref (node_setBlockUsed commons_ref (node_create 3) (int k))) =
      node_getBlocksFreeCount commons_ref (node_create 3)"
    by (elim exE conjE) (rule that)
  moreover have "node_getBlocksFreeCount commons_ref (node_create 3) = 3"
    by (simp add: node_getBlocksFreeCount_card free)
  ultimately show ?thesis by (intro exI [of _ k] conjI) (simp_all add: node_create_def)
qed

end
