(* ===== verification/Mongo.thy ===== *)
theory Mongo
  imports FS_Node
begin

text \<open>
  \<open>FileSystem/src/mongo/\<close>: the metadata of the MDFS in three MongoDB collections. The driver
  (\<open>mongoc\<close>) is a parameter, the fields \<open>m_find\<close>, \<open>m_insert\<close>, \<open>m_remove\<close>, \<open>m_update\<close>,
  \<open>m_index\<close> and \<open>m_oid\<close> of the environment record over an abstract database state; queries and
  updates are the BSON documents the code builds. \<open>doc_store\<close> states the documented behaviour
  of a running server (equality queries, \<open>$elemMatch\<close>, \<open>$set\<close>, \<open>$addToSet\<close>, \<open>$pull\<close>, the
  unique index and the primary key) and is interpreted on a complete list-based store;
  \<open>typed_coll\<close> lifts it to the records a collection holds.

  \<open>filesystem_initialize\<close> opens the three collections before anything else runs, so the lazy
  \<open>mongo_*_checkInit\<close> calls find the handle set; the handles are not part of the state.
\<close>

datatype coll = DirColl | FileColl | NodeColl

record 'db mongo_env = commons +
  m_find :: "coll \<Rightarrow> nat \<Rightarrow> doc \<Rightarrow> 'db \<Rightarrow> doc list"
  m_insert :: "coll \<Rightarrow> doc \<Rightarrow> 'db \<Rightarrow> bool \<times> 'db"
  m_remove :: "coll \<Rightarrow> doc \<Rightarrow> 'db \<Rightarrow> bool \<times> 'db"
  m_update :: "coll \<Rightarrow> doc \<Rightarrow> doc \<Rightarrow> 'db \<Rightarrow> 'db"
  m_index :: "coll \<Rightarrow> doc \<Rightarrow> bool \<Rightarrow> 'db \<Rightarrow> 'db"
  m_oid :: "'db \<Rightarrow> string \<times> 'db"

section \<open>mongo.c\<close>

definition mongo_generateId :: "('db, 'z) mongo_env_scheme \<Rightarrow> 'db \<Rightarrow> string \<times> 'db" where
  "mongo_generateId E db = m_oid E db"

definition mongo_createIndexIfAbsent ::
    "('db, 'z) mongo_env_scheme \<Rightarrow> coll \<Rightarrow> doc \<Rightarrow> bool \<Rightarrow> 'db \<Rightarrow> 'db" where
  "mongo_createIndexIfAbsent E c indexKeys unique db = m_index E c indexKeys unique db"

definition mongo_saveDoc :: "('db, 'z) mongo_env_scheme \<Rightarrow> coll \<Rightarrow> doc \<Rightarrow> 'db \<Rightarrow> bool \<times> 'db" where
  "mongo_saveDoc E c doc db = m_insert E c doc db"

text \<open>
  The parser of a document may be undefined on it (\<^const>\<open>None\<close>); a query for one document
  returns NULL, the inner \<^const>\<open>None\<close>, when there is none.
\<close>

definition mongo_getByQuery ::
    "('db, 'z) mongo_env_scheme \<Rightarrow> coll \<Rightarrow> doc \<Rightarrow> (doc \<Rightarrow> 'a option) \<Rightarrow> 'db \<Rightarrow> 'a list option" where
  "mongo_getByQuery E c query parser db = those (map parser (m_find E c 0 query db))"

definition mongo_getDocByQuery ::
    "('db, 'z) mongo_env_scheme \<Rightarrow> coll \<Rightarrow> doc \<Rightarrow> (doc \<Rightarrow> 'a option) \<Rightarrow> 'db \<Rightarrow> 'a option option" where
  "mongo_getDocByQuery E c query parser db =
     (case m_find E c 1 query db of
        [] \<Rightarrow> Some None
      | item # _ \<Rightarrow> do { x \<leftarrow> parser item; Some (Some x) })"

definition mongo_getDocById ::
    "('db, 'z) mongo_env_scheme \<Rightarrow> coll \<Rightarrow> string \<Rightarrow> (doc \<Rightarrow> 'a option) \<Rightarrow> 'db \<Rightarrow> 'a option option" where
  "mongo_getDocById E c i parser db = mongo_getDocByQuery E c [(''_id'', BUtf8 i)] parser db"

definition mongo_deleteDocByQuery :: "('db, 'z) mongo_env_scheme \<Rightarrow> coll \<Rightarrow> doc \<Rightarrow> 'db \<Rightarrow> bool \<times> 'db" where
  "mongo_deleteDocByQuery E c query db = m_remove E c query db"

definition mongo_update :: "('db, 'z) mongo_env_scheme \<Rightarrow> coll \<Rightarrow> doc \<Rightarrow> doc \<Rightarrow> 'db \<Rightarrow> 'db" where
  "mongo_update E c query update db = m_update E c query update db"

section \<open>mongo_dir.c\<close>

definition uniqueKeys :: doc where
  "uniqueKeys = [(''name'', BInt32 1), (''parentId'', BInt32 1)]"

definition mongo_dir_init :: "('db, 'z) mongo_env_scheme \<Rightarrow> 'db \<Rightarrow> 'db" where
  "mongo_dir_init E db = mongo_createIndexIfAbsent E DirColl uniqueKeys True db"

text \<open>The generated identifier is written into the caller's record, which is returned.\<close>

definition mongo_dir_save :: "('db, 'z) mongo_env_scheme \<Rightarrow> dir_t \<Rightarrow> 'db \<Rightarrow> bool \<times> dir_t \<times> 'db" where
  "mongo_dir_save E dir db =
     (let (oid, db1) = mongo_generateId E db; dir' = dir\<lparr>dir_id := oid\<rparr>;
          (r, db2) = mongo_saveDoc E DirColl (dir_getBSON dir') db1
      in (r, dir', db2))"

definition mongo_dir_getById :: "('db, 'z) mongo_env_scheme \<Rightarrow> string \<Rightarrow> 'db \<Rightarrow> dir_t option option" where
  "mongo_dir_getById E i db = mongo_getDocById E DirColl i dir_getDirFromBSON db"

definition mongo_dir_getByParentId :: "('db, 'z) mongo_env_scheme \<Rightarrow> string \<Rightarrow> 'db \<Rightarrow> dir_t list option" where
  "mongo_dir_getByParentId E parentId db =
     mongo_getByQuery E DirColl [(''parentId'', BUtf8 parentId)] dir_getDirFromBSON db"

definition mongo_dir_getByNameInDir ::
    "('db, 'z) mongo_env_scheme \<Rightarrow> string \<Rightarrow> string \<Rightarrow> 'db \<Rightarrow> dir_t option option" where
  "mongo_dir_getByNameInDir E name parentId db =
     mongo_getDocByQuery E DirColl [(''name'', BUtf8 name), (''parentId'', BUtf8 parentId)]
       dir_getDirFromBSON db"

definition mongo_dir_deleteById :: "('db, 'z) mongo_env_scheme \<Rightarrow> string \<Rightarrow> 'db \<Rightarrow> bool \<times> 'db" where
  "mongo_dir_deleteById E i db = mongo_deleteDocByQuery E DirColl [(''_id'', BUtf8 i)] db"

definition mongo_dir_deleteAll :: "('db, 'z) mongo_env_scheme \<Rightarrow> 'db \<Rightarrow> bool \<times> 'db" where
  "mongo_dir_deleteAll E db = mongo_deleteDocByQuery E DirColl [] db"

definition mongo_dir_updateParentId :: "('db, 'z) mongo_env_scheme \<Rightarrow> string \<Rightarrow> string \<Rightarrow> 'db \<Rightarrow> 'db" where
  "mongo_dir_updateParentId E i newParentId db =
     mongo_update E DirColl [(''_id'', BUtf8 i)] [(''$set'', BDoc [(''parentId'', BUtf8 newParentId)])] db"

definition mongo_dir_updateName :: "('db, 'z) mongo_env_scheme \<Rightarrow> string \<Rightarrow> string \<Rightarrow> 'db \<Rightarrow> 'db" where
  "mongo_dir_updateName E i newName db =
     mongo_update E DirColl [(''_id'', BUtf8 i)] [(''$set'', BDoc [(''name'', BUtf8 newName)])] db"

section \<open>mongo_file.c\<close>

definition mongo_file_init :: "('db, 'z) mongo_env_scheme \<Rightarrow> 'db \<Rightarrow> 'db" where
  "mongo_file_init E db = mongo_createIndexIfAbsent E FileColl uniqueKeys True db"

definition mongo_file_save :: "('db, 'z) mongo_env_scheme \<Rightarrow> file_t \<Rightarrow> 'db \<Rightarrow> bool \<times> file_t \<times> 'db" where
  "mongo_file_save E file db =
     (let (oid, db1) = mongo_generateId E db; file' = file\<lparr>file_id := oid\<rparr>;
          (r, db2) = mongo_saveDoc E FileColl (file_getBSON file') db1
      in (r, file', db2))"

definition mongo_file_getById :: "('db, 'z) mongo_env_scheme \<Rightarrow> string \<Rightarrow> 'db \<Rightarrow> file_t option option" where
  "mongo_file_getById E i db = mongo_getDocById E FileColl i file_getFileFromBSON db"

definition mongo_file_getByParentId :: "('db, 'z) mongo_env_scheme \<Rightarrow> string \<Rightarrow> 'db \<Rightarrow> file_t list option" where
  "mongo_file_getByParentId E parentId db =
     mongo_getByQuery E FileColl [(''parentId'', BUtf8 parentId)] file_getFileFromBSON db"

definition mongo_file_getFilesThatHaveNode ::
    "('db, 'z) mongo_env_scheme \<Rightarrow> string \<Rightarrow> 'db \<Rightarrow> file_t list option" where
  "mongo_file_getFilesThatHaveNode E nodeId db =
     mongo_getByQuery E FileColl
       [(''blocks'', BDoc [(''$elemMatch'', BDoc [(''$elemMatch'', BDoc [(''nodeId'', BUtf8 nodeId)])])])]
       file_getFileFromBSON db"

definition mongo_file_getByNameInDir ::
    "('db, 'z) mongo_env_scheme \<Rightarrow> string \<Rightarrow> string \<Rightarrow> 'db \<Rightarrow> file_t option option" where
  "mongo_file_getByNameInDir E name parentId db =
     mongo_getDocByQuery E FileColl [(''name'', BUtf8 name), (''parentId'', BUtf8 parentId)]
       file_getFileFromBSON db"

definition mongo_file_deleteById :: "('db, 'z) mongo_env_scheme \<Rightarrow> string \<Rightarrow> 'db \<Rightarrow> bool \<times> 'db" where
  "mongo_file_deleteById E i db = mongo_deleteDocByQuery E FileColl [(''_id'', BUtf8 i)] db"

definition mongo_file_deleteAll :: "('db, 'z) mongo_env_scheme \<Rightarrow> 'db \<Rightarrow> bool \<times> 'db" where
  "mongo_file_deleteAll E db = mongo_deleteDocByQuery E FileColl [] db"

definition mongo_file_updateParentId :: "('db, 'z) mongo_env_scheme \<Rightarrow> string \<Rightarrow> string \<Rightarrow> 'db \<Rightarrow> 'db" where
  "mongo_file_updateParentId E i newParentId db =
     mongo_update E FileColl [(''_id'', BUtf8 i)] [(''$set'', BDoc [(''parentId'', BUtf8 newParentId)])] db"

definition mongo_file_updateName :: "('db, 'z) mongo_env_scheme \<Rightarrow> string \<Rightarrow> string \<Rightarrow> 'db \<Rightarrow> 'db" where
  "mongo_file_updateName E i newName db =
     mongo_update E FileColl [(''_id'', BUtf8 i)] [(''$set'', BDoc [(''name'', BUtf8 newName)])] db"

text \<open>\<open>snprintf(blockKey, 128, "blocks.%d", blockIndex)\<close>: at most twelve characters, never cut.\<close>

definition blockKey :: "u16 \<Rightarrow> string" where
  "blockKey blockIndex = ''blocks.'' @ dec (unat blockIndex)"

definition mongo_file_addBlockCopyToFile ::
    "('db, 'z) mongo_env_scheme \<Rightarrow> string \<Rightarrow> u16 \<Rightarrow> file_block_t \<Rightarrow> 'db \<Rightarrow> 'db" where
  "mongo_file_addBlockCopyToFile E i blockIndex fileBlockCopy db =
     mongo_update E FileColl [(''_id'', BUtf8 i)]
       [(''$addToSet'', BDoc [(blockKey blockIndex, BDoc (file_block_getBSON fileBlockCopy))])] db"

definition mongo_file_deleteBlockCopy ::
    "('db, 'z) mongo_env_scheme \<Rightarrow> string \<Rightarrow> u16 \<Rightarrow> file_block_t \<Rightarrow> 'db \<Rightarrow> 'db" where
  "mongo_file_deleteBlockCopy E i blockIndex fileBlockCopy db =
     mongo_update E FileColl [(''_id'', BUtf8 i)]
       [(''$pull'', BDoc [(blockKey blockIndex, BDoc (file_block_getBSON fileBlockCopy))])] db"

section \<open>mongo_node.c\<close>

text \<open>\<open>mongo_node_init\<close> only opens the collection: its index is commented out.\<close>

definition mongo_node_save :: "('db, 'z) mongo_env_scheme \<Rightarrow> node_t \<Rightarrow> 'db \<Rightarrow> bool \<times> 'db" where
  "mongo_node_save E node db = mongo_saveDoc E NodeColl (node_getBSON node) db"

definition mongo_node_getById :: "('db, 'z) mongo_env_scheme \<Rightarrow> string \<Rightarrow> 'db \<Rightarrow> node_t option option" where
  "mongo_node_getById E i db = mongo_getDocById E NodeColl i node_getNodeFromBSON db"

definition mongo_node_getAll :: "('db, 'z) mongo_env_scheme \<Rightarrow> 'db \<Rightarrow> node_t list option" where
  "mongo_node_getAll E db = mongo_getByQuery E NodeColl [] node_getNodeFromBSON db"

definition mongo_node_deleteAll :: "('db, 'z) mongo_env_scheme \<Rightarrow> 'db \<Rightarrow> bool \<times> 'db" where
  "mongo_node_deleteAll E db = mongo_deleteDocByQuery E NodeColl [] db"

definition mongo_node_updateBlocks :: "('db, 'z) mongo_env_scheme \<Rightarrow> node_t \<Rightarrow> 'db \<Rightarrow> 'db" where
  "mongo_node_updateBlocks E node db =
     mongo_update E NodeColl [(''_id'', bson_utf8 (nd_id node))]
       [(''$set'', BDoc [(''blocks'', BBinary (nd_blocks node)),
          (''blocksCount'', BInt32 (ucast (nd_blocksCount node)))])] db"

end
