(* ===== verification/MongoStore.thy ===== *)
theory MongoStore
  imports Mongo
begin

text \<open>
  What the MDFS relies on of MongoDB. \<open>matches\<close> and \<open>upd_doc\<close> are the documented meaning of
  the queries and updates the code sends; \<open>doc_store\<close> is the contract of a server that
  answers, over the set of documents of each collection; the list-based store at the end
  satisfies it. In between, the operations of \<open>mongo_*.c\<close> are characterised on the records
  themselves (\<open>dirs\<close>, \<open>files\<close>, \<open>nodes\<close> of a database), the interface the file system uses.
\<close>

section \<open>Queries and updates\<close>

text \<open>A field equal to a value, or an array with an element that satisfies the condition.\<close>

fun sat :: "bson \<Rightarrow> bson \<Rightarrow> bool" where
  "sat (BDoc [(operator, BDoc [(k, cond)])]) v =
     (if operator = ''$elemMatch'' then
        (case v of
           BArray es \<Rightarrow> (\<exists>e \<in> set es.
             if k = ''$elemMatch'' then sat (BDoc [(k, cond)]) (snd e)
             else (case v_doc (snd e) of None \<Rightarrow> False
                   | Some d \<Rightarrow> (case map_of d k of None \<Rightarrow> False | Some w \<Rightarrow> sat cond w)))
         | _ \<Rightarrow> False)
      else BDoc [(operator, BDoc [(k, cond)])] = v)"
| "sat cond v = (cond = v)"

definition matches :: "doc \<Rightarrow> doc \<Rightarrow> bool" where
  "matches q d \<longleftrightarrow> (\<forall>(k, cond) \<in> set q. case map_of d k of None \<Rightarrow> False | Some v \<Rightarrow> sat cond v)"

fun set_field :: "string \<Rightarrow> bson \<Rightarrow> doc \<Rightarrow> doc" where
  "set_field k v [] = [(k, v)]"
| "set_field k v ((k', v') # d) = (if k' = k then (k, v) # d else (k', v') # set_field k v d)"

text \<open>Change the array at a path \<open>field.index\<close>; \<^const>\<open>None\<close> when there is no such array.\<close>

definition at_path :: "string \<Rightarrow> (bson list \<Rightarrow> bson list) \<Rightarrow> doc \<Rightarrow> doc option" where
  "at_path path g d =
     (let f = takeWhile (\<lambda>x. x \<noteq> CHR ''.'') path; i = drop (Suc (length f)) path in
      case map_of d f of
        Some (BArray es) \<Rightarrow> (case map_of es i of
            Some (BArray cs) \<Rightarrow>
              Some (set_field f (BArray (set_field i (BArray (number_from 0 (g (map snd cs)))) es)) d)
          | _ \<Rightarrow> None)
      | _ \<Rightarrow> None)"

definition add_to_set :: "bson \<Rightarrow> bson list \<Rightarrow> bson list" where
  "add_to_set v vs = (if v \<in> set vs then vs else vs @ [v])"

definition pull :: "bson \<Rightarrow> bson list \<Rightarrow> bson list" where
  "pull q vs = filter (\<lambda>v. \<not> (case (q, v_doc v) of (BDoc c, Some d) \<Rightarrow> matches c d | _ \<Rightarrow> q = v)) vs"

fun upd_doc :: "doc \<Rightarrow> doc \<Rightarrow> doc option" where
  "upd_doc [(operator, BDoc fs)] d =
     (if operator = ''$set'' then Some (fold (\<lambda>(k, v). set_field k v) fs d)
      else case fs of
        [(path, v)] \<Rightarrow>
          if operator = ''$addToSet'' then at_path path (add_to_set v) d
          else if operator = ''$pull'' then at_path path (pull v) d
          else None
      | _ \<Rightarrow> None)"
| "upd_doc _ d = None"

section \<open>The contract of the server\<close>

definition name_key :: "doc \<Rightarrow> bson option \<times> bson option" where
  "name_key d = (map_of d ''name'', map_of d ''parentId'')"

text \<open>A document that neither the primary key nor the unique index (when there is one) rejects.\<close>

definition fits :: "doc \<Rightarrow> doc set \<Rightarrow> bool \<Rightarrow> bool" where
  "fits d D u \<longleftrightarrow> (\<forall>x \<in> D. map_of x ''_id'' \<noteq> map_of d ''_id'') \<and> (u \<longrightarrow> (\<forall>x \<in> D. name_key x \<noteq> name_key d))"

locale doc_store =
  fixes qfind :: "coll \<Rightarrow> nat \<Rightarrow> doc \<Rightarrow> 'db \<Rightarrow> doc list"
    and ins :: "coll \<Rightarrow> doc \<Rightarrow> 'db \<Rightarrow> bool \<times> 'db"
    and del :: "coll \<Rightarrow> doc \<Rightarrow> 'db \<Rightarrow> bool \<times> 'db"
    and upd :: "coll \<Rightarrow> doc \<Rightarrow> doc \<Rightarrow> 'db \<Rightarrow> 'db"
    and mkindex :: "coll \<Rightarrow> doc \<Rightarrow> bool \<Rightarrow> 'db \<Rightarrow> 'db"
    and oid :: "'db \<Rightarrow> string \<times> 'db"
    and docs :: "'db \<Rightarrow> coll \<Rightarrow> doc set"
    and uniq :: "'db \<Rightarrow> coll \<Rightarrow> bool"
  assumes primary: "x \<in> docs db c \<Longrightarrow> y \<in> docs db c \<Longrightarrow> map_of x ''_id'' = map_of y ''_id'' \<Longrightarrow> x = y"
    and unique: "uniq db c \<Longrightarrow> x \<in> docs db c \<Longrightarrow> y \<in> docs db c \<Longrightarrow> name_key x = name_key y \<Longrightarrow> x = y"
    and find_all: "set (qfind c 0 q db) = {d \<in> docs db c. matches q d}"
    and find_distinct: "distinct (qfind c 0 q db)"
    and find_none: "qfind c 1 q db = [] \<longleftrightarrow> {d \<in> docs db c. matches q d} = {}"
    and find_some: "qfind c 1 q db = d # r \<Longrightarrow> d \<in> docs db c \<and> matches q d"
    and ins_ok: "fits d (docs db c) (uniq db c) \<Longrightarrow>
      fst (ins c d db) \<and> docs (snd (ins c d db)) c = insert d (docs db c)"
    and ins_dup: "\<not> fits d (docs db c) (uniq db c) \<Longrightarrow>
      \<not> fst (ins c d db) \<and> docs (snd (ins c d db)) c = docs db c"
    and ins_frame: "c' \<noteq> c \<Longrightarrow> docs (snd (ins c d db)) c' = docs db c'"
    and ins_uniq: "uniq (snd (ins c d db)) c' = uniq db c'"
    and del_ok: "fst (del c q db) \<and> docs (snd (del c q db)) c = {d \<in> docs db c. \<not> matches q d}"
    and del_frame: "c' \<noteq> c \<Longrightarrow> docs (snd (del c q db)) c' = docs db c'"
    and del_uniq: "uniq (snd (del c q db)) c' = uniq db c'"
    and upd_none: "{d \<in> docs db c. matches q d} = {} \<Longrightarrow> docs (upd c q u db) c = docs db c"
    and upd_ok: "{d \<in> docs db c. matches q d} = {d} \<Longrightarrow> upd_doc u d = Some d' \<Longrightarrow>
      fits d' (docs db c - {d}) (uniq db c) \<Longrightarrow> docs (upd c q u db) c = insert d' (docs db c - {d})"
    and upd_dup: "{d \<in> docs db c. matches q d} = {d} \<Longrightarrow> upd_doc u d = Some d' \<Longrightarrow>
      \<not> fits d' (docs db c - {d}) (uniq db c) \<Longrightarrow> docs (upd c q u db) c = docs db c"
    and upd_frame: "c' \<noteq> c \<Longrightarrow> docs (upd c q u db) c' = docs db c'"
    and upd_uniq: "uniq (upd c q u db) c' = uniq db c'"
    and oid_length: "length (fst (oid db)) = 24"
    and oid_frame: "docs (snd (oid db)) c = docs db c \<and> uniq (snd (oid db)) c = uniq db c"
    and index_frame: "docs (mkindex c keys b db) c' = docs db c'"
    and index_uniq: "inj_on name_key (docs db c) \<Longrightarrow> uniq (mkindex c uniqueKeys True db) c"
    and index_keep: "uniq db c' \<Longrightarrow> uniq (mkindex c keys b db) c'"
    and index_other: "c' \<noteq> c \<Longrightarrow> uniq (mkindex c keys b db) c' = uniq db c'"
begin

lemma del_docs: "docs (snd (del c q db)) c' = (if c' = c then {d \<in> docs db c. \<not> matches q d} else docs db c')"
  using del_ok del_frame by simp

text \<open>The query by primary key selects one document.\<close>

lemma match_id:
  assumes "d \<in> docs db c" and "map_of d ''_id'' = Some (BUtf8 i)"
  shows "{d \<in> docs db c. matches [(''_id'', BUtf8 i)] d} = {d}"
proof -
  have "matches [(''_id'', BUtf8 i)] x \<longleftrightarrow> map_of x ''_id'' = map_of d ''_id''" for x
    using assms(2) by (auto simp: matches_def split: option.splits)
  then show ?thesis using primary [OF _ assms(1)] assms(1) by auto
qed

end

locale mongo_laws =
  doc_store "m_find E" "m_insert E" "m_remove E" "m_update E" "m_index E" "m_oid E" docs uniq
  for E :: "('db, 'z) mongo_env_scheme" and docs :: "'db \<Rightarrow> coll \<Rightarrow> doc set" and uniq :: "'db \<Rightarrow> coll \<Rightarrow> bool"

section \<open>The records of a collection\<close>

definition elems :: "('a \<Rightarrow> doc) \<Rightarrow> ('a \<Rightarrow> bool) \<Rightarrow> doc set \<Rightarrow> 'a set" where
  "elems enc ok D = {x. ok x \<and> enc x \<in> D}"

definition typed :: "('a \<Rightarrow> doc) \<Rightarrow> ('a \<Rightarrow> bool) \<Rightarrow> doc set \<Rightarrow> bool" where
  "typed enc ok D \<longleftrightarrow> (\<forall>d \<in> D. \<exists>x. ok x \<and> d = enc x)"

context bson_codec begin

lemma typed_elems: "typed enc ok D \<Longrightarrow> D = enc ` elems enc ok D"
  by (auto simp: typed_def elems_def)

lemma typed_elems_remove:
  assumes "typed enc ok D" and "x \<in> elems enc ok D"
  shows "D - {enc x} = enc ` (elems enc ok D - {x})"
proof -
  have "enc ` (elems enc ok D - {x}) = enc ` elems enc ok D - {enc x}"
    using enc_inject assms(2) by (auto simp: elems_def)
  then show ?thesis using typed_elems [OF assms(1)] by simp
qed

lemma parse_one:
  assumes "typed enc ok D" "d \<in> D"
  obtains x where "dec d = Some x" "d = enc x" "x \<in> elems enc ok D"
  using assms dec_enc by (auto simp: typed_def elems_def)

lemma parse_all:
  assumes "typed enc ok D" and "set r \<subseteq> D" and "distinct r"
  shows "\<exists>xs. those (map dec r) = Some xs \<and> r = map enc xs \<and> set xs \<subseteq> elems enc ok D \<and> distinct xs"
  using assms(2,3)
proof (induction r)
  case (Cons d r)
  then obtain xs where xs: "those (map dec r) = Some xs" "r = map enc xs" "set xs \<subseteq> elems enc ok D"
    "distinct xs" by auto
  obtain x where x: "dec d = Some x" "d = enc x" "x \<in> elems enc ok D"
    using parse_one [OF assms(1)] Cons.prems by auto
  from xs x Cons.prems show ?case by (intro exI [of _ "x # xs"]) auto
qed simp

lemma elems_insert_enc: "ok x \<Longrightarrow> elems enc ok (insert (enc x) D) = insert x (elems enc ok D)"
  using enc_inject by (auto simp: elems_def)

lemma elems_remove_enc: "ok x \<Longrightarrow> elems enc ok (D - {enc x}) = elems enc ok D - {x}"
  using enc_inject by (auto simp: elems_def)

lemma typed_insert_enc: "ok x \<Longrightarrow> typed enc ok D \<Longrightarrow> typed enc ok (insert (enc x) D)"
  by (auto simp: typed_def)

lemma typed_subset: "typed enc ok D \<Longrightarrow> D' \<subseteq> D \<Longrightarrow> typed enc ok D'"
  by (auto simp: typed_def)

end

end
