(* ===== verification/Metadata.thy ===== *)
theory Metadata
  imports MongoStore
begin

text \<open>
  The MDFS metadata as the file system sees it through \<open>mongo_dir.c\<close>, \<open>mongo_file.c\<close> and
  \<open>mongo_node.c\<close>: sets of directories, files and nodes. Each operation is given by what it
  returns and by what it does to those sets, for every server that satisfies \<open>mongo_laws\<close>.
\<close>

named_theorems mongo_query "the queries of mongo_*.c on the records"

type_synonym store = "coll \<Rightarrow> doc set"

definition meta_dirs :: "store \<Rightarrow> dir_t set" where
  "meta_dirs M = elems dir_getBSON dir_ok (M DirColl)"

definition meta_files :: "store \<Rightarrow> file_t set" where
  "meta_files M = elems file_getBSON file_ok (M FileColl)"

definition meta_nodes :: "store \<Rightarrow> node_t set" where
  "meta_nodes M = elems node_getBSON node_ok (M NodeColl)"

definition meta_wf :: "store \<Rightarrow> (coll \<Rightarrow> bool) \<Rightarrow> bool" where
  "meta_wf M u \<longleftrightarrow> typed dir_getBSON dir_ok (M DirColl) \<and> typed file_getBSON file_ok (M FileColl) \<and>
     typed node_getBSON node_ok (M NodeColl) \<and> u DirColl \<and> u FileColl \<and> \<not> u NodeColl"

definition meta :: "store \<Rightarrow> dir_t set \<times> file_t set \<times> node_t set" where
  "meta M = (meta_dirs M, meta_files M, meta_nodes M)"

lemmas meta_defs = meta_def meta_dirs_def meta_files_def meta_nodes_def

section \<open>Queries on encoded records\<close>

lemma matches_Nil [mongo_query]: "matches [] d"
  by (simp add: matches_def)

lemma matches_dir_id [mongo_query]: "matches [(''_id'', BUtf8 i)] (dir_getBSON d) \<longleftrightarrow> dir_id d = i"
  by (auto simp: matches_def dir_getBSON_def)

lemma matches_dir_parent [mongo_query]:
  "matches [(''parentId'', BUtf8 p)] (dir_getBSON d) \<longleftrightarrow> dir_parentId d = p"
  by (auto simp: matches_def dir_getBSON_def)

lemma matches_dir_name [mongo_query]:
  "matches [(''name'', BUtf8 n), (''parentId'', BUtf8 p)] (dir_getBSON d) \<longleftrightarrow>
     dir_name d = Some n \<and> dir_parentId d = p"
  by (auto simp: matches_def dir_getBSON_def bson_utf8_def split: option.splits)

lemma matches_file_id [mongo_query]: "matches [(''_id'', BUtf8 i)] (file_getBSON f) \<longleftrightarrow> file_id f = i"
  by (auto simp: matches_def file_getBSON_def)

lemma matches_file_parent [mongo_query]:
  "matches [(''parentId'', BUtf8 p)] (file_getBSON f) \<longleftrightarrow> file_parentId f = p"
  by (auto simp: matches_def file_getBSON_def)

lemma matches_file_name [mongo_query]:
  "matches [(''name'', BUtf8 n), (''parentId'', BUtf8 p)] (file_getBSON f) \<longleftrightarrow>
     file_name f = Some n \<and> file_parentId f = p"
  by (auto simp: matches_def file_getBSON_def bson_utf8_def split: option.splits)

lemma matches_node_id [mongo_query]:
  "matches [(''_id'', BUtf8 i)] (node_getBSON n) \<longleftrightarrow> nd_id n = Some i"
  by (auto simp: matches_def node_getBSON_def bson_utf8_def split: option.splits)

lemma set_number_from: "snd ` set (number_from i bs) = set bs"
  by (induction bs arbitrary: i) auto

lemma bex_number_from: "(\<exists>e \<in> set (number_from i bs). P (snd e)) \<longleftrightarrow> (\<exists>b \<in> set bs. P b)"
  by (induction bs arbitrary: i) auto

lemma matches_file_has_node [mongo_query]:
  "matches [(''blocks'', BDoc [(''$elemMatch'', BDoc [(''$elemMatch'', BDoc [(''nodeId'', BUtf8 m)])])])]
     (file_getBSON f) \<longleftrightarrow> (\<exists>cs \<in> set (file_blocks f). \<exists>b \<in> set cs. fb_nodeId b = m)"
  by (simp add: matches_def file_getBSON_def file_block_getBSON_def
      bex_number_from [where P = "\<lambda>v. case v_doc v of None \<Rightarrow> False
        | Some d \<Rightarrow> (case map_of d ''nodeId'' of None \<Rightarrow> False | Some w \<Rightarrow> sat (BUtf8 m) w)"]
      bex_number_from [where P = "\<lambda>v. case v of BArray es \<Rightarrow> Q es | _ \<Rightarrow> False" for Q] eq_commute)

section \<open>Reading\<close>

context mongo_laws begin

lemma getDocByQuery_codec:
  assumes "bson_codec enc parse ident ok" and "typed enc ok (docs db c)"
  shows "mongo_getDocByQuery E c q parse db = Some None \<and>
      (\<forall>x \<in> elems enc ok (docs db c). \<not> matches q (enc x)) \<or>
    (\<exists>x. mongo_getDocByQuery E c q parse db = Some (Some x) \<and> x \<in> elems enc ok (docs db c) \<and>
      matches q (enc x))"
proof (cases "m_find E c 1 q db")
  case Nil
  then show ?thesis using find_none [of c q db]
    by (auto simp: mongo_getDocByQuery_def elems_def)
next
  case (Cons d r)
  then have d: "d \<in> docs db c" "matches q d" using find_some by blast+
  obtain x where "parse d = Some x" "d = enc x" "x \<in> elems enc ok (docs db c)"
    using bson_codec.parse_one [OF assms d(1)] .
  with Cons d show ?thesis by (simp add: mongo_getDocByQuery_def)
qed

lemma getByQuery_codec:
  assumes "bson_codec enc parse ident ok" and "typed enc ok (docs db c)"
  shows "\<exists>xs. mongo_getByQuery E c q parse db = Some xs \<and> distinct xs \<and>
    set xs = {x \<in> elems enc ok (docs db c). matches q (enc x)}"
proof -
  let ?r = "m_find E c 0 q db"
  have r: "set ?r \<subseteq> docs db c" using find_all by auto
  obtain xs where xs: "those (map parse ?r) = Some xs" "?r = map enc xs" "set xs \<subseteq> elems enc ok (docs db c)"
    "distinct xs" using bson_codec.parse_all [OF assms r find_distinct] by blast
  have "set xs = {x \<in> elems enc ok (docs db c). matches q (enc x)}"
  proof (intro equalityI subsetI)
    fix x assume x: "x \<in> set xs"
    then have "enc x \<in> set ?r" using xs(2) by simp
    then show "x \<in> {x \<in> elems enc ok (docs db c). matches q (enc x)}"
      using x xs(3) find_all by auto
  next
    fix x assume x: "x \<in> {x \<in> elems enc ok (docs db c). matches q (enc x)}"
    then have "enc x \<in> set ?r" using find_all by (simp add: elems_def)
    then obtain y where "y \<in> set xs" "enc y = enc x" using xs(2) by auto
    moreover from this have "x = y"
      using x xs(3) bson_codec.enc_inject [OF assms(1), of x y] by (auto simp: elems_def)
    ultimately show "x \<in> set xs" by simp
  qed
  with xs show ?thesis by (auto simp: mongo_getByQuery_def)
qed

lemmas dir_query = getDocByQuery_codec [OF dir_codec.bson_codec_axioms]
lemmas file_query = getDocByQuery_codec [OF file_codec.bson_codec_axioms]
lemmas node_query = getDocByQuery_codec [OF node_codec.bson_codec_axioms]

lemma dir_unique:
  assumes "meta_wf (docs db) (uniq db)" "d \<in> meta_dirs (docs db)" "e \<in> meta_dirs (docs db)"
  shows "dir_id d = dir_id e \<longleftrightarrow> d = e"
    and "dir_name d = dir_name e \<and> dir_parentId d = dir_parentId e \<longleftrightarrow> d = e"
proof -
  from assms have de: "dir_getBSON d \<in> docs db DirColl" "dir_getBSON e \<in> docs db DirColl"
    "uniq db DirColl" "dir_ok d" "dir_ok e"
    by (auto simp: meta_wf_def meta_dirs_def elems_def)
  show "dir_id d = dir_id e \<longleftrightarrow> d = e"
    using primary [OF de(1,2)] dir_codec.enc_inject [OF de(4,5)] by (auto simp: dir_getBSON_def)
  show "dir_name d = dir_name e \<and> dir_parentId d = dir_parentId e \<longleftrightarrow> d = e"
    using unique [OF de(3,1,2)] dir_codec.enc_inject [OF de(4,5)]
    by (auto simp: dir_getBSON_def name_key_def)
qed

lemma file_unique:
  assumes "meta_wf (docs db) (uniq db)" "d \<in> meta_files (docs db)" "e \<in> meta_files (docs db)"
  shows "file_id d = file_id e \<longleftrightarrow> d = e"
    and "file_name d = file_name e \<and> file_parentId d = file_parentId e \<longleftrightarrow> d = e"
proof -
  from assms have de: "file_getBSON d \<in> docs db FileColl" "file_getBSON e \<in> docs db FileColl"
    "uniq db FileColl" "file_ok d" "file_ok e"
    by (auto simp: meta_wf_def meta_files_def elems_def)
  show "file_id d = file_id e \<longleftrightarrow> d = e"
    using primary [OF de(1,2)] file_codec.enc_inject [OF de(4,5)] by (auto simp: file_getBSON_def)
  show "file_name d = file_name e \<and> file_parentId d = file_parentId e \<longleftrightarrow> d = e"
    using unique [OF de(3,1,2)] file_codec.enc_inject [OF de(4,5)]
    by (auto simp: file_getBSON_def name_key_def)
qed

lemma node_unique:
  assumes "meta_wf (docs db) (uniq db)" "d \<in> meta_nodes (docs db)" "e \<in> meta_nodes (docs db)"
  shows "nd_id d = nd_id e \<longleftrightarrow> d = e"
proof -
  from assms have de: "node_getBSON d \<in> docs db NodeColl" "node_getBSON e \<in> docs db NodeColl"
    "node_ok d" "node_ok e"
    by (auto simp: meta_wf_def meta_nodes_def elems_def)
  show ?thesis
    using primary [OF de(1,2)] node_codec.enc_inject [OF de(3,4)] by (auto simp: node_getBSON_def)
qed

lemma query_unique:
  assumes "bson_codec enc parse ident ok" and "typed enc ok (docs db c)"
    and "\<And>x y. x \<in> elems enc ok (docs db c) \<Longrightarrow> y \<in> elems enc ok (docs db c) \<Longrightarrow>
      matches q (enc x) \<Longrightarrow> matches q (enc y) \<Longrightarrow> x = y"
  shows "mongo_getDocByQuery E c q parse db = Some (Some x) \<longleftrightarrow>
      x \<in> elems enc ok (docs db c) \<and> matches q (enc x)"
    and "mongo_getDocByQuery E c q parse db = Some None \<longleftrightarrow>
      (\<forall>x \<in> elems enc ok (docs db c). \<not> matches q (enc x))"
  using getDocByQuery_codec [OF assms(1,2), of q] assms(3) by auto

lemma dir_getById:
  assumes "meta_wf (docs db) (uniq db)"
  shows "mongo_dir_getById E i db = Some (Some d) \<longleftrightarrow> d \<in> meta_dirs (docs db) \<and> dir_id d = i"
    and "mongo_dir_getById E i db = Some None \<longleftrightarrow> (\<forall>d \<in> meta_dirs (docs db). dir_id d \<noteq> i)"
proof -
  have key: "x = y" if "x \<in> elems dir_getBSON dir_ok (docs db DirColl)" "y \<in> elems dir_getBSON dir_ok (docs db DirColl)"
    "matches [(''_id'', BUtf8 i)] (dir_getBSON x)" "matches [(''_id'', BUtf8 i)] (dir_getBSON y)" for x y
    using that dir_unique(1) [OF assms, of x y] by (simp add: mongo_query meta_dirs_def)
  have ty: "typed dir_getBSON dir_ok (docs db DirColl)" using assms by (simp add: meta_wf_def)
  have q1: "mongo_getDocByQuery E DirColl [(''_id'', BUtf8 i)] dir_getDirFromBSON db = Some (Some x) \<longleftrightarrow>
      x \<in> elems dir_getBSON dir_ok (docs db DirColl) \<and> matches [(''_id'', BUtf8 i)] (dir_getBSON x)" for x
    by (rule query_unique(1) [OF dir_codec.bson_codec_axioms ty]) (rule key)
  have q2: "mongo_getDocByQuery E DirColl [(''_id'', BUtf8 i)] dir_getDirFromBSON db = Some None \<longleftrightarrow>
      (\<forall>x \<in> elems dir_getBSON dir_ok (docs db DirColl). \<not> matches [(''_id'', BUtf8 i)] (dir_getBSON x))"
    by (rule query_unique(2) [OF dir_codec.bson_codec_axioms ty]) (rule key)
  show "mongo_dir_getById E i db = Some (Some d) \<longleftrightarrow> d \<in> meta_dirs (docs db) \<and> dir_id d = i"
    unfolding mongo_dir_getById_def mongo_getDocById_def meta_dirs_def q1 mongo_query by simp
  show "mongo_dir_getById E i db = Some None \<longleftrightarrow> (\<forall>d \<in> meta_dirs (docs db). dir_id d \<noteq> i)"
    unfolding mongo_dir_getById_def mongo_getDocById_def meta_dirs_def q2 mongo_query by simp
qed

lemma dir_getByNameInDir:
  assumes "meta_wf (docs db) (uniq db)"
  shows "mongo_dir_getByNameInDir E n p db = Some (Some d) \<longleftrightarrow>
      d \<in> meta_dirs (docs db) \<and> dir_name d = Some n \<and> dir_parentId d = p"
    and "mongo_dir_getByNameInDir E n p db = Some None \<longleftrightarrow>
      (\<forall>d \<in> meta_dirs (docs db). \<not> (dir_name d = Some n \<and> dir_parentId d = p))"
proof -
  have key: "x = y" if "x \<in> elems dir_getBSON dir_ok (docs db DirColl)" "y \<in> elems dir_getBSON dir_ok (docs db DirColl)"
    "matches [(''name'', BUtf8 n), (''parentId'', BUtf8 p)] (dir_getBSON x)" "matches [(''name'', BUtf8 n), (''parentId'', BUtf8 p)] (dir_getBSON y)" for x y
    using that dir_unique(2) [OF assms, of x y] by (simp add: mongo_query meta_dirs_def)
  have ty: "typed dir_getBSON dir_ok (docs db DirColl)" using assms by (simp add: meta_wf_def)
  have q1: "mongo_getDocByQuery E DirColl [(''name'', BUtf8 n), (''parentId'', BUtf8 p)] dir_getDirFromBSON db = Some (Some x) \<longleftrightarrow>
      x \<in> elems dir_getBSON dir_ok (docs db DirColl) \<and> matches [(''name'', BUtf8 n), (''parentId'', BUtf8 p)] (dir_getBSON x)" for x
    by (rule query_unique(1) [OF dir_codec.bson_codec_axioms ty]) (rule key)
  have q2: "mongo_getDocByQuery E DirColl [(''name'', BUtf8 n), (''parentId'', BUtf8 p)] dir_getDirFromBSON db = Some None \<longleftrightarrow>
      (\<forall>x \<in> elems dir_getBSON dir_ok (docs db DirColl). \<not> matches [(''name'', BUtf8 n), (''parentId'', BUtf8 p)] (dir_getBSON x))"
    by (rule query_unique(2) [OF dir_codec.bson_codec_axioms ty]) (rule key)
  show "mongo_dir_getByNameInDir E n p db = Some (Some d) \<longleftrightarrow>
      d \<in> meta_dirs (docs db) \<and> dir_name d = Some n \<and> dir_parentId d = p"
    unfolding mongo_dir_getByNameInDir_def meta_dirs_def q1 mongo_query by simp
  show "mongo_dir_getByNameInDir E n p db = Some None \<longleftrightarrow>
      (\<forall>d \<in> meta_dirs (docs db). \<not> (dir_name d = Some n \<and> dir_parentId d = p))"
    unfolding mongo_dir_getByNameInDir_def meta_dirs_def q2 mongo_query by simp
qed

lemma file_getByNameInDir:
  assumes "meta_wf (docs db) (uniq db)"
  shows "mongo_file_getByNameInDir E n p db = Some (Some d) \<longleftrightarrow>
      d \<in> meta_files (docs db) \<and> file_name d = Some n \<and> file_parentId d = p"
    and "mongo_file_getByNameInDir E n p db = Some None \<longleftrightarrow>
      (\<forall>d \<in> meta_files (docs db). \<not> (file_name d = Some n \<and> file_parentId d = p))"
proof -
  have key: "x = y" if "x \<in> elems file_getBSON file_ok (docs db FileColl)" "y \<in> elems file_getBSON file_ok (docs db FileColl)"
    "matches [(''name'', BUtf8 n), (''parentId'', BUtf8 p)] (file_getBSON x)" "matches [(''name'', BUtf8 n), (''parentId'', BUtf8 p)] (file_getBSON y)" for x y
    using that file_unique(2) [OF assms, of x y] by (simp add: mongo_query meta_files_def)
  have ty: "typed file_getBSON file_ok (docs db FileColl)" using assms by (simp add: meta_wf_def)
  have q1: "mongo_getDocByQuery E FileColl [(''name'', BUtf8 n), (''parentId'', BUtf8 p)] file_getFileFromBSON db = Some (Some x) \<longleftrightarrow>
      x \<in> elems file_getBSON file_ok (docs db FileColl) \<and> matches [(''name'', BUtf8 n), (''parentId'', BUtf8 p)] (file_getBSON x)" for x
    by (rule query_unique(1) [OF file_codec.bson_codec_axioms ty]) (rule key)
  have q2: "mongo_getDocByQuery E FileColl [(''name'', BUtf8 n), (''parentId'', BUtf8 p)] file_getFileFromBSON db = Some None \<longleftrightarrow>
      (\<forall>x \<in> elems file_getBSON file_ok (docs db FileColl). \<not> matches [(''name'', BUtf8 n), (''parentId'', BUtf8 p)] (file_getBSON x))"
    by (rule query_unique(2) [OF file_codec.bson_codec_axioms ty]) (rule key)
  show "mongo_file_getByNameInDir E n p db = Some (Some d) \<longleftrightarrow>
      d \<in> meta_files (docs db) \<and> file_name d = Some n \<and> file_parentId d = p"
    unfolding mongo_file_getByNameInDir_def meta_files_def q1 mongo_query by simp
  show "mongo_file_getByNameInDir E n p db = Some None \<longleftrightarrow>
      (\<forall>d \<in> meta_files (docs db). \<not> (file_name d = Some n \<and> file_parentId d = p))"
    unfolding mongo_file_getByNameInDir_def meta_files_def q2 mongo_query by simp
qed

lemma node_getById:
  assumes "meta_wf (docs db) (uniq db)"
  shows "mongo_node_getById E i db = Some (Some n) \<longleftrightarrow> n \<in> meta_nodes (docs db) \<and> nd_id n = Some i"
    and "mongo_node_getById E i db = Some None \<longleftrightarrow> (\<forall>n \<in> meta_nodes (docs db). nd_id n \<noteq> Some i)"
proof -
  have key: "x = y" if "x \<in> elems node_getBSON node_ok (docs db NodeColl)" "y \<in> elems node_getBSON node_ok (docs db NodeColl)"
    "matches [(''_id'', BUtf8 i)] (node_getBSON x)" "matches [(''_id'', BUtf8 i)] (node_getBSON y)" for x y
    using that node_unique [OF assms, of x y] by (simp add: mongo_query meta_nodes_def)
  have ty: "typed node_getBSON node_ok (docs db NodeColl)" using assms by (simp add: meta_wf_def)
  have q1: "mongo_getDocByQuery E NodeColl [(''_id'', BUtf8 i)] node_getNodeFromBSON db = Some (Some x) \<longleftrightarrow>
      x \<in> elems node_getBSON node_ok (docs db NodeColl) \<and> matches [(''_id'', BUtf8 i)] (node_getBSON x)" for x
    by (rule query_unique(1) [OF node_codec.bson_codec_axioms ty]) (rule key)
  have q2: "mongo_getDocByQuery E NodeColl [(''_id'', BUtf8 i)] node_getNodeFromBSON db = Some None \<longleftrightarrow>
      (\<forall>x \<in> elems node_getBSON node_ok (docs db NodeColl). \<not> matches [(''_id'', BUtf8 i)] (node_getBSON x))"
    by (rule query_unique(2) [OF node_codec.bson_codec_axioms ty]) (rule key)
  show "mongo_node_getById E i db = Some (Some n) \<longleftrightarrow> n \<in> meta_nodes (docs db) \<and> nd_id n = Some i"
    unfolding mongo_node_getById_def mongo_getDocById_def meta_nodes_def q1 mongo_query by simp
  show "mongo_node_getById E i db = Some None \<longleftrightarrow> (\<forall>n \<in> meta_nodes (docs db). nd_id n \<noteq> Some i)"
    unfolding mongo_node_getById_def mongo_getDocById_def meta_nodes_def q2 mongo_query by simp
qed

text \<open>The lists: every record that matches, once each.\<close>

lemma dir_getByParentId:
  assumes "meta_wf (docs db) (uniq db)"
  shows "\<exists>xs. mongo_dir_getByParentId E p db = Some xs \<and> distinct xs \<and>
    set xs = {d \<in> meta_dirs (docs db). dir_parentId d = p}"
  using getByQuery_codec [OF dir_codec.bson_codec_axioms, of db DirColl "[(''parentId'', BUtf8 p)]"] assms
  by (simp add: mongo_dir_getByParentId_def mongo_query meta_wf_def meta_dirs_def)

lemma file_getByParentId:
  assumes "meta_wf (docs db) (uniq db)"
  shows "\<exists>xs. mongo_file_getByParentId E p db = Some xs \<and> distinct xs \<and>
    set xs = {f \<in> meta_files (docs db). file_parentId f = p}"
  using getByQuery_codec [OF file_codec.bson_codec_axioms, of db FileColl "[(''parentId'', BUtf8 p)]"] assms
  by (simp add: mongo_file_getByParentId_def mongo_query meta_wf_def meta_files_def)

lemma file_getFilesThatHaveNode:
  assumes "meta_wf (docs db) (uniq db)"
  shows "\<exists>xs. mongo_file_getFilesThatHaveNode E m db = Some xs \<and> distinct xs \<and>
    set xs = {f \<in> meta_files (docs db). \<exists>cs \<in> set (file_blocks f). \<exists>b \<in> set cs. fb_nodeId b = m}"
  using getByQuery_codec [OF file_codec.bson_codec_axioms, of db FileColl
      "[(''blocks'', BDoc [(''$elemMatch'', BDoc [(''$elemMatch'', BDoc [(''nodeId'', BUtf8 m)])])])]"] assms
  by (simp add: mongo_file_getFilesThatHaveNode_def mongo_query meta_wf_def meta_files_def)

lemma node_getAll:
  assumes "meta_wf (docs db) (uniq db)"
  shows "\<exists>xs. mongo_node_getAll E db = Some xs \<and> distinct xs \<and> set xs = meta_nodes (docs db)"
  using getByQuery_codec [OF node_codec.bson_codec_axioms, of db NodeColl "[]"] assms
  by (simp add: mongo_node_getAll_def mongo_query meta_wf_def meta_nodes_def)

end

section \<open>Writing\<close>

lemma name_key_enc [simp]:
  "name_key (dir_getBSON d) = (Some (bson_utf8 (dir_name d)), Some (BUtf8 (dir_parentId d)))"
  "name_key (file_getBSON f) = (Some (bson_utf8 (file_name f)), Some (BUtf8 (file_parentId f)))"
  by (simp_all add: name_key_def dir_getBSON_def file_getBSON_def)

lemma bson_utf8_inject [simp]: "bson_utf8 s = bson_utf8 t \<longleftrightarrow> s = t"
  by (auto simp: bson_utf8_def split: option.splits)

lemma id_enc [simp]:
  "map_of (dir_getBSON d) ''_id'' = Some (BUtf8 (dir_id d))"
  "map_of (file_getBSON f) ''_id'' = Some (BUtf8 (file_id f))"
  "map_of (node_getBSON n) ''_id'' = Some (bson_utf8 (nd_id n))"
  by (simp_all add: dir_getBSON_def file_getBSON_def node_getBSON_def)

context mongo_laws begin

text \<open>An update of one record: it takes effect unless the unique index forbids it.\<close>

lemma update_codec:
  assumes cd: "bson_codec enc parse ident ok" and ty: "typed enc ok (docs db c)"
    and mem: "x \<in> elems enc ok (docs db c)" and y: "ok y" "ident y = ident x"
    and u: "upd_doc u (enc x) = Some (enc y)"
  defines "S \<equiv> elems enc ok (docs db c)" and "D' \<equiv> docs (m_update E c [(''_id'', BUtf8 (ident x))] u db) c"
  shows "elems enc ok D' = (if uniq db c \<and> (\<exists>z \<in> S - {x}. name_key (enc z) = name_key (enc y))
      then S else insert y (S - {x}))"
    and "typed enc ok D'"
proof -
  let ?D = "docs db c"
  have x: "enc x \<in> ?D" "ok x" using mem by (auto simp: elems_def)
  have sel: "{d \<in> ?D. matches [(''_id'', BUtf8 (ident x))] d} = {enc x}"
    by (rule match_id [OF x(1)]) (rule bson_codec.enc_id [OF cd x(2)])
  have "map_of (enc y) ''_id'' = map_of (enc x) ''_id''"
    using bson_codec.enc_id [OF cd] x(2) y by simp
  then have fit: "fits (enc y) (?D - {enc x}) (uniq db c) \<longleftrightarrow>
      \<not> (uniq db c \<and> (\<exists>z \<in> S - {x}. name_key (enc z) = name_key (enc y)))"
  proof -
    have "\<forall>z \<in> ?D - {enc x}. map_of z ''_id'' \<noteq> map_of (enc y) ''_id''"
      using primary [OF _ x(1)] \<open>map_of (enc y) ''_id'' = _\<close> by auto
    moreover have "(\<forall>z \<in> ?D - {enc x}. name_key z \<noteq> k) \<longleftrightarrow> \<not> (\<exists>z \<in> S - {x}. name_key (enc z) = k)" for k
      unfolding bson_codec.typed_elems_remove [OF cd ty mem] S_def by blast
    ultimately show ?thesis unfolding fits_def by blast
  qed
  show "elems enc ok D' = (if uniq db c \<and> (\<exists>z \<in> S - {x}. name_key (enc z) = name_key (enc y))
      then S else insert y (S - {x}))"
  proof (cases "fits (enc y) (?D - {enc x}) (uniq db c)")
    case True
    then have "D' = insert (enc y) (?D - {enc x})" unfolding D'_def by (rule upd_ok [OF sel u])
    then have "elems enc ok D' = insert y (S - {x})"
      by (simp add: S_def bson_codec.elems_insert_enc [OF cd y(1)] bson_codec.elems_remove_enc [OF cd x(2)])
    moreover have "\<not> (uniq db c \<and> (\<exists>z \<in> S - {x}. name_key (enc z) = name_key (enc y)))"
      using fit True by blast
    ultimately show ?thesis by (simp only: if_False)
  next
    case False
    then have "D' = ?D" unfolding D'_def by (rule upd_dup [OF sel u])
    moreover have "uniq db c \<and> (\<exists>z \<in> S - {x}. name_key (enc z) = name_key (enc y))"
      using fit False by blast
    ultimately show ?thesis by (simp add: S_def)
  qed
  show "typed enc ok D'"
  proof (cases "fits (enc y) (?D - {enc x}) (uniq db c)")
    case True
    then have D': "D' = insert (enc y) (?D - {enc x})" unfolding D'_def by (rule upd_ok [OF sel u])
    show ?thesis unfolding D'
      by (rule bson_codec.typed_insert_enc [OF cd y(1)], rule bson_codec.typed_subset [OF cd ty]) auto
  next
    case False
    then have "D' = ?D" unfolding D'_def by (rule upd_dup [OF sel u])
    then show ?thesis using ty by simp
  qed
qed

text \<open>An update of a record that is not there does nothing.\<close>

lemma update_missing:
  assumes "bson_codec enc parse ident ok" and "typed enc ok (docs db c)"
    and "\<forall>x \<in> elems enc ok (docs db c). ident x \<noteq> i"
  shows "docs (m_update E c [(''_id'', BUtf8 i)] u db) c = docs db c"
proof (rule upd_none)
  have "\<not> matches [(''_id'', BUtf8 i)] d" if d: "d \<in> docs db c" for d
  proof -
    obtain x where x: "d = enc x" "x \<in> elems enc ok (docs db c)"
      using bson_codec.parse_one [OF assms(1,2) d] by blast
    then have "ok x" by (simp add: elems_def)
    from bson_codec.enc_id [OF assms(1) this] assms(3) x show ?thesis by (auto simp: matches_def)
  qed
  then show "{d \<in> docs db c. matches [(''_id'', BUtf8 i)] d} = {}" by simp
qed

lemma wf_typed:
  assumes "meta_wf (docs db) (uniq db)"
  shows "typed dir_getBSON dir_ok (docs db DirColl)" "typed file_getBSON file_ok (docs db FileColl)"
    "typed node_getBSON node_ok (docs db NodeColl)" "uniq db DirColl" "uniq db FileColl" "\<not> uniq db NodeColl"
  using assms by (simp_all add: meta_wf_def)

end

definition dir_names :: "dir_t set \<Rightarrow> (string option \<times> string) set" where
  "dir_names S = (\<lambda>d. (dir_name d, dir_parentId d)) ` S"

definition file_names :: "file_t set \<Rightarrow> (string option \<times> string) set" where
  "file_names S = (\<lambda>f. (file_name f, file_parentId f)) ` S"

context mongo_laws begin

lemma dir_update:
  assumes wf: "meta_wf (docs db) (uniq db)" and d: "d \<in> meta_dirs (docs db)" and ok: "dir_ok e" "dir_id e = dir_id d"
    and u: "upd_doc u (dir_getBSON d) = Some (dir_getBSON e)"
  defines "db' \<equiv> m_update E DirColl [(''_id'', BUtf8 (dir_id d))] u db"
  shows "meta (docs db') = (if (dir_name e, dir_parentId e) \<in> dir_names (meta_dirs (docs db) - {d})
      then meta (docs db) else (insert e (meta_dirs (docs db) - {d}), meta_files (docs db), meta_nodes (docs db)))"
    and "meta_wf (docs db') (uniq db')"
proof -
  have others: "docs db' FileColl = docs db FileColl" "docs db' NodeColl = docs db NodeColl" "uniq db' = uniq db"
    unfolding db'_def by (simp_all add: upd_frame upd_uniq fun_eq_iff)
  note up = update_codec [OF dir_codec.bson_codec_axioms wf_typed(1) [OF wf] d [unfolded meta_dirs_def] ok u,
      folded db'_def meta_dirs_def]
  have clash: "(\<exists>z \<in> S. name_key (dir_getBSON z) = name_key (dir_getBSON e)) \<longleftrightarrow>
      (dir_name e, dir_parentId e) \<in> dir_names S" for S
    by (simp add: dir_names_def image_iff) metis
  show "meta (docs db') = (if (dir_name e, dir_parentId e) \<in> dir_names (meta_dirs (docs db) - {d})
      then meta (docs db) else (insert e (meta_dirs (docs db) - {d}), meta_files (docs db), meta_nodes (docs db)))"
    using up(1) wf_typed(4) [OF wf] by (simp only: clash meta_def meta_dirs_def [of "docs db'"] simp_thms)
      (simp add: meta_files_def meta_nodes_def others)
  show "meta_wf (docs db') (uniq db')"
    using up(2) wf by (simp add: meta_wf_def others)
qed

lemma file_update:
  assumes wf: "meta_wf (docs db) (uniq db)" and d: "d \<in> meta_files (docs db)" and ok: "file_ok e" "file_id e = file_id d"
    and u: "upd_doc u (file_getBSON d) = Some (file_getBSON e)"
  defines "db' \<equiv> m_update E FileColl [(''_id'', BUtf8 (file_id d))] u db"
  shows "meta (docs db') = (if (file_name e, file_parentId e) \<in> file_names (meta_files (docs db) - {d})
      then meta (docs db) else (meta_dirs (docs db), insert e (meta_files (docs db) - {d}), meta_nodes (docs db)))"
    and "meta_wf (docs db') (uniq db')"
proof -
  have others: "docs db' DirColl = docs db DirColl" "docs db' NodeColl = docs db NodeColl" "uniq db' = uniq db"
    unfolding db'_def by (simp_all add: upd_frame upd_uniq fun_eq_iff)
  note up = update_codec [OF file_codec.bson_codec_axioms wf_typed(2) [OF wf] d [unfolded meta_files_def] ok u,
      folded db'_def meta_files_def]
  have clash: "(\<exists>z \<in> S. name_key (file_getBSON z) = name_key (file_getBSON e)) \<longleftrightarrow>
      (file_name e, file_parentId e) \<in> file_names S" for S
    by (simp add: file_names_def image_iff) metis
  show "meta (docs db') = (if (file_name e, file_parentId e) \<in> file_names (meta_files (docs db) - {d})
      then meta (docs db) else (meta_dirs (docs db), insert e (meta_files (docs db) - {d}), meta_nodes (docs db)))"
    using up(1) wf_typed(5) [OF wf] by (simp only: clash meta_def meta_files_def [of "docs db'"] simp_thms)
      (simp add: meta_dirs_def meta_nodes_def others)
  show "meta_wf (docs db') (uniq db')"
    using up(2) wf by (simp add: meta_wf_def others)
qed

lemma node_updateBlocks:
  assumes wf: "meta_wf (docs db) (uniq db)" and n: "n \<in> meta_nodes (docs db)" and m: "nd_id m = nd_id n"
  defines "db' \<equiv> mongo_node_updateBlocks E m db"
  shows "meta (docs db') = (meta_dirs (docs db), meta_files (docs db), insert m (meta_nodes (docs db) - {n}))"
    and "meta_wf (docs db') (uniq db')"
proof -
  have ok: "node_ok n" "node_ok m" using n m by (auto simp: meta_nodes_def elems_def node_ok_def)
  then have i: "the (nd_id m) = the (nd_id n)" "bson_utf8 (nd_id m) = BUtf8 (the (nd_id n))"
    using m by (auto simp: node_ok_def bson_utf8_def)
  let ?u = "[(''$set'', BDoc [(''blocks'', BBinary (nd_blocks m)), (''blocksCount'', BInt32 (ucast (nd_blocksCount m)))])]"
  have u: "upd_doc ?u (node_getBSON n) = Some (node_getBSON m)"
    using m by (simp add: node_getBSON_def)
  have db': "db' = m_update E NodeColl [(''_id'', BUtf8 (the (nd_id n)))] ?u db"
    by (simp add: db'_def mongo_node_updateBlocks_def mongo_update_def i)
  have others: "docs db' DirColl = docs db DirColl" "docs db' FileColl = docs db FileColl" "uniq db' = uniq db"
    unfolding db' by (simp_all add: upd_frame upd_uniq fun_eq_iff)
  note up = update_codec [OF node_codec.bson_codec_axioms wf_typed(3) [OF wf] n [unfolded meta_nodes_def] ok(2) i(1) u,
      folded db' meta_nodes_def]
  show "meta (docs db') = (meta_dirs (docs db), meta_files (docs db), insert m (meta_nodes (docs db) - {n}))"
    using up(1) wf_typed(6) [OF wf] by (simp add: meta_def meta_dirs_def meta_files_def others meta_nodes_def [of "docs db'"])
  show "meta_wf (docs db') (uniq db')"
    using up(2) wf by (simp add: meta_wf_def others)
qed

text \<open>The updates of the code, on the records.\<close>

lemma dir_updateName:
  fixes n :: string
  assumes wf: "meta_wf (docs db) (uniq db)" and d: "d \<in> meta_dirs (docs db)"
  defines "db' \<equiv> mongo_dir_updateName E (dir_id d) n db"
  shows "meta (docs db') = (if (Some n, dir_parentId d) \<in> dir_names (meta_dirs (docs db) - {d})
      then meta (docs db)
      else (insert (d\<lparr>dir_name := Some n\<rparr>) (meta_dirs (docs db) - {d}), meta_files (docs db), meta_nodes (docs db)))"
    and "meta_wf (docs db') (uniq db')"
proof -
  let ?e = "d\<lparr>dir_name := Some n\<rparr>"
  have ok: "dir_ok ?e" "dir_id ?e = dir_id d"
    using d by (auto simp: meta_dirs_def elems_def dir_ok_def)
  have u: "upd_doc [(''$set'', BDoc [(''name'', BUtf8 n)])] (dir_getBSON d) = Some (dir_getBSON ?e)"
    by (simp add: dir_getBSON_def bson_utf8_def)
  note up = dir_update [OF wf d ok u]
  show "meta (docs db') = (if (Some n, dir_parentId d) \<in> dir_names (meta_dirs (docs db) - {d})
      then meta (docs db)
      else (insert ?e (meta_dirs (docs db) - {d}), meta_files (docs db), meta_nodes (docs db)))"
    using up(1) by (simp add: db'_def mongo_dir_updateName_def mongo_update_def)
  show "meta_wf (docs db') (uniq db')"
    using up(2) by (simp add: db'_def mongo_dir_updateName_def mongo_update_def)
qed

lemma dir_updateParentId:
  assumes wf: "meta_wf (docs db) (uniq db)" and d: "d \<in> meta_dirs (docs db)" and p: "id_ok p"
  defines "db' \<equiv> mongo_dir_updateParentId E (dir_id d) p db"
  shows "meta (docs db') = (if (dir_name d, p) \<in> dir_names (meta_dirs (docs db) - {d})
      then meta (docs db)
      else (insert (d\<lparr>dir_parentId := p\<rparr>) (meta_dirs (docs db) - {d}), meta_files (docs db), meta_nodes (docs db)))"
    and "meta_wf (docs db') (uniq db')"
proof -
  let ?e = "d\<lparr>dir_parentId := p\<rparr>"
  have ok: "dir_ok ?e" "dir_id ?e = dir_id d"
    using d p by (auto simp: meta_dirs_def elems_def dir_ok_def)
  have u: "upd_doc [(''$set'', BDoc [(''parentId'', BUtf8 p)])] (dir_getBSON d) = Some (dir_getBSON ?e)"
    by (simp add: dir_getBSON_def)
  note up = dir_update [OF wf d ok u]
  show "meta (docs db') = (if (dir_name d, p) \<in> dir_names (meta_dirs (docs db) - {d})
      then meta (docs db)
      else (insert ?e (meta_dirs (docs db) - {d}), meta_files (docs db), meta_nodes (docs db)))"
    using up(1) by (simp add: db'_def mongo_dir_updateParentId_def mongo_update_def)
  show "meta_wf (docs db') (uniq db')"
    using up(2) by (simp add: db'_def mongo_dir_updateParentId_def mongo_update_def)
qed

lemma file_updateName:
  fixes n :: string
  assumes wf: "meta_wf (docs db) (uniq db)" and d: "d \<in> meta_files (docs db)"
  defines "db' \<equiv> mongo_file_updateName E (file_id d) n db"
  shows "meta (docs db') = (if (Some n, file_parentId d) \<in> file_names (meta_files (docs db) - {d})
      then meta (docs db)
      else (meta_dirs (docs db), insert (d\<lparr>file_name := Some n\<rparr>) (meta_files (docs db) - {d}), meta_nodes (docs db)))"
    and "meta_wf (docs db') (uniq db')"
proof -
  let ?e = "d\<lparr>file_name := Some n\<rparr>"
  have ok: "file_ok ?e" "file_id ?e = file_id d"
    using d by (auto simp: meta_files_def elems_def file_ok_def)
  have u: "upd_doc [(''$set'', BDoc [(''name'', BUtf8 n)])] (file_getBSON d) = Some (file_getBSON ?e)"
    by (simp add: file_getBSON_def bson_utf8_def)
  note up = file_update [OF wf d ok u]
  show "meta (docs db') = (if (Some n, file_parentId d) \<in> file_names (meta_files (docs db) - {d})
      then meta (docs db)
      else (meta_dirs (docs db), insert ?e (meta_files (docs db) - {d}), meta_nodes (docs db)))"
    using up(1) by (simp add: db'_def mongo_file_updateName_def mongo_update_def)
  show "meta_wf (docs db') (uniq db')"
    using up(2) by (simp add: db'_def mongo_file_updateName_def mongo_update_def)
qed

lemma file_updateParentId:
  assumes wf: "meta_wf (docs db) (uniq db)" and d: "d \<in> meta_files (docs db)" and p: "id_ok p"
  defines "db' \<equiv> mongo_file_updateParentId E (file_id d) p db"
  shows "meta (docs db') = (if (file_name d, p) \<in> file_names (meta_files (docs db) - {d})
      then meta (docs db)
      else (meta_dirs (docs db), insert (d\<lparr>file_parentId := p\<rparr>) (meta_files (docs db) - {d}), meta_nodes (docs db)))"
    and "meta_wf (docs db') (uniq db')"
proof -
  let ?e = "d\<lparr>file_parentId := p\<rparr>"
  have ok: "file_ok ?e" "file_id ?e = file_id d"
    using d p by (auto simp: meta_files_def elems_def file_ok_def)
  have u: "upd_doc [(''$set'', BDoc [(''parentId'', BUtf8 p)])] (file_getBSON d) = Some (file_getBSON ?e)"
    by (simp add: file_getBSON_def)
  note up = file_update [OF wf d ok u]
  show "meta (docs db') = (if (file_name d, p) \<in> file_names (meta_files (docs db) - {d})
      then meta (docs db)
      else (meta_dirs (docs db), insert ?e (meta_files (docs db) - {d}), meta_nodes (docs db)))"
    using up(1) by (simp add: db'_def mongo_file_updateParentId_def mongo_update_def)
  show "meta_wf (docs db') (uniq db')"
    using up(2) by (simp add: db'_def mongo_file_updateParentId_def mongo_update_def)
qed

end

section \<open>Block copies\<close>

lemma map_of_number_from:
  "map_of (number_from k vs) (dec i) = (if k \<le> i \<and> i < k + length vs then Some (vs ! (i - k)) else None)"
proof (induction vs arbitrary: k)
  case (Cons v vs)
  then show ?case by (auto simp: nth_Cons' Suc_le_eq)
qed simp

lemma set_field_number_from:
  "k \<le> i \<Longrightarrow> i < k + length vs \<Longrightarrow> set_field (dec i) w (number_from k vs) = number_from k (vs[i - k := w])"
proof (induction vs arbitrary: k)
  case (Cons v vs)
  then show ?case by (cases "i = k") (auto simp: Suc_diff_Suc [symmetric] list_update.simps split: nat.splits)
qed simp

lemma matches_file_block: "matches (file_block_getBSON b) (file_block_getBSON c) \<longleftrightarrow> b = c"
proof -
  have "(ucast (fb_blockIndex b) :: u32) = ucast (fb_blockIndex c) \<longleftrightarrow> fb_blockIndex b = fb_blockIndex c"
    by (metis ucast_u16_u32)
  then show ?thesis
    by (cases b; cases c) (auto simp: matches_def file_block_getBSON_def)
qed

lemma file_block_enc_inject: "file_block_getBSON b = file_block_getBSON c \<longleftrightarrow> b = c"
  by (metis file_block_dec_enc option.inject)

definition enc_copies :: "file_block_t list \<Rightarrow> bson list" where
  "enc_copies cs = map (\<lambda>b. BDoc (file_block_getBSON b)) cs"

lemma add_to_set_copies:
  "add_to_set (BDoc (file_block_getBSON b)) (enc_copies cs) = enc_copies (if b \<in> set cs then cs else cs @ [b])"
  by (auto simp: add_to_set_def enc_copies_def file_block_enc_inject)

lemma pull_copies: "pull (BDoc (file_block_getBSON b)) (enc_copies cs) = enc_copies (filter (\<lambda>c. c \<noteq> b) cs)"
  by (induction cs) (auto simp: pull_def enc_copies_def matches_file_block)

lemma takeWhile_blockKey:
  "takeWhile (\<lambda>x. x \<noteq> CHR ''.'') (blockKey i) = ''blocks''"
  by (simp add: blockKey_def)

lemma at_path_blocks:
  assumes "unat i < length (file_blocks f)" and "\<And>cs. g (enc_copies cs) = enc_copies (h cs)"
  shows "at_path (blockKey i) g (file_getBSON f) =
    Some (file_getBSON (f\<lparr>file_blocks := (file_blocks f)[unat i := h (file_blocks f ! unat i)]\<rparr>))"
proof -
  let ?enc = "\<lambda>cs. BArray (number_from 0 (enc_copies cs))"
  have enc: "file_getBSON f = [(''_id'', BUtf8 (file_id f)), (''name'', bson_utf8 (file_name f)),
      (''size'', BInt64 (file_size f)), (''parentId'', BUtf8 (file_parentId f)),
      (''blocks'', BArray (number_from 0 (map ?enc (file_blocks f))))]" for f
    by (simp add: file_getBSON_def enc_copies_def)
  have key: "drop (Suc (length ''blocks'')) (blockKey i) = dec (unat i)"
    by (simp add: blockKey_def)
  have look: "map_of (number_from 0 (map ?enc (file_blocks f))) (dec (unat i)) =
      Some (?enc (file_blocks f ! unat i))"
    using assms(1) by (simp add: map_of_number_from)
  have upd: "set_field (dec (unat i)) w (number_from 0 (map ?enc (file_blocks f))) =
      number_from 0 ((map ?enc (file_blocks f))[unat i := w])" for w
    using set_field_number_from [of 0 "unat i" "map ?enc (file_blocks f)" w] assms(1) by simp
  have blocks: "map_of (file_getBSON f) ''blocks'' = Some (BArray (number_from 0 (map ?enc (file_blocks f))))"
    by (simp add: enc)
  have set: "set_field ''blocks'' (BArray (number_from 0 (map ?enc bs))) (file_getBSON f) =
      file_getBSON (f\<lparr>file_blocks := bs\<rparr>)" for bs
    by (simp add: enc)
  have mu: "(map ?enc bs)[k := ?enc c] = map ?enc (bs[k := c])" for bs k c
    by (simp add: map_update)
  show ?thesis
    unfolding at_path_def takeWhile_blockKey Let_def key blocks option.case bson.case look upd
    by (simp only: map_snd_number_from assms(2) mu set)
qed

context mongo_laws begin

lemma file_names_self:
  assumes "meta_wf (docs db) (uniq db)" "f \<in> meta_files (docs db)"
  shows "(file_name f, file_parentId f) \<notin> file_names (meta_files (docs db) - {f})"
  using file_unique(2) [OF assms(1,2)] by (auto simp: file_names_def)

lemma file_block_update:
  assumes wf: "meta_wf (docs db) (uniq db)" and f: "f \<in> meta_files (docs db)"
    and i: "unat i < length (file_blocks f)" and g: "\<And>cs. g (enc_copies cs) = enc_copies (h cs)"
    and u: "upd_doc u (file_getBSON f) = at_path (blockKey i) g (file_getBSON f)"
  defines "db' \<equiv> m_update E FileColl [(''_id'', BUtf8 (file_id f))] u db"
    and "f' \<equiv> f\<lparr>file_blocks := (file_blocks f)[unat i := h (file_blocks f ! unat i)]\<rparr>"
  shows "meta (docs db') = (meta_dirs (docs db), insert f' (meta_files (docs db) - {f}), meta_nodes (docs db))"
    and "meta_wf (docs db') (uniq db')"
proof -
  have ok: "file_ok f'" "file_id f' = file_id f"
    using f by (auto simp: f'_def meta_files_def elems_def file_ok_def)
  have u': "upd_doc u (file_getBSON f) = Some (file_getBSON f')"
    unfolding u f'_def by (rule at_path_blocks [where g = g and h = h, OF i g])
  note up = file_update [OF wf f ok u', folded db'_def]
  have "(file_name f', file_parentId f') \<notin> file_names (meta_files (docs db) - {f})"
    using file_names_self [OF wf f] by (simp add: f'_def)
  with up show "meta (docs db') = (meta_dirs (docs db), insert f' (meta_files (docs db) - {f}), meta_nodes (docs db))"
    and "meta_wf (docs db') (uniq db')" by simp_all
qed

lemma file_addBlockCopyToFile:
  fixes b :: file_block_t
  assumes wf: "meta_wf (docs db) (uniq db)" and f: "f \<in> meta_files (docs db)"
    and i: "unat i < length (file_blocks f)"
  defines "db' \<equiv> mongo_file_addBlockCopyToFile E (file_id f) i b db"
    and "cs \<equiv> file_blocks f ! unat i"
  shows "meta (docs db') = (meta_dirs (docs db), insert (f\<lparr>file_blocks := (file_blocks f)[unat i :=
      if b \<in> set cs then cs else cs @ [b]]\<rparr>) (meta_files (docs db) - {f}), meta_nodes (docs db))"
    and "meta_wf (docs db') (uniq db')"
  using file_block_update [where g = "add_to_set (BDoc (file_block_getBSON b))"
        and h = "\<lambda>cs. if b \<in> set cs then cs else cs @ [b]", OF wf f i add_to_set_copies,
      of "[(''$addToSet'', BDoc [(blockKey i, BDoc (file_block_getBSON b))])]"]
  by (simp_all add: db'_def cs_def mongo_file_addBlockCopyToFile_def mongo_update_def)

lemma file_deleteBlockCopy:
  fixes b :: file_block_t
  assumes wf: "meta_wf (docs db) (uniq db)" and f: "f \<in> meta_files (docs db)"
    and i: "unat i < length (file_blocks f)"
  defines "db' \<equiv> mongo_file_deleteBlockCopy E (file_id f) i b db"
  shows "meta (docs db') = (meta_dirs (docs db), insert (f\<lparr>file_blocks := (file_blocks f)[unat i :=
      filter (\<lambda>c. c \<noteq> b) (file_blocks f ! unat i)]\<rparr>) (meta_files (docs db) - {f}), meta_nodes (docs db))"
    and "meta_wf (docs db') (uniq db')"
  using file_block_update [where g = "pull (BDoc (file_block_getBSON b))"
        and h = "\<lambda>cs. filter (\<lambda>c. c \<noteq> b) cs", OF wf f i pull_copies,
      of "[(''$pull'', BDoc [(blockKey i, BDoc (file_block_getBSON b))])]"]
  by (simp_all add: db'_def mongo_file_deleteBlockCopy_def mongo_update_def)

end

section \<open>Inserting and deleting\<close>

context mongo_laws begin

lemma insert_codec:
  assumes cd: "bson_codec enc parse ident ok" and ty: "typed enc ok (docs db c)" and x: "ok x"
  defines "S \<equiv> elems enc ok (docs db c)" and "r \<equiv> fst (m_insert E c (enc x) db)"
    and "D' \<equiv> docs (snd (m_insert E c (enc x) db)) c"
  shows "r \<longleftrightarrow> (\<forall>z \<in> S. ident z \<noteq> ident x) \<and>
      \<not> (uniq db c \<and> (\<exists>z \<in> S. name_key (enc z) = name_key (enc x)))"
    and "elems enc ok D' = (if r then insert x S else S)" and "typed enc ok D'"
proof -
  have "(\<forall>z \<in> docs db c. map_of z ''_id'' \<noteq> map_of (enc x) ''_id'') \<longleftrightarrow> (\<forall>z \<in> S. ident z \<noteq> ident x)"
  proof -
    have key: "map_of (enc z) ''_id'' = Some (BUtf8 (ident z))" if "ok z" for z
      by (rule bson_codec.enc_id [OF cd that])
    have "map_of (enc z) ''_id'' = map_of (enc x) ''_id'' \<longleftrightarrow> ident z = ident x" if "z \<in> S" for z
      using that key x by (simp add: S_def elems_def)
    moreover have "docs db c = enc ` S" unfolding S_def by (rule bson_codec.typed_elems [OF cd ty])
    ultimately show ?thesis by simp
  qed
  moreover have "(\<forall>z \<in> docs db c. name_key z \<noteq> k) \<longleftrightarrow> \<not> (\<exists>z \<in> S. name_key (enc z) = k)" for k
    using bson_codec.typed_elems [OF cd ty] unfolding S_def by (metis (no_types, lifting) image_iff)
  ultimately have fit: "fits (enc x) (docs db c) (uniq db c) \<longleftrightarrow>
      (\<forall>z \<in> S. ident z \<noteq> ident x) \<and> \<not> (uniq db c \<and> (\<exists>z \<in> S. name_key (enc z) = name_key (enc x)))"
    unfolding fits_def by blast
  show r: "r \<longleftrightarrow> (\<forall>z \<in> S. ident z \<noteq> ident x) \<and>
      \<not> (uniq db c \<and> (\<exists>z \<in> S. name_key (enc z) = name_key (enc x)))"
    using ins_ok [of "enc x" db c] ins_dup [of "enc x" db c] fit unfolding r_def by blast
  have D': "D' = (if r then insert (enc x) (docs db c) else docs db c)"
    using ins_ok [of "enc x" db c] ins_dup [of "enc x" db c] unfolding r_def D'_def
    by (cases "fits (enc x) (docs db c) (uniq db c)") simp_all
  show "elems enc ok D' = (if r then insert x S else S)"
    by (simp add: D' S_def bson_codec.elems_insert_enc [OF cd x])
  show "typed enc ok D'"
    by (simp add: D' ty bson_codec.typed_insert_enc [OF cd x])
qed

lemma delete_codec:
  shows "elems enc ok (docs (snd (m_remove E c q db)) c) =
      {x \<in> elems enc ok (docs db c). \<not> matches q (enc x)}"
    and "typed enc ok (docs db c) \<Longrightarrow> typed enc ok (docs (snd (m_remove E c q db)) c)"
  using del_ok by (auto simp: elems_def typed_def)

lemma delete_typed:
  "typed enc ok (docs db c') \<Longrightarrow> typed enc ok (docs (snd (m_remove E c q db)) c')"
  using delete_codec(2) del_frame by (cases "c' = c") simp_all

lemma generateId:
  assumes "mongo_generateId E db = (i, db1)"
  shows "docs db1 = docs db" "uniq db1 = uniq db" "id_ok i" "i \<noteq> ROOT_DIR_ID"
    and "i = fst (m_oid E db)"
proof -
  have i: "i = fst (m_oid E db)" and "db1 = snd (m_oid E db)"
    using assms by (simp_all add: mongo_generateId_def)
  then show "docs db1 = docs db" "uniq db1 = uniq db"
    using oid_frame by (auto simp: fun_eq_iff)
  have len: "length i = 24" using oid_length i by simp
  then show "id_ok i" by (simp add: id_ok_def ID_SIZE_def)
  show "i \<noteq> ROOT_DIR_ID" using len by (auto simp: ROOT_DIR_ID_def)
  show "i = fst (m_oid E db)" by (rule i)
qed

lemma dir_save:
  assumes wf: "meta_wf (docs db) (uniq db)" and ok: "dir_name d \<noteq> None" "id_ok (dir_parentId d)"
    and run: "mongo_dir_save E d db = (r, d', db')"
  shows "\<exists>i. d' = d\<lparr>dir_id := i\<rparr> \<and> id_ok i \<and> i \<noteq> ROOT_DIR_ID \<and> i = fst (m_oid E db)"
    and "r \<longleftrightarrow> (dir_name d, dir_parentId d) \<notin> dir_names (meta_dirs (docs db)) \<and>
      (\<forall>e \<in> meta_dirs (docs db). dir_id e \<noteq> dir_id d')"
    and "meta (docs db') = (if r then (insert d' (meta_dirs (docs db)), meta_files (docs db), meta_nodes (docs db))
      else meta (docs db))"
    and "meta_wf (docs db') (uniq db')"
proof -
  obtain i db1 where gen: "mongo_generateId E db = (i, db1)" by (cases "mongo_generateId E db")
  note g = generateId [OF gen]
  have d': "d' = d\<lparr>dir_id := i\<rparr>" and r: "r = fst (m_insert E DirColl (dir_getBSON d') db1)"
    and db': "db' = snd (m_insert E DirColl (dir_getBSON d') db1)"
    using run gen by (auto simp: mongo_dir_save_def mongo_saveDoc_def Let_def split: prod.splits)
  have ok': "dir_ok d'" using ok g(3) by (simp add: d' dir_ok_def)
  have ty: "typed dir_getBSON dir_ok (docs db1 DirColl)" using wf_typed(1) [OF wf] g(1) by simp
  note I = insert_codec [OF dir_codec.bson_codec_axioms ty ok', folded r db',
      unfolded g(1,2), folded meta_dirs_def]
  have others: "docs db' FileColl = docs db FileColl" "docs db' NodeColl = docs db NodeColl" "uniq db' = uniq db"
    unfolding db' by (simp_all add: ins_frame ins_uniq g(1,2) fun_eq_iff)
  show "\<exists>i. d' = d\<lparr>dir_id := i\<rparr> \<and> id_ok i \<and> i \<noteq> ROOT_DIR_ID \<and> i = fst (m_oid E db)"
    using d' g(3,4,5) by blast
  have "(\<exists>z \<in> S. name_key (dir_getBSON z) = name_key (dir_getBSON d')) \<longleftrightarrow>
      (dir_name d, dir_parentId d) \<in> dir_names S" for S
    by (simp add: dir_names_def image_iff d') metis
  then show "r \<longleftrightarrow> (dir_name d, dir_parentId d) \<notin> dir_names (meta_dirs (docs db)) \<and>
      (\<forall>e \<in> meta_dirs (docs db). dir_id e \<noteq> dir_id d')"
    using I(1) wf_typed(4) [OF wf] by blast
  show "meta (docs db') = (if r then (insert d' (meta_dirs (docs db)), meta_files (docs db), meta_nodes (docs db))
      else meta (docs db))"
    using I(2) by (simp add: meta_def meta_dirs_def [of "docs db'"] meta_files_def meta_nodes_def others)
  show "meta_wf (docs db') (uniq db')"
    using I(3) wf by (simp add: meta_wf_def others)
qed

lemma file_save:
  assumes wf: "meta_wf (docs db) (uniq db)" and ok: "file_name d \<noteq> None" "id_ok (file_parentId d)"
    and run: "mongo_file_save E d db = (r, d', db')"
  shows "\<exists>i. d' = d\<lparr>file_id := i\<rparr> \<and> id_ok i \<and> i = fst (m_oid E db)"
    and "r \<longleftrightarrow> (file_name d, file_parentId d) \<notin> file_names (meta_files (docs db)) \<and>
      (\<forall>e \<in> meta_files (docs db). file_id e \<noteq> file_id d')"
    and "meta (docs db') = (if r then (meta_dirs (docs db), insert d' (meta_files (docs db)), meta_nodes (docs db))
      else meta (docs db))"
    and "meta_wf (docs db') (uniq db')"
proof -
  obtain i db1 where gen: "mongo_generateId E db = (i, db1)" by (cases "mongo_generateId E db")
  note g = generateId [OF gen]
  have d': "d' = d\<lparr>file_id := i\<rparr>" and r: "r = fst (m_insert E FileColl (file_getBSON d') db1)"
    and db': "db' = snd (m_insert E FileColl (file_getBSON d') db1)"
    using run gen by (auto simp: mongo_file_save_def mongo_saveDoc_def Let_def split: prod.splits)
  have ok': "file_ok d'" using ok g(3) by (simp add: d' file_ok_def)
  have ty: "typed file_getBSON file_ok (docs db1 FileColl)" using wf_typed(2) [OF wf] g(1) by simp
  note I = insert_codec [OF file_codec.bson_codec_axioms ty ok', folded r db',
      unfolded g(1,2), folded meta_files_def]
  have others: "docs db' DirColl = docs db DirColl" "docs db' NodeColl = docs db NodeColl" "uniq db' = uniq db"
    unfolding db' by (simp_all add: ins_frame ins_uniq g(1,2) fun_eq_iff)
  show "\<exists>i. d' = d\<lparr>file_id := i\<rparr> \<and> id_ok i \<and> i = fst (m_oid E db)"
    using d' g(3,5) by blast
  have "(\<exists>z \<in> S. name_key (file_getBSON z) = name_key (file_getBSON d')) \<longleftrightarrow>
      (file_name d, file_parentId d) \<in> file_names S" for S
    by (simp add: file_names_def image_iff d') metis
  then show "r \<longleftrightarrow> (file_name d, file_parentId d) \<notin> file_names (meta_files (docs db)) \<and>
      (\<forall>e \<in> meta_files (docs db). file_id e \<noteq> file_id d')"
    using I(1) wf_typed(5) [OF wf] by blast
  show "meta (docs db') = (if r then (meta_dirs (docs db), insert d' (meta_files (docs db)), meta_nodes (docs db))
      else meta (docs db))"
    using I(2) by (simp add: meta_def meta_files_def [of "docs db'"] meta_dirs_def meta_nodes_def others)
  show "meta_wf (docs db') (uniq db')"
    using I(3) wf by (simp add: meta_wf_def others)
qed

lemma node_save:
  assumes wf: "meta_wf (docs db) (uniq db)" and n: "node_ok n" "\<forall>m \<in> meta_nodes (docs db). nd_id m \<noteq> nd_id n"
  defines "db' \<equiv> snd (mongo_node_save E n db)"
  shows "fst (mongo_node_save E n db)"
    and "meta (docs db') = (meta_dirs (docs db), meta_files (docs db), insert n (meta_nodes (docs db)))"
    and "meta_wf (docs db') (uniq db')"
proof -
  have db': "db' = snd (m_insert E NodeColl (node_getBSON n) db)"
    by (simp add: db'_def mongo_node_save_def mongo_saveDoc_def)
  have "the (nd_id m) \<noteq> the (nd_id n)" if m: "m \<in> elems node_getBSON node_ok (docs db NodeColl)" for m
  proof -
    from m n(2) have "nd_id m \<noteq> nd_id n" "nd_id m \<noteq> None"
      by (auto simp: meta_nodes_def elems_def node_ok_def)
    with n(1) show ?thesis by (auto simp: node_ok_def)
  qed
  then have "\<forall>m \<in> elems node_getBSON node_ok (docs db NodeColl). the (nd_id m) \<noteq> the (nd_id n)"
    by blast
  note fresh = this [folded meta_nodes_def]
  note I = insert_codec [OF node_codec.bson_codec_axioms wf_typed(3) [OF wf] n(1), folded db' meta_nodes_def]
  have others: "docs db' DirColl = docs db DirColl" "docs db' FileColl = docs db FileColl" "uniq db' = uniq db"
    unfolding db' by (simp_all add: ins_frame ins_uniq fun_eq_iff)
  show r: "fst (mongo_node_save E n db)"
    using I(1) wf_typed(6) [OF wf] fresh by (simp add: mongo_node_save_def mongo_saveDoc_def)
  then show "meta (docs db') = (meta_dirs (docs db), meta_files (docs db), insert n (meta_nodes (docs db)))"
    using I(2) by (simp add: meta_def meta_nodes_def [of "docs db'"] meta_dirs_def meta_files_def others
        mongo_node_save_def mongo_saveDoc_def)
  show "meta_wf (docs db') (uniq db')"
    using I(3) wf by (simp add: meta_wf_def others)
qed

lemma delete_laws:
  assumes wf: "meta_wf (docs db) (uniq db)"
  shows "fst (mongo_dir_deleteById E i db)" "fst (mongo_file_deleteById E i db)"
    "fst (mongo_dir_deleteAll E db)" "fst (mongo_file_deleteAll E db)" "fst (mongo_node_deleteAll E db)"
    and "meta (docs (snd (mongo_dir_deleteById E i db))) =
      ({d \<in> meta_dirs (docs db). dir_id d \<noteq> i}, meta_files (docs db), meta_nodes (docs db))"
    and "meta (docs (snd (mongo_file_deleteById E i db))) =
      (meta_dirs (docs db), {f \<in> meta_files (docs db). file_id f \<noteq> i}, meta_nodes (docs db))"
    and "meta (docs (snd (mongo_dir_deleteAll E db))) = ({}, meta_files (docs db), meta_nodes (docs db))"
    and "meta (docs (snd (mongo_file_deleteAll E db))) = (meta_dirs (docs db), {}, meta_nodes (docs db))"
    and "meta (docs (snd (mongo_node_deleteAll E db))) = (meta_dirs (docs db), meta_files (docs db), {})"
    and "meta_wf (docs (snd (m_remove E c q db))) (uniq (snd (m_remove E c q db)))"
proof -
  note defs = mongo_dir_deleteById_def mongo_file_deleteById_def mongo_dir_deleteAll_def
    mongo_file_deleteAll_def mongo_node_deleteAll_def mongo_deleteDocByQuery_def
  show "fst (mongo_dir_deleteById E i db)" "fst (mongo_file_deleteById E i db)"
    "fst (mongo_dir_deleteAll E db)" "fst (mongo_file_deleteAll E db)" "fst (mongo_node_deleteAll E db)"
    using del_ok by (simp_all add: defs)
  show "meta (docs (snd (mongo_dir_deleteById E i db))) =
      ({d \<in> meta_dirs (docs db). dir_id d \<noteq> i}, meta_files (docs db), meta_nodes (docs db))"
    "meta (docs (snd (mongo_file_deleteById E i db))) =
      (meta_dirs (docs db), {f \<in> meta_files (docs db). file_id f \<noteq> i}, meta_nodes (docs db))"
    "meta (docs (snd (mongo_dir_deleteAll E db))) = ({}, meta_files (docs db), meta_nodes (docs db))"
    "meta (docs (snd (mongo_file_deleteAll E db))) = (meta_dirs (docs db), {}, meta_nodes (docs db))"
    "meta (docs (snd (mongo_node_deleteAll E db))) = (meta_dirs (docs db), meta_files (docs db), {})"
    by (simp_all add: defs meta_defs delete_codec(1) mongo_query) (simp_all add: del_frame)
  show "meta_wf (docs (snd (m_remove E c q db))) (uniq (snd (m_remove E c q db)))"
    using wf by (simp add: meta_wf_def del_uniq delete_typed)
qed

end

end
