(* ===== verification/ListStore.thy ===== *)
theory ListStore
  imports MongoStore
begin

text \<open>
  A document store that satisfies \<open>doc_store\<close>: every collection is a list of documents in
  insertion order. A list that breaks the primary key or the unique index is read as its
  longest accepted subsequence, so every state satisfies the laws. The witnesses run on it.
\<close>

record lstore =
  ls_docs :: "coll \<Rightarrow> doc list"
  ls_uniq :: "coll \<Rightarrow> bool"
  ls_next :: nat

definition ls_empty :: lstore where
  "ls_empty = \<lparr>ls_docs = (\<lambda>_. []), ls_uniq = (\<lambda>_. False), ls_next = 0\<rparr>"

text \<open>Keep a document when nothing kept so far clashes with it.\<close>

fun accept :: "bool \<Rightarrow> doc list \<Rightarrow> doc list \<Rightarrow> doc list" where
  "accept u acc [] = acc"
| "accept u acc (d # ds) = accept u (if fits d (set acc) u then acc @ [d] else acc) ds"

fun good :: "bool \<Rightarrow> doc list \<Rightarrow> bool" where
  "good u [] = True"
| "good u (d # ds) = (fits d (set ds) u \<and> good u ds)"

definition ls_view :: "lstore \<Rightarrow> coll \<Rightarrow> doc list" where
  "ls_view s c = accept (ls_uniq s c) [] (ls_docs s c)"

lemma fits_sym_insert: "fits d (insert x D) u \<longleftrightarrow> fits d D u \<and> fits x {d} u"
  by (auto simp: fits_def)

lemma good_append: "good u (ds @ [d]) \<longleftrightarrow> good u ds \<and> fits d (set ds) u"
  by (induction ds) (auto simp: fits_sym_insert fits_def)

lemma good_accept: "good u acc \<Longrightarrow> good u (accept u acc ds)"
  by (induction ds arbitrary: acc) (simp_all add: good_append)

lemma accept_good: "good u (acc @ ds) \<Longrightarrow> accept u acc ds = acc @ ds"
proof (induction ds arbitrary: acc)
  case (Cons d ds)
  have sub: "good u xs" if "good u (xs @ ys)" for xs ys
    using that by (induction ys rule: rev_induct) (auto simp: good_append simp flip: append_assoc)
  have "good u ((acc @ [d]) @ ds)" using Cons.prems by simp
  from sub [OF this] Cons.IH [OF this] show ?case by (simp add: good_append)
qed simp

lemma good_keys:
  "good u ds \<Longrightarrow> x \<in> set ds \<Longrightarrow> y \<in> set ds \<Longrightarrow> map_of x ''_id'' = map_of y ''_id'' \<Longrightarrow> x = y"
  by (induction ds) (auto simp: fits_def)

lemma good_names:
  "good True ds \<Longrightarrow> x \<in> set ds \<Longrightarrow> y \<in> set ds \<Longrightarrow> name_key x = name_key y \<Longrightarrow> x = y"
  by (induction ds) (auto simp: fits_def)

lemma good_distinct: "good u ds \<Longrightarrow> distinct ds"
  by (induction ds) (auto simp: fits_def)

lemma good_filter: "good u ds \<Longrightarrow> good u (filter P ds)"
  by (induction ds) (auto simp: fits_def)

lemma good_index: "good u ds \<Longrightarrow> inj_on name_key (set ds) \<Longrightarrow> good True ds"
  by (induction ds) (auto simp: fits_def inj_on_def)

lemma good_view [simp]: "good (ls_uniq s c) (ls_view s c)"
  by (simp add: ls_view_def good_accept)

text \<open>The operations read the view and write it back.\<close>

definition ls_put :: "coll \<Rightarrow> doc list \<Rightarrow> lstore \<Rightarrow> lstore" where
  "ls_put c ds s = s\<lparr>ls_docs := (ls_docs s)(c := ds)\<rparr>"

definition ls_find :: "coll \<Rightarrow> nat \<Rightarrow> doc \<Rightarrow> lstore \<Rightarrow> doc list" where
  "ls_find c n q s = (let r = filter (matches q) (ls_view s c) in if n = 0 then r else take n r)"

definition ls_insert :: "coll \<Rightarrow> doc \<Rightarrow> lstore \<Rightarrow> bool \<times> lstore" where
  "ls_insert c d s =
     (if fits d (set (ls_view s c)) (ls_uniq s c) then (True, ls_put c (ls_view s c @ [d]) s) else (False, s))"

definition ls_remove :: "coll \<Rightarrow> doc \<Rightarrow> lstore \<Rightarrow> bool \<times> lstore" where
  "ls_remove c q s = (True, ls_put c (filter (\<lambda>d. \<not> matches q d) (ls_view s c)) s)"

definition ls_update :: "coll \<Rightarrow> doc \<Rightarrow> doc \<Rightarrow> lstore \<Rightarrow> lstore" where
  "ls_update c q u s =
     (let ds = ls_view s c in
      case filter (matches q) ds of
        [d] \<Rightarrow> (case upd_doc u d of
            None \<Rightarrow> s
          | Some d' \<Rightarrow>
              let rest = filter (\<lambda>x. x \<noteq> d) ds in
              if fits d' (set rest) (ls_uniq s c) then ls_put c (rest @ [d']) s else s)
      | _ \<Rightarrow> s)"

definition ls_index :: "coll \<Rightarrow> doc \<Rightarrow> bool \<Rightarrow> lstore \<Rightarrow> lstore" where
  "ls_index c keys unique s =
     (if keys = uniqueKeys \<and> unique \<and> good True (ls_view s c)
      then (ls_put c (ls_view s c) s)\<lparr>ls_uniq := (ls_uniq s)(c := True)\<rparr> else s)"

definition ls_oid :: "lstore \<Rightarrow> string \<times> lstore" where
  "ls_oid s =
     (let n = take 24 (dec (ls_next s)) in
      (replicate (24 - length n) (CHR ''0'') @ n, s\<lparr>ls_next := Suc (ls_next s)\<rparr>))"

lemma view_put: "good (ls_uniq s c) ds \<Longrightarrow> ls_view (ls_put c ds s) c = ds"
  using accept_good [of "ls_uniq s c" "[]" ds] by (simp add: ls_view_def ls_put_def)

lemma view_put_other: "c' \<noteq> c \<Longrightarrow> ls_view (ls_put c ds s) c' = ls_view s c'"
  by (simp add: ls_view_def ls_put_def)

lemma uniq_put [simp]: "ls_uniq (ls_put c ds s) = ls_uniq s"
  by (simp add: ls_put_def)

lemma view_index: "ls_view (ls_index c keys b s) c' = ls_view s c'"
proof (cases "c' = c \<and> keys = uniqueKeys \<and> b \<and> good True (ls_view s c)")
  case True
  then show ?thesis
    using accept_good [of True "[]" "ls_view s c"] by (simp add: ls_index_def ls_view_def ls_put_def)
next
  case False
  then show ?thesis by (auto simp: ls_index_def ls_view_def ls_put_def)
qed

lemma filter_singleton:
  assumes "distinct ds" and "{d \<in> set ds. P d} = {x}"
  shows "filter P ds = [x]"
proof -
  have "set (filter P ds) = {x}" using assms(2) by simp
  moreover have "distinct (filter P ds)" using assms(1) by simp
  ultimately show ?thesis by (cases "filter P ds" rule: remdups_adj.cases) auto
qed

lemma set_filter_neq: "set (filter (\<lambda>x. x \<noteq> d) ds) = set ds - {d}"
  by auto

lemma update_view:
  assumes "{x \<in> set (ls_view s c). matches q x} = {d}" and "upd_doc u d = Some d'"
  shows "set (ls_view (ls_update c q u s) c) =
    (if fits d' (set (ls_view s c) - {d}) (ls_uniq s c) then insert d' (set (ls_view s c) - {d})
     else set (ls_view s c))"
proof -
  have f: "filter (matches q) (ls_view s c) = [d]"
    using good_distinct [OF good_view] assms(1) by (rule filter_singleton)
  let ?rest = "filter (\<lambda>x. x \<noteq> d) (ls_view s c)"
  have up: "ls_update c q u s =
      (if fits d' (set ?rest) (ls_uniq s c) then ls_put c (?rest @ [d']) s else s)"
    by (simp only: ls_update_def f Let_def list.case assms(2) option.case)
  show ?thesis
  proof (cases "fits d' (set ?rest) (ls_uniq s c)")
    case True
    then have "good (ls_uniq s c) (?rest @ [d'])" unfolding good_append by (simp add: good_filter)
    from view_put [OF this] True show ?thesis unfolding up set_filter_neq [symmetric] by simp
  next
    case False
    then show ?thesis unfolding up set_filter_neq [symmetric] by simp
  qed
qed

lemma ls_update_frame:
  "c' \<noteq> c \<Longrightarrow> ls_view (ls_update c q u s) c' = ls_view s c'" "ls_uniq (ls_update c q u s) = ls_uniq s"
  unfolding ls_update_def Let_def by (auto split: list.splits option.splits simp: view_put_other)

lemma ls_insert_view:
  "fits d (set (ls_view s c)) (ls_uniq s c) \<Longrightarrow> ls_view (snd (ls_insert c d s)) c = ls_view s c @ [d]"
  unfolding ls_insert_def by (simp add: view_put good_append)

interpretation lstore: doc_store ls_find ls_insert ls_remove ls_update ls_index ls_oid
    "\<lambda>s c. set (ls_view s c)" ls_uniq
proof
  show "x = y" if "x \<in> set (ls_view db c)" "y \<in> set (ls_view db c)" "map_of x ''_id'' = map_of y ''_id''"
    for x y db c using good_keys [OF good_view that] .
  show "x = y" if "ls_uniq db c" "x \<in> set (ls_view db c)" "y \<in> set (ls_view db c)" "name_key x = name_key y"
    for x y db c using that good_view [of db c] by (auto intro: good_names)
  show "set (ls_find c 0 q db) = {d \<in> set (ls_view db c). matches q d}" for c q db
    by (simp add: ls_find_def)
  show "distinct (ls_find c 0 q db)" for c q db
    using good_distinct [OF good_view] by (simp add: ls_find_def)
  show "ls_find c 1 q db = [] \<longleftrightarrow> {d \<in> set (ls_view db c). matches q d} = {}" for c q db
    by (auto simp: ls_find_def Let_def filter_empty_conv)
  show "d \<in> set (ls_view db c) \<and> matches q d" if "ls_find c 1 q db = d # r" for c q db d r
  proof -
    have "d \<in> set (filter (matches q) (ls_view db c))"
      using that by (cases "filter (matches q) (ls_view db c)") (auto simp: ls_find_def Let_def)
    then show ?thesis by simp
  qed
  show "fst (ls_insert c d db) \<and> set (ls_view (snd (ls_insert c d db)) c) = insert d (set (ls_view db c))"
    if "fits d (set (ls_view db c)) (ls_uniq db c)" for c d db
    using that ls_insert_view [OF that] by (simp add: ls_insert_def)
  show "\<not> fst (ls_insert c d db) \<and> set (ls_view (snd (ls_insert c d db)) c) = set (ls_view db c)"
    if "\<not> fits d (set (ls_view db c)) (ls_uniq db c)" for c d db
    using that by (simp add: ls_insert_def)
  show "set (ls_view (snd (ls_insert c d db)) c') = set (ls_view db c')" if "c' \<noteq> c" for c c' d db
    using that by (simp add: ls_insert_def view_put_other)
  show "ls_uniq (snd (ls_insert c d db)) c' = ls_uniq db c'" for c c' d db
    by (simp add: ls_insert_def)
  show "fst (ls_remove c q db) \<and>
      set (ls_view (snd (ls_remove c q db)) c) = {d \<in> set (ls_view db c). \<not> matches q d}" for c q db
    by (simp add: ls_remove_def view_put good_filter)
  show "set (ls_view (snd (ls_remove c q db)) c') = set (ls_view db c')" if "c' \<noteq> c" for c c' q db
    using that by (simp add: ls_remove_def view_put_other)
  show "ls_uniq (snd (ls_remove c q db)) c' = ls_uniq db c'" for c c' q db
    by (simp add: ls_remove_def)
  show "set (ls_view (ls_update c q u db) c) = set (ls_view db c)"
    if "{d \<in> set (ls_view db c). matches q d} = {}" for c q u db
  proof -
    have "filter (matches q) (ls_view db c) = []" using that by (auto simp: filter_empty_conv)
    then show ?thesis by (simp add: ls_update_def Let_def)
  qed
  show "set (ls_view (ls_update c q u db) c) = insert d' (set (ls_view db c) - {d})"
    if "{d \<in> set (ls_view db c). matches q d} = {d}" "upd_doc u d = Some d'"
      "fits d' (set (ls_view db c) - {d}) (ls_uniq db c)" for c q u db d d'
    using update_view [OF that(1,2)] that(3) by simp
  show "set (ls_view (ls_update c q u db) c) = set (ls_view db c)"
    if "{d \<in> set (ls_view db c). matches q d} = {d}" "upd_doc u d = Some d'"
      "\<not> fits d' (set (ls_view db c) - {d}) (ls_uniq db c)" for c q u db d d'
    using update_view [OF that(1,2)] that(3) by simp
  show "set (ls_view (ls_update c q u db) c') = set (ls_view db c')" if "c' \<noteq> c" for c c' q u db
    using ls_update_frame(1) [OF that] by simp
  show "ls_uniq (ls_update c q u db) c' = ls_uniq db c'" for c c' q u db
    by (simp add: ls_update_frame)
  show "length (fst (ls_oid db)) = 24" for db
    by (simp add: ls_oid_def Let_def)
  show "set (ls_view (snd (ls_oid db)) c) = set (ls_view db c) \<and> ls_uniq (snd (ls_oid db)) c = ls_uniq db c"
    for db c by (simp add: ls_oid_def Let_def ls_view_def)
  show "set (ls_view (ls_index c keys b db) c') = set (ls_view db c')" for c c' keys b db
    by (simp add: view_index)
  show "ls_uniq (ls_index c uniqueKeys True db) c" if "inj_on name_key (set (ls_view db c))" for c db
    using good_index [OF good_view that] by (simp add: ls_index_def)
  show "ls_uniq (ls_index c keys b db) c'" if "ls_uniq db c'" for c c' keys b db
    using that by (simp add: ls_index_def)
  show "ls_uniq (ls_index c keys b db) c' = ls_uniq db c'" if "c' \<noteq> c" for c c' keys b db
    using that by (simp add: ls_index_def)
qed

end
