(* ===== verification/Socket.thy ===== *)
theory Socket
  imports Prelude
begin

text \<open>
  \<open>utils/socket.c\<close> and \<open>socket.h\<close>: status codes, the byte swap \<open>hton\<close>, the loops of
  \<open>socket_send\<close> and \<open>socket_recv\<close> with their retries, packets (an 8-byte big-endian
  length, then the bytes), strings and the handshake. The operating system is a record of
  parameters \<open>os\<close> acting on an abstract network state: \<open>send\<close> and \<open>recv\<close> return a count
  (\<^const>\<open>None\<close> for -1) and leave an \<open>errno\<close>; the byte order of the host and whether
  \<open>malloc\<close> succeeds are parameters too. What TCP promises is the locale \<open>stream_os\<close> (calls
  may fail or transfer any part); \<open>reliable_os\<close> adds that they make progress. Both are
  interpreted on a network that transfers at most three bytes per call.
\<close>

section \<open>Status codes\<close>

datatype e_socket_status =
    SOCKET_ERROR_NONE | SOCKET_ERROR_ADDRESS | SOCKET_ERROR_SOCKET | SOCKET_ERROR_SETSOCKETOPT
  | SOCKET_ERROR_BIND | SOCKET_ERROR_LISTEN | SOCKET_ERROR_ACCEPT | SOCKET_ERROR_CONNECT
  | SOCKET_ERROR_SEND | SOCKET_ERROR_RECV | SOCKET_ERROR_SHUTDOWN | SOCKET_ERROR_HANDSHAKE
  | SOCKET_ERROR_WELCOME | SOCKET_ERROR_CLOSE | SOCKET_ERROR_TIMEOUT_RECV | SOCKET_ERROR_TIMEOUT_SEND

fun status_code :: "e_socket_status \<Rightarrow> int" where
  "status_code SOCKET_ERROR_NONE = 1"
| "status_code SOCKET_ERROR_ADDRESS = -1"
| "status_code SOCKET_ERROR_SOCKET = -2"
| "status_code SOCKET_ERROR_SETSOCKETOPT = -3"
| "status_code SOCKET_ERROR_BIND = -4"
| "status_code SOCKET_ERROR_LISTEN = -5"
| "status_code SOCKET_ERROR_ACCEPT = -6"
| "status_code SOCKET_ERROR_CONNECT = -7"
| "status_code SOCKET_ERROR_SEND = -8"
| "status_code SOCKET_ERROR_RECV = -9"
| "status_code SOCKET_ERROR_SHUTDOWN = -10"
| "status_code SOCKET_ERROR_HANDSHAKE = -11"
| "status_code SOCKET_ERROR_WELCOME = -12"
| "status_code SOCKET_ERROR_CLOSE = -13"
| "status_code SOCKET_ERROR_TIMEOUT_RECV = -14"
| "status_code SOCKET_ERROR_TIMEOUT_SEND = -15"

lemma status_code_inject: "status_code a = status_code b \<Longrightarrow> a = b"
  by (cases a; cases b) simp_all

text \<open>The statuses are compared as the integers they stand for.\<close>

instantiation e_socket_status :: linorder
begin

definition less_eq_e_socket_status :: "e_socket_status \<Rightarrow> e_socket_status \<Rightarrow> bool" where
  "less_eq_e_socket_status a b \<longleftrightarrow> status_code a \<le> status_code b"

definition less_e_socket_status :: "e_socket_status \<Rightarrow> e_socket_status \<Rightarrow> bool" where
  "less_e_socket_status a b \<longleftrightarrow> status_code a < status_code b"

instance
  by standard (auto simp: less_eq_e_socket_status_def less_e_socket_status_def dest: status_code_inject)

end

text \<open>The test \<open>0 > status\<close>.\<close>

definition failed_status :: "e_socket_status \<Rightarrow> bool" where
  "failed_status s \<longleftrightarrow> 0 > status_code s"

lemma failed_status_iff: "failed_status s \<longleftrightarrow> s \<noteq> SOCKET_ERROR_NONE"
  by (cases s) (simp_all add: failed_status_def)

section \<open>The operating system\<close>

datatype errno = ECONNREFUSED | EAGAIN | ETIMEDOUT | EPIPE | EOTHER

record 'n os =
  os_send :: "int \<Rightarrow> byte list \<Rightarrow> 'n \<Rightarrow> nat option \<times> errno \<times> 'n"
  os_recv :: "int \<Rightarrow> nat \<Rightarrow> 'n \<Rightarrow> byte list option \<times> errno \<times> 'n"
  os_malloc :: "nat \<Rightarrow> bool"
  os_isLittleEndian :: bool

section \<open>Integers\<close>

definition isLittleEndian :: "('n, 'z) os_scheme \<Rightarrow> bool" where
  "isLittleEndian os = os_isLittleEndian os"

definition isBigEndian :: "('n, 'z) os_scheme \<Rightarrow> bool" where
  "isBigEndian os = (\<not> isLittleEndian os)"

text \<open>The loop of \<open>hton\<close>: swap the ends and move both pointers inwards.\<close>

function hton_loop :: "byte list \<Rightarrow> nat \<Rightarrow> nat \<Rightarrow> byte list" where
  "hton_loop v l r = (if l < r then hton_loop (v[l := v ! r, r := v ! l]) (Suc l) (r - 1) else v)"
  by pat_completeness auto
termination
  by (relation "measure (\<lambda>(v, l, r). r - l)") auto

declare hton_loop.simps [simp del]

definition hton :: "('n, 'z) os_scheme \<Rightarrow> byte list \<Rightarrow> byte list" where
  "hton os v = (if isLittleEndian os then hton_loop v 0 (length v - 1) else v)"

text \<open>A \<open>size_t\<close> in the memory of the host.\<close>

definition host_size :: "('n, 'z) os_scheme \<Rightarrow> u64 \<Rightarrow> byte list" where
  "host_size os w = (if isLittleEndian os then rev (be64 w) else be64 w)"

definition size_of_host :: "('n, 'z) os_scheme \<Rightarrow> byte list \<Rightarrow> u64" where
  "size_of_host os bs = word_of_nat (of_be (if isLittleEndian os then rev bs else bs))"

lemma length_hton_loop [simp]: "length (hton_loop v l r) = length v"
  by (induction v l r rule: hton_loop.induct) (simp add: hton_loop.simps)

lemma hton_loop_nth:
  "l + r + 1 = length v + d \<Longrightarrow> r < length v \<Longrightarrow> k < length v \<Longrightarrow>
   hton_loop v l r ! k = (if l \<le> k \<and> k \<le> r then v ! (l + r - k) else v ! k)"
proof (induction v l r rule: hton_loop.induct)
  case (1 v l r)
  show ?case
  proof (cases "l < r")
    case False
    then have "l \<le> k \<and> k \<le> r \<Longrightarrow> l + r - k = k" by auto
    with False show ?thesis by (simp add: hton_loop.simps [of v l r])
  next
    case True
    let ?v = "v[l := v ! r, r := v ! l]"
    have "hton_loop ?v (Suc l) (r - 1) ! k =
        (if Suc l \<le> k \<and> k \<le> r - 1 then ?v ! (Suc l + (r - 1) - k) else ?v ! k)"
      using True 1(2,3,4) by (intro 1(1)) auto
    with True 1(2,3,4) show ?thesis
      by (auto simp: hton_loop.simps [of v l r] nth_list_update)
  qed
qed

lemma hton_loop_rev: "hton_loop v 0 (length v - 1) = rev v"
proof (cases "v = []")
  case True
  then show ?thesis by (simp add: hton_loop.simps)
next
  case False
  show ?thesis
  proof (rule nth_equalityI)
    fix k assume "k < length (hton_loop v 0 (length v - 1))"
    with False show "hton_loop v 0 (length v - 1) ! k = rev v ! k"
      by (subst hton_loop_nth [where d = 0]) (auto simp: rev_nth)
  qed simp
qed

lemma hton_rev: "hton os v = (if isLittleEndian os then rev v else v)"
  using hton_loop_rev [of v] by (simp add: hton_def)

lemma hton_hton [simp]: "hton os (hton os v) = v"
  by (simp add: hton_rev)

lemma length_hton [simp]: "length (hton os v) = length v"
  by (simp add: hton_rev)

lemma length_host_size [simp]: "length (host_size os w) = 8"
  by (simp add: host_size_def)

lemma hton_host_size [simp, wire]: "hton os (host_size os w) = be64 w"
  by (simp add: hton_rev host_size_def)

lemma size_of_host_hton [simp, wire]: "size_of_host os (hton os (be64 w)) = w"
  by (simp add: hton_rev size_of_host_def)

section \<open>Streams\<close>

text \<open>The errors after which \<open>send\<close> and \<open>recv\<close> are tried again.\<close>

definition retryable :: "errno \<Rightarrow> bool" where
  "retryable e \<longleftrightarrow> e = ECONNREFUSED \<or> e = EAGAIN \<or> e = ETIMEDOUT"

text \<open>
  The inner loop \<open>while (0 >= (count = send(...)) && retry--)\<close>: \<^const>\<open>None\<close> is a return
  with \<open>SOCKET_ERROR_SEND\<close>, in the switch or after the last attempt.
\<close>

fun send_attempts :: "('n, 'z) os_scheme \<Rightarrow> int \<Rightarrow> byte list \<Rightarrow> nat \<Rightarrow> 'n \<Rightarrow> nat option \<times> 'n" where
  "send_attempts os s data retry n =
     (case os_send os s data n of (r, e, n1) \<Rightarrow>
       let cnt = (case r of Some k \<Rightarrow> k | None \<Rightarrow> 0) in
       if 0 < cnt then (Some cnt, n1)
       else (case retry of 0 \<Rightarrow> (None, n1)
             | Suc left \<Rightarrow> if retryable e then send_attempts os s data left n1 else (None, n1)))"

fun recv_attempts :: "('n, 'z) os_scheme \<Rightarrow> int \<Rightarrow> nat \<Rightarrow> nat \<Rightarrow> 'n \<Rightarrow> byte list option \<times> 'n" where
  "recv_attempts os s sz retry n =
     (case os_recv os s sz n of (r, e, n1) \<Rightarrow>
       let got = (case r of Some bs \<Rightarrow> bs | None \<Rightarrow> []) in
       if got \<noteq> [] then (Some got, n1)
       else (case retry of 0 \<Rightarrow> (None, n1)
             | Suc left \<Rightarrow> if retryable e then recv_attempts os s sz left n1 else (None, n1)))"

declare send_attempts.simps [simp del] recv_attempts.simps [simp del]

lemma send_attempts_pos: "send_attempts os s data retry n = (Some k, n') \<Longrightarrow> 0 < k"
proof (induction os s data retry n arbitrary: n' rule: send_attempts.induct)
  case (1 os s data retry n)
  then show ?case
    by (subst (asm) (2) send_attempts.simps)
      (auto simp: Let_def split: prod.splits option.splits nat.splits if_splits)
qed

lemma recv_attempts_pos: "recv_attempts os s sz retry n = (Some bs, n') \<Longrightarrow> bs \<noteq> []"
proof (induction os s sz retry n arbitrary: n' rule: recv_attempts.induct)
  case (1 os s sz retry n)
  then show ?case
    by (subst (asm) (2) recv_attempts.simps)
      (auto simp: Let_def split: prod.splits option.splits nat.splits if_splits)
qed

text \<open>
  The outer loops. The counts that \<open>send\<close> and \<open>recv\<close> return are at most what was asked
  for (POSIX), so \<open>tosend - count\<close> does not wrap.
\<close>

function send_loop :: "('n, 'z) os_scheme \<Rightarrow> int \<Rightarrow> byte list \<Rightarrow> 'n \<Rightarrow> e_socket_status \<times> 'n" where
  "send_loop os s data n =
     (if data = [] then (SOCKET_ERROR_NONE, n)
      else (case send_attempts os s data 3 n of
              (None, n1) \<Rightarrow> (SOCKET_ERROR_SEND, n1)
            | (Some k, n1) \<Rightarrow> send_loop os s (drop k data) n1))"
  by pat_completeness auto
termination
proof (relation "measure (\<lambda>(os, s, data, n). length data)", goal_cases)
  case (2 os s data n x1 n1 x2)
  then have "0 < x2" using send_attempts_pos by metis
  with 2(1) show ?case by simp
qed simp

function recv_loop :: "('n, 'z) os_scheme \<Rightarrow> int \<Rightarrow> nat \<Rightarrow> byte list \<Rightarrow> 'n \<Rightarrow> e_socket_status \<times> byte list \<times> 'n" where
  "recv_loop os s left acc n =
     (if left = 0 then (SOCKET_ERROR_NONE, acc, n)
      else (case recv_attempts os s left 3 n of
              (None, n1) \<Rightarrow> (SOCKET_ERROR_RECV, acc, n1)
            | (Some bs, n1) \<Rightarrow> recv_loop os s (left - length bs) (acc @ bs) n1))"
  by pat_completeness auto
termination
proof (relation "measure (\<lambda>(os, s, left, acc, n). left)", goal_cases)
  case (2 os s left acc n x1 n1 x2)
  then have "x2 \<noteq> []" using recv_attempts_pos by metis
  with 2(1) show ?case by simp
qed simp

declare send_loop.simps [simp del] recv_loop.simps [simp del]

definition socket_send :: "('n, 'z) os_scheme \<Rightarrow> int \<Rightarrow> byte list option \<Rightarrow> 'n \<Rightarrow> e_socket_status \<times> 'n" where
  "socket_send os s stream n =
     (case stream of None \<Rightarrow> (SOCKET_ERROR_SEND, n) | Some data \<Rightarrow> send_loop os s data n)"

text \<open>\<open>stream\<close> says whether the pointer is not NULL; the bytes received so far are returned
  with an error too, since they are in the caller's memory.\<close>

definition socket_recv :: "('n, 'z) os_scheme \<Rightarrow> int \<Rightarrow> bool \<Rightarrow> nat \<Rightarrow> 'n \<Rightarrow> e_socket_status \<times> byte list \<times> 'n" where
  "socket_recv os s stream sz n =
     (if \<not> stream then (SOCKET_ERROR_RECV, [], n) else recv_loop os s sz [] n)"

definition socket_send_integer :: "('n, 'z) os_scheme \<Rightarrow> int \<Rightarrow> byte list \<Rightarrow> 'n \<Rightarrow> e_socket_status \<times> 'n" where
  "socket_send_integer os s i n = socket_send os s (Some (hton os i)) n"

text \<open>The bytes received go over the first bytes of the variable, then the whole is swapped,
  also when the reception failed.\<close>

definition socket_recv_integer :: "('n, 'z) os_scheme \<Rightarrow> int \<Rightarrow> byte list \<Rightarrow> 'n \<Rightarrow> e_socket_status \<times> byte list \<times> 'n" where
  "socket_recv_integer os s i n =
     (case socket_recv os s True (length i) n of (status, bs, n1) \<Rightarrow>
       (status, hton os (bs @ drop (length bs) i), n1))"

section \<open>Packets\<close>

text \<open>
  A packet is given by its bytes (\<open>packet\<close> and \<open>size\<close> together), \<^const>\<open>None\<close> for a NULL
  pointer. The length goes first, eight bytes, most significant first.
\<close>

definition socket_send_packet :: "('n, 'z) os_scheme \<Rightarrow> int \<Rightarrow> byte list option \<Rightarrow> 'n \<Rightarrow> e_socket_status \<times> 'n" where
  "socket_send_packet os s packet n =
     (case packet of
        None \<Rightarrow> (SOCKET_ERROR_SEND, n)
      | Some bs \<Rightarrow>
          (case socket_send os s (Some (hton os (host_size os (word_of_nat (length bs))))) n of
             (status, n1) \<Rightarrow> if failed_status status then (status, n1) else socket_send os s (Some bs) n1))"

text \<open>
  Returns the status, the packet where it was received whole (otherwise its memory has been
  freed, or was never allocated), the size variable and the network. The size variable has
  the value \<open>size0\<close> before the call.
\<close>

definition socket_recv_packet :: "('n, 'z) os_scheme \<Rightarrow> int \<Rightarrow> u64 \<Rightarrow> 'n \<Rightarrow>
    e_socket_status \<times> byte list option \<times> u64 \<times> 'n" where
  "socket_recv_packet os s size0 n =
     (case socket_recv_integer os s (host_size os size0) n of (status, i, n1) \<Rightarrow>
       let sz = size_of_host os i in
       if failed_status status then (status, None, sz, n1)
       else (case socket_recv os s (os_malloc os (unat sz)) (unat sz) n1 of (status, bs, n2) \<Rightarrow>
         (status, if failed_status status then None else Some bs, sz, n2)))"

text \<open>As above, but into memory of the caller: the bytes that reached it are returned also
  when the reception failed.\<close>

definition socket_recv_packet_to_memory :: "('n, 'z) os_scheme \<Rightarrow> int \<Rightarrow> u64 \<Rightarrow> 'n \<Rightarrow>
    e_socket_status \<times> byte list \<times> u64 \<times> 'n" where
  "socket_recv_packet_to_memory os s size0 n =
     (case socket_recv_integer os s (host_size os size0) n of (status, i, n1) \<Rightarrow>
       let sz = size_of_host os i in
       if failed_status status then (status, [], sz, n1)
       else (case socket_recv os s True (unat sz) n1 of (status, bs, n2) \<Rightarrow> (status, bs, sz, n2)))"

section \<open>Strings\<close>

definition socket_send_string :: "('n, 'z) os_scheme \<Rightarrow> int \<Rightarrow> string option \<Rightarrow> 'n \<Rightarrow> e_socket_status \<times> 'n" where
  "socket_send_string os s str n =
     (case str of None \<Rightarrow> (SOCKET_ERROR_SEND, n)
      | Some t \<Rightarrow> socket_send_packet os s (Some (str_bytes t @ [0])) n)"

text \<open>\<open>strlen\<close> of a packet without a NUL reads past its end: the outer \<^const>\<open>None\<close>.\<close>

definition socket_recv_string :: "('n, 'z) os_scheme \<Rightarrow> int \<Rightarrow> 'n \<Rightarrow>
    (e_socket_status \<times> string option \<times> 'n) option" where
  "socket_recv_string os s n =
     (case socket_recv_packet os s 0 n of (status, packet, sz, n1) \<Rightarrow>
       (case packet of
          None \<Rightarrow> Some (status, None, n1)
        | Some bs \<Rightarrow>
            if 0 \<notin> set bs then None
            else if unat sz \<noteq> 1 + length (cstr bs) then Some (SOCKET_ERROR_SEND, None, n1)
            else Some (status, Some (cstr bs), n1)))"

section \<open>The commands of the protocols\<close>

definition COMMAND_FS_TO_NODE_SET_BLOCK :: byte where "COMMAND_FS_TO_NODE_SET_BLOCK = 1"
definition COMMAND_FS_TO_NODE_GET_BLOCK :: byte where "COMMAND_FS_TO_NODE_GET_BLOCK = 2"
definition COMMAND_NODE_GET_TMP_FILE_CONTENT :: byte where "COMMAND_NODE_GET_TMP_FILE_CONTENT = 3"
definition COMMAND_NODE_CHECK_ALIVE :: byte where "COMMAND_NODE_CHECK_ALIVE = 4"
definition COMMAND_MARTA_TO_FS_GET_FILE_BLOCKS :: byte where "COMMAND_MARTA_TO_FS_GET_FILE_BLOCKS = 1"
definition COMMAND_MARTA_TO_FS_GET_COPY_FINAL_RESULT :: byte where
  "COMMAND_MARTA_TO_FS_GET_COPY_FINAL_RESULT = 3"
definition COMMAND_MARTA_TO_JOB_DIE :: byte where "COMMAND_MARTA_TO_JOB_DIE = 2"
definition COMMAND_RESULT_OK :: byte where "COMMAND_RESULT_OK = 20"
definition COMMAND_RESULT_FILEUNAVAILABLE :: byte where "COMMAND_RESULT_FILEUNAVAILABLE = 21"
definition COMMAND_RESULT_CANT_COPY :: byte where "COMMAND_RESULT_CANT_COPY = 22"
definition COMMAND_MAP :: byte where "COMMAND_MAP = 10"
definition COMMAND_REDUCE :: byte where "COMMAND_REDUCE = 11"

section \<open>Handshake\<close>

definition HANDSHAKE_WELCOME :: int where "HANDSHAKE_WELCOME = 1"
definition HANDSHAKE_MARTA :: int where "HANDSHAKE_MARTA = 2"
definition HANDSHAKE_FILESYSTEM :: int where "HANDSHAKE_FILESYSTEM = 4"
definition HANDSHAKE_JOB :: int where "HANDSHAKE_JOB = 8"
definition HANDSHAKE_NODO :: int where "HANDSHAKE_NODO = 16"

lemmas handshake_codes = HANDSHAKE_WELCOME_def HANDSHAKE_MARTA_def HANDSHAKE_FILESYSTEM_def
  HANDSHAKE_JOB_def HANDSHAKE_NODO_def

definition get_handshake_code :: "string \<Rightarrow> int" where
  "get_handshake_code h =
     (if h = ''WELCOME'' then HANDSHAKE_WELCOME
      else if h = ''IMMARTA'' then HANDSHAKE_MARTA
      else if h = ''IMFILESYSTEM'' then HANDSHAKE_FILESYSTEM
      else if h = ''IMNODO'' then HANDSHAKE_NODO
      else if h = ''IMJOB'' then HANDSHAKE_JOB
      else 0)"

definition get_handshake_msg :: "int \<Rightarrow> string option" where
  "get_handshake_msg h =
     (if h = HANDSHAKE_MARTA then Some ''IMMARTA''
      else if h = HANDSHAKE_FILESYSTEM then Some ''IMFILESYSTEM''
      else if h = HANDSHAKE_NODO then Some ''IMNODO''
      else if h = HANDSHAKE_JOB then Some ''IMJOB''
      else None)"

definition check_handshake :: "('n, 'z) os_scheme \<Rightarrow> int \<Rightarrow> int \<Rightarrow> 'n \<Rightarrow> (int \<times> 'n) option" where
  "check_handshake os s handshake n = do {
     (recive, hi, n1) \<leftarrow> socket_recv_string os s n;
     case hi of
       None \<Rightarrow> Some (status_code recive, n1)
     | Some h \<Rightarrow>
         let hscode = get_handshake_code h in
         Some (if hscode AND handshake \<noteq> 0 then hscode else status_code SOCKET_ERROR_HANDSHAKE, n1) }"

definition socket_handshake_to_server :: "('n, 'z) os_scheme \<Rightarrow> int \<Rightarrow> int \<Rightarrow> int \<Rightarrow> 'n \<Rightarrow> (int \<times> 'n) option" where
  "socket_handshake_to_server os s hiserver hiclient n = do {
     (server, n1) \<leftarrow> check_handshake os s hiserver n;
     if 0 > server then Some (server, n1)
     else (case socket_send_string os s (get_handshake_msg hiclient) n1 of (st, n2) \<Rightarrow>
       if failed_status st then Some (status_code SOCKET_ERROR_SEND, n2)
       else do {
         (w, n3) \<leftarrow> check_handshake os s HANDSHAKE_WELCOME n2;
         let wellcome = (if w = status_code SOCKET_ERROR_HANDSHAKE then status_code SOCKET_ERROR_WELCOME else w);
         Some (if 0 > wellcome then wellcome else server, n3) }) }"

definition socket_handshake_to_client :: "('n, 'z) os_scheme \<Rightarrow> int \<Rightarrow> int \<Rightarrow> int \<Rightarrow> 'n \<Rightarrow> (int \<times> 'n) option" where
  "socket_handshake_to_client os s hiserver hiclient n =
     (case socket_send_string os s (get_handshake_msg hiserver) n of (st, n1) \<Rightarrow>
       if failed_status st then Some (status_code SOCKET_ERROR_SEND, n1)
       else do {
         (client, n2) \<leftarrow> check_handshake os s hiclient n1;
         if 0 > client then Some (client, n2)
         else (case socket_send_string os s (Some ''WELCOME'') n2 of (st, n3) \<Rightarrow>
           if failed_status st then Some (status_code SOCKET_ERROR_WELCOME, n3)
           else Some (client, n3)) })"

section \<open>TCP streams\<close>

text \<open>
  \<open>inp n s\<close> is the stream of bytes still to be read from socket \<open>s\<close>, \<open>out n s\<close> what has
  been written to it. A call may fail without an effect, or transfer any part from the front.
\<close>

locale stream_os =
  fixes os :: "('n, 'z) os_scheme"
    and inp :: "'n \<Rightarrow> int \<Rightarrow> byte list" and out :: "'n \<Rightarrow> int \<Rightarrow> byte list"
  assumes send_part: "os_send os s bs n = (Some k, e, n') \<Longrightarrow>
      k \<le> length bs \<and> inp n' = inp n \<and> out n' s = out n s @ take k bs \<and> (\<forall>t. t \<noteq> s \<longrightarrow> out n' t = out n t)"
    and send_fail: "os_send os s bs n = (None, e, n') \<Longrightarrow> inp n' = inp n \<and> out n' = out n"
    and recv_part: "os_recv os s m n = (Some bs, e, n') \<Longrightarrow>
      length bs \<le> m \<and> inp n s = bs @ inp n' s \<and> (\<forall>t. t \<noteq> s \<longrightarrow> inp n' t = inp n t) \<and> out n' = out n"
    and recv_fail: "os_recv os s m n = (None, e, n') \<Longrightarrow> inp n' = inp n \<and> out n' = out n"

locale reliable_os = stream_os +
  assumes send_progress: "bs \<noteq> [] \<Longrightarrow> \<exists>k e n'. os_send os s bs n = (Some (Suc k), e, n')"
    and recv_progress: "0 < m \<Longrightarrow> inp n s \<noteq> [] \<Longrightarrow> \<exists>b bs e n'. os_recv os s m n = (Some (b # bs), e, n')"
    and malloc_ok: "os_malloc os m"

context stream_os begin

lemma send_attempts_stream:
  "send_attempts os s data retry n = (r, n') \<Longrightarrow>
   inp n' = inp n \<and> (\<forall>t. t \<noteq> s \<longrightarrow> out n' t = out n t) \<and>
   out n' s = out n s @ take (case r of None \<Rightarrow> 0 | Some k \<Rightarrow> k) data \<and>
   (\<forall>k. r = Some k \<longrightarrow> k \<le> length data)"
proof (induction retry arbitrary: n)
  case 0
  obtain q e n1 where call: "os_send os s data n = (q, e, n1)" by (cases "os_send os s data n") auto
  from 0 call show ?case
    by (cases q; cases r) (auto simp: send_attempts.simps [of os s data 0 n] Let_def split: if_splits
        dest: send_part send_fail)
next
  case (Suc retry)
  obtain q e n1 where call: "os_send os s data n = (q, e, n1)" by (cases "os_send os s data n") auto
  have zero: "inp n1 = inp n \<and> out n1 = out n" if "q = None \<or> q = Some 0"
    using that call send_part [of s data n 0 e n1] send_fail [of s data n e n1] by (force simp: fun_eq_iff)
  from Suc.prems call Suc.IH [of n1] zero show ?case
    by (cases q; cases r) (auto simp: send_attempts.simps [of os s data "Suc retry" n] Let_def split: if_splits
        dest: send_part)
qed

lemma send_loop_stream:
  "send_loop os s data n = (st, n') \<Longrightarrow>
   inp n' = inp n \<and> (\<forall>t. t \<noteq> s \<longrightarrow> out n' t = out n t) \<and>
   (\<exists>sent rest. data = sent @ rest \<and> out n' s = out n s @ sent \<and>
     (if rest = [] then st = SOCKET_ERROR_NONE else st = SOCKET_ERROR_SEND))"
proof (induction data arbitrary: n rule: length_induct)
  case (1 data)
  obtain r n1 where att: "send_attempts os s data 3 n = (r, n1)" by fastforce
  note eff = send_attempts_stream [OF att]
  consider "data = []" | "data \<noteq> []" "r = None" | k where "data \<noteq> []" "r = Some k" by (cases r) auto
  then show ?case
  proof cases
    case 1
    with "1.prems" show ?thesis by (simp add: send_loop.simps [of os s "[]" n])
  next
    case 2
    with "1.prems" att have "st = SOCKET_ERROR_SEND" "n' = n1"
      by (simp_all add: send_loop.simps [of os s data n])
    with 2 eff show ?thesis by (intro conjI exI [of _ "[]"] exI [of _ data]) simp_all
  next
    case 3
    have "0 < k" by (rule send_attempts_pos [OF att [unfolded 3(2)]])
    then have lt: "length (drop k data) < length data" using 3(1) by simp
    have eq: "send_loop os s (drop k data) n1 = (st, n')"
      using "1.prems" att 3 by (simp add: send_loop.simps [of os s data n])
    from "1.IH" [rule_format, OF lt eq] obtain sent rest where "inp n' = inp n1" "drop k data = sent @ rest"
      "out n' s = out n1 s @ sent" "\<forall>t. t \<noteq> s \<longrightarrow> out n' t = out n1 t"
      "if rest = [] then st = SOCKET_ERROR_NONE else st = SOCKET_ERROR_SEND"
      by blast
    moreover have "data = (take k data @ sent) @ rest"
      using \<open>drop k data = sent @ rest\<close> by (metis append.assoc append_take_drop_id)
    ultimately show ?thesis
      using eff 3(2) by (intro conjI exI [of _ "take k data @ sent"] exI [of _ rest]) auto
  qed
qed

lemma recv_attempts_stream:
  "recv_attempts os s m retry n = (r, n') \<Longrightarrow>
   out n' = out n \<and> (\<forall>t. t \<noteq> s \<longrightarrow> inp n' t = inp n t) \<and>
   inp n s = (case r of None \<Rightarrow> [] | Some bs \<Rightarrow> bs) @ inp n' s \<and> (\<forall>bs. r = Some bs \<longrightarrow> length bs \<le> m)"
proof (induction retry arbitrary: n)
  case 0
  obtain q e n1 where call: "os_recv os s m n = (q, e, n1)" by (cases "os_recv os s m n") auto
  from 0 call show ?case
    by (cases q) (auto simp: recv_attempts.simps [of os s m 0 n] Let_def split: if_splits
        dest: recv_part recv_fail)
next
  case (Suc retry)
  obtain q e n1 where call: "os_recv os s m n = (q, e, n1)" by (cases "os_recv os s m n") auto
  have zero: "out n1 = out n \<and> inp n1 = inp n" if "q = None \<or> q = Some []"
    using that call recv_part [of s m n "[]" e n1] recv_fail [of s m n e n1] by (auto simp: fun_eq_iff) metis
  from Suc.prems call Suc.IH [of n1] zero show ?case
    by (cases q) (auto simp: recv_attempts.simps [of os s m "Suc retry" n] Let_def split: if_splits
        dest: recv_part)
qed

lemma recv_loop_stream:
  "recv_loop os s left acc n = (st, bs, n') \<Longrightarrow>
   out n' = out n \<and> (\<forall>t. t \<noteq> s \<longrightarrow> inp n' t = inp n t) \<and>
   (\<exists>got. bs = acc @ got \<and> inp n s = got @ inp n' s \<and> length got \<le> left \<and>
     (if length got = left then st = SOCKET_ERROR_NONE else st = SOCKET_ERROR_RECV))"
proof (induction left arbitrary: acc n rule: less_induct)
  case (less left)
  obtain r n1 where att: "recv_attempts os s left 3 n = (r, n1)" by fastforce
  note eff = recv_attempts_stream [OF att]
  consider "left = 0" | "left \<noteq> 0" "r = None" | b where "left \<noteq> 0" "r = Some b" by (cases r) auto
  then show ?case
  proof cases
    case 1
    with less.prems show ?thesis by (auto simp: recv_loop.simps [of os s 0 acc n])
  next
    case 2
    with less.prems att have "st = SOCKET_ERROR_RECV" "bs = acc" "n' = n1"
      by (simp_all add: recv_loop.simps [of os s left acc n])
    with 2 eff show ?thesis by (intro conjI exI [of _ "[]"]) simp_all
  next
    case 3
    have "b \<noteq> []" by (rule recv_attempts_pos [OF att [unfolded 3(2)]])
    then have lt: "left - length b < left" using 3(1) by simp
    have eq: "recv_loop os s (left - length b) (acc @ b) n1 = (st, bs, n')"
      using less.prems att 3 by (simp add: recv_loop.simps [of os s left acc n])
    from less.IH [OF lt eq] obtain got where "out n' = out n1" "\<forall>t. t \<noteq> s \<longrightarrow> inp n' t = inp n1 t"
      "bs = (acc @ b) @ got" "inp n1 s = got @ inp n' s" "length got \<le> left - length b"
      "if length got = left - length b then st = SOCKET_ERROR_NONE else st = SOCKET_ERROR_RECV"
      by blast
    moreover have "length b \<le> left" using eff 3(2) by simp
    ultimately show ?thesis
      using eff 3(2) by (intro conjI exI [of _ "b @ got"]) (auto split: if_splits)
  qed
qed

end

context reliable_os begin

lemma send_attempts_reliable: "data \<noteq> [] \<Longrightarrow> \<exists>k n'. send_attempts os s data r n = (Some k, n')"
  using send_progress [of data s n] by (auto simp: send_attempts.simps [of os s data r n])

lemma recv_attempts_reliable:
  "0 < m \<Longrightarrow> inp n s \<noteq> [] \<Longrightarrow> \<exists>bs n'. recv_attempts os s m r n = (Some bs, n')"
  using recv_progress [of m n s] by (fastforce simp: recv_attempts.simps [of os s m r n])

lemma send_loop_reliable:
  "\<exists>n'. send_loop os s data n = (SOCKET_ERROR_NONE, n') \<and>
     inp n' = inp n \<and> out n' s = out n s @ data \<and> (\<forall>t. t \<noteq> s \<longrightarrow> out n' t = out n t)"
proof -
  have ok: "fst (send_loop os s data n) = SOCKET_ERROR_NONE"
  proof (induction data arbitrary: n rule: length_induct)
    case (1 data)
    show ?case
    proof (cases "data = []")
      case True
      then show ?thesis by (simp add: send_loop.simps [of os s "[]" n])
    next
      case False
      obtain k n1 where att: "send_attempts os s data 3 n = (Some k, n1)"
        using send_attempts_reliable [OF False] by blast
      then have "length (drop k data) < length data" using send_attempts_pos [OF att] False by simp
      with 1 att False show ?thesis by (simp add: send_loop.simps [of os s data n])
    qed
  qed
  obtain st n' where "send_loop os s data n = (st, n')" by fastforce
  with ok send_loop_stream [OF this] show ?thesis by (auto split: if_splits)
qed

lemma recv_loop_reliable:
  assumes "left \<le> length (inp n s)"
  shows "\<exists>n'. recv_loop os s left acc n = (SOCKET_ERROR_NONE, acc @ take left (inp n s), n') \<and>
    inp n' s = drop left (inp n s) \<and> (\<forall>t. t \<noteq> s \<longrightarrow> inp n' t = inp n t) \<and> out n' = out n"
proof -
  have ok: "fst (recv_loop os s left acc n) = SOCKET_ERROR_NONE"
    using assms
  proof (induction left arbitrary: acc n rule: less_induct)
    case (less left)
    show ?case
    proof (cases "left = 0")
      case True
      then show ?thesis by (simp add: recv_loop.simps [of os s 0 acc n])
    next
      case False
      with less.prems have "inp n s \<noteq> []" by auto
      with False obtain b n1 where att: "recv_attempts os s left 3 n = (Some b, n1)"
        using recv_attempts_reliable by blast
      have "b \<noteq> []" using recv_attempts_pos [OF att] .
      moreover have "inp n s = b @ inp n1 s" using recv_attempts_stream [OF att] by simp
      then have "left - length b \<le> length (inp n1 s)" using less.prems by simp
      ultimately show ?thesis
        using less.IH [of "left - length b" n1 "acc @ b"] att False
        by (simp add: recv_loop.simps [of os s left acc n])
    qed
  qed
  obtain st bs n' where r: "recv_loop os s left acc n = (st, bs, n')" by (cases "recv_loop os s left acc n") auto
  with ok recv_loop_stream [OF r] obtain got where "bs = acc @ got" "inp n s = got @ inp n' s"
    "length got = left" "out n' = out n" "\<forall>t. t \<noteq> s \<longrightarrow> inp n' t = inp n t" "st = SOCKET_ERROR_NONE"
    by (auto split: if_splits)
  with r show ?thesis by (auto simp: fun_eq_iff)
qed

end

text \<open>What a packet and a string look like on the wire.\<close>

definition packet_bytes :: "byte list \<Rightarrow> byte list" where
  "packet_bytes p = be64 (word_of_nat (length p)) @ p"

definition string_bytes :: "string \<Rightarrow> byte list" where
  "string_bytes t = packet_bytes (str_bytes t @ [0])"

text \<open>A length that a \<open>size_t\<close> can hold.\<close>

definition packet_ok :: "byte list \<Rightarrow> bool" where
  "packet_ok p \<longleftrightarrow> length p < 2 ^ 64"

lemma unat_length_packet: "packet_ok p \<Longrightarrow> unat (word_of_nat (length p) :: u64) = length p"
  by (simp add: packet_ok_def unat_of_nat take_bit_eq_mod)

context stream_os begin

lemma send_packet_stream:
  assumes "socket_send_packet os s (Some p) n = (st, n')"
  shows "inp n' = inp n \<and> (\<forall>t. t \<noteq> s \<longrightarrow> out n' t = out n t) \<and>
    (\<exists>sent rest. packet_bytes p = sent @ rest \<and> out n' s = out n s @ sent \<and>
      (if rest = [] then st = SOCKET_ERROR_NONE else st = SOCKET_ERROR_SEND))"
proof -
  let ?h = "be64 (word_of_nat (length p))"
  obtain st1 n1 where h: "send_loop os s ?h n = (st1, n1)" by fastforce
  from send_loop_stream [OF h] obtain sent rest where 1: "inp n1 = inp n"
    "\<forall>t. t \<noteq> s \<longrightarrow> out n1 t = out n t" "?h = sent @ rest" "out n1 s = out n s @ sent"
    "if rest = [] then st1 = SOCKET_ERROR_NONE else st1 = SOCKET_ERROR_SEND"
    by blast
  show ?thesis
  proof (cases "rest = []")
    case False
    with 1 h assms have "st = SOCKET_ERROR_SEND" "n' = n1"
      by (simp_all add: socket_send_packet_def socket_send_def failed_status_iff)
    with 1 False show ?thesis
      by (intro conjI exI [of _ sent] exI [of _ "rest @ p"]) (simp_all add: packet_bytes_def)
  next
    case True
    with 1 h assms have "send_loop os s p n1 = (st, n')"
      by (simp add: socket_send_packet_def socket_send_def failed_status_iff)
    from send_loop_stream [OF this] obtain sent2 rest2 where 2: "inp n' = inp n1"
      "\<forall>t. t \<noteq> s \<longrightarrow> out n' t = out n1 t" "p = sent2 @ rest2" "out n' s = out n1 s @ sent2"
      "if rest2 = [] then st = SOCKET_ERROR_NONE else st = SOCKET_ERROR_SEND"
      by blast
    with 1 True show ?thesis
      by (intro conjI exI [of _ "?h @ sent2"] exI [of _ rest2]) (simp_all add: packet_bytes_def)
  qed
qed

lemma recv_integer_stream:
  assumes "socket_recv_integer os s (host_size os size0) n = (st, i, n')" and "\<not> failed_status st"
  shows "out n' = out n \<and> (\<forall>t. t \<noteq> s \<longrightarrow> inp n' t = inp n t) \<and>
    (\<exists>h. length h = 8 \<and> i = hton os h \<and> inp n s = h @ inp n' s)"
proof -
  obtain st1 bs n1 where r: "recv_loop os s 8 [] n = (st1, bs, n1)" by (cases "recv_loop os s 8 [] n") auto
  from assms r have "st1 = st" "n1 = n'" "i = hton os (bs @ drop (length bs) (host_size os size0))"
    by (simp_all add: socket_recv_integer_def socket_recv_def)
  with recv_loop_stream [OF r] assms(2) show ?thesis
    by (auto simp: failed_status_iff split: if_splits)
qed

lemma recv_packet_stream:
  assumes "socket_recv_packet os s size0 n = (SOCKET_ERROR_NONE, packet, sz, n')"
  shows "\<exists>p. packet = Some p \<and> length p = unat sz \<and> out n' = out n \<and>
    (\<forall>t. t \<noteq> s \<longrightarrow> inp n' t = inp n t) \<and>
    (\<exists>h. length h = 8 \<and> sz = word_of_nat (of_be h) \<and> inp n s = h @ p @ inp n' s)"
proof -
  obtain st i n1 where i: "socket_recv_integer os s (host_size os size0) n = (st, i, n1)"
    by (cases "socket_recv_integer os s (host_size os size0) n") auto
  from assms i have ok: "\<not> failed_status st" and sz: "sz = size_of_host os i"
    by (auto simp: socket_recv_packet_def failed_status_iff Let_def split: if_splits prod.splits)
  from recv_integer_stream [OF i ok] obtain h where h: "length h = 8" "i = hton os h"
    "inp n s = h @ inp n1 s" "out n1 = out n" "\<forall>t. t \<noteq> s \<longrightarrow> inp n1 t = inp n t" by blast
  have szh: "sz = word_of_nat (of_be h)" by (simp add: sz h(2) size_of_host_def hton_rev)
  obtain st2 bs n2 where r: "recv_loop os s (unat sz) [] n1 = (st2, bs, n2)"
    by (cases "recv_loop os s (unat sz) [] n1") auto
  from assms i ok sz r have 2: "st2 = SOCKET_ERROR_NONE" "packet = Some bs" "n2 = n'"
    by (auto simp: socket_recv_packet_def socket_recv_def failed_status_iff Let_def split: if_splits prod.splits)
  from recv_loop_stream [OF r] 2 have "inp n1 s = bs @ inp n' s" "length bs = unat sz" "out n' = out n1"
    "\<forall>t. t \<noteq> s \<longrightarrow> inp n' t = inp n1 t"
    by (auto split: if_splits)
  with h 2 szh show ?thesis by auto
qed

end

context reliable_os begin

lemma send_packet_reliable:
  "\<exists>n'. socket_send_packet os s (Some p) n = (SOCKET_ERROR_NONE, n') \<and> inp n' = inp n \<and>
     out n' s = out n s @ packet_bytes p \<and> (\<forall>t. t \<noteq> s \<longrightarrow> out n' t = out n t)"
proof -
  obtain n1 where 1: "send_loop os s (be64 (word_of_nat (length p))) n = (SOCKET_ERROR_NONE, n1)"
    using send_loop_reliable by blast
  obtain n2 where 2: "send_loop os s p n1 = (SOCKET_ERROR_NONE, n2)"
    using send_loop_reliable by blast
  from 1 2 have st: "socket_send_packet os s (Some p) n = (SOCKET_ERROR_NONE, n2)"
    by (simp add: socket_send_packet_def socket_send_def failed_status_iff)
  with send_packet_stream [OF st] show ?thesis by (auto split: if_splits)
qed

lemma recv_packet_reliable:
  assumes "inp n s = packet_bytes p @ rest" and "packet_ok p"
  shows "\<exists>n'. socket_recv_packet os s size0 n = (SOCKET_ERROR_NONE, Some p, word_of_nat (length p), n') \<and>
    inp n' s = rest \<and> (\<forall>t. t \<noteq> s \<longrightarrow> inp n' t = inp n t) \<and> out n' = out n"
proof -
  let ?h = "be64 (word_of_nat (length p))"
  have "8 \<le> length (inp n s)" and take8: "take 8 (inp n s) = ?h" "drop 8 (inp n s) = p @ rest"
    using assms(1) by (simp_all add: packet_bytes_def)
  then obtain n1 where 1: "recv_loop os s 8 [] n = (SOCKET_ERROR_NONE, ?h, n1)" "inp n1 s = p @ rest"
    "\<forall>t. t \<noteq> s \<longrightarrow> inp n1 t = inp n t" "out n1 = out n"
    using recv_loop_reliable [of 8 n s "[]"] by auto
  have len: "unat (word_of_nat (length p) :: u64) = length p"
    by (rule unat_length_packet [OF assms(2)])
  have "length p \<le> length (inp n1 s)" using 1(2) by simp
  then obtain n2 where 2: "recv_loop os s (length p) [] n1 = (SOCKET_ERROR_NONE, p, n2)" "inp n2 s = rest"
    "\<forall>t. t \<noteq> s \<longrightarrow> inp n2 t = inp n1 t" "out n2 = out n1"
    using recv_loop_reliable [of "length p" n1 s "[]"] 1(2) by auto
  have "socket_recv_packet os s size0 n = (SOCKET_ERROR_NONE, Some p, word_of_nat (length p), n2)"
    using 1(1) 2(1) malloc_ok
    by (simp add: socket_recv_packet_def socket_recv_integer_def socket_recv_def failed_status_iff Let_def len)
  with 1 2 show ?thesis by auto
qed

lemma recv_string_reliable:
  assumes "inp n s = string_bytes t @ rest" and "c_string t" and "length t < 2 ^ 63"
  shows "\<exists>n'. socket_recv_string os s n = Some (SOCKET_ERROR_NONE, Some t, n') \<and>
    inp n' s = rest \<and> (\<forall>u. u \<noteq> s \<longrightarrow> inp n' u = inp n u) \<and> out n' = out n"
proof -
  let ?p = "str_bytes t @ [0]"
  have ok: "packet_ok ?p" using assms(3) by (simp add: packet_ok_def)
  from recv_packet_reliable [OF assms(1) [unfolded string_bytes_def] ok] obtain n' where
    r: "socket_recv_packet os s 0 n = (SOCKET_ERROR_NONE, Some ?p, word_of_nat (length ?p), n')"
    "inp n' s = rest" "\<forall>u. u \<noteq> s \<longrightarrow> inp n' u = inp n u" "out n' = out n" by blast
  have "socket_recv_string os s n = Some (SOCKET_ERROR_NONE, Some t, n')"
    using unat_length_packet [OF ok] assms(2) by (simp add: socket_recv_string_def r(1))
  with r show ?thesis by blast
qed

lemma send_string_reliable:
  "\<exists>n'. socket_send_string os s (Some t) n = (SOCKET_ERROR_NONE, n') \<and> inp n' = inp n \<and>
     out n' s = out n s @ string_bytes t \<and> (\<forall>u. u \<noteq> s \<longrightarrow> out n' u = out n u)"
  using send_packet_reliable [of s "str_bytes t @ [0]" n]
  by (simp add: socket_send_string_def string_bytes_def)

end

section \<open>A network in fragments of three bytes\<close>

type_synonym chunk_net = "(int \<Rightarrow> byte list) \<times> (int \<Rightarrow> byte list)"

definition chunk_os :: "bool \<Rightarrow> chunk_net os" where
  "chunk_os le = \<lparr>
     os_send = (\<lambda>s bs (i, out). (Some (min 3 (length bs)), EOTHER, (i, out(s := out s @ take 3 bs)))),
     os_recv = (\<lambda>s m (i, out). (Some (take (min 3 m) (i s)), EOTHER, (i(s := drop (min 3 m) (i s)), out))),
     os_malloc = (\<lambda>_. True), os_isLittleEndian = le\<rparr>"

lemma chunk_stream: "stream_os (chunk_os le) fst snd"
proof
  show "k \<le> length bs \<and> fst n' = fst n \<and> snd n' s = snd n s @ take k bs \<and> (\<forall>t. t \<noteq> s \<longrightarrow> snd n' t = snd n t)"
    if "os_send (chunk_os le) s bs n = (Some k, e, n')" for s bs n k e n'
    using that by (auto simp: chunk_os_def min_def split: prod.splits)
  show "fst n' = fst n \<and> snd n' = snd n" if "os_send (chunk_os le) s bs n = (None, e, n')" for s bs n e n'
    using that by (auto simp: chunk_os_def split: prod.splits)
  show "length bs \<le> m \<and> fst n s = bs @ fst n' s \<and> (\<forall>t. t \<noteq> s \<longrightarrow> fst n' t = fst n t) \<and> snd n' = snd n"
    if "os_recv (chunk_os le) s m n = (Some bs, e, n')" for s m n bs e n'
    using that by (auto simp: chunk_os_def split: prod.splits)
  show "fst n' = fst n \<and> snd n' = snd n" if "os_recv (chunk_os le) s m n = (None, e, n')" for s m n e n'
    using that by (auto simp: chunk_os_def split: prod.splits)
qed

interpretation chunk: reliable_os "chunk_os le" fst snd
proof (rule reliable_os.intro [OF chunk_stream])
  show "reliable_os_axioms (chunk_os le) fst"
  proof
    show "\<exists>k e n'. os_send (chunk_os le) s bs n = (Some (Suc k), e, n')" if "bs \<noteq> []" for bs s n
      using that by (cases n; cases bs) (auto simp: chunk_os_def min_def intro: exI [of _ "min 2 (length (tl bs))"])
    show "\<exists>b bs e n'. os_recv (chunk_os le) s m n = (Some (b # bs), e, n')" if "0 < m" "fst n s \<noteq> []" for m n s
      using that by (cases n; cases m; cases "fst n s") (auto simp: chunk_os_def)
    show "os_malloc (chunk_os le) m" for m by (simp add: chunk_os_def)
  qed
qed

section \<open>The handshake over a stream\<close>

lemma get_handshake_code_nonneg: "\<not> get_handshake_code h < 0"
  by (simp add: get_handshake_code_def handshake_codes)

lemma get_handshake_msg_code: "get_handshake_msg r = Some m \<Longrightarrow> get_handshake_code m = r"
  by (auto simp: get_handshake_msg_def get_handshake_code_def handshake_codes split: if_splits)

lemma get_handshake_msg_string:
  "get_handshake_msg r = Some m \<Longrightarrow> c_string m \<and> length m < 2 ^ 63"
  by (auto simp: get_handshake_msg_def c_string_def split: if_splits)

lemma welcome_string: "c_string ''WELCOME'' \<and> length ''WELCOME'' < 2 ^ 63"
  by (simp add: c_string_def)

context reliable_os begin

lemma check_handshake_reliable:
  assumes "inp n s = string_bytes h @ rest" and "c_string h \<and> length h < 2 ^ 63"
  shows "\<exists>n'. check_handshake os s allowed n =
      Some (if get_handshake_code h AND allowed \<noteq> 0 then get_handshake_code h else -11, n') \<and>
    inp n' s = rest \<and> out n' = out n"
  using recv_string_reliable [OF assms(1)] assms(2) by (auto simp: check_handshake_def Let_def)

lemma handshake_to_client_reliable:
  assumes "get_handshake_msg hiserver = Some m"
    and "inp n s = string_bytes h @ rest" and "c_string h \<and> length h < 2 ^ 63"
  shows "\<exists>n'. socket_handshake_to_client os s hiserver hiclient n =
      Some (if get_handshake_code h AND hiclient \<noteq> 0 then get_handshake_code h else -11, n') \<and>
    inp n' s = rest \<and>
    out n' s = out n s @ string_bytes m @
      (if get_handshake_code h AND hiclient \<noteq> 0 then string_bytes ''WELCOME'' else [])"
proof -
  obtain n1 where 1: "socket_send_string os s (Some m) n = (SOCKET_ERROR_NONE, n1)"
    "inp n1 = inp n" "out n1 s = out n s @ string_bytes m"
    using send_string_reliable by blast
  from 1(2) assms(2) have "inp n1 s = string_bytes h @ rest" by simp
  from check_handshake_reliable [OF this assms(3)] obtain n2 where 2:
    "check_handshake os s hiclient n1 =
      Some (if get_handshake_code h AND hiclient \<noteq> 0 then get_handshake_code h else -11, n2)"
    "inp n2 s = rest" "out n2 = out n1" by blast
  obtain n3 where 3: "socket_send_string os s (Some ''WELCOME'') n2 = (SOCKET_ERROR_NONE, n3)"
    "inp n3 = inp n2" "out n3 s = out n2 s @ string_bytes ''WELCOME''"
    using send_string_reliable by blast
  show ?thesis
  proof (cases "get_handshake_code h AND hiclient \<noteq> 0")
    case True
    with 1 2 3 assms(1) get_handshake_code_nonneg [of h] show ?thesis
      by (simp add: socket_handshake_to_client_def failed_status_iff)
  next
    case False
    with 1 2 assms(1) show ?thesis
      by (simp add: socket_handshake_to_client_def failed_status_iff)
  qed
qed

lemma handshake_to_server_reliable:
  assumes "get_handshake_msg hiclient = Some m"
    and "inp n s = string_bytes h @ string_bytes w @ rest" and "c_string h \<and> length h < 2 ^ 63"
    and "c_string w \<and> length w < 2 ^ 63" and "get_handshake_code h AND hiserver \<noteq> 0"
  shows "\<exists>n'. socket_handshake_to_server os s hiserver hiclient n =
      Some (if get_handshake_code w AND HANDSHAKE_WELCOME \<noteq> 0 then get_handshake_code h else -12, n') \<and>
    inp n' s = rest \<and> out n' s = out n s @ string_bytes m"
proof -
  from check_handshake_reliable [OF assms(2,3), of hiserver] obtain n1 where
    "check_handshake os s hiserver n =
      Some (if get_handshake_code h AND hiserver \<noteq> 0 then get_handshake_code h else -11, n1)"
    and 1: "inp n1 s = string_bytes w @ rest" "out n1 = out n" by (elim exE conjE) (rule that)
  then have 0: "check_handshake os s hiserver n = Some (get_handshake_code h, n1)"
    by (simp only: assms(5) if_True simp_thms)
  obtain n2 where 2: "socket_send_string os s (Some m) n1 = (SOCKET_ERROR_NONE, n2)"
    "inp n2 = inp n1" "out n2 s = out n1 s @ string_bytes m"
    using send_string_reliable by blast
  from 1(1) 2(2) have "inp n2 s = string_bytes w @ rest" by simp
  from check_handshake_reliable [OF this assms(4)] obtain n3 where 3:
    "check_handshake os s HANDSHAKE_WELCOME n2 =
      Some (if get_handshake_code w AND HANDSHAKE_WELCOME \<noteq> 0 then get_handshake_code w else -11, n3)"
    "inp n3 s = rest" "out n3 = out n2" by blast
  show ?thesis
  proof (cases "get_handshake_code w AND HANDSHAKE_WELCOME \<noteq> 0")
    case True
    with 0 1 2 3 assms(1) get_handshake_code_nonneg [of h] get_handshake_code_nonneg [of w] show ?thesis
      by (simp add: socket_handshake_to_server_def failed_status_iff)
  next
    case False
    with 0 1 2 3 assms(1) get_handshake_code_nonneg [of h] show ?thesis
      by (simp add: socket_handshake_to_server_def failed_status_iff)
  qed
qed

end

section \<open>Properties of socket.c\<close>

text \<open>Sending a packet writes its bytes and nothing else: the status is
  \<open>SOCKET_ERROR_NONE\<close> exactly when the eight-byte big-endian length and the whole payload
  went out, on hosts of either byte order; any failure leaves a proper prefix of them, and no
  other socket is touched.\<close>

theorem packet_send_all_or_error:
  assumes "stream_os os inp out" and "socket_send_packet os s (Some p) n = (st, n')"
  shows "inp n' = inp n \<and> (\<forall>t. t \<noteq> s \<longrightarrow> out n' t = out n t) \<and>
    (\<exists>sent rest. be64 (word_of_nat (length p)) @ p = sent @ rest \<and> out n' s = out n s @ sent \<and>
      (if rest = [] then st = SOCKET_ERROR_NONE else st = SOCKET_ERROR_SEND))"
  using stream_os.send_packet_stream [OF assms] by (simp add: packet_bytes_def)

theorem packet_send_all_or_error_witness:
  "\<exists>n'. socket_send_packet (chunk_os True) 4 (Some [7, 8]) ((\<lambda>_. []), (\<lambda>_. [])) = (SOCKET_ERROR_NONE, n') \<and>
    snd n' 4 = [0, 0, 0, 0, 0, 0, 0, 2, 7, 8]"
proof -
  let ?n = "((\<lambda>_. []), (\<lambda>_. [])) :: chunk_net"
  have wire: "be64 (word_of_nat (length [7, 8 :: byte])) @ [7, 8] = [0, 0, 0, 0, 0, 0, 0, 2, 7, 8]"
    by code_simp
  from chunk.send_packet_reliable [of True 4 "[7, 8]" ?n]
  obtain n' where r: "socket_send_packet (chunk_os True) 4 (Some [7, 8]) ?n = (SOCKET_ERROR_NONE, n')"
    by (elim exE conjE) (rule that)
  from packet_send_all_or_error [OF chunk.stream_os_axioms r] obtain sent rest where
    *: "[0, 0, 0, 0, 0, 0, 0, 2, 7, 8] = sent @ rest" "snd n' 4 = snd ?n 4 @ sent"
    and st: "if rest = [] then SOCKET_ERROR_NONE = SOCKET_ERROR_NONE
      else SOCKET_ERROR_NONE = SOCKET_ERROR_SEND"
    unfolding wire by (elim exE conjE) (rule that)
  from st have "rest = []" by (simp split: if_splits)
  with * r show ?thesis by (intro exI [of _ n'] conjI) simp_all
qed

text \<open>A packet arrives as it was sent: whatever \<open>socket_send_packet\<close> wrote on one end of
  a connection, \<open>socket_recv_packet\<close> on the other end returns the same bytes and their
  length, for every way the network cuts the stream and any byte orders of the two hosts,
  and leaves the rest of the stream unread.\<close>

theorem packet_roundtrip:
  assumes "reliable_os os1 inp1 out1" and "reliable_os os2 inp2 out2" and "length p < 2 ^ 64"
    and "inp2 m t = drop (length (out1 n s)) (out1 (snd (socket_send_packet os1 s (Some p) n)) s) @ rest"
  shows "fst (socket_send_packet os1 s (Some p) n) = SOCKET_ERROR_NONE \<and>
    (\<exists>m'. socket_recv_packet os2 t size0 m = (SOCKET_ERROR_NONE, Some p, word_of_nat (length p), m') \<and>
      inp2 m' t = rest)"
proof -
  obtain n' where n': "socket_send_packet os1 s (Some p) n = (SOCKET_ERROR_NONE, n')"
    "out1 n' s = out1 n s @ packet_bytes p"
    using reliable_os.send_packet_reliable [OF assms(1)] by blast
  with assms(4) have "inp2 m t = packet_bytes p @ rest" by simp
  from reliable_os.recv_packet_reliable [OF assms(2) this] assms(3) n'(1) show ?thesis
    by (auto simp: packet_ok_def)
qed

theorem packet_roundtrip_witness:
  "\<exists>m m'. socket_recv_packet (chunk_os False) 9 0 m = (SOCKET_ERROR_NONE, Some [1, 2, 3, 4], 4, m') \<and>
    fst m' 9 = [5]"
proof -
  let ?n = "((\<lambda>_. []), (\<lambda>_. [])) :: chunk_net"
  let ?sent = "snd (snd (socket_send_packet (chunk_os True) 4 (Some [1, 2, 3, 4]) ?n)) 4"
  let ?m = "((\<lambda>_. ?sent @ [5]), (\<lambda>_. [])) :: chunk_net"
  have "fst ?m 9 = drop (length (snd ?n 4)) ?sent @ [5]" by simp
  have len: "length [1, 2, 3, 4 :: byte] < 2 ^ 64" by simp
  from conjunct2 [OF packet_roundtrip [OF chunk.reliable_os_axioms chunk.reliable_os_axioms len \<open>fst ?m 9 = _\<close>,
        of False 0]]
  obtain m' where "socket_recv_packet (chunk_os False) 9 0 ?m =
      (SOCKET_ERROR_NONE, Some [1, 2, 3, 4], word_of_nat (length [1, 2, 3, 4 :: byte]), m')"
    "fst m' 9 = [5]" by (elim exE conjE) (rule that)
  then show ?thesis by (intro exI [of _ ?m] exI [of _ m'] conjI) simp_all
qed

text \<open>The two ends of a handshake agree. A server of role \<open>a\<close> that accepts the clients in
  \<open>allowed\<close> and a client of role \<open>b\<close> that expects \<open>a\<close> are connected. If \<open>allowed\<close> admits \<open>b\<close>, the
  server's call returns \<open>b\<close> and the client's returns \<open>a\<close>; the server otherwise returns
  \<open>SOCKET_ERROR_HANDSHAKE\<close> and sends no welcome.\<close>

theorem handshake_agreement:
  assumes "reliable_os os1 inp1 out1" and "reliable_os os2 inp2 out2"
    and "get_handshake_msg a = Some ma" and "get_handshake_msg b = Some mb"
    and "inp1 n s = string_bytes mb"
    and "b AND allowed \<noteq> 0 \<Longrightarrow> inp2 m t = string_bytes ma @ string_bytes ''WELCOME''"
  shows "(\<exists>n'. socket_handshake_to_client os1 s a allowed n = Some (if b AND allowed \<noteq> 0 then b else -11, n') \<and>
      out1 n' s = out1 n s @ string_bytes ma @ (if b AND allowed \<noteq> 0 then string_bytes ''WELCOME'' else [])) \<and>
    (b AND allowed \<noteq> 0 \<longrightarrow> (\<exists>m'. socket_handshake_to_server os2 t a b m = Some (a, m') \<and>
      out2 m' t = out2 m t @ string_bytes mb))"
proof (intro conjI impI)
  note ma = get_handshake_msg_code [OF assms(3)] get_handshake_msg_string [OF assms(3)]
  note mb = get_handshake_msg_code [OF assms(4)] get_handshake_msg_string [OF assms(4)]
  show "\<exists>n'. socket_handshake_to_client os1 s a allowed n = Some (if b AND allowed \<noteq> 0 then b else -11, n') \<and>
      out1 n' s = out1 n s @ string_bytes ma @ (if b AND allowed \<noteq> 0 then string_bytes ''WELCOME'' else [])"
    using reliable_os.handshake_to_client_reliable [OF assms(1,3) _ mb(2), of n s "[]" allowed] assms(5) mb(1)
    by auto
  assume "b AND allowed \<noteq> 0"
  with assms(6) have i: "inp2 m t = string_bytes ma @ string_bytes ''WELCOME'' @ []" by simp
  have "a AND a \<noteq> 0" using assms(3) by (auto simp: get_handshake_msg_def handshake_codes split: if_splits)
  then show "\<exists>m'. socket_handshake_to_server os2 t a b m = Some (a, m') \<and> out2 m' t = out2 m t @ string_bytes mb"
    using reliable_os.handshake_to_server_reliable [OF assms(2,4) i _ welcome_string, of a] ma
    by (auto simp: get_handshake_code_def HANDSHAKE_WELCOME_def split: if_splits)
qed

theorem handshake_agreement_witness:
  "\<exists>n n' m m'. socket_handshake_to_client (chunk_os True) 3 HANDSHAKE_FILESYSTEM
       (HANDSHAKE_MARTA OR HANDSHAKE_NODO) n = Some (HANDSHAKE_NODO, n') \<and>
    socket_handshake_to_server (chunk_os False) 5 HANDSHAKE_FILESYSTEM HANDSHAKE_NODO m =
      Some (HANDSHAKE_FILESYSTEM, m')"
proof -
  let ?n = "((\<lambda>_. string_bytes ''IMNODO''), (\<lambda>_. [])) :: chunk_net"
  let ?m = "((\<lambda>_. string_bytes ''IMFILESYSTEM'' @ string_bytes ''WELCOME''), (\<lambda>_. [])) :: chunk_net"
  have roles: "get_handshake_msg HANDSHAKE_FILESYSTEM = Some ''IMFILESYSTEM''"
    "get_handshake_msg HANDSHAKE_NODO = Some ''IMNODO''"
    by (simp_all add: get_handshake_msg_def handshake_codes)
  have admitted: "HANDSHAKE_NODO AND (HANDSHAKE_MARTA OR HANDSHAKE_NODO) \<noteq> 0"
    by (simp add: handshake_codes)
  show ?thesis
    using handshake_agreement [OF chunk.reliable_os_axioms chunk.reliable_os_axioms roles, of ?n 3
        "HANDSHAKE_MARTA OR HANDSHAKE_NODO" ?m 5 True False] admitted
    by auto
qed

end
