(* ===== verification/FS_Connections.thy ===== *)
theory FS_Connections
  imports Metadata ListStore Socket
begin

text \<open>
  \<open>FileSystem/src/connections/connections_node.c\<close>: the connections to the storage nodes, in
  two dictionaries, active and standby, and the requests the file system sends over them. A
  mutex is its owner's node id: an operation holds it from its first to its last step, so
  each definition is one critical section and the sequences of operations are its
  interleavings. Logging has no state here.

  Also the environment (\<open>env\<close>: the driver, the operating system, \<open>list_sort\<close> on a list
  of pointers, the local files that can be written, and \<open>e_past\<close>, what a string function finds
  past the end of a received buffer up to the next NUL) and the state (\<open>world\<close>) of the whole file system process.
  Lemmas: a node is never active and standby at once, each operation keeps that; what a
  block transfer writes to the node and how each failure leaves the registry.
\<close>

record ('n, 'db) env = "'db mongo_env" +
  e_os :: "'n os"
  e_sort :: "(nat \<Rightarrow> nat \<Rightarrow> bool) \<Rightarrow> nat list \<Rightarrow> nat list"
  e_writable :: "string \<Rightarrow> bool"
  e_past :: "byte list \<Rightarrow> byte list option"

text \<open>\<open>listenPort\<close> is unset until the node has introduced itself.\<close>

record node_connection_t =
  nc_socket :: int
  nc_ip :: string
  nc_listenPort :: "u16 option"

type_synonym registry = "(string \<times> node_connection_t) list"

record ('n, 'db) world =
  w_db :: 'db
  w_net :: 'n
  w_active :: registry
  w_standby :: registry
  w_mutexes :: "string list"
  w_local :: "string \<Rightarrow> byte list option"

section \<open>The registry\<close>

definition connections_node_initialize :: "('n, 'db) world \<Rightarrow> ('n, 'db) world" where
  "connections_node_initialize w = w\<lparr>w_active := [], w_standby := [], w_mutexes := []\<rparr>"

definition connections_node_getNodeMutex :: "string \<Rightarrow> ('n, 'db) world \<Rightarrow> ('n, 'db) world" where
  "connections_node_getNodeMutex nodeId w =
     (if nodeId \<in> set (w_mutexes w) then w else w\<lparr>w_mutexes := nodeId # w_mutexes w\<rparr>)"

definition connections_node_getNodeConnection :: "string \<Rightarrow> ('n, 'db) world \<Rightarrow> node_connection_t option" where
  "connections_node_getNodeConnection nodeId w =
     (case map_of (w_active w) nodeId of
        Some c \<Rightarrow> Some c
      | None \<Rightarrow> map_of (w_standby w) nodeId)"

definition connections_node_getActiveNodeConnection :: "string \<Rightarrow> ('n, 'db) world \<Rightarrow> node_connection_t option" where
  "connections_node_getActiveNodeConnection nodeId w = map_of (w_active w) nodeId"

definition connections_node_removeActiveNodeConnection :: "string \<Rightarrow> ('n, 'db) world \<Rightarrow> ('n, 'db) world" where
  "connections_node_removeActiveNodeConnection nodeId w = w\<lparr>w_active := dict_remove nodeId (w_active w)\<rparr>"

definition connections_node_setAcceptedNodeConnection ::
    "string \<Rightarrow> node_connection_t \<Rightarrow> ('n, 'db) world \<Rightarrow> ('n, 'db) world" where
  "connections_node_setAcceptedNodeConnection nodeId nodeConnection w =
     (let w1 = connections_node_removeActiveNodeConnection nodeId w
      in w1\<lparr>w_standby := dict_put nodeId nodeConnection (dict_remove nodeId (w_standby w1))\<rparr>)"

definition connections_node_activateNode :: "string \<Rightarrow> ('n, 'db) world \<Rightarrow> bool \<times> ('n, 'db) world" where
  "connections_node_activateNode nodeId w =
     (let nodeConnection = map_of (w_standby w) nodeId;
          w1 = w\<lparr>w_standby := dict_remove nodeId (w_standby w)\<rparr>
      in case nodeConnection of
           Some c \<Rightarrow> (True, w1\<lparr>w_active := dict_put nodeId c (w_active w1)\<rparr>)
         | None \<Rightarrow> (False, w1))"

definition connections_node_deactivateNode :: "string \<Rightarrow> ('n, 'db) world \<Rightarrow> bool \<times> ('n, 'db) world" where
  "connections_node_deactivateNode nodeId w =
     (let nodeConnection = map_of (w_active w) nodeId;
          w1 = w\<lparr>w_active := dict_remove nodeId (w_active w)\<rparr>
      in case nodeConnection of
           Some c \<Rightarrow> (True, w1\<lparr>w_standby := dict_put nodeId c (w_standby w1)\<rparr>)
         | None \<Rightarrow> (False, w1))"

definition connections_node_getActiveConnectedCount :: "('n, 'db) world \<Rightarrow> nat" where
  "connections_node_getActiveConnectedCount w = length (w_active w)"

definition connections_node_isActiveNode :: "string \<Rightarrow> ('n, 'db) world \<Rightarrow> bool" where
  "connections_node_isActiveNode nodeId w = (connections_node_getActiveNodeConnection nodeId w \<noteq> None)"

definition connections_node_connection_create :: "int \<Rightarrow> string \<Rightarrow> node_connection_t" where
  "connections_node_connection_create s ip = \<lparr>nc_socket = s, nc_ip = ip, nc_listenPort = None\<rparr>"

section \<open>Requests to a node\<close>

record nodeBlockSendOperation_t =
  op_node :: node_t
  op_blockIndex :: int
  op_block :: "byte list"

text \<open>A packet on a connection, and one from it, with the network state threaded.\<close>

definition w_send_packet :: "('n, 'db) env \<Rightarrow> int \<Rightarrow> byte list \<Rightarrow> ('n, 'db) world \<Rightarrow> e_socket_status \<times> ('n, 'db) world" where
  "w_send_packet E s p w =
     (case socket_send_packet (e_os E) s (Some p) (w_net w) of (status, n') \<Rightarrow> (status, w\<lparr>w_net := n'\<rparr>))"

definition w_recv_packet :: "('n, 'db) env \<Rightarrow> int \<Rightarrow> u64 \<Rightarrow> ('n, 'db) world \<Rightarrow>
    e_socket_status \<times> byte list option \<times> u64 \<times> ('n, 'db) world" where
  "w_recv_packet E s size0 w =
     (case socket_recv_packet (e_os E) s size0 (w_net w) of (status, p, sz, n') \<Rightarrow>
       (status, p, sz, w\<lparr>w_net := n'\<rparr>))"

text \<open>\<open>strlen\<close> of the block cuts it at its first NUL. A node without a name is undefined.\<close>

definition connections_node_sendBlock ::
    "('n, 'db) env \<Rightarrow> nodeBlockSendOperation_t \<Rightarrow> ('n, 'db) world \<Rightarrow> (bool \<times> ('n, 'db) world) option" where
  "connections_node_sendBlock E sendOperation w =
     (case nd_id (op_node sendOperation) of
        None \<Rightarrow> None
      | Some nodeId \<Rightarrow>
          let numBlock = word_of_int (op_blockIndex sendOperation) :: u16;
              buffer = COMMAND_FS_TO_NODE_SET_BLOCK # be16 numBlock;
              blockData = takeWhile (\<lambda>b. b \<noteq> 0) (op_block sendOperation);
              w1 = connections_node_getNodeMutex nodeId w
          in case connections_node_getActiveNodeConnection nodeId w1 of
               None \<Rightarrow> Some (False, w1)
             | Some c \<Rightarrow>
                 let (status, w2) = w_send_packet E (nc_socket c) buffer w1;
                     (status, w3) = (if status = SOCKET_ERROR_NONE
                                     then w_send_packet E (nc_socket c) blockData w2 else (status, w2))
                 in if 0 > status_code status
                    then Some (False, connections_node_removeActiveNodeConnection nodeId w3)
                    else Some (status = SOCKET_ERROR_NONE, w3))"

text \<open>The test after the request is \<open>0 > SOCKET_ERROR_NONE\<close>, on the constant.\<close>

definition connections_node_getBlock ::
    "('n, 'db) env \<Rightarrow> file_block_t \<Rightarrow> ('n, 'db) world \<Rightarrow> byte list option \<times> ('n, 'db) world" where
  "connections_node_getBlock E fileBlock w =
     (let buffer = COMMAND_FS_TO_NODE_GET_BLOCK # be16 (fb_blockIndex fileBlock);
          nodeId = fb_nodeId fileBlock;
          w1 = connections_node_getNodeMutex nodeId w
      in case connections_node_getActiveNodeConnection nodeId w1 of
           None \<Rightarrow> (None, w1)
         | Some c \<Rightarrow>
             let (status, w2) = w_send_packet E (nc_socket c) buffer w1
             in if 0 > status_code SOCKET_ERROR_NONE
                then (None, connections_node_removeActiveNodeConnection nodeId w2)
                else let (status, p, sz, w3) = w_recv_packet E (nc_socket c) 0 w2
                     in if 0 > status_code status
                        then (None, connections_node_removeActiveNodeConnection nodeId w3)
                        else (p, w3))"

text \<open>Returns the content, the length variable (\<open>tmpFileLength\<close> before the call) and the state.\<close>

definition connections_node_getFileContent ::
    "('n, 'db) env \<Rightarrow> string \<Rightarrow> string \<Rightarrow> u64 \<Rightarrow> ('n, 'db) world \<Rightarrow> byte list option \<times> u64 \<times> ('n, 'db) world" where
  "connections_node_getFileContent E nodeId tmpFileName tmpFileLength w =
     (let sTmpName = word_of_nat (length tmpFileName) :: u32;
          buffer = COMMAND_NODE_GET_TMP_FILE_CONTENT # be32 sTmpName @ take (unat sTmpName) (str_bytes tmpFileName);
          w1 = connections_node_getNodeMutex nodeId w
      in case connections_node_getActiveNodeConnection nodeId w1 of
           None \<Rightarrow> (None, tmpFileLength, w1)
         | Some c \<Rightarrow>
             let (status, w2) = w_send_packet E (nc_socket c) buffer w1
             in if 0 > status_code status
                then (None, tmpFileLength, connections_node_removeActiveNodeConnection nodeId w2)
                else let (status, p, sz, w3) = w_recv_packet E (nc_socket c) tmpFileLength w2
                     in if 0 > status_code status
                        then (None, sz, connections_node_removeActiveNodeConnection nodeId w3)
                        else (p, sz, w3))"

text \<open>One turn of the loop of the alive checker: whether it goes on, and the state.\<close>

definition checkAlive_turn :: "('n, 'db) env \<Rightarrow> string \<Rightarrow> ('n, 'db) world \<Rightarrow> bool \<times> ('n, 'db) world" where
  "checkAlive_turn E nodeId w =
     (case connections_node_getNodeConnection nodeId w of
        None \<Rightarrow> (False, w)
      | Some c \<Rightarrow>
          let (status, w1) = w_send_packet E (nc_socket c) [COMMAND_NODE_CHECK_ALIVE] w
          in if 0 > status_code status
             then (False, connections_node_removeActiveNodeConnection nodeId w1)
             else (True, w1))"

text \<open>The thread: it ends only when a turn ends it.\<close>

partial_function (option) checkAlive_loop ::
    "('n, 'db) env \<Rightarrow> string \<Rightarrow> ('n, 'db) world \<Rightarrow> ('n, 'db) world option" where
  "checkAlive_loop E nodeId w =
     (let r = checkAlive_turn E nodeId w
      in if fst r then checkAlive_loop E nodeId (snd r) else Some (snd r))"

definition connections_node_checkAlive ::
    "('n, 'db) env \<Rightarrow> string \<Rightarrow> ('n, 'db) world \<Rightarrow> ('n, 'db) world option" where
  "connections_node_checkAlive E nodeId w =
     checkAlive_loop E nodeId (connections_node_getNodeMutex nodeId w)"

section \<open>A node is in one table\<close>

definition registry_ok :: "('n, 'db) world \<Rightarrow> bool" where
  "registry_ok w \<longleftrightarrow> distinct (map fst (w_active w)) \<and> distinct (map fst (w_standby w)) \<and>
     dict_keys (w_active w) \<inter> dict_keys (w_standby w) = {}"

text \<open>What can happen to the registry: every operation that a thread of the process performs.\<close>

inductive registry_step :: "('n, 'db) env \<Rightarrow> ('n, 'db) world \<Rightarrow> ('n, 'db) world \<Rightarrow> bool" for E where
  Accept: "registry_step E w (connections_node_setAcceptedNodeConnection i c w)"
| Activate: "registry_step E w (snd (connections_node_activateNode i w))"
| Deactivate: "registry_step E w (snd (connections_node_deactivateNode i w))"
| SendBlock: "connections_node_sendBlock E so w = Some (r, w') \<Longrightarrow> registry_step E w w'"
| GetBlock: "registry_step E w (snd (connections_node_getBlock E fb w))"
| GetFile: "registry_step E w (snd (snd (connections_node_getFileContent E i t sz w)))"
| Alive: "registry_step E w (snd (checkAlive_turn E i w))"
| Mutex: "registry_step E w (connections_node_getNodeMutex i w)"

inductive registry_reach :: "('n, 'db) env \<Rightarrow> ('n, 'db) world \<Rightarrow> ('n, 'db) world \<Rightarrow> bool" for E w0 where
  Start: "registry_reach E w0 (connections_node_initialize w0)"
| Step: "registry_reach E w0 w \<Longrightarrow> registry_step E w w' \<Longrightarrow> registry_reach E w0 w'"

inductive_cases registry_stepE: "registry_step E w w'"

lemma mutex_fields [simp]:
  "w_db (connections_node_getNodeMutex i w) = w_db w" "w_net (connections_node_getNodeMutex i w) = w_net w"
  "w_active (connections_node_getNodeMutex i w) = w_active w"
  "w_standby (connections_node_getNodeMutex i w) = w_standby w"
  "w_local (connections_node_getNodeMutex i w) = w_local w"
  by (simp_all add: connections_node_getNodeMutex_def)

lemma remove_fields [simp]:
  "w_db (connections_node_removeActiveNodeConnection i w) = w_db w"
  "w_net (connections_node_removeActiveNodeConnection i w) = w_net w"
  "w_active (connections_node_removeActiveNodeConnection i w) = dict_remove i (w_active w)"
  "w_standby (connections_node_removeActiveNodeConnection i w) = w_standby w"
  "w_local (connections_node_removeActiveNodeConnection i w) = w_local w"
  by (simp_all add: connections_node_removeActiveNodeConnection_def)

text \<open>Sending and receiving change only the network.\<close>

lemma w_send_fields:
  "w_send_packet E s p w = (st, w') \<Longrightarrow> w_db w' = w_db w \<and> w_active w' = w_active w \<and> w_standby w' = w_standby w \<and>
     w_mutexes w' = w_mutexes w \<and> w_local w' = w_local w"
  by (auto simp: w_send_packet_def split: prod.splits)

lemma w_recv_fields:
  "w_recv_packet E s z w = (st, q, sz, w') \<Longrightarrow> w_db w' = w_db w \<and> w_active w' = w_active w \<and>
     w_standby w' = w_standby w \<and> w_mutexes w' = w_mutexes w \<and> w_local w' = w_local w"
  by (auto simp: w_recv_packet_def split: prod.splits)

text \<open>What a request does to the rest of the state: at most its own node leaves the active table.\<close>

definition request_frame :: "string \<Rightarrow> ('n, 'db) world \<Rightarrow> ('n, 'db) world \<Rightarrow> bool" where
  "request_frame i w w' \<longleftrightarrow> w_db w' = w_db w \<and> w_local w' = w_local w \<and> w_standby w' = w_standby w \<and>
     w_active w' \<in> {w_active w, dict_remove i (w_active w)}"

lemma sendBlock_frame:
  "connections_node_sendBlock E so w = Some (r, w') \<Longrightarrow>
     \<exists>i. nd_id (op_node so) = Some i \<and> request_frame i w w' \<and> (r \<longrightarrow> w_active w' = w_active w)"
  unfolding connections_node_sendBlock_def Let_def request_frame_def
  by (auto split: option.splits prod.splits if_splits dest!: w_send_fields)

lemma sendBlock_total:
  "nd_id (op_node so) = Some i \<Longrightarrow> \<exists>r w'. connections_node_sendBlock E so w = Some (r, w')"
  by (auto simp: connections_node_sendBlock_def Let_def split: option.split prod.split)

lemma getBlock_frame:
  "connections_node_getBlock E fb w = (r, w') \<Longrightarrow>
     request_frame (fb_nodeId fb) w w' \<and> (r \<noteq> None \<longrightarrow> w_active w' = w_active w)"
  unfolding connections_node_getBlock_def Let_def request_frame_def
  by (auto split: option.splits prod.splits if_splits dest!: w_send_fields w_recv_fields)

lemma getFileContent_frame:
  "connections_node_getFileContent E i t z w = (r, sz, w') \<Longrightarrow>
     request_frame i w w' \<and> (r \<noteq> None \<longrightarrow> w_active w' = w_active w)"
  unfolding connections_node_getFileContent_def Let_def request_frame_def
  by (auto split: option.splits prod.splits if_splits dest!: w_send_fields w_recv_fields)

lemma checkAlive_frame:
  "checkAlive_turn E i w = (r, w') \<Longrightarrow> request_frame i w w'"
  unfolding checkAlive_turn_def Let_def request_frame_def
  by (auto split: option.splits prod.splits if_splits dest!: w_send_fields)

lemma registry_ok_frame: "registry_ok w \<Longrightarrow> request_frame i w w' \<Longrightarrow> registry_ok w'"
  by (auto simp: registry_ok_def request_frame_def)

lemma registry_step_ok: "registry_step E w w' \<Longrightarrow> registry_ok w \<Longrightarrow> registry_ok w'"
proof (induction rule: registry_step.induct)
  case (Accept w i c)
  then show ?case
    by (auto simp: registry_ok_def connections_node_setAcceptedNodeConnection_def Let_def)
next
  case (Activate w i)
  then show ?case
    by (auto simp: registry_ok_def connections_node_activateNode_def Let_def split: option.splits)
next
  case (Deactivate w i)
  then show ?case
    by (auto simp: registry_ok_def connections_node_deactivateNode_def Let_def split: option.splits)
next
  case (SendBlock so w r w')
  then show ?case using sendBlock_frame registry_ok_frame by metis
next
  case (GetBlock w fb)
  then show ?case using getBlock_frame registry_ok_frame by (metis prod.collapse)
next
  case (GetFile w i t sz)
  then show ?case using getFileContent_frame registry_ok_frame by (metis prod.collapse)
next
  case (Alive w i)
  then show ?case using checkAlive_frame registry_ok_frame by (metis prod.collapse)
next
  case (Mutex w i)
  then show ?case by (simp add: registry_ok_def)
qed

lemma registry_reach_ok: "registry_reach E w0 w \<Longrightarrow> registry_ok w"
proof (induction rule: registry_reach.induct)
  case Start
  show ?case by (simp add: registry_ok_def connections_node_initialize_def dict_keys_def)
next
  case (Step w w')
  then show ?case by (blast intro: registry_step_ok)
qed

section \<open>A complete environment\<close>

definition fs_env :: "bool \<Rightarrow> (chunk_net, lstore) env" where
  "fs_env le = \<lparr>c_test_bit = msb_test, c_set_bit = msb_set, c_clean_bit = msb_clean,
     c_split = drop_empty_split, c_eq_ignore_case = lower_eq,
     c_substring_until = (\<lambda>s n. take n s), c_substring_from = (\<lambda>s n. drop n s),
     m_find = ls_find, m_insert = ls_insert, m_remove = ls_remove, m_update = ls_update,
     m_index = ls_index, m_oid = ls_oid,
     e_os = chunk_os le, e_sort = sort_by, e_writable = (\<lambda>_. True),
     e_past = (\<lambda>_. Some [])\<rparr>"

interpretation fsenv_commons: commons_laws "fs_env le"
  using msb.bitarray_axioms strs.string_lib_axioms
  by (simp add: commons_laws_def fs_env_def)

interpretation fsenv_mongo: mongo_laws "fs_env le" "\<lambda>s c. set (ls_view s c)" ls_uniq
  using lstore.doc_store_axioms by (simp add: mongo_laws_def fs_env_def)

definition world0 :: "(chunk_net, lstore) world" where
  "world0 = \<lparr>w_db = ls_empty, w_net = ((\<lambda>_. []), (\<lambda>_. [])), w_active = [], w_standby = [],
     w_mutexes = [], w_local = (\<lambda>_. None)\<rparr>"

section \<open>The bytes of a block transfer\<close>

lemma w_send_stream:
  assumes "stream_os (e_os E) inp out" and "w_send_packet E s p w = (st, w')"
  shows "inp (w_net w') = inp (w_net w) \<and> (\<forall>t. t \<noteq> s \<longrightarrow> out (w_net w') t = out (w_net w) t) \<and>
    (\<exists>sent rest. packet_bytes p = sent @ rest \<and> out (w_net w') s = out (w_net w) s @ sent \<and>
      (if rest = [] then st = SOCKET_ERROR_NONE else st = SOCKET_ERROR_SEND))"
proof -
  obtain n' where r: "socket_send_packet (e_os E) s (Some p) (w_net w) = (st, n')" and n': "n' = w_net w'"
    using assms(2) by (auto simp: w_send_packet_def split: prod.splits)
  from stream_os.send_packet_stream [OF assms(1) r] show ?thesis unfolding n' by simp
qed

definition set_block_bytes :: "int \<Rightarrow> byte list \<Rightarrow> byte list" where
  "set_block_bytes i block = packet_bytes (COMMAND_FS_TO_NODE_SET_BLOCK # be16 (word_of_int i)) @
     packet_bytes (takeWhile (\<lambda>b. b \<noteq> 0) block)"

lemma sendBlock_stream:
  assumes os: "stream_os (e_os E) inp out" and i: "nd_id (op_node so) = Some i"
    and c: "map_of (w_active w) i = Some c"
    and run: "connections_node_sendBlock E so w = Some (r, w')"
  shows "\<exists>sent rest. set_block_bytes (op_blockIndex so) (op_block so) = sent @ rest \<and>
      out (w_net w') (nc_socket c) = out (w_net w) (nc_socket c) @ sent \<and>
      (\<forall>t. t \<noteq> nc_socket c \<longrightarrow> out (w_net w') t = out (w_net w) t) \<and> (r \<longleftrightarrow> rest = []) \<and>
      w_active w' = (if r then w_active w else dict_remove i (w_active w))"
proof -
  let ?s = "nc_socket c" and ?w1 = "connections_node_getNodeMutex i w"
  let ?cmd = "COMMAND_FS_TO_NODE_SET_BLOCK # be16 (word_of_int (op_blockIndex so))"
  let ?data = "takeWhile (\<lambda>b. b \<noteq> 0) (op_block so)"
  obtain st2 w2 where 2: "w_send_packet E ?s ?cmd ?w1 = (st2, w2)" by (cases "w_send_packet E ?s ?cmd ?w1")
  from w_send_stream [OF os 2] obtain s2 r2 where
    s2: "packet_bytes ?cmd = s2 @ r2" "out (w_net w2) ?s = out (w_net w) ?s @ s2"
      "\<forall>t. t \<noteq> ?s \<longrightarrow> out (w_net w2) t = out (w_net w) t"
      "if r2 = [] then st2 = SOCKET_ERROR_NONE else st2 = SOCKET_ERROR_SEND" by auto
  note a2 = w_send_fields [OF 2]
  have act: "connections_node_getActiveNodeConnection i ?w1 = Some c"
    using c by (simp add: connections_node_getActiveNodeConnection_def)
  show ?thesis
  proof (cases "r2 = []")
    case False
    then have st2: "st2 = SOCKET_ERROR_SEND" using s2(4) by simp
    then have "r = False \<and> w' = connections_node_removeActiveNodeConnection i w2"
      using run i 2 act by (simp add: connections_node_sendBlock_def)
    then show ?thesis using s2 a2 False
      by (intro exI [of _ s2] exI [of _ "r2 @ packet_bytes ?data"]) (simp add: set_block_bytes_def)
  next
    case True
    then have st2: "st2 = SOCKET_ERROR_NONE" using s2(4) by simp
    obtain st3 w3 where 3: "w_send_packet E ?s ?data w2 = (st3, w3)" by (cases "w_send_packet E ?s ?data w2")
    from w_send_stream [OF os 3] obtain s3 r3 where
      s3: "packet_bytes ?data = s3 @ r3" "out (w_net w3) ?s = out (w_net w2) ?s @ s3"
        "\<forall>t. t \<noteq> ?s \<longrightarrow> out (w_net w3) t = out (w_net w2) t"
        "if r3 = [] then st3 = SOCKET_ERROR_NONE else st3 = SOCKET_ERROR_SEND" by auto
    note a3 = w_send_fields [OF 3]
    have "r = (r3 = []) \<and> w' = (if r3 = [] then w3 else connections_node_removeActiveNodeConnection i w3)"
      using run i 2 3 act st2 s3(4) by (auto simp: connections_node_sendBlock_def split: if_splits)
    then show ?thesis using s2 s3 a2 a3 True
      by (intro exI [of _ "s2 @ s3"] exI [of _ r3]) (auto simp: set_block_bytes_def)
  qed
qed

section \<open>Properties of connections\_node.c\<close>



text \<open>The life of a connection: a node that introduces itself waits in standby whatever it
  was before; activating it makes exactly that connection the active one; deactivating it puts
  it back; no step touches any other node.\<close>

theorem connection_lifecycle:
  "\<exists>w1 w2. connections_node_activateNode i (connections_node_setAcceptedNodeConnection i c w) = (True, w1) \<and>
     connections_node_deactivateNode i w1 = (True, w2) \<and>
     map_of (w_active (connections_node_setAcceptedNodeConnection i c w)) i = None \<and>
     map_of (w_active w1) i = Some c \<and> map_of (w_standby w1) i = None \<and>
     map_of (w_active w2) i = None \<and> map_of (w_standby w2) i = Some c \<and>
     (\<forall>j \<in> - {i}. map_of (w_active w2) j = map_of (w_active w) j \<and>
       map_of (w_standby w2) j = map_of (w_standby w) j)"
  by (simp add: connections_node_activateNode_def connections_node_deactivateNode_def
      connections_node_setAcceptedNodeConnection_def Let_def)

theorem connection_lifecycle_witness:
  "\<exists>w1 w2. connections_node_activateNode ''n1'' (connections_node_setAcceptedNodeConnection ''n1''
      (connections_node_connection_create 5 ''10.0.0.1'') world0) = (True, w1) \<and>
    connections_node_deactivateNode ''n1'' w1 = (True, w2) \<and> map_of (w_active w2) ''n1'' = None"
  using connection_lifecycle [of "''n1''" "connections_node_connection_create 5 ''10.0.0.1''" world0] by blast

text \<open>A block is reported as stored exactly when it was sent whole. Over any byte stream,
  \<open>connections_node_sendBlock\<close> writes to the socket of the active node a prefix of one
  message: the packet SET\_BLOCK with the block number, then the packet with the bytes of the
  block up to its first NUL. It returns true if and only if that was the whole message, and
  otherwise the node is no longer active; no other socket is written.\<close>

theorem sendBlock_whole_or_inactive:
  assumes "stream_os (e_os E) inp out" and "nd_id (op_node so) = Some i"
    and "map_of (w_active w) i = Some c"
    and "connections_node_sendBlock E so w = Some (r, w')"
  shows "\<exists>sent rest. set_block_bytes (op_blockIndex so) (op_block so) = sent @ rest \<and>
    out (w_net w') (nc_socket c) = out (w_net w) (nc_socket c) @ sent \<and>
    (\<forall>t. t \<noteq> nc_socket c \<longrightarrow> out (w_net w') t = out (w_net w) t) \<and> (r \<longleftrightarrow> rest = []) \<and>
    w_active w' = (if r then w_active w else dict_remove i (w_active w))"
  using assms by (rule sendBlock_stream)

definition demo_node :: node_t where
  "demo_node = (node_create 4)\<lparr>nd_id := Some ''n1''\<rparr>"

definition demo_world :: "(chunk_net, lstore) world" where
  "demo_world = world0\<lparr>w_active := [(''n1'', \<lparr>nc_socket = 7, nc_ip = ''10.0.0.1'', nc_listenPort = Some 3000\<rparr>)]\<rparr>"

lemma chunk_stream_env: "stream_os (e_os (fs_env le)) fst snd"
  using chunk_stream by (simp add: fs_env_def)

theorem sendBlock_whole_or_inactive_witness:
  "\<exists>r w'. connections_node_sendBlock (fs_env True) \<lparr>op_node = demo_node, op_blockIndex = 2, op_block = [65, 10]\<rparr>
      demo_world = Some (r, w') \<and>
    (r \<longrightarrow> snd (w_net w') 7 = [0, 0, 0, 0, 0, 0, 0, 3, 1, 0, 2, 0, 0, 0, 0, 0, 0, 0, 2, 65, 10])"
proof -
  let ?so = "\<lparr>op_node = demo_node, op_blockIndex = 2, op_block = [65, 10]\<rparr>"
  have i: "nd_id (op_node ?so) = Some ''n1''" by (simp add: demo_node_def)
  have c: "map_of (w_active demo_world) ''n1'' =
      Some \<lparr>nc_socket = 7, nc_ip = ''10.0.0.1'', nc_listenPort = Some 3000\<rparr>" by (simp add: demo_world_def)
  obtain r w' where run: "connections_node_sendBlock (fs_env True) ?so demo_world = Some (r, w')"
    using sendBlock_total [OF i] by blast
  have bytes: "set_block_bytes 2 [65, 10] = [0, 0, 0, 0, 0, 0, 0, 3, 1, 0, 2, 0, 0, 0, 0, 0, 0, 0, 2, 65, 10]"
    unfolding set_block_bytes_def packet_bytes_def by code_simp
  have "snd (w_net demo_world) 7 = []" by (simp add: demo_world_def world0_def)
  then have "r \<Longrightarrow> snd (w_net w') 7 = set_block_bytes 2 [65, 10]"
    using sendBlock_whole_or_inactive [OF chunk_stream_env i c run] by auto
  with run bytes show ?thesis by auto
qed

end
