(* ===== verification/FS_Paths.thy ===== *)
theory FS_Paths
  imports FS_Connections
begin

text \<open>
  \<open>filesystem_resolveDirPath\<close> and \<open>filesystem_resolveFilePath\<close> of
  \<open>FileSystem/src/filesystem/filesystem.c\<close>, with the lookups they use. A pointer result is an
  option; the outer \<^const>\<open>None\<close> is undefined behaviour: reading through NULL, or writing
  outside the 1024 characters of \<open>newFullPath\<close>.

  The specification is a walk over the directory tree: \<open>dir_at D ns i\<close> says that the
  components \<open>ns\<close> lead from the root to the directory \<open>i\<close>, \<open>walk\<close> interprets the
  components of a path against a current directory, and \<open>render\<close> prints one. The refinement:
  the code finds the directory the walk finds, and \<open>fullPath\<close> is its printed form.
\<close>

section \<open>Lookups\<close>

definition filesystem_isRootDirId :: "('n, 'db) env \<Rightarrow> string \<Rightarrow> bool" where
  "filesystem_isRootDirId E i = c_eq_ignore_case E i ROOT_DIR_ID"

definition filesystem_isRootDir :: "('n, 'db) env \<Rightarrow> dir_t \<Rightarrow> bool" where
  "filesystem_isRootDir E dir = filesystem_isRootDirId E (dir_id dir)"

definition filesystem_getDirById :: "('n, 'db) env \<Rightarrow> string \<Rightarrow> ('n, 'db) world \<Rightarrow> dir_t option option" where
  "filesystem_getDirById E i w = mongo_dir_getById E i (w_db w)"

definition filesystem_getDirByNameInDir ::
    "('n, 'db) env \<Rightarrow> string \<Rightarrow> string \<Rightarrow> ('n, 'db) world \<Rightarrow> dir_t option option" where
  "filesystem_getDirByNameInDir E dirName parentId w = mongo_dir_getByNameInDir E dirName parentId (w_db w)"

definition filesystem_getFileByNameInDir ::
    "('n, 'db) env \<Rightarrow> string \<Rightarrow> string \<Rightarrow> ('n, 'db) world \<Rightarrow> file_t option option" where
  "filesystem_getFileByNameInDir E fileName parentId w = mongo_file_getByNameInDir E fileName parentId (w_db w)"

definition filesystem_getDirsInDir :: "('n, 'db) env \<Rightarrow> string \<Rightarrow> ('n, 'db) world \<Rightarrow> dir_t list option" where
  "filesystem_getDirsInDir E parentId w = mongo_dir_getByParentId E parentId (w_db w)"

definition filesystem_getFilesInDir :: "('n, 'db) env \<Rightarrow> string \<Rightarrow> ('n, 'db) world \<Rightarrow> file_t list option" where
  "filesystem_getFilesInDir E parentId w = mongo_file_getByParentId E parentId (w_db w)"

section \<open>Resolving paths\<close>

text \<open>A string copied or appended into \<open>char newFullPath[1024]\<close>.\<close>

definition fit_path :: "string \<Rightarrow> string option" where
  "fit_path s = (if length s < 1024 then Some s else None)"

text \<open>\<open>dir_create()\<close> with the root identifier copied in.\<close>

definition root_dir :: dir_t where
  "root_dir = dir_create\<lparr>dir_id := ROOT_DIR_ID\<rparr>"

text \<open>
  The branch for \<open>..\<close>: cut the last name off \<open>newFullPath\<close>, then go to the parent. The
  parent may be missing in the database: the \<open>isRootDir\<close> test then reads through NULL.
\<close>

definition go_up :: "('n, 'db) env \<Rightarrow> dir_t \<Rightarrow> string \<Rightarrow> ('n, 'db) world \<Rightarrow> (dir_t \<times> string) option" where
  "go_up E cur fp w =
     (if filesystem_isRootDir E cur then Some (cur, fp)
      else do {
        name \<leftarrow> dir_name cur;
        fp1 \<leftarrow> (if length name + 1 \<le> length fp then Some (take (length fp - length name - 1) fp) else None);
        cur1 \<leftarrow> (if filesystem_isRootDirId E (dir_parentId cur) then Some root_dir
                 else Option.bind (filesystem_getDirById E (dir_parentId cur) w) id);
        (if filesystem_isRootDir E cur1 then do { fp2 \<leftarrow> fit_path (fp1 @ ''/''); Some (cur1, fp2) }
         else Some (cur1, fp1))
      })"

text \<open>The branch for a name: the child, NULL when there is none.\<close>

definition go_down ::
    "('n, 'db) env \<Rightarrow> string \<Rightarrow> dir_t \<Rightarrow> string \<Rightarrow> ('n, 'db) world \<Rightarrow> (dir_t \<times> string) option option" where
  "go_down E dirName cur fp w =
     do {
       newDir \<leftarrow> filesystem_getDirByNameInDir E dirName (dir_id cur) w;
       (case newDir of
          None \<Rightarrow> Some None
        | Some cur1 \<Rightarrow> do {
            fp1 \<leftarrow> (if \<not> filesystem_isRootDirId E (dir_parentId cur1) then fit_path (fp @ ''/'') else Some fp);
            name \<leftarrow> dir_name cur1;
            fp2 \<leftarrow> fit_path (fp1 @ name);
            Some (Some (cur1, fp2))
          })
     }"

fun resolve_loop ::
    "('n, 'db) env \<Rightarrow> ('n, 'db) world \<Rightarrow> string list \<Rightarrow> dir_t \<Rightarrow> string \<Rightarrow> (dir_t \<times> string) option option" where
  "resolve_loop E w [] cur fp = Some (Some (cur, fp))"
| "resolve_loop E w (dirName # dirNames) cur fp =
     (if dirName \<noteq> '''' then
        if dirName = ''..'' then
          do { (cur1, fp1) \<leftarrow> go_up E cur fp w; resolve_loop E w dirNames cur1 fp1 }
        else if dirName = ''.'' then resolve_loop E w dirNames cur fp
        else do {
          r \<leftarrow> go_down E dirName cur fp w;
          (case r of None \<Rightarrow> Some None | Some (cur1, fp1) \<Rightarrow> resolve_loop E w dirNames cur1 fp1)
        }
      else resolve_loop E w dirNames cur fp)"

text \<open>The result is the directory with \<open>newFullPath\<close>, which \<open>fullPath\<close> receives.\<close>

definition filesystem_resolveDirPath ::
    "('n, 'db) env \<Rightarrow> string \<Rightarrow> string \<Rightarrow> string \<Rightarrow> ('n, 'db) world \<Rightarrow> (dir_t \<times> string) option option" where
  "filesystem_resolveDirPath E path startingDirId startingPath w =
     (let absolute = (path \<noteq> [] \<and> hd path = CHR ''/'') in
      do {
        fp \<leftarrow> (if absolute then Some ''/'' else fit_path startingPath);
        dirNames \<leftarrow> Some (if absolute then c_split E (tl path) ''/'' else c_split E path ''/'');
        cur \<leftarrow> (if absolute \<or> filesystem_isRootDirId E startingDirId then Some (Some root_dir)
                else filesystem_getDirById E startingDirId w);
        (case cur of None \<Rightarrow> Some None | Some d \<Rightarrow> resolve_loop E w dirNames d fp)
      })"

text \<open>The position of the last slash, -1 when there is none.\<close>

fun last_slash :: "string \<Rightarrow> nat \<Rightarrow> int" where
  "last_slash path 0 = -1"
| "last_slash path (Suc i) = (if path ! i = CHR ''/'' then int i else last_slash path i)"

definition filesystem_resolveFilePath ::
    "('n, 'db) env \<Rightarrow> string \<Rightarrow> string \<Rightarrow> string \<Rightarrow> ('n, 'db) world \<Rightarrow> file_t option option" where
  "filesystem_resolveFilePath E path startingDirId startingPath w =
     (let lastSlashPos = last_slash path (length path) in
      do {
        fileDir \<leftarrow>
          (if lastSlashPos \<noteq> -1 then do {
             r \<leftarrow> filesystem_resolveDirPath E (c_substring_until E path (nat (lastSlashPos + 1)))
                   startingDirId startingPath w;
             Some (map_option fst r)
           }
           else if filesystem_isRootDirId E startingDirId then Some (Some root_dir)
           else filesystem_getDirById E startingDirId w);
        fileName \<leftarrow> Some (if lastSlashPos \<noteq> -1 then c_substring_from E path (nat (lastSlashPos + 1)) else path);
        (case fileDir of
           None \<Rightarrow> Some None
         | Some d \<Rightarrow> filesystem_getFileByNameInDir E fileName (dir_id d) w)
      })"

section \<open>The directory tree\<close>

inductive dir_at :: "dir_t set \<Rightarrow> string list \<Rightarrow> string \<Rightarrow> bool" for D where
  Root: "dir_at D [] ROOT_DIR_ID"
| Child: "dir_at D ns (dir_parentId d) \<Longrightarrow> d \<in> D \<Longrightarrow> dir_name d = Some n \<Longrightarrow> dir_at D (ns @ [n]) (dir_id d)"

inductive_cases dir_at_NilE: "dir_at D [] i"
inductive_cases dir_at_snocE: "dir_at D (ns @ [n]) i"

definition child :: "dir_t set \<Rightarrow> string list \<Rightarrow> string \<Rightarrow> bool" where
  "child D ns n \<longleftrightarrow> (\<exists>i. dir_at D (ns @ [n]) i)"

text \<open>A path's components from a current directory; every directory on the way must exist.\<close>

fun walk :: "dir_t set \<Rightarrow> string list \<Rightarrow> string list \<Rightarrow> string list option" where
  "walk D at [] = Some at"
| "walk D at (n # ns) =
     (if n = '''' \<or> n = ''.'' then walk D at ns
      else if n = ''..'' then walk D (butlast at) ns
      else if child D at n then walk D (at @ [n]) ns
      else None)"

definition render :: "string list \<Rightarrow> string" where
  "render ns = (if ns = [] then ''/'' else concat (map (\<lambda>n. CHR ''/'' # n) ns))"

section \<open>The laws the file system relies on\<close>

locale fs_laws =
  com: commons_laws E + mon: mongo_laws E docs uniq + srt: list_sorter "e_sort E"
  for E :: "('n, 'db) env" and docs :: "'db \<Rightarrow> coll \<Rightarrow> doc set" and uniq :: "'db \<Rightarrow> coll \<Rightarrow> bool"

interpretation fsenv: fs_laws "fs_env le" "\<lambda>s c. set (ls_view s c)" ls_uniq
  by (intro fs_laws.intro fsenv_commons.commons_laws_axioms fsenv_mongo.mongo_laws_axioms)
    (simp add: fs_env_def, rule sorter.list_sorter_axioms)

lemma to_lower_0: "to_lower c = CHR ''0'' \<longleftrightarrow> c = CHR ''0''"
proof -
  have "to_lower c = CHR ''0'' \<Longrightarrow> c = CHR ''0''"
  proof (cases "65 \<le> (of_char c :: nat) \<and> (of_char c :: nat) \<le> 90")
    case True
    assume "to_lower c = CHR ''0''"
    then have "char_of (of_char c + 32 :: nat) = CHR ''0''" using True by (simp add: to_lower_def)
    then have "(of_char c + 32 :: nat) = 48"
      using True of_char_of [where ?'a = nat, of "of_char c + 32"] by simp
    with True show ?thesis by simp
  qed (simp add: to_lower_def Let_def)
  then show ?thesis by (auto simp: to_lower_def)
qed

section \<open>Facts on the tree\<close>

definition tree_ok :: "dir_t set \<Rightarrow> bool" where
  "tree_ok D \<longleftrightarrow> (\<forall>d \<in> D. dir_id d \<noteq> ROOT_DIR_ID \<and> dir_name d \<noteq> None) \<and>
     (\<forall>d \<in> D. \<forall>e \<in> D. dir_id d = dir_id e \<longrightarrow> d = e) \<and>
     (\<forall>d \<in> D. \<forall>e \<in> D. dir_name d = dir_name e \<and> dir_parentId d = dir_parentId e \<longrightarrow> d = e)"

lemma dir_at_unique:
  assumes "tree_ok D"
  shows "dir_at D ns i \<Longrightarrow> dir_at D ns j \<Longrightarrow> i = j"
proof (induction arbitrary: j rule: dir_at.induct)
  case Root
  then show ?case by (rule dir_at_NilE) auto
next
  case (Child ns d n)
  from \<open>dir_at D (ns @ [n]) j\<close> obtain e where e: "e \<in> D" "dir_name e = Some n" "j = dir_id e"
    "dir_at D ns (dir_parentId e)" by (rule dir_at_snocE) auto
  with Child.IH have "dir_parentId d = dir_parentId e" by blast
  with e Child.hyps assms show ?case by (auto simp: tree_ok_def)
qed

text \<open>The directory record that stands at the components \<open>ns\<close>.\<close>

definition stands :: "dir_t set \<Rightarrow> string list \<Rightarrow> dir_t \<Rightarrow> bool" where
  "stands D ns cur \<longleftrightarrow> dir_at D ns (dir_id cur) \<and> (ns \<noteq> [] \<longrightarrow> cur \<in> D)"

lemma stands_root [simp]: "stands D [] root_dir"
  by (simp add: stands_def root_dir_def dir_at.Root)

lemma stands_root_id:
  assumes "tree_ok D" "stands D ns cur"
  shows "dir_id cur = ROOT_DIR_ID \<longleftrightarrow> ns = []"
proof
  assume "ns = []"
  with assms(2) have "dir_at D [] (dir_id cur)" by (simp add: stands_def)
  then show "dir_id cur = ROOT_DIR_ID" by (rule dir_at_NilE) simp
next
  assume "dir_id cur = ROOT_DIR_ID"
  with assms show "ns = []" by (auto simp: tree_ok_def stands_def)
qed

lemma stands_snoc:
  assumes "tree_ok D" "stands D (ns @ [n]) cur"
  shows "cur \<in> D" "dir_name cur = Some n" "dir_at D ns (dir_parentId cur)"
proof -
  from assms(2) have at: "dir_at D (ns @ [n]) (dir_id cur)" and cur: "cur \<in> D" by (auto simp: stands_def)
  from at obtain d where d: "d \<in> D" "dir_name d = Some n" "dir_id cur = dir_id d" "dir_at D ns (dir_parentId d)"
    by (rule dir_at_snocE) auto
  with assms(1) cur have "d = cur" by (auto simp: tree_ok_def)
  with d cur show "cur \<in> D" "dir_name cur = Some n" "dir_at D ns (dir_parentId cur)" by auto
qed

lemma dir_at_stands: "dir_at D ns i \<Longrightarrow> ns \<noteq> [] \<Longrightarrow> \<exists>d. stands D ns d \<and> dir_id d = i"
  by (induction rule: dir_at.induct) (auto simp: stands_def intro: dir_at.Child)

lemma render_snoc: "render (ns @ [n]) = (if ns = [] then ''/'' @ n else render ns @ ''/'' @ n)"
  by (simp add: render_def)

lemma take_render: "take (length (xs @ ''/'' @ n) - length n - 1) (xs @ ''/'' @ n) = xs"
  by simp

context fs_laws begin

lemma isRootDirId [simp]: "filesystem_isRootDirId E i \<longleftrightarrow> i = ROOT_DIR_ID"
proof -
  have "filesystem_isRootDirId E i \<longleftrightarrow> map to_lower i = map to_lower ROOT_DIR_ID"
    by (simp add: filesystem_isRootDirId_def com.str.eq_ic_lower)
  also have "map to_lower ROOT_DIR_ID = ROOT_DIR_ID" by (simp add: ROOT_DIR_ID_def to_lower_0)
  also have "map to_lower i = ROOT_DIR_ID \<longleftrightarrow> i = ROOT_DIR_ID"
    by (auto simp: ROOT_DIR_ID_def to_lower_0 map_eq_Cons_conv)
  finally show ?thesis .
qed

lemma isRootDir [simp]: "filesystem_isRootDir E d \<longleftrightarrow> dir_id d = ROOT_DIR_ID"
  by (simp add: filesystem_isRootDir_def)

lemma tree_of_wf:
  assumes "meta_wf (docs db) (uniq db)" "\<forall>d \<in> meta_dirs (docs db). dir_id d \<noteq> ROOT_DIR_ID"
  shows "tree_ok (meta_dirs (docs db))"
  using mon.dir_unique [OF assms(1)] assms(2) unfolding tree_ok_def
  by (auto simp: meta_dirs_def elems_def dir_ok_def)

text \<open>One component up and one down, on a directory that stands in the tree.\<close>

lemma go_up_stands:
  assumes wf: "meta_wf (docs (w_db w)) (uniq (w_db w))" and t: "tree_ok (meta_dirs (docs (w_db w)))"
    and s: "stands (meta_dirs (docs (w_db w))) ns cur" and short: "length (render ns) < 1023"
  shows "\<exists>cur'. go_up E cur (render ns) w = Some (cur', render (butlast ns)) \<and>
    stands (meta_dirs (docs (w_db w))) (butlast ns) cur'"
proof (cases ns rule: rev_cases)
  case Nil
  then show ?thesis using s stands_root_id [OF t s] by (simp add: go_up_def)
next
  case (snoc ms n)
  let ?D = "meta_dirs (docs (w_db w))"
  note cur = stands_snoc [OF t s [unfolded snoc]]
  have id: "dir_id cur \<noteq> ROOT_DIR_ID" using stands_root_id [OF t s] snoc by simp
  show ?thesis
  proof (cases "ms = []")
    case True
    with cur(3) have "dir_at ?D [] (dir_parentId cur)" by simp
    then have "dir_parentId cur = ROOT_DIR_ID" by (rule dir_at_NilE) simp
    with id cur True snoc short show ?thesis
      by (simp add: go_up_def fit_path_def render_def root_dir_def stands_def dir_at.Root)
  next
    case False
    obtain d where d: "stands ?D ms d" "dir_id d = dir_parentId cur"
      using dir_at_stands [OF cur(3) False] by blast
    then have dD: "d \<in> ?D" using False by (simp add: stands_def)
    then have dr: "dir_id d \<noteq> ROOT_DIR_ID" using t by (auto simp: tree_ok_def)
    have get: "filesystem_getDirById E (dir_parentId cur) w = Some (Some d)"
      using mon.dir_getById(1) [OF wf] dD d(2) by (simp add: filesystem_getDirById_def)
    have "render ns = render ms @ ''/'' @ n" using False snoc by (simp add: render_snoc)
    then show ?thesis using id cur get dr d snoc
      by (simp add: go_up_def)
  qed
qed

lemma go_down_stands:
  assumes wf: "meta_wf (docs (w_db w)) (uniq (w_db w))" and t: "tree_ok (meta_dirs (docs (w_db w)))"
    and s: "stands (meta_dirs (docs (w_db w))) ns cur" and short: "length (render ns) + length n + 1 < 1024"
  shows "if child (meta_dirs (docs (w_db w))) ns n
    then \<exists>cur'. go_down E n cur (render ns) w = Some (Some (cur', render (ns @ [n]))) \<and>
      stands (meta_dirs (docs (w_db w))) (ns @ [n]) cur'
    else go_down E n cur (render ns) w = Some None"
proof -
  let ?D = "meta_dirs (docs (w_db w))"
  have at: "dir_at ?D ns (dir_id cur)" using s by (simp add: stands_def)
  show ?thesis
  proof (cases "child ?D ns n")
    case True
    then obtain i where "dir_at ?D (ns @ [n]) i" by (auto simp: child_def)
    then obtain e where e: "e \<in> ?D" "dir_name e = Some n" "dir_at ?D ns (dir_parentId e)"
      by (rule dir_at_snocE) auto
    then have par: "dir_parentId e = dir_id cur" using dir_at_unique [OF t _ at] by blast
    have get: "filesystem_getDirByNameInDir E n (dir_id cur) w = Some (Some e)"
      using mon.dir_getByNameInDir(1) [OF wf] e par by (simp add: filesystem_getDirByNameInDir_def)
    have "stands ?D (ns @ [n]) e" using e by (auto simp: stands_def intro: dir_at.Child)
    moreover have "go_down E n cur (render ns) w = Some (Some (e, render (ns @ [n])))"
      using get e(2) par short stands_root_id [OF t s]
      by (simp add: go_down_def fit_path_def render_snoc) (simp add: render_def)
    ultimately show ?thesis using True by simp
  next
    case False
    have "\<forall>d \<in> ?D. \<not> (dir_name d = Some n \<and> dir_parentId d = dir_id cur)"
    proof (intro ballI notI)
      fix d assume d: "d \<in> ?D" "dir_name d = Some n \<and> dir_parentId d = dir_id cur"
      then have "dir_at ?D (ns @ [n]) (dir_id d)" using at by (intro dir_at.Child) auto
      with False show False by (auto simp: child_def)
    qed
    then have "filesystem_getDirByNameInDir E n (dir_id cur) w = Some None"
      using mon.dir_getByNameInDir(2) [OF wf] by (simp add: filesystem_getDirByNameInDir_def)
    with False show ?thesis by (simp add: go_down_def)
  qed
qed

lemma length_render_butlast: "length (render (butlast ns)) \<le> max 1 (length (render ns))"
  by (cases ns rule: rev_cases) (simp_all add: render_snoc render_def)

lemma resolve_loop_walk:
  assumes wf: "meta_wf (docs (w_db w)) (uniq (w_db w))" and t: "tree_ok (meta_dirs (docs (w_db w)))"
  defines "D \<equiv> meta_dirs (docs (w_db w))"
  shows "stands D at cur \<Longrightarrow> length (render at) + (\<Sum>n\<leftarrow>ns. length n + 1) < 1023 \<Longrightarrow>
    (case walk D at ns of
       None \<Rightarrow> resolve_loop E w ns cur (render at) = Some None
     | Some at' \<Rightarrow> \<exists>cur'. resolve_loop E w ns cur (render at) = Some (Some (cur', render at')) \<and> stands D at' cur')"
proof (induction ns arbitrary: at cur)
  case Nil
  then show ?case by simp
next
  case (Cons n ns)
  have len: "0 < length (render at)" by (cases "at") (auto simp: render_def)
  consider "n = []" | "n = [CHR 0x2E]" | "n = [CHR 0x2E, CHR 0x2E]" | "n \<noteq> []" "n \<noteq> ''.''" "n \<noteq> ''..''" by blast
  then show ?case
  proof cases
    case 3
    have "length (render at) < 1023" using Cons.prems(2) by simp
    from go_up_stands [OF wf t Cons.prems(1) [unfolded D_def] this] obtain cur' where
      up: "go_up E cur (render at) w = Some (cur', render (butlast at))" "stands D (butlast at) cur'"
      unfolding D_def by blast
    have "length (render (butlast at)) + (\<Sum>n\<leftarrow>ns. length n + 1) < 1023"
      using length_render_butlast [of "at"] Cons.prems(2) len by simp
    from Cons.IH [OF up(2) this] up(1) 3 show ?thesis by (simp split: option.splits)
  next
    case 4
    have "length (render at) + length n + 1 < 1024" using Cons.prems(2) by simp
    note down = go_down_stands [OF wf t Cons.prems(1) [unfolded D_def] this, folded D_def]
    show ?thesis
    proof (cases "child D at n")
      case True
      with down obtain cur' where d: "go_down E n cur (render at) w = Some (Some (cur', render (at @ [n])))"
        "stands D (at @ [n]) cur'" by auto
      have "length (render (at @ [n])) + (\<Sum>n\<leftarrow>ns. length n + 1) < 1023"
        using Cons.prems(2) len by (simp add: render_snoc)
      from Cons.IH [OF d(2) this] d(1) 4 True show ?thesis by (simp split: option.splits)
    next
      case False
      with down 4 show ?thesis by (simp split: option.splits)
    qed
  next
    case 1
    have "length (render at) + (\<Sum>n\<leftarrow>ns. length n + 1) < 1023" using Cons.prems(2) by simp
    from Cons.IH [OF Cons.prems(1) this] 1 show ?thesis by (simp split: option.splits)
  next
    case 2
    have "length (render at) + (\<Sum>n\<leftarrow>ns. length n + 1) < 1023" using Cons.prems(2) by simp
    from Cons.IH [OF Cons.prems(1) this] 2 show ?thesis by (simp split: option.splits)
  qed
qed

lemma resolve_loop_skip: "resolve_loop E w (filter (\<lambda>p. p \<noteq> []) ns) cur fp = resolve_loop E w ns cur fp"
  by (induction ns arbitrary: cur fp) (auto split: option.splits prod.splits intro!: Option.bind_cong)

end

lemma sum_pieces_from: "(\<Sum>p\<leftarrow>pieces_from sep acc s. length p + 1) \<le> length acc + length s + 1"
proof (induction sep acc s rule: pieces_from.induct)
  case (2 sep acc c cs)
  then show ?case by auto
qed simp

lemma sum_pieces: "(\<Sum>p\<leftarrow>pieces sep s. length p + 1) \<le> length s + 1"
  using sum_pieces_from [of sep "[]" s] by (simp add: pieces_def)

lemma pieces_slash: "pieces c (c # s) = pieces c s"
  by (simp add: pieces_def)

lemma last_slash_skip:
  "k \<le> n \<Longrightarrow> \<forall>j. k \<le> j \<and> j < n \<longrightarrow> path ! j \<noteq> CHR ''/'' \<Longrightarrow> last_slash path n = last_slash path k"
proof (induction n)
  case (Suc n)
  then show ?case by (cases "k = Suc n") auto
qed simp

lemma last_slash_split:
  assumes "dp = [] \<or> last dp = CHR ''/''" and "CHR ''/'' \<notin> set fname"
  shows "last_slash (dp @ fname) (length (dp @ fname)) = int (length dp) - 1"
proof -
  have "last_slash (dp @ fname) (length (dp @ fname)) = last_slash (dp @ fname) (length dp)"
  proof (rule last_slash_skip)
    show "\<forall>j. length dp \<le> j \<and> j < length (dp @ fname) \<longrightarrow> (dp @ fname) ! j \<noteq> CHR ''/''"
      using assms(2) by (auto simp: nth_append in_set_conv_nth)
  qed simp
  also have "\<dots> = int (length dp) - 1"
  proof (cases dp rule: rev_cases)
    case (snoc xs x)
    with assms(1) show ?thesis by (simp add: nth_append)
  qed simp
  finally show ?thesis .
qed

text \<open>The walk of a path from a current directory: from the root when it starts with a slash.\<close>

definition walk_path :: "dir_t set \<Rightarrow> string list \<Rightarrow> string \<Rightarrow> string list option" where
  "walk_path D at path =
     walk D (if path \<noteq> [] \<and> hd path = CHR ''/'' then [] else at) (pieces (CHR ''/'') path)"

context fs_laws begin

lemma start_dir:
  assumes wf: "meta_wf (docs (w_db w)) (uniq (w_db w))" and t: "tree_ok (meta_dirs (docs (w_db w)))"
    and s: "dir_at (meta_dirs (docs (w_db w))) at i"
  shows "\<exists>d. (if i = ROOT_DIR_ID then Some (Some root_dir) else filesystem_getDirById E i w) = Some (Some d) \<and>
    stands (meta_dirs (docs (w_db w))) at d"
proof (cases "at = []")
  case True
  with s have "dir_at (meta_dirs (docs (w_db w))) [] i" by simp
  then have "i = ROOT_DIR_ID" by (rule dir_at_NilE) simp
  with True show ?thesis by simp
next
  case False
  then obtain d where d: "stands (meta_dirs (docs (w_db w))) at d" "dir_id d = i"
    using dir_at_stands [OF s] by blast
  then have "i \<noteq> ROOT_DIR_ID" using stands_root_id [OF t d(1)] False by auto
  moreover have "filesystem_getDirById E i w = Some (Some d)"
    using mon.dir_getById(1) [OF wf] d False by (simp add: filesystem_getDirById_def stands_def)
  ultimately show ?thesis using d by simp
qed

lemma resolveDirPath_walk:
  assumes wf: "meta_wf (docs (w_db w)) (uniq (w_db w))" and t: "tree_ok (meta_dirs (docs (w_db w)))"
    and s: "dir_at (meta_dirs (docs (w_db w))) at i" and short: "length (render at) + length path < 1020"
  defines "D \<equiv> meta_dirs (docs (w_db w))"
  shows "case walk_path D at path of
      None \<Rightarrow> filesystem_resolveDirPath E path i (render at) w = Some None
    | Some at' \<Rightarrow> \<exists>d. filesystem_resolveDirPath E path i (render at) w = Some (Some (d, render at')) \<and> stands D at' d"
proof -
  let ?abs = "path \<noteq> [] \<and> hd path = CHR ''/''"
  let ?from = "if ?abs then [] else at"
  let ?names = "if ?abs then c_split E (tl path) ''/'' else c_split E path ''/''"
  obtain d where d: "(if i = ROOT_DIR_ID then Some (Some root_dir) else filesystem_getDirById E i w) = Some (Some d)"
    "stands D at d" using start_dir [OF wf t s] unfolding D_def by blast
  obtain cur where cur: "(if ?abs \<or> i = ROOT_DIR_ID then Some (Some root_dir) else filesystem_getDirById E i w) =
      Some (Some cur)" "stands D ?from cur"
    using d by (cases ?abs) (auto split: if_splits)
  have fp: "(if ?abs then Some ''/'' else fit_path (render at)) = Some (render ?from)"
    using short by (simp add: fit_path_def render_def)
  have names: "filter (\<lambda>p. p \<noteq> []) ?names = pieces (CHR ''/'') path"
    by (cases path) (simp_all add: com.str.split_pieces pieces_slash)
  have "filesystem_resolveDirPath E path i (render at) w = resolve_loop E w ?names cur (render ?from)"
    unfolding filesystem_resolveDirPath_def Let_def isRootDirId cur(1) fp by simp
  also have "\<dots> = resolve_loop E w (pieces (CHR ''/'') path) cur (render ?from)"
    by (subst resolve_loop_skip [symmetric]) (simp only: names)
  finally have run: "filesystem_resolveDirPath E path i (render at) w =
      resolve_loop E w (pieces (CHR ''/'') path) cur (render ?from)" .
  have "length (render ?from) + (\<Sum>n\<leftarrow>pieces (CHR ''/'') path. length n + 1) < 1023"
    using short sum_pieces [of "CHR ''/''" path] by (cases ?abs) (auto simp: render_def)
  from resolve_loop_walk [OF wf t cur(2) [unfolded D_def] this]
  show ?thesis unfolding run walk_path_def D_def .
qed

lemma resolveFilePath_walk:
  assumes wf: "meta_wf (docs (w_db w)) (uniq (w_db w))" and t: "tree_ok (meta_dirs (docs (w_db w)))"
    and s: "dir_at (meta_dirs (docs (w_db w))) at i" and short: "length (render at) + length dp < 1020"
    and dp: "dp = [] \<or> last dp = CHR ''/''" and fname: "CHR ''/'' \<notin> set fname"
  defines "D \<equiv> meta_dirs (docs (w_db w))"
  shows "filesystem_resolveFilePath E (dp @ fname) i (render at) w =
    (case walk_path D at dp of
       None \<Rightarrow> Some None
     | Some at' \<Rightarrow> filesystem_getFileByNameInDir E fname (THE j. dir_at D at' j) w)"
proof -
  have the: "(THE j. dir_at D at' j) = dir_id d" if "stands D at' d" for at' d
    using that dir_at_unique [OF t] unfolding D_def stands_def by blast
  note ls = last_slash_split [OF dp fname]
  show ?thesis
  proof (cases "dp = []")
    case True
    obtain d where d: "(if i = ROOT_DIR_ID then Some (Some root_dir) else filesystem_getDirById E i w) = Some (Some d)"
      "stands D at d" using start_dir [OF wf t s] unfolding D_def by blast
    have "filesystem_resolveFilePath E (dp @ fname) i (render at) w =
        filesystem_getFileByNameInDir E fname (dir_id d) w"
      using True d(1) unfolding filesystem_resolveFilePath_def Let_def ls isRootDirId by simp
    then show ?thesis using True the [OF d(2)] by (simp add: walk_path_def pieces_def)
  next
    case False
    then have ne: "int (length dp) - 1 \<noteq> -1" and pos: "nat (int (length dp) - 1 + 1) = length dp" by simp_all
    have dir: "case walk_path D at dp of
        None \<Rightarrow> filesystem_resolveDirPath E dp i (render at) w = Some None
      | Some at' \<Rightarrow> \<exists>d. filesystem_resolveDirPath E dp i (render at) w = Some (Some (d, render at')) \<and> stands D at' d"
      unfolding D_def by (rule resolveDirPath_walk [OF wf t s short])
    have run: "filesystem_resolveFilePath E (dp @ fname) i (render at) w =
        do { r \<leftarrow> filesystem_resolveDirPath E dp i (render at) w;
             (case map_option fst r of None \<Rightarrow> Some None
              | Some d \<Rightarrow> filesystem_getFileByNameInDir E fname (dir_id d) w) }"
      using ne unfolding filesystem_resolveFilePath_def Let_def ls pos
      by (simp add: com.str.until_take com.str.from_drop)
    show ?thesis
    proof (cases "walk_path D at dp")
      case None
      with dir show ?thesis unfolding run by simp
    next
      case (Some at')
      with dir obtain d where "filesystem_resolveDirPath E dp i (render at) w = Some (Some (d, render at'))"
        "stands D at' d" by auto
      with Some the show ?thesis unfolding run by simp
    qed
  qed
qed

end

context fs_laws begin

lemma resolveFilePath_file:
  assumes wf: "meta_wf (docs (w_db w)) (uniq (w_db w))" and t: "tree_ok (meta_dirs (docs (w_db w)))"
    and s: "dir_at (meta_dirs (docs (w_db w))) at i" and short: "length (render at) + length dp < 1020"
    and dp: "dp = [] \<or> last dp = CHR ''/''" and fname: "CHR ''/'' \<notin> set fname"
  defines "D \<equiv> meta_dirs (docs (w_db w))"
  shows "filesystem_resolveFilePath E (dp @ fname) i (render at) w = Some (Some f) \<longleftrightarrow>
    (\<exists>at' j. walk_path D at dp = Some at' \<and> dir_at D at' j \<and> f \<in> meta_files (docs (w_db w)) \<and>
      file_name f = Some fname \<and> file_parentId f = j)"
proof (cases "walk_path D at dp")
  case None
  then show ?thesis
    unfolding D_def resolveFilePath_walk [OF wf t s short dp fname] by simp
next
  case (Some at')
  then obtain d where d: "stands D at' d"
    using resolveDirPath_walk [OF wf t s short] unfolding D_def by auto
  then have id: "dir_at D at' j \<longleftrightarrow> j = dir_id d" for j
    using dir_at_unique [OF t] unfolding D_def stands_def by blast
  have the: "The (dir_at D at') = dir_id d" by (rule the_equality) (simp_all add: id)
  show ?thesis
    using Some unfolding D_def resolveFilePath_walk [OF wf t s short dp fname]
    by (auto simp: the [unfolded D_def] id [unfolded D_def] filesystem_getFileByNameInDir_def mon.file_getByNameInDir(1) [OF wf])
qed

end

section \<open>A small tree\<close>

definition demo_dirs :: "dir_t list" where
  "demo_dirs = [\<lparr>dir_id = ''a1'', dir_parentId = ''0'', dir_name = Some ''a''\<rparr>,
     \<lparr>dir_id = ''b1'', dir_parentId = ''a1'', dir_name = Some ''b''\<rparr>]"

definition demo_files :: "file_t list" where
  "demo_files = [\<lparr>file_id = ''f1'', file_parentId = ''b1'', file_name = Some ''x'', file_size = 2,
     file_blocks = [[\<lparr>fb_nodeId = ''n1'', fb_blockIndex = 0\<rparr>]]\<rparr>]"

definition demo_nodes :: "node_t list" where
  "demo_nodes = [\<lparr>nd_id = Some ''n1'', nd_blocks = [0x80], nd_blocksCount = 4\<rparr>]"

definition demo_db :: lstore where
  "demo_db = \<lparr>ls_docs = (\<lambda>c. case c of DirColl \<Rightarrow> map dir_getBSON demo_dirs
       | FileColl \<Rightarrow> map file_getBSON demo_files | NodeColl \<Rightarrow> map node_getBSON demo_nodes),
     ls_uniq = (\<lambda>c. c \<noteq> NodeColl), ls_next = 7\<rparr>"

definition tree_world :: "(chunk_net, lstore) world" where
  "tree_world = world0\<lparr>w_db := demo_db\<rparr>"

lemma demo_view [simp]:
  "ls_view demo_db DirColl = map dir_getBSON demo_dirs"
  "ls_view demo_db FileColl = map file_getBSON demo_files"
  "ls_view demo_db NodeColl = map node_getBSON demo_nodes"
  by (simp_all add: ls_view_def demo_db_def demo_dirs_def demo_files_def demo_nodes_def fits_def)

lemma elems_image: "\<forall>x \<in> set xs. ok x \<Longrightarrow> bson_codec enc parse ident ok \<Longrightarrow> elems enc ok (enc ` set xs) = set xs"
  using bson_codec.enc_inject by (fastforce simp: elems_def)

lemma demo_meta [simp]:
  "meta_dirs (\<lambda>c. set (ls_view demo_db c)) = set demo_dirs"
  "meta_files (\<lambda>c. set (ls_view demo_db c)) = set demo_files"
  "meta_nodes (\<lambda>c. set (ls_view demo_db c)) = set demo_nodes"
  unfolding meta_dirs_def meta_files_def meta_nodes_def demo_view set_map
  by (rule elems_image [OF _ dir_codec.bson_codec_axioms] elems_image [OF _ file_codec.bson_codec_axioms]
      elems_image [OF _ node_codec.bson_codec_axioms];
    simp add: demo_dirs_def demo_files_def demo_nodes_def dir_ok_def file_ok_def node_ok_def id_ok_def ID_SIZE_def)+

lemma demo_wf: "meta_wf (\<lambda>c. set (ls_view demo_db c)) (ls_uniq demo_db)"
proof -
  have ok: "\<forall>d \<in> set demo_dirs. dir_ok d" "\<forall>f \<in> set demo_files. file_ok f" "\<forall>n \<in> set demo_nodes. node_ok n"
    by (simp_all add: demo_dirs_def demo_files_def demo_nodes_def dir_ok_def file_ok_def node_ok_def
        id_ok_def ID_SIZE_def)
  show ?thesis
    using ok by (auto simp: meta_wf_def typed_def demo_db_def [THEN arg_cong [where f = ls_uniq]])
qed

lemma demo_tree: "\<forall>d \<in> set demo_dirs. dir_id d \<noteq> ROOT_DIR_ID"
  by (simp add: demo_dirs_def ROOT_DIR_ID_def)

lemma demo_at:
  "dir_at (set demo_dirs) [''a''] ''a1''" "dir_at (set demo_dirs) [''a'', ''b''] ''b1''"
proof -
  have "dir_at (set demo_dirs) ([] @ [''a'']) (dir_id (demo_dirs ! 0))"
    by (rule dir_at.Child) (simp_all add: demo_dirs_def dir_at.Root flip: ROOT_DIR_ID_def)
  then show a: "dir_at (set demo_dirs) [''a''] ''a1''" by (simp add: demo_dirs_def)
  have "dir_at (set demo_dirs) ([''a''] @ [''b'']) (dir_id (demo_dirs ! 1))"
    by (rule dir_at.Child) (use a in \<open>simp_all add: demo_dirs_def\<close>)
  then show "dir_at (set demo_dirs) [''a'', ''b''] ''b1''" by (simp add: demo_dirs_def)
qed

section \<open>Properties of path resolution\<close>

text \<open>C34. Resolving a directory path walks the tree. From a current directory given by its
  identifier and its printed path, \<open>filesystem_resolveDirPath\<close> returns NULL exactly when some
  directory on the way is missing; otherwise it returns the directory at which the walk of the
  components (with \<open>.\<close>, \<open>..\<close>, empty components and a leading slash) ends, and \<open>fullPath\<close> is the
  printed form of that place. The 1024 characters of its buffer suffice while the two paths
  together have fewer than 1020.\<close>

theorem resolveDirPath_refines_walk:
  assumes "fs_laws E docs uniq" and "meta_wf (docs (w_db w)) (uniq (w_db w))"
    and "\<forall>d \<in> meta_dirs (docs (w_db w)). dir_id d \<noteq> ROOT_DIR_ID"
    and "dir_at (meta_dirs (docs (w_db w))) at i" and "length (render at) + length path < 1020"
  shows "case walk_path (meta_dirs (docs (w_db w))) at path of
      None \<Rightarrow> filesystem_resolveDirPath E path i (render at) w = Some None
    | Some at' \<Rightarrow> \<exists>d. filesystem_resolveDirPath E path i (render at) w = Some (Some (d, render at')) \<and>
        stands (meta_dirs (docs (w_db w))) at' d"
  by (rule fs_laws.resolveDirPath_walk [OF assms(1,2) fs_laws.tree_of_wf [OF assms(1-3)] assms(4,5)])

theorem resolveDirPath_refines_walk_witness:
  "\<exists>d. filesystem_resolveDirPath (fs_env True) ''b/../b/.'' ''a1'' ''/a'' tree_world = Some (Some (d, ''/a/b''))"
proof -
  let ?D = "set demo_dirs"
  have child: "child ?D [''a''] ''b''" using demo_at(2) by (auto simp: child_def)
  have walk: "walk_path ?D [''a''] ''b/../b/.'' = Some [''a'', ''b'']"
    using child by (simp add: walk_path_def pieces_def)
  have r: "render [''a''] = ''/a''" "render [''a'', ''b''] = ''/a/b''" by (simp_all add: render_def)
  have db: "w_db tree_world = demo_db" by (simp add: tree_world_def)
  show ?thesis
    using resolveDirPath_refines_walk [OF fsenv.fs_laws_axioms, of tree_world "[''a'']" "''a1''" "''b/../b/.''" True]
      demo_wf demo_tree demo_at(1)
    by (auto simp: db walk r)
qed

text \<open>Resolving a file path looks its last component up in the directory the rest leads to:
  the result is the file of that name whose parent is that directory, and NULL when the
  directory or the file does not exist.\<close>

theorem resolveFilePath_lookup:
  assumes "fs_laws E docs uniq" and "meta_wf (docs (w_db w)) (uniq (w_db w))"
    and "\<forall>d \<in> meta_dirs (docs (w_db w)). dir_id d \<noteq> ROOT_DIR_ID"
    and "dir_at (meta_dirs (docs (w_db w))) at i" and "length (render at) + length dp < 1020"
    and "dp = [] \<or> last dp = CHR ''/''" and "CHR ''/'' \<notin> set fname"
  shows "filesystem_resolveFilePath E (dp @ fname) i (render at) w = Some (Some f) \<longleftrightarrow>
    (\<exists>at' j. walk_path (meta_dirs (docs (w_db w))) at dp = Some at' \<and>
      dir_at (meta_dirs (docs (w_db w))) at' j \<and> f \<in> meta_files (docs (w_db w)) \<and>
      file_name f = Some fname \<and> file_parentId f = j)"
  by (rule fs_laws.resolveFilePath_file [OF assms(1,2) fs_laws.tree_of_wf [OF assms(1-3)] assms(4-)])

theorem resolveFilePath_lookup_witness:
  "filesystem_resolveFilePath (fs_env True) (''/a/b/'' @ ''x'') ''0'' ''/'' tree_world = Some (Some (hd demo_files))"
proof -
  let ?D = "set demo_dirs"
  have child: "child ?D [] ''a''" "child ?D [''a''] ''b''" using demo_at by (auto simp: child_def)
  have walk: "walk_path ?D [] ''/a/b/'' = Some [''a'', ''b'']"
    using child by (simp add: walk_path_def pieces_def)
  have db: "w_db tree_world = demo_db" by (simp add: tree_world_def)
  have root: "dir_at ?D [] ''0''" using dir_at.Root by (simp add: ROOT_DIR_ID_def)
  have "hd demo_files \<in> set demo_files" "file_name (hd demo_files) = Some ''x''" "file_parentId (hd demo_files) = ''b1''"
    by (simp_all add: demo_files_def)
  then show ?thesis
    using resolveFilePath_lookup [OF fsenv.fs_laws_axioms, of tree_world "[]" "''0''" "''/a/b/''" "''x''" True "hd demo_files"]
      demo_wf demo_tree root demo_at(2)
    by (auto simp: db walk render_def)
qed

end
