(* ===== verification/FS_Distribute.thy ===== *)
theory FS_Distribute
  imports FS_Paths
begin

text \<open>
  \<open>filesystem_distributeBlocksToNodes\<close> of \<open>FileSystem/src/filesystem/filesystem.c\<close>: where the
  copies of a file's blocks go, and sending them. The planning changes the node records in
  place, and the send operations point to them: the records are a heap (\<open>p_heap\<close>), pointers
  are indices into it, and the list that \<open>list_sort\<close> reorders is a list of pointers.

  The threads that send the blocks are two steps each, reading the shared flag \<open>failed\<close> and
  sending the block; a schedule is any sequence of thread numbers, every occurrence of a
  number one step of that thread, followed by the steps the joins wait for. Creating the
  threads and the mutex is taken to succeed.
\<close>

definition FILESYSTEM_BLOCK_COPIES :: nat where "FILESYSTEM_BLOCK_COPIES = 3"

section \<open>The active nodes\<close>

text \<open>A node without a name is looked up through NULL.\<close>

fun filter_connected :: "('n, 'db) world \<Rightarrow> node_t list \<Rightarrow> node_t list option" where
  "filter_connected w [] = Some []"
| "filter_connected w (node # nodes) =
     do {
       i \<leftarrow> nd_id node;
       rest \<leftarrow> filter_connected w nodes;
       Some (if connections_node_isActiveNode i w then node # rest else rest)
     }"

definition filesystem_getAllActivatedNodes :: "('n, 'db) env \<Rightarrow> ('n, 'db) world \<Rightarrow> node_t list option" where
  "filesystem_getAllActivatedNodes E w = do { allNodes \<leftarrow> mongo_node_getAll E (w_db w); filter_connected w allNodes }"

definition filesystem_nodeComparatorByBlocksFree :: "('n, 'db) env \<Rightarrow> node_t \<Rightarrow> node_t \<Rightarrow> bool" where
  "filesystem_nodeComparatorByBlocksFree E node node2 =
     (node_getBlocksFreeCount E node > node_getBlocksFreeCount E node2)"

section \<open>The plan\<close>

record send_op =
  so_node :: nat
  so_blockIndex :: int
  so_block :: "byte list"

record plan =
  p_heap :: "node_t list"
  p_order :: "nat list"
  p_ops :: "send_op list"
  p_blocks :: "file_block_t list list"
  p_success :: bool

text \<open>The copies of one block, the body of \<open>for (i = 0; i < FILESYSTEM_BLOCK_COPIES; i++)\<close>.\<close>

fun place_copies :: "('n, 'db) env \<Rightarrow> byte list \<Rightarrow> nat list \<Rightarrow> plan \<Rightarrow> plan option" where
  "place_copies E block [] p = Some p"
| "place_copies E block (i # is) p =
     (if i < length (p_order p) then
        let a = p_order p ! i; selectedNode = p_heap p ! a;
            firstBlockFreeIndex = node_getFirstFreeBlock E selectedNode
        in if firstBlockFreeIndex \<noteq> -1 then
             do {
               nodeId \<leftarrow> nd_id selectedNode;
               place_copies E block is
                 (p\<lparr>p_heap := (p_heap p)[a := node_setBlockUsed E selectedNode firstBlockFreeIndex],
                    p_ops := p_ops p @ [\<lparr>so_node = a, so_blockIndex = firstBlockFreeIndex, so_block = block\<rparr>],
                    p_blocks := butlast (p_blocks p) @ [last (p_blocks p) @
                      [\<lparr>fb_nodeId = nodeId, fb_blockIndex = word_of_int firstBlockFreeIndex\<rparr>]]\<rparr>)
             }
           else Some (p\<lparr>p_success := False\<rparr>)
      else Some (p\<lparr>p_success := False\<rparr>))"

definition createSendOperations :: "('n, 'db) env \<Rightarrow> byte list \<Rightarrow> plan \<Rightarrow> plan option" where
  "createSendOperations E block p =
     (if \<not> p_success p then Some p
      else place_copies E block [0..<FILESYSTEM_BLOCK_COPIES]
        (p\<lparr>p_blocks := p_blocks p @ [[]],
           p_order := e_sort E (\<lambda>a b. filesystem_nodeComparatorByBlocksFree E (p_heap p ! a) (p_heap p ! b))
             (p_order p)\<rparr>))"

definition plan_start :: "node_t list \<Rightarrow> file_t \<Rightarrow> plan" where
  "plan_start nodes file = \<lparr>p_heap = nodes, p_order = [0..<length nodes], p_ops = [],
     p_blocks = file_blocks file, p_success = True\<rparr>"

section \<open>Sending\<close>

definition filesystem_nodeBlockSendOperation_create :: "node_t \<Rightarrow> int \<Rightarrow> byte list \<Rightarrow> nodeBlockSendOperation_t" where
  "filesystem_nodeBlockSendOperation_create node blockIndex block =
     \<lparr>op_node = node, op_blockIndex = blockIndex, op_block = block\<rparr>"

definition filesystem_sendBlockToNode ::
    "('n, 'db) env \<Rightarrow> nodeBlockSendOperation_t \<Rightarrow> ('n, 'db) world \<Rightarrow> (bool \<times> ('n, 'db) world) option" where
  "filesystem_sendBlockToNode E so w = connections_node_sendBlock E so w"

text \<open>The operation with its pointer followed.\<close>

definition deref :: "node_t list \<Rightarrow> send_op \<Rightarrow> nodeBlockSendOperation_t" where
  "deref H so = filesystem_nodeBlockSendOperation_create (H ! so_node so) (so_blockIndex so) (so_block so)"

text \<open>A thread: not started, past the test of \<open>failed\<close>, ended.\<close>

datatype thread = Ready | Going | Done

record ('n, 'db) senders =
  s_world :: "('n, 'db) world"
  s_failed :: bool
  s_threads :: "thread list"

definition sender_step :: "('n, 'db) env \<Rightarrow> node_t list \<Rightarrow> send_op list \<Rightarrow> nat \<Rightarrow>
    ('n, 'db) senders \<Rightarrow> ('n, 'db) senders option" where
  "sender_step E H ops t s =
     (if t < length (s_threads s) then
        (case s_threads s ! t of
           Ready \<Rightarrow> Some (s\<lparr>s_threads := (s_threads s)[t := if s_failed s then Done else Going]\<rparr>)
         | Going \<Rightarrow> do {
             (sent, w) \<leftarrow> filesystem_sendBlockToNode E (deref H (ops ! t)) (s_world s);
             Some (s\<lparr>s_world := w, s_failed := s_failed s \<or> \<not> sent, s_threads := (s_threads s)[t := Done]\<rparr>)
           }
         | Done \<Rightarrow> Some s)
      else Some s)"

text \<open>The steps the joins wait for: two per thread are enough.\<close>

definition run_senders :: "('n, 'db) env \<Rightarrow> node_t list \<Rightarrow> send_op list \<Rightarrow> nat list \<Rightarrow>
    ('n, 'db) world \<Rightarrow> ('n, 'db) senders option" where
  "run_senders E H ops schedule w =
     fold_opt (sender_step E H ops) (schedule @ [0..<length ops] @ [0..<length ops])
       \<lparr>s_world = w, s_failed = False, s_threads = replicate (length ops) Ready\<rparr>"

text \<open>
  The result, the file with the blocks planned for it, and the state. After a failed plan the
  file keeps the blocks planned so far.
\<close>

definition filesystem_distributeBlocksToNodes ::
    "('n, 'db) env \<Rightarrow> nat list \<Rightarrow> byte list list \<Rightarrow> file_t \<Rightarrow> ('n, 'db) world \<Rightarrow>
      (bool \<times> file_t \<times> ('n, 'db) world) option" where
  "filesystem_distributeBlocksToNodes E schedule blocks file w =
     do {
       nodes \<leftarrow> filesystem_getAllActivatedNodes E w;
       p \<leftarrow> fold_opt (createSendOperations E) blocks (plan_start nodes file);
       let file' = file\<lparr>file_blocks := p_blocks p\<rparr>;
       (if p_success p then
          do {
            s \<leftarrow> run_senders E (p_heap p) (p_ops p) schedule w;
            let w1 = s_world s;
            let w2 = (if \<not> s_failed s then
                  w1\<lparr>w_db := fold (\<lambda>so db. mongo_node_updateBlocks E (p_heap p ! so_node so) db) (p_ops p) (w_db w1)\<rparr>
                else w1);
            Some (\<not> s_failed s, file', w2)
          }
        else Some (False, file', w))
     }"

section \<open>The plan never takes a block twice\<close>

definition copy_of :: "node_t list \<Rightarrow> send_op \<Rightarrow> file_block_t" where
  "copy_of H so = \<lparr>fb_nodeId = the (nd_id (H ! so_node so)), fb_blockIndex = word_of_int (so_blockIndex so)\<rparr>"

text \<open>The blocks that the operations take on the node at \<open>a\<close>.\<close>

definition taken :: "send_op list \<Rightarrow> nat \<Rightarrow> nat set" where
  "taken ops a = {nat (so_blockIndex so) | so. so \<in> set ops \<and> so_node so = a}"

definition heap_inv :: "('n, 'db) env \<Rightarrow> node_t list \<Rightarrow> node_t list \<Rightarrow> send_op list \<Rightarrow> bool" where
  "heap_inv E H0 H ops \<longleftrightarrow> length H = length H0 \<and>
     (\<forall>a < length H0. nd_id (H ! a) = nd_id (H0 ! a) \<and> nd_blocksCount (H ! a) = nd_blocksCount (H0 ! a) \<and>
        node_wf (H ! a) \<and> node_freeBlocks E (H ! a) = node_freeBlocks E (H0 ! a) - taken ops a) \<and>
     distinct (map (\<lambda>so. (so_node so, so_blockIndex so)) ops) \<and>
     (\<forall>so \<in> set ops. so_node so < length H0 \<and> 0 \<le> so_blockIndex so \<and>
        nat (so_blockIndex so) \<in> node_freeBlocks E (H0 ! so_node so))"

lemma taken_snoc: "taken (ops @ [so]) a = taken ops a \<union> (if so_node so = a then {nat (so_blockIndex so)} else {})"
  by (auto simp: taken_def)

context fs_laws begin

lemma heap_inv_start: "\<forall>n \<in> set H. node_wf n \<Longrightarrow> heap_inv E H H []"
  by (simp add: heap_inv_def taken_def)

lemma heap_inv_place:
  fixes block :: "byte list"
  assumes inv: "heap_inv E H0 H ops" and a: "a < length H0"
    and b: "node_getFirstFreeBlock E (H ! a) \<noteq> -1"
  defines "so \<equiv> \<lparr>so_node = a, so_blockIndex = node_getFirstFreeBlock E (H ! a), so_block = block\<rparr>"
  shows "heap_inv E H0 (H[a := node_setBlockUsed E (H ! a) (node_getFirstFreeBlock E (H ! a))]) (ops @ [so])"
proof -
  let ?b = "node_getFirstFreeBlock E (H ! a)"
  have wf: "node_wf (H ! a)" and free: "node_freeBlocks E (H ! a) = node_freeBlocks E (H0 ! a) - taken ops a"
    using inv a by (auto simp: heap_inv_def)
  have in_free: "nat ?b \<in> node_freeBlocks E (H ! a)" "?b = int (nat ?b)"
    using com.blk.first_in_free [OF b] by auto
  have pos: "0 \<le> ?b" using in_free(2) by linarith
  have fresh: "(a, ?b) \<notin> (\<lambda>so. (so_node so, so_blockIndex so)) ` set ops"
    using in_free(1) unfolding free taken_def by auto
  have free': "node_freeBlocks E (node_setBlockUsed E (H ! a) ?b) = node_freeBlocks E (H0 ! a) - taken (ops @ [so]) a"
    using com.blk.allocate_free [OF wf b] free by (auto simp: taken_snoc so_def)
  have other: "taken (ops @ [so]) a' = taken ops a'" if "a' \<noteq> a" for a'
    using that by (simp add: taken_snoc so_def)
  show ?thesis
    unfolding heap_inv_def
  proof (intro conjI allI impI ballI)
    fix a' assume a': "a' < length H0"
    show "nd_id (H[a := node_setBlockUsed E (H ! a) ?b] ! a') = nd_id (H0 ! a')"
      "nd_blocksCount (H[a := node_setBlockUsed E (H ! a) ?b] ! a') = nd_blocksCount (H0 ! a')"
      "node_wf (H[a := node_setBlockUsed E (H ! a) ?b] ! a')"
      "node_freeBlocks E (H[a := node_setBlockUsed E (H ! a) ?b] ! a') =
        node_freeBlocks E (H0 ! a') - taken (ops @ [so]) a'"
      using inv a a' free' other com.node_wf_upd(1) [OF wf]
      by (cases "a' = a"; simp add: heap_inv_def)+
  next
    show "distinct (map (\<lambda>so. (so_node so, so_blockIndex so)) (ops @ [so]))"
      using inv fresh by (simp add: heap_inv_def so_def)
  next
    fix x assume "x \<in> set (ops @ [so])"
    then show "so_node x < length H0" "0 \<le> so_blockIndex x" "nat (so_blockIndex x) \<in> node_freeBlocks E (H0 ! so_node x)"
      using inv a pos in_free(1) free by (auto simp: heap_inv_def so_def)
  qed (use inv in \<open>simp add: heap_inv_def\<close>)
qed

lemma place_copies_inv:
  assumes "place_copies E block is p = Some p'" and "heap_inv E H0 (p_heap p) (p_ops p)"
    and "p_ops p = pre @ g" and "p_blocks p = bs @ [map (copy_of H0) g]"
    and "set (p_order p) \<subseteq> {..<length H0}" and "p_success p"
  shows "p_order p' = p_order p \<and> heap_inv E H0 (p_heap p') (p_ops p') \<and>
    (\<exists>g'. p_ops p' = pre @ g @ g' \<and> p_blocks p' = bs @ [map (copy_of H0) (g @ g')] \<and>
      (\<forall>so \<in> set g'. so_block so = block) \<and>
      (p_success p' \<longrightarrow> map so_node g' = map ((!) (p_order p)) is \<and> (\<forall>i \<in> set is. i < length (p_order p))))"
  using assms
proof (induction "is" arbitrary: p g)
  case Nil
  then show ?case by simp
next
  case (Cons i "is")
  let ?a = "p_order p ! i"
  let ?b = "node_getFirstFreeBlock E (p_heap p ! ?a)"
  show ?case
  proof (cases "i < length (p_order p) \<and> ?b \<noteq> -1")
    case False
    then have "p' = p\<lparr>p_success := False\<rparr>"
      using Cons.prems(1) by (auto simp: Let_def split: if_splits)
    then show ?thesis using Cons.prems by simp
  next
    case True
    then have a: "?a < length H0" using Cons.prems(5) nth_mem by blast
    let ?so = "\<lparr>so_node = ?a, so_blockIndex = ?b, so_block = block\<rparr>"
    from True Cons.prems(1) obtain nid where nid: "nd_id (p_heap p ! ?a) = Some nid" and
      run: "place_copies E block is
        (p\<lparr>p_heap := (p_heap p)[?a := node_setBlockUsed E (p_heap p ! ?a) ?b], p_ops := p_ops p @ [?so],
           p_blocks := butlast (p_blocks p) @ [last (p_blocks p) @
             [\<lparr>fb_nodeId = nid, fb_blockIndex = word_of_int ?b\<rparr>]]\<rparr>) = Some p'"
      by (auto simp: Let_def bind_eq_Some_conv split: if_splits)
    have copy: "copy_of H0 ?so = \<lparr>fb_nodeId = nid, fb_blockIndex = word_of_int ?b\<rparr>"
      using Cons.prems(2) a nid by (simp add: copy_of_def heap_inv_def)
    have inv: "heap_inv E H0 ((p_heap p)[?a := node_setBlockUsed E (p_heap p ! ?a) ?b]) (p_ops p @ [?so])"
      using heap_inv_place [OF Cons.prems(2) a] True by simp
    from Cons.IH [OF run, of "g @ [?so]"] inv Cons.prems(3-6) copy
    have "p_order p' = p_order p \<and> heap_inv E H0 (p_heap p') (p_ops p') \<and>
      (\<exists>g'. p_ops p' = pre @ (g @ [?so]) @ g' \<and> p_blocks p' = bs @ [map (copy_of H0) ((g @ [?so]) @ g')] \<and>
        (\<forall>so \<in> set g'. so_block so = block) \<and>
        (p_success p' \<longrightarrow> map so_node g' = map ((!) (p_order p)) is \<and> (\<forall>i \<in> set is. i < length (p_order p))))"
      by simp
    then obtain g' where g': "p_order p' = p_order p" "heap_inv E H0 (p_heap p') (p_ops p')"
      "p_ops p' = pre @ (g @ [?so]) @ g'" "p_blocks p' = bs @ [map (copy_of H0) ((g @ [?so]) @ g')]"
      "\<forall>so \<in> set g'. so_block so = block"
      "p_success p' \<longrightarrow> map so_node g' = map ((!) (p_order p)) is \<and> (\<forall>i \<in> set is. i < length (p_order p))"
      by blast
    then show ?thesis using True by (intro conjI exI [of _ "?so # g'"]) auto
  qed
qed

end

text \<open>
  The plan for the blocks \<open>done\<close> so far: the operations in groups of three, one group per
  block, on three nodes, and the file's new blocks are the copies they make.
\<close>

definition group_ok :: "byte list \<Rightarrow> send_op list \<Rightarrow> bool" where
  "group_ok block g \<longleftrightarrow> length g = FILESYSTEM_BLOCK_COPIES \<and> distinct (map so_node g) \<and> (\<forall>so \<in> set g. so_block so = block)"

definition plan_inv :: "('n, 'db) env \<Rightarrow> node_t list \<Rightarrow> file_block_t list list \<Rightarrow> byte list list \<Rightarrow> plan \<Rightarrow> bool" where
  "plan_inv E H0 B0 blocks p \<longleftrightarrow> heap_inv E H0 (p_heap p) (p_ops p) \<and>
     set (p_order p) = {..<length H0} \<and> distinct (p_order p) \<and>
     (p_success p \<longrightarrow> (\<exists>G. p_ops p = concat G \<and> p_blocks p = B0 @ map (map (copy_of H0)) G \<and>
        list_all2 group_ok blocks G))"

context fs_laws begin

lemma plan_inv_start:
  "\<forall>n \<in> set H. node_wf n \<Longrightarrow> plan_inv E H (file_blocks f) [] (plan_start H f)"
  using heap_inv_start by (auto simp: plan_inv_def plan_start_def intro: exI [of _ "[]"])

lemma createSendOperations_inv:
  assumes inv: "plan_inv E H0 B0 blocks p" and run: "createSendOperations E block p = Some p'"
  shows "plan_inv E H0 B0 (blocks @ [block]) p'"
proof (cases "p_success p")
  case False
  with run inv show ?thesis by (simp add: createSendOperations_def plan_inv_def)
next
  case True
  let ?cmp = "\<lambda>a b. filesystem_nodeComparatorByBlocksFree E (p_heap p ! a) (p_heap p ! b)"
  let ?o = "e_sort E ?cmp (p_order p)"
  let ?p = "p\<lparr>p_blocks := p_blocks p @ [[]], p_order := ?o\<rparr>"
  obtain G where G: "p_ops p = concat G" "p_blocks p = B0 @ map (map (copy_of H0)) G" "list_all2 group_ok blocks G"
    using inv True by (auto simp: plan_inv_def)
  have o: "set ?o = {..<length H0}" "distinct ?o"
    using inv srt.sort_set [of ?cmp "p_order p"] srt.sort_distinct_map [of id ?cmp "p_order p"]
    by (simp_all add: plan_inv_def)
  have "place_copies E block [0..<FILESYSTEM_BLOCK_COPIES] ?p = Some p'"
    using run True by (simp add: createSendOperations_def)
  from place_copies_inv [OF this, of H0 "p_ops p" "[]" "p_blocks p"] inv o True
  obtain g where g: "p_order p' = ?o" "heap_inv E H0 (p_heap p') (p_ops p')" "p_ops p' = p_ops p @ g"
    "p_blocks p' = p_blocks p @ [map (copy_of H0) g]" "\<forall>so \<in> set g. so_block so = block"
    "p_success p' \<Longrightarrow> map so_node g = map ((!) ?o) [0..<FILESYSTEM_BLOCK_COPIES] \<and>
      (\<forall>i \<in> set [0..<FILESYSTEM_BLOCK_COPIES]. i < length ?o)"
    by (auto simp: plan_inv_def)
  have "group_ok block g" if s: "p_success p'"
  proof -
    from g(6) [OF s] have m: "map so_node g = map ((!) ?o) [0..<FILESYSTEM_BLOCK_COPIES]"
      and le: "\<forall>i \<in> set [0..<FILESYSTEM_BLOCK_COPIES]. i < length ?o" by auto
    have "FILESYSTEM_BLOCK_COPIES \<le> length ?o"
      using le by (cases FILESYSTEM_BLOCK_COPIES) (auto simp: Suc_le_eq)
    then have "map so_node g = take FILESYSTEM_BLOCK_COPIES ?o"
      unfolding m by (simp add: list_eq_iff_nth_eq)
    then have "distinct (map so_node g)" using o(2) by simp
    moreover have "length g = FILESYSTEM_BLOCK_COPIES" using m by (metis length_map length_upt minus_nat.diff_0)
    ultimately show ?thesis using g(5) by (simp add: group_ok_def)
  qed
  then have "p_ops p' = concat (G @ [g])" "p_blocks p' = B0 @ map (map (copy_of H0)) (G @ [g])"
    "p_success p' \<Longrightarrow> list_all2 group_ok (blocks @ [block]) (G @ [g])"
    using g(3,4) G by (simp_all add: list_all2_appendI)
  then show ?thesis unfolding plan_inv_def using g(1,2) o by (metis (no_types, lifting))
qed

lemma plan_inv_fold:
  "fold_opt (createSendOperations E) todo p = Some p' \<Longrightarrow> plan_inv E H0 B0 blocks p \<Longrightarrow>
     plan_inv E H0 B0 (blocks @ todo) p'"
proof (induction todo arbitrary: blocks p)
  case (Cons b todo)
  then obtain p1 where "createSendOperations E b p = Some p1" "fold_opt (createSendOperations E) todo p1 = Some p'"
    by (auto simp: bind_eq_Some_conv)
  with Cons.IH [of p1 "blocks @ [b]"] createSendOperations_inv [OF Cons.prems(2)] show ?case by simp
qed simp

end

section \<open>The threads\<close>

lemma sender_step_length: "sender_step E H ops t s = Some s' \<Longrightarrow> length (s_threads s') = length (s_threads s)"
  by (auto simp: sender_step_def bind_eq_Some_conv split: if_splits thread.splits prod.splits)

lemma sender_step_other:
  "sender_step E H ops t s = Some s' \<Longrightarrow> u \<noteq> t \<Longrightarrow> s_threads s' ! u = s_threads s ! u"
  by (auto simp: sender_step_def bind_eq_Some_conv split: if_splits thread.splits prod.splits)

lemma sender_step_own:
  "sender_step E H ops t s = Some s' \<Longrightarrow> t < length (s_threads s) \<Longrightarrow>
     s_threads s' ! t \<noteq> Ready \<and> (s_threads s ! t \<noteq> Ready \<longrightarrow> s_threads s' ! t = Done)"
  by (auto simp: sender_step_def bind_eq_Some_conv split: if_splits thread.splits prod.splits)

text \<open>A round over all threads leaves none ready; a second one none going.\<close>

lemma sender_round:
  assumes "fold_opt (sender_step E H ops) ts s = Some s'" and "length (s_threads s) = n"
  shows "length (s_threads s') = n \<and>
    (\<forall>u < n. u \<in> set ts \<longrightarrow> s_threads s' ! u \<noteq> Ready \<and> (s_threads s ! u \<noteq> Ready \<longrightarrow> s_threads s' ! u = Done)) \<and>
    (\<forall>u < n. (s_threads s ! u \<noteq> Ready \<longrightarrow> s_threads s' ! u \<noteq> Ready) \<and> (s_threads s ! u = Done \<longrightarrow> s_threads s' ! u = Done))"
  using assms
proof (induction ts arbitrary: s)
  case (Cons t ts)
  then obtain s1 where s1: "sender_step E H ops t s = Some s1" "fold_opt (sender_step E H ops) ts s1 = Some s'"
    by (auto simp: bind_eq_Some_conv)
  have len: "length (s_threads s1) = n" using sender_step_length [OF s1(1)] Cons.prems(2) by simp
  note IH = Cons.IH [OF s1(2) len]
  have step: "s_threads s1 ! u = s_threads s ! u" if "u \<noteq> t" for u
    using sender_step_other [OF s1(1) that] .
  have own: "s_threads s1 ! t \<noteq> Ready \<and> (s_threads s ! t \<noteq> Ready \<longrightarrow> s_threads s1 ! t = Done)" if "t < n"
    using sender_step_own [OF s1(1)] that Cons.prems(2) by simp
  show ?case
  proof (intro conjI allI impI)
    show "length (s_threads s') = n" using IH by blast
  next
    fix u assume u: "u < n" "u \<in> set (t # ts)"
    show "s_threads s' ! u \<noteq> Ready" using IH own step u by (cases "u = t") auto
    show "s_threads s' ! u = Done" if "s_threads s ! u \<noteq> Ready" using IH own step u that by (cases "u = t") auto
  next
    fix u assume u: "u < n"
    show "s_threads s' ! u \<noteq> Ready" if "s_threads s ! u \<noteq> Ready" using IH own step u that by (cases "u = t") auto
    show "s_threads s' ! u = Done" if "s_threads s ! u = Done"
    proof (cases "u = t")
      case True
      have "sender_step E H ops t s = Some s" using that True u Cons.prems(2) by (simp add: sender_step_def)
      with s1(1) that IH u show ?thesis by simp
    next
      case False
      with IH step u that show ?thesis by simp
    qed
  qed
qed simp

lemma run_senders_done:
  assumes "run_senders E H ops schedule w = Some s" and "t < length ops"
  shows "length (s_threads s) = length ops \<and> s_threads s ! t = Done"
proof -
  let ?s0 = "\<lparr>s_world = w, s_failed = False, s_threads = replicate (length ops) Ready\<rparr>"
  obtain s1 s2 where 1: "fold_opt (sender_step E H ops) schedule ?s0 = Some s1"
    and 2: "fold_opt (sender_step E H ops) [0..<length ops] s1 = Some s2"
    and 3: "fold_opt (sender_step E H ops) [0..<length ops] s2 = Some s"
    using assms(1) unfolding run_senders_def fold_opt_append by (auto simp: bind_eq_Some_conv)
  have l1: "length (s_threads s1) = length ops" using sender_round [OF 1, of "length ops"] by simp
  have l2: "length (s_threads s2) = length ops" using sender_round [OF 2 l1] by blast
  have "s_threads s2 ! t \<noteq> Ready" using sender_round [OF 2 l1] assms(2) by simp
  then show ?thesis using sender_round [OF 3 l2] assms(2) by simp
qed

text \<open>
  What the threads do to the state: the database and the local files stay, and as long as
  nothing has failed every connection stays and has received exactly the messages of the
  ended threads, each whole, in the order they were sent.
\<close>

definition op_socket :: "registry \<Rightarrow> node_t list \<Rightarrow> send_op \<Rightarrow> int option" where
  "op_socket A H so =
     (case nd_id (H ! so_node so) of None \<Rightarrow> None | Some i \<Rightarrow> map_option nc_socket (map_of A i))"

definition op_bytes :: "send_op \<Rightarrow> byte list" where
  "op_bytes so = set_block_bytes (so_blockIndex so) (so_block so)"

definition sent_inv :: "('n \<Rightarrow> int \<Rightarrow> byte list) \<Rightarrow> node_t list \<Rightarrow> send_op list \<Rightarrow>
    ('n, 'db) world \<Rightarrow> ('n, 'db) senders \<Rightarrow> bool" where
  "sent_inv out H ops w s \<longleftrightarrow>
     w_db (s_world s) = w_db w \<and> w_local (s_world s) = w_local w \<and> length (s_threads s) = length ops \<and>
     (\<not> s_failed s \<longrightarrow> w_active (s_world s) = w_active w \<and> w_standby (s_world s) = w_standby w \<and>
       (\<exists>sent. distinct sent \<and> set sent = {t. t < length ops \<and> s_threads s ! t = Done} \<and>
         (\<forall>t \<in> set sent. op_socket (w_active w) H (ops ! t) \<noteq> None) \<and>
         (\<forall>k. out (w_net (s_world s)) k = out (w_net w) k @
            concat (map (\<lambda>t. op_bytes (ops ! t)) (filter (\<lambda>t. op_socket (w_active w) H (ops ! t) = Some k) sent)))))"

lemma sender_step_inv:
  assumes os: "stream_os (e_os E) inp out"
    and run: "sender_step E H ops t s = Some s'" and inv: "sent_inv out H ops w s"
  shows "sent_inv out H ops w s'"
proof (cases "t < length (s_threads s)")
  case False
  with run inv show ?thesis by (simp add: sender_step_def)
next
  case t: True
  show ?thesis
  proof (cases "s_threads s ! t")
    case Ready
    have s': "s' = s\<lparr>s_threads := (s_threads s)[t := if s_failed s then Done else Going]\<rparr>"
      using run t Ready by (simp add: sender_step_def)
    show ?thesis
    proof (cases "s_failed s")
      case True
      with inv show ?thesis by (simp add: sent_inv_def s')
    next
      case False
      have "{u. u < length ops \<and> (s_threads s)[t := Going] ! u = Done} = {u. u < length ops \<and> s_threads s ! u = Done}"
        using t Ready by (auto simp: nth_list_update)
      with inv False show ?thesis by (simp add: sent_inv_def s')
    qed
  next
    case Done
    with run inv t show ?thesis by (simp add: sender_step_def)
  next
    case Going
    then obtain ok w1 where send: "connections_node_sendBlock E (deref H (ops ! t)) (s_world s) = Some (ok, w1)"
      and s': "s' = s\<lparr>s_world := w1, s_failed := s_failed s \<or> \<not> ok, s_threads := (s_threads s)[t := Done]\<rparr>"
      using run t by (auto simp: sender_step_def filesystem_sendBlockToNode_def bind_eq_Some_conv)
    obtain i where i: "nd_id (op_node (deref H (ops ! t))) = Some i" and frame: "request_frame i (s_world s) w1"
      using sendBlock_frame [OF send] by blast
    show ?thesis
    proof (cases "s_failed s \<or> \<not> ok")
      case True
      with inv frame show ?thesis by (simp add: sent_inv_def s' request_frame_def)
    next
      case False
      then obtain sent where sent: "distinct sent" "set sent = {t. t < length ops \<and> s_threads s ! t = Done}"
        "\<forall>t \<in> set sent. op_socket (w_active w) H (ops ! t) \<noteq> None"
        "\<forall>k. out (w_net (s_world s)) k = out (w_net w) k @
            concat (map (\<lambda>t. op_bytes (ops ! t)) (filter (\<lambda>t. op_socket (w_active w) H (ops ! t) = Some k) sent))"
        and act: "w_active (s_world s) = w_active w" and len: "length (s_threads s) = length ops"
        using inv by (auto simp: sent_inv_def)
      have i': "nd_id (H ! so_node (ops ! t)) = Some i"
        using i by (simp add: deref_def filesystem_nodeBlockSendOperation_create_def)
      obtain c where c: "map_of (w_active w) i = Some c"
        using send i' False act
        by (cases "map_of (w_active w) i") (auto simp: connections_node_sendBlock_def Let_def deref_def
            filesystem_nodeBlockSendOperation_create_def connections_node_getActiveNodeConnection_def)
      have sock: "op_socket (w_active w) H (ops ! t) = Some (nc_socket c)"
        using i' c by (simp add: op_socket_def)
      have bytes: "set_block_bytes (op_blockIndex (deref H (ops ! t))) (op_block (deref H (ops ! t))) = op_bytes (ops ! t)"
        by (simp add: op_bytes_def deref_def filesystem_nodeBlockSendOperation_create_def)
      have c': "map_of (w_active (s_world s)) i = Some c" using c act by simp
      from sendBlock_stream [OF os i c' send, unfolded bytes] False
      have out: "out (w_net w1) (nc_socket c) = out (w_net (s_world s)) (nc_socket c) @ op_bytes (ops ! t)"
        "\<forall>k. k \<noteq> nc_socket c \<longrightarrow> out (w_net w1) k = out (w_net (s_world s)) k"
        "w_active w1 = w_active (s_world s)" by auto
      have ended: "{u. u < length ops \<and> (s_threads s)[t := Done] ! u = Done} = set (sent @ [t])"
        using t len sent(2) by (auto simp: nth_list_update)
      have "distinct (sent @ [t])" using sent(1,2) Going by simp
      moreover have "out (w_net w1) k = out (w_net w) k @ concat (map (\<lambda>t. op_bytes (ops ! t))
          (filter (\<lambda>t. op_socket (w_active w) H (ops ! t) = Some k) (sent @ [t])))" for k
        using out(1,2) sent(4) sock by (cases "k = nc_socket c") auto
      moreover have "\<forall>u \<in> set (sent @ [t]). op_socket (w_active w) H (ops ! u) \<noteq> None"
        using sent(3) sock by auto
      ultimately have ex: "\<exists>sent. distinct sent \<and>
          set sent = {u. u < length ops \<and> (s_threads s)[t := Done] ! u = Done} \<and>
          (\<forall>u \<in> set sent. op_socket (w_active w) H (ops ! u) \<noteq> None) \<and>
          (\<forall>k. out (w_net w1) k = out (w_net w) k @ concat (map (\<lambda>t. op_bytes (ops ! t))
            (filter (\<lambda>t. op_socket (w_active w) H (ops ! t) = Some k) sent)))"
        unfolding ended by blast
      have "w_active w1 = w_active w" "w_standby w1 = w_standby w" "w_db w1 = w_db w" "w_local w1 = w_local w"
        using inv False frame out(3) act by (simp_all add: sent_inv_def request_frame_def)
      with ex len show ?thesis by (simp add: sent_inv_def s')
    qed
  qed
qed

lemma run_senders_frame:
  assumes "run_senders E H ops schedule w = Some s"
  shows "w_db (s_world s) = w_db w \<and> w_local (s_world s) = w_local w \<and> w_standby (s_world s) = w_standby w"
proof (rule fold_opt_inv [OF assms [unfolded run_senders_def]])
  fix t s s' assume "sender_step E H ops t s = Some s'"
    and "w_db (s_world s) = w_db w \<and> w_local (s_world s) = w_local w \<and> w_standby (s_world s) = w_standby w"
  then show "w_db (s_world s') = w_db w \<and> w_local (s_world s') = w_local w \<and> w_standby (s_world s') = w_standby w"
    by (auto simp: sender_step_def filesystem_sendBlockToNode_def request_frame_def bind_eq_Some_conv
        split: if_splits thread.splits dest!: sendBlock_frame)
qed simp

lemma run_senders_inv:
  assumes "stream_os (e_os E) inp out" and "run_senders E H ops schedule w = Some s"
  shows "sent_inv out H ops w s"
proof (rule fold_opt_inv [OF assms(2) [unfolded run_senders_def]])
  have "{t. t < length ops \<and> replicate (length ops) Ready ! t = Done} = set ([] :: nat list)" by auto
  then show "sent_inv out H ops w \<lparr>s_world = w, s_failed = False, s_threads = replicate (length ops) Ready\<rparr>"
    by (auto simp: sent_inv_def intro: exI [of _ "[]"])
next
  fix t s s' assume "sender_step E H ops t s = Some s'" "sent_inv out H ops w s"
  then show "sent_inv out H ops w s'" by (rule sender_step_inv [OF assms(1)])
qed

text \<open>When nothing failed, every operation was sent, once.\<close>

lemma run_senders_all:
  assumes "stream_os (e_os E) inp out" and "run_senders E H ops schedule w = Some s" and "\<not> s_failed s"
  shows "\<exists>ops'. mset ops' = mset ops \<and> (\<forall>so \<in> set ops. op_socket (w_active w) H so \<noteq> None) \<and>
    (\<forall>k. out (w_net (s_world s)) k = out (w_net w) k @
       concat (map op_bytes (filter (\<lambda>so. op_socket (w_active w) H so = Some k) ops')))"
proof -
  from run_senders_inv [OF assms(1,2)] assms(3) obtain sent where sent: "distinct sent"
    "set sent = {t. t < length ops \<and> s_threads s ! t = Done}"
    "\<forall>t \<in> set sent. op_socket (w_active w) H (ops ! t) \<noteq> None"
    "\<forall>k. out (w_net (s_world s)) k = out (w_net w) k @
       concat (map (\<lambda>t. op_bytes (ops ! t)) (filter (\<lambda>t. op_socket (w_active w) H (ops ! t) = Some k) sent))"
    by (auto simp: sent_inv_def)
  have all: "set sent = set [0..<length ops]"
    using sent(2) run_senders_done [OF assms(2)] by auto
  then have "mset sent = mset [0..<length ops]"
    using set_eq_iff_mset_eq_distinct [OF sent(1) distinct_upt] by blast
  then have "mset (map ((!) ops) sent) = mset (map ((!) ops) [0..<length ops])" by (rule mset_eq_map)
  then have m: "mset (map ((!) ops) sent) = mset ops" by (simp only: map_nth)
  have f: "concat (map op_bytes (filter P (map ((!) ops) sent))) = concat (map (\<lambda>t. op_bytes (ops ! t)) (filter (\<lambda>t. P (ops ! t)) sent))" for P
    by (simp add: filter_map comp_def)
  have "\<forall>so \<in> set ops. op_socket (w_active w) H so \<noteq> None"
    using sent(3) all by (metis atLeastLessThan_iff in_set_conv_nth le0 set_upt)
  with m sent(4) show ?thesis by (intro exI [of _ "map ((!) ops) sent"]) (simp only: f simp_thms)
qed

section \<open>The whole operation\<close>

lemma filter_connected_Some:
  "filter_connected w ns = Some H \<Longrightarrow> H = filter (\<lambda>n. connections_node_isActiveNode (the (nd_id n)) w) ns \<and>
     (\<forall>n \<in> set ns. nd_id n \<noteq> None)"
  by (induction w ns arbitrary: H rule: filter_connected.induct) (auto simp: bind_eq_Some_conv split: if_splits)

lemma filter_connected_total: "\<forall>n \<in> set ns. nd_id n \<noteq> None \<Longrightarrow> filter_connected w ns \<noteq> None"
  by (induction w ns rule: filter_connected.induct) auto

text \<open>Free blocks of a node after the copies \<open>cs\<close> were taken on it.\<close>

definition used_by :: "file_block_t list \<Rightarrow> string option \<Rightarrow> nat set" where
  "used_by cs i = {unat (fb_blockIndex c) | c. c \<in> set cs \<and> Some (fb_nodeId c) = i}"

lemma node_freeBlocks_u16: "b \<in> node_freeBlocks c n \<Longrightarrow> b < 2 ^ 16"
proof -
  assume b: "b \<in> node_freeBlocks c n"
  have "unat (nd_blocksCount n) < 65536" using unsigned_less [of "nd_blocksCount n"] by simp
  with b show ?thesis by (auto simp: node_freeBlocks_def)
qed

lemma unat_of_index: "0 \<le> b \<Longrightarrow> nat b < 2 ^ 16 \<Longrightarrow> unat (word_of_int b :: u16) = nat b"
  by (simp add: unat_eq_nat_uint uint_word_of_int)

context fs_laws begin

lemma getAllActivatedNodes_spec:
  assumes wf: "meta_wf (docs (w_db w)) (uniq (w_db w))"
  shows "\<exists>H. filesystem_getAllActivatedNodes E w = Some H \<and> distinct (map nd_id H) \<and>
    set H = {n \<in> meta_nodes (docs (w_db w)). \<exists>i. nd_id n = Some i \<and> connections_node_isActiveNode i w}"
proof -
  obtain ns where ns: "mongo_node_getAll E (w_db w) = Some ns" "distinct ns" "set ns = meta_nodes (docs (w_db w))"
    using mon.node_getAll [OF wf] by blast
  have ids: "\<forall>n \<in> set ns. nd_id n \<noteq> None" using ns(3) by (auto simp: meta_nodes_def elems_def node_ok_def)
  then obtain H where H: "filter_connected w ns = Some H" using filter_connected_total by fastforce
  have "inj_on nd_id (set ns)" using mon.node_unique [OF wf] unfolding ns(3) inj_on_def by blast
  then have "distinct (map nd_id ns)" using ns(2) by (simp add: distinct_map)
  then have "distinct (map nd_id H)" using filter_connected_Some [OF H] by (simp add: distinct_map_filter)
  moreover have "set H = {n \<in> meta_nodes (docs (w_db w)). \<exists>i. nd_id n = Some i \<and> connections_node_isActiveNode i w}"
    using filter_connected_Some [OF H] ns(3) by fastforce
  ultimately show ?thesis using H ns(1) by (auto simp: filesystem_getAllActivatedNodes_def)
qed

lemma updateBlocks_fold:
  assumes "meta_wf (docs db) (uniq db)" and "\<forall>m \<in> set ms. \<exists>n \<in> meta_nodes (docs db). nd_id n = nd_id m"
    and "\<forall>m \<in> set ms. \<forall>m' \<in> set ms. nd_id m = nd_id m' \<longrightarrow> m = m'"
  defines "db' \<equiv> fold (mongo_node_updateBlocks E) ms db"
  shows "meta (docs db') = (meta_dirs (docs db), meta_files (docs db),
      {n \<in> meta_nodes (docs db). nd_id n \<notin> nd_id ` set ms} \<union> set ms) \<and> meta_wf (docs db') (uniq db')"
  using assms(1-3) unfolding db'_def
proof (induction ms arbitrary: db)
  case Nil
  then show ?case by (simp add: meta_def)
next
  case (Cons m ms)
  then obtain n where n: "n \<in> meta_nodes (docs db)" "nd_id m = nd_id n" by fastforce
  let ?db1 = "mongo_node_updateBlocks E m db"
  note up = mon.node_updateBlocks [OF Cons.prems(1) n]
  have nodes1: "meta_nodes (docs ?db1) = insert m (meta_nodes (docs db) - {n})"
    and rest: "meta_dirs (docs ?db1) = meta_dirs (docs db)" "meta_files (docs ?db1) = meta_files (docs db)"
    using up(1) by (simp_all add: meta_def)
  have uniq: "n' = n" if "n' \<in> meta_nodes (docs db)" "nd_id n' = nd_id n" for n'
    using mon.node_unique [OF Cons.prems(1) that(1) n(1)] that(2) by blast
  have "\<forall>m' \<in> set ms. \<exists>n \<in> meta_nodes (docs ?db1). nd_id n = nd_id m'"
  proof
    fix m' assume "m' \<in> set ms"
    then obtain n' where "n' \<in> meta_nodes (docs db)" "nd_id n' = nd_id m'" using Cons.prems(2) by auto
    then show "\<exists>n \<in> meta_nodes (docs ?db1). nd_id n = nd_id m'"
      unfolding nodes1 using n(2) by (cases "n' = n") auto
  qed
  note IH = Cons.IH [OF up(2) this]
  have "{x \<in> insert m (meta_nodes (docs db) - {n}). nd_id x \<notin> nd_id ` set ms} \<union> set ms =
      {x \<in> meta_nodes (docs db). nd_id x \<notin> nd_id ` set (m # ms)} \<union> set (m # ms)"
    using uniq n Cons.prems(3) by auto
  with IH Cons.prems(3) show ?case by (simp add: nodes1 rest)
qed

text \<open>Everything a successful distribution comes from.\<close>

lemma distribute_success:
  assumes wf: "meta_wf (docs (w_db w)) (uniq (w_db w))" and nwf: "\<forall>n \<in> meta_nodes (docs (w_db w)). node_wf n"
    and run: "filesystem_distributeBlocksToNodes E schedule blocks file w = Some (True, file', w')"
  obtains H0 and p :: plan and G s where
    "set H0 = {n \<in> meta_nodes (docs (w_db w)). \<exists>i. nd_id n = Some i \<and> connections_node_isActiveNode i w}"
    and "distinct (map nd_id H0)" and "heap_inv E H0 (p_heap p) (p_ops p)"
    and "p_ops p = concat G" and "list_all2 group_ok blocks G"
    and "file' = file\<lparr>file_blocks := file_blocks file @ map (map (copy_of H0)) G\<rparr>"
    and "run_senders E (p_heap p) (p_ops p) schedule w = Some s" and "\<not> s_failed s"
    and "w' = (s_world s)\<lparr>w_db := fold (mongo_node_updateBlocks E) (map (\<lambda>so. p_heap p ! so_node so) (p_ops p))
      (w_db (s_world s))\<rparr>"
proof -
  obtain H0 where H0: "filesystem_getAllActivatedNodes E w = Some H0" "distinct (map nd_id H0)"
    "set H0 = {n \<in> meta_nodes (docs (w_db w)). \<exists>i. nd_id n = Some i \<and> connections_node_isActiveNode i w}"
    using getAllActivatedNodes_spec [OF wf] by blast
  from run H0(1) obtain p s where p: "fold_opt (createSendOperations E) blocks (plan_start H0 file) = Some p"
    "p_success p" "run_senders E (p_heap p) (p_ops p) schedule w = Some s" "\<not> s_failed s"
    "file' = file\<lparr>file_blocks := p_blocks p\<rparr>"
    "w' = (s_world s)\<lparr>w_db := fold (\<lambda>so db. mongo_node_updateBlocks E (p_heap p ! so_node so) db) (p_ops p)
      (w_db (s_world s))\<rparr>"
    by (auto simp: filesystem_distributeBlocksToNodes_def Let_def bind_eq_Some_conv split: if_splits)
  have "\<forall>n \<in> set H0. node_wf n" using nwf H0(3) by auto
  from plan_inv_fold [OF p(1) plan_inv_start [OF this]] p(2) obtain G where
    "heap_inv E H0 (p_heap p) (p_ops p)" "p_ops p = concat G"
    "p_blocks p = file_blocks file @ map (map (copy_of H0)) G" "list_all2 group_ok blocks G"
    by (auto simp: plan_inv_def)
  note G = this
  show ?thesis
    by (rule that [OF H0(3,2) G(1,2,4) _ p(3,4)]) (simp_all add: p(5,6) G(3) fold_map comp_def)
qed

text \<open>The node of an operation, and the copy it makes.\<close>

lemma op_node:
  assumes H0: "set H0 = {n \<in> meta_nodes (docs (w_db w)). \<exists>i. nd_id n = Some i \<and> connections_node_isActiveNode i w}"
    and inv: "heap_inv E H0 H ops" and so: "so \<in> set ops"
  shows "H0 ! so_node so \<in> meta_nodes (docs (w_db w))"
    and "nd_id (H0 ! so_node so) = Some (fb_nodeId (copy_of H0 so))"
    and "connections_node_isActiveNode (fb_nodeId (copy_of H0 so)) w"
    and "unat (fb_blockIndex (copy_of H0 so)) = nat (so_blockIndex so)"
    and "int (unat (fb_blockIndex (copy_of H0 so))) = so_blockIndex so"
    and "nat (so_blockIndex so) \<in> node_freeBlocks E (H0 ! so_node so)"
proof -
  have a: "so_node so < length H0" "0 \<le> so_blockIndex so" and
    free: "nat (so_blockIndex so) \<in> node_freeBlocks E (H0 ! so_node so)" using inv so by (auto simp: heap_inv_def)
  then have "H0 ! so_node so \<in> set H0" by simp
  then obtain i where i: "H0 ! so_node so \<in> meta_nodes (docs (w_db w))" "nd_id (H0 ! so_node so) = Some i"
    "connections_node_isActiveNode i w" unfolding H0 by blast
  show "H0 ! so_node so \<in> meta_nodes (docs (w_db w))" by (rule i)
  show "nd_id (H0 ! so_node so) = Some (fb_nodeId (copy_of H0 so))"
    "connections_node_isActiveNode (fb_nodeId (copy_of H0 so)) w" using i by (simp_all add: copy_of_def)
  show u: "unat (fb_blockIndex (copy_of H0 so)) = nat (so_blockIndex so)"
    using unat_of_index [OF a(2)] node_freeBlocks_u16 [OF free] by (simp add: copy_of_def)
  show "int (unat (fb_blockIndex (copy_of H0 so))) = so_blockIndex so" unfolding u using a(2) by simp
  show "nat (so_blockIndex so) \<in> node_freeBlocks E (H0 ! so_node so)" by (rule free)
qed

lemma copy_of_inj:
  assumes H0: "set H0 = {n \<in> meta_nodes (docs (w_db w)). \<exists>i. nd_id n = Some i \<and> connections_node_isActiveNode i w}"
    and dist: "distinct (map nd_id H0)" and inv: "heap_inv E H0 H ops" and so: "so \<in> set ops" "so' \<in> set ops"
  shows "fb_nodeId (copy_of H0 so) = fb_nodeId (copy_of H0 so') \<longleftrightarrow> so_node so = so_node so'"
    and "copy_of H0 so = copy_of H0 so' \<longleftrightarrow> (so_node so, so_blockIndex so) = (so_node so', so_blockIndex so')"
proof -
  have a: "so_node so < length H0" "so_node so' < length H0" using inv so by (auto simp: heap_inv_def)
  note o = op_node [OF H0 inv so(1)] and o' = op_node [OF H0 inv so(2)]
  show n: "fb_nodeId (copy_of H0 so) = fb_nodeId (copy_of H0 so') \<longleftrightarrow> so_node so = so_node so'"
  proof
    assume "fb_nodeId (copy_of H0 so) = fb_nodeId (copy_of H0 so')"
    then have "map nd_id H0 ! so_node so = map nd_id H0 ! so_node so'" using a o(2) o'(2) by simp
    then show "so_node so = so_node so'" using dist a by (metis nth_eq_iff_index_eq length_map)
  qed (simp add: copy_of_def)
  show "copy_of H0 so = copy_of H0 so' \<longleftrightarrow> (so_node so, so_blockIndex so) = (so_node so', so_blockIndex so')"
  proof
    assume eq: "copy_of H0 so = copy_of H0 so'"
    then have "so_blockIndex so = so_blockIndex so'" using o(5) o'(5) by metis
    with n eq show "(so_node so, so_blockIndex so) = (so_node so', so_blockIndex so')" by simp
  qed (simp add: copy_of_def)
qed

end

text \<open>The copies a distribution adds to the file.\<close>

definition new_copies :: "file_t \<Rightarrow> file_t \<Rightarrow> file_block_t list list" where
  "new_copies file file' = drop (length (file_blocks file)) (file_blocks file')"

lemma used_by_map:
  "(\<And>so. so \<in> set ops \<Longrightarrow> unat (fb_blockIndex (f so)) = nat (so_blockIndex so) \<and> (Some (fb_nodeId (f so)) = i \<longleftrightarrow> so_node so = a)) \<Longrightarrow>
     used_by (map f ops) i = taken ops a"
  unfolding used_by_def taken_def by force

lemma blocks_of_groups:
  "list_all2 group_ok blocks G \<Longrightarrow>
     map (\<lambda>so. (so_block so, f so)) (concat G) = concat (map2 (\<lambda>b cs. map (Pair b) cs) blocks (map (map f) G))"
proof (induction rule: list_all2_induct)
  case (Cons b bs g G)
  have "map (\<lambda>so. (so_block so, f so)) g = map (Pair b) (map f g)"
    using Cons.hyps(1) by (simp add: group_ok_def)
  with Cons.IH show ?case by simp
qed simp

lemma list_all2_set2: "list_all2 P xs ys \<Longrightarrow> y \<in> set ys \<Longrightarrow> \<exists>x. P x y"
  by (induction rule: list_all2_induct) auto

context fs_laws begin

lemma distribute_places:
  assumes wf: "meta_wf (docs (w_db w)) (uniq (w_db w))" and nwf: "\<forall>n \<in> meta_nodes (docs (w_db w)). node_wf n"
    and run: "filesystem_distributeBlocksToNodes E schedule blocks file w = Some (True, file', w')"
  shows "file' = file\<lparr>file_blocks := file_blocks file @ new_copies file file'\<rparr> \<and>
    length (new_copies file file') = length blocks \<and>
    (\<forall>cs \<in> set (new_copies file file'). length cs = 3 \<and> distinct (map fb_nodeId cs)) \<and>
    distinct (concat (new_copies file file')) \<and>
    (\<forall>c \<in> set (concat (new_copies file file')). \<exists>n \<in> meta_nodes (docs (w_db w)). nd_id n = Some (fb_nodeId c) \<and>
      connections_node_isActiveNode (fb_nodeId c) w \<and> unat (fb_blockIndex c) \<in> node_freeBlocks E n)"
proof -
  obtain H0 and p :: plan and G s where H0: "set H0 = {n \<in> meta_nodes (docs (w_db w)). \<exists>i. nd_id n = Some i \<and> connections_node_isActiveNode i w}"
    and dist: "distinct (map nd_id H0)" and inv: "heap_inv E H0 (p_heap p) (p_ops p)"
    and G: "p_ops p = concat G" "list_all2 group_ok blocks G"
    and f': "file' = file\<lparr>file_blocks := file_blocks file @ map (map (copy_of H0)) G\<rparr>"
    and rs: "run_senders E (p_heap p) (p_ops p) schedule w = Some s" "\<not> s_failed s"
    and w': "w' = (s_world s)\<lparr>w_db := fold (mongo_node_updateBlocks E) (map (\<lambda>so. p_heap p ! so_node so) (p_ops p))
      (w_db (s_world s))\<rparr>"
    by (rule distribute_success [OF wf nwf run])
  have new: "new_copies file file' = map (map (copy_of H0)) G" by (simp add: new_copies_def f')
  have len: "length G = length blocks" using G(2) list_all2_lengthD by fastforce
  have group: "length cs = 3 \<and> distinct (map fb_nodeId cs)" if cs: "cs \<in> set (map (map (copy_of H0)) G)" for cs
  proof -
    obtain g where g: "g \<in> set G" "cs = map (copy_of H0) g" using cs by auto
    then have ok: "length g = 3" "distinct (map so_node g)"
      using list_all2_set2 [OF G(2)] by (auto simp: group_ok_def FILESYSTEM_BLOCK_COPIES_def)
    have "inj_on (\<lambda>so. fb_nodeId (copy_of H0 so)) (set g)"
    proof (rule inj_onI)
      fix so so' assume s: "so \<in> set g" "so' \<in> set g" "fb_nodeId (copy_of H0 so) = fb_nodeId (copy_of H0 so')"
      then have "so \<in> set (p_ops p)" "so' \<in> set (p_ops p)" using g(1) G(1) by auto
      then have "so_node so = so_node so'" using copy_of_inj(1) [OF H0 dist inv] s(3) by blast
      then show "so = so'" using ok(2) s(1,2) by (simp add: distinct_map inj_on_def)
    qed
    then have "distinct (map (\<lambda>so. fb_nodeId (copy_of H0 so)) g)" using ok(2) by (simp add: distinct_map)
    then show ?thesis using ok(1) g(2) by (simp add: comp_def)
  qed
  have "distinct (map (copy_of H0) (p_ops p))"
  proof -
    have d: "distinct (map (\<lambda>so. (so_node so, so_blockIndex so)) (p_ops p))" using inv by (simp add: heap_inv_def)
    then have "inj_on (copy_of H0) (set (p_ops p))"
      using copy_of_inj(2) [OF H0 dist inv] by (auto simp: distinct_map inj_on_def)
    then show ?thesis using d by (simp add: distinct_map)
  qed
  then have cd: "distinct (concat (map (map (copy_of H0)) G))" by (simp add: G(1) map_concat)
  have "\<exists>n \<in> meta_nodes (docs (w_db w)). nd_id n = Some (fb_nodeId c) \<and>
      connections_node_isActiveNode (fb_nodeId c) w \<and> unat (fb_blockIndex c) \<in> node_freeBlocks E n"
    if c: "c \<in> set (concat (map (map (copy_of H0)) G))" for c
  proof -
    obtain so where "so \<in> set (p_ops p)" "c = copy_of H0 so" using c G(1) by auto
    with op_node [OF H0 inv this(1)] show ?thesis by auto
  qed
  then show ?thesis unfolding new using f' len group cd by simp
qed

lemma distribute_marks:
  assumes wf: "meta_wf (docs (w_db w)) (uniq (w_db w))" and nwf: "\<forall>n \<in> meta_nodes (docs (w_db w)). node_wf n"
    and run: "filesystem_distributeBlocksToNodes E schedule blocks file w = Some (True, file', w')"
  shows "meta_wf (docs (w_db w')) (uniq (w_db w')) \<and> meta_dirs (docs (w_db w')) = meta_dirs (docs (w_db w)) \<and>
    meta_files (docs (w_db w')) = meta_files (docs (w_db w)) \<and>
    nd_id ` meta_nodes (docs (w_db w')) = nd_id ` meta_nodes (docs (w_db w)) \<and>
    (\<forall>n \<in> meta_nodes (docs (w_db w)). \<exists>n' \<in> meta_nodes (docs (w_db w')). nd_id n' = nd_id n \<and>
      nd_blocksCount n' = nd_blocksCount n \<and> node_wf n' \<and>
      node_freeBlocks E n' = node_freeBlocks E n - used_by (concat (new_copies file file')) (nd_id n))"
proof -
  obtain H0 and p :: plan and G s where H0: "set H0 = {n \<in> meta_nodes (docs (w_db w)). \<exists>i. nd_id n = Some i \<and> connections_node_isActiveNode i w}"
    and dist: "distinct (map nd_id H0)" and inv: "heap_inv E H0 (p_heap p) (p_ops p)"
    and G: "p_ops p = concat G" "list_all2 group_ok blocks G"
    and f': "file' = file\<lparr>file_blocks := file_blocks file @ map (map (copy_of H0)) G\<rparr>"
    and rs: "run_senders E (p_heap p) (p_ops p) schedule w = Some s" "\<not> s_failed s"
    and w': "w' = (s_world s)\<lparr>w_db := fold (mongo_node_updateBlocks E) (map (\<lambda>so. p_heap p ! so_node so) (p_ops p))
      (w_db (s_world s))\<rparr>"
    by (rule distribute_success [OF wf nwf run])
  let ?ms = "map (\<lambda>so. p_heap p ! so_node so) (p_ops p)" and ?N = "meta_nodes (docs (w_db w))"
  have new: "concat (new_copies file file') = map (copy_of H0) (p_ops p)"
    by (simp add: new_copies_def f' G(1) map_concat)
  have id: "nd_id (p_heap p ! so_node so) = nd_id (H0 ! so_node so)" "so_node so < length H0" if "so \<in> set (p_ops p)" for so
    using inv that by (auto simp: heap_inv_def)
  have ex: "\<forall>m \<in> set ?ms. \<exists>n \<in> ?N. nd_id n = nd_id m"
    using op_node(1) [OF H0 inv] id by fastforce
  have same: "\<forall>m \<in> set ?ms. \<forall>m' \<in> set ?ms. nd_id m = nd_id m' \<longrightarrow> m = m'"
  proof (intro ballI impI)
    fix m m' assume m: "m \<in> set ?ms" "m' \<in> set ?ms" "nd_id m = nd_id m'"
    then obtain so so' where so: "so \<in> set (p_ops p)" "m = p_heap p ! so_node so" "so' \<in> set (p_ops p)" "m' = p_heap p ! so_node so'"
      by auto
    with id m(3) have "map nd_id H0 ! so_node so = map nd_id H0 ! so_node so'" by simp
    then have "so_node so = so_node so'" using dist id(2) so by (metis nth_eq_iff_index_eq length_map)
    then show "m = m'" using so by simp
  qed
  have db': "w_db w' = fold (mongo_node_updateBlocks E) ?ms (w_db w)" by (simp add: w' run_senders_frame [OF rs(1)])
  note up = updateBlocks_fold [OF wf ex same, folded db']
  then have N': "meta_nodes (docs (w_db w')) = {n \<in> ?N. nd_id n \<notin> nd_id ` set ?ms} \<union> set ?ms"
    and rest: "meta_dirs (docs (w_db w')) = meta_dirs (docs (w_db w))" "meta_files (docs (w_db w')) = meta_files (docs (w_db w))"
      "meta_wf (docs (w_db w')) (uniq (w_db w'))"
    by (simp_all add: meta_def)
  have ids: "nd_id ` meta_nodes (docs (w_db w')) = nd_id ` ?N"
  proof -
    have "nd_id ` set ?ms \<subseteq> nd_id ` ?N" using ex by (metis (no_types, lifting) image_subset_iff rev_image_eqI)
    moreover have "nd_id ` {n \<in> ?N. nd_id n \<notin> K} = nd_id ` ?N - K" for K by auto
    ultimately show ?thesis unfolding N' image_Un by blast
  qed
  have "\<exists>n' \<in> meta_nodes (docs (w_db w')). nd_id n' = nd_id n \<and> nd_blocksCount n' = nd_blocksCount n \<and> node_wf n' \<and>
      node_freeBlocks E n' = node_freeBlocks E n - used_by (map (copy_of H0) (p_ops p)) (nd_id n)" if n: "n \<in> ?N" for n
  proof (cases "nd_id n \<in> nd_id ` set ?ms")
    case False
    have "used_by (map (copy_of H0) (p_ops p)) (nd_id n) = {}"
    proof -
      have "Some (fb_nodeId (copy_of H0 so)) \<noteq> nd_id n" if so: "so \<in> set (p_ops p)" for so
        using False op_node(2) [OF H0 inv so] id(1) [OF so] so by (force simp: image_iff)
      then show ?thesis by (auto simp: used_by_def)
    qed
    then show ?thesis using n False nwf unfolding N' by (intro bexI [of _ n]) auto
  next
    case True
    then obtain so where so: "so \<in> set (p_ops p)" "nd_id n = nd_id (p_heap p ! so_node so)" by auto
    let ?a = "so_node so"
    have a: "?a < length H0" using id(2) so(1) by blast
    have n0: "n = H0 ! ?a"
      using mon.node_unique [OF wf n op_node(1) [OF H0 inv so(1)]] so id(1) by simp
    have "used_by (map (copy_of H0) (p_ops p)) (nd_id n) = taken (p_ops p) ?a"
    proof (rule used_by_map)
      fix so' assume so': "so' \<in> set (p_ops p)"
      have "Some (fb_nodeId (copy_of H0 so')) = nd_id n \<longleftrightarrow> so_node so' = ?a"
        using op_node(2) [OF H0 inv so(1)] n0 copy_of_inj(1) [OF H0 dist inv so' so(1)] by simp
      with op_node(4) [OF H0 inv so'] show "unat (fb_blockIndex (copy_of H0 so')) = nat (so_blockIndex so') \<and>
        (Some (fb_nodeId (copy_of H0 so')) = nd_id n \<longleftrightarrow> so_node so' = ?a)" by simp
    qed
    moreover have "p_heap p ! ?a \<in> meta_nodes (docs (w_db w'))" unfolding N' using so(1) by auto
    ultimately show ?thesis using inv a n0 by (intro bexI [of _ "p_heap p ! ?a"]) (auto simp: heap_inv_def)
  qed
  with rest ids show ?thesis unfolding new by blast
qed

lemma distribute_sends:
  assumes os: "stream_os (e_os E) inp out"
    and wf: "meta_wf (docs (w_db w)) (uniq (w_db w))" and nwf: "\<forall>n \<in> meta_nodes (docs (w_db w)). node_wf n"
    and run: "filesystem_distributeBlocksToNodes E schedule blocks file w = Some (True, file', w')"
  shows "\<exists>sent. mset sent = mset (concat (map2 (\<lambda>b cs. map (Pair b) cs) blocks (new_copies file file'))) \<and>
    (\<forall>k. out (w_net w') k = out (w_net w) k @
      concat (map (\<lambda>(b, c). set_block_bytes (int (unat (fb_blockIndex c))) b)
        (filter (\<lambda>(b, c). map_option nc_socket (map_of (w_active w) (fb_nodeId c)) = Some k) sent)))"
proof -
  obtain H0 and p :: plan and G s where H0: "set H0 = {n \<in> meta_nodes (docs (w_db w)). \<exists>i. nd_id n = Some i \<and> connections_node_isActiveNode i w}"
    and dist: "distinct (map nd_id H0)" and inv: "heap_inv E H0 (p_heap p) (p_ops p)"
    and G: "p_ops p = concat G" "list_all2 group_ok blocks G"
    and f': "file' = file\<lparr>file_blocks := file_blocks file @ map (map (copy_of H0)) G\<rparr>"
    and rs: "run_senders E (p_heap p) (p_ops p) schedule w = Some s" "\<not> s_failed s"
    and w': "w' = (s_world s)\<lparr>w_db := fold (mongo_node_updateBlocks E) (map (\<lambda>so. p_heap p ! so_node so) (p_ops p))
      (w_db (s_world s))\<rparr>"
    by (rule distribute_success [OF wf nwf run])
  obtain ops' where ops': "mset ops' = mset (p_ops p)" "\<forall>k. out (w_net (s_world s)) k = out (w_net w) k @
       concat (map op_bytes (filter (\<lambda>so. op_socket (w_active w) (p_heap p) so = Some k) ops'))"
    using run_senders_all [OF os rs] by blast
  let ?f = "\<lambda>so. (so_block so, copy_of H0 so)"
  have set: "set ops' = set (p_ops p)" using ops'(1) by (rule mset_eq_setD)
  have "mset (map ?f ops') = mset (map ?f (p_ops p))" using ops'(1) by (rule mset_eq_map)
  also have "map ?f (p_ops p) = concat (map2 (\<lambda>b cs. map (Pair b) cs) blocks (new_copies file file'))"
    unfolding G(1) blocks_of_groups [OF G(2)] by (simp add: new_copies_def f')
  finally have m: "mset (map ?f ops') = mset (concat (map2 (\<lambda>b cs. map (Pair b) cs) blocks (new_copies file file')))" .
  have sock: "op_socket (w_active w) (p_heap p) so = map_option nc_socket (map_of (w_active w) (fb_nodeId (copy_of H0 so)))"
    and bytes: "op_bytes so = set_block_bytes (int (unat (fb_blockIndex (copy_of H0 so)))) (so_block so)"
    if so: "so \<in> set ops'" for so
  proof -
    have so': "so \<in> set (p_ops p)" using so set by simp
    have "nd_id (p_heap p ! so_node so) = nd_id (H0 ! so_node so)" using inv so' by (auto simp: heap_inv_def)
    then show "op_socket (w_active w) (p_heap p) so = map_option nc_socket (map_of (w_active w) (fb_nodeId (copy_of H0 so)))"
      using op_node(2) [OF H0 inv so'] by (simp add: op_socket_def)
    show "op_bytes so = set_block_bytes (int (unat (fb_blockIndex (copy_of H0 so)))) (so_block so)"
      using op_node(5) [OF H0 inv so'] by (simp add: op_bytes_def)
  qed
  have "out (w_net w') k = out (w_net w) k @
      concat (map (\<lambda>(b, c). set_block_bytes (int (unat (fb_blockIndex c))) b)
        (filter (\<lambda>(b, c). map_option nc_socket (map_of (w_active w) (fb_nodeId c)) = Some k) (map ?f ops')))" for k
  proof -
    have "concat (map op_bytes (filter (\<lambda>so. op_socket (w_active w) (p_heap p) so = Some k) ops')) =
        concat (map (\<lambda>so. set_block_bytes (int (unat (fb_blockIndex (copy_of H0 so)))) (so_block so))
          (filter (\<lambda>so. map_option nc_socket (map_of (w_active w) (fb_nodeId (copy_of H0 so))) = Some k) ops'))"
      using sock bytes by (intro arg_cong [where f = concat] map_cong filter_cong) auto
    then show ?thesis using ops'(2) by (simp add: w' filter_map comp_def)
  qed
  with m show ?thesis by blast
qed

end

section \<open>Distribution returns, and succeeds when there is room\<close>

lemma sendBlock_reliable:
  assumes os: "reliable_os (e_os E) inp out" and i: "nd_id (op_node so) = Some i" and c: "map_of (w_active w) i = Some c"
  shows "\<exists>w'. connections_node_sendBlock E so w = Some (True, w')"
proof -
  obtain r w' where run: "connections_node_sendBlock E so w = Some (r, w')"
    using sendBlock_total [OF i] by blast
  have ok: "fst (w_send_packet E s p v) = SOCKET_ERROR_NONE" for s p and v :: "('a, 'b) world"
  proof -
    obtain n' where "socket_send_packet (e_os E) s (Some p) (w_net v) = (SOCKET_ERROR_NONE, n')"
      using reliable_os.send_packet_reliable [OF os, of s p "w_net v"] by (elim exE conjE) (rule that)
    then show ?thesis by (simp add: w_send_packet_def)
  qed
  let ?w1 = "connections_node_getNodeMutex i w"
  obtain w2 where 2: "w_send_packet E (nc_socket c)
      (COMMAND_FS_TO_NODE_SET_BLOCK # be16 (word_of_int (op_blockIndex so))) ?w1 = (SOCKET_ERROR_NONE, w2)"
    using ok by (metis prod.collapse)
  obtain w3 where 3: "w_send_packet E (nc_socket c) (takeWhile (\<lambda>b. b \<noteq> 0) (op_block so)) w2 = (SOCKET_ERROR_NONE, w3)"
    using ok by (metis prod.collapse)
  have "connections_node_sendBlock E so w = Some (True, w3)"
    using i c 2 3 by (simp add: connections_node_sendBlock_def connections_node_getActiveNodeConnection_def)
  then show ?thesis ..
qed

lemma run_senders_total:
  assumes "\<forall>so \<in> set ops. nd_id (H ! so_node so) \<noteq> None"
  shows "\<exists>s. run_senders E H ops schedule w = Some s"
proof -
  have "\<exists>s'. fold_opt (sender_step E H ops) ts s = Some s'" if "length (s_threads s) = length ops" for ts s
    using that
  proof (induction ts arbitrary: s)
    case (Cons t ts)
    have "\<exists>s1. sender_step E H ops t s = Some s1"
    proof (cases "t < length ops \<and> s_threads s ! t = Going")
      case True
      then obtain i where "nd_id (op_node (deref H (ops ! t))) = Some i"
        using assms by (fastforce simp: deref_def filesystem_nodeBlockSendOperation_create_def)
      from sendBlock_total [OF this] obtain r w' where
        "connections_node_sendBlock E (deref H (ops ! t)) (s_world s) = Some (r, w')" by blast
      with True Cons.prems show ?thesis by (simp add: sender_step_def filesystem_sendBlockToNode_def)
    next
      case False
      then show ?thesis using Cons.prems by (auto simp: sender_step_def split: thread.splits)
    qed
    then obtain s1 where "sender_step E H ops t s = Some s1" ..
    with Cons.IH sender_step_length [OF this] Cons.prems show ?case by simp
  qed simp
  then show ?thesis by (simp add: run_senders_def)
qed

text \<open>With a reliable network and every node active, no thread fails.\<close>

lemma run_senders_succeed:
  assumes os: "reliable_os (e_os E) inp out" and act: "\<forall>so \<in> set ops. op_socket (w_active w) H so \<noteq> None"
    and run: "run_senders E H ops schedule w = Some s"
  shows "\<not> s_failed s"
proof -
  have "\<not> s_failed s \<and> w_active (s_world s) = w_active w \<and> length (s_threads s) = length ops"
  proof (rule fold_opt_inv [OF run [unfolded run_senders_def]])
    fix t and s s' :: "('a, 'b) senders" assume st: "sender_step E H ops t s = Some s'"
      and inv: "\<not> s_failed s \<and> w_active (s_world s) = w_active w \<and> length (s_threads s) = length ops"
    show "\<not> s_failed s' \<and> w_active (s_world s') = w_active w \<and> length (s_threads s') = length ops"
    proof (cases "t < length ops \<and> s_threads s ! t = Going")
      case False
      then show ?thesis using st inv by (auto simp: sender_step_def split: thread.splits if_splits)
    next
      case True
      then have so: "ops ! t \<in> set ops" by simp
      then obtain i c where i: "nd_id (H ! so_node (ops ! t)) = Some i" "map_of (w_active w) i = Some c"
        using act by (fastforce simp: op_socket_def split: option.splits)
      have "nd_id (op_node (deref H (ops ! t))) = Some i" "map_of (w_active (s_world s)) i = Some c"
        using i inv by (simp_all add: deref_def filesystem_nodeBlockSendOperation_create_def)
      from sendBlock_reliable [OF os this] obtain w' where
        send: "connections_node_sendBlock E (deref H (ops ! t)) (s_world s) = Some (True, w')" by blast
      then have "s' = s\<lparr>s_world := w', s_failed := s_failed s \<or> \<not> True, s_threads := (s_threads s)[t := Done]\<rparr>"
        using st True inv by (simp add: sender_step_def filesystem_sendBlockToNode_def)
      with inv sendBlock_frame [OF send] show ?thesis by auto
    qed
  qed simp
  then show ?thesis by blast
qed

lemma distribute_failure:
  assumes "filesystem_distributeBlocksToNodes E schedule blocks file w = Some (False, file', w')"
  shows "w_db w' = w_db w \<and> w_local w' = w_local w \<and> w_standby w' = w_standby w"
  using assms
  by (auto simp: filesystem_distributeBlocksToNodes_def Let_def bind_eq_Some_conv split: if_splits
      dest!: run_senders_frame)

context fs_laws begin

lemma place_copies_total:
  assumes "\<forall>a \<in> set (p_order p). nd_id (p_heap p ! a) \<noteq> None"
  shows "\<exists>p'. place_copies E block is p = Some p'"
  using assms
proof (induction "is" arbitrary: p)
  case (Cons i "is")
  let ?a = "p_order p ! i" and ?b = "node_getFirstFreeBlock E (p_heap p ! (p_order p ! i))"
  show ?case
  proof (cases "i < length (p_order p) \<and> ?b \<noteq> -1")
    case False
    then show ?thesis by (auto simp: Let_def)
  next
    case True
    then obtain nid where nid: "nd_id (p_heap p ! ?a) = Some nid" using Cons.prems by fastforce
    let ?H = "(p_heap p)[?a := node_setBlockUsed E (p_heap p ! ?a) ?b]"
    have "nd_id (?H ! a) = nd_id (p_heap p ! a)" for a
      by (cases "?a < length (p_heap p)")
        (simp add: nth_list_update, simp add: list_update_beyond not_less)
    then have "\<forall>a \<in> set (p_order p). nd_id (?H ! a) \<noteq> None" using Cons.prems by simp
    with Cons.IH [of "p\<lparr>p_heap := ?H, p_ops := p_ops p @ [\<lparr>so_node = ?a, so_blockIndex = ?b, so_block = block\<rparr>],
        p_blocks := butlast (p_blocks p) @ [last (p_blocks p) @ [\<lparr>fb_nodeId = nid, fb_blockIndex = word_of_int ?b\<rparr>]]\<rparr>"]
    show ?thesis using True nid by (simp add: Let_def)
  qed
qed simp

lemma place_copies_room:
  assumes "\<forall>i \<in> set is. i < length (p_order p) \<and> p_order p ! i < length (p_heap p) \<and>
      node_freeBlocks E (p_heap p ! (p_order p ! i)) \<noteq> {}"
    and "distinct (map ((!) (p_order p)) is)" and "p_success p" and "place_copies E block is p = Some p'"
  shows "p_success p'"
  using assms
proof (induction "is" arbitrary: p)
  case (Cons i "is")
  let ?a = "p_order p ! i" and ?b = "node_getFirstFreeBlock E (p_heap p ! (p_order p ! i))"
  have b: "?b \<noteq> -1" and i: "i < length (p_order p)"
    using Cons.prems(1) by (simp_all add: node_getFirstFreeBlock_None)
  let ?H = "(p_heap p)[?a := node_setBlockUsed E (p_heap p ! ?a) ?b]"
  from b i Cons.prems(4) obtain nid where run: "place_copies E block is
      (p\<lparr>p_heap := ?H, p_ops := p_ops p @ [\<lparr>so_node = ?a, so_blockIndex = ?b, so_block = block\<rparr>],
        p_blocks := butlast (p_blocks p) @ [last (p_blocks p) @ [\<lparr>fb_nodeId = nid, fb_blockIndex = word_of_int ?b\<rparr>]]\<rparr>) = Some p'"
    by (auto simp: Let_def bind_eq_Some_conv)
  have "?H ! (p_order p ! j) = p_heap p ! (p_order p ! j)" if "j \<in> set is" for j
    using Cons.prems(2) that by (intro nth_list_update_neq) auto
  then show ?case
    using Cons.prems(1-3) by (intro Cons.IH [OF _ _ _ run]) simp_all
qed simp

lemma createSendOperations_total:
  assumes inv: "plan_inv E H0 B0 blocks p" and ids: "\<forall>n \<in> set H0. nd_id n \<noteq> None"
  shows "\<exists>p'. createSendOperations E block p = Some p'"
proof (cases "p_success p")
  case True
  let ?o = "e_sort E (\<lambda>a b. filesystem_nodeComparatorByBlocksFree E (p_heap p ! a) (p_heap p ! b)) (p_order p)"
  have "\<forall>a \<in> set ?o. nd_id (p_heap p ! a) \<noteq> None"
    using inv ids by (auto simp: srt.sort_set plan_inv_def heap_inv_def)
  with True show ?thesis
    using place_copies_total [of "p\<lparr>p_blocks := p_blocks p @ [[]], p_order := ?o\<rparr>"]
    by (simp add: createSendOperations_def)
qed (simp add: createSendOperations_def)

lemma plan_total:
  "plan_inv E H0 B0 blocks p \<Longrightarrow> \<forall>n \<in> set H0. nd_id n \<noteq> None \<Longrightarrow>
     \<exists>p'. fold_opt (createSendOperations E) todo p = Some p'"
proof (induction todo arbitrary: blocks p)
  case (Cons b todo)
  obtain p1 where p1: "createSendOperations E b p = Some p1"
    using createSendOperations_total [OF Cons.prems] by blast
  from Cons.IH [OF createSendOperations_inv [OF Cons.prems(1) p1] Cons.prems(2)] p1 show ?case by simp
qed simp

text \<open>Each block takes at most one block of a node.\<close>

lemma card_taken_groups:
  "list_all2 group_ok blocks G \<Longrightarrow> finite (taken (concat G) a) \<and> card (taken (concat G) a) \<le> length blocks"
proof (induction rule: list_all2_induct)
  case Nil
  then show ?case by (simp add: taken_def)
next
  case (Cons b bs g G)
  have T: "taken (concat (g # G)) a = taken g a \<union> taken (concat G) a" by (auto simp: taken_def)
  have one: "finite (taken g a) \<and> card (taken g a) \<le> 1"
  proof (cases "\<exists>so \<in> set g. so_node so = a")
    case True
    then obtain so where so: "so \<in> set g" "so_node so = a" by blast
    have d: "distinct (map so_node g)" using Cons.hyps(1) by (simp add: group_ok_def)
    have one: "so' = so" if "so' \<in> set g" "so_node so' = a" for so'
      using d so that by (auto simp: distinct_map inj_on_def)
    have sub: "taken g a \<subseteq> {nat (so_blockIndex so)}"
    proof
      fix x assume "x \<in> taken g a"
      then obtain so' where "x = nat (so_blockIndex so')" "so' \<in> set g" "so_node so' = a"
        by (auto simp: taken_def)
      with one [of so'] show "x \<in> {nat (so_blockIndex so)}" by simp
    qed
    show ?thesis using finite_subset [OF sub] card_mono [OF _ sub] by simp
  next
    case False
    then have "taken g a = {}" by (auto simp: taken_def)
    then show ?thesis by simp
  qed
  have "card (taken g a \<union> taken (concat G) a) \<le> card (taken g a) + card (taken (concat G) a)"
    by (rule card_Un_le)
  with one Cons.IH show ?case unfolding T by simp
qed

lemma createSendOperations_room:
  assumes inv: "plan_inv E H0 B0 blocks p" and s: "p_success p" and nodes: "FILESYSTEM_BLOCK_COPIES \<le> length H0"
    and room: "\<forall>n \<in> set H0. length blocks < node_getBlocksFreeCount E n"
    and run: "createSendOperations E block p = Some p'"
  shows "p_success p'"
proof -
  let ?cmp = "\<lambda>a b. filesystem_nodeComparatorByBlocksFree E (p_heap p ! a) (p_heap p ! b)"
  let ?o = "e_sort E ?cmp (p_order p)"
  obtain G where G: "p_ops p = concat G" "list_all2 group_ok blocks G"
    using inv s by (auto simp: plan_inv_def)
  have o: "set ?o = {..<length H0}" "distinct ?o"
    using inv srt.sort_set [of ?cmp "p_order p"] srt.sort_distinct_map [of id ?cmp "p_order p"]
    by (simp_all add: plan_inv_def)
  then have len: "length ?o = length H0" using distinct_card by fastforce
  have free: "node_freeBlocks E (p_heap p ! a) \<noteq> {}" if a: "a < length H0" for a
  proof -
    have "card (taken (p_ops p) a) < card (node_freeBlocks E (H0 ! a))"
    proof -
      have "length blocks < node_getBlocksFreeCount E (H0 ! a)" using room a by simp
      then show ?thesis using card_taken_groups [OF G(2), of a] by (simp add: G(1) node_getBlocksFreeCount_card)
    qed
    moreover have "finite (taken (p_ops p) a)" using card_taken_groups [OF G(2)] by (simp add: G(1))
    ultimately have "node_freeBlocks E (H0 ! a) - taken (p_ops p) a \<noteq> {}"
      by (metis Diff_eq_empty_iff card_mono leD)
    then show ?thesis using inv a by (simp add: plan_inv_def heap_inv_def)
  qed
  have "p_success p'"
  proof (rule place_copies_room)
    show "place_copies E block [0..<FILESYSTEM_BLOCK_COPIES] (p\<lparr>p_blocks := p_blocks p @ [[]], p_order := ?o\<rparr>) = Some p'"
      using run s by (simp add: createSendOperations_def)
    show "distinct (map ((!) (p_order (p\<lparr>p_blocks := p_blocks p @ [[]], p_order := ?o\<rparr>))) [0..<FILESYSTEM_BLOCK_COPIES])"
      using o(2) nodes len by (simp add: distinct_map inj_on_def nth_eq_iff_index_eq)
    show "\<forall>i \<in> set [0..<FILESYSTEM_BLOCK_COPIES]. i < length (p_order (p\<lparr>p_blocks := p_blocks p @ [[]], p_order := ?o\<rparr>)) \<and>
        p_order (p\<lparr>p_blocks := p_blocks p @ [[]], p_order := ?o\<rparr>) ! i < length (p_heap (p\<lparr>p_blocks := p_blocks p @ [[]], p_order := ?o\<rparr>)) \<and>
        node_freeBlocks E (p_heap (p\<lparr>p_blocks := p_blocks p @ [[]], p_order := ?o\<rparr>) !
          (p_order (p\<lparr>p_blocks := p_blocks p @ [[]], p_order := ?o\<rparr>) ! i)) \<noteq> {}"
    proof
      fix i assume "i \<in> set [0..<FILESYSTEM_BLOCK_COPIES]"
      then have i: "i < length ?o" using nodes len by simp
      then have "?o ! i < length H0" using o(1) nth_mem by blast
      then show "i < length (p_order (p\<lparr>p_blocks := p_blocks p @ [[]], p_order := ?o\<rparr>)) \<and>
        p_order (p\<lparr>p_blocks := p_blocks p @ [[]], p_order := ?o\<rparr>) ! i < length (p_heap (p\<lparr>p_blocks := p_blocks p @ [[]], p_order := ?o\<rparr>)) \<and>
        node_freeBlocks E (p_heap (p\<lparr>p_blocks := p_blocks p @ [[]], p_order := ?o\<rparr>) !
          (p_order (p\<lparr>p_blocks := p_blocks p @ [[]], p_order := ?o\<rparr>) ! i)) \<noteq> {}"
        using i free inv by (simp add: plan_inv_def heap_inv_def)
    qed
  qed (use s in simp)
  then show ?thesis .
qed

lemma plan_room:
  "plan_inv E H0 B0 blocks p \<Longrightarrow> p_success p \<Longrightarrow> FILESYSTEM_BLOCK_COPIES \<le> length H0 \<Longrightarrow>
     \<forall>n \<in> set H0. length blocks + length todo \<le> node_getBlocksFreeCount E n \<Longrightarrow>
     fold_opt (createSendOperations E) todo p = Some p' \<Longrightarrow> p_success p'"
proof (induction todo arbitrary: blocks p)
  case (Cons b todo)
  then obtain p1 where p1: "createSendOperations E b p = Some p1" "fold_opt (createSendOperations E) todo p1 = Some p'"
    by (auto simp: bind_eq_Some_conv)
  have "\<forall>n \<in> set H0. length blocks < node_getBlocksFreeCount E n" using Cons.prems(4) by fastforce
  from createSendOperations_room [OF Cons.prems(1-3) this p1(1)]
  show ?case using Cons.IH [OF createSendOperations_inv [OF Cons.prems(1) p1(1)] _ Cons.prems(3) _ p1(2)] Cons.prems(4)
    by simp
qed simp

end

context fs_laws begin

lemma distribute_returns:
  assumes wf: "meta_wf (docs (w_db w)) (uniq (w_db w))" and nwf: "\<forall>n \<in> meta_nodes (docs (w_db w)). node_wf n"
  shows "\<exists>r file' w'. filesystem_distributeBlocksToNodes E schedule blocks file w = Some (r, file', w')"
proof -
  obtain H0 where H0: "filesystem_getAllActivatedNodes E w = Some H0"
    "set H0 = {n \<in> meta_nodes (docs (w_db w)). \<exists>i. nd_id n = Some i \<and> connections_node_isActiveNode i w}"
    using getAllActivatedNodes_spec [OF wf] by blast
  have start: "plan_inv E H0 (file_blocks file) [] (plan_start H0 file)"
    using nwf H0(2) by (intro plan_inv_start) auto
  have "\<forall>n \<in> set H0. nd_id n \<noteq> None" unfolding H0(2) by auto
  then obtain p where p: "fold_opt (createSendOperations E) blocks (plan_start H0 file) = Some p"
    using plan_total [OF start] by blast
  have "heap_inv E H0 (p_heap p) (p_ops p)"
    using plan_inv_fold [OF p start] by (simp add: plan_inv_def)
  then have "\<forall>so \<in> set (p_ops p). nd_id (p_heap p ! so_node so) \<noteq> None"
    using \<open>\<forall>n \<in> set H0. nd_id n \<noteq> None\<close> by (auto simp: heap_inv_def)
  then obtain s where "run_senders E (p_heap p) (p_ops p) schedule w = Some s"
    using run_senders_total by blast
  with H0(1) p show ?thesis by (cases "p_success p") (auto simp: filesystem_distributeBlocksToNodes_def Let_def)
qed

lemma distribute_succeeds:
  assumes os: "reliable_os (e_os E) inp out"
    and wf: "meta_wf (docs (w_db w)) (uniq (w_db w))" and nwf: "\<forall>n \<in> meta_nodes (docs (w_db w)). node_wf n"
    and three: "FILESYSTEM_BLOCK_COPIES \<le>
      card {n \<in> meta_nodes (docs (w_db w)). \<exists>i. nd_id n = Some i \<and> connections_node_isActiveNode i w}"
    and room: "\<forall>n \<in> meta_nodes (docs (w_db w)). length blocks \<le> node_getBlocksFreeCount E n"
  shows "\<exists>file' w'. filesystem_distributeBlocksToNodes E schedule blocks file w = Some (True, file', w')"
proof -
  obtain H0 where H0: "filesystem_getAllActivatedNodes E w = Some H0" "distinct (map nd_id H0)"
    "set H0 = {n \<in> meta_nodes (docs (w_db w)). \<exists>i. nd_id n = Some i \<and> connections_node_isActiveNode i w}"
    using getAllActivatedNodes_spec [OF wf] by blast
  have len: "FILESYSTEM_BLOCK_COPIES \<le> length H0"
    using three H0(2) unfolding H0(3) [symmetric] by (simp add: distinct_card distinct_map)
  have start: "plan_inv E H0 (file_blocks file) [] (plan_start H0 file)"
    using nwf H0(3) by (intro plan_inv_start) auto
  have ids: "\<forall>n \<in> set H0. nd_id n \<noteq> None" unfolding H0(3) by auto
  obtain p where p: "fold_opt (createSendOperations E) blocks (plan_start H0 file) = Some p"
    using plan_total [OF start ids] by blast
  have s: "p_success p"
    by (rule plan_room [OF start _ len _ p]) (use room H0(3) in \<open>simp_all add: plan_start_def\<close>)
  have inv: "heap_inv E H0 (p_heap p) (p_ops p)"
    using plan_inv_fold [OF p start] by (simp add: plan_inv_def)
  have id: "nd_id (p_heap p ! so_node so) = nd_id (H0 ! so_node so)" if "so \<in> set (p_ops p)" for so
    using inv that by (auto simp: heap_inv_def)
  have "\<forall>so \<in> set (p_ops p). nd_id (p_heap p ! so_node so) \<noteq> None"
    using id op_node(2) [OF H0(3) inv] by simp
  then obtain t where t: "run_senders E (p_heap p) (p_ops p) schedule w = Some t"
    using run_senders_total by blast
  have "\<forall>so \<in> set (p_ops p). op_socket (w_active w) (p_heap p) so \<noteq> None"
    using id op_node(2,3) [OF H0(3) inv]
    by (simp add: op_socket_def connections_node_isActiveNode_def connections_node_getActiveNodeConnection_def)
  from run_senders_succeed [OF os this t] H0(1) p s t show ?thesis
    by (simp add: filesystem_distributeBlocksToNodes_def Let_def)
qed

end

section \<open>Three nodes\<close>

definition three_nodes :: "node_t list" where
  "three_nodes = map (\<lambda>i. (node_create 4)\<lparr>nd_id := Some i\<rparr>) [''n1'', ''n2'', ''n3'']"

definition three_db :: lstore where
  "three_db = demo_db\<lparr>ls_docs := (ls_docs demo_db)(NodeColl := map node_getBSON three_nodes)\<rparr>"

definition three_world :: "(chunk_net, lstore) world" where
  "three_world = world0\<lparr>w_db := three_db,
     w_active := map (\<lambda>(i, s). (i, \<lparr>nc_socket = s, nc_ip = ''10.0.0.1'', nc_listenPort = Some 3000\<rparr>))
       [(''n1'', 11), (''n2'', 12), (''n3'', 13)]\<rparr>"

lemma three_view [simp]:
  "ls_view three_db DirColl = map dir_getBSON demo_dirs"
  "ls_view three_db FileColl = map file_getBSON demo_files"
  "ls_view three_db NodeColl = map node_getBSON three_nodes"
  using demo_view
  by (simp_all add: three_db_def ls_view_def three_nodes_def fits_def bson_utf8_def demo_db_def)

lemma three_ok: "\<forall>d \<in> set demo_dirs. dir_ok d" "\<forall>f \<in> set demo_files. file_ok f" "\<forall>n \<in> set three_nodes. node_ok n"
  "\<forall>n \<in> set three_nodes. node_wf n"
  using node_wf_create [of 4]
  by (simp_all add: demo_dirs_def demo_files_def three_nodes_def dir_ok_def file_ok_def node_ok_def
      id_ok_def ID_SIZE_def node_wf_def)

lemma three_meta [simp]:
  "meta_dirs (\<lambda>c. set (ls_view three_db c)) = set demo_dirs"
  "meta_files (\<lambda>c. set (ls_view three_db c)) = set demo_files"
  "meta_nodes (\<lambda>c. set (ls_view three_db c)) = set three_nodes"
  unfolding meta_dirs_def meta_files_def meta_nodes_def three_view set_map
  by (rule elems_image [OF three_ok(1) dir_codec.bson_codec_axioms]
      elems_image [OF three_ok(2) file_codec.bson_codec_axioms]
      elems_image [OF three_ok(3) node_codec.bson_codec_axioms])+

lemma three_wf: "meta_wf (\<lambda>c. set (ls_view three_db c)) (ls_uniq three_db)"
proof -
  have u: "ls_uniq three_db = (\<lambda>c. c \<noteq> NodeColl)" by (simp add: three_db_def demo_db_def)
  show ?thesis using three_ok by (auto simp: meta_wf_def typed_def u)
qed

lemma three_w [simp]: "w_db three_world = three_db"
  by (simp add: three_world_def)

lemma three_active: "n \<in> set three_nodes \<Longrightarrow> \<exists>i. nd_id n = Some i \<and> connections_node_isActiveNode i three_world"
proof -
  have "connections_node_isActiveNode i three_world" if "i \<in> set [''n1'', ''n2'', ''n3'']" for i
  proof -
    have "map_of (w_active three_world) ''n1'' \<noteq> None" "map_of (w_active three_world) ''n2'' \<noteq> None"
      "map_of (w_active three_world) ''n3'' \<noteq> None" by (simp_all add: three_world_def)
    then show ?thesis
      using that unfolding connections_node_isActiveNode_def connections_node_getActiveNodeConnection_def
      by (elim set_ConsD [elim_format] disjE) simp_all
  qed
  moreover assume "n \<in> set three_nodes"
  then obtain i where "i \<in> set [''n1'', ''n2'', ''n3'']" "nd_id n = Some i"
    unfolding three_nodes_def set_map by (elim imageE) simp
  ultimately show ?thesis by blast
qed

lemma three_count: "FILESYSTEM_BLOCK_COPIES \<le>
    card {n \<in> set three_nodes. \<exists>i. nd_id n = Some i \<and> connections_node_isActiveNode i three_world}"
proof -
  have "{n \<in> set three_nodes. \<exists>i. nd_id n = Some i \<and> connections_node_isActiveNode i three_world} = set three_nodes"
    using three_active by blast
  moreover have "distinct three_nodes" by (simp add: three_nodes_def node_create_def)
  ultimately show ?thesis by (simp add: distinct_card FILESYSTEM_BLOCK_COPIES_def) (simp add: three_nodes_def)
qed

lemma three_room: "\<forall>n \<in> set three_nodes. node_getBlocksFreeCount (fs_env le) n = 4"
proof
  fix n assume "n \<in> set three_nodes"
  then have "nd_blocks n = nd_blocks (node_create 4)" "nd_blocksCount n = 4"
    by (auto simp: three_nodes_def node_create_def)
  then have "node_freeBlocks (fs_env le) n = {..<4}"
    using fsenv_commons.node_freeBlocks_zeros [of n le] by (simp add: node_create_def)
  then show "node_getBlocksFreeCount (fs_env le) n = 4" by (simp add: node_getBlocksFreeCount_card)
qed

lemma chunk_reliable_env: "reliable_os (e_os (fs_env le)) fst snd"
  using chunk.reliable_os_axioms by (simp add: fs_env_def)

text \<open>A distribution of two blocks over the three nodes succeeds, under any schedule.\<close>

lemma three_run:
  "\<exists>file' w'. filesystem_distributeBlocksToNodes (fs_env True) schedule [[65, 10], [66]] file_create three_world =
     Some (True, file', w')"
  by (rule fsenv.distribute_succeeds [OF chunk_reliable_env])
    (use three_wf three_ok(4) three_count three_room in simp_all)

section \<open>Properties of the distribution\<close>

text \<open>C1. Three copies, never on top of anything. When \<open>filesystem_distributeBlocksToNodes\<close>
  returns true, every block of the text has exactly three copies on three different nodes, no
  block of any node is used twice, and each one was free, below the node's block count, on a
  node that was active. The blocks the file had before stay.\<close>

theorem distribute_three_free_copies:
  assumes "fs_laws E docs uniq" and "meta_wf (docs (w_db w)) (uniq (w_db w))"
    and "\<forall>n \<in> meta_nodes (docs (w_db w)). node_wf n"
    and "filesystem_distributeBlocksToNodes E schedule blocks file w = Some (True, file', w')"
  shows "file' = file\<lparr>file_blocks := file_blocks file @ new_copies file file'\<rparr> \<and>
    length (new_copies file file') = length blocks \<and>
    (\<forall>cs \<in> set (new_copies file file'). length cs = 3 \<and> distinct (map fb_nodeId cs)) \<and>
    distinct (concat (new_copies file file')) \<and>
    (\<forall>c \<in> set (concat (new_copies file file')). \<exists>n \<in> meta_nodes (docs (w_db w)). nd_id n = Some (fb_nodeId c) \<and>
      connections_node_isActiveNode (fb_nodeId c) w \<and> unat (fb_blockIndex c) \<in> node_freeBlocks E n)"
  by (rule fs_laws.distribute_places [OF assms])

theorem distribute_three_free_copies_witness:
  "\<exists>file' w'. filesystem_distributeBlocksToNodes (fs_env True) [3, 1] [[65, 10], [66]] file_create three_world =
      Some (True, file', w') \<and> length (file_blocks file') = 2 \<and> (\<forall>cs \<in> set (file_blocks file'). length cs = 3)"
proof -
  obtain file' w' where run: "filesystem_distributeBlocksToNodes (fs_env True) [3, 1] [[65, 10], [66]] file_create three_world =
      Some (True, file', w')" using three_run by blast
  have "file' = file_create\<lparr>file_blocks := file_blocks file_create @ new_copies file_create file'\<rparr> \<and>
      length (new_copies file_create file') = length [[65, 10], [66 :: byte]] \<and>
      (\<forall>cs \<in> set (new_copies file_create file'). length cs = 3 \<and> distinct (map fb_nodeId cs))"
    using distribute_three_free_copies [OF fsenv.fs_laws_axioms _ _ run] three_wf three_ok(4) by simp
  then have "file_blocks file' = new_copies file_create file'" "length (new_copies file_create file') = 2"
    "\<forall>cs \<in> set (new_copies file_create file'). length cs = 3"
    by (simp_all add: new_copies_def file_create_def)
  with run show ?thesis by (intro exI [of _ file'] exI [of _ w']) simp
qed

text \<open>C31. The stored bitmaps agree with the plan. After a successful distribution the database
  has the same directories, files and nodes, and on every node exactly the blocks that the new
  copies use are no longer free, although several operations on one node write its record.\<close>

theorem distribute_marks_exactly_the_copies:
  assumes "fs_laws E docs uniq" and "meta_wf (docs (w_db w)) (uniq (w_db w))"
    and "\<forall>n \<in> meta_nodes (docs (w_db w)). node_wf n"
    and "filesystem_distributeBlocksToNodes E schedule blocks file w = Some (True, file', w')"
  shows "meta_wf (docs (w_db w')) (uniq (w_db w')) \<and> meta_dirs (docs (w_db w')) = meta_dirs (docs (w_db w)) \<and>
    meta_files (docs (w_db w')) = meta_files (docs (w_db w)) \<and>
    nd_id ` meta_nodes (docs (w_db w')) = nd_id ` meta_nodes (docs (w_db w)) \<and>
    (\<forall>n \<in> meta_nodes (docs (w_db w)). \<exists>n' \<in> meta_nodes (docs (w_db w')). nd_id n' = nd_id n \<and>
      nd_blocksCount n' = nd_blocksCount n \<and> node_wf n' \<and>
      node_freeBlocks E n' = node_freeBlocks E n - used_by (concat (new_copies file file')) (nd_id n))"
  by (rule fs_laws.distribute_marks [OF assms])

theorem distribute_marks_exactly_the_copies_witness:
  "\<exists>file' w'. filesystem_distributeBlocksToNodes (fs_env True) [] [[65, 10], [66]] file_create three_world =
      Some (True, file', w') \<and> nd_id ` meta_nodes (\<lambda>c. set (ls_view (w_db w') c)) = nd_id ` set three_nodes"
proof -
  obtain file' w' where run: "filesystem_distributeBlocksToNodes (fs_env True) [] [[65, 10], [66]] file_create three_world =
      Some (True, file', w')" using three_run by blast
  then show ?thesis
    using distribute_marks_exactly_the_copies [OF fsenv.fs_laws_axioms _ _ run] three_wf three_ok(4) by auto
qed



text \<open>C33. Distribution succeeds when there is room: with a reliable network, at least three active
  nodes and as many free blocks on each node as the text has blocks, for every schedule of the
  threads \<open>filesystem_distributeBlocksToNodes\<close> returns true.\<close>

theorem distribute_succeeds_with_room:
  assumes "fs_laws E docs uniq" and "reliable_os (e_os E) inp out"
    and "meta_wf (docs (w_db w)) (uniq (w_db w))" and "\<forall>n \<in> meta_nodes (docs (w_db w)). node_wf n"
    and "FILESYSTEM_BLOCK_COPIES \<le>
      card {n \<in> meta_nodes (docs (w_db w)). \<exists>i. nd_id n = Some i \<and> connections_node_isActiveNode i w}"
    and "\<forall>n \<in> meta_nodes (docs (w_db w)). length blocks \<le> node_getBlocksFreeCount E n"
  shows "\<exists>file' w'. filesystem_distributeBlocksToNodes E schedule blocks file w = Some (True, file', w')"
  by (rule fs_laws.distribute_succeeds [OF assms])

theorem distribute_succeeds_with_room_witness:
  "\<exists>file' w'. filesystem_distributeBlocksToNodes (fs_env True) [0, 1, 1, 2] [[72, 105, 10]] file_create three_world =
     Some (True, file', w')"
  by (rule distribute_succeeds_with_room [OF fsenv.fs_laws_axioms chunk_reliable_env])
    (use three_wf three_ok(4) three_count three_room in simp_all)

text \<open>Distribution always returns, and a failure leaves the metadata alone: whatever the
  network does, \<open>filesystem_distributeBlocksToNodes\<close> produces a result on a well-formed
  database, and when that is false the database, the local files and the standby table are
  what they were (blocks that had already reached a node stay there, still marked free).\<close>

theorem distribute_returns_or_leaves_metadata:
  assumes "fs_laws E docs uniq" and "meta_wf (docs (w_db w)) (uniq (w_db w))"
    and "\<forall>n \<in> meta_nodes (docs (w_db w)). node_wf n"
  shows "\<exists>r file' w'. filesystem_distributeBlocksToNodes E schedule blocks file w = Some (r, file', w') \<and>
    (r \<or> (w_db w' = w_db w \<and> w_local w' = w_local w \<and> w_standby w' = w_standby w))"
proof -
  obtain r file' w' where run: "filesystem_distributeBlocksToNodes E schedule blocks file w = Some (r, file', w')"
    using fs_laws.distribute_returns [OF assms] by blast
  moreover have "r \<or> (w_db w' = w_db w \<and> w_local w' = w_local w \<and> w_standby w' = w_standby w)"
    using run by (cases r) (simp_all add: distribute_failure)
  ultimately show ?thesis by blast
qed

theorem distribute_returns_or_leaves_metadata_witness:
  "\<exists>r file' w'. filesystem_distributeBlocksToNodes (fs_env False) [] [[65]] file_create tree_world = Some (r, file', w')"
proof -
  have wf: "meta_wf (\<lambda>c. set (ls_view (w_db tree_world) c)) (ls_uniq (w_db tree_world))"
    "\<forall>n \<in> meta_nodes (\<lambda>c. set (ls_view (w_db tree_world) c)). node_wf n"
    using demo_wf by (simp_all add: tree_world_def) (simp add: demo_nodes_def node_wf_def)
  from distribute_returns_or_leaves_metadata [OF fsenv.fs_laws_axioms wf] show ?thesis by blast
qed

end
