(* ===== verification/FS_Blocks.thy ===== *)
theory FS_Blocks
  imports Prelude
begin

text \<open>
  \<open>filesystem_getBlocksFromStr\<close> of \<open>FileSystem/src/filesystem/filesystem.c\<close>: cutting a text
  into blocks of at most \<open>NODE_BLOCK_SIZE\<close> bytes at line ends. The block size is a parameter of
  the loop, instantiated with the constant. \<^const>\<open>None\<close> is the absence of a result: the loop
  does not end, the \<open>int\<close> index overflows, or the text is read past its end.

  Lemmas: what is returned is the text, cut after newlines, in blocks that fit; the loop
  ends when every window of a block's size has a line end after its first byte, and never
  ends when it meets a window that has none.
\<close>

definition NODE_BLOCK_SIZE :: nat where "NODE_BLOCK_SIZE = 20 * 1024 * 1024"

definition NEWLINE :: byte where "NEWLINE = 10"

text \<open>\<open>for (j = i + NODE_BLOCK_SIZE - 1; j > i; j--) if (str[j] == '\n')\<close>\<close>

fun newline_from :: "byte list \<Rightarrow> nat \<Rightarrow> nat \<Rightarrow> nat option" where
  "newline_from str i 0 = None"
| "newline_from str i (Suc j) =
     (if Suc j > i then if str ! Suc j = NEWLINE then Some (Suc j) else newline_from str i j else None)"

partial_function (option) blocks_loop :: "nat \<Rightarrow> byte list \<Rightarrow> nat \<Rightarrow> nat \<Rightarrow> byte list list option" where
  "blocks_loop bsize str len i =
     (if i + bsize \<ge> 2 ^ 31 \<or> length str < len then None
      else if i + bsize > len then Some [take (len - i) (drop i str)]
      else (case newline_from str i (i + bsize - 1) of
              Some j \<Rightarrow> do {
                blocks \<leftarrow> blocks_loop bsize str len (j + 1);
                Some (take (j - i + 1) (drop i str) # blocks)
              }
            | None \<Rightarrow> blocks_loop bsize str len i))"

definition filesystem_getBlocksFromStr :: "byte list \<Rightarrow> nat \<Rightarrow> byte list list option" where
  "filesystem_getBlocksFromStr str len = blocks_loop NODE_BLOCK_SIZE str len 0"

section \<open>The search\<close>

lemma newline_from_Some:
  "newline_from str i k = Some j \<Longrightarrow> i < j \<and> j \<le> k \<and> str ! j = NEWLINE \<and>
     (\<forall>l. j < l \<and> l \<le> k \<longrightarrow> str ! l \<noteq> NEWLINE)"
  by (induction str i k rule: newline_from.induct) (auto split: if_splits simp: le_Suc_eq)

lemma newline_from_None:
  "newline_from str i k = None \<longleftrightarrow> (\<forall>j. i < j \<and> j \<le> k \<longrightarrow> str ! j \<noteq> NEWLINE)"
  by (induction str i k rule: newline_from.induct) (auto simp: le_Suc_eq)

section \<open>What the loop returns\<close>

text \<open>The cut: full blocks end in a newline, the last one holds what is left.\<close>

fun cut_ok :: "nat \<Rightarrow> byte list list \<Rightarrow> bool" where
  "cut_ok bsize [] = False"
| "cut_ok bsize [b] = (length b < bsize)"
| "cut_ok bsize (b # bs) = (b \<noteq> [] \<and> length b \<le> bsize \<and> last b = NEWLINE \<and> cut_ok bsize bs)"

lemma cut_ok_Cons: "bs \<noteq> [] \<Longrightarrow> cut_ok bsize (b # bs) \<longleftrightarrow> b \<noteq> [] \<and> length b \<le> bsize \<and> last b = NEWLINE \<and> cut_ok bsize bs"
  by (cases bs) auto

lemma take_slice_last: "i \<le> j \<Longrightarrow> j < length str \<Longrightarrow> last (take (j - i + 1) (drop i str)) = str ! j"
  by (subst last_conv_nth) auto

lemma blocks_loop_sound:
  assumes "blocks_loop bsize str len i = Some blocks"
  shows "i \<le> len \<longrightarrow> concat blocks = take (len - i) (drop i str) \<and> blocks \<noteq> [] \<and> cut_ok bsize blocks"
proof (rule blocks_loop.raw_induct [OF _ assms, where P = "\<lambda>bsize str len i blocks.
    i \<le> len \<longrightarrow> concat blocks = take (len - i) (drop i str) \<and> blocks \<noteq> [] \<and> cut_ok bsize blocks"], intro impI)
  fix loop bsize str len i blocks
  assume IH: "\<And>bsize str len i y. loop bsize str len i = Some y \<Longrightarrow>
      i \<le> len \<longrightarrow> concat y = take (len - i) (drop i str) \<and> y \<noteq> [] \<and> cut_ok bsize y"
    and run: "(if 2 ^ 31 \<le> i + bsize \<or> length str < len then None
      else if len < i + bsize then Some [take (len - i) (drop i str)]
      else case newline_from str i (i + bsize - 1) of
          None \<Rightarrow> loop bsize str len i
        | Some j \<Rightarrow> do { blocks \<leftarrow> loop bsize str len (j + 1); Some (take (j - i + 1) (drop i str) # blocks) }) =
      Some blocks" and i: "i \<le> len"
  have len: "len \<le> length str" using run by (auto split: if_splits)
  show "concat blocks = take (len - i) (drop i str) \<and> blocks \<noteq> [] \<and> cut_ok bsize blocks"
  proof (cases "i + bsize > len")
    case True
    with run have "blocks = [take (len - i) (drop i str)]" by (simp split: if_splits)
    with True i len show ?thesis by simp
  next
    case False
    show ?thesis
    proof (cases "newline_from str i (i + bsize - 1)")
      case None
      with run False have "loop bsize str len i = Some blocks" by (simp split: if_splits)
      with IH i show ?thesis by blast
    next
      case (Some j)
      then have j: "i < j" "j \<le> i + bsize - 1" "str ! j = NEWLINE" using newline_from_Some by blast+
      from run False Some obtain bs where bs: "loop bsize str len (j + 1) = Some bs"
        "blocks = take (j - i + 1) (drop i str) # bs" by (auto split: if_splits bind_splits)
      have jlen: "j < len" using j False by linarith
      then have "concat bs = take (len - (j + 1)) (drop (j + 1) str)" "bs \<noteq> []" "cut_ok bsize bs"
        using IH [OF bs(1)] by auto
      moreover have "take (j - i + 1) (drop i str) @ take (len - (j + 1)) (drop (j + 1) str) = take (len - i) (drop i str)"
      proof -
        have "len - i = (j - i + 1) + (len - (j + 1))" "drop (j + 1) str = drop (j - i + 1) (drop i str)"
          using j(1) jlen by (simp_all add: drop_drop)
        then show ?thesis by (simp only: take_add)
      qed
      moreover have "last (take (j - i + 1) (drop i str)) = NEWLINE"
        using take_slice_last [of i j str] j jlen len by simp
      ultimately show ?thesis using j jlen len bs(2) by (auto simp: cut_ok_Cons)
    qed
  qed
qed

section \<open>Ending\<close>

text \<open>Every window of a block's size has a newline after its first byte.\<close>

definition windows_ok :: "nat \<Rightarrow> byte list \<Rightarrow> nat \<Rightarrow> bool" where
  "windows_ok bsize str len \<longleftrightarrow> (\<forall>i. i + bsize \<le> len \<longrightarrow> (\<exists>j. i < j \<and> j < i + bsize \<and> str ! j = NEWLINE))"

lemma blocks_loop_ends:
  assumes "windows_ok bsize str len" "len \<le> length str" "len + bsize < 2 ^ 31"
  shows "i \<le> len \<Longrightarrow> \<exists>blocks. blocks_loop bsize str len i = Some blocks"
proof (induction "len - i" arbitrary: i rule: less_induct)
  case less
  have small: "\<not> (i + bsize \<ge> 2 ^ 31 \<or> length str < len)" using assms(2,3) less.prems by linarith
  show ?case
  proof (cases "i + bsize > len")
    case True
    with small show ?thesis by (subst blocks_loop.simps) (simp only: if_False if_True, blast)
  next
    case False
    then obtain j where "i < j" "j < i + bsize" "str ! j = NEWLINE"
      using assms(1) unfolding windows_ok_def by (meson not_less)
    then have "newline_from str i (i + bsize - 1) \<noteq> None"
      unfolding newline_from_None by (metis Suc_pred' add_gr_0 bot_nat_0.extremum_strict gr0I less_Suc_eq_le)
    then obtain j where j: "newline_from str i (i + bsize - 1) = Some j" by auto
    then have "i < j" "j \<le> i + bsize - 1" using newline_from_Some by blast+
    then have "j + 1 \<le> len" "len - (j + 1) < len - i" using False by linarith+
    with less.hyps obtain bs where "blocks_loop bsize str len (j + 1) = Some bs" by blast
    with small False j show ?thesis by (subst blocks_loop.simps) (simp only: if_False option.case, simp)
  qed
qed

text \<open>A window without one: the loop comes back to the same place for ever.\<close>

lemma blocks_loop_stuck:
  assumes "blocks_loop bsize str len i = Some blocks"
  shows "i + bsize \<le> len \<longrightarrow> newline_from str i (i + bsize - 1) \<noteq> None"
proof (rule blocks_loop.raw_induct [OF _ assms, where P = "\<lambda>bsize str len i blocks.
    i + bsize \<le> len \<longrightarrow> newline_from str i (i + bsize - 1) \<noteq> None"], intro impI notI)
  fix loop bsize str len i blocks
  assume IH: "\<And>bsize str len i y. loop bsize str len i = Some y \<Longrightarrow>
      i + bsize \<le> len \<longrightarrow> newline_from str i (i + bsize - 1) \<noteq> None"
    and run: "(if 2 ^ 31 \<le> i + bsize \<or> length str < len then None
      else if len < i + bsize then Some [take (len - i) (drop i str)]
      else case newline_from str i (i + bsize - 1) of
          None \<Rightarrow> loop bsize str len i
        | Some j \<Rightarrow> do { blocks \<leftarrow> loop bsize str len (j + 1); Some (take (j - i + 1) (drop i str) # blocks) }) =
      Some blocks" and a: "i + bsize \<le> len" "newline_from str i (i + bsize - 1) = None"
  then have "loop bsize str len i = Some blocks" by (simp split: if_splits)
  from IH [OF this] a show False by blast
qed

section \<open>Properties of getBlocksFromStr\<close>

text \<open>C37. Cutting a text into blocks loses and adds nothing and never breaks a line: when
  \<open>filesystem_getBlocksFromStr\<close> returns, the blocks in order are the text, every block but the
  last is not empty, ends with a newline and fits in a node's block, and the last one (empty
  when the text ends where a full block does) is shorter than a block.\<close>

theorem getBlocksFromStr_cuts:
  assumes "filesystem_getBlocksFromStr str len = Some blocks"
  shows "concat blocks = take len str \<and> blocks \<noteq> [] \<and> cut_ok NODE_BLOCK_SIZE blocks"
  using blocks_loop_sound [OF assms [unfolded filesystem_getBlocksFromStr_def]] by simp

theorem getBlocksFromStr_cuts_witness:
  "\<exists>blocks. filesystem_getBlocksFromStr [65, 10, 66] 3 = Some blocks \<and> concat blocks = [65, 10, 66]"
proof -
  have "filesystem_getBlocksFromStr [65, 10, 66] 3 = Some [[65, 10, 66]]"
    unfolding filesystem_getBlocksFromStr_def by (subst blocks_loop.simps) (simp add: NODE_BLOCK_SIZE_def)
  with getBlocksFromStr_cuts [OF this] show ?thesis by simp
qed

text \<open>C38. Cutting returns for every text whose lines fit: if each window of 20 MB inside the
  text has a newline after its first byte (and the text stays below 2 GB less a block),
  \<open>filesystem_getBlocksFromStr\<close> returns blocks.\<close>

theorem getBlocksFromStr_returns:
  assumes "windows_ok NODE_BLOCK_SIZE str len" and "len \<le> length str" and "len + NODE_BLOCK_SIZE < 2 ^ 31"
  shows "\<exists>blocks. filesystem_getBlocksFromStr str len = Some blocks"
  unfolding filesystem_getBlocksFromStr_def by (rule blocks_loop_ends [OF assms]) simp

theorem getBlocksFromStr_returns_witness:
  "\<exists>blocks. filesystem_getBlocksFromStr [72, 105, 10] 3 = Some blocks"
  by (rule getBlocksFromStr_returns) (simp_all add: windows_ok_def NODE_BLOCK_SIZE_def)

text \<open>C39. A line longer than a block stops the file system: when the first 20 MB of the text have
  no newline after the first byte, \<open>filesystem_getBlocksFromStr\<close> never returns, although the
  text is all there and the index, which stays 0, does not overflow.\<close>

theorem getBlocksFromStr_long_line_diverges:
  assumes "NODE_BLOCK_SIZE \<le> len" and "len \<le> length str" and "\<forall>j. 0 < j \<and> j < NODE_BLOCK_SIZE \<longrightarrow> str ! j \<noteq> NEWLINE"
  shows "filesystem_getBlocksFromStr str len = None"
proof (rule ccontr)
  assume "filesystem_getBlocksFromStr str len \<noteq> None"
  then obtain bs where "blocks_loop NODE_BLOCK_SIZE str len 0 = Some bs"
    by (auto simp: filesystem_getBlocksFromStr_def)
  from blocks_loop_stuck [OF this] assms(1)
  obtain j where "newline_from str 0 (NODE_BLOCK_SIZE - 1) = Some j" by auto
  from newline_from_Some [OF this] have "0 < j" "j \<le> NODE_BLOCK_SIZE - 1" "str ! j = NEWLINE" by blast+
  moreover have "NODE_BLOCK_SIZE > 0" by (simp add: NODE_BLOCK_SIZE_def)
  ultimately show False using assms(3) by auto
qed

theorem getBlocksFromStr_long_line_diverges_witness:
  "filesystem_getBlocksFromStr (replicate NODE_BLOCK_SIZE 65) NODE_BLOCK_SIZE = None"
  by (rule getBlocksFromStr_long_line_diverges) (simp_all add: NEWLINE_def)

end
