(* ===== verification/Filesystem.thy ===== *)
theory Filesystem
  imports FS_Distribute FS_Blocks
begin

text \<open>
  The operations of \<open>FileSystem/src/filesystem/filesystem.c\<close> that the console and the
  connections call: creating, moving, renaming and deleting directories and files, copying
  files in and out, the copies of a block, and the nodes joining. NULL pointers among the
  arguments are \<^const>\<open>None\<close>; the outer \<^const>\<open>None\<close> of a result is undefined behaviour, or no
  result at all where a loop or recursion does not end.

  Not here: \<open>filesystem_md5\<close>, which pipes a temporary file through the \<open>md5sum\<close> program.
\<close>

section \<open>Initialisation and formatting\<close>

definition filesystem_initialize :: "('n, 'db) env \<Rightarrow> ('n, 'db) world \<Rightarrow> ('n, 'db) world" where
  "filesystem_initialize E w = w\<lparr>w_db := mongo_file_init E (mongo_dir_init E (w_db w))\<rparr>"

definition filesystem_formatNode :: "('n, 'db) env \<Rightarrow> node_t \<Rightarrow> ('n, 'db) world \<Rightarrow> ('n, 'db) world" where
  "filesystem_formatNode E node w = w\<lparr>w_db := mongo_node_updateBlocks E (node_setAllBlocksFree node) (w_db w)\<rparr>"

definition filesystem_format :: "('n, 'db) env \<Rightarrow> ('n, 'db) world \<Rightarrow> (bool \<times> ('n, 'db) world) option" where
  "filesystem_format E w =
     (let (d, db1) = mongo_dir_deleteAll E (w_db w)
      in if \<not> d then Some (False, w\<lparr>w_db := db1\<rparr>)
         else let (f, db2) = mongo_file_deleteAll E db1; w2 = w\<lparr>w_db := db2\<rparr>
              in if \<not> f then Some (False, w2)
                 else do {
                   nodes \<leftarrow> mongo_node_getAll E db2;
                   Some (True, fold (filesystem_formatNode E) nodes w2)
                 })"

text \<open>The sum and the product are \<open>int\<close>; an overflow is undefined.\<close>

definition filesystem_getFreeSpaceKiloBytes :: "('n, 'db) env \<Rightarrow> ('n, 'db) world \<Rightarrow> nat option" where
  "filesystem_getFreeSpaceKiloBytes E w =
     do {
       nodes \<leftarrow> filesystem_getAllActivatedNodes E w;
       let freeBlocks = (\<Sum>n\<leftarrow>nodes. node_getBlocksFreeCount E n);
       (if freeBlocks * (NODE_BLOCK_SIZE div 1024) < 2 ^ 31
        then Some (freeBlocks * (NODE_BLOCK_SIZE div 1024)) else None)
     }"

section \<open>Directories and files\<close>

definition filesystem_canCreateResource ::
    "('n, 'db) env \<Rightarrow> string option \<Rightarrow> string \<Rightarrow> ('n, 'db) world \<Rightarrow> bool option" where
  "filesystem_canCreateResource E resourceName parentId w =
     do {
       name \<leftarrow> resourceName;
       dir \<leftarrow> filesystem_getDirByNameInDir E name parentId w;
       (if dir \<noteq> None then Some False
        else do {
          file \<leftarrow> filesystem_getFileByNameInDir E name parentId w;
          Some (file = None)
        })
     }"

definition filesystem_addDir :: "('n, 'db) env \<Rightarrow> dir_t \<Rightarrow> ('n, 'db) world \<Rightarrow> (bool \<times> dir_t \<times> ('n, 'db) world) option" where
  "filesystem_addDir E dir w =
     do {
       can \<leftarrow> filesystem_canCreateResource E (dir_name dir) (dir_parentId dir) w;
       (if \<not> can then Some (False, dir, w)
        else let (r, dir', db') = mongo_dir_save E dir (w_db w) in Some (r, dir', w\<lparr>w_db := db'\<rparr>))
     }"

definition filesystem_moveFile :: "('n, 'db) env \<Rightarrow> file_t \<Rightarrow> string \<Rightarrow> ('n, 'db) world \<Rightarrow> ('n, 'db) world" where
  "filesystem_moveFile E file destinationId w =
     w\<lparr>w_db := mongo_file_updateParentId E (file_id file) destinationId (w_db w)\<rparr>"

definition filesystem_moveDir :: "('n, 'db) env \<Rightarrow> dir_t \<Rightarrow> string \<Rightarrow> ('n, 'db) world \<Rightarrow> ('n, 'db) world" where
  "filesystem_moveDir E dir destinationId w =
     w\<lparr>w_db := mongo_dir_updateParentId E (dir_id dir) destinationId (w_db w)\<rparr>"

definition filesystem_renameFile :: "('n, 'db) env \<Rightarrow> file_t \<Rightarrow> string \<Rightarrow> ('n, 'db) world \<Rightarrow> ('n, 'db) world" where
  "filesystem_renameFile E file newName w =
     w\<lparr>w_db := mongo_file_updateName E (file_id file) newName (w_db w)\<rparr>"

definition filesystem_renameDir :: "('n, 'db) env \<Rightarrow> dir_t \<Rightarrow> string \<Rightarrow> ('n, 'db) world \<Rightarrow> ('n, 'db) world" where
  "filesystem_renameDir E dir newName w =
     w\<lparr>w_db := mongo_dir_updateName E (dir_id dir) newName (w_db w)\<rparr>"

definition filesystem_getNodeById :: "('n, 'db) env \<Rightarrow> string \<Rightarrow> ('n, 'db) world \<Rightarrow> node_t option option" where
  "filesystem_getNodeById E nodeId w = mongo_node_getById E nodeId (w_db w)"

text \<open>The inner function \<open>listBlockCopies\<close> of \<open>filesystem_deleteFile\<close>: no test for a missing node.\<close>

definition free_copy :: "('n, 'db) env \<Rightarrow> file_block_t \<Rightarrow> ('n, 'db) world \<Rightarrow> ('n, 'db) world option" where
  "free_copy E blockCopy w =
     do {
       found \<leftarrow> filesystem_getNodeById E (fb_nodeId blockCopy) w;
       node \<leftarrow> found;
       let node' = node_setBlockFree E node (uint (fb_blockIndex blockCopy));
       Some (w\<lparr>w_db := mongo_node_updateBlocks E node' (w_db w)\<rparr>)
     }"

definition filesystem_deleteFile :: "('n, 'db) env \<Rightarrow> file_t option \<Rightarrow> ('n, 'db) world \<Rightarrow> (bool \<times> ('n, 'db) world) option" where
  "filesystem_deleteFile E file w =
     (case file of
        None \<Rightarrow> Some (False, w)
      | Some f \<Rightarrow> do {
          w1 \<leftarrow> fold_opt (fold_opt (free_copy E)) (file_blocks f) w;
          let (r, db2) = mongo_file_deleteById E (file_id f) (w_db w1);
          Some (r, w1\<lparr>w_db := db2\<rparr>)
        })"

definition delete_files :: "('n, 'db) env \<Rightarrow> file_t list \<Rightarrow> ('n, 'db) world \<Rightarrow> ('n, 'db) world option" where
  "delete_files E files w = fold_opt (\<lambda>f w. map_option snd (filesystem_deleteFile E (Some f) w)) files w"

text \<open>
  \<open>list_iterate(dirs, filesystem_deleteDir)\<close>: the recursion on the children of the first
  directory, then the rest of the list. It ends only if no directory is its own ancestor.
\<close>

partial_function (option) delete_dirs ::
    "('n, 'db) env \<Rightarrow> dir_t list \<Rightarrow> ('n, 'db) world \<Rightarrow> ('n, 'db) world option" where
  "delete_dirs E dirs w =
     (case dirs of
        [] \<Rightarrow> Some w
      | d # ds \<Rightarrow> do {
          childFiles \<leftarrow> filesystem_getFilesInDir E (dir_id d) w;
          w1 \<leftarrow> delete_files E childFiles w;
          childDirs \<leftarrow> filesystem_getDirsInDir E (dir_id d) w1;
          w2 \<leftarrow> delete_dirs E childDirs w1;
          delete_dirs E ds (w2\<lparr>w_db := snd (mongo_dir_deleteById E (dir_id d) (w_db w2))\<rparr>)
        })"

definition filesystem_deleteDir :: "('n, 'db) env \<Rightarrow> dir_t option \<Rightarrow> ('n, 'db) world \<Rightarrow> (bool \<times> ('n, 'db) world) option" where
  "filesystem_deleteDir E dir w =
     (case dir of
        None \<Rightarrow> Some (False, w)
      | Some d \<Rightarrow> do {
          childFiles \<leftarrow> filesystem_getFilesInDir E (dir_id d) w;
          w1 \<leftarrow> delete_files E childFiles w;
          childDirs \<leftarrow> filesystem_getDirsInDir E (dir_id d) w1;
          w2 \<leftarrow> delete_dirs E childDirs w1;
          let (r, db3) = mongo_dir_deleteById E (dir_id d) (w_db w2);
          Some (r, w2\<lparr>w_db := db3\<rparr>)
        })"

section \<open>Copying a file in\<close>

text \<open>The text of a local file and its blocks; NULL when it cannot be opened.\<close>

definition filesystem_getFSFileBlocks ::
    "('n, 'db) env \<Rightarrow> string \<Rightarrow> ('n, 'db) world \<Rightarrow> (byte list list \<times> nat) option option" where
  "filesystem_getFSFileBlocks E route w =
     (case w_local w route of
        None \<Rightarrow> Some None
      | Some fileStr \<Rightarrow> do {
          blocks \<leftarrow> filesystem_getBlocksFromStr fileStr (length fileStr);
          Some (Some (blocks, length fileStr))
        })"

text \<open>The code, the file record and the state.\<close>

definition filesystem_copyFileFromFS ::
    "('n, 'db) env \<Rightarrow> nat list \<Rightarrow> string \<Rightarrow> file_t \<Rightarrow> ('n, 'db) world \<Rightarrow> (int \<times> file_t \<times> ('n, 'db) world) option" where
  "filesystem_copyFileFromFS E schedule route file w =
     do {
       can \<leftarrow> filesystem_canCreateResource E (file_name file) (file_parentId file) w;
       (if \<not> can then Some (-1, file, w)
        else do {
          r \<leftarrow> filesystem_getFSFileBlocks E route w;
          (case r of
             None \<Rightarrow> Some (-2, file, w)
           | Some (blocks, fileSize) \<Rightarrow> do {
               (ok, file1, w1) \<leftarrow> filesystem_distributeBlocksToNodes E schedule blocks
                 (file\<lparr>file_size := word_of_nat fileSize\<rparr>) w;
               (if \<not> ok then Some (-3, file1, w1)
                else let (saved, file2, db2) = mongo_file_save E file1 (w_db w1); w2 = w1\<lparr>w_db := db2\<rparr>
                     in if saved then Some (1, file2, w2)
                        else do { (_, w3) \<leftarrow> filesystem_deleteFile E (Some file2) w2; Some (-4, file2, w3) })
             })
        })
     }"

end
