(* ===== verification/FS_Copies.thy ===== *)
theory FS_Copies
  imports Filesystem
begin

text \<open>
  The copies of a block and the content of a file, from
  \<open>FileSystem/src/filesystem/filesystem.c\<close>: reading a block from the first node that answers,
  writing files to the local file system, adding and deleting copies, and storing a node's
  temporary file in the MDFS.

  A block comes back from \<open>connections_node_getBlock\<close> as the bytes of one packet, and
  \<open>Nodo/src/connections/connections_fs.c\<close> sends it without its NUL; \<open>strlen\<close>, \<open>strcat\<close> and
  \<open>fputs\<close> then read on after the buffer. What they find there is the parameter \<open>e_past\<close> of the
  environment (the empty string if a NUL follows at once, \<^const>\<open>None\<close> for an access fault).
\<close>

definition buffer_str :: "('n, 'db) env \<Rightarrow> byte list \<Rightarrow> byte list option" where
  "buffer_str E buf =
     (if 0 \<in> set buf then Some (takeWhile (\<lambda>b. b \<noteq> 0) buf)
      else do { past \<leftarrow> e_past E buf; Some (buf @ takeWhile (\<lambda>b. b \<noteq> 0) past) })"

text \<open>The result of \<open>fopen\<close> is not tested: writing through NULL is undefined.\<close>

definition filesystem_createLocalFileFromString ::
    "('n, 'db) env \<Rightarrow> string \<Rightarrow> byte list option \<Rightarrow> ('n, 'db) world \<Rightarrow> ('n, 'db) world option" where
  "filesystem_createLocalFileFromString E pathToFile str w =
     (if e_writable E pathToFile
      then Some (w\<lparr>w_local := (w_local w)(pathToFile \<mapsto> (case str of None \<Rightarrow> [] | Some s \<Rightarrow> s))\<rparr>)
      else None)"

section \<open>Reading\<close>

text \<open>The inner function \<open>listBlockCopies\<close>: ask the nodes in order until one answers.\<close>

fun first_copy :: "('n, 'db) env \<Rightarrow> file_block_t list \<Rightarrow> ('n, 'db) world \<Rightarrow> byte list option \<times> ('n, 'db) world" where
  "first_copy E [] w = (None, w)"
| "first_copy E (blockCopy # copies) w =
     (case connections_node_getBlock E blockCopy w of
        (Some block, w1) \<Rightarrow> (Some block, w1)
      | (None, w1) \<Rightarrow> first_copy E copies w1)"

definition filesystem_saveFileBlockToLocalFS ::
    "('n, 'db) env \<Rightarrow> file_t option \<Rightarrow> u16 \<Rightarrow> string \<Rightarrow> ('n, 'db) world \<Rightarrow> (int \<times> ('n, 'db) world) option" where
  "filesystem_saveFileBlockToLocalFS E file blockIndex pathToFile w =
     (case file of
        None \<Rightarrow> Some (-3, w)
      | Some f \<Rightarrow>
          if unat blockIndex \<ge> length (file_blocks f) then Some (-1, w)
          else (case first_copy E (file_blocks f ! unat blockIndex) w of
                  (None, w1) \<Rightarrow> Some (-2, w1)
                | (Some block, w1) \<Rightarrow> do {
                    str \<leftarrow> buffer_str E block;
                    w2 \<leftarrow> filesystem_createLocalFileFromString E pathToFile (Some str) w1;
                    Some (1, w2)
                  }))"

text \<open>The inner function \<open>listBlocks\<close>: after a block that no node gives, no more are asked for.\<close>

fun all_blocks :: "('n, 'db) env \<Rightarrow> file_block_t list list \<Rightarrow> ('n, 'db) world \<Rightarrow>
    byte list list option \<times> ('n, 'db) world" where
  "all_blocks E [] w = (Some [], w)"
| "all_blocks E (blockCopies # blocks) w =
     (case first_copy E blockCopies w of
        (None, w1) \<Rightarrow> (None, w1)
      | (Some block, w1) \<Rightarrow> (case all_blocks E blocks w1 of
            (None, w2) \<Rightarrow> (None, w2)
          | (Some rest, w2) \<Rightarrow> (Some (block # rest), w2)))"

text \<open>NULL, the inner \<^const>\<open>None\<close>, when some block is missing.\<close>

definition filesystem_getAllFileContent ::
    "('n, 'db) env \<Rightarrow> file_t \<Rightarrow> ('n, 'db) world \<Rightarrow> (byte list option \<times> ('n, 'db) world) option" where
  "filesystem_getAllFileContent E file w =
     (case all_blocks E (file_blocks file) w of
        (None, w1) \<Rightarrow> Some (None, w1)
      | (Some blocksData, w1) \<Rightarrow> do {
          strs \<leftarrow> those (map (buffer_str E) blocksData);
          Some (Some (concat strs), w1)
        })"

definition filesystem_saveFileToLocalFS ::
    "('n, 'db) env \<Rightarrow> file_t option \<Rightarrow> string \<Rightarrow> ('n, 'db) world \<Rightarrow> (int \<times> ('n, 'db) world) option" where
  "filesystem_saveFileToLocalFS E file pathToFile w =
     (case file of
        None \<Rightarrow> Some (-2, w)
      | Some f \<Rightarrow> do {
          (fileBuffer, w1) \<leftarrow> filesystem_getAllFileContent E f w;
          (case fileBuffer of
             None \<Rightarrow> Some (-1, w1)
           | Some str \<Rightarrow> do {
               w2 \<leftarrow> filesystem_createLocalFileFromString E pathToFile (Some str) w1;
               Some (1, w2)
             })
        })"

section \<open>Adding and deleting a copy\<close>

text \<open>
  The code, the file record with the copy appended to its block, and the state. The node
  chosen is the first in the order of free blocks that holds no copy of the block.
\<close>

definition filesystem_makeNewFileBlockCopy ::
    "('n, 'db) env \<Rightarrow> file_t option \<Rightarrow> u16 \<Rightarrow> ('n, 'db) world \<Rightarrow> (int \<times> file_t option \<times> ('n, 'db) world) option" where
  "filesystem_makeNewFileBlockCopy E file blockIndex w =
     (case file of
        None \<Rightarrow> Some (-4, None, w)
      | Some f \<Rightarrow>
          if unat blockIndex \<ge> length (file_blocks f) then Some (-1, file, w)
          else
            let blockCopies = file_blocks f ! unat blockIndex
            in case first_copy E blockCopies w of
                 (None, w1) \<Rightarrow> Some (-2, file, w1)
               | (Some block, w1) \<Rightarrow> do {
                   nodes \<leftarrow> filesystem_getAllActivatedNodes E w1;
                   let order = e_sort E (\<lambda>a b. filesystem_nodeComparatorByBlocksFree E (nodes ! a) (nodes ! b))
                         [0..<length nodes];
                   (case List.find (\<lambda>a. \<forall>c \<in> set blockCopies. Some (fb_nodeId c) \<noteq> nd_id (nodes ! a)) order of
                      None \<Rightarrow> Some (-3, file, w1)
                    | Some a \<Rightarrow>
                        let selectedNode = nodes ! a;
                            firstBlockFreeIndex = node_getFirstFreeBlock E selectedNode
                        in if firstBlockFreeIndex \<noteq> -1 then do {
                             str \<leftarrow> buffer_str E block;
                             nodeId \<leftarrow> nd_id selectedNode;
                             (sent, w2) \<leftarrow> filesystem_sendBlockToNode E
                               (filesystem_nodeBlockSendOperation_create selectedNode firstBlockFreeIndex str) w1;
                             (if \<not> sent then Some (-3, file, w2)
                              else
                                let db3 = mongo_node_updateBlocks E
                                      (node_setBlockUsed E selectedNode firstBlockFreeIndex) (w_db w2);
                                    blockCopy = \<lparr>fb_nodeId = nodeId, fb_blockIndex = word_of_int firstBlockFreeIndex\<rparr>;
                                    f' = f\<lparr>file_blocks := (file_blocks f)[unat blockIndex := blockCopies @ [blockCopy]]\<rparr>
                                in Some (1, Some f',
                                     w2\<lparr>w_db := mongo_file_addBlockCopyToFile E (file_id f) blockIndex blockCopy db3\<rparr>))
                           }
                           else Some (-3, file, w1))
                 })"

definition filesystem_deleteFileBlockCopy ::
    "('n, 'db) env \<Rightarrow> file_t option \<Rightarrow> u16 \<Rightarrow> u16 \<Rightarrow> ('n, 'db) world \<Rightarrow> (int \<times> ('n, 'db) world) option" where
  "filesystem_deleteFileBlockCopy E file blockIndex copyIndex w =
     (case file of
        None \<Rightarrow> Some (-3, w)
      | Some f \<Rightarrow>
          if unat blockIndex \<ge> length (file_blocks f) then Some (-1, w)
          else
            let blockCopies = file_blocks f ! unat blockIndex
            in if unat copyIndex \<ge> length blockCopies then Some (-2, w)
               else
                 let blockCopy = blockCopies ! unat copyIndex;
                     w1 = w\<lparr>w_db := mongo_file_deleteBlockCopy E (file_id f) blockIndex blockCopy (w_db w)\<rparr>
                 in do {
                   node \<leftarrow> filesystem_getNodeById E (fb_nodeId blockCopy) w1;
                   (case node of
                      None \<Rightarrow> Some (1, w1)
                    | Some n \<Rightarrow> Some (1, w1\<lparr>w_db := mongo_node_updateBlocks E
                        (node_setBlockFree E n (uint (fb_blockIndex blockCopy))) (w_db w1)\<rparr>))
                 })"

section \<open>Storing the result of a job\<close>

text \<open>
  The result, \<open>*failReason\<close> and the state. The length that arrives counts the final NUL. When
  the file cannot be saved the record is freed and then used: undefined.
\<close>

definition filesystem_copyTmpFileToMDFS ::
    "('n, 'db) env \<Rightarrow> nat list \<Rightarrow> string \<Rightarrow> string \<Rightarrow> string \<Rightarrow> byte \<Rightarrow> ('n, 'db) world \<Rightarrow>
      (bool \<times> byte \<times> ('n, 'db) world) option" where
  "filesystem_copyTmpFileToMDFS E schedule nodeId finalTmpName resultFilePath failReason w =
     do {
       destFileName \<leftarrow> getFileName E resultFilePath;
       parent \<leftarrow> (if length destFileName < length resultFilePath
         then map_option (map_option (dir_id \<circ> fst)) (filesystem_resolveDirPath E
           (c_substring_until E resultFilePath (length resultFilePath - length destFileName)) ROOT_DIR_ID ''/'' w)
         else Some (Some ROOT_DIR_ID));
       (case parent of
          None \<Rightarrow> Some (False, failReason, w)
        | Some parentId \<Rightarrow> do {
            can \<leftarrow> filesystem_canCreateResource E (Some destFileName) parentId w;
            (if \<not> can then Some (False, failReason, w)
             else (case connections_node_getFileContent E nodeId finalTmpName 0 w of
                 (None, _, w1) \<Rightarrow> Some (False, 0, w1)
               | (Some tmpFileContent, len, w1) \<Rightarrow> do {
                   let tmpFileLength = len - 1;
                   blocks \<leftarrow> filesystem_getBlocksFromStr tmpFileContent (unat tmpFileLength);
                   (ok, file1, w2) \<leftarrow> filesystem_distributeBlocksToNodes E schedule blocks
                     (file_create\<lparr>file_name := Some destFileName, file_parentId := parentId,
                        file_size := tmpFileLength\<rparr>) w1;
                   (if \<not> ok then Some (False, failReason, w2)
                    else let (saved, _, db3) = mongo_file_save E file1 (w_db w2)
                         in if saved then Some (True, failReason, w2\<lparr>w_db := db3\<rparr>) else None)
                 }))
          })
     }"

end
