(* ===== verification/FS_Membership.thy ===== *)
theory FS_Membership
  imports FS_Copies
begin

text \<open>
  Storage nodes joining: \<open>filesystem_addNode\<close>, \<open>filesystem_activateNode\<close> and
  \<open>filesystem_deactivateNode\<close> of \<open>FileSystem/src/filesystem/filesystem.c\<close>, and the reception
  of a node's introduction, \<open>connections_node_accept\<close> of
  \<open>FileSystem/src/connections/connections_node.c\<close>. The thread that \<open>connections_node_accept\<close>
  starts is \<open>connections_node_checkAlive\<close>, whose turns interleave with everything else.
\<close>

section \<open>A node's copies\<close>

text \<open>The inner functions \<open>listBlockCopies\<close> and \<open>listBlocks\<close>, with the counter \<open>blockIndex\<close>.\<close>

definition drop_copies ::
    "('db, 'z) mongo_env_scheme \<Rightarrow> string \<Rightarrow> string \<Rightarrow> u16 \<Rightarrow> file_block_t list \<Rightarrow> 'db \<Rightarrow> 'db" where
  "drop_copies E nodeId i blockIndex blockCopies db =
     fold (\<lambda>blockCopy db. if fb_nodeId blockCopy = nodeId
       then mongo_file_deleteBlockCopy E i blockIndex blockCopy db else db) blockCopies db"

fun drop_blocks ::
    "('db, 'z) mongo_env_scheme \<Rightarrow> string \<Rightarrow> string \<Rightarrow> u16 \<Rightarrow> file_block_t list list \<Rightarrow> 'db \<Rightarrow> 'db" where
  "drop_blocks E nodeId i blockIndex [] db = db"
| "drop_blocks E nodeId i blockIndex (blockCopies # blocks) db =
     drop_blocks E nodeId i (blockIndex + 1) blocks (drop_copies E nodeId i blockIndex blockCopies db)"

definition drop_files :: "('db, 'z) mongo_env_scheme \<Rightarrow> string \<Rightarrow> file_t list \<Rightarrow> 'db \<Rightarrow> 'db" where
  "drop_files E nodeId files db = fold (\<lambda>file. drop_blocks E nodeId (file_id file) 0 (file_blocks file)) files db"

definition filesystem_addNode ::
    "('n, 'db) env \<Rightarrow> string \<Rightarrow> u16 \<Rightarrow> bool \<Rightarrow> ('n, 'db) world \<Rightarrow> ('n, 'db) world option" where
  "filesystem_addNode E nodeId blocksCount isNewNode w =
     do {
       found \<leftarrow> filesystem_getNodeById E nodeId w;
       (case found of
          Some node \<Rightarrow>
            if isNewNode then do {
              i \<leftarrow> nd_id node;
              files \<leftarrow> mongo_file_getFilesThatHaveNode E i (w_db w);
              Some (filesystem_formatNode E (node\<lparr>nd_blocksCount := blocksCount\<rparr>)
                (w\<lparr>w_db := drop_files E i files (w_db w)\<rparr>))
            }
            else Some w
        | None \<Rightarrow>
            Some (w\<lparr>w_db := snd (mongo_node_save E ((node_create blocksCount)\<lparr>nd_id := Some nodeId\<rparr>) (w_db w))\<rparr>))
     }"

section \<open>Activation\<close>

definition filesystem_activateNode :: "node_t option \<Rightarrow> ('n, 'db) world \<Rightarrow> (bool \<times> ('n, 'db) world) option" where
  "filesystem_activateNode node w =
     (case node of
        None \<Rightarrow> Some (False, w)
      | Some n \<Rightarrow> do { i \<leftarrow> nd_id n; Some (connections_node_activateNode i w) })"

definition filesystem_deactivateNode :: "node_t option \<Rightarrow> ('n, 'db) world \<Rightarrow> (bool \<times> ('n, 'db) world) option" where
  "filesystem_deactivateNode node w =
     (case node of
        None \<Rightarrow> Some (False, w)
      | Some n \<Rightarrow> do { i \<leftarrow> nd_id n; Some (connections_node_deactivateNode i w) })"

section \<open>Introduction\<close>

text \<open>Whether the node is new, its number of blocks, its port and its name.\<close>

definition node_deserialize :: "byte list \<Rightarrow> (byte \<times> u16 \<times> u16 \<times> string) option" where
  "node_deserialize buffer =
     do {
       (isNewNode, r) \<leftarrow> get_u8 buffer;
       (blocksCount, r) \<leftarrow> get_u16 r;
       (listenPort, r) \<leftarrow> get_u16 r;
       (sNodeId, r) \<leftarrow> get_u16 r;
       (nodeId, _) \<leftarrow> get_str (unat sNodeId) r;
       Some (isNewNode, blocksCount, listenPort, nodeId)
     }"

definition connections_node_accept ::
    "('n, 'db) env \<Rightarrow> node_connection_t \<Rightarrow> ('n, 'db) world \<Rightarrow> ('n, 'db) world option" where
  "connections_node_accept E nodeConnection w =
     (case w_recv_packet E (nc_socket nodeConnection) 0 w of
        (status, buffer, _, w1) \<Rightarrow>
          if status \<noteq> SOCKET_ERROR_NONE then Some w1
          else do {
            b \<leftarrow> buffer;
            (isNewNode, blocksCount, listenPort, nodeId) \<leftarrow> node_deserialize b;
            filesystem_addNode E nodeId blocksCount (isNewNode \<noteq> 0)
              (connections_node_setAcceptedNodeConnection nodeId
                (nodeConnection\<lparr>nc_listenPort := Some listenPort\<rparr>) w1)
          })"

end
