(* ===== verification/FS_Space.thy ===== *)
theory FS_Space
  imports FS_Membership
begin

text \<open>
  What the operations of the file system do to the metadata, and the invariant they keep
  (\<open>mdfs_inv\<close>): every copy of a block of a file lies in a block that its node marks as used,
  and no two copies lie in the same block.
\<close>

section \<open>Names\<close>

context fs_laws begin

abbreviation dirs :: "('n, 'db) world \<Rightarrow> dir_t set" where "dirs w \<equiv> meta_dirs (docs (w_db w))"
abbreviation files :: "('n, 'db) world \<Rightarrow> file_t set" where "files w \<equiv> meta_files (docs (w_db w))"
abbreviation nodes :: "('n, 'db) world \<Rightarrow> node_t set" where "nodes w \<equiv> meta_nodes (docs (w_db w))"
abbreviation wf :: "('n, 'db) world \<Rightarrow> bool" where "wf w \<equiv> meta_wf (docs (w_db w)) (uniq (w_db w))"

lemma canCreateResource_spec:
  assumes "wf w"
  shows "filesystem_canCreateResource E (Some n) p w =
    Some ((Some n, p) \<notin> dir_names (dirs w) \<and> (Some n, p) \<notin> file_names (files w))"
proof (cases "(Some n, p) \<in> dir_names (dirs w)")
  case True
  then obtain d where "d \<in> dirs w" "dir_name d = Some n" "dir_parentId d = p" by (auto simp: dir_names_def)
  then have "mongo_dir_getByNameInDir E n p (w_db w) = Some (Some d)"
    using mon.dir_getByNameInDir(1) [OF assms] by blast
  with True show ?thesis by (simp add: filesystem_canCreateResource_def filesystem_getDirByNameInDir_def)
next
  case False
  then have "\<forall>d \<in> dirs w. \<not> (dir_name d = Some n \<and> dir_parentId d = p)"
    unfolding dir_names_def by (metis (mono_tags, lifting) image_eqI)
  then have d: "mongo_dir_getByNameInDir E n p (w_db w) = Some None"
    using mon.dir_getByNameInDir(2) [OF assms] by blast
  show ?thesis
  proof (cases "(Some n, p) \<in> file_names (files w)")
    case True
    then obtain f where "f \<in> files w" "file_name f = Some n" "file_parentId f = p" by (auto simp: file_names_def)
    then have "mongo_file_getByNameInDir E n p (w_db w) = Some (Some f)"
      using mon.file_getByNameInDir(1) [OF assms] by blast
    with True d show ?thesis
      by (simp add: filesystem_canCreateResource_def filesystem_getDirByNameInDir_def filesystem_getFileByNameInDir_def)
  next
    case F: False
    then have "\<forall>f \<in> files w. \<not> (file_name f = Some n \<and> file_parentId f = p)"
      unfolding file_names_def by (metis (mono_tags, lifting) image_eqI)
    then have "mongo_file_getByNameInDir E n p (w_db w) = Some None"
      using mon.file_getByNameInDir(2) [OF assms] by blast
    with False F d show ?thesis
      by (simp add: filesystem_canCreateResource_def filesystem_getDirByNameInDir_def filesystem_getFileByNameInDir_def)
  qed
qed

lemma addDir_spec:
  assumes w: "wf w" and d: "dir_name d = Some n" "id_ok (dir_parentId d)"
    and fresh: "\<forall>e \<in> dirs w. dir_id e \<noteq> fst (m_oid E (w_db w))"
  shows "\<exists>r d' w'. filesystem_addDir E d w = Some (r, d', w') \<and> wf w' \<and>
    (r \<longleftrightarrow> (Some n, dir_parentId d) \<notin> dir_names (dirs w) \<union> file_names (files w)) \<and>
    (if r then d' = d\<lparr>dir_id := fst (m_oid E (w_db w))\<rparr> \<and> dir_id d' \<noteq> ROOT_DIR_ID \<and> dirs w' = insert d' (dirs w) else w' = w) \<and>
    files w' = files w \<and> nodes w' = nodes w"
proof (cases "(Some n, dir_parentId d) \<in> dir_names (dirs w) \<union> file_names (files w)")
  case True
  then have "filesystem_addDir E d w = Some (False, d, w)"
    using canCreateResource_spec [OF w] by (auto simp: filesystem_addDir_def d(1))
  with True w show ?thesis by auto
next
  case False
  obtain r d' db' where s: "mongo_dir_save E d (w_db w) = (r, d', db')"
    by (cases "mongo_dir_save E d (w_db w)")
  have nn: "dir_name d \<noteq> None" using d(1) by simp
  note sv = mon.dir_save [OF w nn d(2) s]
  have d': "d' = d\<lparr>dir_id := fst (m_oid E (w_db w))\<rparr>" "dir_id d' \<noteq> ROOT_DIR_ID" using sv(1) by auto
  have r: r using sv(2) False fresh d by (simp add: d')
  have run: "filesystem_addDir E d w = Some (True, d', w\<lparr>w_db := db'\<rparr>)"
    using canCreateResource_spec [OF w] False s r by (simp add: filesystem_addDir_def d(1))
  show ?thesis
    using run sv(3,4) r d' False by (intro exI [of _ True] exI [of _ d'] exI [of _ "w\<lparr>w_db := db'\<rparr>"]) (simp add: meta_def)
qed

end


section \<open>The blocks of the files and the bitmaps of the nodes\<close>

definition file_copies :: "file_t \<Rightarrow> file_block_t list" where
  "file_copies f = concat (file_blocks f)"

text \<open>The copy lies in a used block of a known node.\<close>

definition held :: "'z commons_scheme \<Rightarrow> node_t set \<Rightarrow> file_block_t \<Rightarrow> bool" where
  "held c N b \<longleftrightarrow> (\<exists>n \<in> N. nd_id n = Some (fb_nodeId b) \<and> node_isBlockUsed c n (uint (fb_blockIndex b)))"

definition space_ok :: "'z commons_scheme \<Rightarrow> file_t set \<Rightarrow> node_t set \<Rightarrow> bool" where
  "space_ok c F N \<longleftrightarrow> (\<forall>n \<in> N. node_wf n) \<and>
     (\<forall>f \<in> F. distinct (file_copies f) \<and> (\<forall>b \<in> set (file_copies f). held c N b)) \<and>
     (\<forall>f \<in> F. \<forall>g \<in> F. f \<noteq> g \<longrightarrow> set (file_copies f) \<inter> set (file_copies g) = {})"

definition mdfs_inv :: "'z commons_scheme \<Rightarrow> ('db \<Rightarrow> coll \<Rightarrow> doc set) \<Rightarrow> ('db \<Rightarrow> coll \<Rightarrow> bool) \<Rightarrow> 'db \<Rightarrow> bool" where
  "mdfs_inv c docs uniq db \<longleftrightarrow> meta_wf (docs db) (uniq db) \<and> space_ok c (meta_files (docs db)) (meta_nodes (docs db))"

lemma held_iff:
  "held c N b \<longleftrightarrow> (\<exists>n \<in> N. nd_id n = Some (fb_nodeId b) \<and> unat (fb_blockIndex b) < unat (nd_blocksCount n) \<and>
     unat (fb_blockIndex b) \<notin> node_freeBlocks c n)"
proof -
  have "node_isBlockUsed c n (uint (fb_blockIndex b)) \<longleftrightarrow> unat (fb_blockIndex b) < unat (nd_blocksCount n) \<and>
      unat (fb_blockIndex b) \<notin> node_freeBlocks c n" for n
    unfolding uint_unat_count by (auto simp: node_freeBlocks_def node_isBlockUsed_def simp del: of_nat_unat)
  then show ?thesis by (simp add: held_def)
qed

lemma same_block:
  fixes a b :: file_block_t
  shows "fb_nodeId a = fb_nodeId b \<Longrightarrow> unat (fb_blockIndex a) = unat (fb_blockIndex b) \<Longrightarrow> a = b"
  by (cases a; cases b) (simp add: word_unat_eq_iff)

text \<open>Every node keeps its name and size, and its free blocks change by \<open>g\<close>.\<close>

definition nodes_rel :: "'z commons_scheme \<Rightarrow> (string option \<Rightarrow> nat set \<Rightarrow> nat set) \<Rightarrow> node_t set \<Rightarrow> node_t set \<Rightarrow> bool" where
  "nodes_rel c g N N' \<longleftrightarrow> nd_id ` N' = nd_id ` N \<and> (\<forall>n \<in> N. \<exists>n' \<in> N'. nd_id n' = nd_id n \<and>
     nd_blocksCount n' = nd_blocksCount n \<and> node_wf n' \<and> node_freeBlocks c n' = g (nd_id n) (node_freeBlocks c n))"

lemma nodes_rel_refl: "\<forall>n \<in> N. node_wf n \<Longrightarrow> nodes_rel c (\<lambda>_ S. S) N N"
  unfolding nodes_rel_def by blast

lemma nodes_rel_trans:
  assumes "nodes_rel c g N N'" and "nodes_rel c h N' N''"
  shows "nodes_rel c (\<lambda>i S. h i (g i S)) N N''"
  using assms unfolding nodes_rel_def by metis

lemma nodes_rel_wf:
  assumes "nodes_rel c g N N'" and "inj_on nd_id N'"
  shows "\<forall>n \<in> N'. node_wf n"
proof
  fix m assume m: "m \<in> N'"
  then obtain n where n: "n \<in> N" "nd_id n = nd_id m" using assms(1) unfolding nodes_rel_def by (metis imageE imageI)
  then obtain n' where "n' \<in> N'" "nd_id n' = nd_id n" "node_wf n'" using assms(1) unfolding nodes_rel_def by metis
  moreover from this have "n' = m" using assms(2) m n(2) by (auto dest: inj_onD)
  ultimately show "node_wf m" by simp
qed

lemma nodes_rel_held:
  assumes "nodes_rel c g N N'" and "n \<in> N" "nd_id n = Some (fb_nodeId b)" "unat (fb_blockIndex b) < unat (nd_blocksCount n)"
    and "unat (fb_blockIndex b) \<notin> g (nd_id n) (node_freeBlocks c n)"
  shows "held c N' b"
  using assms unfolding nodes_rel_def held_iff by metis

text \<open>Releasing the blocks of \<open>cs\<close>, and taking them.\<close>

abbreviation release_copies :: "file_block_t list \<Rightarrow> string option \<Rightarrow> nat set \<Rightarrow> nat set" where
  "release_copies cs \<equiv> \<lambda>i S. S \<union> used_by cs i"

abbreviation take_copies :: "file_block_t list \<Rightarrow> string option \<Rightarrow> nat set \<Rightarrow> nat set" where
  "take_copies cs \<equiv> \<lambda>i S. S - used_by cs i"

lemma used_by_mem: "nd_id n = Some (fb_nodeId b) \<Longrightarrow> unat (fb_blockIndex b) \<in> used_by cs (nd_id n) \<longleftrightarrow> b \<in> set cs"
proof
  assume n: "nd_id n = Some (fb_nodeId b)" and "unat (fb_blockIndex b) \<in> used_by cs (nd_id n)"
  then obtain a where "a \<in> set cs" "fb_nodeId a = fb_nodeId b" "unat (fb_blockIndex a) = unat (fb_blockIndex b)"
    unfolding used_by_def by fastforce
  then show "b \<in> set cs" using same_block [of a b] by simp
qed (auto simp: used_by_def)

lemma used_by_append: "used_by (xs @ ys) i = used_by xs i \<union> used_by ys i"
  by (auto simp: used_by_def)

lemma held_release:
  assumes "nodes_rel c (release_copies cs) N N'" and "held c N b" and "b \<notin> set cs"
  shows "held c N' b"
proof -
  obtain n where n: "n \<in> N" "nd_id n = Some (fb_nodeId b)" "unat (fb_blockIndex b) < unat (nd_blocksCount n)"
    "unat (fb_blockIndex b) \<notin> node_freeBlocks c n" using assms(2) unfolding held_iff by blast
  show ?thesis by (rule nodes_rel_held [OF assms(1) n(1-3)]) (use n used_by_mem [OF n(2), of cs] assms(3) in simp)
qed

lemma held_take:
  assumes "nodes_rel c (take_copies cs) N N'" and "held c N b"
  shows "held c N' b"
proof -
  obtain n where n: "n \<in> N" "nd_id n = Some (fb_nodeId b)" "unat (fb_blockIndex b) < unat (nd_blocksCount n)"
    "unat (fb_blockIndex b) \<notin> node_freeBlocks c n" using assms(2) unfolding held_iff by blast
  show ?thesis by (rule nodes_rel_held [OF assms(1) n(1-3)]) (use n in simp)
qed

lemma held_taken:
  assumes "nodes_rel c (take_copies cs) N N'" and "b \<in> set cs"
    and "n \<in> N" "nd_id n = Some (fb_nodeId b)" "unat (fb_blockIndex b) < unat (nd_blocksCount n)"
  shows "held c N' b"
  by (rule nodes_rel_held [OF assms(1,3-5)]) (use used_by_mem [OF assms(4)] assms(2) in simp)

text \<open>When every file's copies are copies of a file that was there (and are still held).\<close>

lemma space_ok_shrink:
  assumes "space_ok c F N" and "\<forall>n \<in> N'. node_wf n"
    and r: "\<forall>f' \<in> F'. r f' \<in> F \<and> set (file_copies f') \<subseteq> set (file_copies (r f')) \<and> distinct (file_copies f') \<and>
      (\<forall>b \<in> set (file_copies f'). held c N' b)" and "inj_on r F'"
  shows "space_ok c F' N'"
  unfolding space_ok_def
proof (intro conjI ballI impI)
  fix f g assume fg: "f \<in> F'" "g \<in> F'" "f \<noteq> g"
  then have "r f \<noteq> r g" "r f \<in> F" "r g \<in> F" using assms(4) r by (auto dest: inj_onD)
  then have "set (file_copies (r f)) \<inter> set (file_copies (r g)) = {}" using assms(1) by (simp add: space_ok_def)
  moreover have "set (file_copies f) \<subseteq> set (file_copies (r f))" "set (file_copies g) \<subseteq> set (file_copies (r g))"
    using r fg by blast+
  ultimately show "set (file_copies f) \<inter> set (file_copies g) = {}" by blast
qed (use assms in blast)+

section \<open>Releasing and taking blocks\<close>

context fs_laws begin

lemma nodes_inj: "wf w \<Longrightarrow> inj_on nd_id (nodes w)"
  using mon.node_unique unfolding inj_on_def by blast

text \<open>One node written back with the same name and size.\<close>

lemma updateBlocks_rel:
  assumes w: "wf w" and nwf: "\<forall>n \<in> nodes w. node_wf n" and n: "n \<in> nodes w"
    and m: "nd_id m = nd_id n" "nd_blocksCount m = nd_blocksCount n" "node_wf m"
    and g: "node_freeBlocks E m = g (nd_id n) (node_freeBlocks E n)" "\<And>i S. i \<noteq> nd_id n \<Longrightarrow> g i S = S"
  defines "w' \<equiv> w\<lparr>w_db := mongo_node_updateBlocks E m (w_db w)\<rparr>"
  shows "wf w' \<and> dirs w' = dirs w \<and> files w' = files w \<and> nodes_rel E g (nodes w) (nodes w')"
proof -
  note up = mon.node_updateBlocks [OF w n m(1)]
  have nodes': "nodes w' = insert m (nodes w - {n})" and rest: "dirs w' = dirs w" "files w' = files w" "wf w'"
    using up by (simp_all add: meta_def w'_def)
  have ids: "nd_id ` nodes w' = nd_id ` nodes w"
    unfolding nodes' using n m(1) by (metis image_insert insert_Diff)
  have "\<exists>k' \<in> nodes w'. nd_id k' = nd_id k \<and> nd_blocksCount k' = nd_blocksCount k \<and> node_wf k' \<and>
      node_freeBlocks E k' = g (nd_id k) (node_freeBlocks E k)" if k: "k \<in> nodes w" for k
  proof (cases "k = n")
    case True
    then show ?thesis using m g(1) unfolding nodes' by blast
  next
    case False
    then have "nd_id k \<noteq> nd_id n" using mon.node_unique [OF w k n] by simp
    with False k nwf show ?thesis unfolding nodes' by (intro bexI [of _ k]) (simp_all add: g(2))
  qed
  with ids rest show ?thesis by (simp add: nodes_rel_def)
qed

lemma getNodeById_held:
  assumes "wf w" and "n \<in> nodes w" "nd_id n = Some i"
  shows "filesystem_getNodeById E i w = Some (Some n)"
  using mon.node_getById(1) [OF assms(1)] assms(2,3) by (simp add: filesystem_getNodeById_def)

lemma used_by_single: "used_by [b] i = (if i = Some (fb_nodeId b) then {unat (fb_blockIndex b)} else {})"
  by (auto simp: used_by_def)

lemma free_copy_rel:
  assumes w: "wf w" and nwf: "\<forall>n \<in> nodes w. node_wf n"
    and n: "n \<in> nodes w" "nd_id n = Some (fb_nodeId b)" "unat (fb_blockIndex b) < unat (nd_blocksCount n)"
  shows "\<exists>w'. free_copy E b w = Some w' \<and> w' = w\<lparr>w_db := w_db w'\<rparr> \<and> wf w' \<and> dirs w' = dirs w \<and> files w' = files w \<and>
    nodes_rel E (release_copies [b]) (nodes w) (nodes w')"
proof -
  let ?m = "node_setBlockFree E n (int (unat (fb_blockIndex b)))"
  let ?w' = "w\<lparr>w_db := mongo_node_updateBlocks E ?m (w_db w)\<rparr>"
  have wn: "node_wf n" using nwf n(1) by blast
  have run: "free_copy E b w = Some ?w'"
    using getNodeById_held [OF w n(1,2)] by (simp add: free_copy_def)
  have "wf ?w' \<and> dirs ?w' = dirs w \<and> files ?w' = files w \<and> nodes_rel E (release_copies [b]) (nodes w) (nodes ?w')"
  proof (rule updateBlocks_rel [OF w nwf n(1)])
    show "node_wf ?m" by (rule com.node_wf_upd(2) [OF wn])
    show "node_freeBlocks E ?m = node_freeBlocks E n \<union> used_by [b] (nd_id n)"
      using com.node_freeBlocks_setBlockFree [OF wn n(3)] by (simp only: used_by_single n(2)) simp
  qed (simp_all add: used_by_single n(2))
  with run show ?thesis by auto
qed

lemma free_copies_rel:
  assumes "wf w" "\<forall>n \<in> nodes w. node_wf n"
    and "\<forall>b \<in> set bs. \<exists>n \<in> nodes w. nd_id n = Some (fb_nodeId b) \<and> unat (fb_blockIndex b) < unat (nd_blocksCount n)"
  shows "\<exists>w'. fold_opt (free_copy E) bs w = Some w' \<and> w' = w\<lparr>w_db := w_db w'\<rparr> \<and> wf w' \<and> dirs w' = dirs w \<and>
    files w' = files w \<and> nodes_rel E (release_copies bs) (nodes w) (nodes w')"
  using assms
proof (induction bs arbitrary: w)
  case Nil
  then show ?case by (simp add: nodes_rel_refl used_by_def)
next
  case (Cons b bs)
  obtain n where n: "n \<in> nodes w" "nd_id n = Some (fb_nodeId b)" "unat (fb_blockIndex b) < unat (nd_blocksCount n)"
    using Cons.prems(3) by auto
  obtain w1 where w1: "free_copy E b w = Some w1" "w1 = w\<lparr>w_db := w_db w1\<rparr>" "wf w1" "dirs w1 = dirs w"
    "files w1 = files w" "nodes_rel E (release_copies [b]) (nodes w) (nodes w1)"
    using free_copy_rel [OF Cons.prems(1,2) n] by blast
  have nwf1: "\<forall>n \<in> nodes w1. node_wf n" by (rule nodes_rel_wf [OF w1(6) nodes_inj [OF w1(3)]])
  have "\<forall>b \<in> set bs. \<exists>n \<in> nodes w1. nd_id n = Some (fb_nodeId b) \<and> unat (fb_blockIndex b) < unat (nd_blocksCount n)"
    using Cons.prems(3) w1(6) unfolding nodes_rel_def by (metis list.set_intros(2))
  from Cons.IH [OF w1(3) nwf1 this] obtain w2 where w2: "fold_opt (free_copy E) bs w1 = Some w2"
    "w2 = w1\<lparr>w_db := w_db w2\<rparr>" "wf w2" "dirs w2 = dirs w1" "files w2 = files w1"
    "nodes_rel E (release_copies bs) (nodes w1) (nodes w2)" by blast
  have "nodes_rel E (release_copies (b # bs)) (nodes w) (nodes w2)"
    using nodes_rel_trans [OF w1(6) w2(6)] used_by_append [of "[b]" bs] by (simp add: Un_assoc)
  moreover have "w2 = w\<lparr>w_db := w_db w2\<rparr>" using w1(2) w2(2) by (metis world.update_convs(1) world.surjective)
  ultimately show ?case using w1 w2 by simp
qed

lemma fold_opt_concat: "fold_opt (fold_opt f) xss = fold_opt f (concat xss)"
proof (induction xss)
  case (Cons xs xss)
  show ?case by (rule ext) (simp add: fold_opt_append Cons.IH)
qed (simp add: fun_eq_iff)

end

lemma held_not_free:
  assumes "held c N b" "inj_on nd_id N" "n \<in> N" "nd_id n = Some (fb_nodeId b)"
  shows "unat (fb_blockIndex b) \<notin> node_freeBlocks c n"
  using assms unfolding held_iff by (metis inj_onD)

text \<open>One new or changed file that takes the free blocks \<open>cs\<close>.\<close>

lemma space_ok_take:
  assumes so: "space_ok c F N" and inj: "inj_on nd_id N" and rel: "nodes_rel c (take_copies cs) N N'"
    and wf': "\<forall>n \<in> N'. node_wf n" and F0: "F0 \<subseteq> F" and dis: "distinct (file_copies f')"
    and sub: "set (file_copies f') \<subseteq> set cs \<union> S" and S: "\<forall>b \<in> S. held c N b"
      "\<forall>g \<in> F0. g \<noteq> f' \<longrightarrow> set (file_copies g) \<inter> S = {}"
    and free: "\<forall>b \<in> set cs. \<exists>n \<in> N. nd_id n = Some (fb_nodeId b) \<and> unat (fb_blockIndex b) \<in> node_freeBlocks c n"
  shows "space_ok c (insert f' F0) N'"
proof -
  have disj: "set (file_copies g) \<inter> set (file_copies f') = {}" if g: "g \<in> F0" "g \<noteq> f'" for g
  proof -
    have "b \<notin> set cs" if "b \<in> set (file_copies g)" for b
    proof
      assume "b \<in> set cs"
      then obtain n where n: "n \<in> N" "nd_id n = Some (fb_nodeId b)" "unat (fb_blockIndex b) \<in> node_freeBlocks c n"
        using free by blast
      have "held c N b" using so g(1) F0 that by (auto simp: space_ok_def)
      from held_not_free [OF this inj n(1,2)] n(3) show False by contradiction
    qed
    then show ?thesis using sub S(2) g by blast
  qed
  have held': "held c N' b" if "b \<in> set (file_copies f')" for b
  proof (cases "b \<in> set cs")
    case True
    then obtain n where n: "n \<in> N" "nd_id n = Some (fb_nodeId b)" "unat (fb_blockIndex b) \<in> node_freeBlocks c n"
      using free by blast
    show ?thesis by (rule held_taken [OF rel True n(1,2)]) (use n(3) in \<open>simp add: node_freeBlocks_def\<close>)
  next
    case False
    then show ?thesis using held_take [OF rel] S(1) sub that by blast
  qed
  have "distinct (file_copies g) \<and> (\<forall>b \<in> set (file_copies g). held c N' b)" if "g \<in> F0" for g
    using so F0 that held_take [OF rel] by (auto simp: space_ok_def)
  then have one: "\<forall>g \<in> insert f' F0. distinct (file_copies g) \<and> (\<forall>b \<in> set (file_copies g). held c N' b)"
    using held' dis by simp
  have two: "set (file_copies g) \<inter> set (file_copies h) = {}" if gh: "g \<in> insert f' F0" "h \<in> insert f' F0" "g \<noteq> h" for g h
  proof (cases "g \<in> F0 \<and> h \<in> F0 \<and> g \<noteq> f' \<and> h \<noteq> f'")
    case True
    then show ?thesis using so F0 gh(3) unfolding space_ok_def by (meson subsetD)
  next
    case False
    then consider "g = f'" "h \<in> F0" "h \<noteq> f'" | "h = f'" "g \<in> F0" "g \<noteq> f'" using gh by auto
    then show ?thesis using disj by cases blast+
  qed
  show ?thesis using wf' one two unfolding space_ok_def by blast
qed

lemma concat_update:
  assumes "i < length xss"
  shows "\<exists>pre post. xss = pre @ xss ! i # post \<and> (\<forall>ys. xss[i := ys] = pre @ ys # post)"
  using id_take_nth_drop [OF assms] upd_conv_take_nth_drop [OF assms] by metis

text \<open>Removing a copy from its block, and adding one.\<close>

lemma copies_remove:
  assumes "i < length (file_blocks f)" "distinct (file_copies f)" "b \<in> set (file_blocks f ! i)"
  defines "f' \<equiv> f\<lparr>file_blocks := (file_blocks f)[i := filter (\<lambda>c. c \<noteq> b) (file_blocks f ! i)]\<rparr>"
  shows "distinct (file_copies f')" "set (file_copies f') = set (file_copies f) - {b}"
proof -
  obtain pre post where p: "file_blocks f = pre @ file_blocks f ! i # post"
    "\<forall>ys. (file_blocks f)[i := ys] = pre @ ys # post" using concat_update [OF assms(1)] by blast
  have c: "file_copies f = concat pre @ file_blocks f ! i @ concat post"
    unfolding file_copies_def by (subst p(1)) simp
  have c': "file_copies f' = concat pre @ filter (\<lambda>c. c \<noteq> b) (file_blocks f ! i) @ concat post"
    by (simp add: file_copies_def f'_def p(2) [rule_format])
  show "distinct (file_copies f')" using assms(2) unfolding c c' by (auto intro: distinct_filter)
  show "set (file_copies f') = set (file_copies f) - {b}"
    using assms(2,3) unfolding c c' by auto
qed

lemma copies_add:
  assumes "i < length (file_blocks f)" "distinct (file_copies f)" "b \<notin> set (file_copies f)"
  defines "f' \<equiv> f\<lparr>file_blocks := (file_blocks f)[i := file_blocks f ! i @ [b]]\<rparr>"
  shows "distinct (file_copies f')" "set (file_copies f') = insert b (set (file_copies f))"
proof -
  obtain pre post where p: "file_blocks f = pre @ file_blocks f ! i # post"
    "\<forall>ys. (file_blocks f)[i := ys] = pre @ ys # post" using concat_update [OF assms(1)] by blast
  have c: "file_copies f = concat pre @ file_blocks f ! i @ concat post"
    unfolding file_copies_def by (subst p(1)) simp
  have c': "file_copies f' = concat pre @ (file_blocks f ! i @ [b]) @ concat post"
    by (simp add: file_copies_def f'_def p(2) [rule_format])
  show "distinct (file_copies f')" "set (file_copies f') = insert b (set (file_copies f))"
    using assms(2,3) unfolding c c' by auto
qed

section \<open>Deleting and copying\<close>

context fs_laws begin

abbreviation inv :: "('n, 'db) world \<Rightarrow> bool" where "inv w \<equiv> mdfs_inv E docs uniq (w_db w)"

lemma inv_wf: "inv w \<Longrightarrow> wf w" "inv w \<Longrightarrow> space_ok E (files w) (nodes w)" "inv w \<Longrightarrow> \<forall>n \<in> nodes w. node_wf n"
  by (simp_all add: mdfs_inv_def space_ok_def)

lemma inv_held: "inv w \<Longrightarrow> f \<in> files w \<Longrightarrow> b \<in> set (file_copies f) \<Longrightarrow> held E (nodes w) b"
  by (simp add: mdfs_inv_def space_ok_def)

lemma inv_distinct: "inv w \<Longrightarrow> f \<in> files w \<Longrightarrow> distinct (file_copies f)"
  by (simp add: mdfs_inv_def space_ok_def)

text \<open>Any record whose copies lie on known nodes; the file with its identifier goes.\<close>

lemma deleteFile_run:
  assumes w: "wf w" and nwf: "\<forall>n \<in> nodes w. node_wf n"
    and held: "\<forall>b \<in> set (file_copies f). \<exists>n \<in> nodes w. nd_id n = Some (fb_nodeId b) \<and>
      unat (fb_blockIndex b) < unat (nd_blocksCount n)"
  shows "\<exists>w'. filesystem_deleteFile E (Some f) w = Some (True, w') \<and> w' = w\<lparr>w_db := w_db w'\<rparr> \<and> wf w' \<and>
    dirs w' = dirs w \<and> files w' = {g \<in> files w. file_id g \<noteq> file_id f} \<and>
    nodes_rel E (release_copies (file_copies f)) (nodes w) (nodes w')"
proof -
  obtain w1 where w1: "fold_opt (free_copy E) (file_copies f) w = Some w1" "w1 = w\<lparr>w_db := w_db w1\<rparr>" "wf w1"
    "dirs w1 = dirs w" "files w1 = files w" "nodes_rel E (release_copies (file_copies f)) (nodes w) (nodes w1)"
    using free_copies_rel [OF w nwf held] by blast
  let ?db' = "snd (mongo_file_deleteById E (file_id f) (w_db w1))"
  let ?w' = "w1\<lparr>w_db := ?db'\<rparr>"
  note del = mon.delete_laws [OF w1(3)]
  have run: "filesystem_deleteFile E (Some f) w = Some (True, ?w')"
    using w1(1) del(2) [of "file_id f"]
    by (simp add: filesystem_deleteFile_def fold_opt_concat file_copies_def case_prod_beta)
  have parts: "dirs ?w' = dirs w" "files ?w' = {g \<in> files w. file_id g \<noteq> file_id f}" "nodes ?w' = nodes w1"
    using del(7) [of "file_id f"] by (simp_all add: meta_def w1(4,5))
  have "wf ?w'"
    using del(11) by (simp add: mongo_file_deleteById_def mongo_deleteDocByQuery_def)
  moreover have "?w' = w\<lparr>w_db := w_db ?w'\<rparr>" using w1(2) by (metis world.update_convs(1) world.surjective)
  ultimately show ?thesis using run parts w1(6) by (intro exI [of _ ?w']) simp
qed

lemma deleteFile_spec:
  assumes inv: "inv w" and f: "f \<in> files w"
  shows "\<exists>w'. filesystem_deleteFile E (Some f) w = Some (True, w') \<and> w' = w\<lparr>w_db := w_db w'\<rparr> \<and> inv w' \<and>
    dirs w' = dirs w \<and> files w' = files w - {f} \<and> nodes_rel E (release_copies (file_copies f)) (nodes w) (nodes w')"
proof -
  have held: "\<forall>b \<in> set (file_copies f). \<exists>n \<in> nodes w. nd_id n = Some (fb_nodeId b) \<and>
      unat (fb_blockIndex b) < unat (nd_blocksCount n)"
    using inv_held [OF inv f] unfolding held_iff by blast
  obtain w' where w': "filesystem_deleteFile E (Some f) w = Some (True, w')" "w' = w\<lparr>w_db := w_db w'\<rparr>" "wf w'"
    "dirs w' = dirs w" "files w' = {g \<in> files w. file_id g \<noteq> file_id f}"
    "nodes_rel E (release_copies (file_copies f)) (nodes w) (nodes w')"
    using deleteFile_run [OF inv_wf(1,3) [OF inv] held] by blast
  have files': "files w' = files w - {f}"
    unfolding w'(5) using mon.file_unique(1) [OF inv_wf(1) [OF inv] _ f] by blast
  have "space_ok E (files w') (nodes w')"
  proof (rule space_ok_shrink [OF inv_wf(2) [OF inv], where r = id])
    show "\<forall>n \<in> nodes w'. node_wf n" by (rule nodes_rel_wf [OF w'(6) nodes_inj [OF w'(3)]])
    show "\<forall>g \<in> files w'. id g \<in> files w \<and> set (file_copies g) \<subseteq> set (file_copies (id g)) \<and>
        distinct (file_copies g) \<and> (\<forall>b \<in> set (file_copies g). held E (nodes w') b)"
    proof
      fix g assume "g \<in> files w'"
      then have g: "g \<in> files w" "g \<noteq> f" unfolding files' by simp_all
      have "b \<notin> set (file_copies f)" if "b \<in> set (file_copies g)" for b
        using inv_wf(2) [OF inv] g f that unfolding space_ok_def by blast
      then show "id g \<in> files w \<and> set (file_copies g) \<subseteq> set (file_copies (id g)) \<and> distinct (file_copies g) \<and>
          (\<forall>b \<in> set (file_copies g). held E (nodes w') b)"
        using held_release [OF w'(6)] inv_held [OF inv g(1)] inv_distinct [OF inv g(1)] g(1) by simp
    qed
  qed simp
  with w'(3) have "inv w'" by (simp add: mdfs_inv_def)
  with w' files' show ?thesis by blast
qed

end

context fs_laws begin

lemma deleteCopy_spec:
  fixes f :: file_t
  assumes inv: "inv w" and f: "f \<in> files w" and i: "unat bi < length (file_blocks f)"
    and k: "unat ci < length (file_blocks f ! unat bi)"
  defines "b \<equiv> file_blocks f ! unat bi ! unat ci"
  defines "f' \<equiv> f\<lparr>file_blocks := (file_blocks f)[unat bi := filter (\<lambda>c. c \<noteq> b) (file_blocks f ! unat bi)]\<rparr>"
  shows "\<exists>w'. filesystem_deleteFileBlockCopy E (Some f) bi ci w = Some (1, w') \<and> w' = w\<lparr>w_db := w_db w'\<rparr> \<and> inv w' \<and>
    dirs w' = dirs w \<and> files w' = insert f' (files w - {f}) \<and> nodes_rel E (release_copies [b]) (nodes w) (nodes w')"
proof -
  let ?w1 = "w\<lparr>w_db := mongo_file_deleteBlockCopy E (file_id f) bi b (w_db w)\<rparr>"
  have bin: "b \<in> set (file_blocks f ! unat bi)" using k by (simp add: b_def)
  then have bf: "b \<in> set (file_copies f)" using i by (auto simp: file_copies_def)
  note del = mon.file_deleteBlockCopy [OF inv_wf(1) [OF inv] f i, of b]
  have w1: "wf ?w1" "dirs ?w1 = dirs w" "files ?w1 = insert f' (files w - {f})" "nodes ?w1 = nodes w"
    using del by (simp_all add: meta_def f'_def)
  obtain n where n: "n \<in> nodes w" "nd_id n = Some (fb_nodeId b)" "unat (fb_blockIndex b) < unat (nd_blocksCount n)"
    using inv_held [OF inv f bf] unfolding held_iff by blast
  have nwf1: "\<forall>n \<in> nodes ?w1. node_wf n" unfolding w1(4) by (rule inv_wf(3) [OF inv])
  obtain w2 where w2: "free_copy E b ?w1 = Some w2" "w2 = ?w1\<lparr>w_db := w_db w2\<rparr>" "wf w2" "dirs w2 = dirs ?w1"
    "files w2 = files ?w1" "nodes_rel E (release_copies [b]) (nodes ?w1) (nodes w2)"
    using free_copy_rel [OF w1(1) nwf1 n(1) [folded w1(4)] n(2,3)] by blast
  have run: "filesystem_deleteFileBlockCopy E (Some f) bi ci w = Some (1, w2)"
    using w2(1) getNodeById_held [OF w1(1) n(1) [folded w1(4)] n(2)] i k
    by (simp add: filesystem_deleteFileBlockCopy_def free_copy_def b_def Let_def)
  note cp = copies_remove [OF i inv_distinct [OF inv f] bin, folded f'_def]
  let ?r = "\<lambda>g. if g = f' then f else g"
  have "space_ok E (files w2) (nodes w2)"
  proof (rule space_ok_shrink [OF inv_wf(2) [OF inv], where r = ?r])
    show "\<forall>n \<in> nodes w2. node_wf n" by (rule nodes_rel_wf [OF w2(6) nodes_inj [OF w2(3)]])
    show "inj_on ?r (files w2)" unfolding w2(5) w1(3) by (auto simp: inj_on_def)
    have held2: "held E (nodes w2) c" if "g \<in> files w" "c \<in> set (file_copies g)" "c \<noteq> b" for g c
      by (rule held_release [OF w2(6) [unfolded w1(4)] inv_held [OF inv that(1,2)]]) (use that(3) in simp)
    have other: "b \<notin> set (file_copies g)" if "g \<in> files w" "g \<noteq> f" for g
      using inv_wf(2) [OF inv] that f bf unfolding space_ok_def by blast
    show "\<forall>g \<in> files w2. ?r g \<in> files w \<and> set (file_copies g) \<subseteq> set (file_copies (?r g)) \<and>
        distinct (file_copies g) \<and> (\<forall>c \<in> set (file_copies g). held E (nodes w2) c)"
    proof
      fix g assume "g \<in> files w2"
      then consider "g = f'" | "g \<in> files w" "g \<noteq> f" "g \<noteq> f'" unfolding w2(5) w1(3) by blast
      then show "?r g \<in> files w \<and> set (file_copies g) \<subseteq> set (file_copies (?r g)) \<and>
          distinct (file_copies g) \<and> (\<forall>c \<in> set (file_copies g). held E (nodes w2) c)"
      proof cases
        case 1
        then show ?thesis using f cp held2 [OF f] by auto
      next
        case 2
        then show ?thesis using held2 [OF 2(1)] other [OF 2(1,2)] inv_distinct [OF inv 2(1)] by auto
      qed
    qed
  qed
  with w2(3) have "inv w2" by (simp add: mdfs_inv_def)
  moreover have "w2 = w\<lparr>w_db := w_db w2\<rparr>" using w2(2) by (cases w; cases w2) simp
  moreover have "dirs w2 = dirs w" "files w2 = insert f' (files w - {f})" using w2(4,5) w1(2,3) by simp_all
  moreover have "nodes_rel E (release_copies [b]) (nodes w) (nodes w2)" using w2(6) unfolding w1(4) .
  ultimately show ?thesis using run by blast
qed

lemma first_copy_frame:
  "first_copy E cs w = (r, w') \<Longrightarrow> w_db w' = w_db w \<and> w_local w' = w_local w \<and> w_standby w' = w_standby w"
proof (induction cs arbitrary: w)
  case (Cons c cs)
  obtain r1 w1 where g: "connections_node_getBlock E c w = (r1, w1)" by (cases "connections_node_getBlock E c w")
  have fr: "w_db w1 = w_db w" "w_local w1 = w_local w" "w_standby w1 = w_standby w"
    using conjunct1 [OF getBlock_frame [OF g]] by (simp_all add: request_frame_def)
  show ?case
  proof (cases r1)
    case None
    then have "first_copy E cs w1 = (r, w')" using Cons.prems g by simp
    from Cons.IH [OF this] fr show ?thesis by simp
  next
    case (Some x)
    then have "w1 = w'" using Cons.prems g by simp
    with fr show ?thesis by simp
  qed
qed simp

text \<open>A block taken on a node and recorded as a copy of a file's block.\<close>

lemma record_copy:
  fixes f :: file_t
  assumes inv: "inv w" and f: "f \<in> files w" and bi: "unat bi < length (file_blocks f)"
    and n: "n \<in> nodes w" "nd_id n = Some i" "node_getFirstFreeBlock E n \<noteq> -1"
    and i: "i \<notin> fb_nodeId ` set (file_blocks f ! unat bi)"
  defines "b \<equiv> \<lparr>fb_nodeId = i, fb_blockIndex = word_of_int (node_getFirstFreeBlock E n)\<rparr>"
  defines "f' \<equiv> f\<lparr>file_blocks := (file_blocks f)[unat bi := file_blocks f ! unat bi @ [b]]\<rparr>"
  assumes w': "w_db w' = mongo_file_addBlockCopyToFile E (file_id f) bi b (mongo_node_updateBlocks E
      (node_setBlockUsed E n (node_getFirstFreeBlock E n)) (w_db w))"
  shows "inv w' \<and> dirs w' = dirs w \<and> files w' = insert f' (files w - {f}) \<and>
    nodes_rel E (take_copies [b]) (nodes w) (nodes w') \<and> unat (fb_blockIndex b) \<in> node_freeBlocks E n"
proof -
  let ?k = "node_getFirstFreeBlock E n"
  let ?m = "node_setBlockUsed E n ?k"
  let ?w1 = "w\<lparr>w_db := mongo_node_updateBlocks E ?m (w_db w)\<rparr>"
  have wn: "node_wf n" using inv_wf(3) [OF inv] n(1) by blast
  have k: "nat ?k \<in> node_freeBlocks E n" "?k = int (nat ?k)" using com.blk.first_in_free [OF n(3)] by auto
  have ub: "unat (fb_blockIndex b) = nat ?k"
    using unat_of_index [of ?k] node_freeBlocks_u16 [OF k(1)] k(2) by (simp add: b_def)
  have "wf ?w1 \<and> dirs ?w1 = dirs w \<and> files ?w1 = files w \<and> nodes_rel E (take_copies [b]) (nodes w) (nodes ?w1)"
  proof (rule updateBlocks_rel [OF inv_wf(1,3) [OF inv] n(1)])
    show "node_wf ?m" by (rule com.node_wf_upd(1) [OF wn])
    show "node_freeBlocks E ?m = node_freeBlocks E n - used_by [b] (nd_id n)"
      using com.blk.allocate_free [OF wn n(3)] by (simp add: used_by_single n(2) ub) (simp add: b_def)
  qed (simp_all add: used_by_single n(2) b_def)
  then have w1: "wf ?w1" "dirs ?w1 = dirs w" "files ?w1 = files w" "nodes_rel E (take_copies [b]) (nodes w) (nodes ?w1)"
    by blast+
  have nb: "b \<notin> set (file_blocks f ! unat bi)" using i by (force simp: b_def)
  have fn: "unat (fb_blockIndex b) \<in> node_freeBlocks E n" using k(1) ub by simp
  have nf: "b \<notin> set (file_copies f)"
  proof
    assume "b \<in> set (file_copies f)"
    from held_not_free [OF inv_held [OF inv f this] nodes_inj [OF inv_wf(1) [OF inv]] n(1)] fn n(2)
    show False by (simp add: b_def)
  qed
  note add = mon.file_addBlockCopyToFile [OF w1(1) f [folded w1(3)] bi, of b]
  have parts: "dirs w' = dirs w" "files w' = insert f' (files w - {f})" "nodes w' = nodes ?w1" "wf w'"
    using add w1(2,3) nb by (simp_all add: meta_def f'_def w')
  note cp = copies_add [OF bi inv_distinct [OF inv f] nf, folded f'_def]
  have "space_ok E (insert f' (files w - {f})) (nodes w')"
  proof (rule space_ok_take [OF inv_wf(2) [OF inv] nodes_inj [OF inv_wf(1) [OF inv]],
        where cs = "[b]" and S = "set (file_copies f)"])
    show "nodes_rel E (take_copies [b]) (nodes w) (nodes w')" unfolding parts(3) by (rule w1(4))
    show "\<forall>n \<in> nodes w'. node_wf n" unfolding parts(3) by (rule nodes_rel_wf [OF w1(4) nodes_inj [OF w1(1)]])
    show "\<forall>c \<in> set (file_copies f). held E (nodes w) c" using inv_held [OF inv f] by blast
    show "\<forall>g \<in> files w - {f}. g \<noteq> f' \<longrightarrow> set (file_copies g) \<inter> set (file_copies f) = {}"
      using inv_wf(2) [OF inv] f unfolding space_ok_def by blast
    show "\<forall>c \<in> set [b]. \<exists>m \<in> nodes w. nd_id m = Some (fb_nodeId c) \<and> unat (fb_blockIndex c) \<in> node_freeBlocks E m"
      using n(1,2) fn by (simp add: bexI [of _ n]) (auto simp: b_def intro!: bexI [of _ n])
  qed (use cp in auto)
  then show ?thesis using parts w1(4) fn by (simp add: mdfs_inv_def)
qed

lemma makeCopy_spec:
  fixes f :: file_t
  assumes inv: "inv w" and f: "f \<in> files w"
    and run: "filesystem_makeNewFileBlockCopy E (Some f) bi w = Some (r, fo, w')"
  shows "if r = 1 then unat bi < length (file_blocks f) \<and> (\<exists>b f'. fo = Some f' \<and>
      f' = f\<lparr>file_blocks := (file_blocks f)[unat bi := file_blocks f ! unat bi @ [b]]\<rparr> \<and>
      fb_nodeId b \<notin> fb_nodeId ` set (file_blocks f ! unat bi) \<and>
      inv w' \<and> dirs w' = dirs w \<and> files w' = insert f' (files w - {f}) \<and>
      nodes_rel E (take_copies [b]) (nodes w) (nodes w') \<and>
      (\<exists>n \<in> nodes w. nd_id n = Some (fb_nodeId b) \<and> unat (fb_blockIndex b) \<in> node_freeBlocks E n))
    else w_db w' = w_db w \<and> fo = Some f"
proof (cases "unat bi < length (file_blocks f)")
  case False
  then show ?thesis using run by (simp add: filesystem_makeNewFileBlockCopy_def)
next
  case i: True
  let ?cs = "file_blocks f ! unat bi"
  obtain bo w1 where g: "first_copy E ?cs w = (bo, w1)" by (cases "first_copy E ?cs w")
  have db1: "w_db w1 = w_db w" using first_copy_frame [OF g] by blast
  show ?thesis
  proof (cases bo)
    case None
    with run g i db1 show ?thesis by (simp add: filesystem_makeNewFileBlockCopy_def Let_def)
  next
    case (Some block)
    have w1: "wf w1" using inv_wf(1) [OF inv] by (simp add: db1)
    obtain H where H: "filesystem_getAllActivatedNodes E w1 = Some H" "distinct (map nd_id H)"
      "set H = {n \<in> nodes w1. \<exists>i. nd_id n = Some i \<and> connections_node_isActiveNode i w1}"
      using getAllActivatedNodes_spec [OF w1] by blast
    let ?order = "e_sort E (\<lambda>a b. filesystem_nodeComparatorByBlocksFree E (H ! a) (H ! b)) [0..<length H]"
    let ?P = "\<lambda>a. \<forall>c \<in> set ?cs. Some (fb_nodeId c) \<noteq> nd_id (H ! a)"
    show ?thesis
    proof (cases "List.find ?P ?order")
      case None
      then show ?thesis using run i g Some H(1) db1 by (simp add: filesystem_makeNewFileBlockCopy_def Let_def)
    next
      case (Some a)
      let ?n = "H ! a" and ?k = "node_getFirstFreeBlock E (H ! a)"
      note fa = find_Some_iff [OF Some]
      have "a \<in> set [0..<length H]" using fa srt.sort_set by blast
      then have nH: "?n \<in> set H" by simp
      then obtain i where n: "?n \<in> nodes w" "nd_id ?n = Some i" using H(3) by (auto simp: db1)
      show ?thesis
      proof (cases "?k = -1")
        case True
        then show ?thesis using run i g \<open>bo = Some block\<close> H(1) db1 Some
          by (simp add: filesystem_makeNewFileBlockCopy_def Let_def)
      next
        case False
        obtain str where str: "buffer_str E block = Some str"
          using run i g \<open>bo = Some block\<close> H(1) Some False
          by (cases "buffer_str E block") (simp_all add: filesystem_makeNewFileBlockCopy_def Let_def)
        let ?so = "filesystem_nodeBlockSendOperation_create ?n ?k str"
        obtain sent w2 where sb: "filesystem_sendBlockToNode E ?so w1 = Some (sent, w2)"
          using sendBlock_total [of ?so i E w1] n(2)
          by (auto simp: filesystem_sendBlockToNode_def filesystem_nodeBlockSendOperation_create_def)
        have db2: "w_db w2 = w_db w"
          using sendBlock_frame [of E ?so w1 sent w2] sb db1
          by (auto simp: filesystem_sendBlockToNode_def request_frame_def)
        let ?b = "\<lparr>fb_nodeId = i, fb_blockIndex = word_of_int ?k\<rparr>"
        have ni: "i \<notin> fb_nodeId ` set ?cs" using fa n(2) by auto
        note rc = record_copy [OF inv f i n False ni]
        have "if sent then r = 1 \<and> fo = Some (f\<lparr>file_blocks := (file_blocks f)[unat bi := ?cs @ [?b]]\<rparr>) \<and>
            w_db w' = mongo_file_addBlockCopyToFile E (file_id f) bi ?b (mongo_node_updateBlocks E
              (node_setBlockUsed E ?n ?k) (w_db w))
          else r = -3 \<and> w_db w' = w_db w \<and> fo = Some f"
          using run i g \<open>bo = Some block\<close> H(1) Some False str sb db2 n(2)
          by (auto simp: filesystem_makeNewFileBlockCopy_def Let_def split: if_splits)
        note res = this
        show ?thesis
        proof (cases sent)
          case False
          with res show ?thesis by simp
        next
          case True
          let ?f' = "f\<lparr>file_blocks := (file_blocks f)[unat bi := ?cs @ [?b]]\<rparr>"
          from res True have r: "r = 1" "fo = Some ?f'" and w': "w_db w' = mongo_file_addBlockCopyToFile E (file_id f) bi ?b
              (mongo_node_updateBlocks E (node_setBlockUsed E ?n ?k) (w_db w))" by simp_all
          have "\<exists>n \<in> nodes w. nd_id n = Some (fb_nodeId ?b) \<and> unat (fb_blockIndex ?b) \<in> node_freeBlocks E n"
            by (rule bexI [OF _ n(1)]) (use rc [OF w'] n(2) in simp)
          then have "\<exists>b f'. fo = Some f' \<and> f' = f\<lparr>file_blocks := (file_blocks f)[unat bi := ?cs @ [b]]\<rparr> \<and>
              fb_nodeId b \<notin> fb_nodeId ` set ?cs \<and> inv w' \<and> dirs w' = dirs w \<and> files w' = insert f' (files w - {f}) \<and>
              nodes_rel E (take_copies [b]) (nodes w) (nodes w') \<and>
              (\<exists>n \<in> nodes w. nd_id n = Some (fb_nodeId b) \<and> unat (fb_blockIndex b) \<in> node_freeBlocks E n)"
            by (intro exI [of _ ?b] exI [of _ ?f']) (use rc [OF w'] r(2) ni in simp)
          with i r(1) show ?thesis by simp
        qed
      qed
    qed
  qed
qed

end

context fs_laws begin

text \<open>A successful distribution for a file without blocks, put together.\<close>

lemma distribute_rel:
  fixes f0 :: file_t
  assumes inv: "inv w" and nb: "file_blocks f0 = []"
    and run: "filesystem_distributeBlocksToNodes E schedule blocks f0 w = Some (True, file', w')"
  shows "\<exists>bss. file' = f0\<lparr>file_blocks := bss\<rparr> \<and> length bss = length blocks \<and>
    (\<forall>cs \<in> set bss. length cs = 3 \<and> distinct (map fb_nodeId cs)) \<and> distinct (concat bss) \<and>
    (\<forall>b \<in> set (concat bss). \<exists>n \<in> nodes w. nd_id n = Some (fb_nodeId b) \<and> unat (fb_blockIndex b) \<in> node_freeBlocks E n) \<and>
    wf w' \<and> dirs w' = dirs w \<and> files w' = files w \<and> nodes_rel E (take_copies (concat bss)) (nodes w) (nodes w')"
proof -
  note pl = distribute_places [OF inv_wf(1,3) [OF inv] run]
  note mk = distribute_marks [OF inv_wf(1,3) [OF inv] run]
  have new: "file' = f0\<lparr>file_blocks := new_copies f0 file'\<rparr>" using pl nb by simp
  have "nodes_rel E (take_copies (concat (new_copies f0 file'))) (nodes w) (nodes w')"
    using mk unfolding nodes_rel_def by blast
  moreover from pl have "length (new_copies f0 file') = length blocks"
    "\<forall>cs \<in> set (new_copies f0 file'). length cs = 3 \<and> distinct (map fb_nodeId cs)"
    "distinct (concat (new_copies f0 file'))"
    and free: "\<forall>c \<in> set (concat (new_copies f0 file')). \<exists>n \<in> nodes w. nd_id n = Some (fb_nodeId c) \<and>
      connections_node_isActiveNode (fb_nodeId c) w \<and> unat (fb_blockIndex c) \<in> node_freeBlocks E n"
    by - ((elim conjE, assumption)+)
  moreover have "\<forall>b \<in> set (concat (new_copies f0 file')). \<exists>n \<in> nodes w. nd_id n = Some (fb_nodeId b) \<and>
      unat (fb_blockIndex b) \<in> node_freeBlocks E n"
    using free by metis
  moreover from mk have "wf w'" "dirs w' = dirs w" "files w' = files w" by - ((elim conjE, assumption)+)
  ultimately show ?thesis using new by (intro exI [of _ "new_copies f0 file'"] conjI)
qed

text \<open>Saving the record of a file whose blocks were distributed.\<close>

lemma save_distributed:
  fixes f0 :: file_t
  assumes inv: "inv w" and name: "file_name f0 \<noteq> None" and pid: "id_ok (file_parentId f0)" and nb: "file_blocks f0 = []"
    and d: "filesystem_distributeBlocksToNodes E schedule blocks f0 w = Some (True, file1, w1)"
    and sv: "mongo_file_save E file1 (w_db w1) = (True, file2, db2)" and w': "w_db w' = db2"
  shows "inv w' \<and> dirs w' = dirs w \<and> files w' = insert file2 (files w) \<and> (\<forall>g \<in> files w. file_id g \<noteq> file_id file2) \<and>
    file2 = f0\<lparr>file_id := file_id file2, file_blocks := file_blocks file2\<rparr> \<and> length (file_blocks file2) = length blocks \<and>
    (\<forall>cs \<in> set (file_blocks file2). length cs = 3 \<and> distinct (map fb_nodeId cs)) \<and>
    nodes_rel E (take_copies (file_copies file2)) (nodes w) (nodes w')"
proof -
  obtain bss where b: "file1 = f0\<lparr>file_blocks := bss\<rparr>" "length bss = length blocks"
    "\<forall>cs \<in> set bss. length cs = 3 \<and> distinct (map fb_nodeId cs)" "distinct (concat bss)"
    "\<forall>b \<in> set (concat bss). \<exists>n \<in> nodes w. nd_id n = Some (fb_nodeId b) \<and> unat (fb_blockIndex b) \<in> node_freeBlocks E n"
    "wf w1" "dirs w1 = dirs w" "files w1 = files w" "nodes_rel E (take_copies (concat bss)) (nodes w) (nodes w1)"
    using distribute_rel [OF inv nb d] by auto
  have nm: "file_name file1 \<noteq> None" "id_ok (file_parentId file1)" using name pid by (simp_all add: b(1))
  note save = mon.file_save [OF b(6) nm sv]
  have f2: "file2 = f0\<lparr>file_id := file_id file2, file_blocks := bss\<rparr>" using save(1) b(1) by auto
  have fb: "file_blocks file2 = bss" by (subst f2) simp
  have cp: "file_copies file2 = concat bss" by (simp add: file_copies_def fb)
  have parts: "dirs w' = dirs w" "files w' = insert file2 (files w)" "nodes w' = nodes w1" "wf w'"
    using save(3,4) b(7,8) by (simp_all add: meta_def w')
  have "space_ok E (insert file2 (files w)) (nodes w')"
    by (rule space_ok_take [OF inv_wf(2) [OF inv] nodes_inj [OF inv_wf(1) [OF inv]],
          where cs = "concat bss" and S = "{}"])
      (use parts b cp nodes_rel_wf [OF b(9) nodes_inj [OF b(6)]] in simp_all)
  then have "inv w'" using parts by (simp add: mdfs_inv_def)
  then show ?thesis using parts(1,2) save(2) b(2,3,9) f2 unfolding parts(3) cp fb b(8) by simp
qed

lemma copyFile_spec:
  fixes f0 :: file_t
  assumes inv: "inv w" and name: "file_name f0 = Some n" and pid: "id_ok (file_parentId f0)"
    and nb: "file_blocks f0 = []"
    and run: "filesystem_copyFileFromFS E schedule route f0 w = Some (r, file', w')"
  shows "inv w' \<and> dirs w' = dirs w \<and> r \<in> {1, -1, -2, -3, -4} \<and>
    (r = -1 \<longleftrightarrow> (Some n, file_parentId f0) \<in> dir_names (dirs w) \<union> file_names (files w)) \<and>
    (r = -2 \<longleftrightarrow> (Some n, file_parentId f0) \<notin> dir_names (dirs w) \<union> file_names (files w) \<and> w_local w route = None) \<and>
    (r \<in> {-1, -2, -3} \<longrightarrow> w_db w' = w_db w) \<and>
    (r = -4 \<longrightarrow> (\<exists>g \<in> files w. file_id g = file_id file')) \<and>
    (r = 1 \<longrightarrow> files w' = insert file' (files w) \<and> (\<forall>g \<in> files w. file_id g \<noteq> file_id file') \<and>
      (\<exists>str blocks. w_local w route = Some str \<and> filesystem_getBlocksFromStr str (length str) = Some blocks \<and>
        file' = f0\<lparr>file_id := file_id file', file_size := word_of_nat (length str), file_blocks := file_blocks file'\<rparr> \<and>
        length (file_blocks file') = length blocks \<and> (\<forall>cs \<in> set (file_blocks file'). length cs = 3 \<and> distinct (map fb_nodeId cs)) \<and>
        nodes_rel E (take_copies (file_copies file')) (nodes w) (nodes w')))"
proof -
  let ?taken = "(Some n, file_parentId f0) \<in> dir_names (dirs w) \<union> file_names (files w)"
  note can = canCreateResource_spec [OF inv_wf(1) [OF inv], of n "file_parentId f0"]
  consider (taken) ?taken | (nofile) "\<not> ?taken" "w_local w route = None"
    | (str) str where "\<not> ?taken" "w_local w route = Some str" by (cases "w_local w route") auto
  then show ?thesis
  proof cases
    case taken
    then have "filesystem_copyFileFromFS E schedule route f0 w = Some (-1, f0, w)"
      using can by (auto simp: filesystem_copyFileFromFS_def name)
    with run inv taken show ?thesis by simp
  next
    case nofile
    then have "filesystem_copyFileFromFS E schedule route f0 w = Some (-2, f0, w)"
      using can by (auto simp: filesystem_copyFileFromFS_def filesystem_getFSFileBlocks_def name)
    with run inv nofile show ?thesis by simp
  next
    case (str str)
    let ?f1 = "f0\<lparr>file_size := word_of_nat (length str)\<rparr>"
    obtain blocks where bl: "filesystem_getBlocksFromStr str (length str) = Some blocks"
      using run can str
      by (cases "filesystem_getBlocksFromStr str (length str)")
        (simp_all add: filesystem_copyFileFromFS_def filesystem_getFSFileBlocks_def name)
    obtain ok file1 w1 where d: "filesystem_distributeBlocksToNodes E schedule blocks ?f1 w = Some (ok, file1, w1)"
      using run can str bl
      by (cases "filesystem_distributeBlocksToNodes E schedule blocks ?f1 w")
        (auto simp: filesystem_copyFileFromFS_def filesystem_getFSFileBlocks_def name)
    note step = run [unfolded filesystem_copyFileFromFS_def filesystem_getFSFileBlocks_def name]
    show ?thesis
    proof (cases ok)
      case False
      then have "r = -3 \<and> file' = file1 \<and> w' = w1"
        using step can str bl d by simp
      moreover have "w_db w1 = w_db w" using d False by (auto dest: distribute_failure)
      ultimately show ?thesis using inv str by (simp add: mdfs_inv_def)
    next
      case True
      then have d': "filesystem_distributeBlocksToNodes E schedule blocks ?f1 w = Some (True, file1, w1)" using d by simp
      obtain bss where b: "file1 = ?f1\<lparr>file_blocks := bss\<rparr>" "length bss = length blocks"
        "\<forall>cs \<in> set bss. length cs = 3 \<and> distinct (map fb_nodeId cs)" "distinct (concat bss)"
        "\<forall>b \<in> set (concat bss). \<exists>n \<in> nodes w. nd_id n = Some (fb_nodeId b) \<and> unat (fb_blockIndex b) \<in> node_freeBlocks E n"
        "wf w1" "dirs w1 = dirs w" "files w1 = files w" "nodes_rel E (take_copies (concat bss)) (nodes w) (nodes w1)"
        using distribute_rel [OF inv _ d'] nb by auto
      obtain saved file2 db2 where sv: "mongo_file_save E file1 (w_db w1) = (saved, file2, db2)"
        by (cases "mongo_file_save E file1 (w_db w1)")
      have nm: "file_name file1 \<noteq> None" "id_ok (file_parentId file1)" using name pid by (simp_all add: b(1))
      note save = mon.file_save [OF b(6) nm sv]
      have f2: "file2 = f0\<lparr>file_id := file_id file2, file_size := word_of_nat (length str), file_blocks := bss\<rparr>"
        using save(1) b(1) by auto
      have saved: "saved \<longleftrightarrow> (\<forall>g \<in> files w. file_id g \<noteq> file_id file2)"
        using save(2) str(1) by (simp add: b(1,8) name)
      have fb: "file_blocks file2 = bss" by (subst f2) simp
      have cp: "file_copies file2 = concat bss" by (subst f2) (simp add: file_copies_def)
      show ?thesis
      proof (cases saved)
        case True
        then have r: "r = 1" "file' = file2" "w' = w1\<lparr>w_db := db2\<rparr>"
          using step can str bl d' sv by simp_all
        from save_distributed [OF inv _ _ _ d', of file2 db2 w'] sv True r(3) name pid nb
        have "inv w' \<and> dirs w' = dirs w \<and> files w' = insert file2 (files w) \<and> (\<forall>g \<in> files w. file_id g \<noteq> file_id file2) \<and>
            file2 = ?f1\<lparr>file_id := file_id file2, file_blocks := file_blocks file2\<rparr> \<and> length (file_blocks file2) = length blocks \<and>
            (\<forall>cs \<in> set (file_blocks file2). length cs = 3 \<and> distinct (map fb_nodeId cs)) \<and>
            nodes_rel E (take_copies (file_copies file2)) (nodes w) (nodes w')" by simp
        moreover have "f0\<lparr>file_size := s, file_id := i, file_blocks := bs\<rparr> = f0\<lparr>file_id := i, file_size := s, file_blocks := bs\<rparr>"
          for s i bs by (cases f0) simp
        ultimately show ?thesis using str bl unfolding r(1,2) by simp
      next
        case False
        let ?w2 = "w1\<lparr>w_db := db2\<rparr>"
        have parts: "dirs ?w2 = dirs w" "files ?w2 = files w" "nodes ?w2 = nodes w1" "wf ?w2"
          using save(3,4) False b(7,8) by (simp_all add: meta_def)
        have nwf2: "\<forall>n \<in> nodes ?w2. node_wf n"
          unfolding parts(3) by (rule nodes_rel_wf [OF b(9) nodes_inj [OF b(6)]])
        have rel: "nodes_rel E (take_copies (concat bss)) (nodes w) (nodes ?w2)" unfolding parts(3) by (rule b(9))
        have here: "\<exists>n \<in> nodes ?w2. nd_id n = Some (fb_nodeId c) \<and> unat (fb_blockIndex c) < unat (nd_blocksCount n)"
          if "c \<in> set (file_copies file2)" for c
        proof -
          from that b(5) obtain n where n: "n \<in> nodes w" "nd_id n = Some (fb_nodeId c)"
            "unat (fb_blockIndex c) \<in> node_freeBlocks E n" unfolding cp by metis
          have "held E (nodes ?w2) c"
            by (rule held_taken [OF rel _ n(1,2)]) (use that n(3) in \<open>simp_all add: cp node_freeBlocks_def\<close>)
          then show ?thesis unfolding held_iff by metis
        qed
        obtain w3 where w3: "filesystem_deleteFile E (Some file2) ?w2 = Some (True, w3)" "wf w3" "dirs w3 = dirs ?w2"
          "files w3 = {g \<in> files ?w2. file_id g \<noteq> file_id file2}"
          "nodes_rel E (release_copies (file_copies file2)) (nodes ?w2) (nodes w3)"
          using deleteFile_run [OF parts(4) nwf2 ballI [OF here]] by blast
        have r: "r = -4" "file' = file2" "w' = w3"
          using step can str bl d' sv False w3(1) by simp_all
        have "held E (nodes w3) c" if g: "g \<in> files w" "c \<in> set (file_copies g)" for g c
        proof (rule held_release [OF w3(5) held_take [OF rel inv_held [OF inv g]]])
          show "c \<notin> set (file_copies file2)"
          proof
            assume "c \<in> set (file_copies file2)"
            with b(5) obtain n where n: "n \<in> nodes w" "nd_id n = Some (fb_nodeId c)"
              "unat (fb_blockIndex c) \<in> node_freeBlocks E n" unfolding cp by metis
            from held_not_free [OF inv_held [OF inv g] nodes_inj [OF inv_wf(1) [OF inv]] n(1,2)] n(3) show False
              by contradiction
          qed
        qed
        then have "space_ok E (files w3) (nodes w3)"
          by (intro space_ok_shrink [OF inv_wf(2) [OF inv] nodes_rel_wf [OF w3(5) nodes_inj [OF w3(2)]], where r = id])
            (use inv_distinct [OF inv] in \<open>auto simp: w3(4) [unfolded parts(2)]\<close>)
        with w3(2) have "inv w'" by (simp add: mdfs_inv_def r(3))
        moreover have "dirs w' = dirs w" using w3(3) parts(1) by (simp add: r(3))
        moreover have "\<exists>g \<in> files w. file_id g = file_id file'" using saved False r(2) by auto
        ultimately show ?thesis using str by (simp add: r(1))
      qed
    qed
  qed
qed

end

section \<open>A node that joins as new\<close>

text \<open>The file without its copies on the node \<open>i\<close>.\<close>

definition without_node :: "string \<Rightarrow> file_t \<Rightarrow> file_t" where
  "without_node i f = f\<lparr>file_blocks := map (filter (\<lambda>c. fb_nodeId c \<noteq> i)) (file_blocks f)\<rparr>"

lemma without_node_id [simp]: "file_id (without_node i f) = file_id f"
  by (simp add: without_node_def)

lemma without_node_same:
  "\<forall>cs \<in> set (file_blocks f). \<forall>c \<in> set cs. fb_nodeId c \<noteq> i \<Longrightarrow> without_node i f = f"
  by (simp add: without_node_def map_idI)

lemma copies_without_node: "file_copies (without_node i f) = filter (\<lambda>c. fb_nodeId c \<noteq> i) (file_copies f)"
  by (simp add: file_copies_def without_node_def filter_concat)

context fs_laws begin

lemma drop_copies_spec:
  fixes g :: file_t and i :: string and cs :: "file_block_t list"
  assumes "meta_wf (docs db) (uniq db)" "g \<in> meta_files (docs db)" "unat idx < length (file_blocks g)"
  defines "db' \<equiv> drop_copies E i (file_id g) idx cs db"
  shows "meta_wf (docs db') (uniq db') \<and> meta (docs db') = (meta_dirs (docs db),
    insert (g\<lparr>file_blocks := (file_blocks g)[unat idx := filter (\<lambda>c. c \<notin> set cs \<or> fb_nodeId c \<noteq> i) (file_blocks g ! unat idx)]\<rparr>)
      (meta_files (docs db) - {g}), meta_nodes (docs db))"
  using assms(1-3) unfolding db'_def
proof (induction cs arbitrary: db g)
  case Nil
  then show ?case by (auto simp: drop_copies_def meta_def)
next
  case (Cons c cs)
  show ?case
  proof (cases "fb_nodeId c = i")
    case False
    then have "drop_copies E i (file_id g) idx (c # cs) db = drop_copies E i (file_id g) idx cs db"
      by (simp add: drop_copies_def)
    moreover have "filter (\<lambda>x. x \<notin> set (c # cs) \<or> fb_nodeId x \<noteq> i) ys = filter (\<lambda>x. x \<notin> set cs \<or> fb_nodeId x \<noteq> i) ys" for ys
      using False by (intro filter_cong) auto
    ultimately show ?thesis using Cons.IH [OF Cons.prems] by simp
  next
    case True
    let ?db1 = "mongo_file_deleteBlockCopy E (file_id g) idx c db"
    let ?g1 = "g\<lparr>file_blocks := (file_blocks g)[unat idx := filter (\<lambda>x. x \<noteq> c) (file_blocks g ! unat idx)]\<rparr>"
    note del = mon.file_deleteBlockCopy [OF Cons.prems, of c]
    have m1: "meta_dirs (docs ?db1) = meta_dirs (docs db)" "meta_files (docs ?db1) = insert ?g1 (meta_files (docs db) - {g})"
      "meta_nodes (docs ?db1) = meta_nodes (docs db)" using del(1) by (simp_all add: meta_def)
    have g1: "?g1 \<in> meta_files (docs ?db1)" unfolding m1(2) by simp
    have len: "unat idx < length (file_blocks ?g1)" using Cons.prems(3) by simp
    have other: "insert x (insert ?g1 (meta_files (docs db) - {g}) - {?g1}) = insert x (meta_files (docs db) - {g})" for x
    proof -
      have "?g1 \<notin> meta_files (docs db) - {g}"
        using mon.file_unique(1) [OF Cons.prems(1) _ Cons.prems(2), of ?g1] by auto
      then show ?thesis by auto
    qed
    have fil: "filter (\<lambda>x. x \<notin> set (c # cs) \<or> fb_nodeId x \<noteq> i) ys =
        filter (\<lambda>x. x \<notin> set cs \<or> fb_nodeId x \<noteq> i) (filter (\<lambda>x. x \<noteq> c) ys)" for ys
      using True by (simp add: filter_filter) (intro filter_cong; auto)
    have step: "drop_copies E i (file_id g) idx (c # cs) db = drop_copies E i (file_id ?g1) idx cs ?db1"
      using True by (simp add: drop_copies_def)
    show ?thesis
      using Cons.IH [OF del(2) g1 len] Cons.prems(3) unfolding step m1 other fil by simp
  qed
qed

lemma drop_blocks_spec:
  fixes g :: file_t and i :: string
  assumes "meta_wf (docs db) (uniq db)" "g \<in> meta_files (docs db)" "file_blocks g = pre @ blocks"
    and "length pre + length blocks \<le> 2 ^ 16"
  defines "db' \<equiv> drop_blocks E i (file_id g) (word_of_nat (length pre)) blocks db"
  shows "meta_wf (docs db') (uniq db') \<and> meta (docs db') = (meta_dirs (docs db),
    insert (g\<lparr>file_blocks := pre @ map (filter (\<lambda>c. fb_nodeId c \<noteq> i)) blocks\<rparr>) (meta_files (docs db) - {g}),
    meta_nodes (docs db))"
  using assms(1-4) unfolding db'_def
proof (induction blocks arbitrary: db g pre)
  case Nil
  then have "g\<lparr>file_blocks := pre\<rparr> = g" by (cases g) simp
  with Nil show ?case by (auto simp: meta_def)
next
  case (Cons cs blocks)
  let ?i = "word_of_nat (length pre) :: u16"
  have ui: "unat ?i = length pre" using Cons.prems(4) by (simp add: unat_of_nat take_bit_eq_mod)
  have lt: "unat ?i < length (file_blocks g)" using Cons.prems(3) ui by simp
  let ?db1 = "drop_copies E i (file_id g) ?i cs db"
  let ?cs' = "filter (\<lambda>c. fb_nodeId c \<noteq> i) cs"
  let ?g1 = "g\<lparr>file_blocks := (pre @ [?cs']) @ blocks\<rparr>"
  have "filter (\<lambda>c. c \<notin> set cs \<or> fb_nodeId c \<noteq> i) cs = ?cs'" by (intro filter_cong) auto
  then have "(file_blocks g)[unat ?i := filter (\<lambda>c. c \<notin> set cs \<or> fb_nodeId c \<noteq> i) (file_blocks g ! unat ?i)] =
      (pre @ [?cs']) @ blocks" unfolding ui Cons.prems(3) by simp
  then have d: "meta_wf (docs ?db1) (uniq ?db1)" "meta (docs ?db1) = (meta_dirs (docs db),
      insert ?g1 (meta_files (docs db) - {g}), meta_nodes (docs db))"
    using drop_copies_spec [OF Cons.prems(1,2) lt, of i cs] by simp_all
  then have m1: "meta_dirs (docs ?db1) = meta_dirs (docs db)" "meta_files (docs ?db1) = insert ?g1 (meta_files (docs db) - {g})"
      "meta_nodes (docs ?db1) = meta_nodes (docs db)" by (simp_all add: meta_def)
  have other: "insert x (insert ?g1 (meta_files (docs db) - {g}) - {?g1}) = insert x (meta_files (docs db) - {g})" for x
  proof -
    have "?g1 \<notin> meta_files (docs db) - {g}"
      using mon.file_unique(1) [OF Cons.prems(1) _ Cons.prems(2), of ?g1] by auto
    then show ?thesis by auto
  qed
  have idx: "?i + 1 = word_of_nat (length (pre @ [?cs']))" by simp
  have "drop_blocks E i (file_id g) ?i (cs # blocks) db =
      drop_blocks E i (file_id ?g1) (word_of_nat (length (pre @ [?cs']))) blocks ?db1" by (simp add: add.commute)
  moreover have "?g1 \<in> meta_files (docs ?db1)" "length (pre @ [?cs']) + length blocks \<le> 2 ^ 16"
    using Cons.prems(4) unfolding m1 by simp_all
  ultimately show ?case
    using Cons.IH [OF d(1), of ?g1 "pre @ [?cs']"] unfolding m1 other by simp
qed

lemma drop_files_spec:
  fixes i :: string
  assumes "meta_wf (docs db) (uniq db)" "set fs \<subseteq> meta_files (docs db)" "distinct fs"
    and "\<forall>f \<in> set fs. length (file_blocks f) \<le> 2 ^ 16"
  defines "db' \<equiv> drop_files E i fs db"
  shows "meta_wf (docs db') (uniq db') \<and> meta (docs db') = (meta_dirs (docs db),
    without_node i ` set fs \<union> (meta_files (docs db) - set fs), meta_nodes (docs db))"
  using assms(1-4) unfolding db'_def
proof (induction fs arbitrary: db)
  case Nil
  then show ?case by (simp add: drop_files_def meta_def)
next
  case (Cons f fs)
  let ?db1 = "drop_blocks E i (file_id f) 0 (file_blocks f) db"
  have f: "f \<in> meta_files (docs db)" using Cons.prems(2) by simp
  have d: "meta_wf (docs ?db1) (uniq ?db1)" "meta (docs ?db1) = (meta_dirs (docs db),
      insert (without_node i f) (meta_files (docs db) - {f}), meta_nodes (docs db))"
    using drop_blocks_spec [OF Cons.prems(1) f, of "[]" "file_blocks f" i] Cons.prems(4) by (simp_all add: without_node_def)
  then have m1: "meta_dirs (docs ?db1) = meta_dirs (docs db)" "meta_files (docs ?db1) = insert (without_node i f) (meta_files (docs db) - {f})"
      "meta_nodes (docs ?db1) = meta_nodes (docs db)" by (simp_all add: meta_def)
  have sub: "set fs \<subseteq> meta_files (docs ?db1)" using Cons.prems(2,3) unfolding m1 by auto
  have nf: "without_node i f \<notin> set fs"
  proof
    assume a: "without_node i f \<in> set fs"
    then have "without_node i f \<in> meta_files (docs db)" using Cons.prems(2) by auto
    then have "without_node i f = f" using mon.file_unique(1) [OF Cons.prems(1) _ f, of "without_node i f"] by simp
    with a Cons.prems(3) show False by simp
  qed
  have "without_node i ` set fs \<union> (meta_files (docs ?db1) - set fs) =
      without_node i ` set (f # fs) \<union> (meta_files (docs db) - set (f # fs))"
    using nf unfolding m1 by auto
  then show ?case
    using Cons.IH [OF d(1) sub] Cons.prems(3,4) by (simp add: drop_files_def m1)
qed

end

section \<open>Joining, formatting, moving and renaming\<close>

lemma space_ok_same_blocks:
  assumes so: "space_ok c F N" and f: "f \<in> F" and same: "file_blocks f' = file_blocks f"
  shows "space_ok c (insert f' (F - {f})) N"
proof (rule space_ok_shrink [OF so, where r = "\<lambda>g. if g = f' then f else g"])
  have "file_copies f' = file_copies f" using same by (simp add: file_copies_def)
  then show "\<forall>g \<in> insert f' (F - {f}). (if g = f' then f else g) \<in> F \<and>
      set (file_copies g) \<subseteq> set (file_copies (if g = f' then f else g)) \<and>
      distinct (file_copies g) \<and> (\<forall>b \<in> set (file_copies g). held c N b)"
    using so f unfolding space_ok_def by auto
  show "inj_on (\<lambda>g. if g = f' then f else g) (insert f' (F - {f}))" by (auto simp: inj_on_def)
qed (use so in \<open>simp add: space_ok_def\<close>)

context fs_laws begin

lemma inv_file_update:
  assumes inv: "inv w" and f: "f \<in> files w" and same: "file_blocks f' = file_blocks f"
    and m: "meta (docs (w_db w')) = (if P then meta (docs (w_db w)) else (dirs w, insert f' (files w - {f}), nodes w))"
    and wf': "wf w'"
  shows "inv w' \<and> dirs w' = dirs w \<and> nodes w' = nodes w"
  using inv space_ok_same_blocks [OF inv_wf(2) [OF inv] f same] m wf'
  by (cases P) (simp_all add: mdfs_inv_def meta_def)

lemma inv_same_space: "inv w \<Longrightarrow> wf w' \<Longrightarrow> files w' = files w \<Longrightarrow> nodes w' = nodes w \<Longrightarrow> inv w'"
  by (simp add: mdfs_inv_def)

lemma moveFile_spec:
  fixes f :: file_t
  assumes inv: "inv w" and f: "f \<in> files w" and p: "id_ok p"
  defines "w' \<equiv> filesystem_moveFile E f p w"
  shows "inv w' \<and> dirs w' = dirs w \<and> nodes w' = nodes w \<and>
    files w' = (if (file_name f, p) \<in> file_names (files w - {f}) then files w
      else insert (f\<lparr>file_parentId := p\<rparr>) (files w - {f}))"
proof -
  note up = mon.file_updateParentId [OF inv_wf(1) [OF inv] f p]
  have db: "w_db w' = mongo_file_updateParentId E (file_id f) p (w_db w)" by (simp add: w'_def filesystem_moveFile_def)
  have "inv w' \<and> dirs w' = dirs w \<and> nodes w' = nodes w"
    by (rule inv_file_update [OF inv f _ up(1) [folded db]]) (use up(2) db in simp_all)
  then show ?thesis using up(1) by (auto simp: meta_def db split: if_splits)
qed

lemma renameFile_spec:
  fixes f :: file_t and n :: string
  assumes inv: "inv w" and f: "f \<in> files w"
  defines "w' \<equiv> filesystem_renameFile E f n w"
  shows "inv w' \<and> dirs w' = dirs w \<and> nodes w' = nodes w \<and>
    files w' = (if (Some n, file_parentId f) \<in> file_names (files w - {f}) then files w
      else insert (f\<lparr>file_name := Some n\<rparr>) (files w - {f}))"
proof -
  note up = mon.file_updateName [OF inv_wf(1) [OF inv] f, of n]
  have db: "w_db w' = mongo_file_updateName E (file_id f) n (w_db w)" by (simp add: w'_def filesystem_renameFile_def)
  have "inv w' \<and> dirs w' = dirs w \<and> nodes w' = nodes w"
    by (rule inv_file_update [OF inv f _ up(1) [folded db]]) (use up(2) db in simp_all)
  then show ?thesis using up(1) by (auto simp: meta_def db split: if_splits)
qed

lemma moveDir_spec:
  fixes d :: dir_t
  assumes inv: "inv w" and d: "d \<in> dirs w" and p: "id_ok p"
  defines "w' \<equiv> filesystem_moveDir E d p w"
  shows "inv w' \<and> files w' = files w \<and> nodes w' = nodes w \<and>
    dirs w' = (if (dir_name d, p) \<in> dir_names (dirs w - {d}) then dirs w
      else insert (d\<lparr>dir_parentId := p\<rparr>) (dirs w - {d}))"
proof -
  note up = mon.dir_updateParentId [OF inv_wf(1) [OF inv] d p]
  have db: "w_db w' = mongo_dir_updateParentId E (dir_id d) p (w_db w)" by (simp add: w'_def filesystem_moveDir_def)
  have parts: "files w' = files w" "nodes w' = nodes w" "dirs w' = (if (dir_name d, p) \<in> dir_names (dirs w - {d}) then dirs w
      else insert (d\<lparr>dir_parentId := p\<rparr>) (dirs w - {d}))" using up(1) by (simp_all add: meta_def db split: if_splits)
  then show ?thesis using inv_same_space [OF inv _ parts(1,2)] up(2) by (simp add: db)
qed

lemma renameDir_spec:
  fixes d :: dir_t and n :: string
  assumes inv: "inv w" and d: "d \<in> dirs w"
  defines "w' \<equiv> filesystem_renameDir E d n w"
  shows "inv w' \<and> files w' = files w \<and> nodes w' = nodes w \<and>
    dirs w' = (if (Some n, dir_parentId d) \<in> dir_names (dirs w - {d}) then dirs w
      else insert (d\<lparr>dir_name := Some n\<rparr>) (dirs w - {d}))"
proof -
  note up = mon.dir_updateName [OF inv_wf(1) [OF inv] d, of n]
  have db: "w_db w' = mongo_dir_updateName E (dir_id d) n (w_db w)" by (simp add: w'_def filesystem_renameDir_def)
  have parts: "files w' = files w" "nodes w' = nodes w" "dirs w' = (if (Some n, dir_parentId d) \<in> dir_names (dirs w - {d}) then dirs w
      else insert (d\<lparr>dir_name := Some n\<rparr>) (dirs w - {d}))" using up(1) by (simp_all add: meta_def db split: if_splits)
  then show ?thesis using inv_same_space [OF inv _ parts(1,2)] up(2) by (simp add: db)
qed

lemma fold_formatNode:
  "fold (filesystem_formatNode E) ns w = w\<lparr>w_db := fold (mongo_node_updateBlocks E) (map node_setAllBlocksFree ns) (w_db w)\<rparr>"
  by (induction ns arbitrary: w) (simp_all add: filesystem_formatNode_def)

lemma format_spec:
  assumes w: "wf w"
  shows "\<exists>w'. filesystem_format E w = Some (True, w') \<and> w' = w\<lparr>w_db := w_db w'\<rparr> \<and> inv w' \<and> dirs w' = {} \<and>
    files w' = {} \<and> nodes w' = node_setAllBlocksFree ` nodes w"
proof -
  let ?db1 = "snd (mongo_dir_deleteAll E (w_db w))"
  let ?db2 = "snd (mongo_file_deleteAll E ?db1)"
  note del = mon.delete_laws [OF w]
  have wf1: "meta_wf (docs ?db1) (uniq ?db1)"
    using del(11) by (simp add: mongo_dir_deleteAll_def mongo_deleteDocByQuery_def)
  note del1 = mon.delete_laws [OF wf1]
  have wf2: "meta_wf (docs ?db2) (uniq ?db2)"
    using del1(11) by (simp add: mongo_file_deleteAll_def mongo_deleteDocByQuery_def)
  have m2: "meta_dirs (docs ?db2) = {}" "meta_files (docs ?db2) = {}" "meta_nodes (docs ?db2) = nodes w"
    using del(8) del1(9) by (simp_all add: meta_def)
  obtain ns where ns: "mongo_node_getAll E ?db2 = Some ns" "set ns = nodes w"
    using mon.node_getAll [OF wf2] m2(3) by auto
  let ?ms = "map node_setAllBlocksFree ns"
  let ?w' = "w\<lparr>w_db := fold (mongo_node_updateBlocks E) ?ms ?db2\<rparr>"
  have run: "filesystem_format E w = Some (True, ?w')"
    using del(3) del1(4) ns(1) by (simp add: filesystem_format_def case_prod_beta fold_formatNode Let_def)
  have "meta (docs (w_db ?w')) = (meta_dirs (docs ?db2), meta_files (docs ?db2),
      {n \<in> meta_nodes (docs ?db2). nd_id n \<notin> nd_id ` set ?ms} \<union> set ?ms) \<and> wf ?w'"
    using updateBlocks_fold [OF wf2, of ?ms] ns(2) m2(3) mon.node_unique [OF w] by auto
  moreover have e: "{n \<in> nodes w. nd_id n \<notin> nd_id ` node_setAllBlocksFree ` nodes w} = {}" by (auto simp: image_iff)
  ultimately have parts: "dirs ?w' = {}" "files ?w' = {}" "nodes ?w' = node_setAllBlocksFree ` nodes w" "wf ?w'"
    unfolding m2 by (simp_all add: meta_def ns(2) e)
  then have "inv ?w'" by (auto simp: mdfs_inv_def space_ok_def)
  with run parts show ?thesis by (intro exI [of _ ?w']) simp
qed

end

context fs_laws begin

lemma inj_without_node:
  assumes "wf w"
  shows "inj_on (without_node i) (files w)"
proof (rule inj_onI)
  fix f g assume fg: "f \<in> files w" "g \<in> files w" "without_node i f = without_node i g"
  then have "file_id f = file_id g" by (metis without_node_id)
  then show "f = g" using mon.file_unique(1) [OF assms fg(1,2)] by simp
qed

lemma addNode_unknown:
  assumes inv: "inv w" and i: "\<forall>n \<in> nodes w. nd_id n \<noteq> Some i"
  shows "\<exists>w'. filesystem_addNode E i cnt new w = Some w' \<and> w' = w\<lparr>w_db := w_db w'\<rparr> \<and> inv w' \<and> dirs w' = dirs w \<and>
    files w' = files w \<and> nodes w' = insert ((node_create cnt)\<lparr>nd_id := Some i\<rparr>) (nodes w)"
proof -
  let ?n = "(node_create cnt)\<lparr>nd_id := Some i\<rparr>"
  let ?w' = "w\<lparr>w_db := snd (mongo_node_save E ?n (w_db w))\<rparr>"
  have get: "filesystem_getNodeById E i w = Some None"
    using mon.node_getById(2) [OF inv_wf(1) [OF inv]] i by (simp add: filesystem_getNodeById_def)
  have ok: "node_ok ?n" "\<forall>m \<in> nodes w. nd_id m \<noteq> nd_id ?n" using i by (simp_all add: node_ok_def)
  note sv = mon.node_save [OF inv_wf(1) [OF inv] ok]
  have parts: "dirs ?w' = dirs w" "files ?w' = files w" "nodes ?w' = insert ?n (nodes w)" "wf ?w'"
    using sv by (simp_all add: meta_def)
  have "held E (insert ?n (nodes w)) b" if "held E (nodes w) b" for b
    using that unfolding held_def by blast
  moreover have "node_wf ?n" using node_wf_create [of cnt] by (simp add: node_wf_def)
  ultimately have "space_ok E (files ?w') (nodes ?w')"
    using inv_wf(2) [OF inv] unfolding parts space_ok_def by simp
  then have "inv ?w'" using parts(4) by (simp add: mdfs_inv_def)
  with get parts show ?thesis by (intro exI [of _ ?w']) (simp add: filesystem_addNode_def)
qed

lemma addNode_known:
  assumes inv: "inv w" and n: "n \<in> nodes w" "nd_id n = Some i"
  shows "filesystem_addNode E i cnt False w = Some w"
  using getNodeById_held [OF inv_wf(1) [OF inv] n] by (simp add: filesystem_addNode_def)

lemma addNode_new:
  assumes inv: "inv w" and n: "n \<in> nodes w" "nd_id n = Some i"
    and small: "\<forall>f \<in> files w. length (file_blocks f) \<le> 2 ^ 16"
  shows "\<exists>w'. filesystem_addNode E i cnt True w = Some w' \<and> w' = w\<lparr>w_db := w_db w'\<rparr> \<and> inv w' \<and> dirs w' = dirs w \<and>
    files w' = without_node i ` files w \<and>
    nodes w' = insert (node_setAllBlocksFree (n\<lparr>nd_blocksCount := cnt\<rparr>)) (nodes w - {n})"
proof -
  note w = inv_wf(1) [OF inv]
  obtain fs where fs: "mongo_file_getFilesThatHaveNode E i (w_db w) = Some fs" "distinct fs"
    "set fs = {f \<in> files w. \<exists>cs \<in> set (file_blocks f). \<exists>b \<in> set cs. fb_nodeId b = i}"
    using mon.file_getFilesThatHaveNode [OF w] by blast
  let ?db1 = "drop_files E i fs (w_db w)"
  let ?m = "node_setAllBlocksFree (n\<lparr>nd_blocksCount := cnt\<rparr>)"
  let ?w' = "w\<lparr>w_db := mongo_node_updateBlocks E ?m ?db1\<rparr>"
  have sub: "set fs \<subseteq> files w" "\<forall>f \<in> set fs. length (file_blocks f) \<le> 2 ^ 16" using fs(3) small by auto
  note dr = drop_files_spec [OF w sub(1) fs(2) sub(2), of i]
  have same: "without_node i f = f" if "f \<in> files w - set fs" for f
    by (rule without_node_same) (use that fs(3) in blast)
  have fl: "without_node i ` set fs \<union> (files w - set fs) = without_node i ` files w"
  proof -
    have "without_node i ` files w = without_node i ` set fs \<union> without_node i ` (files w - set fs)"
      using sub(1) by (simp add: Un_Diff_cancel flip: image_Un) (simp add: Un_absorb1)
    also have "without_node i ` (files w - set fs) = files w - set fs" using same by simp
    finally show ?thesis by simp
  qed
  have d1: "meta_dirs (docs ?db1) = dirs w" "meta_files (docs ?db1) = without_node i ` files w"
    "meta_nodes (docs ?db1) = nodes w" "meta_wf (docs ?db1) (uniq ?db1)" using dr fl by (simp_all add: meta_def)
  have nid: "nd_id ?m = nd_id n" by simp
  note up = mon.node_updateBlocks [OF d1(4) n(1) [folded d1(3)] nid]
  have parts: "dirs ?w' = dirs w" "files ?w' = without_node i ` files w" "nodes ?w' = insert ?m (nodes w - {n})" "wf ?w'"
    using up d1 by (simp_all add: meta_def)
  have run: "filesystem_addNode E i cnt True w = Some ?w'"
    using getNodeById_held [OF w n] fs(1) n(2) by (simp add: filesystem_addNode_def filesystem_formatNode_def)
  have held': "held E (nodes ?w') b" if h: "held E (nodes w) b" "fb_nodeId b \<noteq> i" for b
  proof -
    obtain k where k: "k \<in> nodes w" "nd_id k = Some (fb_nodeId b)" "node_isBlockUsed E k (uint (fb_blockIndex b))"
      using h(1) unfolding held_def by blast
    then have "k \<noteq> n" using n(2) h(2) by auto
    with k show ?thesis unfolding held_def parts(3) by blast
  qed
  have "space_ok E (files ?w') (nodes ?w')"
  proof (rule space_ok_shrink [OF inv_wf(2) [OF inv], where r = "the_inv_into (files w) (without_node i)"])
    note inj = inj_without_node [OF w, of i]
    show "inj_on (the_inv_into (files w) (without_node i)) (files ?w')"
      unfolding parts(2) by (rule inj_on_the_inv_into [OF inj])
    show "\<forall>n \<in> nodes ?w'. node_wf n" using inv_wf(3) [OF inv] unfolding parts(3) by auto
    show "\<forall>f' \<in> files ?w'. the_inv_into (files w) (without_node i) f' \<in> files w \<and>
        set (file_copies f') \<subseteq> set (file_copies (the_inv_into (files w) (without_node i) f')) \<and>
        distinct (file_copies f') \<and> (\<forall>b \<in> set (file_copies f'). held E (nodes ?w') b)"
    proof
      fix f' assume "f' \<in> files ?w'"
      then obtain f where f: "f' = without_node i f" "f \<in> files w" unfolding parts(2) by blast
      then have "the_inv_into (files w) (without_node i) f' = f" using the_inv_into_f_f [OF inj] by simp
      then show "the_inv_into (files w) (without_node i) f' \<in> files w \<and>
          set (file_copies f') \<subseteq> set (file_copies (the_inv_into (files w) (without_node i) f')) \<and>
          distinct (file_copies f') \<and> (\<forall>b \<in> set (file_copies f'). held E (nodes ?w') b)"
        using f(2) inv_distinct [OF inv f(2)] inv_held [OF inv f(2)] held' unfolding f(1) copies_without_node by auto
    qed
  qed
  then have "inv ?w'" using parts(4) by (simp add: mdfs_inv_def)
  with run parts show ?thesis by (intro exI [of _ ?w']) simp
qed

end

section \<open>Storing the result of a job\<close>

context fs_laws begin

lemma dir_id_ok: "d \<in> dirs w \<Longrightarrow> id_ok (dir_id d)"
  by (simp add: meta_dirs_def elems_def dir_ok_def)

lemma go_up_id:
  assumes "wf w" and "go_up E cur fp w = Some (d, fp')" and "id_ok (dir_id cur)"
  shows "id_ok (dir_id d)"
proof (cases "dir_id cur = ROOT_DIR_ID \<or> dir_parentId cur = ROOT_DIR_ID")
  case True
  then have "d = cur \<or> d = root_dir"
    using assms(2) by (auto simp: go_up_def bind_eq_Some_conv root_dir_def split: if_splits)
  then show ?thesis using assms(3) by (auto simp: root_dir_def)
next
  case False
  then have "filesystem_getDirById E (dir_parentId cur) w = Some (Some d)"
    using assms(2) by (auto simp: go_up_def bind_eq_Some_conv split: if_splits)
  then have "d \<in> dirs w" using mon.dir_getById(1) [OF assms(1)] by (simp add: filesystem_getDirById_def)
  then show ?thesis by (rule dir_id_ok)
qed

lemma go_down_id:
  assumes "wf w" and "go_down E n cur fp w = Some (Some (d, fp'))"
  shows "id_ok (dir_id d)"
proof -
  have "filesystem_getDirByNameInDir E n (dir_id cur) w = Some (Some d)"
    using assms(2) by (auto simp: go_down_def bind_eq_Some_conv split: option.splits if_splits)
  then have "d \<in> dirs w" using mon.dir_getByNameInDir(1) [OF assms(1)] by (simp add: filesystem_getDirByNameInDir_def)
  then show ?thesis by (rule dir_id_ok)
qed

lemma resolve_loop_id:
  "resolve_loop E w ns cur fp = Some (Some (d, fp')) \<Longrightarrow> wf w \<Longrightarrow> id_ok (dir_id cur) \<Longrightarrow> id_ok (dir_id d)"
proof (induction ns arbitrary: cur fp)
  case (Cons n ns)
  consider "n = '''' \<or> n = ''.''" | "n = ''..''" | "n \<noteq> ''''" "n \<noteq> ''.''" "n \<noteq> ''..''" by blast
  then show ?case
  proof cases
    case 1
    then show ?thesis using Cons by auto
  next
    case 2
    then obtain c p where "go_up E cur fp w = Some (c, p)" "resolve_loop E w ns c p = Some (Some (d, fp'))"
      using Cons.prems(1) by (auto simp: bind_eq_Some_conv)
    then show ?thesis using Cons.IH go_up_id [OF Cons.prems(2)] Cons.prems(2,3) by blast
  next
    case 3
    then obtain c p where "go_down E n cur fp w = Some (Some (c, p))" "resolve_loop E w ns c p = Some (Some (d, fp'))"
      using Cons.prems(1) by (auto simp: bind_eq_Some_conv split: option.splits)
    then show ?thesis using Cons.IH go_down_id [OF Cons.prems(2)] Cons.prems(2) by blast
  qed
qed simp

lemma resolveDirPath_id:
  assumes w: "wf w" and run: "filesystem_resolveDirPath E path i sp w = Some (Some (d, fp))"
  shows "id_ok (dir_id d)"
proof -
  obtain ns cur fp0 where loop: "resolve_loop E w ns cur fp0 = Some (Some (d, fp))"
    and cur: "cur = root_dir \<or> filesystem_getDirById E i w = Some (Some cur)"
    using run by (auto simp: filesystem_resolveDirPath_def bind_eq_Some_conv Let_def split: option.splits if_splits)
  have "id_ok (dir_id cur)"
    using cur mon.dir_getById(1) [OF w] dir_id_ok by (auto simp: filesystem_getDirById_def root_dir_def)
  with resolve_loop_id [OF loop w] show ?thesis .
qed

lemma copyTmp_spec:
  assumes inv: "inv w"
    and run: "filesystem_copyTmpFileToMDFS E schedule nodeId tmp path fr w = Some (r, fr', w')"
  shows "inv w' \<and> dirs w' = dirs w \<and>
    (if r then \<exists>f n p content len w1 blocks. getFileName E path = Some n \<and> id_ok p \<and>
        (Some n, p) \<notin> dir_names (dirs w) \<union> file_names (files w) \<and>
        connections_node_getFileContent E nodeId tmp 0 w = (Some content, len, w1) \<and>
        filesystem_getBlocksFromStr content (unat (len - 1)) = Some blocks \<and>
        file_name f = Some n \<and> file_parentId f = p \<and> file_size f = len - 1 \<and> length (file_blocks f) = length blocks \<and>
        (\<forall>cs \<in> set (file_blocks f). length cs = 3 \<and> distinct (map fb_nodeId cs)) \<and>
        files w' = insert f (files w) \<and> nodes_rel E (take_copies (file_copies f)) (nodes w) (nodes w')
      else w_db w' = w_db w)"
proof -
  let ?parent = "\<lambda>n. if length n < length path
      then map_option (map_option (dir_id \<circ> fst)) (filesystem_resolveDirPath E
        (c_substring_until E path (length path - length n)) ROOT_DIR_ID ''/'' w)
      else Some (Some ROOT_DIR_ID)"
  note step = run [unfolded filesystem_copyTmpFileToMDFS_def]
  obtain n pa where n: "getFileName E path = Some n" and pa: "?parent n = Some pa"
    using step by (cases "getFileName E path") (auto simp: bind_eq_Some_conv)
  show ?thesis
  proof (cases pa)
    case None
    with step n pa inv show ?thesis by simp
  next
    case (Some p)
    have p: "id_ok p" using pa resolveDirPath_id [OF inv_wf(1) [OF inv]] unfolding Some
      by (auto split: if_splits)
    note can = canCreateResource_spec [OF inv_wf(1) [OF inv], of n p]
    let ?free = "(Some n, p) \<notin> dir_names (dirs w) \<and> (Some n, p) \<notin> file_names (files w)"
    obtain co len w1 where g: "connections_node_getFileContent E nodeId tmp 0 w = (co, len, w1)"
      by (cases "connections_node_getFileContent E nodeId tmp 0 w")
    have db1: "w_db w1 = w_db w" using getFileContent_frame [OF g] by (simp add: request_frame_def)
    have inv1: "inv w1" using inv by (simp add: db1)
    show ?thesis
    proof (cases "?free \<and> co \<noteq> None")
      case False
      then have "\<not> r \<and> (w' = w \<or> w' = w1)"
        using step n pa Some can g by (cases "?free"; cases co) simp_all
      then show ?thesis using inv inv1 db1 by auto
    next
      case True
      then obtain content where c: "co = Some content" and free: ?free by blast
      obtain blocks where bl: "filesystem_getBlocksFromStr content (unat (len - 1)) = Some blocks"
        using step n pa Some can g free c
        by (cases "filesystem_getBlocksFromStr content (unat (len - 1))") simp_all
      let ?f0 = "file_create\<lparr>file_name := Some n, file_parentId := p, file_size := len - 1\<rparr>"
      obtain ok file1 w2 where d: "filesystem_distributeBlocksToNodes E schedule blocks ?f0 w1 = Some (ok, file1, w2)"
        using step n pa Some can g free c bl
        by (cases "filesystem_distributeBlocksToNodes E schedule blocks ?f0 w1") auto
      show ?thesis
      proof (cases ok)
        case False
        then have "\<not> r \<and> w' = w2" using step n pa Some can g free c bl d by simp
        moreover have "w_db w2 = w_db w" using d False db1 by (auto dest: distribute_failure)
        ultimately show ?thesis using inv by (simp add: mdfs_inv_def)
      next
        case True
        then have d': "filesystem_distributeBlocksToNodes E schedule blocks ?f0 w1 = Some (True, file1, w2)" using d by simp
        obtain saved file2 db3 where sv: "mongo_file_save E file1 (w_db w2) = (saved, file2, db3)"
          by (cases "mongo_file_save E file1 (w_db w2)")
        have "Some (r, fr', w') = (if saved then Some (True, fr, w2\<lparr>w_db := db3\<rparr>) else None)"
          unfolding step [symmetric] using n pa Some can g free c bl d' sv by simp
        then have s: "saved" "r" "w_db w' = db3" by (simp_all split: if_splits)
        have sv': "mongo_file_save E file1 (w_db w2) = (True, file2, db3)" using sv s(1) by simp
        have f0: "file_name ?f0 \<noteq> None" "id_ok (file_parentId ?f0)" "file_blocks ?f0 = []"
          using p by (simp_all add: file_create_def)
        note sd = save_distributed [OF inv1 f0 d' sv' s(3)]
        have f2: "file2 = ?f0\<lparr>file_id := file_id file2, file_blocks := file_blocks file2\<rparr>" using sd by (elim conjE)
        have "file_name file2 = Some n" "file_parentId file2 = p" "file_size file2 = len - 1"
          using arg_cong [OF f2, where f = file_name] arg_cong [OF f2, where f = file_parentId]
            arg_cong [OF f2, where f = file_size] by (simp_all add: file_create_def)
        moreover note sd [unfolded db1]
        ultimately have "\<exists>f n p content len w1 blocks. getFileName E path = Some n \<and> id_ok p \<and>
            (Some n, p) \<notin> dir_names (dirs w) \<union> file_names (files w) \<and>
            connections_node_getFileContent E nodeId tmp 0 w = (Some content, len, w1) \<and>
            filesystem_getBlocksFromStr content (unat (len - 1)) = Some blocks \<and>
            file_name f = Some n \<and> file_parentId f = p \<and> file_size f = len - 1 \<and> length (file_blocks f) = length blocks \<and>
            (\<forall>cs \<in> set (file_blocks f). length cs = 3 \<and> distinct (map fb_nodeId cs)) \<and>
            files w' = insert f (files w) \<and> nodes_rel E (take_copies (file_copies f)) (nodes w) (nodes w')"
          using n p free g c bl
          by (intro exI [of _ file2] exI [of _ n] exI [of _ p] exI [of _ content] exI [of _ len] exI [of _ w1]
              exI [of _ blocks]) simp
        then show ?thesis using sd [unfolded db1] s(2) by simp
      qed
    qed
  qed
qed

end

end
