(* ===== verification/FS_Tree.thy ===== *)
theory FS_Tree
  imports FS_Space
begin

text \<open>
  \<open>filesystem_deleteDir\<close> of \<open>FileSystem/src/filesystem/filesystem.c\<close>: the recursion ends when no
  directory is its own ancestor and then removes exactly the subtree, files first; whenever it
  returns at all it kept the invariant and met no directory that is its own parent.
\<close>

section \<open>Deleting a directory\<close>

lemma world_db_trans: "w1 = w\<lparr>w_db := w_db w1\<rparr> \<Longrightarrow> w2 = w1\<lparr>w_db := w_db w2\<rparr> \<Longrightarrow> w2 = w\<lparr>w_db := w_db w2\<rparr>"
  by (metis world.update_convs(1) world.surjective)

text \<open>The directory \<open>i\<close> and everything below it.\<close>

inductive below :: "dir_t set \<Rightarrow> string \<Rightarrow> string \<Rightarrow> bool" for D i where
  Here: "below D i i"
| Child: "e \<in> D \<Longrightarrow> below D i (dir_parentId e) \<Longrightarrow> below D i (dir_id e)"

lemma below_mono: "below D i x \<Longrightarrow> D \<subseteq> D' \<Longrightarrow> below D' i x"
  by (induction rule: below.induct) (auto intro: below.intros)

lemma below_trans: "below D j x \<Longrightarrow> below D i j \<Longrightarrow> below D i x"
  by (induction rule: below.induct) (auto intro: below.intros)

text \<open>Removing what is below \<open>i\<close> changes nothing below another directory, but for what was common.\<close>

lemma below_remove:
  "below D j x \<Longrightarrow> \<not> below D i x \<Longrightarrow> below {e \<in> D. \<not> below D i (dir_id e)} j x"
proof (induction rule: below.induct)
  case Here
  show ?case by (rule below.Here)
next
  case (Child e)
  then have "\<not> below D i (dir_parentId e)" using below.Child by metis
  then show ?case using Child by (intro below.Child) simp_all
qed

lemma below_remove_iff:
  "\<not> below D i x \<Longrightarrow> below {e \<in> D. \<not> below D i (dir_id e)} j x \<longleftrightarrow> below D j x"
  using below_remove below_mono [of "{e \<in> D. \<not> below D i (dir_id e)}" j x D] by blast

lemma below_children:
  "below D i x \<longleftrightarrow> x = i \<or> (\<exists>e \<in> D. dir_parentId e = i \<and> below D (dir_id e) x)"
proof
  show "below D i x \<Longrightarrow> x = i \<or> (\<exists>e \<in> D. dir_parentId e = i \<and> below D (dir_id e) x)"
    by (induction rule: below.induct) (auto intro: below.intros)
  assume "x = i \<or> (\<exists>e \<in> D. dir_parentId e = i \<and> below D (dir_id e) x)"
  then show "below D i x" using below_trans below.intros by metis
qed

definition delete_tree :: "('n, 'db) env \<Rightarrow> string \<Rightarrow> ('n, 'db) world \<Rightarrow> ('n, 'db) world option" where
  "delete_tree E i w =
     do {
       childFiles \<leftarrow> filesystem_getFilesInDir E i w;
       w1 \<leftarrow> delete_files E childFiles w;
       childDirs \<leftarrow> filesystem_getDirsInDir E i w1;
       w2 \<leftarrow> delete_dirs E childDirs w1;
       Some (w2\<lparr>w_db := snd (mongo_dir_deleteById E i (w_db w2))\<rparr>)
     }"

lemma delete_dirs_Nil: "delete_dirs E [] w = Some w"
  by (subst delete_dirs.simps) simp

lemma delete_dirs_Cons: "delete_dirs E (d # ds) w = Option.bind (delete_tree E (dir_id d) w) (delete_dirs E ds)"
  by (subst delete_dirs.simps) (simp add: delete_tree_def)

definition parents :: "dir_t set \<Rightarrow> (string \<times> string) set" where
  "parents D = {(dir_id e, dir_parentId e) | e. e \<in> D}"

text \<open>No directory is its own ancestor.\<close>

definition tree_wf :: "dir_t set \<Rightarrow> bool" where
  "tree_wf D \<longleftrightarrow> wf (parents D)"

lemma tree_wf_induct:
  assumes "tree_wf D" and "\<And>i. (\<And>e. e \<in> D \<Longrightarrow> dir_parentId e = i \<Longrightarrow> P (dir_id e)) \<Longrightarrow> P i"
  shows "P i"
  using assms(1) unfolding tree_wf_def
proof (induction i rule: wf_induct_rule)
  case (less i)
  show ?case by (rule assms(2), rule less) (auto simp: parents_def)
qed

context fs_laws begin

lemma delete_files_spec:
  assumes "inv w" "distinct fs" "set fs \<subseteq> files w"
  shows "\<exists>w'. delete_files E fs w = Some w' \<and> w' = w\<lparr>w_db := w_db w'\<rparr> \<and> inv w' \<and> dirs w' = dirs w \<and> files w' = files w - set fs"
  using assms
proof (induction fs arbitrary: w)
  case Nil
  then show ?case by (simp add: delete_files_def)
next
  case (Cons f fs)
  then obtain w1 where w1: "filesystem_deleteFile E (Some f) w = Some (True, w1)" "w1 = w\<lparr>w_db := w_db w1\<rparr>" "inv w1"
    "dirs w1 = dirs w" "files w1 = files w - {f}" using deleteFile_spec [of w f] by auto
  have "set fs \<subseteq> files w1" using Cons.prems(2,3) w1(5) by auto
  with Cons.IH [OF w1(3)] Cons.prems(2) obtain w2 where w2: "delete_files E fs w1 = Some w2" "w2 = w1\<lparr>w_db := w_db w2\<rparr>"
    "inv w2" "dirs w2 = dirs w1" "files w2 = files w1 - set fs" by auto
  have "w2 = w\<lparr>w_db := w_db w2\<rparr>" using w1(2) w2(2) by (metis world.update_convs(1) world.surjective)
  moreover have "delete_files E (f # fs) w = Some w2" using w1(1) w2(1) by (simp add: delete_files_def)
  ultimately show ?case using w1 w2 by (intro exI [of _ w2]) auto
qed

lemma dirs_inv_delete:
  fixes i :: string
  assumes "inv w"
  defines "w' \<equiv> w\<lparr>w_db := snd (mongo_dir_deleteById E i (w_db w))\<rparr>"
  shows "inv w'" "dirs w' = {d \<in> dirs w. dir_id d \<noteq> i}" "files w' = files w"
proof -
  note del = mon.delete_laws [OF inv_wf(1) [OF assms(1)]]
  show d: "dirs w' = {d \<in> dirs w. dir_id d \<noteq> i}" "files w' = files w"
    using del(6) [of i] by (simp_all add: meta_def w'_def)
  have "nodes w' = nodes w" using del(6) [of i] by (simp add: meta_def w'_def)
  moreover have "wf w'" using del(11) by (simp add: w'_def mongo_dir_deleteById_def mongo_deleteDocByQuery_def)
  ultimately show "inv w'" using inv_same_space [OF assms(1)] d by blast
qed

text \<open>The whole recursion, for a list of directories whose subtrees are known to be deleted.\<close>

definition tree_gone :: "string set \<Rightarrow> ('n, 'db) world \<Rightarrow> ('n, 'db) world \<Rightarrow> bool" where
  "tree_gone I w w' \<longleftrightarrow> w' = w\<lparr>w_db := w_db w'\<rparr> \<and> inv w' \<and>
     dirs w' = {e \<in> dirs w. \<forall>i \<in> I. \<not> below (dirs w) i (dir_id e)} \<and>
     files w' = {f \<in> files w. \<forall>i \<in> I. \<not> below (dirs w) i (file_parentId f)}"

lemma delete_dirs_gone:
  assumes "\<forall>d \<in> set ds. \<forall>w. inv w \<longrightarrow> dirs w \<subseteq> D \<longrightarrow> (\<exists>w'. delete_tree E (dir_id d) w = Some w' \<and> tree_gone {dir_id d} w w')"
    and "inv w" "dirs w \<subseteq> D"
  shows "\<exists>w'. delete_dirs E ds w = Some w' \<and> tree_gone (dir_id ` set ds) w w'"
  using assms
proof (induction ds arbitrary: w)
  case Nil
  then show ?case by (simp add: delete_dirs_Nil tree_gone_def)
next
  case (Cons d ds)
  obtain w1 where w1: "delete_tree E (dir_id d) w = Some w1" "tree_gone {dir_id d} w w1"
    using Cons.prems by auto
  have g1: "w1 = w\<lparr>w_db := w_db w1\<rparr>" "inv w1" "dirs w1 = {e \<in> dirs w. \<not> below (dirs w) (dir_id d) (dir_id e)}"
    "files w1 = {f \<in> files w. \<not> below (dirs w) (dir_id d) (file_parentId f)}"
    using w1(2) by (simp_all add: tree_gone_def)
  have "dirs w1 \<subseteq> D" using g1(3) Cons.prems(3) by auto
  then obtain w2 where w2: "delete_dirs E ds w1 = Some w2" "tree_gone (dir_id ` set ds) w1 w2"
    using Cons.IH [OF _ g1(2)] Cons.prems(1) by auto
  have g2: "w2 = w1\<lparr>w_db := w_db w2\<rparr>" "inv w2" "dirs w2 = {e \<in> dirs w1. \<forall>i \<in> dir_id ` set ds. \<not> below (dirs w1) i (dir_id e)}"
    "files w2 = {f \<in> files w1. \<forall>i \<in> dir_id ` set ds. \<not> below (dirs w1) i (file_parentId f)}"
    using w2(2) by (simp_all add: tree_gone_def)
  have "below (dirs w1) i x \<longleftrightarrow> below (dirs w) i x" if "\<not> below (dirs w) (dir_id d) x" for i x
    unfolding g1(3) by (rule below_remove_iff [OF that])
  then have "tree_gone (dir_id ` set (d # ds)) w w2"
    unfolding tree_gone_def using g1(3,4) g2(2) world_db_trans [OF g1(1) g2(1)] unfolding g2(3,4) by auto
  moreover have "delete_dirs E (d # ds) w = Some w2" using w1(1) w2(1) by (simp add: delete_dirs_Cons)
  ultimately show ?case by blast
qed

end

context fs_laws begin

lemma delete_tree_step:
  assumes IH: "\<And>e. e \<in> D \<Longrightarrow> dir_parentId e = i \<Longrightarrow>
      \<forall>w. inv w \<longrightarrow> dirs w \<subseteq> D \<longrightarrow> (\<exists>w'. delete_tree E (dir_id e) w = Some w' \<and> tree_gone {dir_id e} w w')"
    and inv: "inv w" and sub: "dirs w \<subseteq> D"
  shows "\<exists>w'. delete_tree E i w = Some w' \<and> tree_gone {i} w w'"
proof -
  obtain fs where fs: "filesystem_getFilesInDir E i w = Some fs" "distinct fs" "set fs = {f \<in> files w. file_parentId f = i}"
    using mon.file_getByParentId [OF inv_wf(1) [OF inv], of i] by (auto simp: filesystem_getFilesInDir_def mongo_query)
  have "set fs \<subseteq> files w" using fs(3) by auto
  then obtain w1 where w1: "delete_files E fs w = Some w1" "w1 = w\<lparr>w_db := w_db w1\<rparr>" "inv w1" "dirs w1 = dirs w"
    "files w1 = files w - set fs" using delete_files_spec [OF inv fs(2)] by blast
  obtain ds where ds: "filesystem_getDirsInDir E i w1 = Some ds" "set ds = {e \<in> dirs w. dir_parentId e = i}"
    using mon.dir_getByParentId [OF inv_wf(1) [OF w1(3)], of i] by (auto simp: filesystem_getDirsInDir_def mongo_query w1(4))
  have "\<forall>d \<in> set ds. \<forall>w. inv w \<longrightarrow> dirs w \<subseteq> D \<longrightarrow> (\<exists>w'. delete_tree E (dir_id d) w = Some w' \<and> tree_gone {dir_id d} w w')"
    using IH sub ds(2) by blast
  from delete_dirs_gone [OF this w1(3)] sub w1(4)
  obtain w2 where w2: "delete_dirs E ds w1 = Some w2" "tree_gone (dir_id ` set ds) w1 w2" by auto
  have g2: "w2 = w1\<lparr>w_db := w_db w2\<rparr>" "inv w2" "dirs w2 = {e \<in> dirs w. \<forall>j \<in> dir_id ` set ds. \<not> below (dirs w) j (dir_id e)}"
    "files w2 = {f \<in> files w1. \<forall>j \<in> dir_id ` set ds. \<not> below (dirs w) j (file_parentId f)}"
    using w2(2) by (simp_all add: tree_gone_def w1(4))
  let ?w3 = "w2\<lparr>w_db := snd (mongo_dir_deleteById E i (w_db w2))\<rparr>"
  note d3 = dirs_inv_delete [OF g2(2), of i]
  have bi: "below (dirs w) i x \<longleftrightarrow> x = i \<or> (\<exists>j \<in> dir_id ` set ds. below (dirs w) j x)" for x
    unfolding below_children [of "dirs w" i x] ds(2) by auto
  have "dirs ?w3 = {e \<in> dirs w. \<not> below (dirs w) i (dir_id e)}" unfolding d3(2) g2(3) bi by auto
  moreover have "files ?w3 = {f \<in> files w. \<not> below (dirs w) i (file_parentId f)}"
    unfolding d3(3) g2(4) w1(5) fs(3) bi by auto
  moreover have "?w3 = w\<lparr>w_db := w_db ?w3\<rparr>"
    using world_db_trans [OF w1(2) g2(1)] by (metis world.update_convs(1) world.surjective)
  ultimately have "tree_gone {i} w ?w3" using d3(1) by (simp add: tree_gone_def)
  moreover have "delete_tree E i w = Some ?w3" using fs(1) w1(1) ds(1) w2(1) by (simp add: delete_tree_def)
  ultimately show ?thesis by blast
qed

lemma delete_tree_gone:
  assumes "tree_wf D" "inv w" "dirs w \<subseteq> D"
  shows "\<exists>w'. delete_tree E i w = Some w' \<and> tree_gone {i} w w'"
proof -
  have "\<forall>w. inv w \<longrightarrow> dirs w \<subseteq> D \<longrightarrow> (\<exists>w'. delete_tree E i w = Some w' \<and> tree_gone {i} w w')"
  proof (rule tree_wf_induct [OF assms(1), of "\<lambda>i. \<forall>w. inv w \<longrightarrow> dirs w \<subseteq> D \<longrightarrow>
      (\<exists>w'. delete_tree E i w = Some w' \<and> tree_gone {i} w w')"], intro allI impI)
    fix i w assume IH: "\<And>e. e \<in> D \<Longrightarrow> dir_parentId e = i \<Longrightarrow>
        \<forall>w. inv w \<longrightarrow> dirs w \<subseteq> D \<longrightarrow> (\<exists>w'. delete_tree E (dir_id e) w = Some w' \<and> tree_gone {dir_id e} w w')"
      and w: "inv w" "dirs w \<subseteq> D"
    show "\<exists>w'. delete_tree E i w = Some w' \<and> tree_gone {i} w w'" by (rule delete_tree_step [OF IH w])
  qed
  with assms(2,3) show ?thesis by blast
qed

lemma deleteDir_spec:
  assumes "tree_wf (dirs w)" "inv w"
  shows "\<exists>w'. filesystem_deleteDir E (Some d) w = Some (True, w') \<and> w' = w\<lparr>w_db := w_db w'\<rparr> \<and> inv w' \<and>
    dirs w' = {e \<in> dirs w. \<not> below (dirs w) (dir_id d) (dir_id e)} \<and>
    files w' = {f \<in> files w. \<not> below (dirs w) (dir_id d) (file_parentId f)}"
proof -
  obtain w' where w': "delete_tree E (dir_id d) w = Some w'" "tree_gone {dir_id d} w w'"
    using delete_tree_gone [OF assms order.refl] by blast
  obtain w2 where w2: "w' = w2\<lparr>w_db := snd (mongo_dir_deleteById E (dir_id d) (w_db w2))\<rparr>"
    and "filesystem_deleteDir E (Some d) w = Some (fst (mongo_dir_deleteById E (dir_id d) (w_db w2)), w')"
    using w'(1) by (auto simp: delete_tree_def filesystem_deleteDir_def bind_eq_Some_conv case_prod_beta)
  moreover have "fst (mongo_dir_deleteById E (dir_id d) db)" for db
    using mon.del_ok by (simp add: mongo_dir_deleteById_def mongo_deleteDocByQuery_def)
  ultimately show ?thesis using w'(2) by (intro exI [of _ w']) (simp add: tree_gone_def)
qed

end

text \<open>What holds whenever the recursion returns: also that it never meets a directory inside itself.\<close>

context fs_laws begin

definition delete_keeps :: "dir_t set \<Rightarrow> dir_t list \<Rightarrow> ('n, 'db) world \<Rightarrow> ('n, 'db) world \<Rightarrow> bool" where
  "delete_keeps D ds w w' \<longleftrightarrow> (inv w \<and> dirs w \<subseteq> D \<and> set ds \<subseteq> D \<longrightarrow> inv w' \<and> dirs w' \<subseteq> dirs w \<and>
     (\<forall>d \<in> dirs w. dir_parentId d = dir_id d \<longrightarrow> d \<notin> set ds \<and> d \<in> dirs w'))"

lemma delete_keeps_tree:
  assumes D: "inj_on dir_id D" and inv: "inv w" and sub: "dirs w \<subseteq> D"
    and fs: "filesystem_getFilesInDir E i w = Some fs" and w1: "delete_files E fs w = Some w1"
    and ds: "filesystem_getDirsInDir E i w1 = Some ds" and w2: "delete_keeps D ds w1 w2" and x: "x \<in> D" "i = dir_id x"
  defines "w3 \<equiv> w2\<lparr>w_db := snd (mongo_dir_deleteById E i (w_db w2))\<rparr>"
  shows "inv w3 \<and> dirs w3 \<subseteq> dirs w \<and> (\<forall>d \<in> dirs w. dir_parentId d = dir_id d \<longrightarrow> d \<noteq> x \<and> d \<in> dirs w3)"
proof -
  obtain fs' where fs': "filesystem_getFilesInDir E i w = Some fs'" "distinct fs'" "set fs' \<subseteq> files w"
    using mon.file_getByParentId [OF inv_wf(1) [OF inv], of i] by (auto simp: filesystem_getFilesInDir_def)
  obtain w1' where "delete_files E fs' w = Some w1'" "inv w1'" "dirs w1' = dirs w"
    using delete_files_spec [OF inv fs'(2,3)] by blast
  then have g1: "inv w1" "dirs w1 = dirs w" using fs fs'(1) w1 by simp_all
  have ds': "set ds = {e \<in> dirs w. dir_parentId e = i}"
    using mon.dir_getByParentId [OF inv_wf(1) [OF g1(1)], of i] ds by (auto simp: filesystem_getDirsInDir_def mongo_query g1(2))
  have "dirs w1 \<subseteq> D" "set ds \<subseteq> D" using sub ds' g1(2) by auto
  then have g2: "inv w2" "dirs w2 \<subseteq> dirs w" "\<forall>d \<in> dirs w. dir_parentId d = dir_id d \<longrightarrow> d \<notin> set ds \<and> d \<in> dirs w2"
    using w2 g1 by (simp_all add: delete_keeps_def)
  note d3 = dirs_inv_delete [OF g2(1), of i, folded w3_def]
  have "d \<noteq> x \<and> d \<in> dirs w3" if d: "d \<in> dirs w" "dir_parentId d = dir_id d" for d
  proof -
    have "d \<notin> set ds" "d \<in> dirs w2" using g2(3) d by auto
    then have "dir_parentId d \<noteq> i" using ds' d(1) by simp
    then have "dir_id d \<noteq> i" using d(2) by simp
    then show ?thesis using d3(2) \<open>d \<in> dirs w2\<close> x(2) by auto
  qed
  with d3 g2(2) show ?thesis by auto
qed

lemma delete_dirs_keeps:
  assumes D: "inj_on dir_id D" and run: "delete_dirs E ds w = Some w'"
  shows "delete_keeps D ds w w'"
proof -
  have "E = E \<longrightarrow> delete_keeps D ds w w'"
  proof (rule delete_dirs.raw_induct [OF _ run, where P = "\<lambda>E' ds w w'. E' = E \<longrightarrow> delete_keeps D ds w w'"], intro impI)
    fix loop E' ds w w'
    assume IH: "\<And>E' ds w y. loop E' ds w = Some y \<Longrightarrow> E' = E \<longrightarrow> delete_keeps D ds w y"
      and step: "(case ds of [] \<Rightarrow> Some w
        | d # ds \<Rightarrow> do {
            childFiles \<leftarrow> filesystem_getFilesInDir E' (dir_id d) w;
            w1 \<leftarrow> delete_files E' childFiles w;
            childDirs \<leftarrow> filesystem_getDirsInDir E' (dir_id d) w1;
            w2 \<leftarrow> loop E' childDirs w1;
            loop E' ds (w2\<lparr>w_db := snd (mongo_dir_deleteById E' (dir_id d) (w_db w2))\<rparr>)
          }) = Some w'" and E': "E' = E"
    show "delete_keeps D ds w w'"
    proof (cases ds)
      case Nil
      then show ?thesis using step by (simp add: delete_keeps_def)
    next
      case (Cons x xs)
      then obtain fs w1 cs w2 where s: "filesystem_getFilesInDir E (dir_id x) w = Some fs" "delete_files E fs w = Some w1"
        "filesystem_getDirsInDir E (dir_id x) w1 = Some cs" "loop E cs w1 = Some w2"
        "loop E xs (w2\<lparr>w_db := snd (mongo_dir_deleteById E (dir_id x) (w_db w2))\<rparr>) = Some w'"
        using step E' by (auto simp: bind_eq_Some_conv)
      let ?w3 = "w2\<lparr>w_db := snd (mongo_dir_deleteById E (dir_id x) (w_db w2))\<rparr>"
      have k2: "delete_keeps D cs w1 w2" and k3: "delete_keeps D xs ?w3 w'" using IH [OF s(4)] IH [OF s(5)] by simp_all
      show ?thesis
        unfolding delete_keeps_def
      proof (intro impI, elim conjE)
        assume a: "inv w" "dirs w \<subseteq> D" "set ds \<subseteq> D"
        then have "x \<in> D" "set xs \<subseteq> D" using Cons by simp_all
        note t = delete_keeps_tree [OF D a(1,2) s(1-3) k2 this(1) refl]
        then have "dirs ?w3 \<subseteq> D" using a(2) by blast
        then have "inv w' \<and> dirs w' \<subseteq> dirs ?w3 \<and>
            (\<forall>d \<in> dirs ?w3. dir_parentId d = dir_id d \<longrightarrow> d \<notin> set xs \<and> d \<in> dirs w')"
          using k3 t \<open>set xs \<subseteq> D\<close> by (simp add: delete_keeps_def)
        then show "inv w' \<and> dirs w' \<subseteq> dirs w \<and>
            (\<forall>d \<in> dirs w. dir_parentId d = dir_id d \<longrightarrow> d \<notin> set ds \<and> d \<in> dirs w')"
          using t unfolding Cons by auto
      qed
    qed
  qed
  then show ?thesis by simp
qed

lemma deleteDir_keeps:
  assumes inv: "inv w" and x: "x \<in> dirs w" and run: "filesystem_deleteDir E (Some x) w = Some (r, w')"
  shows "inv w' \<and> dir_parentId x \<noteq> dir_id x"
proof -
  have D: "inj_on dir_id (dirs w)" using mon.dir_unique(1) [OF inv_wf(1) [OF inv]] unfolding inj_on_def by blast
  obtain fs w1 cs w2 where s: "filesystem_getFilesInDir E (dir_id x) w = Some fs" "delete_files E fs w = Some w1"
    "filesystem_getDirsInDir E (dir_id x) w1 = Some cs" "delete_dirs E cs w1 = Some w2"
    "w' = w2\<lparr>w_db := snd (mongo_dir_deleteById E (dir_id x) (w_db w2))\<rparr>"
    using run by (auto simp: filesystem_deleteDir_def bind_eq_Some_conv case_prod_beta)
  from delete_keeps_tree [OF D inv order.refl s(1-3) delete_dirs_keeps [OF D s(4)] x refl] s(5) x
  show ?thesis by blast
qed

end

end
