(* ===== verification/MDFS.thy ===== *)
theory MDFS
  imports FS_Tree
begin

text \<open>
  The file system as a whole: every operation of the process as a step on its state, the
  states reachable from a consistent one, and the properties of the operations of
  \<open>FileSystem/src/filesystem/filesystem.c\<close>. The steps of the console and of the MaRTA thread
  may come in any order; the processes' other effects (connections, local files) are one step
  that leaves the database alone.
\<close>

section \<open>The operations as steps\<close>

inductive mdfs_step :: "('n, 'db) env \<Rightarrow> ('db \<Rightarrow> coll \<Rightarrow> doc set) \<Rightarrow> ('n, 'db) world \<Rightarrow> ('n, 'db) world \<Rightarrow> bool"
  for E docs where
  Format: "filesystem_format E w = Some (r, w') \<Longrightarrow> mdfs_step E docs w w'"
| AddDir: "dir_name d \<noteq> None \<Longrightarrow> id_ok (dir_parentId d) \<Longrightarrow> filesystem_addDir E d w = Some (r, d', w') \<Longrightarrow>
    mdfs_step E docs w w'"
| MoveDir: "d \<in> meta_dirs (docs (w_db w)) \<Longrightarrow> id_ok p \<Longrightarrow> mdfs_step E docs w (filesystem_moveDir E d p w)"
| RenameDir: "d \<in> meta_dirs (docs (w_db w)) \<Longrightarrow> mdfs_step E docs w (filesystem_renameDir E d n w)"
| DeleteDir: "d \<in> meta_dirs (docs (w_db w)) \<Longrightarrow> filesystem_deleteDir E (Some d) w = Some (r, w') \<Longrightarrow>
    mdfs_step E docs w w'"
| MoveFile: "f \<in> meta_files (docs (w_db w)) \<Longrightarrow> id_ok p \<Longrightarrow> mdfs_step E docs w (filesystem_moveFile E f p w)"
| RenameFile: "f \<in> meta_files (docs (w_db w)) \<Longrightarrow> mdfs_step E docs w (filesystem_renameFile E f n w)"
| DeleteFile: "f \<in> meta_files (docs (w_db w)) \<Longrightarrow> filesystem_deleteFile E (Some f) w = Some (r, w') \<Longrightarrow>
    mdfs_step E docs w w'"
| CopyIn: "file_name f \<noteq> None \<Longrightarrow> id_ok (file_parentId f) \<Longrightarrow> file_blocks f = [] \<Longrightarrow>
    filesystem_copyFileFromFS E schedule route f w = Some (c, f', w') \<Longrightarrow> mdfs_step E docs w w'"
| CopyResult: "filesystem_copyTmpFileToMDFS E schedule i tmp path fr w = Some (r, fr', w') \<Longrightarrow> mdfs_step E docs w w'"
| NewCopy: "f \<in> meta_files (docs (w_db w)) \<Longrightarrow>
    filesystem_makeNewFileBlockCopy E (Some f) bi w = Some (c, f', w') \<Longrightarrow> mdfs_step E docs w w'"
| DeleteCopy: "f \<in> meta_files (docs (w_db w)) \<Longrightarrow>
    filesystem_deleteFileBlockCopy E (Some f) bi ci w = Some (c, w') \<Longrightarrow> mdfs_step E docs w w'"
| Join: "\<forall>f \<in> meta_files (docs (w_db w)). length (file_blocks f) \<le> 2 ^ 16 \<Longrightarrow>
    connections_node_accept E conn w = Some w' \<Longrightarrow> mdfs_step E docs w w'"
| Elsewhere: "w_db w' = w_db w \<Longrightarrow> mdfs_step E docs w w'"

inductive mdfs_reach :: "('n, 'db) env \<Rightarrow> ('db \<Rightarrow> coll \<Rightarrow> doc set) \<Rightarrow> ('n, 'db) world \<Rightarrow> ('n, 'db) world \<Rightarrow> bool"
  for E docs w0 where
  Start: "mdfs_reach E docs w0 w0"
| Step: "mdfs_reach E docs w0 w \<Longrightarrow> mdfs_step E docs w w' \<Longrightarrow> mdfs_reach E docs w0 w'"

context fs_laws begin

lemma addDir_inv:
  assumes inv: "inv w" and d: "dir_name d \<noteq> None" "id_ok (dir_parentId d)"
    and run: "filesystem_addDir E d w = Some (r, d', w')"
  shows "inv w'"
proof -
  obtain n where n: "dir_name d = Some n" using d(1) by auto
  obtain b where can: "filesystem_canCreateResource E (Some n) (dir_parentId d) w = Some b"
    using canCreateResource_spec [OF inv_wf(1) [OF inv]] by blast
  obtain r1 d1 db1 where s: "mongo_dir_save E d (w_db w) = (r1, d1, db1)" by (cases "mongo_dir_save E d (w_db w)")
  note sv = mon.dir_save [OF inv_wf(1) [OF inv] d s]
  have db1: "meta_files (docs db1) = files w" "meta_nodes (docs db1) = nodes w"
    using sv(3) by (cases r1; simp add: meta_def)+
  have "w' = w \<or> w' = w\<lparr>w_db := db1\<rparr>"
    using run can s by (cases b) (simp_all add: filesystem_addDir_def n)
  then show ?thesis
  proof
    assume "w' = w\<lparr>w_db := db1\<rparr>"
    then show ?thesis using inv sv(4) db1 by (simp add: mdfs_inv_def)
  qed (simp add: inv)
qed

lemma addNode_inv:
  assumes inv: "inv w" and small: "\<forall>f \<in> files w. length (file_blocks f) \<le> 2 ^ 16"
    and run: "filesystem_addNode E i cnt new w = Some w'"
  shows "inv w'"
proof (cases "\<exists>n \<in> nodes w. nd_id n = Some i")
  case False
  then show ?thesis using addNode_unknown [OF inv, of i cnt new] run by auto
next
  case True
  then obtain n where n: "n \<in> nodes w" "nd_id n = Some i" by blast
  show ?thesis
  proof (cases new)
    case True
    then show ?thesis using addNode_new [OF inv n small, of cnt] run by auto
  next
    case False
    then show ?thesis using addNode_known [OF inv n, of cnt] run inv by auto
  qed
qed

lemma setAccepted_db [simp]: "w_db (connections_node_setAcceptedNodeConnection i c w) = w_db w"
  by (simp add: connections_node_setAcceptedNodeConnection_def Let_def)

lemma accept_inv:
  assumes inv: "inv w" and small: "\<forall>f \<in> files w. length (file_blocks f) \<le> 2 ^ 16"
    and run: "connections_node_accept E c w = Some w'"
  shows "inv w'"
proof -
  obtain st b sz w1 where r: "w_recv_packet E (nc_socket c) 0 w = (st, b, sz, w1)"
    by (cases "w_recv_packet E (nc_socket c) 0 w")
  have db1: "w_db w1 = w_db w" using w_recv_fields [OF r] by simp
  show ?thesis
  proof (cases "st = SOCKET_ERROR_NONE")
    case False
    then show ?thesis using run r inv db1 by (simp add: connections_node_accept_def)
  next
    case True
    then have step: "Option.bind b (\<lambda>b. Option.bind (node_deserialize b) (\<lambda>(new, cnt, port, i).
        filesystem_addNode E i cnt (new \<noteq> 0) (connections_node_setAcceptedNodeConnection i
          (c\<lparr>nc_listenPort := Some port\<rparr>) w1))) = Some w'"
      using run unfolding connections_node_accept_def r by simp
    then obtain bs new cnt port i where "b = Some bs" "node_deserialize bs = Some (new, cnt, port, i)"
      by (cases b) (auto simp: bind_eq_Some_conv)
    with step have "filesystem_addNode E i cnt (new \<noteq> 0) (connections_node_setAcceptedNodeConnection i
        (c\<lparr>nc_listenPort := Some port\<rparr>) w1) = Some w'" by simp
    from addNode_inv [OF _ _ this] show ?thesis using inv small db1 by simp
  qed
qed

lemma mdfs_step_inv: "mdfs_step E docs w w' \<Longrightarrow> inv w \<Longrightarrow> inv w'"
proof (induction rule: mdfs_step.induct)
  case (Format w r w')
  then show ?case using format_spec [OF inv_wf(1)] by fastforce
next
  case (AddDir d w r d' w')
  then show ?case using addDir_inv by blast
next
  case (MoveDir d w p)
  then show ?case using moveDir_spec by blast
next
  case (RenameDir d w n)
  then show ?case using renameDir_spec by blast
next
  case (DeleteDir d w r w')
  then show ?case using deleteDir_keeps by blast
next
  case (MoveFile f w p)
  then show ?case using moveFile_spec by blast
next
  case (RenameFile f w n)
  then show ?case using renameFile_spec by blast
next
  case (DeleteFile f w r w')
  then show ?case using deleteFile_spec by fastforce
next
  case (CopyIn f schedule route w c f' w')
  then show ?case using copyFile_spec by blast
next
  case (CopyResult schedule i tmp path fr w r fr' w')
  then show ?case using copyTmp_spec by blast
next
  case (NewCopy f w bi c f' w')
  from makeCopy_spec [OF NewCopy(3,1,2)] NewCopy(3) show ?case by (cases "c = 1") (auto simp: mdfs_inv_def)
next
  case (DeleteCopy f w bi ci c w')
  show ?case
  proof (cases "unat bi < length (file_blocks f) \<and> unat ci < length (file_blocks f ! unat bi)")
    case True
    with deleteCopy_spec [OF DeleteCopy(3,1), of bi ci] DeleteCopy(2) show ?thesis by auto
  next
    case False
    then have "w' = w" using DeleteCopy(2) by (auto simp: filesystem_deleteFileBlockCopy_def Let_def split: if_splits)
    with DeleteCopy(3) show ?thesis by simp
  qed
next
  case (Join w conn w')
  then show ?case using accept_inv by blast
next
  case (Elsewhere w' w)
  then show ?case by simp
qed

lemma mdfs_reach_inv: "mdfs_reach E docs w0 w \<Longrightarrow> inv w0 \<Longrightarrow> inv w"
  by (induction rule: mdfs_reach.induct) (blast intro: mdfs_step_inv)+

end

section \<open>The small tree is consistent\<close>

lemma held_demo: "held (fs_env le) (set demo_nodes) \<lparr>fb_nodeId = ''n1'', fb_blockIndex = 0\<rparr>"
  by (simp add: held_def demo_nodes_def node_isBlockUsed_def node_blockIsValidIndex_def fs_env_def msb_test_def bit_numeral_simps)

lemma demo_inv: "mdfs_inv (fs_env le) (\<lambda>s c. set (ls_view s c)) ls_uniq demo_db"
proof -
  have "space_ok (fs_env le) (set demo_files) (set demo_nodes)"
    using held_demo by (simp add: space_ok_def demo_files_def file_copies_def) (simp add: demo_nodes_def node_wf_def)
  then show ?thesis using demo_wf by (simp add: mdfs_inv_def)
qed

lemma tree_db [simp]: "w_db tree_world = demo_db"
  by (simp add: tree_world_def)

lemma tree_inv: "mdfs_inv (fs_env le) (\<lambda>s c. set (ls_view s c)) ls_uniq (w_db tree_world)"
  using demo_inv by simp

section \<open>Properties of the file system\<close>

text \<open>C2. No block is ever shared or lost. In every state the file system reaches from a
  consistent one, by any sequence of its operations (with their failures, and whatever the
  network does), every copy of every block of every file lies in a block that its node's bitmap
  marks as used, no file lists a block of a node twice and no two files share one.\<close>

theorem mdfs_blocks_safe:
  assumes "fs_laws E docs uniq" and "mdfs_inv E docs uniq (w_db w0)" and "mdfs_reach E docs w0 w"
  shows "(\<forall>f \<in> meta_files (docs (w_db w)). distinct (file_copies f) \<and> (\<forall>b \<in> set (file_copies f).
      \<exists>n \<in> meta_nodes (docs (w_db w)). nd_id n = Some (fb_nodeId b) \<and> node_isBlockUsed E n (uint (fb_blockIndex b)))) \<and>
    (\<forall>f \<in> meta_files (docs (w_db w)). \<forall>g \<in> meta_files (docs (w_db w)). f \<noteq> g \<longrightarrow>
      set (file_copies f) \<inter> set (file_copies g) = {})"
  using fs_laws.mdfs_reach_inv [OF assms(1,3,2)] unfolding mdfs_inv_def space_ok_def held_def by blast

theorem mdfs_blocks_safe_witness:
  "\<exists>g. meta_files (\<lambda>c. set (ls_view (w_db (filesystem_moveFile (fs_env True) (hd demo_files) ''a1'' tree_world)) c)) = {g} \<and>
     distinct (file_copies g)"
proof -
  let ?docs = "\<lambda>s c. set (ls_view s c)" and ?w = "filesystem_moveFile (fs_env True) (hd demo_files) ''a1'' tree_world"
  have mem: "hd demo_files \<in> meta_files (?docs (w_db tree_world))" "id_ok ''a1''"
    by (simp_all add: demo_files_def id_ok_def ID_SIZE_def)
  have "mdfs_step (fs_env True) ?docs tree_world ?w" using mem by (rule mdfs_step.MoveFile)
  then have reach: "mdfs_reach (fs_env True) ?docs tree_world ?w" by (rule mdfs_reach.Step [OF mdfs_reach.Start])
  have "meta_files (?docs (w_db ?w)) = {(hd demo_files)\<lparr>file_parentId := ''a1''\<rparr>}"
    using fs_laws.moveFile_spec [OF fsenv.fs_laws_axioms [of True] tree_inv mem] by (simp add: demo_files_def file_names_def)
  with mdfs_blocks_safe [OF fsenv.fs_laws_axioms tree_inv reach] show ?thesis by blast
qed

text \<open>C6. Deleting a file frees exactly its blocks: \<open>filesystem_deleteFile\<close> on a file of the
  database succeeds and removes that file and no other, and on every node the free blocks are
  then the free ones of before and those that held its copies.\<close>

theorem deleteFile_frees_its_blocks:
  assumes "fs_laws E docs uniq" and "mdfs_inv E docs uniq (w_db w)" and "f \<in> meta_files (docs (w_db w))"
  shows "\<exists>w'. filesystem_deleteFile E (Some f) w = Some (True, w') \<and> mdfs_inv E docs uniq (w_db w') \<and>
    meta_dirs (docs (w_db w')) = meta_dirs (docs (w_db w)) \<and>
    meta_files (docs (w_db w')) = meta_files (docs (w_db w)) - {f} \<and>
    (\<forall>n \<in> meta_nodes (docs (w_db w)). \<exists>n' \<in> meta_nodes (docs (w_db w')). nd_id n' = nd_id n \<and>
      node_freeBlocks E n' = node_freeBlocks E n \<union> used_by (file_copies f) (nd_id n))"
  using fs_laws.deleteFile_spec [OF assms] unfolding nodes_rel_def by metis

theorem deleteFile_frees_its_blocks_witness:
  "\<exists>w'. filesystem_deleteFile (fs_env True) (Some (hd demo_files)) tree_world = Some (True, w') \<and>
     meta_files (\<lambda>c. set (ls_view (w_db w') c)) = {}"
proof -
  have "hd demo_files \<in> meta_files (\<lambda>c. set (ls_view (w_db tree_world) c))" "set demo_files - {hd demo_files} = {}"
    by (simp_all add: demo_files_def)
  then show ?thesis using deleteFile_frees_its_blocks [OF fsenv.fs_laws_axioms tree_inv] by fastforce
qed


lemma demo_tree_wf: "tree_wf (set demo_dirs)"
proof -
  have "parents (set demo_dirs) \<subseteq> measure (\<lambda>i. if i = ''b1'' then 0 else if i = ''a1'' then 1 else (2 :: nat))"
    by (auto simp: parents_def demo_dirs_def)
  then show ?thesis unfolding tree_wf_def by (rule wf_subset [OF wf_measure])
qed


text \<open>C40. A directory moved into itself cannot be deleted any more: \<open>filesystem_moveDir\<close> does not
  look at its destination, and after moving a directory under its own identifier
  \<open>filesystem_deleteDir\<close> on it never returns.\<close>

theorem moveDir_into_itself_blocks_delete:
  assumes "fs_laws E docs uniq" and "mdfs_inv E docs uniq (w_db w)" and "d \<in> meta_dirs (docs (w_db w))"
    and "(dir_name d, dir_id d) \<notin> dir_names (meta_dirs (docs (w_db w)) - {d})"
  shows "filesystem_deleteDir E (Some (d\<lparr>dir_parentId := dir_id d\<rparr>)) (filesystem_moveDir E d (dir_id d) w) = None"
proof (rule ccontr)
  let ?d = "d\<lparr>dir_parentId := dir_id d\<rparr>" and ?w = "filesystem_moveDir E d (dir_id d) w"
  assume "filesystem_deleteDir E (Some ?d) ?w \<noteq> None"
  then obtain r w' where run: "filesystem_deleteDir E (Some ?d) ?w = Some (r, w')" by auto
  have "id_ok (dir_id d)" using assms(3) by (simp add: meta_dirs_def elems_def dir_ok_def)
  from fs_laws.moveDir_spec [OF assms(1-3) this] assms(4)
  have inv: "mdfs_inv E docs uniq (w_db ?w)" and mem: "?d \<in> meta_dirs (docs (w_db ?w))" by simp_all
  show False using fs_laws.deleteDir_keeps [OF assms(1) inv mem run] by simp
qed

theorem moveDir_into_itself_blocks_delete_witness:
  "filesystem_deleteDir (fs_env True) (Some ((hd demo_dirs)\<lparr>dir_parentId := dir_id (hd demo_dirs)\<rparr>))
     (filesystem_moveDir (fs_env True) (hd demo_dirs) (dir_id (hd demo_dirs)) tree_world) = None"
  by (rule moveDir_into_itself_blocks_delete [OF fsenv.fs_laws_axioms tree_inv])
    (simp_all add: demo_dirs_def dir_names_def)

text \<open>C5. What \<open>filesystem_copyFileFromFS\<close> returns and does: -1 exactly when the name is taken in
  the directory (by a file or a directory), -2 exactly when it is free and there is no such
  local file, and then (and for -3) the database is as before; with -4 the new identifier was
  already in use; with 1 the one new file has the given name, the size of the local file and,
  for each block of its text, three copies on different nodes, and exactly the blocks of these
  copies are no longer free. The invariant holds in every case.\<close>

theorem copyFileFromFS_results:
  assumes "fs_laws E docs uniq" and "mdfs_inv E docs uniq (w_db w)" and "file_name f = Some name"
    and "id_ok (file_parentId f)" and "file_blocks f = []"
    and "filesystem_copyFileFromFS E schedule route f w = Some (r, f', w')"
  shows "mdfs_inv E docs uniq (w_db w') \<and> meta_dirs (docs (w_db w')) = meta_dirs (docs (w_db w)) \<and> r \<in> {1, -1, -2, -3, -4} \<and>
    (r = -1 \<longleftrightarrow> (Some name, file_parentId f) \<in> dir_names (meta_dirs (docs (w_db w))) \<union> file_names (meta_files (docs (w_db w)))) \<and>
    (r = -2 \<longleftrightarrow> (Some name, file_parentId f) \<notin> dir_names (meta_dirs (docs (w_db w))) \<union> file_names (meta_files (docs (w_db w))) \<and>
      w_local w route = None) \<and>
    (r \<in> {-1, -2, -3} \<longrightarrow> w_db w' = w_db w) \<and>
    (r = -4 \<longrightarrow> (\<exists>g \<in> meta_files (docs (w_db w)). file_id g = file_id f')) \<and>
    (r = 1 \<longrightarrow> meta_files (docs (w_db w')) = insert f' (meta_files (docs (w_db w))) \<and>
      (\<forall>g \<in> meta_files (docs (w_db w)). file_id g \<noteq> file_id f') \<and>
      (\<exists>str blocks. w_local w route = Some str \<and> filesystem_getBlocksFromStr str (length str) = Some blocks \<and>
        f' = f\<lparr>file_id := file_id f', file_size := word_of_nat (length str), file_blocks := file_blocks f'\<rparr> \<and>
        length (file_blocks f') = length blocks \<and> (\<forall>cs \<in> set (file_blocks f'). length cs = 3 \<and> distinct (map fb_nodeId cs)) \<and>
        nodes_rel E (take_copies (file_copies f')) (meta_nodes (docs (w_db w))) (meta_nodes (docs (w_db w')))))"
  by (rule fs_laws.copyFile_spec [OF assms])

theorem copyFileFromFS_results_witness:
  "\<exists>f' w'. filesystem_copyFileFromFS (fs_env True) [] ''/nothing'' (file_create\<lparr>file_name := Some ''y'', file_parentId := ''a1''\<rparr>) tree_world =
      Some (-2, f', w') \<and> w_db w' = demo_db"
proof -
  let ?f = "file_create\<lparr>file_name := Some ''y'', file_parentId := ''a1''\<rparr>"
  have f: "file_name ?f = Some ''y''" "id_ok (file_parentId ?f)" "file_blocks ?f = []"
    by (simp_all add: file_create_def id_ok_def ID_SIZE_def)
  have "filesystem_canCreateResource (fs_env True) (Some ''y'') ''a1'' tree_world = Some True"
    using fsenv.canCreateResource_spec [where w = tree_world and n = "''y''" and p = "''a1''"] demo_wf
    by (simp add: dir_names_def file_names_def demo_dirs_def demo_files_def)
  moreover have "w_local tree_world ''/nothing'' = None" by (simp add: tree_world_def world0_def)
  ultimately have run: "filesystem_copyFileFromFS (fs_env True) [] ''/nothing'' ?f tree_world = Some (-2, ?f, tree_world)"
    by (simp add: filesystem_copyFileFromFS_def filesystem_getFSFileBlocks_def)
  from copyFileFromFS_results [OF fsenv.fs_laws_axioms tree_inv f run] run show ?thesis by auto
qed



text \<open>C9. Deleting a copy takes it out of its block's list (all of its occurrences) and frees its
  block on its node, and changes nothing else; the invariant stays.\<close>

theorem deleteFileBlockCopy_frees_it:
  fixes f :: file_t
  assumes "fs_laws E docs uniq" and "mdfs_inv E docs uniq (w_db w)" and "f \<in> meta_files (docs (w_db w))"
    and "unat bi < length (file_blocks f)" and "unat ci < length (file_blocks f ! unat bi)"
  shows "\<exists>w'. filesystem_deleteFileBlockCopy E (Some f) bi ci w = Some (1, w') \<and> mdfs_inv E docs uniq (w_db w') \<and>
    meta_dirs (docs (w_db w')) = meta_dirs (docs (w_db w)) \<and>
    meta_files (docs (w_db w')) = insert (f\<lparr>file_blocks := (file_blocks f)[unat bi :=
        filter (\<lambda>c. c \<noteq> file_blocks f ! unat bi ! unat ci) (file_blocks f ! unat bi)]\<rparr>) (meta_files (docs (w_db w)) - {f}) \<and>
    nodes_rel E (release_copies [file_blocks f ! unat bi ! unat ci]) (meta_nodes (docs (w_db w))) (meta_nodes (docs (w_db w')))"
  using fs_laws.deleteCopy_spec [OF assms] by blast

theorem deleteFileBlockCopy_frees_it_witness:
  "\<exists>w'. filesystem_deleteFileBlockCopy (fs_env True) (Some (hd demo_files)) 0 0 tree_world = Some (1, w') \<and>
     meta_files (\<lambda>c. set (ls_view (w_db w') c)) = {(hd demo_files)\<lparr>file_blocks := [[]]\<rparr>}"
proof -
  have "hd demo_files \<in> meta_files (\<lambda>c. set (ls_view (w_db tree_world) c))"
    "unat (0 :: u16) < length (file_blocks (hd demo_files))"
    "unat (0 :: u16) < length (file_blocks (hd demo_files) ! unat (0 :: u16))" by (simp_all add: demo_files_def)
  from deleteFileBlockCopy_frees_it [OF fsenv.fs_laws_axioms [of True] tree_inv this]
  show ?thesis by (auto simp: demo_files_def)
qed

text \<open>C10. A known node that joins as new loses its copies and is empty: every file keeps its blocks
  without the copies on that node, the node has the size it announced and all its blocks are
  free, the other nodes are untouched. (A file has at most 65536 blocks, the range of the
  counter \<open>blockIndex\<close>.)\<close>

theorem addNode_new_forgets_copies:
  fixes n :: node_t
  assumes "fs_laws E docs uniq" and "mdfs_inv E docs uniq (w_db w)" and "n \<in> meta_nodes (docs (w_db w))"
    and "nd_id n = Some i" and "\<forall>f \<in> meta_files (docs (w_db w)). length (file_blocks f) \<le> 2 ^ 16"
  shows "\<exists>w'. filesystem_addNode E i cnt True w = Some w' \<and> mdfs_inv E docs uniq (w_db w') \<and>
    meta_dirs (docs (w_db w')) = meta_dirs (docs (w_db w)) \<and>
    meta_files (docs (w_db w')) = (\<lambda>f. f\<lparr>file_blocks := map (filter (\<lambda>c. fb_nodeId c \<noteq> i)) (file_blocks f)\<rparr>) `
      meta_files (docs (w_db w)) \<and>
    (\<exists>m. meta_nodes (docs (w_db w')) = insert m (meta_nodes (docs (w_db w)) - {n}) \<and> nd_id m = Some i \<and>
      nd_blocksCount m = cnt \<and> node_freeBlocks E m = {..<unat cnt})"
proof -
  obtain w' where w': "filesystem_addNode E i cnt True w = Some w'" "mdfs_inv E docs uniq (w_db w')"
    "meta_dirs (docs (w_db w')) = meta_dirs (docs (w_db w))"
    "meta_files (docs (w_db w')) = without_node i ` meta_files (docs (w_db w))"
    "meta_nodes (docs (w_db w')) = insert (node_setAllBlocksFree (n\<lparr>nd_blocksCount := cnt\<rparr>)) (meta_nodes (docs (w_db w)) - {n})"
    using fs_laws.addNode_new [OF assms, of cnt] by blast
  have "commons_laws E" using assms(1) by (simp add: fs_laws_def)
  from commons_laws.node_freeBlocks_setAllBlocksFree [OF this, of "n\<lparr>nd_blocksCount := cnt\<rparr>"]
  show ?thesis using w' assms(4) unfolding without_node_def
    by (intro exI [of _ w'] conjI exI [of _ "node_setAllBlocksFree (n\<lparr>nd_blocksCount := cnt\<rparr>)"]) simp_all
qed

theorem addNode_new_forgets_copies_witness:
  "\<exists>w'. filesystem_addNode (fs_env True) ''n1'' 8 True tree_world = Some w' \<and>
     meta_files (\<lambda>c. set (ls_view (w_db w') c)) = {(hd demo_files)\<lparr>file_blocks := [[]]\<rparr>}"
proof -
  have "hd demo_nodes \<in> meta_nodes (\<lambda>c. set (ls_view (w_db tree_world) c))" "nd_id (hd demo_nodes) = Some ''n1''"
    "\<forall>f \<in> meta_files (\<lambda>c. set (ls_view (w_db tree_world) c)). length (file_blocks f) \<le> 2 ^ 16"
    by (simp_all add: demo_nodes_def demo_files_def)
  from addNode_new_forgets_copies [where cnt = 8, OF fsenv.fs_laws_axioms [of True] tree_inv this]
  show ?thesis by (auto simp: demo_files_def)
qed

text \<open>Formatting empties the file system from any state of the database: afterwards there are no
  directories and no files, the same nodes are there, and every block of each one is free.\<close>

theorem format_empties:
  assumes "fs_laws E docs uniq" and "meta_wf (docs (w_db w)) (uniq (w_db w))"
  shows "\<exists>w'. filesystem_format E w = Some (True, w') \<and> mdfs_inv E docs uniq (w_db w') \<and>
    meta_dirs (docs (w_db w')) = {} \<and> meta_files (docs (w_db w')) = {} \<and>
    nd_id ` meta_nodes (docs (w_db w')) = nd_id ` meta_nodes (docs (w_db w)) \<and>
    (\<forall>n \<in> meta_nodes (docs (w_db w')). node_freeBlocks E n = {..<unat (nd_blocksCount n)})"
proof -
  obtain w' where w': "filesystem_format E w = Some (True, w')" "mdfs_inv E docs uniq (w_db w')"
    "meta_dirs (docs (w_db w')) = {}" "meta_files (docs (w_db w')) = {}"
    "meta_nodes (docs (w_db w')) = node_setAllBlocksFree ` meta_nodes (docs (w_db w))"
    using fs_laws.format_spec [OF assms] by blast
  have "commons_laws E" using assms(1) by (simp add: fs_laws_def)
  from commons_laws.node_freeBlocks_setAllBlocksFree [OF this] w'
  show ?thesis by (intro exI [of _ w']) (simp add: image_image)
qed

theorem format_empties_witness:
  "\<exists>w'. filesystem_format (fs_env True) three_world = Some (True, w') \<and>
     meta_files (\<lambda>c. set (ls_view (w_db w') c)) = {}"
  using format_empties [OF fsenv.fs_laws_axioms, of three_world True] three_wf by auto

text \<open>A directory is created exactly when its name is free in its parent, among the
  directories and among the files. With a fresh identifier from the driver
  \<open>filesystem_addDir\<close> then adds that one directory; otherwise nothing changes.\<close>

theorem addDir_needs_free_name:
  assumes "fs_laws E docs uniq" and "meta_wf (docs (w_db w)) (uniq (w_db w))"
    and "dir_name d = Some name" and "id_ok (dir_parentId d)"
    and "\<forall>e \<in> meta_dirs (docs (w_db w)). dir_id e \<noteq> fst (m_oid E (w_db w))"
  shows "\<exists>r d' w'. filesystem_addDir E d w = Some (r, d', w') \<and>
    (r \<longleftrightarrow> (Some name, dir_parentId d) \<notin> dir_names (meta_dirs (docs (w_db w))) \<union> file_names (meta_files (docs (w_db w)))) \<and>
    (if r then d' = d\<lparr>dir_id := fst (m_oid E (w_db w))\<rparr> \<and> dir_id d' \<noteq> ROOT_DIR_ID \<and>
        meta_dirs (docs (w_db w')) = insert d' (meta_dirs (docs (w_db w))) else w' = w) \<and>
    meta_files (docs (w_db w')) = meta_files (docs (w_db w)) \<and> meta_nodes (docs (w_db w')) = meta_nodes (docs (w_db w))"
  using fs_laws.addDir_spec [OF assms] by blast

theorem addDir_needs_free_name_witness:
  "\<exists>d' w'. filesystem_addDir (fs_env True) \<lparr>dir_id = '''', dir_parentId = ''b1'', dir_name = Some ''x''\<rparr> tree_world =
     Some (False, d', w')"
proof -
  let ?d = "\<lparr>dir_id = '''', dir_parentId = ''b1'', dir_name = Some ''x''\<rparr>"
  have "length (fst (m_oid (fs_env True) (w_db tree_world))) = 24" by (rule fsenv_mongo.oid_length)
  moreover have len: "\<forall>e \<in> meta_dirs (\<lambda>c. set (ls_view (w_db tree_world) c)). length (dir_id e) = 2" by (simp add: demo_dirs_def)
  ultimately have "\<forall>e \<in> meta_dirs (\<lambda>c. set (ls_view (w_db tree_world) c)). dir_id e \<noteq> fst (m_oid (fs_env True) (w_db tree_world))"
    using len by fastforce
  moreover have "(Some ''x'', ''b1'') \<in> file_names (set demo_files)" by (simp add: file_names_def demo_files_def)
  ultimately show ?thesis
    using addDir_needs_free_name [where d = ?d and name = "''x''", OF fsenv.fs_laws_axioms [of True], of tree_world] demo_wf
    by (auto simp: id_ok_def ID_SIZE_def)
qed

text \<open>Moving a file changes its parent and nothing else, unless another file of that name is
  there, when nothing changes. A directory of the same name in the destination does not stop
  it.\<close>

theorem moveFile_effect:
  fixes f :: file_t
  assumes "fs_laws E docs uniq" and "mdfs_inv E docs uniq (w_db w)" and "f \<in> meta_files (docs (w_db w))" and "id_ok p"
  shows "meta_dirs (docs (w_db (filesystem_moveFile E f p w))) = meta_dirs (docs (w_db w)) \<and>
    meta_nodes (docs (w_db (filesystem_moveFile E f p w))) = meta_nodes (docs (w_db w)) \<and>
    meta_files (docs (w_db (filesystem_moveFile E f p w))) =
      (if (file_name f, p) \<in> file_names (meta_files (docs (w_db w)) - {f}) then meta_files (docs (w_db w))
       else insert (f\<lparr>file_parentId := p\<rparr>) (meta_files (docs (w_db w)) - {f}))"
  using fs_laws.moveFile_spec [OF assms] by blast

theorem moveFile_effect_witness:
  "meta_files (\<lambda>c. set (ls_view (w_db (filesystem_moveFile (fs_env True) (hd demo_files) ''a1'' tree_world)) c)) =
     {(hd demo_files)\<lparr>file_parentId := ''a1''\<rparr>}"
proof -
  have "hd demo_files \<in> meta_files (\<lambda>c. set (ls_view (w_db tree_world) c))" "id_ok ''a1''"
    by (simp_all add: demo_files_def id_ok_def ID_SIZE_def)
  from moveFile_effect [OF fsenv.fs_laws_axioms [of True] tree_inv this]
  show ?thesis by (simp add: demo_files_def file_names_def)
qed

end
