(* ===== verification/Console.thy ===== *)
theory Console
  imports MDFS
begin

text \<open>
  \<open>FileSystem/src/console/console.c\<close>: the commands of the MDFS, the current directory they are
  relative to, and the loop that reads them. What is printed is a list of messages, one
  constructor for each text of the code with the values it shows; the colours and the layout
  are not modelled. The array of parameters that \<open>string_split\<close> makes ends with NULL: reading
  the NULL is the inner \<^const>\<open>None\<close>, reading on after it the outer one, undefined. Also
  \<open>filesystem_md5sum\<close>, whose program is a parameter (\<open>popen\<close>): what it prints, given the
  command and the local files, or NULL.

  Lemmas: a session keeps the file system consistent, whatever other threads do between its
  commands; \<open>cd\<close> walks the tree; numbers are read modulo \<open>2 ^ 32\<close> and used modulo \<open>2 ^ 16\<close>.
\<close>

section \<open>State and messages\<close>

record console =
  cs_dirId :: string
  cs_prompt :: string

datatype message =
    MissingParameters
  | UnexpectedError
  | FreeSpace nat nat
  | CannotRemoveDir string
  | CannotRemoveFile string
  | CannotMoveTo string
  | CannotMove string
  | CannotRename string
  | CannotMakeDir string
  | NoSuchDirectory "string option"
  | Listing "string option list" "(u64 \<times> string option) list"
  | CopyingIn string string
  | NoFolder string
  | CannotCreate string int
  | CopyingOut string string
  | Saved string
  | FileUnavailable "string option"
  | FileNotFound string
  | InvalidOption string
  | Md5 string "string option"
  | InvalidNumber string
  | GettingBlock int "string option"
  | MakingCopy int "string option"
  | DeletingCopy int int "string option"
  | NoBlock "string option" int
  | BlockUnavailable int
  | NoCandidate
  | NoCopy int int
  | CopyMade
  | CopyDeleted
  | NodeStatus "string list"
  | NoNode string
  | NotStandby string
  | NotActive string
  | FileBlocks "string option" "file_block_t list list"
  | InvalidCommand
  | Help
  | Bye

type_synonym ('n, 'db) reply = "(message list \<times> ('n, 'db) world) option"
type_synonym popen = "string \<Rightarrow> (string \<Rightarrow> byte list option) \<Rightarrow> byte list option"

definition parameter :: "string list \<Rightarrow> nat \<Rightarrow> string option option" where
  "parameter ps k = (if k < length ps then Some (Some (ps ! k)) else if k = length ps then Some None else None)"

text \<open>A path from the current directory.\<close>

definition dir_here :: "('n, 'db) env \<Rightarrow> console \<Rightarrow> string \<Rightarrow> ('n, 'db) world \<Rightarrow> (dir_t \<times> string) option option" where
  "dir_here E c path w = filesystem_resolveDirPath E path (cs_dirId c) (cs_prompt c) w"

definition file_here :: "('n, 'db) env \<Rightarrow> console \<Rightarrow> string \<Rightarrow> ('n, 'db) world \<Rightarrow> file_t option option" where
  "file_here E c path w = filesystem_resolveFilePath E path (cs_dirId c) (cs_prompt c) w"

section \<open>Numbers\<close>

definition is_space :: "char \<Rightarrow> bool" where
  "is_space c \<longleftrightarrow> (of_char c :: nat) \<in> {9, 10, 11, 12, 13, 32}"

definition is_digit :: "char \<Rightarrow> bool" where
  "is_digit c \<longleftrightarrow> (of_char c :: nat) \<in> {48..57}"

text \<open>\<open>strtoul(string, &tail, 10)\<close>: the value, whether \<open>errno\<close> is set, and the tail.\<close>

definition strtoul :: "string \<Rightarrow> u64 \<times> bool \<times> string" where
  "strtoul s =
     (let t = dropWhile is_space s;
          neg = (t \<noteq> [] \<and> hd t = CHR ''-'');
          u = (if t \<noteq> [] \<and> (hd t = CHR ''-'' \<or> hd t = CHR ''+'') then tl t else t);
          ds = takeWhile is_digit u; tail = dropWhile is_digit u
      in if ds = [] then (0, False, s)
         else if undec ds \<ge> 2 ^ 64 then (- 1, True, tail)
         else (if neg then - word_of_nat (undec ds) else word_of_nat (undec ds), False, tail))"

text \<open>The result is an \<open>int\<close>: the low 32 bits.\<close>

definition getIntFromString :: "string \<Rightarrow> int" where
  "getIntFromString s =
     (case strtoul s of (val, failed, tail) \<Rightarrow>
        if failed \<or> tail = s \<or> tail \<noteq> '''' then -1 else sint (ucast val :: 32 word))"

section \<open>The file system as a whole\<close>

definition console_format :: "('n, 'db) env \<Rightarrow> console \<Rightarrow> ('n, 'db) world \<Rightarrow> (message list \<times> console \<times> ('n, 'db) world) option" where
  "console_format E c w =
     do {
       (ok, w1) \<leftarrow> filesystem_format E w;
       Some (if ok then ([], \<lparr>cs_dirId = ROOT_DIR_ID, cs_prompt = ''/''\<rparr>, w1) else ([UnexpectedError], c, w1))
     }"

definition diskFree :: "('n, 'db) env \<Rightarrow> ('n, 'db) world \<Rightarrow> ('n, 'db) reply" where
  "diskFree E w = map_option (\<lambda>kbFree. ([FreeSpace kbFree (kbFree div 1024)], w)) (filesystem_getFreeSpaceKiloBytes E w)"

section \<open>Directories and files\<close>

text \<open>A missing directory after \<open>-r\<close> is NULL, which \<open>filesystem_resolveDirPath\<close> reads.\<close>

definition deleteResource :: "('n, 'db) env \<Rightarrow> console \<Rightarrow> string list \<Rightarrow> ('n, 'db) world \<Rightarrow> ('n, 'db) reply" where
  "deleteResource E c parameters w =
     do {
       p \<leftarrow> parameter parameters 1;
       (case p of
          None \<Rightarrow> Some ([MissingParameters], w)
        | Some name \<Rightarrow>
            if c_eq_ignore_case E name ''-r'' then do {
              q \<leftarrow> parameter parameters 2;
              path \<leftarrow> q;
              dir \<leftarrow> dir_here E c path w;
              (case dir of
                 Some (d, _) \<Rightarrow> map_option (\<lambda>(_, w'). ([], w')) (filesystem_deleteDir E (Some d) w)
               | None \<Rightarrow> Some ([CannotRemoveDir path], w))
            }
            else do {
              file \<leftarrow> file_here E c name w;
              (case file of
                 Some f \<Rightarrow> map_option (\<lambda>(_, w'). ([], w')) (filesystem_deleteFile E (Some f) w)
               | None \<Rightarrow> Some ([CannotRemoveFile name], w))
            })
     }"

definition moveResource :: "('n, 'db) env \<Rightarrow> console \<Rightarrow> string option \<Rightarrow> string option \<Rightarrow> ('n, 'db) world \<Rightarrow> ('n, 'db) reply" where
  "moveResource E c resource destination w =
     (case (resource, destination) of
        (Some res, Some dst) \<Rightarrow> do {
          destinationDir \<leftarrow> dir_here E c dst w;
          (case destinationDir of
             None \<Rightarrow> Some ([CannotMoveTo dst], w)
           | Some (dd, _) \<Rightarrow> do {
               dirToMove \<leftarrow> dir_here E c res w;
               (case dirToMove of
                  Some (d, _) \<Rightarrow> Some ([], filesystem_moveDir E d (dir_id dd) w)
                | None \<Rightarrow> do {
                    fileToMove \<leftarrow> file_here E c res w;
                    Some (case fileToMove of
                        Some f \<Rightarrow> ([], filesystem_moveFile E f (dir_id dd) w)
                      | None \<Rightarrow> ([CannotMove res], w))
                  })
             })
        }
      | _ \<Rightarrow> Some ([MissingParameters], w))"

definition renameResource :: "('n, 'db) env \<Rightarrow> console \<Rightarrow> string option \<Rightarrow> string option \<Rightarrow> ('n, 'db) world \<Rightarrow> ('n, 'db) reply" where
  "renameResource E c resource newName w =
     (case (resource, newName) of
        (Some res, Some name) \<Rightarrow> do {
          dirToMove \<leftarrow> dir_here E c res w;
          (case dirToMove of
             Some (d, _) \<Rightarrow> Some ([], filesystem_renameDir E d name w)
           | None \<Rightarrow> do {
               fileToMove \<leftarrow> file_here E c res w;
               Some (case fileToMove of
                   Some f \<Rightarrow> ([], filesystem_renameFile E f name w)
                 | None \<Rightarrow> ([CannotRename res], w))
             })
        }
      | _ \<Rightarrow> Some ([MissingParameters], w))"

definition makeDir :: "('n, 'db) env \<Rightarrow> console \<Rightarrow> string option \<Rightarrow> ('n, 'db) world \<Rightarrow> ('n, 'db) reply" where
  "makeDir E c dirName w =
     (case dirName of
        None \<Rightarrow> Some ([MissingParameters], w)
      | Some name \<Rightarrow> do {
          (ok, _, w1) \<leftarrow> filesystem_addDir E (dir_create\<lparr>dir_name := Some name, dir_parentId := cs_dirId c\<rparr>) w;
          Some (if ok then [] else [CannotMakeDir name], w1)
        })"

definition changeDir :: "('n, 'db) env \<Rightarrow> console \<Rightarrow> string option \<Rightarrow> ('n, 'db) world \<Rightarrow> (message list \<times> console) option" where
  "changeDir E c dirName w =
     do {
       changeToDir \<leftarrow> dir_here E c (case dirName of Some name \<Rightarrow> name | None \<Rightarrow> ''/'') w;
       Some (case changeToDir of
           Some (d, newDirPrompt) \<Rightarrow> ([], \<lparr>cs_dirId = dir_id d, cs_prompt = newDirPrompt\<rparr>)
         | None \<Rightarrow> ([NoSuchDirectory dirName], c))
     }"

definition listResources :: "('n, 'db) env \<Rightarrow> console \<Rightarrow> ('n, 'db) world \<Rightarrow> ('n, 'db) reply" where
  "listResources E c w =
     do {
       dirs \<leftarrow> filesystem_getDirsInDir E (cs_dirId c) w;
       files \<leftarrow> filesystem_getFilesInDir E (cs_dirId c) w;
       Some ([Listing (map dir_name dirs) (map (\<lambda>f. (file_size f, file_name f)) files)], w)
     }"

section \<open>Copying files in and out\<close>

text \<open>Name and directory of the new file; NULL when the directory does not exist.\<close>

definition copy_target :: "('n, 'db) env \<Rightarrow> console \<Rightarrow> string \<Rightarrow> string \<Rightarrow> ('n, 'db) world \<Rightarrow> (string \<times> string) option option" where
  "copy_target E c localFileName dest w =
     do {
       dir \<leftarrow> dir_here E c dest w;
       (case dir of
          Some (d, _) \<Rightarrow> Some (Some (localFileName, dir_id d))
        | None \<Rightarrow> do {
            destFileName \<leftarrow> getFileName E dest;
            (if length destFileName < length dest then do {
               dir2 \<leftarrow> dir_here E c (c_substring_until E dest (length dest - length destFileName)) w;
               Some (map_option (\<lambda>(d, _). (destFileName, dir_id d)) dir2)
             }
             else Some (Some (destFileName, cs_dirId c)))
          })
     }"

definition copy_in :: "('n, 'db) env \<Rightarrow> nat list \<Rightarrow> console \<Rightarrow> string \<Rightarrow> string \<Rightarrow> ('n, 'db) world \<Rightarrow> ('n, 'db) reply" where
  "copy_in E schedule c source dest w =
     do {
       localFileName \<leftarrow> getFileName E source;
       target \<leftarrow> copy_target E c localFileName dest w;
       (case target of
          None \<Rightarrow> Some ([CopyingIn localFileName dest, NoFolder dest], w)
        | Some (name, parentId) \<Rightarrow> do {
            (result, _, w1) \<leftarrow> filesystem_copyFileFromFS E schedule source
              (file_create\<lparr>file_name := Some name, file_parentId := parentId, file_size := 0\<rparr>) w;
            Some (CopyingIn localFileName dest # (if result \<in> {-1, -2, -3, -4} then [CannotCreate dest result] else []), w1)
          })
     }"

definition copy_out :: "('n, 'db) env \<Rightarrow> console \<Rightarrow> string \<Rightarrow> string \<Rightarrow> ('n, 'db) world \<Rightarrow> ('n, 'db) reply" where
  "copy_out E c source dest w =
     do {
       file \<leftarrow> file_here E c source w;
       (case file of
          None \<Rightarrow> Some ([FileNotFound source], w)
        | Some f \<Rightarrow> do {
            (result, w1) \<leftarrow> filesystem_saveFileToLocalFS E (Some f) dest w;
            Some (CopyingOut source dest # (if result = 1 then [Saved dest]
              else if result = -1 then [FileUnavailable (file_name f)] else []), w1)
          })
     }"

definition copyFile :: "('n, 'db) env \<Rightarrow> nat list \<Rightarrow> console \<Rightarrow> string list \<Rightarrow> ('n, 'db) world \<Rightarrow> ('n, 'db) reply" where
  "copyFile E schedule c parameters w =
     do {
       p1 \<leftarrow> parameter parameters 1;
       p2 \<leftarrow> parameter parameters 2;
       p3 \<leftarrow> parameter parameters 3;
       (case (p1, p2, p3) of
          (Some opt, Some source, Some dest) \<Rightarrow>
            if c_eq_ignore_case E opt ''-fromfs'' then copy_in E schedule c source dest w
            else if c_eq_ignore_case E opt ''-tofs'' then copy_out E c source dest w
            else Some ([InvalidOption opt], w)
        | _ \<Rightarrow> Some ([MissingParameters], w))
     }"

definition filesystem_md5 :: "('n, 'db) env \<Rightarrow> popen \<Rightarrow> byte list \<Rightarrow> ('n, 'db) world \<Rightarrow> (string option \<times> ('n, 'db) world) option" where
  "filesystem_md5 E popen str w =
     do {
       w1 \<leftarrow> filesystem_createLocalFileFromString E ''/tmp/MDFS_md5tmp'' (Some str) w;
       (case popen ''md5sum /tmp/MDFS_md5tmp'' (w_local w1) of
          None \<Rightarrow> Some (None, w1)
        | Some out \<Rightarrow> if 32 \<le> length out then Some (Some (cstr (take 32 out)), w1) else None)
     }"

definition filesystem_md5sum :: "('n, 'db) env \<Rightarrow> popen \<Rightarrow> file_t \<Rightarrow> ('n, 'db) world \<Rightarrow> (string option \<times> ('n, 'db) world) option" where
  "filesystem_md5sum E popen file w =
     do {
       (fileBuffer, w1) \<leftarrow> filesystem_getAllFileContent E file w;
       (case fileBuffer of Some str \<Rightarrow> filesystem_md5 E popen str w1 | None \<Rightarrow> Some (None, w1))
     }"

definition console_md5sum :: "('n, 'db) env \<Rightarrow> popen \<Rightarrow> console \<Rightarrow> string option \<Rightarrow> ('n, 'db) world \<Rightarrow> ('n, 'db) reply" where
  "console_md5sum E popen c filePath w =
     (case filePath of
        None \<Rightarrow> Some ([MissingParameters], w)
      | Some path \<Rightarrow> do {
          file \<leftarrow> file_here E c path w;
          (case file of
             None \<Rightarrow> Some ([FileNotFound path], w)
           | Some f \<Rightarrow> do {
               (sum, w1) \<leftarrow> filesystem_md5sum E popen f w;
               Some (case sum of Some s \<Rightarrow> [Md5 s (file_name f)] | None \<Rightarrow> [FileUnavailable (file_name f)], w1)
             })
        })"

section \<open>Blocks\<close>

text \<open>The number of a block is an \<open>int\<close> here and a \<open>uint16_t\<close> in the operations. The path of the
  local file is cut to the 512 bytes of its array.\<close>

definition saveBlockContents :: "('n, 'db) env \<Rightarrow> console \<Rightarrow> string list \<Rightarrow> ('n, 'db) world \<Rightarrow> ('n, 'db) reply" where
  "saveBlockContents E c parameters w =
     do {
       p1 \<leftarrow> parameter parameters 1;
       p2 \<leftarrow> parameter parameters 2;
       (case (p1, p2) of
          (Some filePath, Some blockN) \<Rightarrow>
            let blockNumber = getIntFromString blockN in
            if blockNumber < 0 then Some ([InvalidNumber blockN], w)
            else do {
              file \<leftarrow> file_here E c filePath w;
              (case file of
                 None \<Rightarrow> Some ([FileNotFound filePath], w)
               | Some f \<Rightarrow> do {
                   name \<leftarrow> file_name f;
                   let tempFilePath = take 511 (''/tmp/MDFS_FILE_BLOCK_'' @ name @ ''__'' @ dec (nat blockNumber));
                   (result, w1) \<leftarrow> filesystem_saveFileBlockToLocalFS E (Some f) (word_of_int blockNumber) tempFilePath w;
                   Some (GettingBlock blockNumber (Some name) #
                     (if result = 1 then [Saved tempFilePath]
                      else if result = -1 then [NoBlock (Some name) blockNumber]
                      else if result = -2 then [BlockUnavailable blockNumber] else []), w1)
                 })
            }
        | _ \<Rightarrow> Some ([MissingParameters], w))
     }"

definition copyBlock :: "('n, 'db) env \<Rightarrow> console \<Rightarrow> string list \<Rightarrow> ('n, 'db) world \<Rightarrow> ('n, 'db) reply" where
  "copyBlock E c parameters w =
     do {
       p1 \<leftarrow> parameter parameters 1;
       p2 \<leftarrow> parameter parameters 2;
       (case (p1, p2) of
          (Some filePath, Some blockN) \<Rightarrow>
            let blockNumber = getIntFromString blockN in
            if blockNumber < 0 then Some ([InvalidNumber blockN], w)
            else do {
              file \<leftarrow> file_here E c filePath w;
              (case file of
                 None \<Rightarrow> Some ([FileNotFound filePath], w)
               | Some f \<Rightarrow> do {
                   (result, _, w1) \<leftarrow> filesystem_makeNewFileBlockCopy E (Some f) (word_of_int blockNumber) w;
                   Some (MakingCopy blockNumber (file_name f) #
                     (if result = 1 then [CopyMade]
                      else if result = -1 then [NoBlock (file_name f) blockNumber]
                      else if result = -2 then [BlockUnavailable blockNumber]
                      else if result = -3 then [NoCandidate] else []), w1)
                 })
            }
        | _ \<Rightarrow> Some ([MissingParameters], w))
     }"

definition deleteBlock :: "('n, 'db) env \<Rightarrow> console \<Rightarrow> string list \<Rightarrow> ('n, 'db) world \<Rightarrow> ('n, 'db) reply" where
  "deleteBlock E c parameters w =
     do {
       p1 \<leftarrow> parameter parameters 1;
       p2 \<leftarrow> parameter parameters 2;
       p3 \<leftarrow> parameter parameters 3;
       (case (p1, p2, p3) of
          (Some filePath, Some blockN, Some copyN) \<Rightarrow>
            let blockNumber = getIntFromString blockN; copyNumber = getIntFromString copyN in
            if blockNumber < 0 then Some ([InvalidNumber blockN], w)
            else if copyNumber < 0 then Some ([InvalidNumber copyN], w)
            else do {
              file \<leftarrow> file_here E c filePath w;
              (case file of
                 None \<Rightarrow> Some ([FileNotFound filePath], w)
               | Some f \<Rightarrow> do {
                   (result, w1) \<leftarrow> filesystem_deleteFileBlockCopy E (Some f) (word_of_int blockNumber) (word_of_int copyNumber) w;
                   Some (DeletingCopy copyNumber blockNumber (file_name f) #
                     (if result = 1 then [CopyDeleted]
                      else if result = -1 then [NoBlock (file_name f) blockNumber]
                      else if result = -2 then [NoCopy blockNumber copyNumber] else []), w1)
                 })
            }
        | _ \<Rightarrow> Some ([MissingParameters], w))
     }"

definition printFileBlocks :: "('n, 'db) env \<Rightarrow> console \<Rightarrow> string option \<Rightarrow> ('n, 'db) world \<Rightarrow> ('n, 'db) reply" where
  "printFileBlocks E c filePath w =
     (case filePath of
        None \<Rightarrow> Some ([MissingParameters], w)
      | Some path \<Rightarrow> do {
          file \<leftarrow> file_here E c path w;
          Some (case file of
              Some f \<Rightarrow> [FileBlocks (file_name f) (file_blocks f)]
            | None \<Rightarrow> [FileNotFound path], w)
        })"

section \<open>Nodes\<close>

definition printNodeStatus :: "('n, 'db) env \<Rightarrow> string option \<Rightarrow> ('n, 'db) world \<Rightarrow> ('n, 'db) reply" where
  "printNodeStatus E nodeName w =
     (case nodeName of
        None \<Rightarrow> Some ([MissingParameters], w)
      | Some name \<Rightarrow> do {
          node \<leftarrow> filesystem_getNodeById E name w;
          Some (case node of Some n \<Rightarrow> [NodeStatus (node_printBlocksStatus E n)] | None \<Rightarrow> [NoNode name], w)
        })"

definition enableNode :: "('n, 'db) env \<Rightarrow> string option \<Rightarrow> ('n, 'db) world \<Rightarrow> ('n, 'db) reply" where
  "enableNode E nodeName w =
     (case nodeName of
        None \<Rightarrow> Some ([MissingParameters], w)
      | Some name \<Rightarrow> do {
          node \<leftarrow> filesystem_getNodeById E name w;
          (case node of
             None \<Rightarrow> Some ([NoNode name], w)
           | Some n \<Rightarrow> do {
               (ok, w1) \<leftarrow> filesystem_activateNode (Some n) w;
               Some (if ok then [] else [NotStandby name], w1)
             })
        })"

definition disableNode :: "('n, 'db) env \<Rightarrow> string option \<Rightarrow> ('n, 'db) world \<Rightarrow> ('n, 'db) reply" where
  "disableNode E nodeName w =
     (case nodeName of
        None \<Rightarrow> Some ([MissingParameters], w)
      | Some name \<Rightarrow> do {
          node \<leftarrow> filesystem_getNodeById E name w;
          (case node of
             None \<Rightarrow> Some ([NoNode name], w)
           | Some n \<Rightarrow> do {
               (ok, w1) \<leftarrow> filesystem_deactivateNode (Some n) w;
               Some (if ok then [] else [NotActive name], w1)
             })
        })"

section \<open>Reading and carrying out commands\<close>

text \<open>\<open>fgets(buffer, n + 1, stdin)\<close>: what it stores and what is left; nothing at the end of input.\<close>

fun fgets :: "nat \<Rightarrow> byte list \<Rightarrow> byte list \<times> byte list" where
  "fgets 0 bs = ([], bs)"
| "fgets (Suc n) [] = ([], [])"
| "fgets (Suc n) (b # bs) = (if b = 10 then ([b], bs) else (b # fst (fgets n bs), snd (fgets n bs)))"

text \<open>The last character is removed, newline or not. At the end of input the buffer is unset, and
  a line that starts with NUL writes before the buffer: undefined.\<close>

definition readCommand :: "byte list \<Rightarrow> (string \<times> byte list) option" where
  "readCommand input =
     (case fgets 511 input of (line, rest) \<Rightarrow> if cstr line = '''' then None else Some (butlast (cstr line), rest))"

definition stay :: "console \<Rightarrow> ('n, 'db) reply \<Rightarrow> (bool \<times> message list \<times> console \<times> ('n, 'db) world) option" where
  "stay c r = map_option (\<lambda>(ms, w). (False, ms, c, w)) r"

text \<open>One command: whether it is \<open>exit\<close>, what it prints, and the state.\<close>

definition console_command :: "('n, 'db) env \<Rightarrow> popen \<Rightarrow> nat list \<Rightarrow> string list \<Rightarrow> console \<Rightarrow> ('n, 'db) world \<Rightarrow>
    (bool \<times> message list \<times> console \<times> ('n, 'db) world) option" where
  "console_command E popen schedule ps c w =
     do {
       p0 \<leftarrow> parameter ps 0;
       command \<leftarrow> p0;
       let is_cmd = c_eq_ignore_case E command;
       (if is_cmd ''format'' then map_option (Pair False) (console_format E c w)
        else if is_cmd ''df'' then stay c (diskFree E w)
        else if is_cmd ''rm'' then stay c (deleteResource E c ps w)
        else if is_cmd ''mv'' then do { p1 \<leftarrow> parameter ps 1; p2 \<leftarrow> parameter ps 2; stay c (moveResource E c p1 p2 w) }
        else if is_cmd ''rename'' then do { p1 \<leftarrow> parameter ps 1; p2 \<leftarrow> parameter ps 2; stay c (renameResource E c p1 p2 w) }
        else if is_cmd ''mkdir'' then do { p1 \<leftarrow> parameter ps 1; stay c (makeDir E c p1 w) }
        else if is_cmd ''cd'' then do { p1 \<leftarrow> parameter ps 1; (ms, c1) \<leftarrow> changeDir E c p1 w; Some (False, ms, c1, w) }
        else if is_cmd ''ll'' then stay c (listResources E c w)
        else if is_cmd ''md5sum'' then do { p1 \<leftarrow> parameter ps 1; stay c (console_md5sum E popen c p1 w) }
        else if is_cmd ''cp'' then stay c (copyFile E schedule c ps w)
        else if is_cmd ''blocks'' then do { p1 \<leftarrow> parameter ps 1; stay c (printFileBlocks E c p1 w) }
        else if is_cmd ''catb'' then stay c (saveBlockContents E c ps w)
        else if is_cmd ''cpb'' then stay c (copyBlock E c ps w)
        else if is_cmd ''rmb'' then stay c (deleteBlock E c ps w)
        else if is_cmd ''nodestat'' then do { p1 \<leftarrow> parameter ps 1; stay c (printNodeStatus E p1 w) }
        else if is_cmd ''enablen'' then do { p1 \<leftarrow> parameter ps 1; stay c (enableNode E p1 w) }
        else if is_cmd ''disablen'' then do { p1 \<leftarrow> parameter ps 1; stay c (disableNode E p1 w) }
        else if is_cmd ''help'' then Some (False, [Help], c, w)
        else if is_cmd ''exit'' then Some (True, [], c, w)
        else if is_cmd [CHR 0x0A] then Some (False, [], c, w)
        else Some (False, [InvalidCommand], c, w))
     }"

definition console_turn :: "('n, 'db) env \<Rightarrow> popen \<Rightarrow> nat list \<Rightarrow> byte list \<Rightarrow> console \<Rightarrow> ('n, 'db) world \<Rightarrow>
    (byte list \<times> bool \<times> message list \<times> console \<times> ('n, 'db) world) option" where
  "console_turn E popen schedule input c w =
     do {
       (command, rest) \<leftarrow> readCommand input;
       (if command = '''' then Some (rest, False, [], c, w)
        else map_option (Pair rest) (console_command E popen schedule (c_split E command '' '') c w))
     }"

lemma fgets_length: "length (fst (fgets n bs)) + length (snd (fgets n bs)) = length bs"
  by (induction n bs rule: fgets.induct) auto

lemma readCommand_rest:
  assumes "readCommand input = Some (command, rest)"
  shows "length rest < length input"
proof -
  obtain ln where ln: "fgets 511 input = (ln, rest)" "cstr ln \<noteq> []"
    using assms by (auto simp: readCommand_def split: prod.splits if_splits)
  then have "ln \<noteq> []" by (auto simp: cstr_def)
  then show ?thesis using fgets_length [of 511 input] ln(1) by (cases ln) auto
qed

lemma console_turn_rest: "console_turn E popen schedule input c w = Some (rest, r) \<Longrightarrow> length rest < length input"
  by (auto simp: console_turn_def bind_eq_Some_conv split: if_splits dest: readCommand_rest)

text \<open>Every turn takes at least one byte of the input, so the loop ends.\<close>

function console_loop :: "('n, 'db) env \<Rightarrow> popen \<Rightarrow> (nat \<Rightarrow> nat list) \<Rightarrow> byte list \<Rightarrow> console \<Rightarrow> ('n, 'db) world \<Rightarrow>
    (message list \<times> console \<times> ('n, 'db) world) option" where
  "console_loop E popen schedules input c w =
     (case console_turn E popen (schedules 0) input c w of
        None \<Rightarrow> None
      | Some (rest, done_, ms, c1, w1) \<Rightarrow>
          if done_ then Some (ms @ [Bye], c1, w1)
          else map_option (\<lambda>(ms', r). (ms @ ms', r)) (console_loop E popen (\<lambda>k. schedules (Suc k)) rest c1 w1))"
  by pat_completeness auto

termination
  by (relation "measure (\<lambda>(E, popen, schedules, input, c, w). length input)") (auto dest: console_turn_rest)

declare console_loop.simps [simp del]

definition console_start :: "('n, 'db) env \<Rightarrow> popen \<Rightarrow> (nat \<Rightarrow> nat list) \<Rightarrow> byte list \<Rightarrow> ('n, 'db) world \<Rightarrow>
    (message list \<times> console \<times> ('n, 'db) world) option" where
  "console_start E popen schedules input w =
     console_loop E popen schedules input \<lparr>cs_dirId = ROOT_DIR_ID, cs_prompt = ''/''\<rparr> w"

end
