(* ===== verification/Console_Session.thy ===== *)
theory Console_Session
  imports Console
begin

text \<open>
  Sessions of the console: each command keeps the file system consistent and the current
  directory usable, with whatever the other threads do between two commands. Also what \<open>cd\<close>
  and \<open>getIntFromString\<close> do.
\<close>

section \<open>What the operations do on any record\<close>

text \<open>The console passes the directory found for a path, which can be the root: no record of the
  database.\<close>

context fs_laws begin

lemma resolveFilePath_mem:
  assumes "wf w" and "filesystem_resolveFilePath E path i sp w = Some (Some f)"
  shows "f \<in> files w"
proof -
  obtain n d where "filesystem_getFileByNameInDir E n d w = Some (Some f)"
    using assms(2) by (auto simp: filesystem_resolveFilePath_def bind_eq_Some_conv Let_def split: option.splits if_splits)
  then show ?thesis using mon.file_getByNameInDir(1) [OF assms(1)] by (auto simp: filesystem_getFileByNameInDir_def)
qed

lemma dir_update_absent:
  assumes inv: "inv w" and absent: "\<forall>e \<in> dirs w. dir_id e \<noteq> i"
  shows "inv (w\<lparr>w_db := m_update E DirColl [(''_id'', BUtf8 i)] u (w_db w)\<rparr>)"
proof -
  let ?db = "m_update E DirColl [(''_id'', BUtf8 i)] u (w_db w)"
  have typed: "\<forall>x \<in> docs (w_db w) DirColl. \<exists>e. dir_ok e \<and> x = dir_getBSON e"
    using mon.wf_typed(1) [OF inv_wf(1) [OF inv]] by (auto simp: typed_def)
  have "{d \<in> docs (w_db w) DirColl. matches [(''_id'', BUtf8 i)] d} = {}"
    using typed absent by (fastforce simp: matches_def dir_getBSON_def meta_dirs_def elems_def)
  then have "docs ?db c = docs (w_db w) c" for c
    using mon.upd_none mon.upd_frame by (cases "c = DirColl") auto
  then have "docs ?db = docs (w_db w)" "uniq ?db = uniq (w_db w)" by (auto simp: fun_eq_iff mon.upd_uniq)
  with inv show ?thesis by (simp add: mdfs_inv_def)
qed

end

context fs_laws begin

lemma moveDir_inv: "inv w \<Longrightarrow> id_ok p \<Longrightarrow> inv (filesystem_moveDir E d p w)"
proof -
  assume inv: "inv w" and p: "id_ok p"
  show ?thesis
  proof (cases "\<exists>e \<in> dirs w. dir_id e = dir_id d")
    case True
    then obtain e where e: "e \<in> dirs w" "dir_id e = dir_id d" by blast
    from moveDir_spec [OF inv e(1) p] show ?thesis by (simp add: filesystem_moveDir_def e(2))
  next
    case False
    with dir_update_absent [OF inv] show ?thesis
      by (simp add: filesystem_moveDir_def mongo_dir_updateParentId_def mongo_update_def)
  qed
qed

lemma renameDir_inv: "inv w \<Longrightarrow> inv (filesystem_renameDir E d n w)"
proof -
  assume inv: "inv w"
  show ?thesis
  proof (cases "\<exists>e \<in> dirs w. dir_id e = dir_id d")
    case True
    then obtain e where e: "e \<in> dirs w" "dir_id e = dir_id d" by blast
    from renameDir_spec [OF inv e(1)] show ?thesis by (simp add: filesystem_renameDir_def e(2))
  next
    case False
    with dir_update_absent [OF inv] show ?thesis
      by (simp add: filesystem_renameDir_def mongo_dir_updateName_def mongo_update_def)
  qed
qed

lemma deleteDir_inv:
  assumes inv: "inv w" and run: "filesystem_deleteDir E (Some x) w = Some (r, w')"
  shows "inv w'"
proof (cases "\<exists>e \<in> dirs w. dir_id e = dir_id x")
  case True
  then obtain e where e: "e \<in> dirs w" "dir_id e = dir_id x" by blast
  then have "filesystem_deleteDir E (Some e) w = Some (r, w')" using run by (simp add: filesystem_deleteDir_def)
  with deleteDir_keeps [OF inv e(1)] show ?thesis by blast
next
  case False
  have D: "inj_on dir_id (insert x (dirs w))"
    using mon.dir_unique(1) [OF inv_wf(1) [OF inv]] False unfolding inj_on_def by auto
  obtain fs w1 cs w2 where s: "filesystem_getFilesInDir E (dir_id x) w = Some fs" "delete_files E fs w = Some w1"
    "filesystem_getDirsInDir E (dir_id x) w1 = Some cs" "delete_dirs E cs w1 = Some w2"
    "w' = w2\<lparr>w_db := snd (mongo_dir_deleteById E (dir_id x) (w_db w2))\<rparr>"
    using run by (auto simp: filesystem_deleteDir_def bind_eq_Some_conv case_prod_beta)
  from delete_keeps_tree [OF D inv _ s(1-3) delete_dirs_keeps [OF D s(4)], of x] s(5) show ?thesis by blast
qed

text \<open>What reads blocks and writes local files leaves the database alone.\<close>

lemma all_blocks_db: "all_blocks E cs w = (r, w') \<Longrightarrow> w_db w' = w_db w"
proof (induction cs arbitrary: w r w')
  case (Cons c cs)
  obtain b w1 where g: "first_copy E c w = (b, w1)" by (cases "first_copy E c w")
  note db = first_copy_frame [OF g]
  show ?case
  proof (cases b)
    case None
    then show ?thesis using Cons.prems g db by simp
  next
    case (Some x)
    obtain r2 w2 where a: "all_blocks E cs w1 = (r2, w2)" by (cases "all_blocks E cs w1")
    have w2: "w' = w2" using Cons.prems g Some a by (cases r2) auto
    show ?thesis using Cons.IH [OF a] db by (simp add: w2)
  qed
qed simp

lemma localFile_db: "filesystem_createLocalFileFromString E p s w = Some w' \<Longrightarrow> w_db w' = w_db w"
  by (auto simp: filesystem_createLocalFileFromString_def split: if_splits)

lemma getAllFileContent_db: "filesystem_getAllFileContent E f w = Some (r, w') \<Longrightarrow> w_db w' = w_db w"
  by (auto simp: filesystem_getAllFileContent_def bind_eq_Some_conv split: prod.splits option.splits dest: all_blocks_db)

lemma saveFile_db: "filesystem_saveFileToLocalFS E f p w = Some (r, w') \<Longrightarrow> w_db w' = w_db w"
  by (auto simp: filesystem_saveFileToLocalFS_def bind_eq_Some_conv split: option.splits
      dest!: getAllFileContent_db localFile_db)

lemma saveBlock_db: "filesystem_saveFileBlockToLocalFS E f i p w = Some (r, w') \<Longrightarrow> w_db w' = w_db w"
  by (auto simp: filesystem_saveFileBlockToLocalFS_def bind_eq_Some_conv split: option.splits if_splits prod.splits
      dest!: first_copy_frame localFile_db)

lemma md5_db: "filesystem_md5 E popen str w = Some (r, w') \<Longrightarrow> w_db w' = w_db w"
  by (cases "filesystem_createLocalFileFromString E ''/tmp/MDFS_md5tmp'' (Some str) w")
    (auto simp: filesystem_md5_def split: option.splits if_splits dest: localFile_db)

lemma md5sum_db: "filesystem_md5sum E popen f w = Some (r, w') \<Longrightarrow> w_db w' = w_db w"
  by (auto simp: filesystem_md5sum_def bind_eq_Some_conv split: option.splits dest!: getAllFileContent_db md5_db)

lemma activate_db: "connections_node_activateNode i w = (r, w') \<Longrightarrow> w_db w' = w_db w"
  by (auto simp: connections_node_activateNode_def Let_def split: option.splits)

lemma deactivate_db: "connections_node_deactivateNode i w = (r, w') \<Longrightarrow> w_db w' = w_db w"
  by (auto simp: connections_node_deactivateNode_def Let_def split: option.splits)

end

section \<open>Every command keeps the file system consistent\<close>

definition console_ok :: "console \<Rightarrow> bool" where
  "console_ok c \<longleftrightarrow> id_ok (cs_dirId c)"

context fs_laws begin

abbreviation keeps :: "('n, 'db) reply \<Rightarrow> bool" where "keeps r \<equiv> returns r (\<lambda>r. inv (snd r))"

lemma dir_here_id: "inv w \<Longrightarrow> dir_here E c path w = Some (Some (d, fp)) \<Longrightarrow> id_ok (dir_id d)"
  using resolveDirPath_id [OF inv_wf(1)] by (auto simp: dir_here_def)

lemma file_here_mem: "inv w \<Longrightarrow> file_here E c path w = Some (Some f) \<Longrightarrow> f \<in> files w"
  using resolveFilePath_mem [OF inv_wf(1)] by (auto simp: file_here_def)

lemma deleteFile_inv: "inv w \<Longrightarrow> f \<in> files w \<Longrightarrow> filesystem_deleteFile E (Some f) w = Some (r, w') \<Longrightarrow> inv w'"
  using deleteFile_spec by fastforce

lemma moveFile_inv: "inv w \<Longrightarrow> f \<in> files w \<Longrightarrow> id_ok p \<Longrightarrow> inv (filesystem_moveFile E f p w)"
  using moveFile_spec by blast

lemma renameFile_inv: "inv w \<Longrightarrow> f \<in> files w \<Longrightarrow> inv (filesystem_renameFile E f n w)"
  using renameFile_spec by blast

lemma makeCopy_inv:
  "inv w \<Longrightarrow> f \<in> files w \<Longrightarrow> filesystem_makeNewFileBlockCopy E (Some f) bi w = Some (r, fo, w') \<Longrightarrow> inv w'"
  using makeCopy_spec [of w f bi r fo w'] by (cases "r = 1") (auto simp: mdfs_inv_def)

lemma deleteCopy_inv:
  "inv w \<Longrightarrow> f \<in> files w \<Longrightarrow> filesystem_deleteFileBlockCopy E (Some f) bi ci w = Some (r, w') \<Longrightarrow> inv w'"
  using mdfs_step_inv [OF mdfs_step.DeleteCopy] by blast

lemma copyIn_inv:
  "inv w \<Longrightarrow> id_ok p \<Longrightarrow> filesystem_copyFileFromFS E schedule source
     (file_create\<lparr>file_name := Some n, file_parentId := p, file_size := 0\<rparr>) w = Some (r, f', w') \<Longrightarrow> inv w'"
  using copyFile_spec [of w "file_create\<lparr>file_name := Some n, file_parentId := p, file_size := 0\<rparr>" n schedule source r f' w']
  by (simp add: file_create_def)

lemma inv_same_db: "inv w \<Longrightarrow> w_db w' = w_db w \<Longrightarrow> inv w'"
  by simp

lemmas operations_inv = deleteDir_inv deleteFile_inv moveDir_inv renameDir_inv moveFile_inv renameFile_inv
  makeCopy_inv deleteCopy_inv copyIn_inv
lemmas same_db = saveFile_db saveBlock_db md5sum_db activate_db deactivate_db

lemma files_inv:
  assumes "inv w"
  shows "keeps (deleteResource E c ps w)" and "keeps (moveResource E c p q w)" and "keeps (renameResource E c p q w)"
    and "keeps (copy_out E c source dest w)" and "keeps (listResources E c w)" and "keeps (diskFree E w)"
proof -
  note mem = file_here_mem [OF assms] and ids = dir_here_id [OF assms]
  show "keeps (deleteResource E c ps w)" unfolding deleteResource_def
    by (intro returns_rules) (auto simp: assms intro: operations_inv [OF assms] mem)
  show "keeps (moveResource E c p q w)" unfolding moveResource_def
    by (intro returns_rules) (auto simp: assms split: option.splits intro: operations_inv [OF assms] mem ids)
  show "keeps (renameResource E c p q w)" unfolding renameResource_def
    by (intro returns_rules) (auto simp: assms split: option.splits intro: operations_inv [OF assms] mem)
  show "keeps (copy_out E c source dest w)" unfolding copy_out_def
    by (intro returns_rules) (auto simp: assms intro: inv_same_db [OF assms saveFile_db])
  show "keeps (listResources E c w)" unfolding listResources_def by (intro returns_rules) (simp add: assms)
  show "keeps (diskFree E w)" unfolding diskFree_def by (intro returns_rules) (simp add: assms)
qed

lemma blocks_inv:
  assumes "inv w"
  shows "keeps (saveBlockContents E c ps w)" and "keeps (copyBlock E c ps w)" and "keeps (deleteBlock E c ps w)"
    and "keeps (printFileBlocks E c p w)" and "keeps (console_md5sum E popen c p w)"
proof -
  note mem = file_here_mem [OF assms]
  show "keeps (saveBlockContents E c ps w)" unfolding saveBlockContents_def
    by (intro returns_rules) (auto simp: assms intro: inv_same_db [OF assms saveBlock_db])
  show "keeps (copyBlock E c ps w)" unfolding copyBlock_def
    by (intro returns_rules) (auto simp: assms intro: operations_inv [OF assms] mem)
  show "keeps (deleteBlock E c ps w)" unfolding deleteBlock_def
    by (intro returns_rules) (auto simp: assms intro: operations_inv [OF assms] mem)
  show "keeps (printFileBlocks E c p w)" unfolding printFileBlocks_def
    by (intro returns_rules) (auto simp: assms)
  show "keeps (console_md5sum E popen c p w)" unfolding console_md5sum_def
    by (intro returns_rules) (auto simp: assms intro: inv_same_db [OF assms md5sum_db])
qed

lemma nodes_inv:
  assumes "inv w"
  shows "keeps (printNodeStatus E n w)" and "keeps (enableNode E n w)" and "keeps (disableNode E n w)"
proof -
  show "keeps (printNodeStatus E n w)" unfolding printNodeStatus_def
    by (intro returns_rules) (auto simp: assms)
  show "keeps (enableNode E n w)" unfolding enableNode_def filesystem_activateNode_def
    by (intro returns_rules) (auto simp: assms bind_eq_Some_conv intro: inv_same_db [OF assms activate_db])
  show "keeps (disableNode E n w)" unfolding disableNode_def filesystem_deactivateNode_def
    by (intro returns_rules) (auto simp: assms bind_eq_Some_conv intro: inv_same_db [OF assms deactivate_db])
qed

lemma create_inv:
  assumes inv: "inv w" and c: "console_ok c"
  shows "keeps (makeDir E c p w)" and "keeps (copyFile E schedule c ps w)"
proof -
  have c': "id_ok (cs_dirId c)" using c by (simp add: console_ok_def)
  show "keeps (makeDir E c p w)" unfolding makeDir_def
    by (intro returns_rules) (auto simp: inv c' dest: addDir_inv [OF inv, rotated 2])
  have target: "id_ok q" if "copy_target E c l dest w = Some (Some (n, q))" for l dest n q
    using that c' dir_here_id [OF inv] by (auto simp: copy_target_def bind_eq_Some_conv split: option.splits if_splits)
  have "keeps (copy_in E schedule c source dest w)" for source dest unfolding copy_in_def
    by (intro returns_rules) (auto simp: inv intro: copyIn_inv [OF inv target])
  then show "keeps (copyFile E schedule c ps w)" unfolding copyFile_def
    using files_inv(4) [OF inv] by (intro returns_rules) (auto simp: inv)
qed

end

section \<open>Sessions\<close>

context fs_laws begin

lemma format_inv: "inv w \<Longrightarrow> console_ok c \<Longrightarrow> returns (console_format E c w) (\<lambda>(ms, c', w'). inv w' \<and> console_ok c')"
  unfolding console_format_def
proof (intro returns_rules)
  fix x ok w1 assume a: "inv w" "console_ok c" "filesystem_format E w = Some x" "x = (ok, w1)"
  then have "ok \<and> inv w1" using format_spec [OF inv_wf(1) [OF a(1)]] by auto
  then show "returns (Some (if ok then ([], \<lparr>cs_dirId = ROOT_DIR_ID, cs_prompt = ''/''\<rparr>, w1) else ([UnexpectedError], c, w1)))
      (\<lambda>(ms, c', w'). inv w' \<and> console_ok c')"
    by (simp add: console_ok_def id_ok_def ROOT_DIR_ID_def ID_SIZE_def)
qed

lemma changeDir_inv: "inv w \<Longrightarrow> console_ok c \<Longrightarrow> returns (changeDir E c p w) (\<lambda>(ms, c'). console_ok c')"
  unfolding changeDir_def by (intro returns_rules) (auto simp: console_ok_def dest: dir_here_id split: option.splits)

lemma stay_inv: "keeps r \<Longrightarrow> console_ok c \<Longrightarrow> returns (stay c r) (\<lambda>(fin, ms, c', w'). inv w' \<and> console_ok c')"
  by (auto simp: stay_def returns_def)

lemma console_command_inv:
  assumes "inv w" and "console_ok c"
  shows "returns (console_command E popen schedule ps c w) (\<lambda>(fin, ms, c', w'). inv w' \<and> console_ok c')"
  unfolding console_command_def Let_def
  by (intro returns_bind returns_if)
    (use assms in \<open>auto intro!: stay_inv files_inv blocks_inv nodes_inv create_inv returns_map
        dest: returnsD [OF format_inv] returnsD [OF changeDir_inv]\<close>)

end

text \<open>A line is read as it was typed, when it fits.\<close>

lemma fgets_line: "10 \<notin> set bs \<Longrightarrow> length bs < n \<Longrightarrow> fgets n (bs @ 10 # rest) = (bs @ [10], rest)"
proof (induction bs arbitrary: n)
  case Nil
  then show ?case by (cases n) auto
next
  case (Cons b bs)
  then obtain m where "n = Suc m" by (cases n) auto
  with Cons show ?case by simp
qed

lemma byte_of_char_newline: "byte_of_char (CHR 0x0A) = 10"
  by (simp add: byte_of_char_def)

lemma readCommand_line:
  assumes "c_string s" and "CHR 0x0A \<notin> set s" and "length s < 511"
  shows "readCommand (str_bytes s @ 10 # rest) = Some (s, rest)"
proof -
  have nl: "byte_of_char c = 10 \<longleftrightarrow> c = CHR 0x0A" for c
    by (metis char_of_byte_of_char byte_of_char_newline)
  have "10 \<notin> set (str_bytes s)" using assms(2) nl by (force simp: str_bytes_def)
  then have f: "fgets 511 (str_bytes s @ 10 # rest) = (str_bytes s @ [10], rest)" using assms(3) by (simp add: fgets_line)
  have "str_bytes s @ [10] = str_bytes (s @ [CHR 0x0A])" by (simp add: str_bytes_def nl)
  moreover have "c_string (s @ [CHR 0x0A])" using assms(1) by (simp add: c_string_def)
  ultimately have "cstr (str_bytes s @ [10]) = s @ [CHR 0x0A]" using cstr_str_bytes by metis
  with f show ?thesis by (simp add: readCommand_def)
qed

text \<open>A session: commands of the console and, between them, steps of the other threads.\<close>

inductive session :: "('n, 'db) env \<Rightarrow> popen \<Rightarrow> ('db \<Rightarrow> coll \<Rightarrow> doc set) \<Rightarrow> console \<Rightarrow> ('n, 'db) world \<Rightarrow> console \<Rightarrow>
    ('n, 'db) world \<Rightarrow> bool" for E popen docs c0 w0 where
  Start: "session E popen docs c0 w0 c0 w0"
| Command: "session E popen docs c0 w0 c w \<Longrightarrow> console_command E popen schedule ps c w = Some (fin, ms, c', w') \<Longrightarrow>
    session E popen docs c0 w0 c' w'"
| Elsewhere: "session E popen docs c0 w0 c w \<Longrightarrow> mdfs_step E docs w w' \<Longrightarrow> session E popen docs c0 w0 c w'"

lemma console_loop_session:
  "console_loop E popen schedules input c w = Some (ms, c', w') \<Longrightarrow> session E popen docs c0 w0 c w \<Longrightarrow>
     session E popen docs c0 w0 c' w'"
proof (induction E popen schedules input c w arbitrary: ms rule: console_loop.induct)
  case (1 E popen schedules input c w)
  obtain rest fin ms1 c1 w1 where t: "console_turn E popen (schedules 0) input c w = Some (rest, fin, ms1, c1, w1)"
    using 1(2) by (subst (asm) console_loop.simps) (auto split: option.splits)
  have s: "session E popen docs c0 w0 c1 w1"
    using t 1(3) by (auto simp: console_turn_def bind_eq_Some_conv split: if_splits intro: session.Command)
  show ?case
  proof (cases fin)
    case True
    then have "c' = c1 \<and> w' = w1" using 1(2) t by (subst (asm) console_loop.simps) simp
    with s show ?thesis by simp
  next
    case False
    then obtain ms2 where "console_loop E popen (\<lambda>k. schedules (Suc k)) rest c1 w1 = Some (ms2, c', w')"
      using 1(2) t by (subst (asm) console_loop.simps) auto
    from 1(1) [OF t refl refl refl refl False this s] show ?thesis .
  qed
qed

context fs_laws begin

lemma session_inv:
  "session E popen docs c0 w0 c w \<Longrightarrow> inv w0 \<Longrightarrow> console_ok c0 \<Longrightarrow> inv w \<and> console_ok c"
proof (induction rule: session.induct)
  case (Command c w schedule ps fin ms c' w')
  then show ?case using returnsD [OF console_command_inv] by blast
next
  case (Elsewhere c w w')
  then show ?case using mdfs_step_inv by blast
qed simp

end

section \<open>Properties\<close>

text \<open>C3. A session keeps the file system consistent. Starting the console on a consistent file system,
  after any commands of the user, with any parameters and in any order, and any operations of
  the other threads between them, every copy of every block still lies in a block that its node
  marks as used, no two copies in the same one, and the current directory is an identifier that
  the arrays of the records can hold. What \<open>console_start\<close> returns is such a session.\<close>

theorem console_session_safe:
  assumes "fs_laws E docs uniq" and "mdfs_inv E docs uniq (w_db w0)"
  shows "(session E popen docs \<lparr>cs_dirId = ROOT_DIR_ID, cs_prompt = ''/''\<rparr> w0 c w \<longrightarrow>
      mdfs_inv E docs uniq (w_db w) \<and> id_ok (cs_dirId c)) \<and>
    (console_start E popen schedules input w0 = Some (ms, c, w) \<longrightarrow>
      session E popen docs \<lparr>cs_dirId = ROOT_DIR_ID, cs_prompt = ''/''\<rparr> w0 c w)"
proof -
  have "console_ok \<lparr>cs_dirId = ROOT_DIR_ID, cs_prompt = ''/''\<rparr>" by (simp add: console_ok_def id_ok_def ROOT_DIR_ID_def ID_SIZE_def)
  with fs_laws.session_inv [OF assms(1) _ assms(2)] console_loop_session [OF _ session.Start] show ?thesis
    by (auto simp: console_ok_def console_start_def)
qed

definition exit_line :: "byte list" where
  "exit_line = str_bytes ''help'' @ [10] @ str_bytes ''exit'' @ [10]"

lemma exit_session: "console_start (fs_env True) popen schedules exit_line w = Some ([Help, Bye], \<lparr>cs_dirId = ROOT_DIR_ID, cs_prompt = ''/''\<rparr>, w)"
proof -
  let ?E = "fs_env True" and ?c = "\<lparr>cs_dirId = ROOT_DIR_ID, cs_prompt = ''/''\<rparr>"
  have r1: "readCommand exit_line = Some (''help'', str_bytes ''exit'' @ [10])"
    using readCommand_line [of "''help''" "str_bytes ''exit'' @ [10]"] by (simp add: exit_line_def c_string_def)
  have r2: "readCommand (str_bytes ''exit'' @ [10]) = Some (''exit'', [])"
    using readCommand_line [of "''exit''" "[]"] by (simp add: c_string_def)
  have split: "c_split ?E ''help'' '' '' = [''help'']" "c_split ?E ''exit'' '' '' = [''exit'']"
    by (simp_all add: fs_env_def drop_empty_split_def pieces_def)
  have eq: "c_eq_ignore_case ?E s t = lower_eq s t" for s t by (simp add: fs_env_def)
  have t1: "console_turn ?E popen sch exit_line ?c w = Some (str_bytes ''exit'' @ [10], False, [Help], ?c, w)" for sch
    by (simp add: console_turn_def r1 split console_command_def parameter_def eq lower_eq_def to_lower_def)
  have t2: "console_turn ?E popen sch (str_bytes ''exit'' @ [10]) ?c w = Some ([], True, [], ?c, w)" for sch
    by (simp add: console_turn_def r2 split console_command_def parameter_def eq lower_eq_def to_lower_def)
  show ?thesis unfolding console_start_def
    by (subst console_loop.simps, simp add: t1, subst console_loop.simps, simp add: t2)
qed

theorem console_session_safe_witness:
  "\<exists>ms c w. console_start (fs_env True) (\<lambda>_ _. None) (\<lambda>_. []) exit_line tree_world = Some (ms, c, w) \<and>
     mdfs_inv (fs_env True) (\<lambda>s c. set (ls_view s c)) ls_uniq (w_db w) \<and> id_ok (cs_dirId c)"
  using console_session_safe [OF fsenv.fs_laws_axioms tree_inv, of True "\<lambda>_ _. None" _ tree_world "\<lambda>_. []" exit_line]
    exit_session [of "\<lambda>_ _. None" "\<lambda>_. []" tree_world] by blast

text \<open>Where the console is: the current directory and its printed path are those of one place.\<close>

definition console_at :: "dir_t set \<Rightarrow> string list \<Rightarrow> console \<Rightarrow> bool" where
  "console_at D ns c \<longleftrightarrow> dir_at D ns (cs_dirId c) \<and> cs_prompt c = render ns"

text \<open>\<open>cd\<close> walks the tree. From a place in the tree, \<open>cd\<close> with a path leads to the place where the
  walk of the path ends, and changes nothing when a directory on the way is missing; without a
  path it leads to the root. The prompt is the path of the current directory before and after.\<close>

theorem cd_walks_tree:
  assumes "fs_laws E docs uniq" and "meta_wf (docs (w_db w)) (uniq (w_db w))"
    and "\<forall>d \<in> meta_dirs (docs (w_db w)). dir_id d \<noteq> ROOT_DIR_ID"
    and "console_at (meta_dirs (docs (w_db w))) ns c" and "length (render ns) + length path < 1019"
  shows "(case walk_path (meta_dirs (docs (w_db w))) ns path of
      None \<Rightarrow> changeDir E c (Some path) w = Some ([NoSuchDirectory (Some path)], c)
    | Some ns' \<Rightarrow> \<exists>c'. changeDir E c (Some path) w = Some ([], c') \<and> console_at (meta_dirs (docs (w_db w))) ns' c') \<and>
    (\<exists>c'. changeDir E c None w = Some ([], c') \<and> console_at (meta_dirs (docs (w_db w))) [] c')"
proof -
  let ?D = "meta_dirs (docs (w_db w))"
  have c: "dir_at ?D ns (cs_dirId c)" "cs_prompt c = render ns" using assms(4) by (simp_all add: console_at_def)
  note res = fs_laws.resolveDirPath_walk [OF assms(1,2) fs_laws.tree_of_wf [OF assms(1-3)] c(1)]
  have moved: "\<exists>c'. changeDir E c p w = Some ([], c') \<and> console_at ?D ns' c'"
    if "\<exists>d. dir_here E c (case p of Some name \<Rightarrow> name | None \<Rightarrow> ''/'') w = Some (Some (d, render ns')) \<and> stands ?D ns' d" for p ns'
    using that by (auto simp: changeDir_def console_at_def stands_def)
  have "walk_path ?D ns ''/'' = Some []" by (simp add: walk_path_def pieces_def)
  then have root: "\<exists>c'. changeDir E c None w = Some ([], c') \<and> console_at ?D [] c'"
    using res [of "''/''"] assms(5) by (intro moved) (simp add: dir_here_def c(2))
  show ?thesis
  proof (cases "walk_path ?D ns path")
    case None
    then show ?thesis using res [of path] assms(5) root by (simp add: changeDir_def dir_here_def c(2))
  next
    case (Some ns')
    then show ?thesis using res [of path] assms(5) root moved [of "Some path" ns'] by (simp add: dir_here_def c(2))
  qed
qed

theorem cd_walks_tree_witness:
  "\<exists>c'. changeDir (fs_env True) \<lparr>cs_dirId = ''a1'', cs_prompt = ''/a''\<rparr> (Some ''b/../b'') tree_world = Some ([], c') \<and>
     cs_prompt c' = ''/a/b'' \<and> cs_dirId c' = ''b1''"
proof -
  let ?D = "set demo_dirs" and ?c = "\<lparr>cs_dirId = ''a1'', cs_prompt = ''/a''\<rparr>"
  have child: "child ?D [''a''] ''b''" using demo_at(2) by (auto simp: child_def)
  have walk: "walk_path ?D [''a''] ''b/../b'' = Some [''a'', ''b'']" using child by (simp add: walk_path_def pieces_def)
  have r: "render [''a''] = ''/a''" "render [''a'', ''b''] = ''/a/b''" by (simp_all add: render_def)
  have at: "console_at (meta_dirs (set \<circ> ls_view (w_db tree_world))) [''a''] ?c"
    using demo_at(1) by (simp add: console_at_def r comp_def)
  obtain c' where c': "changeDir (fs_env True) ?c (Some ''b/../b'') tree_world = Some ([], c')"
    "console_at ?D [''a'', ''b''] c'"
    using cd_walks_tree [OF fsenv.fs_laws_axioms, of tree_world "[''a'']" ?c "''b/../b''" True] demo_wf demo_tree at walk r
    by (auto simp: comp_def)
  have "tree_ok ?D" using demo_wf demo_tree fs_laws.tree_of_wf [OF fsenv.fs_laws_axioms [of True], where db = demo_db] by simp
  then have "cs_dirId c' = ''b1''" using dir_at_unique demo_at(2) c'(2) by (auto simp: console_at_def)
  with c' show ?thesis by (simp add: console_at_def r)
qed

text \<open>A directory whose only directory is itself stands nowhere.\<close>

lemma nowhere:
  assumes "i \<noteq> ROOT_DIR_ID" and "\<forall>e \<in> D. dir_id e = i \<longrightarrow> dir_parentId e = i"
  shows "dir_at D ns j \<Longrightarrow> j \<noteq> i"
  by (induction rule: dir_at.induct) (use assms in auto)

context fs_laws begin

lemma delete_here:
  assumes inv: "inv w" and root: "\<forall>d \<in> dirs w. dir_id d \<noteq> ROOT_DIR_ID" and tree: "tree_wf (dirs w)"
    and c: "console_at (dirs w) ns c" "length (render ns) < 1019"
  shows "\<exists>w'. deleteResource E c [''rm'', ''-r'', ''.''] w = Some ([], w') \<and> inv w' \<and>
    (\<forall>e \<in> dirs w'. dir_id e \<noteq> cs_dirId c \<and> dir_parentId e \<noteq> cs_dirId c) \<and>
    (\<forall>f \<in> files w'. file_parentId f \<noteq> cs_dirId c) \<and> dirs w' \<subseteq> dirs w"
proof -
  let ?i = "cs_dirId c"
  note ok = tree_of_wf [OF inv_wf(1) [OF inv] root]
  have at: "dir_at (dirs w) ns ?i" "cs_prompt c = render ns" using c(1) by (simp_all add: console_at_def)
  have "walk_path (dirs w) ns ''.'' = Some ns" by (simp add: walk_path_def pieces_def)
  then obtain d where d: "dir_here E c ''.'' w = Some (Some (d, render ns))" "stands (dirs w) ns d"
    using resolveDirPath_walk [OF inv_wf(1) [OF inv] ok at(1), of "''.''"] c(2) by (auto simp: dir_here_def at(2))
  then have i: "dir_id d = ?i" using dir_at_unique [OF ok _ at(1)] by (simp add: stands_def)
  obtain w' where w': "filesystem_deleteDir E (Some d) w = Some (True, w')" "inv w'"
    "dirs w' = {e \<in> dirs w. \<not> below (dirs w) ?i (dir_id e)}" "files w' = {f \<in> files w. \<not> below (dirs w) ?i (file_parentId f)}"
    using deleteDir_spec [OF tree inv, of d] i by auto
  have "c_eq_ignore_case E ''-r'' ''-r''" by (simp add: com.str.eq_ic_lower)
  then have "deleteResource E c [''rm'', ''-r'', ''.''] w = Some ([], w')"
    using d(1) w'(1) by (simp add: deleteResource_def parameter_def)
  moreover have "dir_id e \<noteq> ?i \<and> dir_parentId e \<noteq> ?i" if "e \<in> dirs w'" for e
    using that w'(3) below.Here [of "dirs w" ?i] below.Child [of e "dirs w" ?i] by auto
  moreover have "file_parentId f \<noteq> ?i" if "f \<in> files w'" for f using that w'(4) below.Here [of "dirs w" ?i] by auto
  ultimately show ?thesis using w'(2,3) by (intro exI [of _ w']) auto
qed

end

text \<open>The console can stay in a directory that it deleted. \<open>rm -r .\<close> deletes the current directory and
  does not leave it: \<open>mkdir\<close> then succeeds there, and makes a directory inside one that does
  not exist, which no path reaches.\<close>

theorem mkdir_in_deleted_dir:
  assumes "fs_laws E docs uniq" and "mdfs_inv E docs uniq (w_db w)" and "\<forall>d \<in> meta_dirs (docs (w_db w)). dir_id d \<noteq> ROOT_DIR_ID"
    and "tree_wf (meta_dirs (docs (w_db w)))" and "console_at (meta_dirs (docs (w_db w))) ns c" and "length (render ns) < 1019"
    and "ns \<noteq> []" and "\<forall>db. \<forall>d \<in> meta_dirs (docs (w_db w)). dir_id d \<noteq> fst (m_oid E db)" and "id_ok (cs_dirId c)"
  shows "\<exists>w' w'' d. deleteResource E c [''rm'', ''-r'', ''.''] w = Some ([], w') \<and> makeDir E c (Some n) w' = Some ([], w'') \<and>
    d \<in> meta_dirs (docs (w_db w'')) \<and> dir_name d = Some n \<and> dir_parentId d = cs_dirId c \<and>
    (\<forall>ns. \<not> dir_at (meta_dirs (docs (w_db w''))) ns (dir_id d) \<and> \<not> dir_at (meta_dirs (docs (w_db w''))) ns (cs_dirId c))"
proof -
  let ?i = "cs_dirId c" and ?D = "\<lambda>w. meta_dirs (docs (w_db w))" and ?d = "dir_create\<lparr>dir_name := Some n, dir_parentId := cs_dirId c\<rparr>"
  obtain w' where w': "deleteResource E c [''rm'', ''-r'', ''.''] w = Some ([], w')" "mdfs_inv E docs uniq (w_db w')"
    "\<forall>e \<in> ?D w'. dir_id e \<noteq> ?i \<and> dir_parentId e \<noteq> ?i" "\<forall>f \<in> meta_files (docs (w_db w')). file_parentId f \<noteq> ?i" "?D w' \<subseteq> ?D w"
    using fs_laws.delete_here [OF assms(1-6)] by blast
  have free: "(Some n, dir_parentId ?d) \<notin> dir_names (?D w') \<union> file_names (meta_files (docs (w_db w')))"
    using w'(3,4) by (auto simp: dir_names_def file_names_def dir_create_def)
  have "\<forall>e \<in> ?D w'. dir_id e \<noteq> fst (m_oid E (w_db w'))" using assms(8) w'(5) by blast
  from fs_laws.addDir_spec [OF assms(1) fs_laws.inv_wf(1) [OF assms(1) w'(2)] _ _ this, of ?d n] assms(9) free
  obtain d w'' where d: "filesystem_addDir E ?d w' = Some (True, d, w'')" "d = ?d\<lparr>dir_id := fst (m_oid E (w_db w'))\<rparr>"
    "dir_id d \<noteq> ROOT_DIR_ID" "?D w'' = insert d (?D w')" by auto
  have mk: "makeDir E c (Some n) w' = Some ([], w'')" using d(1) by (simp add: makeDir_def)
  have p: "dir_name d = Some n" "dir_parentId d = ?i" using d(2) by simp_all
  have "?i \<noteq> ROOT_DIR_ID"
  proof
    assume "?i = ROOT_DIR_ID"
    then have "dir_at (?D w) ns ROOT_DIR_ID" using assms(5) by (simp add: console_at_def)
    then show False using assms(3,7) by cases auto
  qed
  then have i: "\<not> dir_at (?D w'') ns ?i" for ns using nowhere [of ?i "?D w''" ns ?i] w'(3) d(4) p(2) by auto
  have "\<not> dir_at (?D w'') ns (dir_id d)" for ns
  proof
    assume "dir_at (?D w'') ns (dir_id d)"
    then obtain ns' e where e: "e \<in> ?D w''" "dir_id e = dir_id d" "dir_at (?D w'') ns' (dir_parentId e)"
      using d(3) by cases auto
    then have "e = d" using d(2,4) assms(8) w'(5) by auto
    with e(3) i p(2) show False by simp
  qed
  with w'(1) mk p i d(4) show ?thesis by auto
qed

theorem mkdir_in_deleted_dir_witness:
  "\<exists>w' w'' d. deleteResource (fs_env True) \<lparr>cs_dirId = ''b1'', cs_prompt = ''/a/b''\<rparr> [''rm'', ''-r'', ''.''] tree_world = Some ([], w') \<and>
     makeDir (fs_env True) \<lparr>cs_dirId = ''b1'', cs_prompt = ''/a/b''\<rparr> (Some ''new'') w' = Some ([], w'') \<and>
     d \<in> meta_dirs (\<lambda>c. set (ls_view (w_db w'') c)) \<and> dir_parentId d = ''b1''"
proof -
  let ?c = "\<lparr>cs_dirId = ''b1'', cs_prompt = ''/a/b''\<rparr>" and ?docs = "\<lambda>s c. set (ls_view s c)"
  have r: "render [''a'', ''b''] = ''/a/b''" by (simp add: render_def)
  have D: "meta_dirs (?docs (w_db tree_world)) = set demo_dirs" by simp
  have at: "console_at (meta_dirs (?docs (w_db tree_world))) [''a'', ''b''] ?c" using demo_at(2) by (simp add: console_at_def r)
  have "length (fst (m_oid (fs_env True) db)) = 24" for db by (rule fsenv_mongo.oid_length)
  moreover have "\<forall>d \<in> set demo_dirs. length (dir_id d) = 2" by (simp add: demo_dirs_def)
  ultimately have fresh: "\<forall>db. \<forall>d \<in> meta_dirs (?docs (w_db tree_world)). dir_id d \<noteq> fst (m_oid (fs_env True) db)" unfolding D by fastforce
  have "length (render [''a'', ''b'']) < 1019" "[''a'', ''b''] \<noteq> []" "id_ok (cs_dirId ?c)"
    by (simp_all add: r id_ok_def ID_SIZE_def)
  from mkdir_in_deleted_dir [OF fsenv.fs_laws_axioms tree_inv _ _ at this(1,2) fresh this(3), of "''new''"] demo_tree demo_tree_wf
  show ?thesis unfolding D by auto
qed

section \<open>Numbers\<close>

lemma digit_is: "d < 10 \<Longrightarrow> is_digit (digit d)"
  by (simp add: is_digit_def of_char_digit)

lemma is_digit_not: "is_digit c \<Longrightarrow> \<not> is_space c \<and> c \<noteq> CHR ''-'' \<and> c \<noteq> CHR ''+''"
  by (auto simp: is_digit_def is_space_def)

lemma dec_digits: "list_all is_digit (dec n)"
proof (induction n rule: dec.induct)
  case (1 n)
  then show ?case by (simp add: dec.simps [of n] digit_is)
qed

lemma strtoul_dec:
  assumes "n < 2 ^ 64"
  shows "strtoul (dec n) = (word_of_nat n, False, [])"
proof -
  have all: "takeWhile is_digit (dec n) = dec n" "dropWhile is_digit (dec n) = []"
    using dec_digits [of n] by (simp_all add: list_all_iff takeWhile_eq_all_conv dropWhile_eq_Nil_conv)
  obtain c cs where c: "dec n = c # cs" using dec_nonempty by (cases "dec n") blast+
  then have "is_digit c" using dec_digits [of n] by simp
  from is_digit_not [OF this] c have "dropWhile is_space (dec n) = dec n" "hd (dec n) \<noteq> CHR ''-''" "hd (dec n) \<noteq> CHR ''+''"
    by simp_all
  with assms show ?thesis by (simp add: strtoul_def Let_def undec_dec all)
qed

lemma getIntFromString_dec:
  assumes "n < 2 ^ 64"
  shows "getIntFromString (dec n) = sint (word_of_nat n :: 32 word)"
proof -
  have "(ucast (word_of_nat n :: u64) :: 32 word) = word_of_nat n"
    using assms by (simp add: unsigned_of_nat take_bit_eq_mod)
  then show ?thesis using strtoul_dec [OF assms] dec_nonempty [of n, symmetric] by (simp add: getIntFromString_def)
qed

lemma getIntFromString_small:
  assumes "n < 2 ^ 31"
  shows "getIntFromString (dec n) = int n"
proof -
  have "signed_take_bit 31 (int n) = int n" using assms by (intro signed_take_bit_int_eq_self) auto
  then show ?thesis using getIntFromString_dec [of n] assms by (simp add: signed_of_nat)
qed

lemma deleteBlock_state:
  assumes "0 \<le> getIntFromString blockN" and "0 \<le> getIntFromString copyN"
  shows "map_option snd (deleteBlock E c [cmd, path, blockN, copyN] w) =
    Option.bind (file_here E c path w) (\<lambda>file. case file of None \<Rightarrow> Some w
      | Some f \<Rightarrow> map_option snd (filesystem_deleteFileBlockCopy E (Some f) (word_of_int (getIntFromString blockN))
          (word_of_int (getIntFromString copyN)) w))"
proof (cases "file_here E c path w")
  case (Some fo)
  then show ?thesis
  proof (cases fo)
    case (Some f)
    then show ?thesis using assms \<open>file_here E c path w = Some fo\<close>
      by (cases "filesystem_deleteFileBlockCopy E (Some f) (word_of_int (getIntFromString blockN))
          (word_of_int (getIntFromString copyN)) w") (auto simp: deleteBlock_def parameter_def Let_def)
  qed (use assms in \<open>simp add: deleteBlock_def parameter_def Let_def\<close>)
qed (use assms in \<open>simp add: deleteBlock_def parameter_def Let_def\<close>)

text \<open>A number on the command line names a block only modulo 65536. A decimal number below
  \<open>2 ^ 31\<close> is read as itself, one of \<open>2 ^ 32\<close> plus a number as that number, and \<open>rmb\<close> with the
  number of a block plus 65536, or of a copy plus 65536, deletes exactly what it deletes without:
  the test of the index comes after the number lost its high bits.\<close>

theorem block_numbers_wrap:
  assumes "b + 65536 < 2 ^ 31" and "k + 65536 < 2 ^ 31"
  shows "getIntFromString (dec b) = int b \<and> getIntFromString (dec (2 ^ 32 + b)) = int b \<and>
    map_option snd (deleteBlock E c [cmd, path, dec (b + 65536), dec (k + 65536)] w) =
      map_option snd (deleteBlock E c [cmd, path, dec b, dec k] w)"
proof -
  have small: "getIntFromString (dec n) = int n" if "n < 2 ^ 31" for n by (rule getIntFromString_small [OF that])
  have w: "(word_of_int (int (n + 65536)) :: u16) = word_of_int (int n)" for n
    by (simp add: word_of_int_eq_iff take_bit_eq_mod)
  have "(4294967296 :: 32 word) = 0" by simp
  then have wrap: "4294967296 + word_of_nat b = (word_of_nat b :: 32 word)" by (simp only: add_0)
  have "getIntFromString (dec (2 ^ 32 + b)) = int b"
    using getIntFromString_dec [of "2 ^ 32 + b"] getIntFromString_dec [of b] small [of b] assms(1) by (simp add: wrap)
  moreover have "map_option snd (deleteBlock E c [cmd, path, dec (b + 65536), dec (k + 65536)] w) =
      map_option snd (deleteBlock E c [cmd, path, dec b, dec k] w)"
    using assms small [of b] small [of k] small [of "b + 65536"] small [of "k + 65536"] w [of b] w [of k]
    by (simp add: deleteBlock_state del: of_nat_add cong: option.case_cong)
  ultimately show ?thesis using small [of b] assms(1) by simp
qed

theorem block_numbers_wrap_witness:
  "getIntFromString (dec (2 ^ 32 + 1)) = 1 \<and>
     map_option snd (deleteBlock (fs_env True) \<lparr>cs_dirId = ROOT_DIR_ID, cs_prompt = ''/''\<rparr> [''rmb'', ''/a/b/x'', dec (1 + 65536), dec (2 + 65536)] tree_world) =
     map_option snd (deleteBlock (fs_env True) \<lparr>cs_dirId = ROOT_DIR_ID, cs_prompt = ''/''\<rparr> [''rmb'', ''/a/b/x'', dec 1, dec 2] tree_world)"
  using block_numbers_wrap [of 1 2 "fs_env True" "\<lparr>cs_dirId = ROOT_DIR_ID, cs_prompt = ''/''\<rparr>" "''rmb''" "''/a/b/x''" tree_world] by simp

end
