(* ===== verification/FS_Marta.thy ===== *)
theory FS_Marta
  imports FS_Copies
begin

text \<open>
  \<open>FileSystem/src/connections/connections_marta.c\<close>: the requests of MaRTA, the blocks of a file
  (of the copies on active nodes, with where to reach each node) and the copy of a final
  result into the file system. The connection \<open>martaSocket\<close> is -1 or a descriptor and is
  threaded beside the state of the process. A node that is active introduced itself, so its
  port is set; an unset one is undefined.
\<close>

type_synonym ('n, 'db) marta_world = "int \<times> ('n, 'db) world"

definition connections_marta_initialize :: "('n, 'db) world \<Rightarrow> ('n, 'db) marta_world" where
  "connections_marta_initialize w = (-1, w)"

definition marta_send :: "('n, 'db) env \<Rightarrow> byte list \<Rightarrow> ('n, 'db) marta_world \<Rightarrow> bool \<times> ('n, 'db) marta_world" where
  "marta_send E p s = (case s of (martaSocket, w) \<Rightarrow>
     (case w_send_packet E martaSocket p w of (status, w') \<Rightarrow> (status = SOCKET_ERROR_NONE, (martaSocket, w'))))"

section \<open>The blocks of a file\<close>

text \<open>One copy on an active node: \<open>sizeNodeId nodeId sizeIp ip port blockIndex\<close>.\<close>

definition copy_bytes :: "file_block_t \<Rightarrow> node_connection_t \<Rightarrow> byte list option" where
  "copy_bytes blockCopy nodeConnection =
     do {
       listenPort \<leftarrow> nc_listenPort nodeConnection;
       let sNodeId = (word_of_nat (length (fb_nodeId blockCopy)) :: u32);
       let sNodeIp = (word_of_nat (length (nc_ip nodeConnection)) :: u16);
       Some (be32 sNodeId @ take (unat sNodeId) (str_bytes (fb_nodeId blockCopy)) @
         be16 sNodeIp @ take (unat sNodeIp) (str_bytes (nc_ip nodeConnection)) @
         be16 listenPort @ be16 (fb_blockIndex blockCopy))
     }"

fun copies_bytes :: "('n, 'db) world \<Rightarrow> file_block_t list \<Rightarrow> u16 \<Rightarrow> byte list \<Rightarrow> (u16 \<times> byte list) option" where
  "copies_bytes w [] copyesCount blockCopiesBuffer = Some (copyesCount, blockCopiesBuffer)"
| "copies_bytes w (blockCopy # copies) copyesCount blockCopiesBuffer =
     (case connections_node_getActiveNodeConnection (fb_nodeId blockCopy) w of
        None \<Rightarrow> copies_bytes w copies copyesCount blockCopiesBuffer
      | Some nodeConnection \<Rightarrow> do {
          b \<leftarrow> copy_bytes blockCopy nodeConnection;
          copies_bytes w copies (copyesCount + 1) (blockCopiesBuffer @ b)
        })"

text \<open>\<^const>\<open>None\<close> inside: the file is not available, a block has no copy on an active node.\<close>

fun blocks_bytes :: "('n, 'db) world \<Rightarrow> file_block_t list list \<Rightarrow> byte list \<Rightarrow> byte list option option" where
  "blocks_bytes w [] buffer = Some (Some buffer)"
| "blocks_bytes w (blockCopies # blocks) buffer =
     do {
       (copyesCount, blockCopiesBuffer) \<leftarrow> copies_bytes w blockCopies 0 [];
       (if copyesCount = 0 then Some None
        else blocks_bytes w blocks (buffer @ be16 copyesCount @ blockCopiesBuffer))
     }"

definition sendFileBlocks_request :: "byte list \<Rightarrow> string option" where
  "sendFileBlocks_request bufferReceived =
     do {
       (_, r) \<leftarrow> get_u8 bufferReceived;
       (sFileName, r) \<leftarrow> get_u32 r;
       (filePathName, _) \<leftarrow> get_str (unat sFileName) r;
       Some filePathName
     }"

text \<open>Zero blocks stand for an error.\<close>

definition connections_marta_sendFileBlocks ::
    "('n, 'db) env \<Rightarrow> byte list \<Rightarrow> ('n, 'db) marta_world \<Rightarrow> (bool \<times> ('n, 'db) marta_world) option" where
  "connections_marta_sendFileBlocks E bufferReceived s =
     do {
       filePathName \<leftarrow> sendFileBlocks_request bufferReceived;
       found \<leftarrow> filesystem_resolveFilePath E filePathName ROOT_DIR_ID ''/'' (snd s);
       (case found of
          None \<Rightarrow> Some (marta_send E (be16 0) s)
        | Some f \<Rightarrow> do {
            body \<leftarrow> blocks_bytes (snd s) (file_blocks f) (be16 (word_of_nat (length (file_blocks f))));
            Some (marta_send E (case body of Some b \<Rightarrow> b | None \<Rightarrow> be16 0) s)
          })
     }"

section \<open>The final result\<close>

definition copyFinalResult_request :: "byte list \<Rightarrow> (string \<times> string \<times> string) option" where
  "copyFinalResult_request bufferReceived =
     do {
       (_, r) \<leftarrow> get_u8 bufferReceived;
       (sNodeId, r) \<leftarrow> get_u16 r;
       (nodeId, r) \<leftarrow> get_str (unat sNodeId) r;
       (sResultFileName, r) \<leftarrow> get_u16 r;
       (resultFileName, r) \<leftarrow> get_str (unat sResultFileName) r;
       (finalTmpName, _) \<leftarrow> get_bytes 60 r;
       (if 0 \<in> set finalTmpName then Some (nodeId, resultFileName, cstr finalTmpName) else None)
     }"

definition connections_marta_copyFinalResult ::
    "('n, 'db) env \<Rightarrow> nat list \<Rightarrow> byte list \<Rightarrow> ('n, 'db) marta_world \<Rightarrow> (bool \<times> ('n, 'db) marta_world) option" where
  "connections_marta_copyFinalResult E schedule bufferReceived s =
     do {
       (nodeId, resultFileName, finalTmpName) \<leftarrow> copyFinalResult_request bufferReceived;
       (result, failReason, w1) \<leftarrow> filesystem_copyTmpFileToMDFS E schedule nodeId finalTmpName resultFileName
         COMMAND_RESULT_CANT_COPY (snd s);
       Some (marta_send E (if result then [1] else [0, failReason]) (fst s, w1))
     }"

section \<open>The loop\<close>

text \<open>One turn: whether the loop ends, and the state.\<close>

definition marta_listen_turn ::
    "('n, 'db) env \<Rightarrow> nat list \<Rightarrow> ('n, 'db) marta_world \<Rightarrow> (bool \<times> ('n, 'db) marta_world) option" where
  "marta_listen_turn E schedule s =
     (case s of (martaSocket, w) \<Rightarrow>
        (case w_recv_packet E martaSocket 0 w of (status, buffer, _, w1) \<Rightarrow>
           if status \<noteq> SOCKET_ERROR_NONE then Some (True, (martaSocket, w1))
           else do {
             b \<leftarrow> buffer;
             (command, _) \<leftarrow> get_u8 b;
             (if command = COMMAND_MARTA_TO_FS_GET_FILE_BLOCKS then do {
                (sent, s') \<leftarrow> connections_marta_sendFileBlocks E b (martaSocket, w1);
                Some (\<not> sent, s')
              }
              else if command = COMMAND_MARTA_TO_FS_GET_COPY_FINAL_RESULT then do {
                (_, s') \<leftarrow> connections_marta_copyFinalResult E schedule b (martaSocket, w1);
                Some (False, s')
              }
              else Some (False, (martaSocket, w1)))
           }))"

partial_function (option) connections_marta_listenActions ::
    "('n, 'db) env \<Rightarrow> nat list \<Rightarrow> ('n, 'db) marta_world \<Rightarrow> ('n, 'db) marta_world option" where
  "connections_marta_listenActions E schedule s =
     Option.bind (marta_listen_turn E schedule s)
       (\<lambda>r. if fst r then Some (-1, snd (snd r)) else connections_marta_listenActions E schedule (snd r))"

text \<open>A second MaRTA is rejected.\<close>

definition connections_marta_accept ::
    "('n, 'db) env \<Rightarrow> nat list \<Rightarrow> int \<Rightarrow> ('n, 'db) marta_world \<Rightarrow> ('n, 'db) marta_world option" where
  "connections_marta_accept E schedule socketAccepted s =
     (if fst s \<noteq> -1 then Some s else connections_marta_listenActions E schedule (socketAccepted, snd s))"

end
