(* ===== verification/FS_Listener.thy ===== *)
theory FS_Listener
  imports FS_Marta FS_Membership
begin

text \<open>
  \<open>FileSystem/src/connections/connections.c\<close>: the start of the connections and the listener,
  which tells storage nodes and MaRTA apart by the handshake and turns MaRTA away until enough
  nodes are active. Accepting is the parameter: a descriptor and the address of the client.
  Creating a thread is taken to succeed; the thread started runs later, so it is part of the
  result.
\<close>

record fs_connections_cfg_t =
  fc_port :: int
  fc_minNodesCount :: int

datatype started = NoThread | NodeThread node_connection_t | MartaThread int

definition connections_initialize :: "('n, 'db) world \<Rightarrow> ('n, 'db) marta_world" where
  "connections_initialize w = connections_marta_initialize (connections_node_initialize w)"

text \<open>One turn of the loop: whether it goes on, the thread it starts, and the state.\<close>

definition fs_listener_turn :: "('n, 'db) env \<Rightarrow> fs_connections_cfg_t \<Rightarrow> int \<Rightarrow> string \<Rightarrow> ('n, 'db) marta_world \<Rightarrow>
    (bool \<times> started \<times> ('n, 'db) marta_world) option" where
  "fs_listener_turn E config socketAccepted clientIP s =
     (if 0 > socketAccepted then Some (False, NoThread, s)
      else do {
        (handshake, net) \<leftarrow> socket_handshake_to_client (e_os E) socketAccepted HANDSHAKE_FILESYSTEM
          (HANDSHAKE_MARTA OR HANDSHAKE_NODO) (w_net (snd s));
        let w = (snd s)\<lparr>w_net := net\<rparr>;
        Some (True,
          (if handshake = HANDSHAKE_NODO then NodeThread (connections_node_connection_create socketAccepted clientIP)
           else if handshake = HANDSHAKE_MARTA then
             (if int (connections_node_getActiveConnectedCount w) < fc_minNodesCount config then NoThread
              else MartaThread socketAccepted)
           else NoThread), (fst s, w))
      })"

text \<open>The thread that was started, when it runs.\<close>

definition run_started :: "('n, 'db) env \<Rightarrow> nat list \<Rightarrow> started \<Rightarrow> ('n, 'db) marta_world \<Rightarrow> ('n, 'db) marta_world option" where
  "run_started E schedule t s =
     (case t of
        NoThread \<Rightarrow> Some s
      | NodeThread nodeConnection \<Rightarrow> map_option (Pair (fst s)) (connections_node_accept E nodeConnection (snd s))
      | MartaThread socketAccepted \<Rightarrow> connections_marta_accept E schedule socketAccepted s)"

lemma fs_listener_marta:
  "fs_listener_turn E config socketAccepted clientIP s = Some (go, MartaThread k, s') \<Longrightarrow>
     k = socketAccepted \<and> fc_minNodesCount config \<le> int (length (w_active (snd s)))"
  by (auto simp: fs_listener_turn_def connections_node_getActiveConnectedCount_def Let_def bind_eq_Some_conv split: if_splits)

end
