(* ===== verification/Nodo.thy ===== *)
theory Nodo
  imports Socket
begin

text \<open>
  \<open>Nodo/src/node.c\<close>: a storage node. Its blocks are the bytes of one file, mapped shared into
  memory (\<open>n_bin\<close> is the content of that file, seen through the map and kept when the process
  ends); its temporary files are in \<open>n_files\<close>. It stores and reads blocks, runs map and reduce
  routines as shell commands, and reads and writes temporary files. A write or read outside
  the map, a lock outside the array, an \<open>int\<close> that overflows and a string without a NUL are
  undefined: \<^const>\<open>None\<close>. The locks serialise the accesses to a block (theory
  \<open>Nodo_Locks\<close>), so each operation is one step. Lemmas: what each operation does to each block, the text of the commands.

  The operating system is a parameter, \<open>node_env\<close>: which files can be opened, what \<open>fputs\<close> adds
  to a file, what \<open>popen\<close> and \<open>system\<close> do to the files, whether \<open>mmap\<close> (never of 0 bytes)
  succeeds, and whether the byte after a variable length array of a size is padding.
\<close>

section \<open>State and environment\<close>

text \<open>\<open>name\<close> is \<^const>\<open>None\<close> once it has been freed.\<close>

record t_nodeCfg =
  cf_fsIp :: string
  cf_fsPort :: u16
  cf_listenPort :: u16
  cf_binFilePath :: string
  cf_tmpDir :: string
  cf_newNode :: bool
  cf_name :: "string option"
  cf_blocksCount :: u16

type_synonym tmp_files = "string \<Rightarrow> byte list option"

text \<open>\<open>binFileMap\<close> is NULL, \<open>MAP_FAILED\<close> or the map of \<open>n_bin\<close>; \<open>n_locks\<close> counts \<open>blocks_mutex\<close>.\<close>

datatype bin_map = NullMap | FailedMap | Mapped

record 'n node_world =
  n_cfg :: t_nodeCfg
  n_bin :: "byte list option"
  n_map :: bin_map
  n_locks :: nat
  n_files :: tmp_files
  n_fsSocket :: int
  n_net :: 'n

record 'n node_env =
  x_os :: "'n os"
  x_connect :: "string \<Rightarrow> u16 \<Rightarrow> 'n \<Rightarrow> int \<times> 'n"
  x_fopen :: "string \<Rightarrow> bool"
  x_fputs :: "string \<Rightarrow> byte list \<Rightarrow> byte list \<Rightarrow> bool \<times> byte list"
  x_fileno :: "string \<Rightarrow> int"
  x_fchmod :: "string \<Rightarrow> bool"
  x_fclose :: "string \<Rightarrow> bool"
  x_popen :: "string \<Rightarrow> byte list \<Rightarrow> tmp_files \<Rightarrow> (bool \<times> tmp_files) option"
  x_system :: "string \<Rightarrow> tmp_files \<Rightarrow> bool \<times> tmp_files"
  x_ftruncate :: "nat \<Rightarrow> bool"
  x_mmap :: "nat \<Rightarrow> bool"
  x_lock_init :: "nat \<Rightarrow> bool"
  x_pad :: "nat \<Rightarrow> bool"
  x_page :: nat
  x_thread :: "string \<Rightarrow> bool"
  x_mutex_init :: bool

section \<open>C arithmetic and buffers\<close>

text \<open>An \<open>int\<close> product: an overflow is undefined.\<close>

definition int_mult :: "int \<Rightarrow> int \<Rightarrow> int option" where
  "int_mult a b = (if - (2 ^ 31) \<le> a * b \<and> a * b < 2 ^ 31 then Some (a * b) else None)"

text \<open>The macro \<open>BLOCK_SIZE\<close> has no parentheses: \<open>n * BLOCK_SIZE\<close> multiplies from the left.\<close>

definition times_BLOCK_SIZE :: "u16 \<Rightarrow> nat option" where
  "times_BLOCK_SIZE n = do { a \<leftarrow> int_mult (uint n) 20; b \<leftarrow> int_mult a 1024; c \<leftarrow> int_mult b 1024; Some (nat c) }"

definition BLOCK_SIZE :: nat where "BLOCK_SIZE = 20 * 1024 * 1024"

text \<open>\<open>memcpy\<close> to an offset of the map.\<close>

definition write_at :: "byte list \<Rightarrow> nat \<Rightarrow> byte list \<Rightarrow> byte list option" where
  "write_at mem off bs =
     (if off + length bs \<le> length mem then Some (take off mem @ bs @ drop (off + length bs) mem) else None)"

text \<open>The string built by \<open>strcpy\<close> and \<open>strcat\<close> in an array of \<open>n\<close> bytes.\<close>

definition str_in :: "nat \<Rightarrow> string \<Rightarrow> string option" where
  "str_in n s = (if length s + 1 \<le> n then Some s else None)"

text \<open>\<open>snprintf\<close> writes at most \<open>n - 1\<close> characters and a NUL.\<close>

definition snprintf :: "nat \<Rightarrow> string \<Rightarrow> string" where
  "snprintf n s = take (n - 1) s"

text \<open>The bytes up to the first NUL, undefined without one.\<close>

definition c_bytes :: "byte list \<Rightarrow> byte list option" where
  "c_bytes bs = (if 0 \<in> set bs then Some (takeWhile (\<lambda>b. b \<noteq> 0) bs) else None)"

section \<open>Blocks\<close>

definition node_getBinFileSize :: "'n node_world \<Rightarrow> nat option" where
  "node_getBinFileSize w = times_BLOCK_SIZE (cf_blocksCount (n_cfg w))"

text \<open>The mapped bytes, for an access to block \<open>numBlock\<close> under its lock.\<close>

definition locked_map :: "u16 \<Rightarrow> 'n node_world \<Rightarrow> byte list option" where
  "locked_map numBlock w =
     (if unat numBlock < n_locks w \<and> n_map w = Mapped then n_bin w else None)"

definition node_getBlock :: "'n node_env \<Rightarrow> u16 \<Rightarrow> 'n node_world \<Rightarrow> byte list option" where
  "node_getBlock E numBlock w =
     do {
       mem \<leftarrow> locked_map numBlock w;
       off \<leftarrow> times_BLOCK_SIZE numBlock;
       (if os_malloc (x_os E) BLOCK_SIZE \<and> off + BLOCK_SIZE \<le> length mem
        then Some (take BLOCK_SIZE (drop off mem)) else None)
     }"

definition node_setBlock :: "u16 \<Rightarrow> byte list \<Rightarrow> 'n node_world \<Rightarrow> 'n node_world option" where
  "node_setBlock numBlock blockStr w =
     do {
       off \<leftarrow> times_BLOCK_SIZE numBlock;
       str \<leftarrow> c_bytes blockStr;
       mem \<leftarrow> locked_map numBlock w;
       mem' \<leftarrow> write_at mem off (str @ [0]);
       Some (w\<lparr>n_bin := Some mem'\<rparr>)
     }"

text \<open>What is received goes straight to the map, and a NUL after \<open>sBuffer\<close> bytes, whatever the
  status.\<close>

definition node_setBlockFromPacket :: "'n node_env \<Rightarrow> u16 \<Rightarrow> int \<Rightarrow> 'n node_world \<Rightarrow>
    (e_socket_status \<times> 'n node_world) option" where
  "node_setBlockFromPacket E numBlock socket w =
     do {
       off \<leftarrow> times_BLOCK_SIZE numBlock;
       mem \<leftarrow> locked_map numBlock w;
       (case socket_recv_packet_to_memory (x_os E) socket 0 (n_net w) of (status, bs, sBuffer, net) \<Rightarrow> do {
         mem1 \<leftarrow> write_at mem off bs;
         mem2 \<leftarrow> write_at mem1 (off + unat sBuffer) [0];
         Some (status, w\<lparr>n_bin := Some mem2, n_net := net\<rparr>)
       })
     }"

section \<open>Files\<close>

definition fputs_file :: "'n node_env \<Rightarrow> string \<Rightarrow> byte list \<Rightarrow> tmp_files \<Rightarrow> bool \<times> tmp_files" where
  "fputs_file E path bs files =
     (case x_fputs E path (case files path of Some c \<Rightarrow> c | None \<Rightarrow> []) bs of
        (ok, c) \<Rightarrow> (ok, files(path \<mapsto> c)))"

definition node_createExecutableFileFromString ::
    "'n node_env \<Rightarrow> string \<Rightarrow> string option \<Rightarrow> 'n node_world \<Rightarrow> bool \<times> 'n node_world" where
  "node_createExecutableFileFromString E pathToFile str w =
     (if \<not> x_fopen E pathToFile then (False, w)
      else
        let files = (n_files w)(pathToFile \<mapsto> []);
            files = (case str of Some s \<Rightarrow> snd (fputs_file E pathToFile (str_bytes s) files) | None \<Rightarrow> files);
            w1 = w\<lparr>n_files := files\<rparr>
        in if x_fileno E pathToFile = 0 then (False, w1)
           else if \<not> x_fchmod E pathToFile then (False, w1)
           else (x_fclose E pathToFile, w1))"

text \<open>The loop \<open>putContent\<close>: NULL parts are skipped, and every part after a failure.\<close>

fun put_contents :: "'n node_env \<Rightarrow> string \<Rightarrow> byte list option list \<Rightarrow> bool \<Rightarrow> tmp_files \<Rightarrow> (bool \<times> tmp_files) option" where
  "put_contents E path [] failed files = Some (failed, files)"
| "put_contents E path (part # parts) failed files =
     (case part of
        Some p \<Rightarrow>
          if failed then put_contents E path parts failed files
          else do {
            s \<leftarrow> c_bytes p;
            (case fputs_file E path s files of (ok, files') \<Rightarrow> put_contents E path parts (\<not> ok) files')
          }
      | None \<Rightarrow> put_contents E path parts failed files)"

definition node_createTmpFileFromStringList ::
    "'n node_env \<Rightarrow> string \<Rightarrow> byte list option list \<Rightarrow> 'n node_world \<Rightarrow> (bool \<times> 'n node_world) option" where
  "node_createTmpFileFromStringList E tmpFileName stringParts w =
     do {
       let dir = cf_tmpDir (n_cfg w);
       path \<leftarrow> str_in (length dir + 1 + length tmpFileName + 1) (dir @ ''/'' @ tmpFileName);
       (if \<not> x_fopen E path then Some (False, w)
        else do {
          (failed, files) \<leftarrow> put_contents E path stringParts False ((n_files w)(path \<mapsto> []));
          Some (\<not> failed, w\<lparr>n_files := files\<rparr>)
        })
     }"

text \<open>
  The array for the path has no room for its NUL. A map ends with its file filled up with
  zeros to a whole page, so \<open>strdup\<close> finds a NUL in the file, or after it when the size is not
  a multiple of the page; an empty file cannot be mapped.
\<close>

definition node_getTmpFileContent :: "'n node_env \<Rightarrow> string \<Rightarrow> 'n node_world \<Rightarrow> byte list option option" where
  "node_getTmpFileContent E tmpFileName w =
     (let dir = cf_tmpDir (n_cfg w); path = dir @ ''/'' @ tmpFileName in
      if \<not> x_pad E (length dir + 1 + length tmpFileName) then None
      else (case n_files w path of
              None \<Rightarrow> Some None
            | Some bs \<Rightarrow>
                if length bs = 0 \<or> \<not> x_mmap E (length bs) then None
                else if 0 \<in> set bs \<or> length bs mod x_page E \<noteq> 0
                     then Some (Some (takeWhile (\<lambda>b. b \<noteq> 0) bs @ [0]))
                     else None))"

section \<open>Routines\<close>

text \<open>The exit status of the command is not looked at.\<close>

definition node_popen_write :: "'n node_env \<Rightarrow> string \<Rightarrow> byte list \<Rightarrow> 'n node_world \<Rightarrow> (bool \<times> 'n node_world) option" where
  "node_popen_write E command data w =
     do {
       str \<leftarrow> c_bytes data;
       (case x_popen E command str (n_files w) of
          None \<Rightarrow> Some (False, w)
        | Some (ok, files) \<Rightarrow> Some (ok, w\<lparr>n_files := files\<rparr>))
     }"

definition node_executeMapRutine :: "'n node_env \<Rightarrow> string \<Rightarrow> u16 \<Rightarrow> string \<Rightarrow> 'n node_world \<Rightarrow>
    (bool \<times> 'n node_world) option" where
  "node_executeMapRutine E mapRutine numBlock tmpFileName w =
     do {
       let dir = cf_tmpDir (n_cfg w);
       let pathToTmpFileSize = length dir + 1 + length tmpFileName + 1;
       pathToMapRutine \<leftarrow> str_in (pathToTmpFileSize + 20) (dir @ ''/'' @ tmpFileName @ ''_maprutine'');
       pathToSTDERRFile \<leftarrow> str_in (pathToTmpFileSize + 20) (dir @ ''/'' @ tmpFileName @ ''_stderr'');
       pathToFinalSortedFile \<leftarrow> str_in pathToTmpFileSize (dir @ ''/'' @ tmpFileName);
       (case node_createExecutableFileFromString E pathToMapRutine (Some mapRutine) w of (fileCreated, w1) \<Rightarrow>
          if \<not> fileCreated then Some (False, w1)
          else do {
            blockData \<leftarrow> node_getBlock E numBlock w1;
            let commandSize = length pathToMapRutine + 9 + length pathToFinalSortedFile + 3 + length pathToSTDERRFile + 1;
            let command = snprintf commandSize
              (pathToMapRutine @ '' | sort >'' @ pathToFinalSortedFile @ '' 2>'' @ pathToSTDERRFile);
            node_popen_write E command blockData w1
          })
     }"

definition node_executeReduceRutine :: "'n node_env \<Rightarrow> string \<Rightarrow> string \<Rightarrow> string \<Rightarrow> 'n node_world \<Rightarrow>
    (bool \<times> 'n node_world) option" where
  "node_executeReduceRutine E reduceRutine tmpFileNameToReduce finalTmpFileName w =
     do {
       let dir = cf_tmpDir (n_cfg w);
       let pathToTmpFileSize = length dir + 1 + length finalTmpFileName + 1;
       pathToReduceRutine \<leftarrow> str_in (pathToTmpFileSize + 20) (dir @ ''/'' @ finalTmpFileName @ ''_reducerutine'');
       pathToSTDERRFile \<leftarrow> str_in (pathToTmpFileSize + 20) (dir @ ''/'' @ finalTmpFileName @ ''_stderr'');
       pathToFinalFile \<leftarrow> str_in pathToTmpFileSize (dir @ ''/'' @ finalTmpFileName);
       let w1 = snd (node_createExecutableFileFromString E pathToReduceRutine (Some reduceRutine) w);
       let commandSize = 4 + length dir + 1 + length tmpFileNameToReduce + 3 + length pathToReduceRutine + 2
         + length pathToFinalFile + 3 + length pathToSTDERRFile + 10;
       let command = snprintf commandSize (''cat '' @ dir @ ''/'' @ tmpFileNameToReduce @ '' | sort | '' @
         pathToReduceRutine @ '' >'' @ pathToFinalFile @ '' 2>'' @ pathToSTDERRFile);
       (case x_system E command (n_files w1) of (result, files) \<Rightarrow> Some (result, w1\<lparr>n_files := files\<rparr>))
     }"

section \<open>Start\<close>

text \<open>
  \<open>mmap\<close> answers \<open>MAP_FAILED\<close>, which is not NULL, so its failure is not noticed. A lock that
  cannot be initialised stops the loop.
\<close>

definition node_init :: "'n node_env \<Rightarrow> 'n node_world \<Rightarrow> (bool \<times> 'n node_world) option" where
  "node_init E w =
     (let createFile = (cf_newNode (n_cfg w) \<or> n_bin w = None) in
      if \<not> x_fopen E (cf_binFilePath (n_cfg w)) then Some (False, w)
      else do {
        let old = (case n_bin w of Some c \<Rightarrow> if createFile then [] else c | None \<Rightarrow> []);
        binFileSize \<leftarrow> node_getBinFileSize w;
        (if createFile \<and> \<not> x_ftruncate E binFileSize then Some (False, w\<lparr>n_bin := Some old\<rparr>)
         else if \<not> createFile \<and> length old \<noteq> binFileSize then Some (False, w)
         else
           let w1 = w\<lparr>n_bin := Some (if createFile then replicate binFileSize 0 else old),
                      n_map := (if binFileSize \<noteq> 0 \<and> x_mmap E binFileSize then Mapped else FailedMap)\<rparr>
           in case List.find (\<lambda>i. \<not> x_lock_init E i) [0..<unat (cf_blocksCount (n_cfg w))] of
                Some i \<Rightarrow> Some (False, w1\<lparr>n_locks := i\<rparr>)
              | None \<Rightarrow> Some (True, w1\<lparr>n_locks := unat (cf_blocksCount (n_cfg w))\<rparr>))
      })"

section \<open>What is stored where\<close>

definition block_of :: "byte list \<Rightarrow> nat \<Rightarrow> byte list" where
  "block_of mem i = take BLOCK_SIZE (drop (i * BLOCK_SIZE) mem)"

text \<open>A node that started: the whole file is mapped and every block has its lock.\<close>

definition nodo_ok :: "'n node_world \<Rightarrow> bool" where
  "nodo_ok w \<longleftrightarrow> n_map w = Mapped \<and> n_locks w = unat (cf_blocksCount (n_cfg w)) \<and> unat (cf_blocksCount (n_cfg w)) \<le> 102 \<and>
     (\<exists>mem. n_bin w = Some mem \<and> length mem = unat (cf_blocksCount (n_cfg w)) * BLOCK_SIZE)"

text \<open>102 blocks are the most an \<open>int\<close> can count the bytes of.\<close>

lemma times_BLOCK_SIZE_eq: "times_BLOCK_SIZE n = (if unat n \<le> 102 then Some (unat n * BLOCK_SIZE) else None)"
proof -
  obtain u where u: "unat n = u" "uint n = int u" "u < 65536" using unsigned_less [of n] by simp
  have mult: "int_mult (int a) (int b) = (if a * b < 2 ^ 31 then Some (int (a * b)) else None)" for a b
    by (simp add: int_mult_def flip: of_nat_mult)
  have 1: "int_mult (int u) 20 = Some (int (20 * u))" "int_mult (int (20 * u)) 1024 = Some (int (20480 * u))"
    using mult [of u 20] mult [of "20 * u" 1024] u(3) by (simp_all add: mult.commute)
  have 2: "int_mult (int (20480 * u)) 1024 = (if u \<le> 102 then Some (int (u * BLOCK_SIZE)) else None)"
    using mult [of "20480 * u" 1024] by (auto simp: BLOCK_SIZE_def)
  show ?thesis unfolding times_BLOCK_SIZE_def u(1,2) 1 bind.bind_lunit 2 by (simp del: of_nat_mult)
qed

lemma BLOCK_SIZE_pos [simp]: "0 < BLOCK_SIZE"
  by (simp add: BLOCK_SIZE_def)

lemma block_end: "i < n \<Longrightarrow> i * BLOCK_SIZE + BLOCK_SIZE \<le> n * BLOCK_SIZE"
  by (metis Suc_leI add.commute mult_Suc mult_le_mono1)

lemma length_block_of: "i < n \<Longrightarrow> length mem = n * BLOCK_SIZE \<Longrightarrow> length (block_of mem i) = BLOCK_SIZE"
  using block_end [of i n] by (simp add: block_of_def)

lemma write_at_length: "write_at mem off bs = Some mem' \<Longrightarrow> length mem' = length mem"
  by (auto simp: write_at_def split: if_splits)

lemma write_at_nth:
  "write_at mem off bs = Some mem' \<Longrightarrow> k < length mem \<Longrightarrow>
   mem' ! k = (if off \<le> k \<and> k < off + length bs then bs ! (k - off) else mem ! k)"
  by (auto simp: write_at_def nth_append min_def split: if_splits)

lemma write_at_append:
  assumes "write_at mem off bs = Some m1" and "write_at m1 (off + length bs) cs = Some m2"
  shows "write_at mem off (bs @ cs) = Some m2"
proof (rule ccontr)
  assume neq: "write_at mem off (bs @ cs) \<noteq> Some m2"
  from assms have "off + length bs + length cs \<le> length mem" by (auto simp: write_at_def split: if_splits)
  then obtain m3 where m3: "write_at mem off (bs @ cs) = Some m3" by (simp add: write_at_def)
  have "m3 = m2"
  proof (rule nth_equalityI)
    show "length m3 = length m2" using write_at_length assms m3 by metis
    show "m3 ! k = m2 ! k" if "k < length m3" for k
    proof -
      have len: "length m3 = length mem" "length m1 = length mem"
        using write_at_length [OF m3] write_at_length [OF assms(1)] .
      show ?thesis
        using write_at_nth [OF m3, of k] write_at_nth [OF assms(2), of k] write_at_nth [OF assms(1), of k] that len
        by (cases "k < off"; cases "k < off + length bs") (auto simp: nth_append)
    qed
  qed
  with neq m3 show False by simp
qed

lemma block_of_nth: "i < n \<Longrightarrow> length mem = n * BLOCK_SIZE \<Longrightarrow> k < BLOCK_SIZE \<Longrightarrow> block_of mem i ! k = mem ! (i * BLOCK_SIZE + k)"
  using block_end [of i n] by (simp add: block_of_def)

text \<open>Writing at the start of block \<open>i\<close> changes the front of that block, and only bytes beyond
  its size reach the next.\<close>

lemma write_at_same_block:
  assumes "write_at mem (i * BLOCK_SIZE) bs = Some mem'" and "length mem = n * BLOCK_SIZE" and "i < n"
    and "length bs \<le> BLOCK_SIZE"
  shows "block_of mem' i = bs @ drop (length bs) (block_of mem i)"
proof -
  note len = length_block_of [OF assms(3)]
  have len': "length mem' = n * BLOCK_SIZE" using write_at_length [OF assms(1)] assms(2) by simp
  show ?thesis
  proof (rule nth_equalityI)
    show "length (block_of mem' i) = length (bs @ drop (length bs) (block_of mem i))"
      using len [OF assms(2)] len [OF len'] assms(4) by simp
    show "block_of mem' i ! k = (bs @ drop (length bs) (block_of mem i)) ! k" if "k < length (block_of mem' i)" for k
    proof -
      have k: "k < BLOCK_SIZE" using that len [OF len'] by simp
      then have "i * BLOCK_SIZE + k < length mem" using block_end [OF assms(3)] assms(2) by linarith
      from write_at_nth [OF assms(1) this] k show ?thesis
        using block_of_nth [OF assms(3) len' k] block_of_nth [OF assms(3,2) k] len [OF assms(2)] assms(4)
        by (simp add: nth_append)
    qed
  qed
qed

lemma write_at_other_block:
  assumes "write_at mem (i * BLOCK_SIZE) bs = Some mem'" and "length mem = n * BLOCK_SIZE" and "j < n" and "j \<noteq> i"
    and "length bs \<le> BLOCK_SIZE + 1"
  shows "block_of mem' j = (if j = Suc i \<and> length bs = BLOCK_SIZE + 1 then last bs # tl (block_of mem j) else block_of mem j)"
    (is "_ = ?b")
proof -
  have len': "length mem' = n * BLOCK_SIZE" using write_at_length [OF assms(1)] assms(2) by simp
  note len = length_block_of [OF assms(3) assms(2)] length_block_of [OF assms(3) len']
  have bnds: "j * BLOCK_SIZE + BLOCK_SIZE \<le> i * BLOCK_SIZE \<or> i * BLOCK_SIZE + BLOCK_SIZE \<le> j * BLOCK_SIZE"
    using block_end [of j i] block_end [of i j] assms(4) by linarith
  have nxt: "i * BLOCK_SIZE + BLOCK_SIZE = j * BLOCK_SIZE \<longleftrightarrow> j = Suc i"
    using BLOCK_SIZE_pos by (metis add.commute mult_Suc mult_cancel2 not_gr_zero)
  have last: "last bs = bs ! BLOCK_SIZE" if "length bs = BLOCK_SIZE + 1"
    using that last_conv_nth [of bs] by (cases bs) simp_all
  show ?thesis
  proof (rule nth_equalityI)
    show "length (block_of mem' j) = length ?b" using len BLOCK_SIZE_pos by (cases "block_of mem j") auto
    show "block_of mem' j ! k = ?b ! k" if "k < length (block_of mem' j)" for k
    proof -
      have k: "k < BLOCK_SIZE" using that len by simp
      then have "j * BLOCK_SIZE + k < length mem" using block_end [OF assms(3)] assms(2) by linarith
      from write_at_nth [OF assms(1) this]
      have k': "block_of mem' j ! k = (if i * BLOCK_SIZE \<le> j * BLOCK_SIZE + k \<and> j * BLOCK_SIZE + k < i * BLOCK_SIZE + length bs
          then bs ! (j * BLOCK_SIZE + k - i * BLOCK_SIZE) else block_of mem j ! k)"
        by (simp add: block_of_nth [OF assms(3) len' k] block_of_nth [OF assms(3,2) k])
      show ?thesis
      proof (cases "j = Suc i \<and> length bs = BLOCK_SIZE + 1 \<and> k = 0")
        case True
        then show ?thesis using k' last nxt by simp
      next
        case False
        then have "\<not> (i * BLOCK_SIZE \<le> j * BLOCK_SIZE + k \<and> j * BLOCK_SIZE + k < i * BLOCK_SIZE + length bs)"
          using bnds nxt k assms(5) by (cases "j = Suc i") linarith+
        with k' have "block_of mem' j ! k = block_of mem j ! k" by simp
        with False len BLOCK_SIZE_pos show ?thesis by (cases k; cases "block_of mem j") auto
      qed
    qed
  qed
qed

section \<open>Storing and reading blocks\<close>

lemma nodo_okE:
  assumes "nodo_ok w"
  obtains mem where "n_bin w = Some mem" "length mem = unat (cf_blocksCount (n_cfg w)) * BLOCK_SIZE"
    "n_map w = Mapped" "n_locks w = unat (cf_blocksCount (n_cfg w))" "unat (cf_blocksCount (n_cfg w)) \<le> 102"
  using assms unfolding nodo_ok_def by blast

lemma locked_map_ok: "nodo_ok w \<Longrightarrow> unat n < unat (cf_blocksCount (n_cfg w)) \<Longrightarrow> locked_map n w = n_bin w"
  by (simp add: nodo_ok_def locked_map_def)

lemma node_getBlock_ok:
  assumes "nodo_ok w" and "unat n < unat (cf_blocksCount (n_cfg w))" and "n_bin w = Some mem" and "os_malloc (x_os E) BLOCK_SIZE"
  shows "node_getBlock E n w = Some (block_of mem (unat n))"
proof -
  have len: "length mem = unat (cf_blocksCount (n_cfg w)) * BLOCK_SIZE" "unat n \<le> 102"
    using assms(1-3) by (auto simp: nodo_ok_def)
  have "unat n * BLOCK_SIZE + BLOCK_SIZE \<le> length mem" unfolding len(1) by (rule block_end [OF assms(2)])
  then show ?thesis using assms len(2)
    by (simp add: node_getBlock_def locked_map_ok times_BLOCK_SIZE_eq block_of_def)
qed

lemma node_getBlock_net [simp]: "node_getBlock E m (w\<lparr>n_net := net\<rparr>) = node_getBlock E m w"
  by (simp add: node_getBlock_def locked_map_def)

lemma nodo_ok_update:
  "nodo_ok w \<Longrightarrow> n_bin w = Some mem \<Longrightarrow> length mem' = length mem \<Longrightarrow> nodo_ok (w\<lparr>n_bin := Some mem', n_net := net\<rparr>)"
  by (simp add: nodo_ok_def)

text \<open>A block without a lock or whose bytes an \<open>int\<close> cannot count: every access is undefined.\<close>

lemma node_block_undefined:
  assumes "n_locks w \<le> unat n \<or> 102 < unat n"
  shows "node_getBlock E n w = None" "node_setBlock n d w = None" "node_setBlockFromPacket E n s w = None"
  using assms by (auto simp: node_getBlock_def node_setBlock_def node_setBlockFromPacket_def locked_map_def
      times_BLOCK_SIZE_eq bind_eq_None_conv)

lemma node_setBlock_write:
  assumes "nodo_ok w" and "unat n < unat (cf_blocksCount (n_cfg w))" and "n_bin w = Some mem"
  shows "node_setBlock n d w = do { str \<leftarrow> c_bytes d; mem' \<leftarrow> write_at mem (unat n * BLOCK_SIZE) (str @ [0]);
    Some (w\<lparr>n_bin := Some mem'\<rparr>) }"
  using assms by (auto simp: node_setBlock_def locked_map_ok times_BLOCK_SIZE_eq nodo_ok_def)

context reliable_os begin

lemma recv_to_memory_reliable:
  assumes "inp n s = packet_bytes p @ rest" and "packet_ok p"
  shows "\<exists>n'. socket_recv_packet_to_memory os s size0 n = (SOCKET_ERROR_NONE, p, word_of_nat (length p), n') \<and>
    inp n' s = rest \<and> (\<forall>t. t \<noteq> s \<longrightarrow> inp n' t = inp n t) \<and> out n' = out n"
proof -
  from recv_packet_reliable [OF assms] malloc_ok obtain n' where
    "socket_recv_packet os s size0 n = (SOCKET_ERROR_NONE, Some p, word_of_nat (length p), n')" "inp n' s = rest"
    "\<forall>t. t \<noteq> s \<longrightarrow> inp n' t = inp n t" "out n' = out n" by blast
  then show ?thesis using malloc_ok
    by (auto simp: socket_recv_packet_def socket_recv_packet_to_memory_def Let_def failed_status_iff
        split: prod.splits if_splits)
qed

end

lemma node_setBlockFromPacket_write:
  assumes "reliable_os (x_os E) inp out" and "nodo_ok w" and "unat n < unat (cf_blocksCount (n_cfg w))"
    and "n_bin w = Some mem" and "inp (n_net w) s = packet_bytes p @ rest" and "packet_ok p"
  shows "\<exists>net. inp net s = rest \<and> (\<forall>t. t \<noteq> s \<longrightarrow> inp net t = inp (n_net w) t) \<and> out net = out (n_net w) \<and>
    node_setBlockFromPacket E n s w = map_option (\<lambda>mem'. (SOCKET_ERROR_NONE, w\<lparr>n_bin := Some mem', n_net := net\<rparr>))
      (write_at mem (unat n * BLOCK_SIZE) (p @ [0]))"
proof -
  from reliable_os.recv_to_memory_reliable [OF assms(1,5,6)] obtain net where
    r: "socket_recv_packet_to_memory (x_os E) s 0 (n_net w) = (SOCKET_ERROR_NONE, p, word_of_nat (length p), net)"
    and net: "inp net s = rest" "\<forall>t. t \<noteq> s \<longrightarrow> inp net t = inp (n_net w) t" "out net = out (n_net w)" by blast
  let ?off = "unat n * BLOCK_SIZE"
  have off: "times_BLOCK_SIZE n = Some ?off" using assms(2,3) by (simp add: times_BLOCK_SIZE_eq nodo_ok_def)
  have two: "Option.bind (write_at mem ?off p) (\<lambda>m1. write_at m1 (?off + length p) [0]) = write_at mem ?off (p @ [0])"
    (is "?l = ?r")
  proof (cases ?r)
    case None
    then have "length mem < ?off + (length p + 1)" by (simp add: write_at_def split: if_splits)
    then show ?thesis unfolding None
      by (auto simp: bind_eq_None_conv write_at_length) (auto simp: write_at_def dest: write_at_length split: if_splits)
  next
    case (Some m3)
    then have "?off + length p + 1 \<le> length mem" by (simp add: write_at_def split: if_splits)
    then obtain m1 where m1: "write_at mem ?off p = Some m1" by (simp add: write_at_def)
    obtain m2 where m2: "write_at m1 (?off + length p) [0] = Some m2"
      using \<open>?off + length p + 1 \<le> length mem\<close> write_at_length [OF m1] by (simp add: write_at_def)
    from write_at_append [OF m1 m2] Some m1 m2 show ?thesis by simp
  qed
  show ?thesis
    using net by (intro exI [of _ net])
      (simp add: node_setBlockFromPacket_def off locked_map_ok assms r unat_length_packet Let_def flip: two,
       simp add: option.map_comp comp_def map_option_case split: option.split Option.bind_split)
qed

text \<open>One more than the bytes of a block cannot be stored in the last one.\<close>

lemma node_reads_blocks:
  assumes "nodo_ok w" and "n_bin w = Some mem" and "os_malloc (x_os E) BLOCK_SIZE"
  shows "node_getBlock E m w = (if unat m < unat (cf_blocksCount (n_cfg w)) then Some (block_of mem (unat m)) else None)"
  using node_getBlock_ok [OF assms(1) _ assms(2,3)] node_block_undefined(1) [of w m E] assms(1)
  by (auto simp: nodo_ok_def not_less)

lemma node_store_effect:
  assumes "nodo_ok w" and "unat n < unat (cf_blocksCount (n_cfg w))" and "n_bin w = Some mem"
    and "write_at mem (unat n * BLOCK_SIZE) bs = Some mem'" and "length bs \<le> BLOCK_SIZE + 1"
    and "os_malloc (x_os E) BLOCK_SIZE" and "w' = w\<lparr>n_bin := Some mem', n_net := net\<rparr>"
  shows "nodo_ok w' \<and>
    node_getBlock E n w' = Some (take BLOCK_SIZE (bs @ drop (length bs) (block_of mem (unat n)))) \<and>
    (\<forall>m. m \<noteq> n \<longrightarrow> node_getBlock E m w' =
      (if unat m = Suc (unat n) \<and> length bs = BLOCK_SIZE + 1 then map_option (\<lambda>b. last bs # tl b) (node_getBlock E m w)
       else node_getBlock E m w))"
proof -
  let ?c = "unat (cf_blocksCount (n_cfg w))"
  have len: "length mem = ?c * BLOCK_SIZE" using assms(1,3) by (auto simp: nodo_ok_def)
  have ok: "nodo_ok w'" unfolding assms(7) by (rule nodo_ok_update [OF assms(1,3) write_at_length [OF assms(4)]])
  have w': "n_bin w' = Some mem'" "n_cfg w' = n_cfg w" by (simp_all add: assms(7))
  note r' = node_reads_blocks [OF ok w'(1) assms(6), unfolded w'(2)] and r = node_reads_blocks [OF assms(1,3,6)]
  have same: "block_of mem' (unat n) = take BLOCK_SIZE (bs @ drop (length bs) (block_of mem (unat n)))"
  proof (cases "length bs \<le> BLOCK_SIZE")
    case True
    then show ?thesis using write_at_same_block [OF assms(4) len assms(2)] length_block_of [OF assms(2) len] by simp
  next
    case False
    with assms(4) show ?thesis by (auto simp: block_of_def write_at_def min_def split: if_splits)
  qed
  have other: "node_getBlock E m w' =
      (if unat m = Suc (unat n) \<and> length bs = BLOCK_SIZE + 1 then map_option (\<lambda>b. last bs # tl b) (node_getBlock E m w)
       else node_getBlock E m w)" if "m \<noteq> n" for m
  proof (cases "unat m < ?c")
    case True
    have "unat m \<noteq> unat n" using that by (simp add: word_unat_eq_iff)
    from write_at_other_block [OF assms(4) len True this assms(5)] True show ?thesis unfolding r r' by simp
  qed (simp add: r r')
  show ?thesis using ok same assms(2) other r' by simp
qed

lemma node_stores_block':
  assumes "reliable_os (x_os E) inp out" and "nodo_ok w" and "unat n < unat (cf_blocksCount (n_cfg w))"
    and "inp (n_net w) s = packet_bytes p @ rest" and "length p < BLOCK_SIZE"
  shows "\<exists>w' old. node_setBlockFromPacket E n s w = Some (SOCKET_ERROR_NONE, w') \<and> nodo_ok w' \<and>
    inp (n_net w') s = rest \<and> node_getBlock E n w = Some old \<and>
    node_getBlock E n w' = Some (p @ 0 # drop (length p + 1) old) \<and>
    (\<forall>m. m \<noteq> n \<longrightarrow> node_getBlock E m w' = node_getBlock E m w) \<and>
    n_cfg w' = n_cfg w \<and> n_fsSocket w' = n_fsSocket w"
proof -
  have malloc: "os_malloc (x_os E) BLOCK_SIZE" using assms(1) by (simp add: reliable_os_def reliable_os_axioms_def)
  obtain mem where mem: "n_bin w = Some mem" "length mem = unat (cf_blocksCount (n_cfg w)) * BLOCK_SIZE"
    using assms(2) by (rule nodo_okE)
  have ok: "packet_ok p" using assms(5) by (simp add: packet_ok_def BLOCK_SIZE_def)
  from node_setBlockFromPacket_write [OF assms(1-3) mem(1) assms(4) ok] obtain net where
    net: "inp net s = rest" and run: "node_setBlockFromPacket E n s w =
      map_option (\<lambda>mem'. (SOCKET_ERROR_NONE, w\<lparr>n_bin := Some mem', n_net := net\<rparr>)) (write_at mem (unat n * BLOCK_SIZE) (p @ [0]))"
    by blast
  have "unat n * BLOCK_SIZE + length (p @ [0]) \<le> length mem" using block_end [OF assms(3)] mem(2) assms(5) by simp
  then obtain mem' where mem': "write_at mem (unat n * BLOCK_SIZE) (p @ [0]) = Some mem'" by (simp add: write_at_def)
  have old: "node_getBlock E n w = Some (block_of mem (unat n))" by (rule node_getBlock_ok [OF assms(2,3) mem(1) malloc])
  have "length (p @ [0]) \<le> BLOCK_SIZE + 1" using assms(5) by simp
  from node_store_effect [OF assms(2,3) mem(1) mem' this malloc refl, of net] old run mem' net
    length_block_of [OF assms(3) mem(2)] assms(5)
  show ?thesis by simp
qed

text \<open>C14. A block that is stored is the block that is read, and no other block changes: on a node
  that started, a packet shorter than a block that arrives for one of its blocks goes to the
  front of that block, with a NUL behind it, and reading any other block gives what it gave.\<close>

theorem node_stores_block:
  assumes "reliable_os (x_os E) inp out" and "nodo_ok w" and "unat n < unat (cf_blocksCount (n_cfg w))"
    and "inp (n_net w) s = packet_bytes p @ rest" and "length p < BLOCK_SIZE"
  shows "\<exists>w' old. node_setBlockFromPacket E n s w = Some (SOCKET_ERROR_NONE, w') \<and> nodo_ok w' \<and>
    inp (n_net w') s = rest \<and> node_getBlock E n w = Some old \<and>
    node_getBlock E n w' = Some (p @ 0 # drop (length p + 1) old) \<and>
    (\<forall>m. m \<noteq> n \<longrightarrow> node_getBlock E m w' = node_getBlock E m w)"
  using node_stores_block' [OF assms] by blast

text \<open>A full block damages its neighbour: \<open>filesystem_getBlocksFromStr\<close> may cut blocks of
  exactly \<open>BLOCK_SIZE\<close> bytes, and storing one puts its NUL over the first byte of the next block
  of the node; in the last block of the node it falls outside the map.\<close>

theorem full_block_hits_next:
  assumes "reliable_os (x_os E) inp out" and "nodo_ok w" and "unat n < unat (cf_blocksCount (n_cfg w))"
    and "inp (n_net w) s = packet_bytes p @ rest" and "length p = BLOCK_SIZE"
  shows "if unat n + 1 < unat (cf_blocksCount (n_cfg w))
    then \<exists>w' old. node_setBlockFromPacket E n s w = Some (SOCKET_ERROR_NONE, w') \<and>
      node_getBlock E n w' = Some p \<and> node_getBlock E (n + 1) w = Some old \<and> node_getBlock E (n + 1) w' = Some (0 # tl old)
    else node_setBlockFromPacket E n s w = None"
proof -
  let ?c = "unat (cf_blocksCount (n_cfg w))"
  have malloc: "os_malloc (x_os E) BLOCK_SIZE" using assms(1) by (simp add: reliable_os_def reliable_os_axioms_def)
  obtain mem where mem: "n_bin w = Some mem" "length mem = ?c * BLOCK_SIZE" "?c \<le> 102"
    using assms(2) by (rule nodo_okE)
  have ok: "packet_ok p" using assms(5) by (simp add: packet_ok_def BLOCK_SIZE_def)
  from node_setBlockFromPacket_write [OF assms(1-3) mem(1) assms(4) ok] obtain net where
    run: "node_setBlockFromPacket E n s w =
      map_option (\<lambda>mem'. (SOCKET_ERROR_NONE, w\<lparr>n_bin := Some mem', n_net := net\<rparr>)) (write_at mem (unat n * BLOCK_SIZE) (p @ [0]))"
    by blast
  have suc: "unat (n + 1) = unat n + 1" using assms(3) mem(3) by (simp add: unat_word_ariths)
  show ?thesis
  proof (cases "unat n + 1 < ?c")
    case True
    then have "unat n * BLOCK_SIZE + length (p @ [0]) \<le> length mem"
      using block_end [of "unat n + 1" ?c] mem(2) assms(5) by (simp add: BLOCK_SIZE_def)
    then obtain mem' where mem': "write_at mem (unat n * BLOCK_SIZE) (p @ [0]) = Some mem'" by (simp add: write_at_def)
    have neq: "n + 1 \<noteq> n" by simp
    have "node_getBlock E (n + 1) w = Some (block_of mem (unat n + 1))"
      using node_reads_blocks [OF assms(2) mem(1) malloc, of "n + 1"] True suc by simp
    moreover have "length (p @ [0]) \<le> BLOCK_SIZE + 1" using assms(5) by simp
    note node_store_effect [OF assms(2,3) mem(1) mem' this malloc refl, of net]
    ultimately show ?thesis using True run mem' neq suc assms(5) by simp
  next
    case False
    then have "?c = unat n + 1" using assms(3) by simp
    then have "write_at mem (unat n * BLOCK_SIZE) (p @ [0]) = None" using mem(2) assms(5) by (simp add: write_at_def)
    with False run show ?thesis by simp
  qed
qed

section \<open>A small node\<close>

text \<open>A shell that records each command and its input, a disk that never fails, a network in
  fragments, pages of 4096 bytes, and a node with two blocks.\<close>

definition node_demo_env :: "bool \<Rightarrow> chunk_net node_env" where
  "node_demo_env le = \<lparr>x_os = chunk_os le, x_connect = (\<lambda>_ _ net. (7, net)), x_fopen = (\<lambda>_. True),
     x_fputs = (\<lambda>_ old bs. (True, old @ bs)), x_fileno = (\<lambda>_. 3), x_fchmod = (\<lambda>_. True), x_fclose = (\<lambda>_. True),
     x_popen = (\<lambda>cmd input files. Some (True, files(cmd \<mapsto> input))), x_system = (\<lambda>cmd files. (True, files(cmd \<mapsto> []))),
     x_ftruncate = (\<lambda>_. True), x_mmap = (\<lambda>_. True), x_lock_init = (\<lambda>_. True), x_pad = (\<lambda>_. True),
     x_page = 4096, x_thread = (\<lambda>_. True), x_mutex_init = True\<rparr>"

definition node_demo_cfg :: t_nodeCfg where
  "node_demo_cfg = \<lparr>cf_fsIp = ''127.0.0.1'', cf_fsPort = 3000, cf_listenPort = 6500, cf_binFilePath = ''data.bin'',
     cf_tmpDir = ''/tmp'', cf_newNode = False, cf_name = Some ''n1'', cf_blocksCount = 2\<rparr>"

definition node_demo :: "chunk_net \<Rightarrow> chunk_net node_world" where
  "node_demo net = \<lparr>n_cfg = node_demo_cfg, n_bin = Some (replicate (2 * BLOCK_SIZE) 0), n_map = Mapped, n_locks = 2,
     n_files = (\<lambda>_. None), n_fsSocket = 5, n_net = net\<rparr>"

lemma node_demo_ok: "nodo_ok (node_demo net)"
  by (simp add: nodo_ok_def node_demo_def node_demo_cfg_def)

lemmas node_demo_simps = node_demo_env_def node_demo_def node_demo_cfg_def

lemma node_demo_reliable: "reliable_os (x_os (node_demo_env le)) fst snd"
  by (simp add: node_demo_env_def chunk.reliable_os_axioms)

theorem node_stores_block_witness:
  "\<exists>w' old. node_setBlockFromPacket (node_demo_env True) 1 5 (node_demo ((\<lambda>_. packet_bytes [65, 10]), (\<lambda>_. []))) =
       Some (SOCKET_ERROR_NONE, w') \<and>
     node_getBlock (node_demo_env True) 1 w' = Some ([65, 10] @ 0 # drop 3 old)"
proof -
  let ?w = "node_demo ((\<lambda>_. packet_bytes [65, 10]), (\<lambda>_. []))"
  have "unat (1 :: u16) < unat (cf_blocksCount (n_cfg ?w))" "fst (n_net ?w) 5 = packet_bytes [65, 10] @ []"
    "length [65 :: byte, 10] < BLOCK_SIZE" by (simp_all add: node_demo_def node_demo_cfg_def BLOCK_SIZE_def)
  from node_stores_block [OF node_demo_reliable [of True] node_demo_ok this] show ?thesis by (simp add: numeral_3_eq_3) blast
qed

theorem full_block_hits_next_witness:
  "node_setBlockFromPacket (node_demo_env True) 1 5
     (node_demo ((\<lambda>_. packet_bytes (replicate BLOCK_SIZE 65)), (\<lambda>_. []))) = None"
proof -
  let ?w = "node_demo ((\<lambda>_. packet_bytes (replicate BLOCK_SIZE 65)), (\<lambda>_. []))"
  have "unat (1 :: u16) < unat (cf_blocksCount (n_cfg ?w))" "fst (n_net ?w) 5 = packet_bytes (replicate BLOCK_SIZE 65) @ []"
    "length (replicate BLOCK_SIZE (65 :: byte)) = BLOCK_SIZE" "\<not> unat (1 :: u16) + 1 < unat (cf_blocksCount (n_cfg ?w))"
    by (simp_all add: node_demo_def node_demo_cfg_def)
  with full_block_hits_next [OF node_demo_reliable [of True] node_demo_ok this(1-3)] show ?thesis by simp
qed

section \<open>Routines, temporary files and the start\<close>

lemma str_in_fits: "length s < n \<Longrightarrow> str_in n s = Some s"
  by (simp add: str_in_def)

lemma snprintf_fits: "length s < n \<Longrightarrow> snprintf n s = s"
  by (simp add: snprintf_def)

lemmas buffers = str_in_fits snprintf_fits

text \<open>The commands of the routines are whole: whatever the names, no path overflows its array
  and no command is cut by its buffer. A map runs the routine over the text of the block, sorts
  it into the temporary file of that name and returns whether the text could be written to it; a
  reduce sends the sorted file through the routine.\<close>

theorem routine_commands:
  "node_executeReduceRutine E routine src dst w =
     (let dir = cf_tmpDir (n_cfg w);
          w1 = snd (node_createExecutableFileFromString E (dir @ ''/'' @ dst @ ''_reducerutine'') (Some routine) w);
          (result, files) = x_system E (''cat '' @ dir @ ''/'' @ src @ '' | sort | '' @ dir @ ''/'' @ dst @ ''_reducerutine >'' @
            dir @ ''/'' @ dst @ '' 2>'' @ dir @ ''/'' @ dst @ ''_stderr'') (n_files w1)
      in Some (result, w1\<lparr>n_files := files\<rparr>)) \<and>
   node_executeMapRutine E routine n dst w =
     (let dir = cf_tmpDir (n_cfg w);
          (created, w1) = node_createExecutableFileFromString E (dir @ ''/'' @ dst @ ''_maprutine'') (Some routine) w
      in if created then do {
           block \<leftarrow> node_getBlock E n w1;
           node_popen_write E (dir @ ''/'' @ dst @ ''_maprutine | sort >'' @ dir @ ''/'' @ dst @ '' 2>'' @
             dir @ ''/'' @ dst @ ''_stderr'') block w1
         } else Some (False, w1))"
  unfolding node_executeReduceRutine_def node_executeMapRutine_def Let_def
  by (simp add: buffers split: prod.split)

lemma put_contents_all:
  assumes "\<And>old bs. x_fputs E path old bs = (True, old @ bs)" and "\<forall>t \<in> set ss. c_string t" and "files path = Some c"
  shows "put_contents E path (map (\<lambda>t. Some (str_bytes t @ [0])) ss) False files =
    Some (False, files(path \<mapsto> c @ concat (map str_bytes ss)))"
  using assms(2,3)
proof (induction ss arbitrary: files c)
  case (Cons t ss)
  then have "c_bytes (str_bytes t @ [0]) = Some (str_bytes t)"
    using takeWhile_str_bytes [of t "[]"] by (simp add: c_bytes_def)
  with Cons show ?case by (simp add: fputs_file_def assms(1) fun_eq_iff)
qed (auto simp: fun_upd_idem)

lemma concat_no_zero: "\<forall>t \<in> set ss. c_string t \<Longrightarrow> 0 \<notin> set (concat (map str_bytes ss))"
  using c_string_no_zero by auto

text \<open>A temporary file reads back as it was written, except when its size is a multiple of a
  page. Joining parts into a file writes their texts one after another; asking for that file
  then gives this text, but crashes the node (undefined) when the text is empty or ends at the
  end of a page.\<close>

theorem tmp_file_roundtrip:
  assumes "x_fopen E (cf_tmpDir (n_cfg w) @ ''/'' @ name)" and "\<And>path old bs. x_fputs E path old bs = (True, old @ bs)"
    and "\<And>n. 0 < n \<Longrightarrow> x_mmap E n" and "\<And>n. x_pad E n" and "\<forall>t \<in> set ss. c_string t"
  shows "\<exists>w'. node_createTmpFileFromStringList E name (map (\<lambda>t. Some (str_bytes t @ [0])) ss) w = Some (True, w') \<and>
    node_getTmpFileContent E name w' =
      (let text = concat (map str_bytes ss) in if length text mod x_page E = 0 then None
       else Some (Some (text @ [0])))"
proof -
  let ?path = "cf_tmpDir (n_cfg w) @ ''/'' @ name" and ?text = "concat (map str_bytes ss)"
  let ?w' = "w\<lparr>n_files := (n_files w)(?path \<mapsto> ?text)\<rparr>"
  have "put_contents E ?path (map (\<lambda>t. Some (str_bytes t @ [0])) ss) False ((n_files w)(?path \<mapsto> [])) =
      Some (False, (n_files w)(?path \<mapsto> ?text))"
    using put_contents_all [OF assms(2,5), of "(n_files w)(?path \<mapsto> [])" ?path "[]"] by simp
  then have "node_createTmpFileFromStringList E name (map (\<lambda>t. Some (str_bytes t @ [0])) ss) w = Some (True, ?w')"
    using assms(1) by (simp add: node_createTmpFileFromStringList_def buffers)
  moreover have "node_getTmpFileContent E name ?w' =
      (if length u mod x_page E = 0 then None else Some (Some (u @ [0])))" if "u = ?text" for u
  proof -
    have "0 \<notin> set u" using concat_no_zero [OF assms(5)] that by simp
    then have "takeWhile (\<lambda>b. b \<noteq> 0) u = u" "0 \<notin> set u"
      using takeWhile_eq_all_conv [of "\<lambda>b. b \<noteq> 0" u] by auto
    then show ?thesis using assms(3,4) by (cases u) (auto simp: node_getTmpFileContent_def Let_def that [symmetric])
  qed
  ultimately show ?thesis by (intro exI [of _ ?w']) (simp add: Let_def)
qed

theorem tmp_file_roundtrip_witness:
  "\<exists>w'. node_createTmpFileFromStringList (node_demo_env True) ''t'' [Some (str_bytes ''ab'' @ [0]), Some (str_bytes ''c'' @ [0])]
      (node_demo ((\<lambda>_. []), (\<lambda>_. []))) = Some (True, w') \<and>
    node_getTmpFileContent (node_demo_env True) ''t'' w' = Some (Some (str_bytes ''abc'' @ [0]))"
proof -
  let ?w = "node_demo ((\<lambda>_. []), (\<lambda>_. []))"
  have "x_fopen (node_demo_env True) (cf_tmpDir (n_cfg ?w) @ ''/'' @ ''t'')" by (simp add: node_demo_env_def)
  from tmp_file_roundtrip [OF this, of "[''ab'', ''c'']"] show ?thesis
    by (simp add: node_demo_env_def c_string_def Let_def) (simp add: str_bytes_def)
qed

lemma find_never: "List.find (\<lambda>i. False) xs = None"
  by (simp add: find_None_iff)

text \<open>C30. A node finds its blocks again. When the files and the locks can be made, a node that is
  not new starts exactly if its file has the size of its blocks, and has the blocks it had; a new
  node (or one without a file) starts with all bytes zero. With more than 102 blocks the
  size overflows an \<open>int\<close> and starting is undefined.\<close>

theorem init_keeps_or_clears:
  assumes "\<And>path. x_fopen E path" and "\<And>n. x_ftruncate E n" and "\<And>n. 0 < n \<Longrightarrow> x_mmap E n" and "\<And>i. x_lock_init E i"
    and "0 < cf_blocksCount (n_cfg w)"
  shows "let size = unat (cf_blocksCount (n_cfg w)) * BLOCK_SIZE in
    if 102 < unat (cf_blocksCount (n_cfg w)) then node_init E w = None
    else case n_bin w of
        Some mem \<Rightarrow>
          if cf_newNode (n_cfg w) then \<exists>w'. node_init E w = Some (True, w') \<and> nodo_ok w' \<and> n_bin w' = Some (replicate size 0)
          else if length mem = size then \<exists>w'. node_init E w = Some (True, w') \<and> nodo_ok w' \<and> n_bin w' = Some mem
          else node_init E w = Some (False, w)
      | None \<Rightarrow> \<exists>w'. node_init E w = Some (True, w') \<and> nodo_ok w' \<and> n_bin w' = Some (replicate size 0)"
proof (cases "102 < unat (cf_blocksCount (n_cfg w))")
  case True
  then show ?thesis using assms(1) by (simp add: node_init_def node_getBinFileSize_def times_BLOCK_SIZE_eq)
next
  case False
  let ?c = "unat (cf_blocksCount (n_cfg w))"
  have size: "node_getBinFileSize w = Some (?c * BLOCK_SIZE)" "0 < ?c * BLOCK_SIZE"
    using False assms(5) by (simp_all add: node_getBinFileSize_def times_BLOCK_SIZE_eq unat_gt_0 word_gt_0)
  have run: "node_init E w = Some (True, w\<lparr>n_bin := Some (if createFile then replicate (?c * BLOCK_SIZE) 0 else mem),
      n_map := Mapped, n_locks := ?c\<rparr>)"
    if "createFile = (cf_newNode (n_cfg w) \<or> n_bin w = None)" "\<not> createFile \<Longrightarrow> n_bin w = Some mem"
      "\<not> createFile \<Longrightarrow> length mem = ?c * BLOCK_SIZE" for createFile mem
    using that size assms(1-4) by (auto simp: node_init_def find_never Let_def split: option.split)
  have ok: "nodo_ok (w\<lparr>n_bin := Some m, n_map := Mapped, n_locks := ?c\<rparr>)" if "length m = ?c * BLOCK_SIZE" for m
    using that False by (simp add: nodo_ok_def)
  have bad: "node_init E w = Some (False, w)"
    if "n_bin w = Some mem" "\<not> cf_newNode (n_cfg w)" "length mem \<noteq> ?c * BLOCK_SIZE" for mem
    using that size assms(1) by (simp add: node_init_def)
  show ?thesis
  proof (cases "n_bin w")
    case None
    from False run [of True] ok [of "replicate (?c * BLOCK_SIZE) 0"] None show ?thesis by (simp add: Let_def)
  next
    case (Some mem)
    with False run [of True mem] run [of False mem] ok [of "replicate (?c * BLOCK_SIZE) 0"] ok [of mem] bad
    show ?thesis by (cases "cf_newNode (n_cfg w)") (simp_all add: Let_def)
  qed
qed

theorem init_keeps_or_clears_witness:
  "\<exists>w'. node_init (node_demo_env True) (node_demo ((\<lambda>_. []), (\<lambda>_. []))) = Some (True, w') \<and>
     n_bin w' = n_bin (node_demo ((\<lambda>_. []), (\<lambda>_. [])))"
proof -
  let ?w = "node_demo ((\<lambda>_. []), (\<lambda>_. []))"
  have "0 < cf_blocksCount (n_cfg ?w)" by (simp add: node_demo_def node_demo_cfg_def)
  from init_keeps_or_clears [OF _ _ _ _ this, of "node_demo_env True"] show ?thesis
    by (auto simp: node_demo_simps Let_def)
qed

end
