(* ===== verification/Nodo_Connections.thy ===== *)
theory Nodo_Connections
  imports Nodo
begin

text \<open>
  \<open>Nodo/src/connections\<close>: what a storage node answers. \<open>connections_fs.c\<close>: it introduces itself
  to the file system and serves its requests one after another. \<open>connections_job.c\<close>: a map or a
  reduce asked for by a job; a reduce first gathers its input from other nodes, one thread per
  temporary file. \<open>connections_node.c\<close>: asking another node for a temporary file, and
  answering. \<open>connections.c\<close>: the listener.

  A request is parsed with readers that are \<^const>\<open>None\<close> past the end of the packet. The threads
  of a reduce run in any order: a schedule chooses at each step between creating the next
  thread and letting a running one finish. The flag \<open>exitFsConnections\<close>, set when the process
  shuts down, is not modelled, nor is the closing of descriptors.
\<close>

section \<open>Temporary files of other nodes\<close>

record node_connection_getTmpFileOperation_t =
  go_nodeId :: string
  go_ip :: string
  go_port :: u16
  go_tmpFileName :: string

definition node_connection_getTmpFileOperation_create ::
    "string \<Rightarrow> string \<Rightarrow> u16 \<Rightarrow> string \<Rightarrow> node_connection_getTmpFileOperation_t" where
  "node_connection_getTmpFileOperation_create nodeId ip port tmpFileName =
     \<lparr>go_nodeId = nodeId, go_ip = ip, go_port = port, go_tmpFileName = tmpFileName\<rparr>"

definition nodo_connections_node_getFileContent :: "'n node_env \<Rightarrow> node_connection_getTmpFileOperation_t \<Rightarrow>
    'n node_world \<Rightarrow> (byte list option \<times> 'n node_world) option" where
  "nodo_connections_node_getFileContent E operation w =
     (case x_connect E (go_ip operation) (go_port operation) (n_net w) of (socket, net1) \<Rightarrow>
        if socket \<ge> 0 then do {
          (r, net2) \<leftarrow> socket_handshake_to_server (x_os E) socket HANDSHAKE_NODO HANDSHAKE_NODO net1;
          (if HANDSHAKE_NODO \<noteq> r then Some (None, w\<lparr>n_net := net2\<rparr>)
           else
             let sTmpName = word_of_nat (length (go_tmpFileName operation)) :: u32;
                 buffer = COMMAND_NODE_GET_TMP_FILE_CONTENT # be32 sTmpName @
                   take (unat sTmpName) (str_bytes (go_tmpFileName operation));
                 (status, net3) = socket_send_packet (x_os E) socket (Some buffer) net2
             in if 0 > status_code status then Some (None, w\<lparr>n_net := net3\<rparr>)
                else (case socket_recv_packet (x_os E) socket (word_of_nat (length buffer)) net3 of
                        (status, packet, _, net4) \<Rightarrow>
                          if 0 > status_code status then Some (None, w\<lparr>n_net := net4\<rparr>)
                          else Some (packet, w\<lparr>n_net := net4\<rparr>)))
        }
        else Some (None, w\<lparr>n_net := net1\<rparr>))"

text \<open>The name in a request; then the file, with its NUL. There is no answer for a file that
  cannot be opened: \<open>strlen(NULL)\<close>.\<close>

definition getFileContent_request :: "byte list \<Rightarrow> string option" where
  "getFileContent_request buffer =
     do {
       (_, r) \<leftarrow> get_u8 buffer;
       (sTmpName, r) \<leftarrow> get_u32 r;
       (tmpName, _) \<leftarrow> get_str (unat sTmpName) r;
       Some tmpName
     }"

definition connections_deserializeGetFileContent :: "'n node_env \<Rightarrow> int \<Rightarrow> byte list \<Rightarrow> 'n node_world \<Rightarrow>
    'n node_world option" where
  "connections_deserializeGetFileContent E socket buffer w =
     do {
       tmpName \<leftarrow> getFileContent_request buffer;
       tmpFileContent \<leftarrow> node_getTmpFileContent E tmpName w;
       content \<leftarrow> tmpFileContent;
       Some (w\<lparr>n_net := snd (socket_send_packet (x_os E) socket (Some content) (n_net w))\<rparr>)
     }"

definition connections_node_listenActions :: "'n node_env \<Rightarrow> int \<Rightarrow> 'n node_world \<Rightarrow> 'n node_world option" where
  "connections_node_listenActions E socket w =
     (case socket_recv_packet (x_os E) socket 0 (n_net w) of (status, buffer, _, net) \<Rightarrow>
        let w1 = w\<lparr>n_net := net\<rparr> in
        if 0 > status_code status then Some w1
        else do {
          b \<leftarrow> buffer;
          (command, _) \<leftarrow> get_u8 b;
          (if command = COMMAND_NODE_GET_TMP_FILE_CONTENT then connections_deserializeGetFileContent E socket b w1
           else Some w1)
        })"

section \<open>The file system\<close>

definition connections_fs_setDisconnected :: "'n node_world \<Rightarrow> 'n node_world" where
  "connections_fs_setDisconnected w = w\<lparr>n_fsSocket := -1\<rparr>"

definition connections_fs_setConnectionLost :: "'n node_world \<Rightarrow> 'n node_world" where
  "connections_fs_setConnectionLost w = connections_fs_setDisconnected w"

definition connections_fs_deserializeSetBlock :: "'n node_env \<Rightarrow> byte list \<Rightarrow> 'n node_world \<Rightarrow> 'n node_world option" where
  "connections_fs_deserializeSetBlock E buffer w =
     do {
       (_, r) \<leftarrow> get_u8 buffer;
       (numBlock, _) \<leftarrow> get_u16 r;
       (_, w1) \<leftarrow> node_setBlockFromPacket E numBlock (n_fsSocket w) w;
       Some w1
     }"

text \<open>The text of the block is sent, without a NUL.\<close>

definition connections_fs_deserializeGetBlock :: "'n node_env \<Rightarrow> byte list \<Rightarrow> 'n node_world \<Rightarrow> 'n node_world option" where
  "connections_fs_deserializeGetBlock E buffer w =
     do {
       (_, r) \<leftarrow> get_u8 buffer;
       (numBlock, _) \<leftarrow> get_u16 r;
       blockData \<leftarrow> node_getBlock E numBlock w;
       str \<leftarrow> c_bytes blockData;
       (case socket_send_packet (x_os E) (n_fsSocket w) (Some str) (n_net w) of (status, net) \<Rightarrow>
          let w1 = w\<lparr>n_net := net\<rparr>
          in Some (if status \<noteq> SOCKET_ERROR_NONE then connections_fs_setConnectionLost w1 else w1))
     }"

text \<open>One turn of the loop: whether it goes on, and the state.\<close>

definition fs_listen_turn :: "'n node_env \<Rightarrow> 'n node_world \<Rightarrow> (bool \<times> 'n node_world) option" where
  "fs_listen_turn E w =
     (case socket_recv_packet (x_os E) (n_fsSocket w) 0 (n_net w) of (status, buffer, _, net) \<Rightarrow>
        let w1 = w\<lparr>n_net := net\<rparr> in
        if 0 > status_code status then Some (False, connections_fs_setConnectionLost w1)
        else do {
          b \<leftarrow> buffer;
          (command, _) \<leftarrow> get_u8 b;
          w2 \<leftarrow> (if command = COMMAND_FS_TO_NODE_SET_BLOCK then connections_fs_deserializeSetBlock E b w1
                  else if command = COMMAND_FS_TO_NODE_GET_BLOCK then connections_fs_deserializeGetBlock E b w1
                  else if command = COMMAND_NODE_GET_TMP_FILE_CONTENT
                    then connections_deserializeGetFileContent E (n_fsSocket w1) b w1
                  else Some w1);
          Some (True, w2)
        })"

partial_function (option) connections_fs_listenActions :: "'n node_env \<Rightarrow> 'n node_world \<Rightarrow> 'n node_world option" where
  "connections_fs_listenActions E w =
     Option.bind (fs_listen_turn E w) (\<lambda>r. if fst r then connections_fs_listenActions E (snd r) else Some (snd r))"

definition sendInfo_bytes :: "t_nodeCfg \<Rightarrow> byte list option" where
  "sendInfo_bytes cfg =
     do {
       name \<leftarrow> cf_name cfg;
       let sName = (word_of_nat (length name) :: u16);
       Some ((if cf_newNode cfg then 1 else 0) # be16 (cf_blocksCount cfg) @ be16 (cf_listenPort cfg) @ be16 sName @
         take (unat sName) (str_bytes name))
     }"

definition connections_fs_sendInfo :: "'n node_env \<Rightarrow> 'n node_world \<Rightarrow> 'n node_world option" where
  "connections_fs_sendInfo E w =
     do {
       pBuffer \<leftarrow> sendInfo_bytes (n_cfg w);
       (case socket_send_packet (x_os E) (n_fsSocket w) (Some pBuffer) (n_net w) of (status, net) \<Rightarrow>
          let w1 = w\<lparr>n_net := net\<rparr>
          in if 0 > status_code status then Some (connections_fs_setConnectionLost w1)
             else connections_fs_listenActions E w1)
     }"

text \<open>\<open>while (0 > fsSocket) fsSocket = socket_connect(...)\<close>.\<close>

partial_function (option) connect_until :: "'n node_env \<Rightarrow> 'n node_world \<Rightarrow> 'n node_world option" where
  "connect_until E w =
     (if 0 > n_fsSocket w
      then connect_until E (w\<lparr>n_fsSocket := fst (x_connect E (cf_fsIp (n_cfg w)) (cf_fsPort (n_cfg w)) (n_net w)),
        n_net := snd (x_connect E (cf_fsIp (n_cfg w)) (cf_fsPort (n_cfg w)) (n_net w))\<rparr>)
      else Some w)"

text \<open>One turn of the outer loop of the thread.\<close>

definition connections_fs_connect :: "'n node_env \<Rightarrow> 'n node_world \<Rightarrow> 'n node_world option" where
  "connections_fs_connect E w =
     (if 0 > n_fsSocket w then do {
        w1 \<leftarrow> connect_until E w;
        (r, net) \<leftarrow> socket_handshake_to_server (x_os E) (n_fsSocket w1) HANDSHAKE_FILESYSTEM HANDSHAKE_NODO (n_net w1);
        let w2 = w1\<lparr>n_net := net\<rparr>;
        (if HANDSHAKE_FILESYSTEM \<noteq> r then Some (connections_fs_setDisconnected w2)
         else connections_fs_sendInfo E w2)
      } else Some w)"

section \<open>Jobs: map\<close>

definition deserializeMap_request :: "byte list \<Rightarrow> (u16 \<times> string \<times> string) option" where
  "deserializeMap_request buffer =
     do {
       (_, r) \<leftarrow> get_u8 buffer;
       (numBlock, r) \<leftarrow> get_u16 r;
       (sMapRutine, r) \<leftarrow> get_u32 r;
       (mapRutine, r) \<leftarrow> get_str (unat sMapRutine) r;
       (sTmpName, r) \<leftarrow> get_u32 r;
       (tmpName, _) \<leftarrow> get_str (unat sTmpName) r;
       Some (numBlock, mapRutine, tmpName)
     }"

definition connections_job_deserializeMap :: "'n node_env \<Rightarrow> int \<Rightarrow> byte list \<Rightarrow> 'n node_world \<Rightarrow> 'n node_world option" where
  "connections_job_deserializeMap E socket buffer w =
     do {
       (numBlock, mapRutine, tmpName) \<leftarrow> deserializeMap_request buffer;
       (result, w1) \<leftarrow> node_executeMapRutine E mapRutine numBlock tmpName w;
       let ok = (if result then [1] else [0]);
       Some (w1\<lparr>n_net := snd (socket_send_packet (x_os E) socket (Some ok) (n_net w1))\<rparr>)
     }"

section \<open>Jobs: reduce\<close>

text \<open>A name in an array of 60 bytes.\<close>

definition get_name60 :: "byte list \<Rightarrow> (string \<times> byte list) option" where
  "get_name60 bs = do { (h, r) \<leftarrow> get_bytes 60 bs; if 0 \<in> set h then Some (cstr h, r) else None }"

definition get_operation :: "byte list \<Rightarrow> (node_connection_getTmpFileOperation_t \<times> byte list) option" where
  "get_operation bs =
     do {
       (sNodeId, r) \<leftarrow> get_u16 bs;
       (nodeId, r) \<leftarrow> get_str (unat sNodeId) r;
       (sNodeIp, r) \<leftarrow> get_u16 r;
       (nodeIp, r) \<leftarrow> get_str (unat sNodeIp) r;
       (nodePort, r) \<leftarrow> get_u16 r;
       (tmpFileName, r) \<leftarrow> get_name60 r;
       Some (node_connection_getTmpFileOperation_create nodeId nodeIp nodePort tmpFileName, r)
     }"

fun get_operations :: "nat \<Rightarrow> byte list \<Rightarrow> node_connection_getTmpFileOperation_t list option" where
  "get_operations 0 bs = Some []"
| "get_operations (Suc n) bs = do { (op, r) \<leftarrow> get_operation bs; ops \<leftarrow> get_operations n r; Some (op # ops) }"

definition deserializeReduce_request :: "byte list \<Rightarrow> (string \<times> string \<times> node_connection_getTmpFileOperation_t list) option" where
  "deserializeReduce_request buffer =
     do {
       (_, r) \<leftarrow> get_u8 buffer;
       (sReduceRutine, r) \<leftarrow> get_u32 r;
       (reduceRutine, r) \<leftarrow> get_str (unat sReduceRutine) r;
       (sTmpName, r) \<leftarrow> get_u32 r;
       (finalTmpName, r) \<leftarrow> get_str (unat sTmpName) r;
       (countTemps, r) \<leftarrow> get_u16 r;
       ops \<leftarrow> get_operations (unat countTemps) r;
       Some (reduceRutine, finalTmpName, ops)
     }"

text \<open>The state of the gathering: operations without a thread yet, running threads, and the
  variables the threads share.\<close>

record gathering =
  ga_todo :: "node_connection_getTmpFileOperation_t list"
  ga_running :: "node_connection_getTmpFileOperation_t list"
  ga_parts :: "byte list option list"
  ga_failed :: bool
  ga_nodeIdFailed :: "string option"

definition addPartToList :: "byte list option \<Rightarrow> string \<Rightarrow> gathering \<Rightarrow> gathering" where
  "addPartToList part nodeId g =
     (let g1 = (if part = None then g\<lparr>ga_failed := True, ga_nodeIdFailed := Some nodeId\<rparr> else g)
      in g1\<lparr>ga_parts := ga_parts g1 @ [part]\<rparr>)"

definition getTmpFileFromNode :: "'n node_env \<Rightarrow> node_connection_getTmpFileOperation_t \<Rightarrow> 'n node_world \<Rightarrow>
    (byte list option \<times> 'n node_world) option" where
  "getTmpFileFromNode E operation w =
     do {
       name \<leftarrow> cf_name (n_cfg w);
       (if name = go_nodeId operation
        then map_option (\<lambda>tmpFile. (tmpFile, w)) (node_getTmpFileContent E (go_tmpFileName operation) w)
        else nodo_connections_node_getFileContent E operation w)
     }"

definition runOperation :: "'n node_env \<Rightarrow> node_connection_getTmpFileOperation_t \<Rightarrow> gathering \<Rightarrow> gathering" where
  "runOperation E operation g =
     (if ga_failed g then g
      else if \<not> x_thread E (go_nodeId operation) then g\<lparr>ga_failed := True\<rparr>
      else g\<lparr>ga_running := ga_running g @ [operation]\<rparr>)"

definition finish_thread :: "'n node_env \<Rightarrow> nat \<Rightarrow> gathering \<times> 'n node_world \<Rightarrow> (gathering \<times> 'n node_world) option" where
  "finish_thread E k s =
     (case s of (g, w) \<Rightarrow> do {
        let operation = ga_running g ! k;
        (part, w1) \<leftarrow> getTmpFileFromNode E operation w;
        Some (addPartToList part (go_nodeId operation)
          (g\<lparr>ga_running := take k (ga_running g) @ drop (Suc k) (ga_running g)\<rparr>), w1)
      })"

text \<open>The choice \<open>c\<close> picks the main thread or one of those that run; when all are created the
  main thread waits for the rest.\<close>

definition gather_step :: "'n node_env \<Rightarrow> nat \<Rightarrow> gathering \<times> 'n node_world \<Rightarrow> (gathering \<times> 'n node_world) option" where
  "gather_step E c s =
     (case s of (g, w) \<Rightarrow>
        (case ga_todo g of
           [] \<Rightarrow> if ga_running g = [] then Some s else finish_thread E (c mod length (ga_running g)) s
         | operation # todo \<Rightarrow>
             let k = c mod Suc (length (ga_running g))
             in if k = 0 then Some (runOperation E operation (g\<lparr>ga_todo := todo\<rparr>), w)
                else finish_thread E (k - 1) s))"

text \<open>Each operation takes at most two steps, its creation and its end.\<close>

definition gather :: "'n node_env \<Rightarrow> (nat \<Rightarrow> nat) \<Rightarrow> node_connection_getTmpFileOperation_t list \<Rightarrow> 'n node_world \<Rightarrow>
    (gathering \<times> 'n node_world) option" where
  "gather E schedule ops w =
     fold_opt (gather_step E) (map schedule [0..<2 * length ops])
       (\<lparr>ga_todo = ops, ga_running = [], ga_parts = [], ga_failed = False, ga_nodeIdFailed = None\<rparr>, w)"

text \<open>The name of the file to reduce (if the parts could be joined), the failed node and the state.\<close>

definition join_parts :: "'n node_env \<Rightarrow> (nat \<Rightarrow> nat) \<Rightarrow> string \<Rightarrow> node_connection_getTmpFileOperation_t list \<Rightarrow>
    'n node_world \<Rightarrow> (string option \<times> string option \<times> 'n node_world) option" where
  "join_parts E schedule finalTmpName ops w =
     do {
       (g, w1) \<leftarrow> gather E schedule ops w;
       (if ga_failed g then Some (None, ga_nodeIdFailed g, w1)
        else do {
          tmpFileNameJoined \<leftarrow> str_in (length finalTmpName + 20) (finalTmpName @ ''_prereduce_joined'');
          (created, w2) \<leftarrow> node_createTmpFileFromStringList E tmpFileNameJoined (ga_parts g) w1;
          Some (if created then Some tmpFileNameJoined else None, ga_nodeIdFailed g, w2)
        })
     }"

text \<open>Without a failed node the name of this one is sent, and freed.\<close>

definition reduce_answer :: "bool \<Rightarrow> string option \<Rightarrow> 'n node_world \<Rightarrow> (byte list \<times> 'n node_world) option" where
  "reduce_answer ok nodeIdFailed w =
     (if ok then Some ([1], w)
      else do {
        nodeId \<leftarrow> (case nodeIdFailed of Some i \<Rightarrow> Some i | None \<Rightarrow> cf_name (n_cfg w));
        let sNodeId = (word_of_nat (length nodeId) :: u16);
        let w' = (if nodeIdFailed = None then w\<lparr>n_cfg := (n_cfg w)\<lparr>cf_name := None\<rparr>\<rparr> else w);
        Some (0 # be16 sNodeId @ take (unat sNodeId) (str_bytes nodeId), w')
      })"

definition connections_job_deserializeReduce :: "'n node_env \<Rightarrow> (nat \<Rightarrow> nat) \<Rightarrow> int \<Rightarrow> byte list \<Rightarrow> 'n node_world \<Rightarrow>
    'n node_world option" where
  "connections_job_deserializeReduce E schedule socket buffer w =
     do {
       (reduceRutine, finalTmpName, ops) \<leftarrow> deserializeReduce_request buffer;
       mine \<leftarrow> (case ops of [op] \<Rightarrow> map_option (\<lambda>name. name = go_nodeId op) (cf_name (n_cfg w)) | _ \<Rightarrow> Some False);
       (if \<not> mine \<and> \<not> x_mutex_init E then Some w
        else do {
          (tmpFileNameToReduce, nodeIdFailed, w1) \<leftarrow>
            (if mine then Some (Some (go_tmpFileName (hd ops)), None, w) else join_parts E schedule finalTmpName ops w);
          (ok, w2) \<leftarrow> (case tmpFileNameToReduce of
             Some f \<Rightarrow> node_executeReduceRutine E reduceRutine f finalTmpName w1
           | None \<Rightarrow> Some (False, w1));
          (bufferResponse, w3) \<leftarrow> reduce_answer ok nodeIdFailed w2;
          Some (w3\<lparr>n_net := snd (socket_send_packet (x_os E) socket (Some bufferResponse) (n_net w3))\<rparr>)
        })
     }"

definition connections_job_listenAction :: "'n node_env \<Rightarrow> (nat \<Rightarrow> nat) \<Rightarrow> int \<Rightarrow> 'n node_world \<Rightarrow> 'n node_world option" where
  "connections_job_listenAction E schedule socket w =
     (case socket_recv_packet (x_os E) socket 0 (n_net w) of (status, buffer, _, net) \<Rightarrow>
        let w1 = w\<lparr>n_net := net\<rparr> in
        if status = SOCKET_ERROR_NONE then do {
          b \<leftarrow> buffer;
          (command, _) \<leftarrow> get_u8 b;
          (if command = COMMAND_MAP then connections_job_deserializeMap E socket b w1
           else if command = COMMAND_REDUCE then connections_job_deserializeReduce E schedule socket b w1
           else Some w1)
        }
        else Some w1)"

section \<open>The listener\<close>

text \<open>One accepted connection: the thread it starts, run to its end.\<close>

definition connections_listenerThread :: "'n node_env \<Rightarrow> (nat \<Rightarrow> nat) \<Rightarrow> int \<Rightarrow> 'n node_world \<Rightarrow> 'n node_world option" where
  "connections_listenerThread E schedule socketAccepted w =
     (if 0 > socketAccepted then Some w
      else do {
        (handshake, net) \<leftarrow> socket_handshake_to_client (x_os E) socketAccepted HANDSHAKE_NODO
          (HANDSHAKE_JOB OR HANDSHAKE_NODO) (n_net w);
        let w1 = w\<lparr>n_net := net\<rparr>;
        (if handshake = HANDSHAKE_JOB \<and> x_thread E ''connections_job_accept''
         then connections_job_listenAction E schedule socketAccepted w1
         else if handshake = HANDSHAKE_NODO \<and> x_thread E ''connections_node_accept''
         then connections_node_listenActions E socketAccepted w1
         else Some w1)
      })"

section \<open>What a reduce gathers\<close>

lemma node_getTmpFileContent_cong:
  "n_files w' = n_files w \<Longrightarrow> n_cfg w' = n_cfg w \<Longrightarrow> node_getTmpFileContent E t w' = node_getTmpFileContent E t w"
  by (simp add: node_getTmpFileContent_def Let_def)

lemma nodo_getFileContent_frame:
  "nodo_connections_node_getFileContent E op w = Some (p, w') \<Longrightarrow> n_files w' = n_files w \<and> n_cfg w' = n_cfg w \<and> n_bin w' = n_bin w"
  by (auto simp: nodo_connections_node_getFileContent_def Let_def bind_eq_Some_conv split: prod.splits if_splits)

lemma getTmpFileFromNode_frame:
  assumes "getTmpFileFromNode E op w = Some (p, w')"
  shows "n_files w' = n_files w \<and> n_cfg w' = n_cfg w"
    and "cf_name (n_cfg w) = Some (go_nodeId op) \<Longrightarrow> node_getTmpFileContent E (go_tmpFileName op) w = Some p"
  using assms by (auto simp: getTmpFileFromNode_def bind_eq_Some_conv split: if_splits dest!: nodo_getFileContent_frame)

definition ga_left :: "gathering \<Rightarrow> nat" where
  "ga_left g = 2 * length (ga_todo g) + length (ga_running g)"

text \<open>The operations whose part arrived, with the part, in the order of arrival.\<close>

definition ga_ok :: "'n node_env \<Rightarrow> node_connection_getTmpFileOperation_t list \<Rightarrow> 'n node_world \<Rightarrow> gathering \<times> 'n node_world \<Rightarrow> bool" where
  "ga_ok E ops w0 s \<longleftrightarrow> (case s of (g, w) \<Rightarrow> n_files w = n_files w0 \<and> n_cfg w = n_cfg w0 \<and>
     set (ga_todo g) \<subseteq> set ops \<and> set (ga_running g) \<subseteq> set ops \<and>
     (case ga_nodeIdFailed g of Some i \<Rightarrow> ga_failed g \<and> i \<in> go_nodeId ` set ops
      | None \<Rightarrow> ga_failed g \<longrightarrow> (\<exists>op \<in> set ops. \<not> x_thread E (go_nodeId op))) \<and>
     (ga_failed g \<or> (\<exists>fin. mset (ga_todo g) + mset (ga_running g) + mset (map fst fin) = mset ops \<and>
        ga_parts g = map (\<lambda>(op, p). Some p) fin \<and>
        (\<forall>(op, p) \<in> set fin. cf_name (n_cfg w0) = Some (go_nodeId op) \<longrightarrow>
          node_getTmpFileContent E (go_tmpFileName op) w0 = Some (Some p)))))"

lemma finish_thread_ok:
  assumes "ga_ok E ops w0 (g, w)" and k: "k < length (ga_running g)" and "finish_thread E k (g, w) = Some s'"
  shows "ga_ok E ops w0 s' \<and> ga_left (fst s') < ga_left g"
proof -
  let ?op = "ga_running g ! k" and ?run = "take k (ga_running g) @ drop (Suc k) (ga_running g)"
  obtain part w1 where part: "getTmpFileFromNode E ?op w = Some (part, w1)"
    and s': "s' = (addPartToList part (go_nodeId ?op) (g\<lparr>ga_running := ?run\<rparr>), w1)"
    using assms(3) by (auto simp: finish_thread_def Let_def bind_eq_Some_conv)
  have run: "ga_running g = take k (ga_running g) @ ?op # drop (Suc k) (ga_running g)"
    by (rule id_take_nth_drop [OF k])
  have mset: "mset (ga_running g) = add_mset ?op (mset ?run)"
    by (subst run) (simp only: mset_append mset.simps union_mset_add_mset_right)
  then have sub: "set ?run \<subseteq> set (ga_running g)" "?op \<in> set (ga_running g)" using k
    by (auto dest: in_set_takeD in_set_dropD)
  have left: "ga_left (fst s') < ga_left g" using k by (cases part) (auto simp: s' ga_left_def addPartToList_def)
  note fr = getTmpFileFromNode_frame [OF part]
  have w: "n_files w = n_files w0" "n_cfg w = n_cfg w0" "?op \<in> set ops" using assms(1) sub(2) by (auto simp: ga_ok_def)
  show ?thesis
  proof (cases part)
    case None
    then show ?thesis using assms(1) sub fr(1) left w by (auto simp: ga_ok_def s' addPartToList_def split: option.splits)
  next
    case (Some p)
    have own: "cf_name (n_cfg w0) = Some (go_nodeId ?op) \<longrightarrow> node_getTmpFileContent E (go_tmpFileName ?op) w0 = Some (Some p)"
      using fr(2) w node_getTmpFileContent_cong [OF w(1,2)] Some by simp
    show ?thesis
    proof (cases "ga_failed g")
      case True
      then show ?thesis using assms(1) sub fr(1) left w Some by (auto simp: ga_ok_def s' addPartToList_def split: option.splits)
    next
      case False
      with assms(1) obtain fin where fin: "mset (ga_todo g) + mset (ga_running g) + mset (map fst fin) = mset ops"
        "ga_parts g = map (\<lambda>(op, p). Some p) fin"
        "\<forall>(op, p) \<in> set fin. cf_name (n_cfg w0) = Some (go_nodeId op) \<longrightarrow> node_getTmpFileContent E (go_tmpFileName op) w0 = Some (Some p)"
        by (auto simp: ga_ok_def)
      have "mset (ga_todo g) + mset ?run + mset (map fst (fin @ [(?op, p)])) = mset ops"
        using fin(1) unfolding mset by simp
      with fin own have "\<exists>fin. mset (ga_todo g) + mset ?run + mset (map fst fin) = mset ops \<and>
          ga_parts g @ [Some p] = map (\<lambda>(op, p). Some p) fin \<and>
          (\<forall>(op, p) \<in> set fin. cf_name (n_cfg w0) = Some (go_nodeId op) \<longrightarrow> node_getTmpFileContent E (go_tmpFileName op) w0 = Some (Some p))"
        by (intro exI [of _ "fin @ [(?op, p)]"]) auto
      then show ?thesis using assms(1) sub fr(1) left False Some
        by (auto simp: ga_ok_def s' addPartToList_def simp del: mset_append split: option.splits)
    qed
  qed
qed

lemma gather_step_ok:
  assumes "ga_ok E ops w0 s" and "gather_step E c s = Some s'"
  shows "ga_ok E ops w0 s' \<and> (ga_left (fst s') < ga_left (fst s) \<or> ga_left (fst s) = 0 \<and> s' = s)"
proof -
  obtain g w where s: "s = (g, w)" by (cases s)
  show ?thesis
  proof (cases "ga_todo g")
    case Nil
    show ?thesis
    proof (cases "ga_running g = []")
      case True
      with Nil assms show ?thesis by (auto simp: s gather_step_def ga_left_def)
    next
      case False
      then have "c mod length (ga_running g) < length (ga_running g)" by simp
      with finish_thread_ok [OF assms(1) [unfolded s] this] assms(2) Nil False show ?thesis by (simp add: s gather_step_def)
    qed
  next
    case (Cons op todo)
    let ?k = "c mod Suc (length (ga_running g))"
    show ?thesis
    proof (cases "?k = 0")
      case False
      then have "?k - 1 < length (ga_running g)" using mod_less_divisor [of "Suc (length (ga_running g))" c] by linarith
      with finish_thread_ok [OF assms(1) [unfolded s] this] assms(2) Cons False show ?thesis by (simp add: s gather_step_def Let_def)
    next
      case True
      with assms(2) Cons have "s' = (runOperation E op (g\<lparr>ga_todo := todo\<rparr>), w)" by (simp add: s gather_step_def)
      moreover have "mset (ga_todo g) + R + M = mset todo + (R + {#op#}) + M" for R M using Cons by simp
      ultimately show ?thesis using assms(1) Cons
        by (auto simp: s ga_ok_def runOperation_def ga_left_def split: option.splits)
    qed
  qed
qed

lemma gather_steps_ok:
  "fold_opt (gather_step E) cs s = Some s' \<Longrightarrow> ga_ok E ops w0 s \<Longrightarrow> ga_ok E ops w0 s' \<and> ga_left (fst s') \<le> ga_left (fst s) - length cs"
proof (induction cs arbitrary: s)
  case (Cons c cs)
  then obtain u where u: "gather_step E c s = Some u" "fold_opt (gather_step E) cs u = Some s'" by (auto simp: bind_eq_Some_conv)
  from gather_step_ok [OF Cons.prems(2) u(1)] Cons.IH [OF u(2)] show ?case by auto
qed simp

text \<open>After two steps for each operation all threads have ended.\<close>

lemma gather_ends:
  assumes "gather E schedule ops w = Some (g, w')"
  shows "ga_ok E ops w (g, w')" "ga_todo g = []" "ga_running g = []"
proof -
  let ?g0 = "\<lparr>ga_todo = ops, ga_running = [], ga_parts = [], ga_failed = False, ga_nodeIdFailed = None\<rparr>"
  have "ga_ok E ops w (?g0, w)" by (auto simp: ga_ok_def)
  from gather_steps_ok [OF assms [unfolded gather_def] this]
  show "ga_ok E ops w (g, w')" "ga_todo g = []" "ga_running g = []" by (auto simp: ga_left_def)
qed

lemma put_contents_parts:
  assumes "\<And>path old bs. x_fputs E path old bs = (True, old @ bs)" and "files path = Some c"
    and "put_contents E path (map Some ps) False files = Some (failed, files')"
  shows "\<not> failed \<and> files' = files(path \<mapsto> c @ concat (map (takeWhile (\<lambda>b. b \<noteq> 0)) ps))"
  using assms(2,3)
proof (induction ps arbitrary: files c)
  case Nil
  then show ?case by (auto simp: fun_upd_idem)
next
  case (Cons p ps)
  from Cons.prems(2) have p: "0 \<in> set p" by (auto simp: c_bytes_def split: if_splits)
  let ?f = "files(path \<mapsto> c @ takeWhile (\<lambda>b. b \<noteq> 0) p)"
  have "put_contents E path (map Some ps) False ?f = Some (failed, files')"
    using Cons.prems p by (simp add: c_bytes_def fputs_file_def assms(1))
  from Cons.IH [OF _ this, of "c @ takeWhile (\<lambda>b. b \<noteq> 0) p"] show ?case by (simp add: fun_eq_iff)
qed


definition demo_operation :: node_connection_getTmpFileOperation_t where
  "demo_operation = node_connection_getTmpFileOperation_create ''n1'' ''10.0.0.1'' 6500 ''t''"

text \<open>The demonstration node with the file \<open>t\<close>.\<close>

definition node_demo_t :: "chunk_net \<Rightarrow> chunk_net node_world" where
  "node_demo_t net = (node_demo net)\<lparr>n_files := [''/tmp/t'' \<mapsto> [65]]\<rparr>"


section \<open>A reduce that fails\<close>

text \<open>A reduce whose shell cannot be started disables the node: when the one input file is
  the node's own, the answer names the node and frees that name, and from then on every
  reduce with one input file is undefined.\<close>

theorem failed_reduce_frees_name:
  assumes "deserializeReduce_request buffer = Some (routine, final, [op])" and "cf_name (n_cfg w) = Some (go_nodeId op)"
    and "\<And>cmd files. x_system E cmd files = (False, files)"
  shows "\<exists>w'. connections_job_deserializeReduce E schedule socket buffer w = Some w' \<and> cf_name (n_cfg w') = None \<and>
    (\<forall>schedule socket buffer routine final op. deserializeReduce_request buffer = Some (routine, final, [op]) \<longrightarrow>
      connections_job_deserializeReduce E schedule socket buffer w' = None)"
proof -
  have cfg: "n_cfg (snd (node_createExecutableFileFromString E p t w)) = n_cfg w" for p t
    by (simp add: node_createExecutableFileFromString_def Let_def)
  have "\<exists>w1. node_executeReduceRutine E routine (go_tmpFileName op) final w = Some (False, w1) \<and> n_cfg w1 = n_cfg w"
    by (simp add: node_executeReduceRutine_def buffers assms(3) cfg Let_def)
  then obtain w1 where w1: "node_executeReduceRutine E routine (go_tmpFileName op) final w = Some (False, w1)" "n_cfg w1 = n_cfg w"
    by blast
  then have "\<exists>w'. connections_job_deserializeReduce E schedule socket buffer w = Some w' \<and> cf_name (n_cfg w') = None"
    using assms(1,2) by (simp add: connections_job_deserializeReduce_def reduce_answer_def Let_def)
  then show ?thesis by (auto simp: connections_job_deserializeReduce_def)
qed

definition demo_reduce_request :: "byte list" where
  "demo_reduce_request = COMMAND_REDUCE # be32 1 @ str_bytes ''r'' @ be32 1 @ str_bytes ''f'' @ be16 1 @
     be16 2 @ str_bytes ''n1'' @ be16 1 @ str_bytes ''h'' @ be16 9 @ str_bytes ''t'' @ replicate 59 0"

lemma demo_reduce_parsed:
  "deserializeReduce_request demo_reduce_request =
     Some (''r'', ''f'', [node_connection_getTmpFileOperation_create ''n1'' ''h'' 9 ''t''])"
proof -
  have c: "c_string ''r''" "c_string ''f''" "c_string ''n1''" "c_string ''h''" "c_string ''t''" by (simp_all add: c_string_def)
  have "get_name60 (str_bytes ''t'' @ replicate 59 0) = Some (''t'', [])"
    using cstr_str_bytes_0 [OF c(5), of "replicate 58 0"]
    by (simp add: get_name60_def get_bytes_def replicate_eq_replicate numeral_eq_Suc)
  then show ?thesis
    by (simp add: deserializeReduce_request_def demo_reduce_request_def get_operation_def c)
qed

theorem failed_reduce_frees_name_witness:
  "\<exists>w'. connections_job_deserializeReduce ((node_demo_env True)\<lparr>x_system := \<lambda>_ files. (False, files)\<rparr>) (\<lambda>_. 0) 6 demo_reduce_request
     (node_demo ((\<lambda>_. []), (\<lambda>_. []))) = Some w' \<and> cf_name (n_cfg w') = None"
proof -
  let ?w = "node_demo ((\<lambda>_. []), (\<lambda>_. []))" and ?E = "(node_demo_env True)\<lparr>x_system := \<lambda>_ files. (False, files)\<rparr>"
  have "cf_name (n_cfg ?w) = Some (go_nodeId (node_connection_getTmpFileOperation_create ''n1'' ''h'' 9 ''t''))"
    by (simp add: node_demo_def node_demo_cfg_def node_connection_getTmpFileOperation_create_def)
  from failed_reduce_frees_name [OF demo_reduce_parsed this, of ?E "\<lambda>_. 0" 6] show ?thesis by auto
qed

end
