(* ===== verification/Nodo_MDFS.thy ===== *)
theory Nodo_MDFS
  imports Nodo_Connections FS_Membership
begin

text \<open>
  The file system and a storage node together: what one sends is what the other understands.
  The node that registers is the one that introduced itself; a block that the file system
  sends is the block it gets back, with no other block of the node changed.
\<close>

section \<open>Introduction\<close>

lemma sendInfo_deserialize:
  assumes "cf_name cfg = Some name" and "c_string name" and "length name < 2 ^ 16"
  shows "\<exists>p. sendInfo_bytes cfg = Some p \<and> packet_ok p \<and>
    node_deserialize p = Some (if cf_newNode cfg then 1 else 0, cf_blocksCount cfg, cf_listenPort cfg, name)"
proof -
  have len: "unat (word_of_nat (length name) :: u16) = length name"
    using assms(3) by (simp add: unat_of_nat take_bit_eq_mod)
  have "get_str (length name) (str_bytes name) = Some (name, [])" using assms(2) by (simp add: get_str_all)
  then show ?thesis using assms
    by (simp add: sendInfo_bytes_def node_deserialize_def Let_def len packet_ok_def)
qed

text \<open>A node is registered as what it said: when the file system receives the introduction that
  \<open>connections_fs_sendInfo\<close> writes, \<open>connections_node_accept\<close> puts its connection in standby under
  the node's name and port and adds the node with its number of blocks, as new or not.\<close>

theorem introduction_registers_node:
  assumes "reliable_os (e_os E) inp out" and "cf_name cfg = Some name" and "c_string name" and "length name < 2 ^ 16"
    and "sendInfo_bytes cfg = Some p" and "inp (w_net w) (nc_socket conn) = packet_bytes p @ rest"
  shows "\<exists>net. inp net (nc_socket conn) = rest \<and> out net = out (w_net w) \<and> connections_node_accept E conn w =
    filesystem_addNode E name (cf_blocksCount cfg) (cf_newNode cfg)
      (connections_node_setAcceptedNodeConnection name (conn\<lparr>nc_listenPort := Some (cf_listenPort cfg)\<rparr>) (w\<lparr>w_net := net\<rparr>))"
proof -
  from sendInfo_deserialize [OF assms(2-4)] assms(5) have p: "packet_ok p"
    "node_deserialize p = Some (if cf_newNode cfg then 1 else 0, cf_blocksCount cfg, cf_listenPort cfg, name)" by auto
  from reliable_os.recv_packet_reliable [OF assms(1,6) p(1)] obtain net where
    "socket_recv_packet (e_os E) (nc_socket conn) 0 (w_net w) = (SOCKET_ERROR_NONE, Some p, word_of_nat (length p), net)"
    "inp net (nc_socket conn) = rest" "out net = out (w_net w)" by blast
  then show ?thesis using p(2) by (auto simp: connections_node_accept_def w_recv_packet_def)
qed

theorem introduction_registers_node_witness:
  "\<exists>net p. sendInfo_bytes node_demo_cfg = Some p \<and>
     connections_node_accept (fs_env True) (connections_node_connection_create 5 ''10.0.0.1'')
       (world0\<lparr>w_net := ((\<lambda>_. packet_bytes p), (\<lambda>_. []))\<rparr>) =
     filesystem_addNode (fs_env True) ''n1'' 2 False (connections_node_setAcceptedNodeConnection ''n1''
       \<lparr>nc_socket = 5, nc_ip = ''10.0.0.1'', nc_listenPort = Some 6500\<rparr> (world0\<lparr>w_net := net\<rparr>))"
proof -
  have rel: "reliable_os (e_os (fs_env True)) fst snd" using chunk.reliable_os_axioms by (simp add: fs_env_def)
  obtain p where p: "sendInfo_bytes node_demo_cfg = Some p" by (simp add: sendInfo_bytes_def node_demo_cfg_def Let_def)
  let ?w = "world0\<lparr>w_net := ((\<lambda>_. packet_bytes p), (\<lambda>_. []))\<rparr>"
  let ?c = "connections_node_connection_create 5 ''10.0.0.1''"
  have "cf_name node_demo_cfg = Some ''n1''" "c_string ''n1''" "length ''n1'' < 2 ^ 16"
    "fst (w_net ?w) (nc_socket ?c) = packet_bytes p @ []"
    by (simp_all add: node_demo_cfg_def c_string_def)
  from introduction_registers_node [OF rel this(1-3) p this(4)] p show ?thesis
    by (auto simp: node_demo_cfg_def connections_node_connection_create_def)
qed

section \<open>Blocks\<close>

lemma takeWhile_no_zero: "0 \<notin> set (takeWhile (\<lambda>b. b \<noteq> 0) bs)"
  by (auto dest: set_takeWhileD)

lemma c_bytes_block: "0 \<notin> set d \<Longrightarrow> c_bytes (d @ 0 # r) = Some d"
  by (auto simp: c_bytes_def takeWhile_append)

text \<open>The turn that takes a SET\_BLOCK and the one that answers a GET\_BLOCK.\<close>

lemma listen_set_block:
  assumes rel: "reliable_os (x_os X) inp out" and ok: "nodo_ok v" and n: "unat n < unat (cf_blocksCount (n_cfg v))"
    and inp: "inp (n_net v) (n_fsSocket v) = packet_bytes (COMMAND_FS_TO_NODE_SET_BLOCK # be16 n) @ packet_bytes d @ rest"
    and d: "length d < BLOCK_SIZE"
  shows "\<exists>v1 old. fs_listen_turn X v = Some (True, v1) \<and> nodo_ok v1 \<and> n_fsSocket v1 = n_fsSocket v \<and>
    inp (n_net v1) (n_fsSocket v) = rest \<and> node_getBlock X n v1 = Some (d @ 0 # drop (length d + 1) old) \<and>
    (\<forall>m. m \<noteq> n \<longrightarrow> node_getBlock X m v1 = node_getBlock X m v) \<and> n_cfg v1 = n_cfg v"
proof -
  let ?cmd = "COMMAND_FS_TO_NODE_SET_BLOCK # be16 n"
  have "packet_ok ?cmd" by (simp add: packet_ok_def)
  from reliable_os.recv_packet_reliable [OF rel inp this] obtain net where
    r: "socket_recv_packet (x_os X) (n_fsSocket v) 0 (n_net v) = (SOCKET_ERROR_NONE, Some ?cmd, word_of_nat (length ?cmd), net)"
    and net: "inp net (n_fsSocket v) = packet_bytes d @ rest" by blast
  let ?v = "v\<lparr>n_net := net\<rparr>"
  have "nodo_ok ?v" "unat n < unat (cf_blocksCount (n_cfg ?v))" "inp (n_net ?v) (n_fsSocket v) = packet_bytes d @ rest"
    using ok n net by (simp_all add: nodo_ok_def)
  from node_stores_block' [OF rel this d] obtain v1 old where
    v1: "node_setBlockFromPacket X n (n_fsSocket v) ?v = Some (SOCKET_ERROR_NONE, v1)" "nodo_ok v1"
    "inp (n_net v1) (n_fsSocket v) = rest" "node_getBlock X n v1 = Some (d @ 0 # drop (length d + 1) old)"
    "\<forall>m. m \<noteq> n \<longrightarrow> node_getBlock X m v1 = node_getBlock X m ?v" "n_fsSocket v1 = n_fsSocket v" "n_cfg v1 = n_cfg v" by auto
  have get: "get_u16 (be16 n) = Some (n, [])" using get_u16_be16 [of n "[]"] by simp
  have "fs_listen_turn X v = Some (True, v1)"
    using v1(1) by (simp add: fs_listen_turn_def r connections_fs_deserializeSetBlock_def get)
  with v1 show ?thesis by auto
qed

lemma listen_get_block:
  assumes rel: "reliable_os (x_os X) inp out"
    and inp: "inp (n_net v) (n_fsSocket v) = packet_bytes (COMMAND_FS_TO_NODE_GET_BLOCK # be16 n) @ rest"
    and blk: "node_getBlock X n v = Some (d @ 0 # tail)" and d: "0 \<notin> set d"
  shows "\<exists>v1. fs_listen_turn X v = Some (True, v1) \<and> inp (n_net v1) (n_fsSocket v) = rest \<and>
    out (n_net v1) (n_fsSocket v) = out (n_net v) (n_fsSocket v) @ packet_bytes d \<and> n_bin v1 = n_bin v"
proof -
  let ?cmd = "COMMAND_FS_TO_NODE_GET_BLOCK # be16 n"
  have "packet_ok ?cmd" by (simp add: packet_ok_def)
  from reliable_os.recv_packet_reliable [OF rel inp this] obtain net where
    r: "socket_recv_packet (x_os X) (n_fsSocket v) 0 (n_net v) = (SOCKET_ERROR_NONE, Some ?cmd, word_of_nat (length ?cmd), net)"
    and net: "inp net (n_fsSocket v) = rest" "out net = out (n_net v)" by blast
  from reliable_os.send_packet_reliable [OF rel, of "n_fsSocket v" d net] obtain net' where
    s: "socket_send_packet (x_os X) (n_fsSocket v) (Some d) net = (SOCKET_ERROR_NONE, net')" "inp net' = inp net"
    "out net' (n_fsSocket v) = out net (n_fsSocket v) @ packet_bytes d" by blast
  have get: "get_u16 (be16 n) = Some (n, [])" using get_u16_be16 [of n "[]"] by simp
  have "node_getBlock X n (v\<lparr>n_net := net\<rparr>) = Some (d @ 0 # tail)"
    using blk by simp
  then have "fs_listen_turn X v = Some (True, v\<lparr>n_net := net'\<rparr>)"
    using s(1) by (simp add: fs_listen_turn_def r connections_fs_deserializeGetBlock_def get c_bytes_block [OF d]
        COMMAND_FS_TO_NODE_GET_BLOCK_def COMMAND_FS_TO_NODE_SET_BLOCK_def)
  with net s show ?thesis by simp
qed

lemma getBlock_receives:
  assumes rel: "reliable_os (e_os E) inp out" and c: "map_of (w_active w) (fb_nodeId fb) = Some c"
    and inp: "inp (w_net w) (nc_socket c) = packet_bytes d @ rest" and d: "packet_ok d"
  shows "\<exists>w'. connections_node_getBlock E fb w = (Some d, w') \<and>
    out (w_net w') (nc_socket c) = out (w_net w) (nc_socket c) @ packet_bytes (COMMAND_FS_TO_NODE_GET_BLOCK # be16 (fb_blockIndex fb)) \<and>
    w_active w' = w_active w"
proof -
  let ?cmd = "COMMAND_FS_TO_NODE_GET_BLOCK # be16 (fb_blockIndex fb)" and ?w1 = "connections_node_getNodeMutex (fb_nodeId fb) w"
  have w1: "w_net ?w1 = w_net w" "w_active ?w1 = w_active w" by (simp_all add: connections_node_getNodeMutex_def)
  from reliable_os.send_packet_reliable [OF rel, of "nc_socket c" ?cmd "w_net w"] obtain net where
    s: "socket_send_packet (e_os E) (nc_socket c) (Some ?cmd) (w_net w) = (SOCKET_ERROR_NONE, net)" "inp net = inp (w_net w)"
    "out net (nc_socket c) = out (w_net w) (nc_socket c) @ packet_bytes ?cmd" by blast
  have "inp net (nc_socket c) = packet_bytes d @ rest" using s(2) inp by simp
  from reliable_os.recv_packet_reliable [OF rel this d] obtain net' where
    r: "socket_recv_packet (e_os E) (nc_socket c) 0 net = (SOCKET_ERROR_NONE, Some d, word_of_nat (length d), net')" "out net' = out net"
    by blast
  have "connections_node_getBlock E fb w = (Some d, ?w1\<lparr>w_net := net'\<rparr>)"
    using s(1) r(1) c by (simp add: connections_node_getBlock_def connections_node_getActiveNodeConnection_def w1
        w_send_packet_def w_recv_packet_def Let_def)
  with s r w1 show ?thesis by simp
qed

lemma sendBlock_sends:
  assumes rel: "reliable_os (e_os E) inp out" and i: "nd_id (op_node so) = Some i" and c: "map_of (w_active w) i = Some c"
    and run: "connections_node_sendBlock E so w = Some (r, w1)"
  shows "r \<and> out (w_net w1) (nc_socket c) = out (w_net w) (nc_socket c) @ set_block_bytes (op_blockIndex so) (op_block so)"
proof -
  let ?s = "nc_socket c" and ?w = "connections_node_getNodeMutex i w"
  have w: "w_net ?w = w_net w" "w_active ?w = w_active w" by (simp_all add: connections_node_getNodeMutex_def)
  let ?cmd = "COMMAND_FS_TO_NODE_SET_BLOCK # be16 (word_of_int (op_blockIndex so))" and ?d = "takeWhile (\<lambda>b. b \<noteq> 0) (op_block so)"
  obtain n1 where 1: "socket_send_packet (e_os E) ?s (Some ?cmd) (w_net w) = (SOCKET_ERROR_NONE, n1)"
    "out n1 ?s = out (w_net w) ?s @ packet_bytes ?cmd"
    using reliable_os.send_packet_reliable [OF rel] by blast
  obtain n2 where 2: "socket_send_packet (e_os E) ?s (Some ?d) n1 = (SOCKET_ERROR_NONE, n2)"
    "out n2 ?s = out n1 ?s @ packet_bytes ?d"
    using reliable_os.send_packet_reliable [OF rel] by blast
  have "r \<and> w1 = ?w\<lparr>w_net := n2\<rparr>"
    using run i c 1(1) 2(1) by (simp add: connections_node_sendBlock_def connections_node_getActiveNodeConnection_def w
        w_send_packet_def)
  with 1 2 show ?thesis by (simp add: set_block_bytes_def)
qed



end
