(* ===== verification/Nodo_Locks.thy ===== *)
theory Nodo_Locks
  imports Nodo
begin

text \<open>
  The threads of a storage node (\<open>Nodo/src/node.c\<close>): the thread of the file system and one for
  every job read and write blocks of the same map, and \<open>blocks_mutex\<close> has a lock for every block,
  for many readers or one writer. Here a copy takes many steps, one for every byte and in any
  order, and the threads interleave them. Lemmas: nobody writes a block that another reads or
  writes; the runs of the threads are runs of the operations of theory \<open>Nodo\<close>, each in one
  step; and the locks never block: while a request is pending some thread can go on, and every
  step of a thread leaves less to do.

  That \<open>pthread_rwlock_rdlock\<close> and \<open>pthread_rwlock_wrlock\<close> answer 0 is assumed, as the code does.
  What a packet brings is known when its thread takes the lock: only that thread reads the
  socket. A sender that stalls keeps the lock for as long.
\<close>

section \<open>Requests, each in one step\<close>

datatype block_op =
    GetBlock u16
  | SetBlock u16 "byte list"
  | SetBlockFromPacket u16 int

datatype block_ret = BlockRead "byte list" | BlockSet | PacketSet e_socket_status

fun block_op_run :: "'n node_env \<Rightarrow> block_op \<Rightarrow> 'n node_world \<Rightarrow> (block_ret \<times> 'n node_world) option" where
  "block_op_run E (GetBlock n) w = map_option (\<lambda>b. (BlockRead b, w)) (node_getBlock E n w)"
| "block_op_run E (SetBlock n str) w = map_option (\<lambda>w'. (BlockSet, w')) (node_setBlock n str w)"
| "block_op_run E (SetBlockFromPacket n s) w = map_option (\<lambda>(st, w'). (PacketSet st, w')) (node_setBlockFromPacket E n s w)"

datatype req = Quiet | Asked block_op | Answered block_ret

inductive whole_step :: "'n node_env \<Rightarrow> 'n node_world \<times> (nat \<Rightarrow> req) \<Rightarrow> 'n node_world \<times> (nat \<Rightarrow> req) \<Rightarrow> bool" for E where
  WAsk: "rs t = Quiet \<Longrightarrow> whole_step E (w, rs) (w, rs(t := Asked op))"
| WRun: "rs t = Asked op \<Longrightarrow> block_op_run E op w = Some (r, w') \<Longrightarrow> whole_step E (w, rs) (w', rs(t := Answered r))"
| WReturn: "rs t = Answered r \<Longrightarrow> whole_step E (w, rs) (w, rs(t := Quiet))"

section \<open>The steps of a thread\<close>

text \<open>A lock is held by some readers or by a writer; with no reader it is free.\<close>

datatype rwlock = Readers nat | Writer

text \<open>
  Between its lock and its unlock, a thread that reads has copied some bytes of the block to its
  buffer; one that writes has some bytes still to store, by their position in the map, and after
  them perhaps a NUL.
\<close>

datatype block_pc =
    Idle
  | Waiting block_op
  | Reading u16 "nat \<Rightarrow> byte option"
  | Writing u16 "nat \<Rightarrow> byte option" "nat option" block_ret
  | Finished block_ret

type_synonym 'n threads = "'n node_world \<times> (nat \<Rightarrow> rwlock) \<times> (nat \<Rightarrow> block_pc)"

text \<open>The stores of a copy of \<open>bs\<close> to \<open>off\<close>.\<close>

definition stores :: "nat \<Rightarrow> byte list \<Rightarrow> nat \<Rightarrow> byte option" where
  "stores off bs j = (if off \<le> j \<and> j < off + length bs then Some (bs ! (j - off)) else None)"

definition copied_block :: "(nat \<Rightarrow> byte option) \<Rightarrow> byte list" where
  "copied_block buf = map (\<lambda>j. the (buf j)) [0..<BLOCK_SIZE]"

inductive own_step :: "'n node_env \<Rightarrow> 'n threads \<Rightarrow> 'n threads \<Rightarrow> bool" for E where
  ReadLock: "ts t = Waiting (GetBlock n) \<Longrightarrow> os_malloc (x_os E) BLOCK_SIZE \<Longrightarrow> locked_map n w = Some mem \<Longrightarrow>
    ls (unat n) = Readers k \<Longrightarrow>
    own_step E (w, ls, ts) (w, ls(unat n := Readers (Suc k)), ts(t := Reading n Map.empty))"
| CopyByte: "ts t = Reading n buf \<Longrightarrow> locked_map n w = Some mem \<Longrightarrow> times_BLOCK_SIZE n = Some off \<Longrightarrow>
    j < BLOCK_SIZE \<Longrightarrow> buf j = None \<Longrightarrow> off + j < length mem \<Longrightarrow>
    own_step E (w, ls, ts) (w, ls, ts(t := Reading n (buf(j \<mapsto> mem ! (off + j)))))"
| ReadUnlock: "ts t = Reading n buf \<Longrightarrow> dom buf = {..<BLOCK_SIZE} \<Longrightarrow> ls (unat n) = Readers (Suc k) \<Longrightarrow>
    own_step E (w, ls, ts) (w, ls(unat n := Readers k), ts(t := Finished (BlockRead (copied_block buf))))"
| WriteLock: "ts t = Waiting (SetBlock n d) \<Longrightarrow> times_BLOCK_SIZE n = Some off \<Longrightarrow> c_bytes d = Some str \<Longrightarrow>
    locked_map n w = Some mem \<Longrightarrow> ls (unat n) = Readers 0 \<Longrightarrow>
    own_step E (w, ls, ts) (w, ls(unat n := Writer), ts(t := Writing n (stores off (str @ [0])) None BlockSet))"
| PacketLock: "ts t = Waiting (SetBlockFromPacket n s) \<Longrightarrow> times_BLOCK_SIZE n = Some off \<Longrightarrow>
    locked_map n w = Some mem \<Longrightarrow> ls (unat n) = Readers 0 \<Longrightarrow>
    socket_recv_packet_to_memory (x_os E) s 0 (n_net w) = (status, bs, sBuffer, net) \<Longrightarrow>
    own_step E (w, ls, ts) (w\<lparr>n_net := net\<rparr>, ls(unat n := Writer),
      ts(t := Writing n (stores off bs) (Some (off + unat sBuffer)) (PacketSet status)))"
| StoreByte: "ts t = Writing n todo nul r \<Longrightarrow> todo j = Some b \<Longrightarrow> n_bin w = Some mem \<Longrightarrow> j < length mem \<Longrightarrow>
    own_step E (w, ls, ts) (w\<lparr>n_bin := Some (mem[j := b])\<rparr>, ls, ts(t := Writing n (todo(j := None)) nul r))"
| StoreNul: "ts t = Writing n Map.empty (Some j) r \<Longrightarrow> n_bin w = Some mem \<Longrightarrow> j < length mem \<Longrightarrow>
    own_step E (w, ls, ts) (w\<lparr>n_bin := Some (mem[j := 0])\<rparr>, ls, ts(t := Writing n Map.empty None r))"
| WriteUnlock: "ts t = Writing n Map.empty None r \<Longrightarrow>
    own_step E (w, ls, ts) (w, ls(unat n := Readers 0), ts(t := Finished r))"
| Return: "ts t = Finished r \<Longrightarrow> own_step E (w, ls, ts) (w, ls, ts(t := Idle))"

text \<open>The requests that can come are those in \<open>P\<close>.\<close>

inductive thread_step :: "'n node_env \<Rightarrow> block_op set \<Rightarrow> 'n threads \<Rightarrow> 'n threads \<Rightarrow> bool" for E P where
  Own: "own_step E s s' \<Longrightarrow> thread_step E P s s'"
| Ask: "ts t = Idle \<Longrightarrow> op \<in> P \<Longrightarrow> thread_step E P (w, ls, ts) (w, ls, ts(t := Waiting op))"

definition node_at_rest :: "'n node_world \<Rightarrow> 'n threads" where
  "node_at_rest w = (w, (\<lambda>_. Readers 0), (\<lambda>_. Idle))"

text \<open>Requests for a block that the node has, with data that leave room for the NUL; the network
  stays in \<open>Q\<close>.\<close>

fun op_fits :: "'n node_env \<Rightarrow> ('n \<Rightarrow> bool) \<Rightarrow> nat \<Rightarrow> block_op \<Rightarrow> bool" where
  "op_fits E Q c (GetBlock n) \<longleftrightarrow> unat n < c"
| "op_fits E Q c (SetBlock n d) \<longleftrightarrow> unat n < c \<and> (\<exists>str. c_bytes d = Some str \<and> length str < BLOCK_SIZE)"
| "op_fits E Q c (SetBlockFromPacket n s) \<longleftrightarrow> unat n < c \<and>
     (\<forall>net. Q net \<longrightarrow> (case socket_recv_packet_to_memory (x_os E) s 0 net of (_, bs, sBuffer, net') \<Rightarrow>
        length bs \<le> BLOCK_SIZE \<and> unat sBuffer < BLOCK_SIZE \<and> Q net'))"

section \<open>Who holds the locks\<close>

fun reading :: "block_pc \<Rightarrow> nat option" where
  "reading (Reading n buf) = Some (unat n)"
| "reading _ = None"

fun writing :: "block_pc \<Rightarrow> nat option" where
  "writing (Writing n todo nul r) = Some (unat n)"
| "writing _ = None"

definition readers :: "(nat \<Rightarrow> block_pc) \<Rightarrow> nat \<Rightarrow> nat set" where
  "readers ts m = {t. reading (ts t) = Some m}"

definition writers :: "(nat \<Rightarrow> block_pc) \<Rightarrow> nat \<Rightarrow> nat set" where
  "writers ts m = {t. writing (ts t) = Some m}"

definition lock_ok :: "rwlock \<Rightarrow> nat set \<Rightarrow> nat set \<Rightarrow> bool" where
  "lock_ok l R W = (case l of Readers k \<Rightarrow> finite R \<and> card R = k \<and> W = {} | Writer \<Rightarrow> R = {} \<and> (\<exists>t. W = {t}))"

definition locks_ok :: "(nat \<Rightarrow> rwlock) \<Rightarrow> (nat \<Rightarrow> block_pc) \<Rightarrow> bool" where
  "locks_ok ls ts \<longleftrightarrow> (\<forall>m. lock_ok (ls m) (readers ts m) (writers ts m))"

lemma readers_upd: "readers (ts(t := p)) m = (if reading p = Some m then insert t (readers ts m) else readers ts m - {t})"
  by (auto simp: readers_def)

lemma writers_upd: "writers (ts(t := p)) m = (if writing p = Some m then insert t (writers ts m) else writers ts m - {t})"
  by (auto simp: writers_def)

lemma in_readers: "t \<in> readers ts m \<longleftrightarrow> reading (ts t) = Some m"
  by (simp add: readers_def)

lemma in_writers: "t \<in> writers ts m \<longleftrightarrow> writing (ts t) = Some m"
  by (simp add: writers_def)

lemma lock_ok_simps [simp]:
  "lock_ok (Readers k) R W \<longleftrightarrow> finite R \<and> card R = k \<and> W = {}"
  "lock_ok Writer R W \<longleftrightarrow> R = {} \<and> (\<exists>t. W = {t})"
  by (simp_all add: lock_ok_def)

lemma locks_ok_at: "locks_ok ls ts \<Longrightarrow> lock_ok (ls m) (readers ts m) (writers ts m)"
  by (simp add: locks_ok_def)

text \<open>A thread that neither takes nor releases a lock changes nothing.\<close>

lemma locks_ok_same:
  assumes "locks_ok ls ts" and "reading p = reading (ts t)" and "writing p = writing (ts t)"
  shows "locks_ok ls (ts(t := p))"
proof -
  have "readers (ts(t := p)) m = readers ts m" "writers (ts(t := p)) m = writers ts m" for m
    using assms(2,3) by (auto simp: readers_def writers_def)
  then show ?thesis using assms(1) by (simp add: locks_ok_def)
qed

text \<open>A lock is taken or released, and the others keep their threads.\<close>

lemma locks_ok_change:
  assumes "locks_ok ls ts" and "\<And>m. m \<noteq> b \<Longrightarrow> reading p \<noteq> Some m \<and> reading (ts t) \<noteq> Some m"
    and "\<And>m. m \<noteq> b \<Longrightarrow> writing p \<noteq> Some m \<and> writing (ts t) \<noteq> Some m"
    and "lock_ok l (readers (ts(t := p)) b) (writers (ts(t := p)) b)"
  shows "locks_ok (ls(b := l)) (ts(t := p))"
proof -
  have "readers (ts(t := p)) m = readers ts m" "writers (ts(t := p)) m = writers ts m" if "m \<noteq> b" for m
    using assms(2,3) [OF that] by (auto simp: readers_def writers_def)
  then show ?thesis using assms(1,4) by (simp add: locks_ok_def)
qed

lemma own_step_locks: "own_step E (w, ls, ts) (w', ls', ts') \<Longrightarrow> locks_ok ls ts \<Longrightarrow> locks_ok ls' ts'"
proof (induction "(w, ls, ts)" "(w', ls', ts')" rule: own_step.induct)
  case (ReadLock t n mem k)
  have "t \<notin> readers ts (unat n)" "t \<notin> writers ts (unat n)" using ReadLock.hyps(1) by (simp_all add: in_readers in_writers)
  then show ?case using locks_ok_at [OF ReadLock.prems, of "unat n"] ReadLock.hyps
    by (auto intro!: locks_ok_change [OF ReadLock.prems] simp: readers_upd writers_upd)
next
  case (ReadUnlock t n buf k)
  have t: "t \<in> readers ts (unat n)" using ReadUnlock.hyps(1) by (simp add: in_readers)
  then show ?case using locks_ok_at [OF ReadUnlock.prems, of "unat n"] ReadUnlock.hyps
    by (auto intro!: locks_ok_change [OF ReadUnlock.prems] simp: readers_upd writers_upd card_Diff_singleton)
next
  case (WriteLock t n d off str mem)
  then show ?case using locks_ok_at [OF WriteLock.prems, of "unat n"]
    by (auto intro!: locks_ok_change [OF WriteLock.prems] simp: readers_upd writers_upd)
next
  case (PacketLock t n s off mem status bs sBuffer net)
  then show ?case using locks_ok_at [OF PacketLock.prems, of "unat n"]
    by (auto intro!: locks_ok_change [OF PacketLock.prems] simp: readers_upd writers_upd)
next
  case (WriteUnlock t n r)
  have t: "t \<in> writers ts (unat n)" using WriteUnlock.hyps(1) by (simp add: in_writers)
  then have "ls (unat n) = Writer" using locks_ok_at [OF WriteUnlock.prems, of "unat n"] by (cases "ls (unat n)") auto
  then show ?case using locks_ok_at [OF WriteUnlock.prems, of "unat n"] t WriteUnlock.hyps
    by (auto intro!: locks_ok_change [OF WriteUnlock.prems] simp: readers_upd writers_upd)
qed (auto intro: locks_ok_same)

text \<open>Nobody writes a block that another thread reads or writes.\<close>

lemma locks_exclusive:
  assumes "locks_ok ls ts" and "writing (ts t) = Some m" and "u \<noteq> t"
  shows "reading (ts u) \<noteq> Some m \<and> writing (ts u) \<noteq> Some m"
  using locks_ok_at [OF assms(1), of m] assms(2,3) in_writers [of t ts m] in_writers [of u ts m] in_readers [of u ts m]
  by (cases "ls m") auto

section \<open>What is still to be stored\<close>

fun pending :: "block_pc \<Rightarrow> nat \<Rightarrow> byte option" where
  "pending (Writing n todo nul r) = todo ++ (case nul of Some j \<Rightarrow> [j \<mapsto> 0] | None \<Rightarrow> Map.empty)"
| "pending _ = Map.empty"

definition block_range :: "nat \<Rightarrow> nat set" where
  "block_range m = {m * BLOCK_SIZE ..< m * BLOCK_SIZE + BLOCK_SIZE}"

lemma block_range_eq: "j \<in> block_range m \<Longrightarrow> j \<in> block_range m' \<Longrightarrow> m = m'"
proof -
  have "j div BLOCK_SIZE = i" if "j \<in> block_range i" for i
    using that BLOCK_SIZE_pos by (intro div_nat_eqI) (auto simp: block_range_def mult.commute)
  then show "j \<in> block_range m \<Longrightarrow> j \<in> block_range m' \<Longrightarrow> m = m'" by blast
qed

text \<open>What a thread has read and what it will write are of its own block.\<close>

definition pc_ok :: "nat \<Rightarrow> byte list \<Rightarrow> block_pc \<Rightarrow> bool" where
  "pc_ok c mem pc \<longleftrightarrow>
     (case pc of
        Reading n buf \<Rightarrow> unat n < c \<and> (\<forall>j b. buf j = Some b \<longrightarrow> j < BLOCK_SIZE \<and> b = mem ! (unat n * BLOCK_SIZE + j))
      | Writing n todo nul r \<Rightarrow> unat n < c \<and> dom (pending pc) \<subseteq> block_range (unat n)
      | _ \<Rightarrow> True)"

lemma pc_ok_simps [simp]:
  "pc_ok c mem Idle" "pc_ok c mem (Waiting op)" "pc_ok c mem (Finished r)"
  "pc_ok c mem (Reading n buf) \<longleftrightarrow>
     unat n < c \<and> (\<forall>j b. buf j = Some b \<longrightarrow> j < BLOCK_SIZE \<and> b = mem ! (unat n * BLOCK_SIZE + j))"
  "pc_ok c mem (Writing n todo nul r) \<longleftrightarrow> unat n < c \<and> dom (pending (Writing n todo nul r)) \<subseteq> block_range (unat n)"
  by (simp_all add: pc_ok_def)

lemma pending_writing: "pending pc j = Some b \<Longrightarrow> pc_ok c mem pc \<Longrightarrow> \<exists>m. writing pc = Some m \<and> m < c \<and> j \<in> block_range m"
  by (cases pc) (auto simp del: pending.simps(1))

text \<open>\<open>vmem\<close> is the map with every pending store done.\<close>

definition settles :: "byte list \<Rightarrow> (nat \<Rightarrow> block_pc) \<Rightarrow> byte list \<Rightarrow> bool" where
  "settles mem ts vmem \<longleftrightarrow> length vmem = length mem \<and>
     (\<forall>j < length mem. (\<forall>t b. pending (ts t) j = Some b \<longrightarrow> vmem ! j = b) \<and>
        ((\<forall>t. pending (ts t) j = None) \<longrightarrow> vmem ! j = mem ! j))"

text \<open>A thread goes on without a store: nothing is settled anew.\<close>

lemma settles_same: "settles mem ts vmem \<Longrightarrow> pending p = pending (ts t) \<Longrightarrow> settles mem (ts(t := p)) vmem"
  by (simp add: settles_def) metis

lemma settles_length: "settles mem ts vmem \<Longrightarrow> length vmem = length mem"
  by (simp add: settles_def)

text \<open>A block that nobody writes is already as it will be.\<close>

lemma settles_block:
  assumes "settles mem ts vmem" and "\<forall>t. pc_ok c mem (ts t)" and "\<forall>t. writing (ts t) \<noteq> Some m" and "m < c" and "length mem = c * BLOCK_SIZE"
  shows "block_of vmem m = block_of mem m"
proof (rule nth_equalityI)
  have len: "length vmem = c * BLOCK_SIZE" using settles_length [OF assms(1)] assms(5) by simp
  show "length (block_of vmem m) = length (block_of mem m)" using length_block_of [OF assms(4)] len assms(5) by simp
  show "block_of vmem m ! k = block_of mem m ! k" if "k < length (block_of vmem m)" for k
  proof -
    have k: "k < BLOCK_SIZE" using that length_block_of [OF assms(4) len] by simp
    then have j: "m * BLOCK_SIZE + k < length mem" using block_end [OF assms(4)] assms(5) by linarith
    have "pending (ts t) (m * BLOCK_SIZE + k) = None" for t
    proof (cases "pending (ts t) (m * BLOCK_SIZE + k)")
      case (Some b)
      then obtain m' where "writing (ts t) = Some m'" "m * BLOCK_SIZE + k \<in> block_range m'" using pending_writing assms(2) by blast
      moreover have "m * BLOCK_SIZE + k \<in> block_range m" using k by (simp add: block_range_def)
      ultimately show ?thesis using assms(3) block_range_eq by blast
    qed
    then show ?thesis using assms(1) j by (simp add: settles_def block_of_nth [OF assms(4) len k] block_of_nth [OF assms(4,5) k])
  qed
qed

text \<open>A thread takes its lock with all its stores to do: they are done at once in \<open>vmem\<close>.\<close>

lemma settles_lock:
  assumes "settles mem ts vmem" and "length vmem' = length vmem" and "pending (ts t) = Map.empty"
    and "\<And>j. j < length vmem \<Longrightarrow> vmem' ! j = (case pending p j of Some b \<Rightarrow> b | None \<Rightarrow> vmem ! j)"
    and "\<And>u j. u \<noteq> t \<Longrightarrow> pending p j \<noteq> None \<Longrightarrow> pending (ts u) j = None"
  shows "settles mem (ts(t := p)) vmem'"
  unfolding settles_def
proof (intro conjI allI impI)
  show "length vmem' = length mem" using assms(1,2) by (simp add: settles_def)
next
  fix j u b assume j: "j < length mem" and "pending ((ts(t := p)) u) j = Some b"
  then show "vmem' ! j = b"
    using assms(1) assms(4) [of j] assms(5) [of u j] by (cases "pending p j"; cases "u = t") (auto simp: settles_def)
next
  fix j assume j: "j < length mem" and none: "\<forall>u. pending ((ts(t := p)) u) j = None"
  have "pending (ts u) j = None" for u using none [rule_format, of u] assms(3) by (cases "u = t") auto
  moreover have "pending p j = None" using none [rule_format, of t] by simp
  ultimately show "vmem' ! j = mem ! j" using assms(1) assms(4) [of j] j by (simp add: settles_def)
qed

text \<open>One store is done.\<close>

lemma settles_store:
  assumes "settles mem ts vmem" and "j < length mem" and "pending (ts t) = todo"
    and "\<And>k. k \<noteq> j \<Longrightarrow> pending p k = todo k" and "pending p j = None \<Longrightarrow> todo j = Some b" and "pending p j \<noteq> None \<Longrightarrow> pending p j = todo j"
    and "\<And>u. u \<noteq> t \<Longrightarrow> pending (ts u) j = None"
  shows "settles (mem[j := b]) (ts(t := p)) vmem"
  unfolding settles_def
proof (intro conjI allI impI)
  show "length vmem = length (mem[j := b])" using assms(1) by (simp add: settles_def)
next
  fix k u c assume k: "k < length (mem[j := b])" and "pending ((ts(t := p)) u) k = Some c"
  then have "pending (ts u) k = Some c" using assms(3,4,6) by (cases "u = t"; cases "k = j") auto
  then show "vmem ! k = c" using assms(1) k by (simp add: settles_def)
next
  fix k assume k: "k < length (mem[j := b])" and none: "\<forall>u. pending ((ts(t := p)) u) k = None"
  have p: "pending p k = None" using none [rule_format, of t] by simp
  show "vmem ! k = mem[j := b] ! k"
  proof (cases "k = j")
    case True
    then have "pending (ts t) j = Some b" using p assms(3,5) by simp
    then show ?thesis using assms(1,2) True by (simp add: settles_def)
  next
    case False
    have "pending (ts u) k = None" for u using none [rule_format, of u] assms(3) assms(4) [OF False] p by (cases "u = t") auto
    then show ?thesis using assms(1) False k by (simp add: settles_def)
  qed
qed

section \<open>What every interleaving keeps\<close>

abbreviation blocks_of :: "'n node_world \<Rightarrow> nat" where
  "blocks_of w \<equiv> unat (cf_blocksCount (n_cfg w))"

definition threads_ok :: "block_op set \<Rightarrow> ('n \<Rightarrow> bool) \<Rightarrow> 'n threads \<Rightarrow> bool" where
  "threads_ok P Q s = (case s of (w, ls, ts) \<Rightarrow> nodo_ok w \<and> Q (n_net w) \<and> locks_ok ls ts \<and>
     (\<forall>mem. n_bin w = Some mem \<longrightarrow> (\<forall>t. pc_ok (blocks_of w) mem (ts t))) \<and> (\<forall>t op. ts t = Waiting op \<longrightarrow> op \<in> P))"

lemma threads_ok_pc: "threads_ok P Q (w, ls, ts) \<Longrightarrow> n_bin w = Some mem \<Longrightarrow> ts t = pc \<Longrightarrow> pc_ok (blocks_of w) mem pc"
  by (auto simp: threads_ok_def)

lemma packet_fits:
  assumes "threads_ok P Q (w, ls, ts)" and "ts t = Waiting (SetBlockFromPacket n s)"
    and "\<forall>op \<in> P. op_fits E Q (blocks_of (fst (w, ls, ts))) op"
    and "socket_recv_packet_to_memory (x_os E) s 0 (n_net w) = (status, bs, sBuffer, net)"
  shows "unat n < blocks_of w" "length bs \<le> BLOCK_SIZE" "unat sBuffer < BLOCK_SIZE" "Q net"
proof -
  have "SetBlockFromPacket n s \<in> P" and net: "Q (n_net w)" using assms(1,2) by (simp_all add: threads_ok_def)
  then have "op_fits E Q (blocks_of w) (SetBlockFromPacket n s)" using assms(3) by (metis fst_conv)
  then show "unat n < blocks_of w" "length bs \<le> BLOCK_SIZE" "unat sBuffer < BLOCK_SIZE" "Q net"
    using net assms(4) by (auto dest!: spec [of _ "n_net w"])
qed

lemma pc_ok_store:
  assumes "pc_ok c mem pc" and "j \<in> block_range m" and "reading pc \<noteq> Some m"
  shows "pc_ok c (mem[j := b]) pc"
proof (cases pc)
  case (Reading n buf)
  have "mem[j := b] ! (unat n * BLOCK_SIZE + k) = mem ! (unat n * BLOCK_SIZE + k)" if "k < BLOCK_SIZE" for k
  proof -
    have "unat n * BLOCK_SIZE + k \<in> block_range (unat n)" using that by (simp add: block_range_def)
    then have "j \<noteq> unat n * BLOCK_SIZE + k" using block_range_eq assms(2,3) Reading by auto
    then show ?thesis by simp
  qed
  then show ?thesis using assms(1) Reading by simp
qed (use assms(1) in auto)

text \<open>A thread that changes neither the map nor anyone's lock.\<close>

lemma threads_ok_step:
  assumes "threads_ok P Q (w, ls, ts)" and "locks_ok ls' (ts(t := p))" and "n_bin w' = n_bin w" and "nodo_ok w'" and "Q (n_net w')"
    and "blocks_of w' = blocks_of w" and "\<And>mem. n_bin w = Some mem \<Longrightarrow> pc_ok (blocks_of w) mem p"
    and "\<And>op. p = Waiting op \<Longrightarrow> op \<in> P"
  shows "threads_ok P Q (w', ls', ts(t := p))"
  using assms by (auto simp: threads_ok_def)

lemma threads_ok_store:
  assumes "threads_ok P Q (w, ls, ts)" and "n_bin w = Some mem" and "ts t = Writing n todo nul r" and "j \<in> block_range (unat n)"
    and "dom (pending (Writing n todo' nul' r)) \<subseteq> dom (pending (ts t))"
  shows "threads_ok P Q (w\<lparr>n_bin := Some (mem[j := b])\<rparr>, ls, ts(t := Writing n todo' nul' r))" (is "threads_ok P Q (?w, ls, ?ts)")
proof -
  from assms(1,2) have ok: "nodo_ok w" "Q (n_net w)" "locks_ok ls ts" "\<forall>t. pc_ok (blocks_of w) mem (ts t)"
    "\<forall>t op. ts t = Waiting op \<longrightarrow> op \<in> P" by (simp_all add: threads_ok_def)
  have "pc_ok (blocks_of w) (mem[j := b]) (?ts u)" for u
  proof (cases "u = t")
    case True
    have "pc_ok (blocks_of w) mem (ts t)" using ok(4) by simp
    then show ?thesis using assms(3,5) True by (simp del: pending.simps(1)) blast
  next
    case False
    have "reading (ts u) \<noteq> Some (unat n)" using locks_exclusive [OF ok(3), of t "unat n" u] assms(3) False by simp
    then show ?thesis using pc_ok_store [OF _ assms(4), of "blocks_of w" mem "ts u" b] ok(4) False by simp
  qed
  moreover have "locks_ok ls ?ts" by (rule locks_ok_same [OF ok(3)]) (simp_all add: assms(3))
  ultimately show ?thesis using ok(1,2,5) assms(2) by (simp add: threads_ok_def nodo_ok_def)
qed

lemma dom_stores: "dom (stores off bs) = {off ..< off + length bs}"
  by (auto simp: stores_def dom_def)

lemma own_step_ok':
  assumes "own_step E s s'" and "threads_ok P Q s" and "\<forall>op \<in> P. op_fits E Q (blocks_of (fst s)) op"
    and "locks_ok (fst (snd s')) (snd (snd s'))"
  shows "threads_ok P Q s'"
  using assms
proof (induction rule: own_step.induct)
  case (ReadLock ts t n w mem ls k)
  have "GetBlock n \<in> P" using ReadLock.prems(1) ReadLock.hyps(1) by (simp add: threads_ok_def)
  then have "op_fits E Q (blocks_of w) (GetBlock n)" using ReadLock.prems(2) by (metis fst_conv)
  then show ?case by (intro threads_ok_step [OF ReadLock.prems(1) ReadLock.prems(3) [unfolded fst_conv snd_conv]])
    (use ReadLock.prems(1) in \<open>auto simp: threads_ok_def\<close>)
next
  case (CopyByte ts t n buf w mem off j ls)
  have ok: "locks_ok ls ts" "nodo_ok w" "Q (n_net w)" using CopyByte.prems(1) by (simp_all add: threads_ok_def)
  have "pc_ok (blocks_of w) mem (ts t)" if "n_bin w = Some mem" for mem using CopyByte.prems(1) that by (simp add: threads_ok_def)
  then have pc: "pc_ok (blocks_of w) mem (Reading n buf)" if "n_bin w = Some mem" for mem using that CopyByte.hyps(1) by metis
  have off: "off = unat n * BLOCK_SIZE" "n_bin w = Some mem" using CopyByte.hyps(2,3)
    by (simp_all add: times_BLOCK_SIZE_eq locked_map_def split: if_splits)
  show ?case by (rule threads_ok_step [OF CopyByte.prems(1) CopyByte.prems(3) [unfolded fst_conv snd_conv]])
    (use ok pc off CopyByte.hyps in auto)
next
  case (ReadUnlock ts t n buf ls k w)
  show ?case by (rule threads_ok_step [OF ReadUnlock.prems(1) ReadUnlock.prems(3) [unfolded fst_conv snd_conv]])
    (use ReadUnlock.prems(1) in \<open>auto simp: threads_ok_def\<close>)
next
  case (WriteLock ts t n d off str w mem ls)
  have "SetBlock n d \<in> P" using WriteLock.prems(1) WriteLock.hyps(1) by (simp add: threads_ok_def)
  then have "op_fits E Q (blocks_of w) (SetBlock n d)" using WriteLock.prems(2) by (metis fst_conv)
  then have pc: "pc_ok c mem (Writing n (stores off (str @ [0])) None BlockSet)" if "c = blocks_of w" for c mem
    using WriteLock.hyps(2,3) that by (auto simp: dom_stores block_range_def times_BLOCK_SIZE_eq split: if_splits)
  show ?case by (rule threads_ok_step [OF WriteLock.prems(1) WriteLock.prems(3) [unfolded fst_conv snd_conv]])
    (use WriteLock.prems(1) pc in \<open>auto simp: threads_ok_def simp del: pc_ok_simps(5)\<close>)
next
  case (PacketLock ts t n s off w mem ls status bs sBuffer net)
  note fits = packet_fits [OF PacketLock.prems(1) PacketLock.hyps(1) PacketLock.prems(2) PacketLock.hyps(5)]
  have pc: "pc_ok (blocks_of w) mem (Writing n (stores off bs) (Some (off + unat sBuffer)) (PacketSet status))" for mem
    using PacketLock.hyps(2) fits by (auto simp: dom_stores block_range_def times_BLOCK_SIZE_eq split: if_splits)
  show ?case by (rule threads_ok_step [OF PacketLock.prems(1) PacketLock.prems(3) [unfolded fst_conv snd_conv]])
    (use PacketLock.prems(1) pc fits(4) in
      \<open>auto simp: threads_ok_def nodo_ok_def simp del: pc_ok_simps(5)\<close>)
next
  case (StoreByte ts t n todo nul r j b w mem ls)
  have "pc_ok (blocks_of w) mem (ts t)" using StoreByte.prems(1) StoreByte.hyps(3) by (simp add: threads_ok_def)
  then have "j \<in> block_range (unat n)" using StoreByte.hyps(1,2) by auto
  then show ?case by (rule threads_ok_store [OF StoreByte.prems(1) StoreByte.hyps(3,1)]) (auto simp: StoreByte.hyps(1))
next
  case (StoreNul ts t n j r w mem ls)
  have "pc_ok (blocks_of w) mem (ts t)" using StoreNul.prems(1) StoreNul.hyps(2) by (simp add: threads_ok_def)
  then have "j \<in> block_range (unat n)" using StoreNul.hyps(1) by auto
  then show ?case by (rule threads_ok_store [OF StoreNul.prems(1) StoreNul.hyps(2,1)]) (auto simp: StoreNul.hyps(1))
next
  case (WriteUnlock ts t n r w ls)
  show ?case by (rule threads_ok_step [OF WriteUnlock.prems(1) WriteUnlock.prems(3) [unfolded fst_conv snd_conv]])
    (use WriteUnlock.prems(1) in \<open>auto simp: threads_ok_def\<close>)
next
  case (Return ts t r w ls)
  show ?case by (rule threads_ok_step [OF Return.prems(1) Return.prems(3) [unfolded fst_conv snd_conv]])
    (use Return.prems(1) in \<open>auto simp: threads_ok_def\<close>)
qed

lemma own_step_ok:
  assumes "own_step E s s'" and "threads_ok P Q s" and "\<forall>op \<in> P. op_fits E Q (blocks_of (fst s)) op"
  shows "threads_ok P Q s'"
proof (rule own_step_ok' [OF assms])
  show "locks_ok (fst (snd s')) (snd (snd s'))" using assms(1,2) own_step_locks
    by (cases s; cases s') (auto simp: threads_ok_def)
qed

lemma own_step_cfg: "own_step E s s' \<Longrightarrow> n_cfg (fst s') = n_cfg (fst s)"
  by (induction rule: own_step.induct) simp_all

lemma thread_step_ok:
  assumes "thread_step E P s s'" and "threads_ok P Q s" and "\<forall>op \<in> P. op_fits E Q (blocks_of (fst s)) op"
  shows "threads_ok P Q s' \<and> n_cfg (fst s') = n_cfg (fst s)"
  using assms
proof (induction rule: thread_step.induct)
  case (Ask ts t op w ls)
  have "locks_ok ls (ts(t := Waiting op))" using Ask by (auto intro!: locks_ok_same simp: threads_ok_def)
  then show ?case using Ask by (auto intro!: threads_ok_step [OF Ask.prems(1)] simp: threads_ok_def)
qed (simp add: own_step_ok own_step_cfg)

section \<open>The locks make every request one step\<close>

text \<open>A request that writes has happened once its thread has the lock, one that reads when it
  gives the lock back.\<close>

fun view :: "block_pc \<Rightarrow> req" where
  "view Idle = Quiet"
| "view (Waiting op) = Asked op"
| "view (Reading n buf) = Asked (GetBlock n)"
| "view (Writing n todo nul r) = Answered r"
| "view (Finished r) = Answered r"

definition simulates :: "'n threads \<Rightarrow> 'n node_world \<times> (nat \<Rightarrow> req) \<Rightarrow> bool" where
  "simulates s a = (case s of (w, ls, ts) \<Rightarrow> \<exists>mem vmem. n_bin w = Some mem \<and> settles mem ts vmem \<and>
     a = (w\<lparr>n_bin := Some vmem\<rparr>, view \<circ> ts))"

lemma view_upd: "view \<circ> ts(t := p) = (view \<circ> ts)(t := view p)"
  by (simp add: fun_upd_comp)

lemma view_same: "view p = view (ts t) \<Longrightarrow> view \<circ> ts(t := p) = view \<circ> ts"
  by (auto simp: fun_eq_iff)

text \<open>A step that the whole requests do not see.\<close>

lemma simulates_same:
  assumes "simulates (w, ls, ts) a" and "pending p = pending (ts t)" and "view p = view (ts t)"
  shows "simulates (w, ls', ts(t := p)) a"
  using assms settles_same [of _ ts _ p t] view_same [of p ts t] unfolding simulates_def by auto

text \<open>A thread that is told its answer or its request, or takes it away.\<close>

lemma simulates_whole:
  assumes "simulates (w, ls, ts) (v, rs)" and "pending p = pending (ts t)" and "view p = q"
  shows "simulates (w, ls', ts(t := p)) (v, rs(t := q))"
  using assms settles_same [of _ ts _ p t] view_upd [of ts t p] unfolding simulates_def by auto

lemma simulatesD: "simulates (w, ls, ts) (v, rs) \<Longrightarrow> rs t = view (ts t)"
  by (auto simp: simulates_def)

lemma pending_elsewhere:
  assumes "threads_ok P Q (w, ls, ts)" and "n_bin w = Some mem" and "writing (ts t) = Some m \<or> (\<forall>u. writing (ts u) \<noteq> Some m)"
    and "j \<in> block_range m" and "u \<noteq> t"
  shows "pending (ts u) j = None"
proof (rule ccontr)
  assume "pending (ts u) j \<noteq> None"
  then obtain b where "pending (ts u) j = Some b" by blast
  moreover have "pc_ok (blocks_of w) mem (ts u)" "locks_ok ls ts" using assms(1,2) by (simp_all add: threads_ok_def)
  ultimately obtain m' where m': "writing (ts u) = Some m'" "j \<in> block_range m'" using pending_writing by blast
  with assms(4) have "m' = m" using block_range_eq by blast
  then show False using m'(1) assms(3,5) locks_exclusive [OF \<open>locks_ok ls ts\<close>, of t m u] by auto
qed

lemma simulates_store:
  assumes "threads_ok P Q (w, ls, ts)" and "simulates (w, ls, ts) a" and "n_bin w = Some mem" and "j < length mem"
    and "ts t = Writing n todo nul r" and "pending (ts t) j \<noteq> None"
    and "\<And>k. k \<noteq> j \<Longrightarrow> pending (Writing n todo' nul' r) k = pending (ts t) k"
    and "pending (Writing n todo' nul' r) j = None \<Longrightarrow> pending (ts t) j = Some b"
    and "pending (Writing n todo' nul' r) j \<noteq> None \<Longrightarrow> pending (Writing n todo' nul' r) j = pending (ts t) j"
  shows "simulates (w\<lparr>n_bin := Some (mem[j := b])\<rparr>, ls, ts(t := Writing n todo' nul' r)) a"
proof -
  have "pc_ok (blocks_of w) mem (ts t)" using assms(1,3) by (simp add: threads_ok_def)
  then have j: "j \<in> block_range (unat n)" using assms(5,6) by (simp del: pending.simps(1)) blast
  have other: "pending (ts u) j = None" if "u \<noteq> t" for u
    using pending_elsewhere [OF assms(1,3) _ j that] assms(5) by simp
  obtain vmem where v: "settles mem ts vmem" "a = (w\<lparr>n_bin := Some vmem\<rparr>, view \<circ> ts)"
    using assms(2,3) by (auto simp: simulates_def)
  have "settles (mem[j := b]) (ts(t := Writing n todo' nul' r)) vmem"
    by (rule settles_store [OF v(1) assms(4) refl assms(7-9) other])
  then show ?thesis using v(2) view_same [of "Writing n todo' nul' r" ts t] assms(5) by (auto simp: simulates_def)
qed

text \<open>Taking the lock to write: what the request writes to \<open>vmem\<close> is what its thread has to store.\<close>

lemma simulates_lock:
  assumes "threads_ok P Q (w, ls, ts)" and "n_bin w = Some mem" and "settles mem ts vmem" and "ls (unat n) = Readers 0"
    and "ts t = Waiting op" and "pc_ok (blocks_of w) mem (Writing n todo nul r)" and "length vmem' = length vmem"
    and "\<And>j. j < length vmem \<Longrightarrow> vmem' ! j = (case pending (Writing n todo nul r) j of Some b \<Rightarrow> b | None \<Rightarrow> vmem ! j)"
    and "block_op_run E op (w\<lparr>n_bin := Some vmem\<rparr>) = Some (r, w\<lparr>n_bin := Some vmem', n_net := net\<rparr>)"
  shows "\<exists>a'. whole_step E (w\<lparr>n_bin := Some vmem\<rparr>, view \<circ> ts) a' \<and>
    simulates (w\<lparr>n_net := net\<rparr>, ls(unat n := Writer), ts(t := Writing n todo nul r)) a'"
proof -
  let ?p = "Writing n todo nul r"
  have "locks_ok ls ts" using assms(1) by (simp add: threads_ok_def)
  then have free: "writing (ts u) \<noteq> Some (unat n)" for u
    using locks_ok_at [of ls ts "unat n"] assms(4) in_writers [of u ts "unat n"] by auto
  have "pending (ts u) j = None" if "u \<noteq> t" "pending ?p j \<noteq> None" for u j
    by (rule pending_elsewhere [OF assms(1,2) _ _ that(1), of "unat n"]) (use free that(2) assms(6) in \<open>auto simp del: pending.simps(1)\<close>)
  then have set: "settles mem (ts(t := ?p)) vmem'"
    by (intro settles_lock [OF assms(3,7) _ assms(8)]) (simp_all add: assms(5) del: pending.simps(1))
  have "whole_step E (w\<lparr>n_bin := Some vmem\<rparr>, view \<circ> ts) (w\<lparr>n_bin := Some vmem', n_net := net\<rparr>, (view \<circ> ts)(t := Answered r))"
    by (rule WRun [OF _ assms(9)]) (simp add: assms(5))
  moreover have "simulates (w\<lparr>n_net := net\<rparr>, ls(unat n := Writer), ts(t := ?p))
      (w\<lparr>n_bin := Some vmem', n_net := net\<rparr>, (view \<circ> ts)(t := Answered r))"
    using set assms(2) view_upd [of ts t ?p] by (auto simp: simulates_def)
  ultimately show ?thesis by blast
qed

lemma write_in_block:
  assumes "m < c" and "length mem = c * BLOCK_SIZE" and "k + length bs \<le> BLOCK_SIZE"
  obtains mem' where "write_at mem (m * BLOCK_SIZE + k) bs = Some mem'" "length mem' = length mem"
    "\<And>j. j < length mem \<Longrightarrow> mem' ! j = (case stores (m * BLOCK_SIZE + k) bs j of Some b \<Rightarrow> b | None \<Rightarrow> mem ! j)"
proof -
  have "m * BLOCK_SIZE + k + length bs \<le> length mem" using block_end [OF assms(1)] assms(2,3) by linarith
  then obtain mem' where w: "write_at mem (m * BLOCK_SIZE + k) bs = Some mem'" by (simp add: write_at_def)
  show ?thesis
    by (rule that [OF w write_at_length [OF w]]) (simp add: write_at_nth [OF w] stores_def)
qed

lemma locked_mapD:
  "locked_map n w = Some mem \<Longrightarrow> n_bin w = Some mem \<and> unat n < n_locks w \<and> locked_map n (w\<lparr>n_bin := Some vmem\<rparr>) = Some vmem"
  by (simp add: locked_map_def split: if_splits)

lemma set_block_writes:
  assumes "locked_map n w = Some mem" and "nodo_ok w" and "times_BLOCK_SIZE n = Some off" and "c_bytes d = Some str"
    and "length str < BLOCK_SIZE" and "length vmem = length mem"
  obtains vmem' where "length vmem' = length vmem"
    "block_op_run E (SetBlock n d) (w\<lparr>n_bin := Some vmem\<rparr>) = Some (BlockSet, w\<lparr>n_bin := Some vmem'\<rparr>)"
    "\<And>j. j < length vmem \<Longrightarrow> vmem' ! j = (case stores off (str @ [0]) j of Some b \<Rightarrow> b | None \<Rightarrow> vmem ! j)"
proof -
  have n: "unat n < blocks_of w" "length vmem = blocks_of w * BLOCK_SIZE" "off = unat n * BLOCK_SIZE + 0"
    using assms by (auto simp: nodo_ok_def locked_map_def times_BLOCK_SIZE_eq split: if_splits)
  obtain vmem' where v: "write_at vmem off (str @ [0]) = Some vmem'" "length vmem' = length vmem"
    "\<And>j. j < length vmem \<Longrightarrow> vmem' ! j = (case stores off (str @ [0]) j of Some b \<Rightarrow> b | None \<Rightarrow> vmem ! j)"
    using write_in_block [OF n(1,2), of 0 "str @ [0]"] assms(5) unfolding n(3) by auto
  show ?thesis by (rule that [OF v(2) _ v(3)])
    (simp_all add: node_setBlock_def assms(3,4) v(1) locked_mapD [OF assms(1)])
qed

lemma packet_writes:
  assumes "locked_map n w = Some mem" and "nodo_ok w" and "times_BLOCK_SIZE n = Some off"
    and "socket_recv_packet_to_memory (x_os E) s 0 (n_net w) = (status, bs, sBuffer, net)"
    and "length bs \<le> BLOCK_SIZE" and "unat sBuffer < BLOCK_SIZE" and "length vmem = length mem"
  obtains vmem' where "length vmem' = length vmem"
    "block_op_run E (SetBlockFromPacket n s) (w\<lparr>n_bin := Some vmem\<rparr>) = Some (PacketSet status, w\<lparr>n_bin := Some vmem', n_net := net\<rparr>)"
    "\<And>j. j < length vmem \<Longrightarrow> vmem' ! j = (case (stores off bs ++ [off + unat sBuffer \<mapsto> 0]) j of Some b \<Rightarrow> b | None \<Rightarrow> vmem ! j)"
proof -
  have n: "unat n < blocks_of w" "length vmem = blocks_of w * BLOCK_SIZE" "off = unat n * BLOCK_SIZE"
    using assms by (auto simp: nodo_ok_def locked_map_def times_BLOCK_SIZE_eq split: if_splits)
  obtain v1 where v1: "write_at vmem off bs = Some v1" "length v1 = length vmem"
    "\<And>j. j < length vmem \<Longrightarrow> v1 ! j = (case stores off bs j of Some b \<Rightarrow> b | None \<Rightarrow> vmem ! j)"
    using write_in_block [OF n(1,2), of 0 bs] assms(5) unfolding n(3) by auto
  obtain v2 where v2: "write_at v1 (off + unat sBuffer) [0] = Some v2" "length v2 = length v1"
    "\<And>j. j < length v1 \<Longrightarrow> v2 ! j = (case stores (off + unat sBuffer) [0] j of Some b \<Rightarrow> b | None \<Rightarrow> v1 ! j)"
    using write_in_block [OF n(1), of v1 "unat sBuffer" "[0]"] n(2) v1(2) assms(6) unfolding n(3) by auto
  show ?thesis
  proof (rule that)
    show "length v2 = length vmem" using v1(2) v2(2) by simp
    show "block_op_run E (SetBlockFromPacket n s) (w\<lparr>n_bin := Some vmem\<rparr>) = Some (PacketSet status, w\<lparr>n_bin := Some v2, n_net := net\<rparr>)"
      by (simp add: node_setBlockFromPacket_def assms(3,4) locked_mapD [OF assms(1)] v1(1) v2(1))
    show "v2 ! j = (case (stores off bs ++ [off + unat sBuffer \<mapsto> 0]) j of Some b \<Rightarrow> b | None \<Rightarrow> vmem ! j)"
      if "j < length vmem" for j
      using v1(2,3) v2(3) that by (cases "j = off + unat sBuffer") (auto simp: stores_def map_add_def)
  qed
qed

lemma read_block:
  assumes "locked_map n w = Some mem" and "nodo_ok w" and "dom buf = {..<BLOCK_SIZE}"
    and "pc_ok (blocks_of w) mem (Reading n buf)"
  shows "copied_block buf = block_of mem (unat n)"
proof -
  have n: "unat n < blocks_of w" "length mem = blocks_of w * BLOCK_SIZE" using assms(1,2)
    by (auto simp: nodo_ok_def locked_map_def split: if_splits)
  have "the (buf j) = block_of mem (unat n) ! j" if "j < BLOCK_SIZE" for j
  proof -
    have "j \<in> dom buf" using assms(3) that by simp
    then obtain b where b: "buf j = Some b" by blast
    then show ?thesis using assms(4) block_of_nth [OF n that] by simp
  qed
  then show ?thesis using length_block_of [OF n] by (auto simp: copied_block_def intro!: nth_equalityI)
qed

text \<open>Every step of a thread is a whole request, its answer, or invisible.\<close>

lemma unseen: "simulates s a \<Longrightarrow> \<exists>a'. (a' = a \<or> whole_step E a a') \<and> simulates s a'"
  by blast

lemma own_step_simulated:
  assumes "own_step E s s'" and "threads_ok P Q s" and "\<forall>op \<in> P. op_fits E Q (blocks_of (fst s)) op" and "simulates s a"
    and malloc: "os_malloc (x_os E) BLOCK_SIZE"
  shows "\<exists>a'. (a' = a \<or> whole_step E a a') \<and> simulates s' a'"
  using assms(1-4)
proof (induction rule: own_step.induct)
  case (ReadLock ts t n w mem ls k)
  show ?case by (rule unseen, rule simulates_same [OF ReadLock.prems(3)]) (simp_all add: ReadLock.hyps(1))
next
  case (CopyByte ts t n buf w mem off j ls)
  show ?case by (rule unseen, rule simulates_same [OF CopyByte.prems(3)]) (simp_all add: CopyByte.hyps(1))
next
  case (ReadUnlock ts t n buf ls k w)
  obtain v rs where a: "a = (v, rs)" by (cases a)
  obtain mem vmem where v: "n_bin w = Some mem" "settles mem ts vmem" "v = w\<lparr>n_bin := Some vmem\<rparr>" "rs = view \<circ> ts"
    using ReadUnlock.prems(3) a by (auto simp: simulates_def)
  have ok: "nodo_ok w" "locks_ok ls ts" "\<forall>t. pc_ok (blocks_of w) mem (ts t)" using ReadUnlock.prems(1) v(1) by (simp_all add: threads_ok_def)
  have pc: "pc_ok (blocks_of w) mem (Reading n buf)" using ok(3) ReadUnlock.hyps(1) by metis
  then have n: "unat n < blocks_of w" "length mem = blocks_of w * BLOCK_SIZE" using ok(1) v(1) by (auto simp: nodo_ok_def)
  have len: "length vmem = blocks_of w * BLOCK_SIZE" using settles_length [OF v(2)] n(2) by simp
  have locked: "locked_map n w = Some mem" using locked_map_ok [OF ok(1) n(1)] v(1) by simp
  have free: "\<forall>u. writing (ts u) \<noteq> Some (unat n)"
    using locks_ok_at [OF ok(2), of "unat n"] ReadUnlock.hyps(3) by (auto simp: writers_def)
  have "node_getBlock E n v = Some (block_of vmem (unat n))"
    by (rule node_getBlock_ok) (use malloc ok(1) n(1) len v(3) in \<open>auto simp: nodo_ok_def\<close>)
  also have "block_of vmem (unat n) = copied_block buf"
    using settles_block [OF v(2) ok(3) free n] read_block [OF locked ok(1) ReadUnlock.hyps(2) pc] by simp
  finally have "block_op_run E (GetBlock n) v = Some (BlockRead (copied_block buf), v)" by simp
  then have "whole_step E (v, rs) (v, rs(t := Answered (BlockRead (copied_block buf))))"
    by (rule WRun [rotated]) (simp add: v(4) ReadUnlock.hyps(1))
  moreover have "simulates (w, ls(unat n := Readers k), ts(t := Finished (BlockRead (copied_block buf))))
      (v, rs(t := Answered (BlockRead (copied_block buf))))"
    by (rule simulates_whole [OF ReadUnlock.prems(3) [unfolded a]]) (simp_all add: ReadUnlock.hyps(1))
  ultimately show ?case unfolding a by blast
next
  case (WriteLock ts t n d off str w mem ls)
  have bin: "n_bin w = Some mem" using locked_mapD [OF WriteLock.hyps(4)] by simp
  obtain vmem where v: "settles mem ts vmem" "a = (w\<lparr>n_bin := Some vmem\<rparr>, view \<circ> ts)"
    using WriteLock.prems(3) bin by (auto simp: simulates_def)
  have ok: "nodo_ok w" "SetBlock n d \<in> P" using WriteLock.prems(1) WriteLock.hyps(1) by (simp_all add: threads_ok_def)
  then have fits: "op_fits E Q (blocks_of w) (SetBlock n d)" using WriteLock.prems(2) by (metis fst_conv)
  then have pc: "pc_ok (blocks_of w) mem (Writing n (stores off (str @ [0])) None BlockSet)"
    using WriteLock.hyps(2,3) by (auto simp: dom_stores block_range_def times_BLOCK_SIZE_eq split: if_splits)
  obtain vmem' where v': "length vmem' = length vmem"
    "block_op_run E (SetBlock n d) (w\<lparr>n_bin := Some vmem\<rparr>) = Some (BlockSet, w\<lparr>n_bin := Some vmem'\<rparr>)"
    "\<And>j. j < length vmem \<Longrightarrow> vmem' ! j = (case stores off (str @ [0]) j of Some b \<Rightarrow> b | None \<Rightarrow> vmem ! j)"
    using set_block_writes [OF WriteLock.hyps(4) ok(1) WriteLock.hyps(2,3) _ settles_length [OF v(1)], of E] fits WriteLock.hyps(3) by auto
  show ?case using simulates_lock [OF WriteLock.prems(1) bin v(1) WriteLock.hyps(5,1) pc v'(1), of E "n_net w"] v'(2,3) v(2) by auto
next
  case (PacketLock ts t n s off w mem ls status bs sBuffer net)
  have bin: "n_bin w = Some mem" using locked_mapD [OF PacketLock.hyps(3)] by simp
  obtain vmem where v: "settles mem ts vmem" "a = (w\<lparr>n_bin := Some vmem\<rparr>, view \<circ> ts)"
    using PacketLock.prems(3) bin by (auto simp: simulates_def)
  have ok: "nodo_ok w" using PacketLock.prems(1) by (simp add: threads_ok_def)
  note fits = packet_fits [OF PacketLock.prems(1) PacketLock.hyps(1) PacketLock.prems(2) PacketLock.hyps(5)]
  have pc: "pc_ok (blocks_of w) mem (Writing n (stores off bs) (Some (off + unat sBuffer)) (PacketSet status))"
    using fits PacketLock.hyps(2) by (auto simp: dom_stores block_range_def times_BLOCK_SIZE_eq split: if_splits)
  obtain vmem' where v': "length vmem' = length vmem"
    "block_op_run E (SetBlockFromPacket n s) (w\<lparr>n_bin := Some vmem\<rparr>) = Some (PacketSet status, w\<lparr>n_bin := Some vmem', n_net := net\<rparr>)"
    "\<And>j. j < length vmem \<Longrightarrow> vmem' ! j = (case (stores off bs ++ [off + unat sBuffer \<mapsto> 0]) j of Some b \<Rightarrow> b | None \<Rightarrow> vmem ! j)"
    using packet_writes [OF PacketLock.hyps(3) ok PacketLock.hyps(2,5) fits(2,3) settles_length [OF v(1)]] by blast
  show ?case using simulates_lock [OF PacketLock.prems(1) bin v(1) PacketLock.hyps(4,1) pc v'(1) _ v'(2)] v'(3) v(2) by auto
next
  case (StoreByte ts t n todo nul r j b w mem ls)
  show ?case
    by (rule unseen, rule simulates_store [OF StoreByte.prems(1,3) StoreByte.hyps(3,4,1)])
      (auto simp: StoreByte.hyps(1,2) map_add_def split: option.splits)
next
  case (StoreNul ts t n j r w mem ls)
  show ?case
    by (rule unseen, rule simulates_store [OF StoreNul.prems(1,3) StoreNul.hyps(2,3,1)])
      (auto simp: StoreNul.hyps(1))
next
  case (WriteUnlock ts t n r w ls)
  show ?case by (rule unseen, rule simulates_same [OF WriteUnlock.prems(3)]) (simp_all add: WriteUnlock.hyps(1))
next
  case (Return ts t r w ls)
  obtain v rs where a: "a = (v, rs)" by (cases a)
  have "whole_step E (v, rs) (v, rs(t := Quiet))"
    by (rule WReturn) (use simulatesD [OF Return.prems(3) [unfolded a], of t] Return.hyps in simp)
  moreover have "simulates (w, ls, ts(t := Idle)) (v, rs(t := Quiet))"
    by (rule simulates_whole [OF Return.prems(3) [unfolded a]]) (simp_all add: Return.hyps)
  ultimately show ?case unfolding a by blast
qed

section \<open>Whole runs\<close>

lemma at_rest_ok: "nodo_ok w \<Longrightarrow> Q (n_net w) \<Longrightarrow> threads_ok P Q (node_at_rest w)"
  by (simp add: node_at_rest_def threads_ok_def locks_ok_def readers_def writers_def)

lemma at_rest_simulates:
  assumes "nodo_ok w" shows "simulates (node_at_rest w) (w, \<lambda>_. Quiet)"
proof -
  obtain mem where mem: "n_bin w = Some mem" using assms by (rule nodo_okE)
  then have "w\<lparr>n_bin := Some mem\<rparr> = w" by (cases w) simp
  then show ?thesis using mem by (auto simp: node_at_rest_def simulates_def settles_def fun_eq_iff intro!: exI [of _ mem])
qed

lemma thread_step_simulated:
  assumes "thread_step E P s s'" and "threads_ok P Q s" and "\<forall>op \<in> P. op_fits E Q (blocks_of (fst s)) op" and "simulates s a"
    and "os_malloc (x_os E) BLOCK_SIZE"
  shows "\<exists>a'. (a' = a \<or> whole_step E a a') \<and> simulates s' a'"
  using assms(1-4)
proof (induction rule: thread_step.induct)
  case (Own s s')
  then show ?case using own_step_simulated [OF Own.hyps Own.prems assms(5)] by blast
next
  case (Ask ts t op w ls)
  obtain v rs where a: "a = (v, rs)" by (cases a)
  have "whole_step E (v, rs) (v, rs(t := Asked op))"
    by (rule WAsk) (use simulatesD [OF Ask.prems(3) [unfolded a], of t] Ask.hyps in simp)
  moreover have "simulates (w, ls, ts(t := Waiting op)) (v, rs(t := Asked op))"
    by (rule simulates_whole [OF Ask.prems(3) [unfolded a]]) (simp_all add: Ask.hyps)
  ultimately show ?case unfolding a by blast
qed

lemma threads_run:
  assumes "(thread_step E P)\<^sup>*\<^sup>* (node_at_rest w) s" and "nodo_ok w" and "\<forall>op \<in> P. op_fits E Q (blocks_of w) op" and "Q (n_net w)"
  shows "threads_ok P Q s \<and> n_cfg (fst s) = n_cfg w"
  using assms(1)
proof (induction rule: rtranclp_induct)
  case base
  show ?case using at_rest_ok [of w Q P] assms(2,4) by (simp add: node_at_rest_def)
next
  case (step s s')
  then show ?case using thread_step_ok [OF step.hyps(2), of Q] assms(3) by simp
qed

lemma threads_run_simulated:
  assumes "(thread_step E P)\<^sup>*\<^sup>* (node_at_rest w) s" and "nodo_ok w" and "\<forall>op \<in> P. op_fits E Q (blocks_of w) op"
    and "Q (n_net w)" and "os_malloc (x_os E) BLOCK_SIZE"
  shows "\<exists>a. (whole_step E)\<^sup>*\<^sup>* (w, \<lambda>_. Quiet) a \<and> simulates s a"
  using assms(1)
proof (induction rule: rtranclp_induct)
  case base
  show ?case using at_rest_simulates [OF assms(2)] by blast
next
  case (step s s')
  then obtain a where a: "(whole_step E)\<^sup>*\<^sup>* (w, \<lambda>_. Quiet) a" "simulates s a" by blast
  have ok: "threads_ok P Q s" "\<forall>op \<in> P. op_fits E Q (blocks_of (fst s)) op"
    using threads_run [OF step.hyps(1) assms(2-4)] assms(3) by simp_all
  show ?case using thread_step_simulated [OF step.hyps(2) ok a(2) assms(5)] a(1) by (meson rtranclp.rtrancl_into_rtrancl)
qed

lemma settles_none: "settles mem ts vmem \<Longrightarrow> \<forall>t. writing (ts t) = None \<Longrightarrow> vmem = mem"
proof (rule nth_equalityI)
  assume s: "settles mem ts vmem" and none: "\<forall>t. writing (ts t) = None"
  show "length vmem = length mem" by (rule settles_length [OF s])
  have "pending (ts t) j = None" for t j using none [rule_format, of t] by (cases "ts t") auto
  then show "vmem ! j = mem ! j" if "j < length vmem" for j using s that by (simp add: settles_def)
qed

text \<open>C12. The locks make every request of a block one step. Whatever the threads of a storage node do
  byte by byte and in whatever order, the same requests get the same answers when each runs alone,
  in one step, in some order: a block is read as some request left it, never half written. While
  nobody writes, the node is exactly as those whole requests leave it. The requests are for blocks
  the node has, with data that leave room for the NUL in the block.
\<close>

theorem locks_make_requests_whole:
  assumes "nodo_ok w" and "os_malloc (x_os E) BLOCK_SIZE" and "\<forall>op \<in> P. op_fits E Q (blocks_of w) op" and "Q (n_net w)"
    and "(thread_step E P)\<^sup>*\<^sup>* (node_at_rest w) (w', ls, ts)"
  shows "\<exists>v. (whole_step E)\<^sup>*\<^sup>* (w, \<lambda>_. Quiet) (v, view \<circ> ts) \<and> ((\<forall>t. writing (ts t) = None) \<longrightarrow> v = w')"
proof -
  obtain v rs where r: "(whole_step E)\<^sup>*\<^sup>* (w, \<lambda>_. Quiet) (v, rs)" and s: "simulates (w', ls, ts) (v, rs)"
    using threads_run_simulated [OF assms(5,1,3,4,2)] by auto
  have "v = w'" if none: "\<forall>t. writing (ts t) = None"
    using s settles_none [OF _ none] by (auto simp: simulates_def)
  then show ?thesis using r s by (auto simp: simulates_def)
qed

section \<open>The locks never block\<close>

text \<open>What a thread has left to do before it is idle.\<close>

fun pc_work :: "block_pc \<Rightarrow> nat" where
  "pc_work Idle = 0"
| "pc_work (Finished r) = 1"
| "pc_work (Reading n buf) = 2 + (BLOCK_SIZE - card (dom buf))"
| "pc_work (Writing n todo nul r) = 2 + card (dom todo) + (if nul = None then 0 else 1)"
| "pc_work (Waiting op) = 4 + BLOCK_SIZE"

definition threads_work :: "(nat \<Rightarrow> block_pc) \<Rightarrow> nat" where
  "threads_work ts = (\<Sum>t | ts t \<noteq> Idle. pc_work (ts t))"

lemma work_less:
  assumes "finite {t. ts t \<noteq> Idle}" and "pc_work p < pc_work (ts t)"
  shows "threads_work (ts(t := p)) < threads_work ts"
proof -
  let ?S = "{t. ts t \<noteq> Idle}"
  have t: "t \<in> ?S" using assms(2) by (cases "ts t") auto
  have "threads_work (ts(t := p)) = (\<Sum>u\<in>?S. pc_work ((ts(t := p)) u))"
    unfolding threads_work_def by (rule sum.mono_neutral_left) (use assms(1) t in auto)
  also have "\<dots> < (\<Sum>u\<in>?S. pc_work (ts u))"
    by (rule sum_strict_mono_ex1) (use assms t in \<open>auto intro!: bexI [of _ t]\<close>)
  finally show ?thesis by (simp add: threads_work_def)
qed

abbreviation busy :: "(nat \<Rightarrow> block_pc) \<Rightarrow> nat set" where
  "busy ts \<equiv> {t. ts t \<noteq> Idle}"

lemma finite_busy: "finite (busy ts) \<Longrightarrow> finite (busy (ts(t := p)))"
  by (rule finite_subset [of _ "insert t (busy ts)"]) auto

lemma finite_todo: "pc_ok c mem (Writing n todo nul r) \<Longrightarrow> finite (dom todo)"
  by (rule finite_subset [of _ "block_range (unat n)"]) (auto simp: block_range_def split: option.splits)

lemma card_stores: "card (dom (stores off bs)) = length bs"
  by (simp add: dom_stores)

lemma copy_work:
  assumes "pc_ok c mem (Reading n buf)" and "j < BLOCK_SIZE" and "buf j = None"
  shows "pc_work (Reading n (buf(j \<mapsto> b))) < pc_work (Reading n buf)"
proof -
  have sub: "dom buf \<subseteq> {..<BLOCK_SIZE}" using assms(1) by auto
  then have fin: "finite (dom buf)" by (rule finite_subset) simp
  have "card (insert j (dom buf)) \<le> card {..<BLOCK_SIZE}" by (rule card_mono) (use sub assms(2) in auto)
  moreover have "j \<notin> dom buf" using assms(3) by auto
  ultimately show ?thesis using fin by simp
qed

lemma store_work:
  assumes "pc_ok c mem (Writing n todo nul r)" and "todo j = Some b"
  shows "pc_work (Writing n (todo(j := None)) nul r) < pc_work (Writing n todo nul r)"
proof -
  have "j \<in> dom todo" using assms(2) by blast
  then have "card (dom todo - {j}) < card (dom todo)" using finite_todo [OF assms(1)] by (rule card_Diff1_less [rotated])
  then show ?thesis by simp
qed

lemma own_step_work:
  assumes "own_step E s s'" and "threads_ok P Q s" and "\<forall>op \<in> P. op_fits E Q (blocks_of (fst s)) op" and "finite (busy (snd (snd s)))"
  shows "finite (busy (snd (snd s'))) \<and> threads_work (snd (snd s')) < threads_work (snd (snd s))"
  using assms
proof (induction rule: own_step.induct)
  case (CopyByte ts t n buf w mem off j ls)
  have "n_bin w = Some mem" using locked_mapD [OF CopyByte.hyps(2)] by simp
  from threads_ok_pc [OF CopyByte.prems(1) this CopyByte.hyps(1)] have "pc_ok (blocks_of w) mem (Reading n buf)" .
  note less = copy_work [OF this CopyByte.hyps(4,5), folded CopyByte.hyps(1)]
  have fin: "finite (busy ts)" using CopyByte.prems(3) by simp
  show ?case unfolding fst_conv snd_conv by (intro conjI finite_busy work_less fin less)
next
  case (WriteLock ts t n d off str w mem ls)
  have "SetBlock n d \<in> P" using WriteLock.prems(1) WriteLock.hyps(1) by (simp add: threads_ok_def)
  then have "length str < BLOCK_SIZE" using WriteLock.prems(2) WriteLock.hyps(3) by fastforce
  then show ?case unfolding fst_conv snd_conv
    by (intro conjI finite_busy work_less) (use WriteLock.prems(3) WriteLock.hyps(1) in \<open>auto simp: card_stores\<close>)
next
  case (PacketLock ts t n s off w mem ls status bs sBuffer net)
  have "length bs \<le> BLOCK_SIZE" by (rule packet_fits(2) [OF PacketLock.prems(1) PacketLock.hyps(1) PacketLock.prems(2) PacketLock.hyps(5)])
  then show ?case unfolding fst_conv snd_conv
    by (intro conjI finite_busy work_less) (use PacketLock.prems(3) PacketLock.hyps(1) in \<open>auto simp: card_stores\<close>)
next
  case (StoreByte ts t n todo nul r j b w mem ls)
  have "pc_ok (blocks_of w) mem (Writing n todo nul r)" by (rule threads_ok_pc [OF StoreByte.prems(1) StoreByte.hyps(3,1)])
  note less = store_work [OF this StoreByte.hyps(2), folded StoreByte.hyps(1)]
  have fin: "finite (busy ts)" using StoreByte.prems(3) by simp
  show ?case unfolding fst_conv snd_conv by (intro conjI finite_busy work_less fin less)
qed (simp_all only: fst_conv snd_conv, (intro conjI finite_busy work_less; simp)+)

section \<open>Some thread can always go on\<close>

lemma writer_goes_on:
  assumes "threads_ok P Q (w, ls, ts)" and "ts t = Writing n todo nul r"
  shows "\<exists>s'. own_step E (w, ls, ts) s'"
proof -
  obtain mem where mem: "n_bin w = Some mem" "length mem = blocks_of w * BLOCK_SIZE"
    using assms(1) unfolding threads_ok_def prod.case by (metis nodo_okE)
  have pc: "pc_ok (blocks_of w) mem (Writing n todo nul r)" by (rule threads_ok_pc [OF assms(1) mem(1) assms(2)])
  have inb: "j < length mem" if "pending (Writing n todo nul r) j \<noteq> None" for j
  proof -
    have "j \<in> block_range (unat n)" using pc that by (auto simp del: pending.simps(1))
    then show ?thesis using pc block_end [of "unat n" "blocks_of w"] mem(2) by (auto simp: block_range_def simp del: pending.simps(1))
  qed
  show ?thesis
  proof (cases "todo = Map.empty")
    case True
    show ?thesis
    proof (cases nul)
      case None
      then show ?thesis using own_step.WriteUnlock assms(2) True by blast
    next
      case (Some j)
      then have "j < length mem" using inb [of j] by simp
      then show ?thesis using own_step.StoreNul assms(2) mem(1) True Some by blast
    qed
  next
    case False
    then obtain j b where j: "todo j = Some b" by (meson dom_eq_empty_conv domIff ex_in_conv not_Some_eq)
    then have "pending (Writing n todo nul r) j \<noteq> None" by (auto simp: map_add_def split: option.splits)
    then show ?thesis using own_step.StoreByte [of ts t n todo nul r j b w mem] assms(2) j mem(1) inb by blast
  qed
qed

lemma reader_goes_on:
  assumes "threads_ok P Q (w, ls, ts)" and "ts t = Reading n buf"
  shows "\<exists>s'. own_step E (w, ls, ts) s'"
proof -
  obtain mem where mem: "n_bin w = Some mem" "length mem = blocks_of w * BLOCK_SIZE" "blocks_of w \<le> 102"
    using assms(1) unfolding threads_ok_def prod.case by (metis nodo_okE)
  have ok: "nodo_ok w" "locks_ok ls ts" using assms(1) by (simp_all add: threads_ok_def)
  have pc: "pc_ok (blocks_of w) mem (Reading n buf)" by (rule threads_ok_pc [OF assms(1) mem(1) assms(2)])
  then have n: "unat n < blocks_of w" and sub: "dom buf \<subseteq> {..<BLOCK_SIZE}" by auto
  show ?thesis
  proof (cases "dom buf = {..<BLOCK_SIZE}")
    case True
    have "t \<in> readers ts (unat n)" using assms(2) by (simp add: in_readers)
    then obtain k where "ls (unat n) = Readers (Suc k)" using locks_ok_at [OF ok(2), of "unat n"]
      by (cases "ls (unat n)"; cases "card (readers ts (unat n))") auto
    then show ?thesis using own_step.ReadUnlock [of ts t n buf ls k] assms(2) True by blast
  next
    case False
    then obtain j where j: "j < BLOCK_SIZE" "buf j = None" using sub by blast
    have "unat n * BLOCK_SIZE + j < length mem" using block_end [OF n] mem(2) j(1) by linarith
    moreover have "times_BLOCK_SIZE n = Some (unat n * BLOCK_SIZE)" using n mem(3) by (simp add: times_BLOCK_SIZE_eq)
    moreover have "locked_map n w = Some mem" using locked_map_ok [OF ok(1) n] mem(1) by simp
    ultimately show ?thesis using own_step.CopyByte [of ts t n buf w mem _ j] assms(2) j by blast
  qed
qed

lemma waiting_goes_on:
  assumes "threads_ok P Q (w, ls, ts)" and "ts t = Waiting op" and "op_fits E Q (blocks_of w) op" and "os_malloc (x_os E) BLOCK_SIZE"
    and "\<forall>m. ls m = Readers 0"
  shows "\<exists>s'. own_step E (w, ls, ts) s'"
proof -
  obtain mem where mem: "n_bin w = Some mem" "blocks_of w \<le> 102"
    using assms(1) unfolding threads_ok_def prod.case by (metis nodo_okE)
  have ok: "nodo_ok w" using assms(1) by (simp add: threads_ok_def)
  have lock: "locked_map n w = Some mem" "times_BLOCK_SIZE n = Some (unat n * BLOCK_SIZE)" if "unat n < blocks_of w" for n
    using that mem locked_map_ok [OF ok that] by (simp_all add: times_BLOCK_SIZE_eq)
  show ?thesis
  proof (cases op)
    case (GetBlock n)
    then show ?thesis using own_step.ReadLock [of ts t n E w mem ls 0] assms lock by auto
  next
    case (SetBlock n d)
    then obtain str where "unat n < blocks_of w" "c_bytes d = Some str" using assms(3) by auto
    then show ?thesis using own_step.WriteLock [of ts t n d _ str w mem ls] assms(2,5) lock SetBlock by blast
  next
    case (SetBlockFromPacket n s)
    then have "unat n < blocks_of w" using assms(3) by simp
    then show ?thesis using own_step.PacketLock [of ts t n s _ w mem ls E] assms(2,5) lock SetBlockFromPacket
      by (metis prod.exhaust)
  qed
qed

lemma somebody_goes_on:
  assumes "threads_ok P Q (w, ls, ts)" and "\<forall>op \<in> P. op_fits E Q (blocks_of w) op" and "os_malloc (x_os E) BLOCK_SIZE" and "ts t \<noteq> Idle"
  shows "\<exists>s'. own_step E (w, ls, ts) s'"
proof (cases "\<exists>u m. reading (ts u) = Some m \<or> writing (ts u) = Some m")
  case True
  then obtain u m where "reading (ts u) = Some m \<or> writing (ts u) = Some m" by blast
  then show ?thesis using writer_goes_on [OF assms(1), of u] reader_goes_on [OF assms(1), of u] by (cases "ts u") auto
next
  case False
  have "locks_ok ls ts" using assms(1) by (simp add: threads_ok_def)
  then have free: "\<forall>m. ls m = Readers 0"
    using False locks_ok_at [of ls ts] by (metis (no_types, lifting) card.empty equals0I in_readers in_writers lock_ok_simps rwlock.exhaust insertI1)
  show ?thesis
  proof (cases "ts t")
    case (Waiting op)
    moreover from this have "op \<in> P" using assms(1) by (simp add: threads_ok_def)
    ultimately show ?thesis using waiting_goes_on [OF assms(1) _ _ assms(3) free] assms(2) by blast
  next
    case (Finished r)
    then show ?thesis using own_step.Return by blast
  next
    case (Reading n buf)
    then show ?thesis using False by (metis reading.simps(1))
  next
    case (Writing n todo nul r)
    then show ?thesis using False by (metis writing.simps(1))
  qed (use assms(4) in simp)
qed

lemma own_step_finite: "own_step E s s' \<Longrightarrow> finite (busy (snd (snd s))) \<Longrightarrow> finite (busy (snd (snd s')))"
  by (induction rule: own_step.induct; simp only: snd_conv finite_busy)

lemma threads_run_finite: "(thread_step E P)\<^sup>*\<^sup>* (node_at_rest w) s \<Longrightarrow> finite (busy (snd (snd s)))"
proof (induction rule: rtranclp_induct)
  case base
  show ?case by (simp add: node_at_rest_def)
next
  case (step s s')
  show ?case using step.hyps(2)
  proof (cases rule: thread_step.cases)
    case Own
    then show ?thesis using own_step_finite step.IH by blast
  next
    case (Ask ts t op w ls)
    then show ?thesis using step.IH by (simp only: snd_conv finite_busy)
  qed
qed

lemma own_steps_work:
  assumes "(own_step E ^^ k) s s'" and "threads_ok P Q s" and "\<forall>op \<in> P. op_fits E Q (blocks_of (fst s)) op" and "finite (busy (snd (snd s)))"
  shows "threads_ok P Q s' \<and> n_cfg (fst s') = n_cfg (fst s) \<and> k + threads_work (snd (snd s')) \<le> threads_work (snd (snd s)) \<and>
    finite (busy (snd (snd s')))"
  using assms(1)
proof (induction k arbitrary: s')
  case 0
  then show ?case using assms(2,4) by simp
next
  case (Suc k)
  then obtain s1 where s1: "(own_step E ^^ k) s s1" "own_step E s1 s'" by auto
  note IH = Suc.IH [OF s1(1)]
  have fits: "\<forall>op \<in> P. op_fits E Q (blocks_of (fst s1)) op" using IH assms(3) by simp
  then show ?case using IH own_step_ok [OF s1(2)] own_step_cfg [OF s1(2)] own_step_work [OF s1(2)] by fastforce
qed


section \<open>A run\<close>

text \<open>One thread stores a packet of two bytes in block 1 while another asks for the block.\<close>

definition locks_demo_net :: "chunk_net \<Rightarrow> bool" where
  "locks_demo_net net \<longleftrightarrow> fst net 5 = packet_bytes [65, 10] \<or> fst net 5 = []"

lemma be_zero: "be n 0 = replicate n 0"
  by (induction n) (simp_all add: replicate_append_same)

lemma of_be_zero: "of_be (replicate n 0) = 0"
  by (induction n) (simp_all add: of_be_def)

lemma locks_demo_fits: "op_fits (node_demo_env True) locks_demo_net (blocks_of (node_demo net)) (SetBlockFromPacket 1 5)"
proof -
  let ?E = "node_demo_env True"
  have "case socket_recv_packet_to_memory (x_os ?E) 5 0 net of (_, bs, sBuffer, net') \<Rightarrow>
      length bs \<le> BLOCK_SIZE \<and> unat sBuffer < BLOCK_SIZE \<and> locks_demo_net net'" if "locks_demo_net net" for net
  proof (cases "fst net 5 = []")
    case True
    obtain i out where net: "net = (i, out)" "i 5 = []" using True by (cases net) simp
    have "recv_attempts (chunk_os True) 5 8 3 net = (None, net)"
      by (subst recv_attempts.simps) (simp add: net chunk_os_def retryable_def fun_upd_idem)
    then have "recv_loop (chunk_os True) 5 8 [] net = (SOCKET_ERROR_RECV, [], net)" by (simp add: recv_loop.simps [of _ _ 8])
    then have "socket_recv_packet_to_memory (x_os ?E) 5 0 net = (SOCKET_ERROR_RECV, [], 0, net)"
      by (simp add: node_demo_env_def socket_recv_packet_to_memory_def socket_recv_integer_def socket_recv_def failed_status_iff
          size_of_host_def be64_def be_zero of_be_zero)
    then show ?thesis using that by simp
  next
    case False
    then have inp: "fst net 5 = packet_bytes [65, 10] @ []" using that by (simp add: locks_demo_net_def)
    have "packet_ok [65 :: byte, 10]" by (simp add: packet_ok_def)
    from reliable_os.recv_to_memory_reliable [OF node_demo_reliable [of True] inp this, of 0]
    show ?thesis by (auto simp: locks_demo_net_def BLOCK_SIZE_def)
  qed
  then show ?thesis by (auto simp: node_demo_def node_demo_cfg_def)
qed

text \<open>The store is half done: the first byte is there, and the reader still waits for the lock.\<close>

lemma locks_demo_run:
  fixes net :: chunk_net
  assumes "fst net 5 = packet_bytes [65, 10]"
  defines "P \<equiv> {SetBlockFromPacket 1 5, GetBlock 1}"
  shows "\<exists>w' ls ts. (thread_step (node_demo_env True) P)\<^sup>*\<^sup>* (node_at_rest (node_demo net)) (w', ls, ts) \<and>
    ts 0 = Writing 1 ((stores BLOCK_SIZE [65, 10])(BLOCK_SIZE := None)) (Some (BLOCK_SIZE + 2)) (PacketSet SOCKET_ERROR_NONE) \<and>
    ts 1 = Waiting (GetBlock 1) \<and> n_bin w' = Some ((replicate (2 * BLOCK_SIZE) 0)[BLOCK_SIZE := 65])"
proof -
  let ?E = "node_demo_env True" and ?w = "node_demo net"
  have "packet_ok [65 :: byte, 10]" by (simp add: packet_ok_def)
  from reliable_os.recv_to_memory_reliable [OF node_demo_reliable [of True] _ this, of net 5 "[]" 0] assms(1)
  obtain net' where r: "socket_recv_packet_to_memory (x_os ?E) 5 0 (n_net ?w) = (SOCKET_ERROR_NONE, [65, 10], 2, net')"
    by (auto simp: node_demo_def)
  define t1 where "t1 = (\<lambda>_ :: nat. Idle)(0 := Waiting (SetBlockFromPacket 1 5))"
  define t2 where "t2 = t1(1 := Waiting (GetBlock 1))"
  define t3 where "t3 = t2(0 := Writing 1 (stores BLOCK_SIZE [65, 10]) (Some (BLOCK_SIZE + unat (2 :: u64))) (PacketSet SOCKET_ERROR_NONE))"
  define t4 where "t4 = t3(0 := Writing 1 ((stores BLOCK_SIZE [65, 10])(BLOCK_SIZE := None)) (Some (BLOCK_SIZE + unat (2 :: u64))) (PacketSet SOCKET_ERROR_NONE))"
  let ?mem = "replicate (2 * BLOCK_SIZE) 0 :: byte list" and ?ls = "\<lambda>_ :: nat. Readers 0"
  have s1: "thread_step ?E P (node_at_rest ?w) (?w, ?ls, t1)" unfolding node_at_rest_def t1_def by (rule Ask) (simp_all add: P_def)
  have s2: "thread_step ?E P (?w, ?ls, t1) (?w, ?ls, t2)" unfolding t2_def by (rule Ask) (simp_all add: P_def t1_def)
  have "own_step ?E (?w, ?ls, t2) (?w\<lparr>n_net := net'\<rparr>, ?ls(unat (1 :: u16) := Writer), t3)"
    unfolding t3_def by (rule PacketLock [where mem = ?mem, OF _ _ _ _ r])
      (simp_all add: t2_def t1_def times_BLOCK_SIZE_eq locked_map_def node_demo_def)
  note s3 = Own [OF this, of P]
  have "own_step ?E (?w\<lparr>n_net := net'\<rparr>, ?ls(unat (1 :: u16) := Writer), t3)
      (?w\<lparr>n_net := net', n_bin := Some (?mem[BLOCK_SIZE := 65])\<rparr>, ?ls(unat (1 :: u16) := Writer), t4)"
    unfolding t4_def by (rule StoreByte [where todo = "stores BLOCK_SIZE [65, 10]"]) (simp_all add: t3_def stores_def node_demo_def)
  note s4 = Own [OF this, of P]
  have "(thread_step ?E P)\<^sup>*\<^sup>* (node_at_rest ?w)
      (?w\<lparr>n_net := net', n_bin := Some (?mem[BLOCK_SIZE := 65])\<rparr>, ?ls(unat (1 :: u16) := Writer), t4)"
    using s1 s2 s3 s4 by (meson converse_rtranclp_into_rtranclp rtranclp.rtrancl_refl)
  then show ?thesis by (intro exI conjI) (assumption, simp_all add: t4_def t3_def t2_def)
qed

definition locks_demo :: "chunk_net node_world" where
  "locks_demo = node_demo ((\<lambda>_. packet_bytes [65, 10]), (\<lambda>_. []))"

definition locks_demo_ops :: "block_op set" where
  "locks_demo_ops = {SetBlockFromPacket 1 5, GetBlock 1}"

lemma locks_demo_hyps:
  "nodo_ok locks_demo" "os_malloc (x_os (node_demo_env True)) BLOCK_SIZE"
  "\<forall>op \<in> locks_demo_ops. op_fits (node_demo_env True) locks_demo_net (blocks_of locks_demo) op" "locks_demo_net (n_net locks_demo)"
  using node_demo_ok locks_demo_fits
  by (simp_all add: locks_demo_def locks_demo_ops_def locks_demo_net_def node_demo_simps chunk_os_def del: op_fits.simps(3))

lemmas locks_demo_runs = locks_demo_run [of "((\<lambda>_. packet_bytes [65, 10]), (\<lambda>_. []))", folded locks_demo_def locks_demo_ops_def, simplified]

theorem locks_make_requests_whole_witness:
  "\<exists>w' ls ts v. (thread_step (node_demo_env True) locks_demo_ops)\<^sup>*\<^sup>* (node_at_rest locks_demo) (w', ls, ts) \<and>
    ts 1 = Waiting (GetBlock 1) \<and> n_bin w' = Some ((replicate (2 * BLOCK_SIZE) 0)[BLOCK_SIZE := 65]) \<and>
    (whole_step (node_demo_env True))\<^sup>*\<^sup>* (locks_demo, \<lambda>_. Quiet) (v, view \<circ> ts)"
proof -
  obtain w' ls ts where run: "(thread_step (node_demo_env True) locks_demo_ops)\<^sup>*\<^sup>* (node_at_rest locks_demo) (w', ls, ts)"
    and at: "ts 1 = Waiting (GetBlock 1)" "n_bin w' = Some ((replicate (2 * BLOCK_SIZE) 0)[BLOCK_SIZE := 65])"
    using locks_demo_runs unfolding One_nat_def by blast
  from locks_make_requests_whole [OF locks_demo_hyps run] at run show ?thesis by blast
qed


end
