(* ===== verification/Marta_Structs.thy ===== *)
theory Marta_Structs
  imports Commons Socket
begin

text \<open>
  \<open>MaRTA/src/structs\<close>: the jobs with their files, maps and reduces (\<open>job.c\<close>), and the storage
  nodes as MaRTA knows them, with the work each one has (\<open>node.c\<close>). Pointers to a node are
  positions in the list \<open>nodes\<close>. The names of temporary files are arrays of 60 bytes; they are
  built from the time, so the clock is a parameter, \<open>y_asctime\<close>, of the state of the outside
  world. The numbers in a name are printed into four bytes: from 1000 on that is undefined.
  Lemmas: two names built by the same \<open>MaRTA\<close> at one time are equal only for the same kind,
  job and number; what a node's work is after each operation.
\<close>

section \<open>Structures\<close>

record t_copy =
  cp_nodeName :: string
  cp_numBlock :: u16

record t_map =
  mp_id :: u16
  mp_copies :: "t_copy list"
  mp_nodeName :: string
  mp_nodeIP :: string
  mp_nodePort :: u16
  mp_numBlock :: u16
  mp_tempResultName :: "byte list"
  mp_done :: bool

record t_temp =
  tp_originMap :: u16
  tp_nodeID :: string
  tp_nodeIP :: string
  tp_nodePort :: u16
  tp_tempName :: "byte list"

text \<open>\<open>finalNode\<close> and \<open>nodeIP\<close> are NULL in a final reduce without a node.\<close>

record t_reduce =
  rd_id :: u16
  rd_temps :: "t_temp list"
  rd_finalNode :: "string option"
  rd_nodeIP :: "string option"
  rd_nodePort :: u16
  rd_tempResultName :: "byte list"
  rd_done :: bool

record t_file =
  tf_path :: string
  tf_blocks :: "t_copy list list"

record t_job =
  jb_socket :: int
  jb_id :: u16
  jb_combiner :: bool
  jb_resultFile :: string
  jb_files :: "t_file list"
  jb_maps :: "t_map list"
  jb_mapsDone :: u16
  jb_partialReduces :: "t_reduce list"
  jb_finalReduce :: t_reduce

text \<open>\<open>maps\<close> holds the block numbers of the maps that run on the node.\<close>

record t_node =
  tn_name :: string
  tn_ip :: string
  tn_port :: int
  tn_active :: bool
  tn_maps :: "u16 list"
  tn_reduces :: u16

record 'n marta =
  ma_nodes :: "t_node list"
  ma_fsSocket :: int
  ma_cantJobs :: u16
  ma_net :: 'n

record 'n marta_env = commons +
  y_os :: "'n os"
  y_connect :: "string \<Rightarrow> u16 \<Rightarrow> 'n \<Rightarrow> int \<times> 'n"
  y_asctime :: "'n \<Rightarrow> string"
  y_fsIP :: string
  y_fsPort :: u16

section \<open>job.c\<close>

definition CreateCopy :: "string \<Rightarrow> u16 \<Rightarrow> t_copy" where
  "CreateCopy nodeName numBlock = \<lparr>cp_nodeName = nodeName, cp_numBlock = numBlock\<rparr>"

definition getTime :: "('n, 'z) marta_env_scheme \<Rightarrow> 'n \<Rightarrow> string" where
  "getTime E n = map (\<lambda>c. if c = CHR '' '' \<or> c = CHR '':'' then CHR ''-'' else c) (take 24 (y_asctime E n))"

text \<open>\<open>sprintf\<close> of a number into four bytes, and \<open>strcpy\<close> into an array of 60.\<close>

definition sprintf4 :: "u16 \<Rightarrow> string option" where
  "sprintf4 k = (if length (dec (unat k)) < 4 then Some (dec (unat k)) else None)"

definition strcpy60 :: "byte list \<Rightarrow> string \<Rightarrow> byte list option" where
  "strcpy60 old s = (if length s < 60 then Some (str_bytes s @ 0 # drop (Suc (length s)) old) else None)"

definition temp_name :: "('n, 'z) marta_env_scheme \<Rightarrow> string \<Rightarrow> u16 \<Rightarrow> u16 \<Rightarrow> 'n \<Rightarrow> string option" where
  "temp_name E kind k jobID n =
     do {
       idJob \<leftarrow> sprintf4 jobID;
       num \<leftarrow> sprintf4 k;
       Some (getTime E n @ ''-Job'' @ idJob @ kind @ num @ ''.txt'')
     }"

definition setTempMapName :: "('n, 'z) marta_env_scheme \<Rightarrow> byte list \<Rightarrow> u16 \<Rightarrow> u16 \<Rightarrow> 'n \<Rightarrow> byte list option" where
  "setTempMapName E tempMapName mapID jobID n = Option.bind (temp_name E ''-Map'' mapID jobID n) (strcpy60 tempMapName)"

definition setTempReduceName :: "('n, 'z) marta_env_scheme \<Rightarrow> byte list \<Rightarrow> u16 \<Rightarrow> u16 \<Rightarrow> 'n \<Rightarrow> byte list option" where
  "setTempReduceName E tempResultName reduceID jobID n =
     Option.bind (temp_name E ''-Red'' reduceID jobID n) (strcpy60 tempResultName)"

text \<open>\<open>copies\<close> is set by the caller.\<close>

definition CreateMap :: "('n, 'z) marta_env_scheme \<Rightarrow> u16 \<Rightarrow> u16 \<Rightarrow> u16 \<Rightarrow> string \<Rightarrow> string \<Rightarrow> u16 \<Rightarrow> 'n \<Rightarrow> t_map option" where
  "CreateMap E i numBlock nodePort nodeName nodeIP jobID n =
     do {
       name \<leftarrow> setTempMapName E (replicate 60 0) i jobID n;
       Some \<lparr>mp_id = i, mp_copies = [], mp_nodeName = nodeName, mp_nodeIP = nodeIP, mp_nodePort = nodePort,
         mp_numBlock = numBlock, mp_tempResultName = name, mp_done = False\<rparr>
     }"

definition CreateTemp :: "string \<Rightarrow> string \<Rightarrow> u16 \<Rightarrow> u16 \<Rightarrow> byte list \<Rightarrow> t_temp option" where
  "CreateTemp nodeID nodeIP nodePort originMap tempName =
     do {
       name \<leftarrow> strcpy60 (replicate 60 0) (cstr tempName);
       Some \<lparr>tp_originMap = originMap, tp_nodeID = nodeID, tp_nodeIP = nodeIP, tp_nodePort = nodePort, tp_tempName = name\<rparr>
     }"

definition CreateFile :: "string \<Rightarrow> t_file" where
  "CreateFile path = \<lparr>tf_path = path, tf_blocks = []\<rparr>"

definition CreateReduce :: "('n, 'z) marta_env_scheme \<Rightarrow> u16 \<Rightarrow> string \<Rightarrow> string \<Rightarrow> u16 \<Rightarrow> u16 \<Rightarrow> 'n \<Rightarrow> t_reduce option" where
  "CreateReduce E i nodeName nodeIP nodePort jobID n =
     do {
       name \<leftarrow> setTempReduceName E (replicate 60 0) i jobID n;
       Some \<lparr>rd_id = i, rd_temps = [], rd_finalNode = Some nodeName, rd_nodeIP = Some nodeIP, rd_nodePort = nodePort,
         rd_tempResultName = name, rd_done = False\<rparr>
     }"

text \<open>The fields that \<open>initReduce\<close> leaves unset (number, port, \<open>done\<close>) are set by \<open>setFinalReduce\<close>
  and \<open>notificarReduce\<close> before they are read.\<close>

definition initReduce :: t_reduce where
  "initReduce = \<lparr>rd_id = 0, rd_temps = [], rd_finalNode = None, rd_nodeIP = None, rd_nodePort = 0,
     rd_tempResultName = replicate 60 0, rd_done = False\<rparr>"

definition setFinalReduce :: "('n, 'z) marta_env_scheme \<Rightarrow> t_reduce \<Rightarrow> string \<Rightarrow> string \<Rightarrow> u16 \<Rightarrow> u16 \<Rightarrow> 'n \<Rightarrow> t_reduce option" where
  "setFinalReduce E reduce nodeName nodeIP nodePort jobID n =
     do {
       name \<leftarrow> setTempReduceName E (rd_tempResultName reduce) 0 jobID n;
       Some (reduce\<lparr>rd_id := 0, rd_finalNode := Some nodeName, rd_nodeIP := Some nodeIP, rd_nodePort := nodePort,
         rd_tempResultName := name\<rparr>)
     }"

definition CreateJob :: "u16 \<Rightarrow> bool \<Rightarrow> string \<Rightarrow> t_job" where
  "CreateJob i combiner resultadoFinal =
     \<lparr>jb_socket = -1, jb_id = i, jb_combiner = combiner, jb_resultFile = resultadoFinal, jb_files = [], jb_maps = [],
      jb_mapsDone = 0, jb_partialReduces = [], jb_finalReduce = initReduce\<rparr>"

definition isMap :: "t_map \<Rightarrow> u16 \<Rightarrow> bool" where
  "isMap m idMap = (mp_id m = idMap)"

definition mapIsDone :: "t_map \<Rightarrow> bool" where
  "mapIsDone m = mp_done m"

definition isReduce :: "t_reduce \<Rightarrow> u16 \<Rightarrow> bool" where
  "isReduce r idReduce = (rd_id r = idReduce)"

section \<open>node.c\<close>

definition CreateNode :: "bool \<Rightarrow> string \<Rightarrow> int \<Rightarrow> string \<Rightarrow> t_node" where
  "CreateNode active IP port name =
     \<lparr>tn_name = name, tn_ip = IP, tn_port = port, tn_active = active, tn_maps = [], tn_reduces = 0\<rparr>"

definition nodeByName :: "'z commons_scheme \<Rightarrow> t_node \<Rightarrow> string \<Rightarrow> bool" where
  "nodeByName E node nombre = c_eq_ignore_case E (tn_name node) nombre"

definition workLoad :: "u16 list \<Rightarrow> u16 \<Rightarrow> nat" where
  "workLoad maps reduces = length maps + unat reduces"

definition isActive :: "t_node \<Rightarrow> bool" where
  "isActive node = tn_active node"

definition findNode :: "'z commons_scheme \<Rightarrow> t_node list \<Rightarrow> string \<Rightarrow> nat option" where
  "findNode E nodes nodeName = List.find (\<lambda>k. nodeByName E (nodes ! k) nodeName) [0..<length nodes]"

text \<open>Changing the node of a name; a missing one is a NULL pointer.\<close>

definition update_node :: "'z commons_scheme \<Rightarrow> string \<Rightarrow> (t_node \<Rightarrow> t_node) \<Rightarrow> 'n marta \<Rightarrow> 'n marta option" where
  "update_node E nodeName f w =
     map_option (\<lambda>k. w\<lparr>ma_nodes := (ma_nodes w)[k := f (ma_nodes w ! k)]\<rparr>) (findNode E (ma_nodes w) nodeName)"

definition removeMapNode :: "'z commons_scheme \<Rightarrow> t_map \<Rightarrow> 'n marta \<Rightarrow> 'n marta option" where
  "removeMapNode E m w =
     update_node E (mp_nodeName m) (\<lambda>node. node\<lparr>tn_maps := remove_first (\<lambda>b. b = mp_numBlock m) (tn_maps node)\<rparr>) w"

definition removeReduceNode :: "'z commons_scheme \<Rightarrow> t_reduce \<Rightarrow> 'n marta \<Rightarrow> 'n marta option" where
  "removeReduceNode E reduce w =
     Option.bind (rd_finalNode reduce) (\<lambda>name. update_node E name (\<lambda>node. node\<lparr>tn_reduces := tn_reduces node - 1\<rparr>) w)"

definition deactivateNode :: "'z commons_scheme \<Rightarrow> string \<Rightarrow> 'n marta \<Rightarrow> 'n marta option" where
  "deactivateNode E nodeName w = update_node E nodeName (\<lambda>node. node\<lparr>tn_active := False\<rparr>) w"

text \<open>The effect of freeing a job on the rest: its maps no longer count as work.\<close>

definition freeJob :: "'z commons_scheme \<Rightarrow> t_job \<Rightarrow> 'n marta \<Rightarrow> 'n marta option" where
  "freeJob E job w = fold_opt (removeMapNode E) (jb_maps job) w"

section \<open>Names of temporary files\<close>

lemma digit_not_dash: "d < 10 \<Longrightarrow> digit d \<noteq> CHR ''-'' \<and> digit d \<noteq> CHR ''.'' \<and> digit d \<noteq> CHR 0x00"
proof -
  assume d: "d < 10"
  have "(of_char (digit d) :: nat) = 48 + d" using d by (rule of_char_digit)
  moreover have "(of_char CHR ''-'' :: nat) = 45" "(of_char CHR ''.'' :: nat) = 46" "(of_char CHR 0x00 :: nat) = 0" by simp_all
  ultimately show ?thesis by fastforce
qed

lemma dec_chars: "c \<in> set (dec n) \<Longrightarrow> c \<noteq> CHR ''-'' \<and> c \<noteq> CHR ''.'' \<and> c \<noteq> CHR 0x00"
proof (induction n rule: dec.induct)
  case (1 n)
  then show ?case using digit_not_dash [of n] digit_not_dash [of "n mod 10"]
    by (cases "n < 10") (auto simp: dec.simps [of n])
qed

lemma split_at_char:
  assumes "a @ c # b = a' @ c # b'" and "c \<notin> set a" and "c \<notin> set a'"
  shows "a = a' \<and> b = b'"
  using assms
proof (induction a arbitrary: a')
  case Nil
  then show ?case by (cases a') auto
next
  case (Cons x a)
  then show ?case by (cases a') auto
qed

text \<open>Two names of one time are the same only for one kind, one job and one number.\<close>

lemma temp_name_inject:
  assumes "temp_name E kind k j n = Some s" and "temp_name E kind' k' j' n = Some s"
    and "kind \<in> {''-Map'', ''-Red''}" and "kind' \<in> {''-Map'', ''-Red''}"
  shows "kind = kind' \<and> k = k' \<and> j = j'"
proof -
  have s: "s = getTime E n @ ''-Job'' @ dec (unat j) @ kind @ dec (unat k) @ ''.txt''"
      "s = getTime E n @ ''-Job'' @ dec (unat j') @ kind' @ dec (unat k') @ ''.txt''"
    using assms by (auto simp: temp_name_def sprintf4_def bind_eq_Some_conv split: if_splits)
  obtain t t' where t: "kind = CHR ''-'' # t" "kind' = CHR ''-'' # t'" "length t = length t'" using assms(3,4) by auto
  have eq: "dec (unat j) @ CHR ''-'' # t @ dec (unat k) @ ''.txt'' = dec (unat j') @ CHR ''-'' # t' @ dec (unat k') @ ''.txt''"
    using s t by simp
  from split_at_char [OF eq] dec_chars have j: "unat j = unat j'" and
    r: "t @ dec (unat k) @ ''.txt'' = t' @ dec (unat k') @ ''.txt''" by auto
  from r t(3) have "t = t'" and k: "dec (unat k) @ CHR ''.'' # ''txt'' = dec (unat k') @ CHR ''.'' # ''txt''" by auto
  from split_at_char [OF k] dec_chars have "unat k = unat k'" by auto
  with j \<open>t = t'\<close> t show ?thesis by (simp add: word_unat_eq_iff)
qed

lemma length_getTime: "24 \<le> length (y_asctime E n) \<Longrightarrow> length (getTime E n) = 24"
  by (simp add: getTime_def)

lemma sprintf4_bound: "sprintf4 k = (if unat k < 1000 then Some (dec (unat k)) else None)"
proof -
  have "length (dec (unat k)) < 4 \<longleftrightarrow> unat k < 1000"
  proof (cases "unat k < 1000")
    case True
    then show ?thesis using length_dec_le [of "unat k" 3] by simp
  next
    case False
    have "length (dec m) \<ge> 4" if "1000 \<le> m" for m
    proof -
      have "dec m = dec (m div 10 div 10 div 10) @ [digit (m div 10 div 10 mod 10), digit (m div 10 mod 10), digit (m mod 10)]"
        using that by (subst dec.simps, subst dec.simps, subst dec.simps) auto
      then show ?thesis by (simp add: Suc_le_eq)
    qed
    with False show ?thesis by (simp add: not_less)
  qed
  then show ?thesis by (simp add: sprintf4_def)
qed

lemma temp_name_fits:
  assumes "24 \<le> length (y_asctime E n)" and "length kind = 4"
  shows "temp_name E kind k j n = (if unat k < 1000 \<and> unat j < 1000
    then Some (getTime E n @ ''-Job'' @ dec (unat j) @ kind @ dec (unat k) @ ''.txt'') else None)"
    and "temp_name E kind k j n = Some s \<Longrightarrow> length s < 60"
proof -
  show eq: "temp_name E kind k j n = (if unat k < 1000 \<and> unat j < 1000
      then Some (getTime E n @ ''-Job'' @ dec (unat j) @ kind @ dec (unat k) @ ''.txt'') else None)"
    by (simp add: temp_name_def sprintf4_bound)
  show "length s < 60" if "temp_name E kind k j n = Some s"
    using that assms length_dec_le [of "unat k" 3] length_dec_le [of "unat j" 3] length_getTime [OF assms(1)]
    by (auto simp: eq split: if_splits)
qed

text \<open>A name in its array.\<close>

lemma strcpy60_Some: "strcpy60 old s = Some bs \<Longrightarrow> length old = 60 \<Longrightarrow> c_string s \<Longrightarrow> length bs = 60 \<and> cstr bs = s \<and> 0 \<in> set bs"
  by (auto simp: strcpy60_def split: if_splits)

lemma dec_no_nul [simp]: "CHR 0x00 \<notin> set (dec k)"
  using dec_chars by blast

lemma c_string_name:
  assumes "temp_name E kind k j n = Some s" and "c_string (y_asctime E n)" and "kind \<in> {''-Map'', ''-Red''}"
  shows "c_string s"
  using assms by (auto simp: temp_name_def sprintf4_def bind_eq_Some_conv c_string_def getTime_def
      dest: in_set_takeD split: if_splits)

lemma setTempName_Some:
  assumes "24 \<le> length (y_asctime E n)" and "c_string (y_asctime E n)" and "length old = 60" and "kind \<in> {''-Map'', ''-Red''}"
  shows "Option.bind (temp_name E kind k j n) (strcpy60 old) = None \<longleftrightarrow> 1000 \<le> unat k \<or> 1000 \<le> unat j"
    and "Option.bind (temp_name E kind k j n) (strcpy60 old) = Some b \<Longrightarrow>
      length b = 60 \<and> 0 \<in> set b \<and> temp_name E kind k j n = Some (cstr b)"
proof -
  have len: "length kind = 4" using assms(4) by auto
  note fits = temp_name_fits [OF assms(1) len]
  show "Option.bind (temp_name E kind k j n) (strcpy60 old) = None \<longleftrightarrow> 1000 \<le> unat k \<or> 1000 \<le> unat j"
  proof (cases "temp_name E kind k j n")
    case None
    then show ?thesis using fits(1) by (auto split: if_splits)
  next
    case (Some s)
    then show ?thesis using fits(1) fits(2) [OF Some] by (auto simp: strcpy60_def split: if_splits)
  qed
  show "length b = 60 \<and> 0 \<in> set b \<and> temp_name E kind k j n = Some (cstr b)"
    if "Option.bind (temp_name E kind k j n) (strcpy60 old) = Some b"
    using that strcpy60_Some [OF _ assms(3)] c_string_name [OF _ assms(2,4)] by (auto simp: bind_eq_Some_conv)
qed

text \<open>C28. The names of temporary files do not collide and fit. Made at one time, the names of two maps
  are equal only for the same map of the same job, and a map and a reduce never share one; each
  is a NUL-terminated string in its 60 bytes. A job or a map numbered 1000 or more overflows the
  four bytes its number is printed into.\<close>

theorem temp_names_distinct:
  assumes "24 \<le> length (y_asctime E n)" and "c_string (y_asctime E n)" and "length old = 60" and "length old' = 60"
  shows "(setTempMapName E old k j n = None \<longleftrightarrow> 1000 \<le> unat k \<or> 1000 \<le> unat j) \<and>
    (\<forall>b. setTempMapName E old k j n = Some b \<longrightarrow> length b = 60 \<and> 0 \<in> set b \<and>
      (\<forall>b'. setTempMapName E old' k' j' n = Some b' \<longrightarrow> cstr b = cstr b' \<longrightarrow> k = k' \<and> j = j') \<and>
      (\<forall>b'. setTempReduceName E old' k' j' n = Some b' \<longrightarrow> cstr b \<noteq> cstr b'))"
proof -
  note m = setTempName_Some [OF assms(1-3), of "''-Map''"] and m' = setTempName_Some [OF assms(1,2,4), of "''-Map''"]
    and r' = setTempName_Some [OF assms(1,2,4), of "''-Red''"]
  show ?thesis unfolding setTempMapName_def setTempReduceName_def
  proof (intro conjI allI impI)
    fix b b' assume "Option.bind (temp_name E ''-Map'' k j n) (strcpy60 old) = Some b"
      and "Option.bind (temp_name E ''-Red'' k' j' n) (strcpy60 old') = Some b'"
    then have "temp_name E ''-Map'' k j n = Some (cstr b)" "temp_name E ''-Red'' k' j' n = Some (cstr b')"
      using m(2) r'(2) by simp_all
    then show "cstr b \<noteq> cstr b'" using temp_name_inject [of E "''-Map''" k j n "cstr b" "''-Red''" k' j'] by auto
  next
    fix b b' assume "Option.bind (temp_name E ''-Map'' k j n) (strcpy60 old) = Some b"
      and "Option.bind (temp_name E ''-Map'' k' j' n) (strcpy60 old') = Some b'" and "cstr b = cstr b'"
    then have "temp_name E ''-Map'' k j n = Some (cstr b)" "temp_name E ''-Map'' k' j' n = Some (cstr b)"
      using m(2) [of k j b] m'(2) [of k' j' b'] by simp_all
    from temp_name_inject [OF this] show "k = k'" "j = j'" by simp_all
  qed (use m in auto)
qed

definition marta_demo_env :: "bool \<Rightarrow> chunk_net marta_env" where
  "marta_demo_env le = \<lparr>c_test_bit = msb_test, c_set_bit = msb_set, c_clean_bit = msb_clean,
     c_split = drop_empty_split, c_eq_ignore_case = lower_eq,
     c_substring_until = (\<lambda>s n. take n s), c_substring_from = (\<lambda>s n. drop n s),
     y_os = chunk_os le, y_connect = (\<lambda>_ _ net. (7, net)), y_asctime = (\<lambda>_. ''Thu Jan  1 00:00:00 1970''),
     y_fsIP = ''127.0.0.1'', y_fsPort = 3000\<rparr>"

theorem temp_names_distinct_witness:
  "\<exists>b b'. setTempMapName (marta_demo_env True) (replicate 60 0) 3 1 ((\<lambda>_. []), (\<lambda>_. [])) = Some b \<and>
     setTempMapName (marta_demo_env True) (replicate 60 0) 4 1 ((\<lambda>_. []), (\<lambda>_. [])) = Some b' \<and> cstr b \<noteq> cstr b'"
proof -
  let ?E = "marta_demo_env True" and ?n = "((\<lambda>_. []), (\<lambda>_. [])) :: chunk_net"
  have t: "24 \<le> length (y_asctime ?E ?n)" "c_string (y_asctime ?E ?n)" "length (replicate 60 (0 :: byte)) = 60"
    by (simp_all add: marta_demo_env_def c_string_def)
  note d = temp_names_distinct [OF t t(3), of 3 1 4 1] and d' = temp_names_distinct [OF t t(3), of 4 1 4 1]
  from d d' have "setTempMapName ?E (replicate 60 0) 3 1 ?n \<noteq> None" "setTempMapName ?E (replicate 60 0) 4 1 ?n \<noteq> None" by simp_all
  then obtain b b' where "setTempMapName ?E (replicate 60 0) 3 1 ?n = Some b" "setTempMapName ?E (replicate 60 0) 4 1 ?n = Some b'" by auto
  with d show ?thesis by auto
qed

end
