(* ===== verification/Marta_Connections.thy ===== *)
theory Marta_Connections
  imports Marta_Structs
begin

text \<open>
  \<open>MaRTA/src/Connections\<close>: the connection to the file system (\<open>FSConnection.c\<close>: asking for the
  blocks of a file, ordering the copy of the final result) and the messages to and from a job
  (\<open>JobConnection.c\<close>). Every loop that waits for the file system may run for ever, so those are
  partial functions. A thread that ends with \<open>pthread_exit\<close> has no result: the inner
  \<^const>\<open>None\<close> of \<open>thread\<close>; the outer one is undefined behaviour or a wait without end.
\<close>

type_synonym ('a, 'n) thread = "('a option \<times> 'n marta) option"

section \<open>The file system: connection\<close>

text \<open>\<open>connectFS\<close> and \<open>FSConnectionLost\<close> call each other while the handshake fails.\<close>

partial_function (option) connectFS :: "('n, 'z) marta_env_scheme \<Rightarrow> 'n marta \<Rightarrow> 'n marta option" where
  "connectFS E w =
     (if 0 \<le> ma_fsSocket w then Some w
      else let c = y_connect E (y_fsIP E) (y_fsPort E) (ma_net w)
           in if 0 > fst c then connectFS E (w\<lparr>ma_net := snd c\<rparr>)
              else Option.bind (socket_handshake_to_server (y_os E) (fst c) HANDSHAKE_FILESYSTEM HANDSHAKE_MARTA (snd c))
                (\<lambda>r. if HANDSHAKE_FILESYSTEM \<noteq> fst r then connectFS E (w\<lparr>ma_net := snd r\<rparr>)
                     else Some (w\<lparr>ma_fsSocket := fst c, ma_net := snd r\<rparr>)))"

definition FSConnectionLost :: "('n, 'z) marta_env_scheme \<Rightarrow> 'n marta \<Rightarrow> 'n marta option" where
  "FSConnectionLost E w = connectFS E (w\<lparr>ma_fsSocket := -1\<rparr>)"

definition initFSConnection :: "('n, 'z) marta_env_scheme \<Rightarrow> 'n marta \<Rightarrow> 'n marta option" where
  "initFSConnection E w = connectFS E (w\<lparr>ma_fsSocket := -1\<rparr>)"

definition ma_send :: "('n, 'z) marta_env_scheme \<Rightarrow> int \<Rightarrow> byte list \<Rightarrow> 'n marta \<Rightarrow> e_socket_status \<times> 'n marta" where
  "ma_send E s p w = (case socket_send_packet (y_os E) s (Some p) (ma_net w) of (status, n) \<Rightarrow> (status, w\<lparr>ma_net := n\<rparr>))"

definition ma_recv :: "('n, 'z) marta_env_scheme \<Rightarrow> int \<Rightarrow> 'n marta \<Rightarrow> e_socket_status \<times> byte list option \<times> 'n marta" where
  "ma_recv E s w = (case socket_recv_packet (y_os E) s 0 (ma_net w) of (status, p, _, n) \<Rightarrow> (status, p, w\<lparr>ma_net := n\<rparr>))"

text \<open>\<open>while (0 > socket_send_packet(...)) FSConnectionLost();\<close>\<close>

partial_function (option) send_until :: "('n, 'z) marta_env_scheme \<Rightarrow> byte list \<Rightarrow> 'n marta \<Rightarrow> 'n marta option" where
  "send_until E p w =
     (let r = ma_send E (ma_fsSocket w) p w
      in if 0 > status_code (fst r) then Option.bind (FSConnectionLost E (snd r)) (send_until E p)
         else Some (snd r))"

text \<open>\<open>while (0 > socket_recv_packet(...))\<close>: after a lost connection \<open>requestFileBlocks\<close> sends its
  request again, \<open>copyFinalTemporal\<close> does not.\<close>

partial_function (option) recv_until :: "('n, 'z) marta_env_scheme \<Rightarrow> byte list option \<Rightarrow> 'n marta \<Rightarrow> (byte list \<times> 'n marta) option" where
  "recv_until E again w =
     (let r = ma_recv E (ma_fsSocket w) w
      in if 0 > status_code (fst r)
         then Option.bind (FSConnectionLost E (snd (snd r)))
           (\<lambda>w1. Option.bind (case again of Some p \<Rightarrow> send_until E p w1 | None \<Rightarrow> Some w1) (recv_until E again))
         else map_option (\<lambda>b. (b, snd (snd r))) (fst (snd r)))"

section \<open>The file system: the blocks of a file\<close>

definition requestFileBlocks_bytes :: "string \<Rightarrow> byte list" where
  "requestFileBlocks_bytes path =
     (let sfilePath = word_of_nat (length path) :: u32
      in COMMAND_MARTA_TO_FS_GET_FILE_BLOCKS # be32 sfilePath @ take (unat sfilePath) (str_bytes path))"

text \<open>A copy in the answer: node, address, port and block of the node.\<close>

type_synonym reply_copy = "string \<times> string \<times> u16 \<times> u16"

definition get_copy :: "byte list \<Rightarrow> (reply_copy \<times> byte list) option" where
  "get_copy bs =
     do {
       (sNodeId, r) \<leftarrow> get_u32 bs;
       (nodeId, r) \<leftarrow> get_str (unat sNodeId) r;
       (sNodeIp, r) \<leftarrow> get_u16 r;
       (nodeIp, r) \<leftarrow> get_str (unat sNodeIp) r;
       (nodePort, r) \<leftarrow> get_u16 r;
       (nodeBlockNumber, r) \<leftarrow> get_u16 r;
       Some ((nodeId, nodeIp, nodePort, nodeBlockNumber), r)
     }"

fun get_copies :: "nat \<Rightarrow> byte list \<Rightarrow> (reply_copy list \<times> byte list) option" where
  "get_copies 0 bs = Some ([], bs)"
| "get_copies (Suc n) bs = do { (c, r) \<leftarrow> get_copy bs; (cs, r) \<leftarrow> get_copies n r; Some (c # cs, r) }"

fun get_blocks :: "nat \<Rightarrow> byte list \<Rightarrow> reply_copy list list option" where
  "get_blocks 0 bs = Some []"
| "get_blocks (Suc n) bs =
     do { (copyesCount, r) \<leftarrow> get_u16 bs; (cs, r) \<leftarrow> get_copies (unat copyesCount) r; rest \<leftarrow> get_blocks n r; Some (cs # rest) }"

definition get_reply :: "byte list \<Rightarrow> reply_copy list list option" where
  "get_reply buffer = do { (blocksCount, r) \<leftarrow> get_u16 buffer; get_blocks (unat blocksCount) r }"

definition updateNodes :: "'z commons_scheme \<Rightarrow> string \<Rightarrow> string \<Rightarrow> u16 \<Rightarrow> t_node list \<Rightarrow> t_node list" where
  "updateNodes E nodeID nodeIP nodePort nodes =
     (case findNode E nodes nodeID of
        Some k \<Rightarrow> nodes[k := (nodes ! k)\<lparr>tn_ip := nodeIP, tn_port := uint nodePort, tn_active := True\<rparr>]
      | None \<Rightarrow> nodes @ [CreateNode True nodeIP (uint nodePort) nodeID])"

text \<open>The file gets its blocks added, and every node named is active.\<close>

definition take_reply :: "'z commons_scheme \<Rightarrow> reply_copy list list \<Rightarrow> t_file \<Rightarrow> 'n marta \<Rightarrow> bool \<times> t_file \<times> 'n marta" where
  "take_reply E blocks fi w =
     (if blocks = [] then (False, fi, w)
      else (True, fi\<lparr>tf_blocks := tf_blocks fi @ map (map (\<lambda>(i, ip, port, b). CreateCopy i b)) blocks\<rparr>,
        w\<lparr>ma_nodes := fold (\<lambda>(i, ip, port, b). updateNodes E i ip port) (concat blocks) (ma_nodes w)\<rparr>))"

definition requestFileBlocks :: "('n, 'z) marta_env_scheme \<Rightarrow> t_file \<Rightarrow> 'n marta \<Rightarrow> (bool \<times> t_file \<times> 'n marta) option" where
  "requestFileBlocks E fi w =
     do {
       let p = requestFileBlocks_bytes (tf_path fi);
       w1 \<leftarrow> send_until E p w;
       (buffer, w2) \<leftarrow> recv_until E (Some p) w1;
       blocks \<leftarrow> get_reply buffer;
       Some (take_reply E blocks fi w2)
     }"

section \<open>Orders to a job\<close>

definition sendDieOrder :: "('n, 'z) marta_env_scheme \<Rightarrow> int \<Rightarrow> byte \<Rightarrow> 'n marta \<Rightarrow> e_socket_status \<times> 'n marta" where
  "sendDieOrder E socket result w = ma_send E socket [COMMAND_MARTA_TO_JOB_DIE, result] w"

definition map_order_bytes :: "t_map \<Rightarrow> byte list" where
  "map_order_bytes m =
     (let snodeIP = word_of_nat (length (mp_nodeIP m)) :: u16
      in COMMAND_MAP # be16 (mp_id m) @ be16 snodeIP @ take (unat snodeIP) (str_bytes (mp_nodeIP m)) @
         be16 (mp_nodePort m) @ be16 (mp_numBlock m) @ mp_tempResultName m)"

definition serializeMapToOrder :: "('n, 'z) marta_env_scheme \<Rightarrow> int \<Rightarrow> t_map \<Rightarrow> 'n marta \<Rightarrow> e_socket_status \<times> 'n marta" where
  "serializeMapToOrder E socket m w = ma_send E socket (map_order_bytes m) w"

definition serializeTemp :: "t_temp \<Rightarrow> byte list" where
  "serializeTemp temporal =
     (let snodeID = word_of_nat (length (tp_nodeID temporal)) :: u16; snodeIP = word_of_nat (length (tp_nodeIP temporal)) :: u16
      in be16 snodeID @ take (unat snodeID) (str_bytes (tp_nodeID temporal)) @
         be16 snodeIP @ take (unat snodeIP) (str_bytes (tp_nodeIP temporal)) @
         be16 (tp_nodePort temporal) @ tp_tempName temporal)"

definition reduce_order_bytes :: "t_reduce \<Rightarrow> byte list option" where
  "reduce_order_bytes reduce =
     map_option (\<lambda>nodeIP.
       let snodeIP = word_of_nat (length nodeIP) :: u16
       in COMMAND_REDUCE # be16 (rd_id reduce) @ be16 snodeIP @ take (unat snodeIP) (str_bytes nodeIP) @
          be16 (rd_nodePort reduce) @ rd_tempResultName reduce @ be16 (word_of_nat (length (rd_temps reduce))) @
          concat (map serializeTemp (rd_temps reduce))) (rd_nodeIP reduce)"

definition serializeReduceToOrder :: "('n, 'z) marta_env_scheme \<Rightarrow> int \<Rightarrow> t_reduce \<Rightarrow> 'n marta \<Rightarrow> (e_socket_status \<times> 'n marta) option" where
  "serializeReduceToOrder E socket reduce w = map_option (\<lambda>p. ma_send E socket p w) (reduce_order_bytes reduce)"

section \<open>The end of a job's thread\<close>

definition exit_job :: "('n, 'z) marta_env_scheme \<Rightarrow> t_job \<Rightarrow> 'n marta \<Rightarrow> ('a, 'n) thread" where
  "exit_job E job w = map_option (Pair None) (freeJob E job w)"

definition notifFileUnavailable :: "('n, 'z) marta_env_scheme \<Rightarrow> t_job \<Rightarrow> 'n marta \<Rightarrow> ('a, 'n) thread" where
  "notifFileUnavailable E job w = exit_job E job (snd (sendDieOrder E (jb_socket job) COMMAND_RESULT_FILEUNAVAILABLE w))"

section \<open>The copy of the final result\<close>

definition copyFinalTemporal_bytes :: "t_job \<Rightarrow> byte list option" where
  "copyFinalTemporal_bytes job =
     map_option (\<lambda>finalNode.
       let sNodeID = word_of_nat (length finalNode) :: u16; sResultFile = word_of_nat (length (jb_resultFile job)) :: u16
       in COMMAND_MARTA_TO_FS_GET_COPY_FINAL_RESULT # be16 sNodeID @ take (unat sNodeID) (str_bytes finalNode) @
          be16 sResultFile @ take (unat sResultFile) (str_bytes (jb_resultFile job)) @
          rd_tempResultName (jb_finalReduce job)) (rd_finalNode (jb_finalReduce job))"

definition copyFinalTemporal :: "('n, 'z) marta_env_scheme \<Rightarrow> t_job \<Rightarrow> 'n marta \<Rightarrow> (bool, 'n) thread" where
  "copyFinalTemporal E job w =
     do {
       buffer \<leftarrow> copyFinalTemporal_bytes job;
       w1 \<leftarrow> send_until E buffer w;
       (finalBuffer, w2) \<leftarrow> recv_until E None w1;
       (result, r) \<leftarrow> get_u8 finalBuffer;
       (if result \<noteq> 0 then Some (Some True, w2)
        else do {
          (reason, _) \<leftarrow> get_u8 r;
          (if reason = COMMAND_RESULT_CANT_COPY then exit_job E job (snd (sendDieOrder E (jb_socket job) reason w2))
           else Some (Some False, w2))
        })
     }"

section \<open>Requests and results of a job\<close>

text \<open>What the job asks for: whether it has a combiner, the result file, the paths of the files.\<close>

definition stringsToPathFile :: "'z commons_scheme \<Rightarrow> string \<Rightarrow> t_file list" where
  "stringsToPathFile E string = map CreateFile (c_split E string '' '')"

definition job_request :: "byte list \<Rightarrow> (bool \<times> string \<times> string) option" where
  "job_request buffer =
     do {
       (combiner, r) \<leftarrow> get_u8 buffer;
       (sresultadoFinal, r) \<leftarrow> get_u16 r;
       (resultadoFinal, r) \<leftarrow> get_str (unat sresultadoFinal) r;
       Some (combiner \<noteq> 0, resultadoFinal, cstr r)
     }"

text \<open>After a failed reception an unset pointer is freed: undefined.\<close>

definition desserializeJob :: "('n, 'z) marta_env_scheme \<Rightarrow> int \<Rightarrow> u16 \<Rightarrow> 'n marta \<Rightarrow> (t_job \<times> 'n marta) option" where
  "desserializeJob E socket i w =
     (case ma_recv E socket w of (status, p, w1) \<Rightarrow>
        if 0 > status_code status then None
        else do {
          buffer \<leftarrow> p;
          (combiner, resultadoFinal, stringFiles) \<leftarrow> job_request buffer;
          Some ((CreateJob i combiner resultadoFinal)\<lparr>jb_files := stringsToPathFile E stringFiles\<rparr>, w1)
        })"

definition mapResult :: "byte list \<Rightarrow> (bool \<times> u16) option" where
  "mapResult r = do { (result, r) \<leftarrow> get_u8 r; (idMap, _) \<leftarrow> get_u16 r; Some (result \<noteq> 0, idMap) }"

text \<open>The result of a reduce: the failed node, if it failed.\<close>

definition reduceResult :: "byte list \<Rightarrow> (u16 \<times> string option) option" where
  "reduceResult r =
     do {
       (result, r) \<leftarrow> get_u8 r;
       (idReduce, r) \<leftarrow> get_u16 r;
       (if result \<noteq> 0 then Some (idReduce, None)
        else do { (snodeID, r) \<leftarrow> get_u16 r; (nodeID, _) \<leftarrow> get_str (unat snodeID) r; Some (idReduce, Some nodeID) })
     }"

definition find_index :: "('a \<Rightarrow> bool) \<Rightarrow> 'a list \<Rightarrow> nat option" where
  "find_index p xs = List.find (\<lambda>k. p (xs ! k)) [0..<length xs]"

definition desserializaReduceResult :: "('n, 'z) marta_env_scheme \<Rightarrow> byte list \<Rightarrow> t_job \<Rightarrow> 'n marta \<Rightarrow>
    (string option \<times> t_job \<times> 'n marta) option" where
  "desserializaReduceResult E r job w =
     do {
       (idReduce, failed) \<leftarrow> reduceResult r;
       k \<leftarrow> (if idReduce = 0 then Some None
             else map_option Some (find_index (\<lambda>rd. isReduce rd idReduce) (jb_partialReduces job)));
       let reduce = (case k of None \<Rightarrow> jb_finalReduce job | Some i \<Rightarrow> jb_partialReduces job ! i);
       w1 \<leftarrow> removeReduceNode E reduce w;
       (case failed of
          None \<Rightarrow>
            let reduce' = reduce\<lparr>rd_done := True\<rparr>
            in Some (None, (case k of None \<Rightarrow> job\<lparr>jb_finalReduce := reduce'\<rparr>
                 | Some i \<Rightarrow> job\<lparr>jb_partialReduces := (jb_partialReduces job)[i := reduce']\<rparr>), w1)
        | Some nodeID \<Rightarrow> do {
            node \<leftarrow> (if nodeID = ''ErrorAlConectar'' then rd_finalNode reduce else Some nodeID);
            w2 \<leftarrow> deactivateNode E node w1;
            Some (Some node, job, w2)
          })
     }"

end
