(* ===== verification/Marta_Planning.thy ===== *)
theory Marta_Planning
  imports Marta_Connections
begin

text \<open>
  \<open>MaRTA/src/Planning\<close> and the thread of a job (\<open>acceptJob\<close>, \<open>recvResult\<close>). Maps: each block of
  the job's files is mapped on the least busy active node that has a copy of it, and again on
  another node when the map fails. Reduces: without a combiner all results go to one reduce on
  the node with most of them; with a combiner each node reduces its own results first. A node
  that fails has its maps planned again and the reduces start over.

  A job's thread is modelled alone here; \<open>Marta_Jobs\<close> has several. The loops that wait for results
  may run for ever, so they are partial functions.
\<close>

section \<open>MapPlanning.c\<close>

text \<open>\<open>lessWorkLoad\<close> of two nodes, the first of which may be NULL.\<close>

definition lessWorkLoad :: "t_node list \<Rightarrow> nat option \<Rightarrow> nat \<Rightarrow> bool" where
  "lessWorkLoad nodes lessBusy busy =
     (case lessBusy of
        None \<Rightarrow> False
      | Some k \<Rightarrow> workLoad (tn_maps (nodes ! k)) (tn_reduces (nodes ! k)) < workLoad (tn_maps (nodes ! busy)) (tn_reduces (nodes ! busy)))"

text \<open>The selected node so far and the block; \<open>isActive(NULL)\<close> is undefined.\<close>

definition selectNode :: "'z commons_scheme \<Rightarrow> t_node list \<Rightarrow> t_copy \<Rightarrow> (nat \<times> u16) option \<Rightarrow> (nat \<times> u16) option option" where
  "selectNode E nodes copy selected =
     (let actualNode = findNode E nodes (cp_nodeName copy) in
      if (case selected of None \<Rightarrow> True | Some s \<Rightarrow> lessWorkLoad nodes actualNode (fst s))
      then do { k \<leftarrow> actualNode; Some (if isActive (nodes ! k) then Some (k, cp_numBlock copy) else selected) }
      else Some selected)"

definition select_for_map :: "'z commons_scheme \<Rightarrow> t_node list \<Rightarrow> t_copy list \<Rightarrow> (nat \<times> u16) option option" where
  "select_for_map E nodes copies = fold_opt (selectNode E nodes) copies None"

definition notificarMap :: "('n, 'z) marta_env_scheme \<Rightarrow> t_job \<Rightarrow> nat \<Rightarrow> 'n marta \<Rightarrow> (t_job, 'n) thread" where
  "notificarMap E job k w =
     (let m = (jb_maps job ! k)\<lparr>mp_done := False\<rparr>; job = job\<lparr>jb_maps := (jb_maps job)[k := m]\<rparr>;
          (status, w1) = serializeMapToOrder E (jb_socket job) m w
      in if 0 > status_code status then exit_job E job w1 else Some (Some job, w1))"

text \<open>The blocks of every file of the job are asked for; whether all are available.\<close>

fun request_files :: "('n, 'z) marta_env_scheme \<Rightarrow> t_file list \<Rightarrow> 'n marta \<Rightarrow> (bool \<times> t_file list \<times> 'n marta) option" where
  "request_files E [] w = Some (True, [], w)"
| "request_files E (fi # files) w =
     do {
       (ok, fi', w1) \<leftarrow> requestFileBlocks E fi w;
       (oks, files', w2) \<leftarrow> request_files E files w1;
       Some (ok \<and> oks, fi' # files', w2)
     }"

text \<open>\<open>mapPlanning\<close>: a block whose nodes are all inactive only takes the work of the maps planned
  so far off their nodes. The node is chosen under the mutex of the nodes; \<open>add_map\<close> is what is
  done without it.\<close>

definition add_map :: "('n, 'z) marta_env_scheme \<Rightarrow> t_copy list \<Rightarrow> nat \<Rightarrow> u16 \<Rightarrow> t_job \<Rightarrow> 'n marta \<Rightarrow> (t_job, 'n) thread" where
  "add_map E copies k numBlock job w =
     do {
       let node = ma_nodes w ! k;
       let w1 = w\<lparr>ma_nodes := (ma_nodes w)[k := node\<lparr>tn_maps := tn_maps node @ [numBlock]\<rparr>]\<rparr>;
       mapPlanned \<leftarrow> CreateMap E (word_of_nat (length (jb_maps job))) numBlock (word_of_int (tn_port node)) (tn_name node)
         (tn_ip node) (jb_id job) (ma_net w1);
       notificarMap E (job\<lparr>jb_maps := jb_maps job @ [mapPlanned\<lparr>mp_copies := copies\<rparr>]\<rparr>) (length (jb_maps job)) w1
     }"

definition mapPlanning :: "('n, 'z) marta_env_scheme \<Rightarrow> t_copy list \<Rightarrow> t_job \<Rightarrow> 'n marta \<Rightarrow> (t_job, 'n) thread" where
  "mapPlanning E copies job w =
     do {
       selected \<leftarrow> select_for_map E (ma_nodes w) copies;
       (case selected of
          None \<Rightarrow> map_option (Pair (Some job)) (fold_opt (removeMapNode E) (jb_maps job) w)
        | Some (k, numBlock) \<Rightarrow> add_map E copies k numBlock job w)
     }"

fun plan_blocks :: "('n, 'z) marta_env_scheme \<Rightarrow> t_copy list list \<Rightarrow> t_job \<Rightarrow> 'n marta \<Rightarrow> (t_job, 'n) thread" where
  "plan_blocks E [] job w = Some (Some job, w)"
| "plan_blocks E (copies # blocks) job w =
     Option.bind (mapPlanning E copies job w)
       (\<lambda>r. case r of (None, w1) \<Rightarrow> Some (None, w1) | (Some job1, w1) \<Rightarrow> plan_blocks E blocks job1 w1)"

text \<open>\<open>rePlanMap\<close> up to the order: the map with the number \<open>k\<close> goes to another node.\<close>

definition rePlan_order :: "('n, 'z) marta_env_scheme \<Rightarrow> nat \<Rightarrow> t_job \<Rightarrow> 'n marta \<Rightarrow> (bool \<times> t_job, 'n) thread" where
  "rePlan_order E k job w =
     do {
       (_, files, w1) \<leftarrow> request_files E (jb_files job) w;
       let job1 = job\<lparr>jb_files := files\<rparr>;
       let m = jb_maps job1 ! k;
       selected \<leftarrow> select_for_map E (ma_nodes w1) (mp_copies m);
       (case selected of
          None \<Rightarrow> Some (Some (False, job1), w1)
        | Some (i, numBlock) \<Rightarrow> do {
            let node = ma_nodes w1 ! i;
            name \<leftarrow> setTempMapName E (mp_tempResultName m) (mp_id m) (jb_id job1) (ma_net w1);
            let m' = m\<lparr>mp_nodeName := tn_name node, mp_nodeIP := tn_ip node, mp_nodePort := word_of_int (tn_port node),
              mp_numBlock := numBlock, mp_tempResultName := name\<rparr>;
            (r, w2) \<leftarrow> notificarMap E (job1\<lparr>jb_maps := (jb_maps job1)[k := m']\<rparr>) k w1;
            Some (map_option (Pair True) r, w2)
          })
     }"

section \<open>Results\<close>

text \<open>\<open>desserializeMapResult\<close> up to the new plan: the number of the map when it failed.\<close>

definition desserializeMapResult :: "('n, 'z) marta_env_scheme \<Rightarrow> byte list \<Rightarrow> t_job \<Rightarrow> 'n marta \<Rightarrow>
    (nat option \<times> t_job \<times> 'n marta) option" where
  "desserializeMapResult E r job w =
     do {
       (result, idMap) \<leftarrow> mapResult r;
       k \<leftarrow> find_index (\<lambda>m. isMap m idMap) (jb_maps job);
       let m = jb_maps job ! k;
       w1 \<leftarrow> removeMapNode E m w;
       (if result then Some (None, job\<lparr>jb_maps := (jb_maps job)[k := m\<lparr>mp_done := True\<rparr>], jb_mapsDone := jb_mapsDone job + 1\<rparr>, w1)
        else do { w2 \<leftarrow> deactivateNode E (mp_nodeName m) w1; Some (Some k, job, w2) })
     }"

text \<open>
  One message of the job. A failed map is planned again at once, and its result awaited by a
  nested \<open>recvResult\<close> whose own answer is dropped.
\<close>

partial_function (option) recvResult :: "('n, 'z) marta_env_scheme \<Rightarrow> t_job \<Rightarrow> 'n marta \<Rightarrow> (string option \<times> t_job, 'n) thread" where
  "recvResult E job w =
     (case ma_recv E (jb_socket job) w of (status, p, w1) \<Rightarrow>
        if 0 > status_code status then exit_job E job w1
        else Option.bind p (\<lambda>buffer. Option.bind (get_u8 buffer) (\<lambda>h.
          if fst h = COMMAND_MAP then
            Option.bind (desserializeMapResult E (snd h) job w1) (\<lambda>res. case res of (failed, job1, w2) \<Rightarrow>
              (case failed of
                 None \<Rightarrow> Some (Some (None, job1), w2)
               | Some k \<Rightarrow> Option.bind (rePlan_order E k job1 w2) (\<lambda>r. case r of (r', w3) \<Rightarrow>
                   (case r' of
                      None \<Rightarrow> Some (None, w3)
                    | Some (planned, job2) \<Rightarrow>
                        if planned then Option.bind (recvResult E job2 w3)
                          (\<lambda>q. Some (map_option (\<lambda>x. (None, snd x)) (fst q), snd q))
                        else notifFileUnavailable E job2 w3))))
          else if fst h = COMMAND_REDUCE then
            map_option (\<lambda>(nodeID, job1, w2). (Some (nodeID, job1), w2)) (desserializaReduceResult E (snd h) job w1)
          else Some (Some (None, job), w1))))"

fun recv_results :: "('n, 'z) marta_env_scheme \<Rightarrow> nat \<Rightarrow> t_job \<Rightarrow> 'n marta \<Rightarrow> (string list \<times> t_job, 'n) thread" where
  "recv_results E 0 job w = Some (Some ([], job), w)"
| "recv_results E (Suc n) job w =
     Option.bind (recvResult E job w) (\<lambda>r. case r of
         (None, w1) \<Rightarrow> Some (None, w1)
       | (Some (fallen, job1), w1) \<Rightarrow>
           Option.bind (recv_results E n job1 w1) (\<lambda>q. Some (map_option (\<lambda>(nodes, job2).
             ((case fallen of None \<Rightarrow> nodes | Some i \<Rightarrow> i # nodes), job2)) (fst q), snd q)))"

definition planMaps :: "('n, 'z) marta_env_scheme \<Rightarrow> t_job \<Rightarrow> 'n marta \<Rightarrow> (t_job, 'n) thread" where
  "planMaps E job w =
     do {
       (filesAvailables, files, w1) \<leftarrow> request_files E (jb_files job) w;
       let job1 = job\<lparr>jb_files := files\<rparr>;
       (if filesAvailables then
          Option.bind (plan_blocks E (concat (map tf_blocks files)) job1 w1) (\<lambda>r. case r of
              (None, w2) \<Rightarrow> Some (None, w2)
            | (Some job2, w2) \<Rightarrow>
                Option.bind (recv_results E (length (jb_maps job2)) job2 w2) (\<lambda>q. Some (map_option snd (fst q), snd q)))
        else notifFileUnavailable E job1 w1)
     }"

definition rePlanMap :: "('n, 'z) marta_env_scheme \<Rightarrow> nat \<Rightarrow> t_job \<Rightarrow> 'n marta \<Rightarrow> (bool \<times> t_job, 'n) thread" where
  "rePlanMap E k job w =
     Option.bind (rePlan_order E k job w) (\<lambda>r. case r of
         (None, w1) \<Rightarrow> Some (None, w1)
       | (Some (planned, job1), w1) \<Rightarrow>
           if planned then Option.bind (recvResult E job1 w1) (\<lambda>q. Some (map_option (\<lambda>x. (True, snd x)) (fst q), snd q))
           else Some (Some (False, job1), w1))"

section \<open>ReducePlanning.c\<close>

definition notificarReduce :: "('n, 'z) marta_env_scheme \<Rightarrow> t_job \<Rightarrow> t_reduce \<Rightarrow> 'n marta \<Rightarrow> (unit, 'n) thread" where
  "notificarReduce E job reduce w =
     do {
       finalNode \<leftarrow> rd_finalNode reduce;
       w1 \<leftarrow> update_node E finalNode (\<lambda>node. node\<lparr>tn_reduces := tn_reduces node + 1\<rparr>) w;
       (status, w2) \<leftarrow> serializeReduceToOrder E (jb_socket job) reduce w1;
       (if 0 > status_code status then exit_job E job w2 else Some (Some (), w2))
     }"

definition mapToTemporal :: "t_map \<Rightarrow> t_temp option" where
  "mapToTemporal m = CreateTemp (mp_nodeName m) (mp_nodeIP m) (mp_nodePort m) (mp_id m) (mp_tempResultName m)"

definition reduceToTemporal :: "t_reduce \<Rightarrow> t_temp option" where
  "reduceToTemporal reduce =
     do { node \<leftarrow> rd_finalNode reduce; ip \<leftarrow> rd_nodeIP reduce;
       CreateTemp node ip (rd_nodePort reduce) 0 (rd_tempResultName reduce) }"

fun map_all :: "('a \<Rightarrow> 'b option) \<Rightarrow> 'a list \<Rightarrow> 'b list option" where
  "map_all f [] = Some []"
| "map_all f (x # xs) = do { y \<leftarrow> f x; ys \<leftarrow> map_all f xs; Some (y # ys) }"

fun rePlan_maps :: "('n, 'z) marta_env_scheme \<Rightarrow> string \<Rightarrow> nat list \<Rightarrow> bool \<Rightarrow> t_job \<Rightarrow> 'n marta \<Rightarrow> (bool \<times> t_job, 'n) thread" where
  "rePlan_maps E node [] fileAvailable job w = Some (Some (fileAvailable, job), w)"
| "rePlan_maps E node (k # ks) fileAvailable job w =
     (if mp_nodeName (jb_maps job ! k) = node
      then Option.bind (rePlanMap E k (job\<lparr>jb_mapsDone := jb_mapsDone job - 1\<rparr>) w) (\<lambda>r. case r of
          (None, w1) \<Rightarrow> Some (None, w1)
        | (Some (planned, job1), w1) \<Rightarrow> rePlan_maps E node ks (fileAvailable \<and> planned) job1 w1)
      else rePlan_maps E node ks fileAvailable job w)"

definition rePlanMapsFromNode :: "('n, 'z) marta_env_scheme \<Rightarrow> string \<Rightarrow> t_job \<Rightarrow> 'n marta \<Rightarrow> (bool \<times> t_job, 'n) thread" where
  "rePlanMapsFromNode E node job w = rePlan_maps E node [0..<length (jb_maps job)] True job w"

text \<open>\<open>counts\<close>: the nodes with their number of maps. Comparing with an entry without a node is
  undefined.\<close>

fun findNodeInMaps :: "t_node list \<Rightarrow> string \<Rightarrow> nat \<Rightarrow> (nat option \<times> u16) list \<Rightarrow> nat option option" where
  "findNodeInMaps nodes name i [] = Some None"
| "findNodeInMaps nodes name i ((k, _) # counts) =
     (case k of
        None \<Rightarrow> None
      | Some j \<Rightarrow> if tn_name (nodes ! j) = name then Some (Some i) else findNodeInMaps nodes name (Suc i) counts)"

definition countTemporals :: "'z commons_scheme \<Rightarrow> t_node list \<Rightarrow> t_map \<Rightarrow> (nat option \<times> u16) list \<Rightarrow> (nat option \<times> u16) list option" where
  "countTemporals E nodes m counts =
     do {
       nodeCount \<leftarrow> findNodeInMaps nodes (mp_nodeName m) 0 counts;
       Some (case nodeCount of
           None \<Rightarrow> counts @ [(findNode E nodes (mp_nodeName m), 1)]
         | Some i \<Rightarrow> counts[i := (fst (counts ! i), snd (counts ! i) + 1)])
     }"

definition selectMoreTempsNode :: "t_node list \<Rightarrow> nat option \<times> u16 \<Rightarrow> (nat \<times> u16) option \<Rightarrow> (nat \<times> u16) option option" where
  "selectMoreTempsNode nodes entry selected =
     (if (case selected of None \<Rightarrow> True | Some s \<Rightarrow> snd s < snd entry)
      then do { k \<leftarrow> fst entry; Some (if isActive (nodes ! k) then Some (k, snd entry) else selected) }
      else Some selected)"

definition select_for_reduce :: "'z commons_scheme \<Rightarrow> t_node list \<Rightarrow> t_map list \<Rightarrow> (nat \<times> u16) option option" where
  "select_for_reduce E nodes maps =
     do {
       counts \<leftarrow> fold_opt (countTemporals E nodes) maps [];
       fold_opt (selectMoreTempsNode nodes) counts None
     }"

text \<open>The order of the final reduce, and one turn of the loop of \<open>noCombinerReducePlanning\<close>: whether
  the final reduce failed.\<close>

definition noCombiner_order :: "('n, 'z) marta_env_scheme \<Rightarrow> t_job \<Rightarrow> 'n marta \<Rightarrow> (t_job, 'n) thread" where
  "noCombiner_order E job w =
     do {
       selectedCount \<leftarrow> select_for_reduce E (ma_nodes w) (jb_maps job);
       (case selectedCount of
          None \<Rightarrow> notifFileUnavailable E job w
        | Some (k, _) \<Rightarrow> do {
            let node = ma_nodes w ! k;
            reduce \<leftarrow> setFinalReduce E (jb_finalReduce job) (tn_name node) (tn_ip node) (word_of_int (tn_port node)) (jb_id job) (ma_net w);
            temps \<leftarrow> map_all mapToTemporal (jb_maps job);
            let job1 = job\<lparr>jb_finalReduce := reduce\<lparr>rd_temps := rd_temps reduce @ temps, rd_done := False\<rparr>\<rparr>;
            (n, w1) \<leftarrow> notificarReduce E job1 (jb_finalReduce job1) w;
            Some (map_option (\<lambda>_. job1) n, w1)
          })
     }"

definition noCombiner_turn :: "('n, 'z) marta_env_scheme \<Rightarrow> t_job \<Rightarrow> 'n marta \<Rightarrow> (bool \<times> t_job, 'n) thread" where
  "noCombiner_turn E job w =
     do {
       (q, w1) \<leftarrow> noCombiner_order E job w;
       (case q of None \<Rightarrow> Some (None, w1) | Some job1 \<Rightarrow> do {
         (r, w2) \<leftarrow> recvResult E job1 w1;
         (case r of None \<Rightarrow> Some (None, w2) | Some (fallenNode, job2) \<Rightarrow> do {
           (c, w3) \<leftarrow> (case fallenNode of
               Some i \<Rightarrow> Some (Some (Some i), w2)
             | None \<Rightarrow> do {
                 (finalResult, w3) \<leftarrow> copyFinalTemporal E job2 w2;
                 (case finalResult of
                    None \<Rightarrow> Some (None, w3)
                  | Some ok \<Rightarrow> if ok then Some (Some None, w3)
                      else map_option (\<lambda>i. (Some (Some i), w3)) (rd_finalNode (jb_finalReduce job2)))
               });
           (case c of
              None \<Rightarrow> Some (None, w3)
            | Some None \<Rightarrow> Some (Some (False, job2), w3)
            | Some (Some node) \<Rightarrow> do {
                (q, w4) \<leftarrow> rePlanMapsFromNode E node job2 w3;
                (case q of
                   None \<Rightarrow> Some (None, w4)
                 | Some (fileAvailable, job3) \<Rightarrow>
                     if \<not> fileAvailable then notifFileUnavailable E job3 w4
                     else Some (Some (True, job3\<lparr>jb_finalReduce := (jb_finalReduce job3)
                       \<lparr>rd_temps := [], rd_finalNode := None, rd_nodeIP := None\<rparr>\<rparr>), w4))
              })
         })
       })
     }"

partial_function (option) noCombinerReducePlanning :: "('n, 'z) marta_env_scheme \<Rightarrow> t_job \<Rightarrow> 'n marta \<Rightarrow> (t_job, 'n) thread" where
  "noCombinerReducePlanning E job w =
     Option.bind (noCombiner_turn E job w) (\<lambda>r. case r of (q, w1) \<Rightarrow>
       (case q of
          None \<Rightarrow> Some (None, w1)
        | Some (finalFailed, job1) \<Rightarrow>
            if finalFailed then noCombinerReducePlanning E job1 w1 else Some (Some job1, w1)))"

section \<open>With a combiner\<close>

text \<open>One partial reduce for each node that has results, in the order of its first map.\<close>

definition agregarAPartialReduces :: "('n, 'z) marta_env_scheme \<Rightarrow> u16 \<Rightarrow> 'n \<Rightarrow> t_map \<Rightarrow> t_reduce list \<Rightarrow> t_reduce list option" where
  "agregarAPartialReduces E jobID n m reduces =
     do {
       temporal \<leftarrow> mapToTemporal m;
       (case find_index (\<lambda>rd. rd_finalNode rd = Some (mp_nodeName m)) reduces of
          None \<Rightarrow> do {
            reduce \<leftarrow> CreateReduce E (word_of_nat (length reduces + 1)) (mp_nodeName m) (mp_nodeIP m) (mp_nodePort m) jobID n;
            Some (reduces @ [reduce\<lparr>rd_temps := [temporal]\<rparr>])
          }
        | Some i \<Rightarrow> Some (reduces[i := (reduces ! i)\<lparr>rd_temps := rd_temps (reduces ! i) @ [temporal]\<rparr>]))
     }"

fun notificar_all :: "('n, 'z) marta_env_scheme \<Rightarrow> t_job \<Rightarrow> t_reduce list \<Rightarrow> 'n marta \<Rightarrow> (unit, 'n) thread" where
  "notificar_all E job [] w = Some (Some (), w)"
| "notificar_all E job (reduce # reduces) w =
     Option.bind (notificarReduce E job reduce w) (\<lambda>r. case r of
         (None, w1) \<Rightarrow> Some (None, w1)
       | (Some _, w1) \<Rightarrow> notificar_all E job reduces w1)"

definition combinerPartialsReducePlanning :: "('n, 'z) marta_env_scheme \<Rightarrow> t_job \<Rightarrow> 'n marta \<Rightarrow> (t_job, 'n) thread" where
  "combinerPartialsReducePlanning E job w =
     do {
       reduces \<leftarrow> fold_opt (agregarAPartialReduces E (jb_id job) (ma_net w)) (jb_maps job) (jb_partialReduces job);
       let job1 = job\<lparr>jb_partialReduces := map (\<lambda>rd. rd\<lparr>rd_done := False\<rparr>) reduces\<rparr>;
       (r, w1) \<leftarrow> notificar_all E job1 (jb_partialReduces job1) w;
       Some (map_option (\<lambda>_. job1) r, w1)
     }"

definition searchNode :: "'z commons_scheme \<Rightarrow> t_node list \<Rightarrow> t_reduce \<Rightarrow> nat option \<Rightarrow> nat option option" where
  "searchNode E nodes reduce selectedNode =
     do {
       finalNode \<leftarrow> rd_finalNode reduce;
       let actualNode = findNode E nodes finalNode;
       (if (case selectedNode of None \<Rightarrow> True | Some s \<Rightarrow> lessWorkLoad nodes actualNode s)
        then do { k \<leftarrow> actualNode; Some (if isActive (nodes ! k) then Some k else selectedNode) }
        else Some selectedNode)
     }"

text \<open>When no node of a partial reduce is active any more, \<open>selectedNode\<close> is NULL: undefined.\<close>

definition combinerFinalReducePlanning :: "('n, 'z) marta_env_scheme \<Rightarrow> t_job \<Rightarrow> 'n marta \<Rightarrow> (t_job, 'n) thread" where
  "combinerFinalReducePlanning E job w =
     do {
       selectedNode \<leftarrow> fold_opt (searchNode E (ma_nodes w)) (jb_partialReduces job) None;
       k \<leftarrow> selectedNode;
       let node = ma_nodes w ! k;
       reduce \<leftarrow> setFinalReduce E (jb_finalReduce job) (tn_name node) (tn_ip node) (word_of_int (tn_port node)) (jb_id job) (ma_net w);
       temps \<leftarrow> map_all reduceToTemporal (jb_partialReduces job);
       let job1 = job\<lparr>jb_finalReduce := reduce\<lparr>rd_temps := rd_temps reduce @ temps, rd_done := False\<rparr>\<rparr>;
       (r, w1) \<leftarrow> notificarReduce E job1 (jb_finalReduce job1) w;
       Some (map_option (\<lambda>_. job1) r, w1)
     }"

fun rePlan_fallen :: "('n, 'z) marta_env_scheme \<Rightarrow> string list \<Rightarrow> bool \<Rightarrow> t_job \<Rightarrow> 'n marta \<Rightarrow> (bool \<times> t_job, 'n) thread" where
  "rePlan_fallen E [] filesAvailables job w = Some (Some (filesAvailables, job), w)"
| "rePlan_fallen E (node # fallenNodes) filesAvailables job w =
     Option.bind (rePlanMapsFromNode E node job w) (\<lambda>r. case r of
         (None, w1) \<Rightarrow> Some (None, w1)
       | (Some (ok, job1), w1) \<Rightarrow> rePlan_fallen E fallenNodes (filesAvailables \<and> ok) job1 w1)"

text \<open>The inner loop: until all partial reduces are done.\<close>

partial_function (option) partials_loop :: "('n, 'z) marta_env_scheme \<Rightarrow> t_job \<Rightarrow> 'n marta \<Rightarrow> (t_job, 'n) thread" where
  "partials_loop E job w =
     Option.bind (combinerPartialsReducePlanning E job w) (\<lambda>r1. case r1 of (q1, w1) \<Rightarrow>
       (case q1 of
          None \<Rightarrow> Some (None, w1)
        | Some job1 \<Rightarrow> Option.bind (recv_results E (length (jb_partialReduces job1)) job1 w1) (\<lambda>r2. case r2 of (q2, w2) \<Rightarrow>
            (case q2 of
               None \<Rightarrow> Some (None, w2)
             | Some (fallenNodes, job2) \<Rightarrow>
                 if fallenNodes = [] then Some (Some job2, w2)
                 else Option.bind (rePlan_fallen E fallenNodes True job2 w2) (\<lambda>r3. case r3 of (q3, w3) \<Rightarrow>
                   (case q3 of
                      None \<Rightarrow> Some (None, w3)
                    | Some (filesAvailables, job3) \<Rightarrow>
                        if filesAvailables then partials_loop E (job3\<lparr>jb_partialReduces := []\<rparr>) w3
                        else notifFileUnavailable E job3 w3))))))"

text \<open>One turn of the outer loop: whether the final reduce failed.\<close>

definition combiner_turn :: "('n, 'z) marta_env_scheme \<Rightarrow> t_job \<Rightarrow> 'n marta \<Rightarrow> (bool \<times> t_job, 'n) thread" where
  "combiner_turn E job w =
     do {
       (q, w1) \<leftarrow> partials_loop E job w;
       (case q of None \<Rightarrow> Some (None, w1) | Some job1 \<Rightarrow> do {
         (q, w2) \<leftarrow> combinerFinalReducePlanning E job1 w1;
         (case q of None \<Rightarrow> Some (None, w2) | Some job2 \<Rightarrow> do {
           (q, w3) \<leftarrow> recvResult E job2 w2;
           (case q of None \<Rightarrow> Some (None, w3) | Some (fallenNode, job3) \<Rightarrow> do {
             (c, w4) \<leftarrow> (case fallenNode of
                 Some i \<Rightarrow> Some (Some (Some i), w3)
               | None \<Rightarrow> do {
                   (finalResult, w4) \<leftarrow> copyFinalTemporal E job3 w3;
                   (case finalResult of
                      None \<Rightarrow> Some (None, w4)
                    | Some ok \<Rightarrow> if ok then Some (Some None, w4)
                        else map_option (\<lambda>i. (Some (Some i), w4)) (rd_finalNode (jb_finalReduce job3)))
                 });
             (case c of
                None \<Rightarrow> Some (None, w4)
              | Some None \<Rightarrow> Some (Some (False, job3), w4)
              | Some (Some node) \<Rightarrow> do {
                  (q, w5) \<leftarrow> rePlanMapsFromNode E node job3 w4;
                  (case q of
                     None \<Rightarrow> Some (None, w5)
                   | Some (fileAvailable, job4) \<Rightarrow>
                       if \<not> fileAvailable then notifFileUnavailable E job4 w5
                       else Some (Some (True, job4\<lparr>jb_partialReduces := [],
                         jb_finalReduce := (jb_finalReduce job4)\<lparr>rd_temps := []\<rparr>\<rparr>), w5))
                })
           })
         })
       })
     }"

partial_function (option) combinerReducePlanning :: "('n, 'z) marta_env_scheme \<Rightarrow> t_job \<Rightarrow> 'n marta \<Rightarrow> (t_job, 'n) thread" where
  "combinerReducePlanning E job w =
     Option.bind (combiner_turn E job w) (\<lambda>r. case r of (q, w1) \<Rightarrow>
       (case q of
          None \<Rightarrow> Some (None, w1)
        | Some (finalFailed, job1) \<Rightarrow>
            if finalFailed then combinerReducePlanning E job1 w1 else Some (Some job1, w1)))"

section \<open>The thread of a job\<close>

definition acceptJob :: "('n, 'z) marta_env_scheme \<Rightarrow> int \<Rightarrow> 'n marta \<Rightarrow> (unit, 'n) thread" where
  "acceptJob E jobSocket w =
     do {
       let w0 = w\<lparr>ma_cantJobs := ma_cantJobs w + 1\<rparr>;
       (job0, w1) \<leftarrow> desserializeJob E jobSocket (ma_cantJobs w0) w0;
       let job = job0\<lparr>jb_socket := jobSocket\<rparr>;
       (q, w2) \<leftarrow> planMaps E job w1;
       (case q of None \<Rightarrow> Some (None, w2) | Some job1 \<Rightarrow> do {
         (q, w3) \<leftarrow> (if jb_combiner job1 then combinerReducePlanning E job1 w2 else noCombinerReducePlanning E job1 w2);
         (case q of None \<Rightarrow> Some (None, w3) | Some job2 \<Rightarrow> do {
           let w4 = snd (sendDieOrder E (jb_socket job2) COMMAND_RESULT_OK w3);
           w5 \<leftarrow> freeJob E job2 w4;
           Some (Some (), w5)
         })
       })
     }"

text \<open>One turn of the listener: a job that shakes hands gets its thread.\<close>

definition listenJobs :: "('n, 'z) marta_env_scheme \<Rightarrow> int \<Rightarrow> 'n marta \<Rightarrow> (unit, 'n) thread" where
  "listenJobs E socketAccepted w =
     do {
       (handshake, net) \<leftarrow> socket_handshake_to_client (y_os E) socketAccepted HANDSHAKE_MARTA HANDSHAKE_JOB (ma_net w);
       (if handshake = HANDSHAKE_JOB then acceptJob E socketAccepted (w\<lparr>ma_net := net\<rparr>)
        else Some (None, w\<lparr>ma_net := net\<rparr>))
     }"

section \<open>The node chosen for a map\<close>

lemma findNode_Some:
  "findNode E nodes name = Some k \<Longrightarrow> k < length nodes \<and> nodeByName E (nodes ! k) name"
  by (auto simp: findNode_def dest: find_Some_iff)

definition load :: "t_node list \<Rightarrow> nat \<Rightarrow> nat" where
  "load nodes k = workLoad (tn_maps (nodes ! k)) (tn_reduces (nodes ! k))"

text \<open>\<open>sel\<close> is the best choice among the copies seen.\<close>

definition best_copy :: "'z commons_scheme \<Rightarrow> t_node list \<Rightarrow> t_copy list \<Rightarrow> (nat \<times> u16) option \<Rightarrow> bool" where
  "best_copy E nodes copies sel \<longleftrightarrow>
     (case sel of
        None \<Rightarrow> \<forall>c \<in> set copies. \<forall>k. findNode E nodes (cp_nodeName c) = Some k \<longrightarrow> \<not> isActive (nodes ! k)
      | Some (k, b) \<Rightarrow> isActive (nodes ! k) \<and> (\<exists>c \<in> set copies. findNode E nodes (cp_nodeName c) = Some k \<and> cp_numBlock c = b) \<and>
          (\<forall>c \<in> set copies. \<forall>j. findNode E nodes (cp_nodeName c) = Some j \<longrightarrow> isActive (nodes ! j) \<longrightarrow> load nodes k \<le> load nodes j))"

lemma selectNode_best:
  assumes "best_copy E nodes seen sel" and "findNode E nodes (cp_nodeName c) \<noteq> None"
  shows "\<exists>sel'. selectNode E nodes c sel = Some sel' \<and> best_copy E nodes (seen @ [c]) sel'"
proof -
  obtain k where k: "findNode E nodes (cp_nodeName c) = Some k" using assms(2) by auto
  show ?thesis
  proof (cases sel)
    case None
    then show ?thesis using assms(1) k by (auto simp: selectNode_def best_copy_def Let_def)
  next
    case (Some s)
    obtain i b where s: "s = (i, b)" by (cases s)
    show ?thesis
    proof (cases "load nodes k < load nodes i \<and> isActive (nodes ! k)")
      case True
      then show ?thesis using assms(1) k Some s
        by (fastforce simp: selectNode_def best_copy_def lessWorkLoad_def load_def Let_def)
    next
      case False
      then show ?thesis using assms(1) k Some s
        by (auto simp: selectNode_def best_copy_def lessWorkLoad_def load_def Let_def)
    qed
  qed
qed

lemma select_fold_best:
  assumes "\<forall>c \<in> set copies. findNode E nodes (cp_nodeName c) \<noteq> None" and "best_copy E nodes seen sel"
  shows "\<exists>sel'. fold_opt (selectNode E nodes) copies sel = Some sel' \<and> best_copy E nodes (seen @ copies) sel'"
  using assms
proof (induction copies arbitrary: seen sel)
  case (Cons c copies)
  obtain sel1 where 1: "selectNode E nodes c sel = Some sel1" "best_copy E nodes (seen @ [c]) sel1"
    using selectNode_best [OF Cons.prems(2)] Cons.prems(1) by auto
  from Cons.IH [OF _ 1(2)] Cons.prems(1) 1(1) show ?case by auto
qed simp

lemma select_for_map_best:
  assumes "\<forall>c \<in> set copies. findNode E nodes (cp_nodeName c) \<noteq> None"
  shows "\<exists>sel. select_for_map E nodes copies = Some sel \<and> best_copy E nodes copies sel"
  using select_fold_best [OF assms, of "[]" None] by (simp add: select_for_map_def best_copy_def)

lemma best_copy_active:
  assumes "best_copy E nodes copies sel" and "c \<in> set copies" and "findNode E nodes (cp_nodeName c) = Some k" and "isActive (nodes ! k)"
  obtains i b where "sel = Some (i, b)"
  using assms by (auto simp: best_copy_def split: option.splits)

section \<open>The plan of the maps\<close>

text \<open>What the map of a block must be, given the nodes as they were when it was planned.\<close>

definition map_for :: "'z commons_scheme \<Rightarrow> t_node list \<Rightarrow> t_copy list \<Rightarrow> t_map \<Rightarrow> bool" where
  "map_for E nodes copies m \<longleftrightarrow> mp_copies m = copies \<and>
     (\<exists>k < length nodes. isActive (nodes ! k) \<and> mp_nodeName m = tn_name (nodes ! k) \<and> mp_nodeIP m = tn_ip (nodes ! k) \<and>
       mp_nodePort m = word_of_int (tn_port (nodes ! k)) \<and>
       (\<exists>c \<in> set copies. findNode E nodes (cp_nodeName c) = Some k \<and> cp_numBlock c = mp_numBlock m) \<and>
       (\<forall>c \<in> set copies. \<forall>j. findNode E nodes (cp_nodeName c) = Some j \<longrightarrow> isActive (nodes ! j) \<longrightarrow> load nodes k \<le> load nodes j))"

text \<open>The nodes but for the work they have.\<close>

definition idle :: "t_node list \<Rightarrow> t_node list" where
  "idle nodes = map (\<lambda>n. n\<lparr>tn_maps := []\<rparr>) nodes"

lemma find_cong_list: "(\<And>k. k \<in> set xs \<Longrightarrow> P k = Q k) \<Longrightarrow> List.find P xs = List.find Q xs"
  by (induction xs) auto

lemma idle_cong:
  assumes "idle nodes = idle nodes'"
  shows "length nodes = length nodes'" and "findNode E nodes name = findNode E nodes' name"
    and "k < length nodes \<Longrightarrow> isActive (nodes ! k) = isActive (nodes' ! k)"
proof -
  show len: "length nodes = length nodes'" using assms by (metis idle_def length_map)
  have nth: "(nodes ! k)\<lparr>tn_maps := []\<rparr> = (nodes' ! k)\<lparr>tn_maps := []\<rparr>" if "k < length nodes" for k
    using assms that len unfolding idle_def by (metis nth_map)
  show "isActive (nodes ! k) = isActive (nodes' ! k)" if "k < length nodes"
    using arg_cong [OF nth [OF that], of tn_active] by (simp add: isActive_def)
  have "nodeByName E (nodes ! k) name = nodeByName E (nodes' ! k) name" if "k < length nodes" for k
    using arg_cong [OF nth [OF that], of tn_name] by (simp add: nodeByName_def)
  then show "findNode E nodes name = findNode E nodes' name"
    unfolding findNode_def len [symmetric] by (intro find_cong_list) simp
qed

text \<open>A clock that gives a time, and a network that takes what is sent.\<close>

definition marta_ok :: "('n, 'z) marta_env_scheme \<Rightarrow> bool" where
  "marta_ok E \<longleftrightarrow> (\<forall>n. 24 \<le> length (y_asctime E n) \<and> c_string (y_asctime E n)) \<and>
     (\<forall>s p n. \<exists>n'. socket_send_packet (y_os E) s (Some p) n = (SOCKET_ERROR_NONE, n'))"

lemma marta_send_ok: "marta_ok E \<Longrightarrow> \<exists>n'. ma_send E s p w = (SOCKET_ERROR_NONE, w\<lparr>ma_net := n'\<rparr>)"
  by (auto simp: marta_ok_def ma_send_def split: prod.split) (metis prod.inject)

lemma notificarMap_ok:
  assumes "marta_ok E"
  shows "\<exists>n'. notificarMap E job k w = Some (Some (job\<lparr>jb_maps := (jb_maps job)[k := (jb_maps job ! k)\<lparr>mp_done := False\<rparr>]\<rparr>), w\<lparr>ma_net := n'\<rparr>)"
proof -
  let ?m = "(jb_maps job ! k)\<lparr>mp_done := False\<rparr>"
  from marta_send_ok [OF assms, of "jb_socket job" "map_order_bytes ?m" w] show ?thesis
    by (auto simp: notificarMap_def serializeMapToOrder_def Let_def)
qed

text \<open>Planning a block on the node selected: a map of the block is added to the job and to the node.\<close>

lemma mapPlanning_selected:
  assumes "marta_ok E" and sel: "select_for_map E (ma_nodes w) copies = Some (Some (k, b))"
    and small: "length (jb_maps job) < 1000" "unat (jb_id job) < 1000"
  obtains m net where "mapPlanning E copies job w = Some (Some (job\<lparr>jb_maps := jb_maps job @ [m]\<rparr>),
      w\<lparr>ma_nodes := (ma_nodes w)[k := (ma_nodes w ! k)\<lparr>tn_maps := tn_maps (ma_nodes w ! k) @ [b]\<rparr>], ma_net := net\<rparr>)"
    and "mp_id m = word_of_nat (length (jb_maps job))" and "mp_copies m = copies" and "mp_nodeName m = tn_name (ma_nodes w ! k)"
    and "mp_nodeIP m = tn_ip (ma_nodes w ! k)" and "mp_nodePort m = word_of_int (tn_port (ma_nodes w ! k))" and "mp_numBlock m = b"
    and "\<not> mp_done m" and "length (mp_tempResultName m) = 60" and "length (cstr (mp_tempResultName m)) < 60"
proof -
  let ?node = "ma_nodes w ! k"
  let ?w1 = "w\<lparr>ma_nodes := (ma_nodes w)[k := ?node\<lparr>tn_maps := tn_maps ?node @ [b]\<rparr>]\<rparr>"
  let ?id = "word_of_nat (length (jb_maps job)) :: u16"
  have "unat ?id < 1000" using small(1) by (simp add: unat_of_nat take_bit_eq_mod)
  moreover have asc: "24 \<le> length (y_asctime E (ma_net ?w1))" "c_string (y_asctime E (ma_net ?w1))"
    using assms(1) by (simp_all add: marta_ok_def)
  ultimately obtain name where name: "setTempMapName E (replicate 60 0) ?id (jb_id job) (ma_net ?w1) = Some name"
    using setTempName_Some(1) [OF asc, of "replicate 60 0" "''-Map''" ?id "jb_id job"] small(2)
    by (auto simp: setTempMapName_def simp del: bind_eq_None_conv)
  then have fits: "length name = 60" "length (cstr name) < 60"
    using setTempName_Some(2) [OF asc, of "replicate 60 0" "''-Map''" ?id "jb_id job"] temp_name_fits(2) [OF asc(1), of "''-Map''"]
    by (auto simp: setTempMapName_def)
  let ?m = "\<lparr>mp_id = ?id, mp_copies = copies, mp_nodeName = tn_name ?node, mp_nodeIP = tn_ip ?node,
    mp_nodePort = word_of_int (tn_port ?node), mp_numBlock = b, mp_tempResultName = name, mp_done = False\<rparr>"
  from notificarMap_ok [OF assms(1), of "job\<lparr>jb_maps := jb_maps job @ [?m]\<rparr>" "length (jb_maps job)" ?w1]
  obtain net where "notificarMap E (job\<lparr>jb_maps := jb_maps job @ [?m]\<rparr>) (length (jb_maps job)) ?w1 =
      Some (Some (job\<lparr>jb_maps := jb_maps job @ [?m]\<rparr>), ?w1\<lparr>ma_net := net\<rparr>)" by auto
  then have "mapPlanning E copies job w = Some (Some (job\<lparr>jb_maps := jb_maps job @ [?m]\<rparr>), ?w1\<lparr>ma_net := net\<rparr>)"
    using name by (simp add: mapPlanning_def add_map_def sel Let_def CreateMap_def)
  then show thesis using fits by (intro that [of ?m net]) simp_all
qed

lemma mapPlanning_ok:
  assumes "marta_ok E" and found: "\<forall>c \<in> set copies. findNode E (ma_nodes w) (cp_nodeName c) \<noteq> None"
    and active: "\<exists>c \<in> set copies. \<exists>k. findNode E (ma_nodes w) (cp_nodeName c) = Some k \<and> isActive (ma_nodes w ! k)"
    and small: "length (jb_maps job) < 1000" "unat (jb_id job) < 1000"
  shows "\<exists>m w'. mapPlanning E copies job w = Some (Some (job\<lparr>jb_maps := jb_maps job @ [m]\<rparr>), w') \<and>
    map_for E (ma_nodes w) copies m \<and> mp_id m = word_of_nat (length (jb_maps job)) \<and> \<not> mp_done m \<and>
    idle (ma_nodes w') = idle (ma_nodes w)"
proof -
  obtain sel where sel: "select_for_map E (ma_nodes w) copies = Some sel" "best_copy E (ma_nodes w) copies sel"
    using select_for_map_best [OF found] by blast
  obtain k b where kb: "sel = Some (k, b)" using active best_copy_active [OF sel(2)] by metis
  have best: "isActive (ma_nodes w ! k)" "\<exists>c \<in> set copies. findNode E (ma_nodes w) (cp_nodeName c) = Some k \<and> cp_numBlock c = b"
    "\<forall>c \<in> set copies. \<forall>j. findNode E (ma_nodes w) (cp_nodeName c) = Some j \<longrightarrow> isActive (ma_nodes w ! j) \<longrightarrow> load (ma_nodes w) k \<le> load (ma_nodes w) j"
    using sel(2) by (auto simp: best_copy_def kb)
  then have k: "k < length (ma_nodes w)" using findNode_Some by blast
  obtain m net where m: "mapPlanning E copies job w = Some (Some (job\<lparr>jb_maps := jb_maps job @ [m]\<rparr>),
      w\<lparr>ma_nodes := (ma_nodes w)[k := (ma_nodes w ! k)\<lparr>tn_maps := tn_maps (ma_nodes w ! k) @ [b]\<rparr>], ma_net := net\<rparr>)"
    "mp_id m = word_of_nat (length (jb_maps job))" "mp_copies m = copies" "mp_nodeName m = tn_name (ma_nodes w ! k)"
    "mp_nodeIP m = tn_ip (ma_nodes w ! k)" "mp_nodePort m = word_of_int (tn_port (ma_nodes w ! k))" "mp_numBlock m = b" "\<not> mp_done m"
    using mapPlanning_selected [OF assms(1) sel(1) [unfolded kb] small] by blast
  have "idle ((ma_nodes w)[k := (ma_nodes w ! k)\<lparr>tn_maps := tn_maps (ma_nodes w ! k) @ [b]\<rparr>]) = idle (ma_nodes w)"
    using k by (simp add: idle_def map_update list_update_same_conv)
  moreover have "map_for E (ma_nodes w) copies m" unfolding map_for_def m(3-7) using best k by blast
  ultimately show ?thesis using m(1,2,8) by auto
qed

definition planned :: "'z commons_scheme \<Rightarrow> t_node list \<Rightarrow> nat \<Rightarrow> t_copy list list \<Rightarrow> t_map list \<Rightarrow> bool" where
  "planned E nodes0 first blocks ms \<longleftrightarrow> length ms = length blocks \<and>
     (\<forall>i < length blocks. mp_id (ms ! i) = word_of_nat (first + i) \<and> \<not> mp_done (ms ! i) \<and>
       (\<exists>nodes. idle nodes = idle nodes0 \<and> map_for E nodes (blocks ! i) (ms ! i)))"

lemma planned_Cons:
  assumes "map_for E nodes0 copies m" and "mp_id m = word_of_nat first" and "\<not> mp_done m" and "planned E nodes1 (Suc first) blocks ms"
    and "idle nodes1 = idle nodes0"
  shows "planned E nodes0 first (copies # blocks) (m # ms)"
  unfolding planned_def
proof (intro conjI allI impI)
  show "length (m # ms) = length (copies # blocks)" using assms(4) by (simp add: planned_def)
  fix i assume "i < length (copies # blocks)"
  then show "mp_id ((m # ms) ! i) = word_of_nat (first + i)" "\<not> mp_done ((m # ms) ! i)"
    "\<exists>nodes. idle nodes = idle nodes0 \<and> map_for E nodes ((copies # blocks) ! i) ((m # ms) ! i)"
    using assms by (cases i; force simp: planned_def)+
qed

text \<open>Every block has a copy on an active node, and all nodes are known.\<close>

definition available :: "'z commons_scheme \<Rightarrow> t_node list \<Rightarrow> t_copy list \<Rightarrow> bool" where
  "available E nodes copies \<longleftrightarrow> (\<forall>c \<in> set copies. findNode E nodes (cp_nodeName c) \<noteq> None) \<and>
     (\<exists>c \<in> set copies. \<exists>k. findNode E nodes (cp_nodeName c) = Some k \<and> isActive (nodes ! k))"

lemma available_idle:
  assumes "idle nodes = idle nodes'" and "available E nodes copies"
  shows "available E nodes' copies"
proof -
  have "isActive (nodes' ! k)" if "findNode E nodes (cp_nodeName c) = Some k" "isActive (nodes ! k)" for c k
    using that idle_cong(3) [OF assms(1)] findNode_Some by blast
  moreover have "findNode E nodes = findNode E nodes'" by (rule ext) (rule idle_cong(2) [OF assms(1)])
  ultimately show ?thesis using assms(2) unfolding available_def by metis
qed

lemma plan_blocks_ok:
  assumes "marta_ok E" and "\<forall>copies \<in> set blocks. available E (ma_nodes w) copies"
    and "length (jb_maps job) + length blocks \<le> 1000" and "unat (jb_id job) < 1000"
  shows "\<exists>ms w'. plan_blocks E blocks job w = Some (Some (job\<lparr>jb_maps := jb_maps job @ ms\<rparr>), w') \<and>
    planned E (ma_nodes w) (length (jb_maps job)) blocks ms \<and> idle (ma_nodes w') = idle (ma_nodes w)"
  using assms(2-4)
proof (induction blocks arbitrary: job w)
  case Nil
  then show ?case by (intro exI [of _ "[]"] exI [of _ w]) (simp add: planned_def)
next
  case (Cons copies blocks)
  have av: "\<forall>c \<in> set copies. findNode E (ma_nodes w) (cp_nodeName c) \<noteq> None"
      "\<exists>c \<in> set copies. \<exists>k. findNode E (ma_nodes w) (cp_nodeName c) = Some k \<and> isActive (ma_nodes w ! k)"
    and small: "length (jb_maps job) < 1000" using Cons.prems by (simp_all add: available_def)
  obtain m w1 where
    m: "mapPlanning E copies job w = Some (Some (job\<lparr>jb_maps := jb_maps job @ [m]\<rparr>), w1)"
    "map_for E (ma_nodes w) copies m" "mp_id m = word_of_nat (length (jb_maps job))" "\<not> mp_done m"
    "idle (ma_nodes w1) = idle (ma_nodes w)"
    using mapPlanning_ok [OF assms(1) av small Cons.prems(3)] by (elim exE conjE) (rule that)
  let ?job1 = "job\<lparr>jb_maps := jb_maps job @ [m]\<rparr>"
  have "\<forall>copies \<in> set blocks. available E (ma_nodes w1) copies" 
    using Cons.prems(1) available_idle [where E = E, OF m(5) [symmetric]] by auto
  from Cons.IH [OF this, of ?job1] Cons.prems obtain ms w' where
    ms: "plan_blocks E blocks ?job1 w1 = Some (Some (job\<lparr>jb_maps := jb_maps job @ m # ms\<rparr>), w')"
    "planned E (ma_nodes w1) (Suc (length (jb_maps job))) blocks ms" "idle (ma_nodes w') = idle (ma_nodes w1)" by auto
  show ?case using m ms planned_Cons [OF m(2-4) ms(2) m(5)]
    by (intro exI [of _ "m # ms"] exI [of _ w']) simp
qed


definition marta_demo :: "chunk_net marta" where
  "marta_demo = \<lparr>ma_nodes = [CreateNode True ''10.0.0.1'' 6500 ''n1'', CreateNode True ''10.0.0.2'' 6501 ''n2''],
     ma_fsSocket = 3, ma_cantJobs = 1, ma_net = ((\<lambda>_. []), (\<lambda>_. []))\<rparr>"

lemma marta_demo_env_ok: "marta_ok (marta_demo_env le)"
proof -
  have "\<exists>n'. socket_send_packet (chunk_os le) s (Some p) n = (SOCKET_ERROR_NONE, n')" for s p n
    using chunk.send_packet_reliable [of le s p n] by blast
  then show ?thesis by (simp add: marta_ok_def marta_demo_env_def c_string_def)
qed


section \<open>The node of a reduce\<close>

definition results_on :: "t_map list \<Rightarrow> string \<Rightarrow> nat" where
  "results_on maps name = length (filter (\<lambda>m. mp_nodeName m = name) maps)"

text \<open>The counts of the maps \<open>seen\<close>: one entry for each node that has some, with their number.\<close>

definition counts_ok :: "'z commons_scheme \<Rightarrow> t_node list \<Rightarrow> t_map list \<Rightarrow> (nat option \<times> u16) list \<Rightarrow> bool" where
  "counts_ok E nodes seen counts \<longleftrightarrow>
     (\<exists>ks. map fst counts = map Some ks \<and> distinct (map (\<lambda>k. tn_name (nodes ! k)) ks) \<and>
       (\<lambda>k. tn_name (nodes ! k)) ` set ks = mp_nodeName ` set seen \<and> (\<forall>k \<in> set ks. findNode E nodes (tn_name (nodes ! k)) = Some k) \<and>
       map snd counts = map (\<lambda>k. word_of_nat (results_on seen (tn_name (nodes ! k)))) ks)"

lemma pairs_eq: "map fst c = map f ks \<Longrightarrow> map snd c = map g ks \<Longrightarrow> c = map (\<lambda>k. (f k, g k)) ks"
proof (induction c arbitrary: ks)
  case (Cons a c)
  then show ?case by (cases ks; cases a) auto
qed simp

lemma findNodeInMaps_ok:
  assumes "map fst counts = map Some ks"
  shows "findNodeInMaps nodes name i counts =
    Some (map_option (\<lambda>j. i + j) (find_index (\<lambda>k. tn_name (nodes ! k) = name) ks))"
  using assms
proof (induction counts arbitrary: i ks)
  case Nil
  then show ?case by (simp add: find_index_def)
next
  case (Cons c counts)
  obtain k ks' where ks: "ks = k # ks'" "fst c = Some k" "map fst counts = map Some ks'" using Cons.prems by (cases ks) auto
  have shift: "find_index p (k # ks') = (if p k then Some 0 else map_option Suc (find_index p ks'))" for p
  proof -
    have "List.find (\<lambda>j. p ((k # ks') ! j)) (map Suc xs) = map_option Suc (List.find (\<lambda>j. p (ks' ! j)) xs)" for xs
      by (induction xs) auto
    moreover have "[0..<length (k # ks')] = 0 # map Suc [0..<length ks']" by (simp add: upt_conv_Cons map_Suc_upt del: upt_Suc)
    ultimately show ?thesis by (simp add: find_index_def del: upt_Suc)
  qed
  obtain u where c: "c = (Some k, u)" using ks(2) by (cases c) auto
  show ?case
  proof (cases "tn_name (nodes ! k) = name")
    case True
    then show ?thesis by (simp add: c ks(1) shift)
  next
    case False
    have "findNodeInMaps nodes name i (c # counts) = findNodeInMaps nodes name (Suc i) counts" using False by (simp add: c)
    also have "\<dots> = Some (map_option (\<lambda>j. Suc i + j) (find_index (\<lambda>k. tn_name (nodes ! k) = name) ks'))" by (rule Cons.IH [OF ks(3)])
    also have "find_index (\<lambda>k. tn_name (nodes ! k) = name) ks = map_option Suc (find_index (\<lambda>k. tn_name (nodes ! k) = name) ks')"
      unfolding ks(1) shift using False by simp
    then have "Some (map_option (\<lambda>j. Suc i + j) (find_index (\<lambda>k. tn_name (nodes ! k) = name) ks')) =
        Some (map_option (\<lambda>j. i + j) (find_index (\<lambda>k. tn_name (nodes ! k) = name) ks))"
      by (simp add: option.map_comp comp_def)
    finally show ?thesis .
  qed
qed

lemma find_index_Some: "find_index p xs = Some i \<Longrightarrow> i < length xs \<and> p (xs ! i)"
  by (auto simp: find_index_def dest: find_Some_iff)

lemma find_index_None: "find_index p xs = None \<longleftrightarrow> (\<forall>x \<in> set xs. \<not> p x)"
  unfolding find_index_def find_None_iff_all set_upt by (metis atLeastLessThan_iff in_set_conv_nth le0)

lemma countTemporals_ok:
  assumes ok: "counts_ok E nodes seen counts" and m: "findNode E nodes (mp_nodeName m) = Some k" "tn_name (nodes ! k) = mp_nodeName m"
  shows "\<exists>counts'. countTemporals E nodes m counts = Some counts' \<and> counts_ok E nodes (seen @ [m]) counts'"
proof -
  obtain ks where ks: "map fst counts = map Some ks" "distinct (map (\<lambda>k. tn_name (nodes ! k)) ks)"
    "(\<lambda>k. tn_name (nodes ! k)) ` set ks = mp_nodeName ` set seen" "\<forall>k \<in> set ks. findNode E nodes (tn_name (nodes ! k)) = Some k"
    "map snd counts = map (\<lambda>k. word_of_nat (results_on seen (tn_name (nodes ! k)))) ks"
    using ok unfolding counts_ok_def by blast
  let ?name = "mp_nodeName m"
  have zip: "counts = map (\<lambda>k. (Some k, word_of_nat (results_on seen (tn_name (nodes ! k))))) ks"
    by (rule pairs_eq [OF ks(1,5)])
  have on: "results_on (seen @ [m]) n = results_on seen n + (if n = ?name then 1 else 0)" for n by (simp add: results_on_def)
  show ?thesis
  proof (cases "find_index (\<lambda>k. tn_name (nodes ! k) = ?name) ks")
    case None
    then have new: "?name \<notin> (\<lambda>k. tn_name (nodes ! k)) ` set ks" by (auto simp: find_index_None)
    then have zero: "results_on seen ?name = 0" using ks(3) by (auto simp: results_on_def filter_empty_conv image_iff)
    have run: "countTemporals E nodes m counts = Some (counts @ [(Some k, 1)])"
      using findNodeInMaps_ok [OF ks(1)] None by (simp add: countTemporals_def m(1))
    have "counts_ok E nodes (seen @ [m]) (counts @ [(Some k, 1)])"
      unfolding counts_ok_def
    proof (intro exI [of _ "ks @ [k]"] conjI)
      show "map snd (counts @ [(Some k, 1)]) = map (\<lambda>k. word_of_nat (results_on (seen @ [m]) (tn_name (nodes ! k)))) (ks @ [k])"
        using new by (auto simp: zip on m(2) zero image_iff)
    qed (use ks m new in \<open>auto simp: image_iff\<close>)
    with run show ?thesis by blast
  next
    case (Some i)
    note i = find_index_Some [OF Some]
    let ?c = "counts[i := (fst (counts ! i), snd (counts ! i) + 1)]"
    have run: "countTemporals E nodes m counts = Some ?c"
      using findNodeInMaps_ok [OF ks(1)] Some by (simp add: countTemporals_def)
    have uniq: "tn_name (nodes ! (ks ! j)) = ?name \<longleftrightarrow> j = i" if "j < length ks" for j
      using ks(2) i that by (metis (no_types, lifting) distinct_conv_nth length_map nth_map)
    have "?name \<in> mp_nodeName ` set seen" unfolding ks(3) [symmetric] using i by (metis (no_types, lifting) imageI nth_mem)
    then have names: "(\<lambda>k. tn_name (nodes ! k)) ` set ks = mp_nodeName ` set (seen @ [m])" using ks(3) by auto
    have lenc: "length counts = length ks" using zip by simp
    have snd: "map snd ?c = map (\<lambda>k. word_of_nat (results_on (seen @ [m]) (tn_name (nodes ! k)))) ks"
    proof (rule nth_equalityI)
      fix j assume "j < length (map snd ?c)"
      then have j: "j < length ks" by (simp add: lenc)
      have "snd (counts ! j) = word_of_nat (results_on seen (tn_name (nodes ! (ks ! j))))" using j by (simp add: zip)
      then show "map snd ?c ! j = map (\<lambda>k. word_of_nat (results_on (seen @ [m]) (tn_name (nodes ! k)))) ks ! j"
        using j uniq [OF j] i lenc by (cases "j = i") (simp_all add: on nth_list_update)
    qed (simp add: lenc)
    have fst: "map fst ?c = map fst counts" using i lenc by (simp add: map_update list_update_same_conv)
    have "counts_ok E nodes (seen @ [m]) ?c"
      unfolding counts_ok_def by (rule exI [of _ ks]) (use ks fst snd names in simp)
    with run show ?thesis by blast
  qed
qed

lemma counts_fold_ok:
  assumes "\<forall>m \<in> set maps. \<exists>k. findNode E nodes (mp_nodeName m) = Some k \<and> tn_name (nodes ! k) = mp_nodeName m"
    and "counts_ok E nodes seen counts"
  shows "\<exists>counts'. fold_opt (countTemporals E nodes) maps counts = Some counts' \<and> counts_ok E nodes (seen @ maps) counts'"
  using assms
proof (induction maps arbitrary: seen counts)
  case (Cons m maps)
  then obtain k where "findNode E nodes (mp_nodeName m) = Some k" "tn_name (nodes ! k) = mp_nodeName m" by auto
  from countTemporals_ok [OF Cons.prems(2) this] obtain c1 where
    c1: "countTemporals E nodes m counts = Some c1" "counts_ok E nodes (seen @ [m]) c1" by blast
  from Cons.IH [OF _ c1(2)] Cons.prems(1) c1(1) show ?case by auto
qed simp

text \<open>The selected entry is the first of the largest among those of active nodes.\<close>

definition best_count :: "t_node list \<Rightarrow> (nat option \<times> u16) list \<Rightarrow> (nat \<times> u16) option \<Rightarrow> bool" where
  "best_count nodes seen sel \<longleftrightarrow>
     (case sel of
        None \<Rightarrow> \<forall>e \<in> set seen. \<forall>k. fst e = Some k \<longrightarrow> \<not> isActive (nodes ! k)
      | Some (k, c) \<Rightarrow> (Some k, c) \<in> set seen \<and> isActive (nodes ! k) \<and>
          (\<forall>e \<in> set seen. \<forall>j. fst e = Some j \<longrightarrow> isActive (nodes ! j) \<longrightarrow> snd e \<le> c))"

lemma selectMoreTemps_best:
  assumes "best_count nodes seen sel" and "fst e = Some k"
  shows "\<exists>sel'. selectMoreTempsNode nodes e sel = Some sel' \<and> best_count nodes (seen @ [e]) sel'"
proof -
  obtain d where e: "e = (Some k, d)" using assms(2) by (cases e) auto
  show ?thesis
  proof (cases sel)
    case None
    then show ?thesis using assms(1) by (auto simp: selectMoreTempsNode_def best_count_def e)
  next
    case (Some s)
    then show ?thesis using assms(1) by (cases s) (auto simp: selectMoreTempsNode_def best_count_def e)
  qed
qed

lemma selectMoreTemps_fold:
  assumes "\<forall>e \<in> set counts. \<exists>k. fst e = Some k" and "best_count nodes seen sel"
  shows "\<exists>sel'. fold_opt (selectMoreTempsNode nodes) counts sel = Some sel' \<and> best_count nodes (seen @ counts) sel'"
  using assms
proof (induction counts arbitrary: seen sel)
  case (Cons e counts)
  then obtain k where "fst e = Some k" by auto
  from selectMoreTemps_best [OF Cons.prems(2) this] obtain sel1 where
    1: "selectMoreTempsNode nodes e sel = Some sel1" "best_count nodes (seen @ [e]) sel1" by blast
  from Cons.IH [OF _ 1(2)] Cons.prems(1) 1(1) show ?case by auto
qed simp

text \<open>A job without a combiner is reduced on the active node that has most of its results: of the
  nodes that ran its maps, the one selected is active and no active one has more; only when
  none of them is active is no node selected.\<close>

theorem reduce_where_most_results_are:
  assumes "\<forall>m \<in> set maps. \<exists>k. findNode E nodes (mp_nodeName m) = Some k \<and> tn_name (nodes ! k) = mp_nodeName m"
    and "length maps < 2 ^ 16"
  shows "\<exists>sel. select_for_reduce E nodes maps = Some sel \<and>
    (case sel of
       None \<Rightarrow> \<forall>m \<in> set maps. \<forall>k. findNode E nodes (mp_nodeName m) = Some k \<longrightarrow> \<not> isActive (nodes ! k)
     | Some (k, n) \<Rightarrow> isActive (nodes ! k) \<and> tn_name (nodes ! k) \<in> mp_nodeName ` set maps \<and>
         unat n = length (filter (\<lambda>m. mp_nodeName m = tn_name (nodes ! k)) maps) \<and>
         (\<forall>m \<in> set maps. \<forall>j. findNode E nodes (mp_nodeName m) = Some j \<longrightarrow> isActive (nodes ! j) \<longrightarrow>
           length (filter (\<lambda>m'. mp_nodeName m' = mp_nodeName m) maps) \<le> unat n))"
proof -
  have "counts_ok E nodes [] []" by (simp add: counts_ok_def)
  from counts_fold_ok [OF assms(1) this] obtain counts where
    c: "fold_opt (countTemporals E nodes) maps [] = Some counts" "counts_ok E nodes maps counts" by auto
  then obtain ks where ks: "map fst counts = map Some ks" "(\<lambda>k. tn_name (nodes ! k)) ` set ks = mp_nodeName ` set maps"
    "\<forall>k \<in> set ks. findNode E nodes (tn_name (nodes ! k)) = Some k"
    "map snd counts = map (\<lambda>k. word_of_nat (results_on maps (tn_name (nodes ! k)))) ks"
    unfolding counts_ok_def by blast
  have counts: "counts = map (\<lambda>k. (Some k, word_of_nat (results_on maps (tn_name (nodes ! k))))) ks"
    by (rule pairs_eq [OF ks(1,4)])
  have small: "results_on maps name < 2 ^ 16" for name
    using assms(2) length_filter_le [of "\<lambda>m. mp_nodeName m = name" maps] unfolding results_on_def by linarith
  have un: "unat (word_of_nat (results_on maps name) :: u16) = results_on maps name" for name
    using small [of name] by (simp add: unat_of_nat take_bit_eq_mod)
  have "\<forall>e \<in> set counts. \<exists>k. fst e = Some k" by (auto simp: counts)
  then obtain sel where sel: "fold_opt (selectMoreTempsNode nodes) counts None = Some sel" "best_count nodes counts sel"
    using selectMoreTemps_fold [of counts nodes "[]" None] by (auto simp: best_count_def)
  have in_ks: "k \<in> set ks \<and> tn_name (nodes ! k) = mp_nodeName m"
    if "m \<in> set maps" "findNode E nodes (mp_nodeName m) = Some k" for m k
  proof -
    have "mp_nodeName m \<in> (\<lambda>k. tn_name (nodes ! k)) ` set ks" using that(1) ks(2) by simp
    then obtain j where j: "j \<in> set ks" "tn_name (nodes ! j) = mp_nodeName m" by auto
    then have "j = k" using ks(3) that(2) by force
    with j show ?thesis by simp
  qed
  show ?thesis
  proof (cases sel)
    case None
    then show ?thesis using c(1) sel in_ks by (fastforce simp: select_for_reduce_def counts best_count_def)
  next
    case (Some s)
    obtain k n where s: "s = (k, n)" by (cases s)
    have kn: "k \<in> set ks" "n = word_of_nat (results_on maps (tn_name (nodes ! k)))" "isActive (nodes ! k)"
      and best: "\<And>j. j \<in> set ks \<Longrightarrow> isActive (nodes ! j) \<Longrightarrow> (word_of_nat (results_on maps (tn_name (nodes ! j))) :: u16) \<le> n"
      using sel(2) Some s by (auto simp: counts best_count_def)
    have "results_on maps (mp_nodeName m) \<le> unat n"
      if "m \<in> set maps" "findNode E nodes (mp_nodeName m) = Some j" "isActive (nodes ! j)" for m j
      using in_ks [OF that(1,2)] best [of j] that(3) by (simp add: word_le_nat_alt un kn(2))
    moreover have "unat n = results_on maps (tn_name (nodes ! k))" unfolding kn(2) by (rule un)
    ultimately show ?thesis using c(1) sel(1) Some s kn(1,3) ks(2) by (auto simp: select_for_reduce_def results_on_def)
  qed
qed

theorem reduce_where_most_results_are_witness:
  "\<exists>m n. CreateMap (marta_demo_env True) 0 4 6500 ''n1'' ''10.0.0.1'' 1 (ma_net marta_demo) = Some m \<and>
     select_for_reduce (marta_demo_env True) (ma_nodes marta_demo) [m] = Some (Some (0, n)) \<and> unat n = 1"
proof -
  let ?E = "marta_demo_env True" and ?nodes = "ma_nodes marta_demo"
  have t: "24 \<le> length (y_asctime ?E (ma_net marta_demo))" "c_string (y_asctime ?E (ma_net marta_demo))"
    by (simp_all add: marta_demo_env_def c_string_def)
  from setTempName_Some(1) [OF t, of "replicate 60 0" "''-Map''" 0 1] obtain name where
    "setTempMapName ?E (replicate 60 0) 0 1 (ma_net marta_demo) = Some name" by (auto simp: setTempMapName_def)
  then obtain m where m: "CreateMap ?E 0 4 6500 ''n1'' ''10.0.0.1'' 1 (ma_net marta_demo) = Some m" "mp_nodeName m = ''n1''"
    by (auto simp: CreateMap_def)
  have find: "findNode ?E ?nodes ''n1'' = Some 0" "tn_name (?nodes ! 0) = ''n1''" "isActive (?nodes ! 0)"
    by (simp_all add: findNode_def marta_demo_def nodeByName_def marta_demo_env_def lower_eq_def CreateNode_def isActive_def)
  then have "\<forall>m \<in> set [m]. \<exists>k. findNode ?E ?nodes (mp_nodeName m) = Some k \<and> tn_name (?nodes ! k) = mp_nodeName m"
    using m(2) by simp
  from reduce_where_most_results_are [OF this] obtain sel where sel: "select_for_reduce ?E ?nodes [m] = Some sel"
    "case sel of None \<Rightarrow> \<forall>m \<in> set [m]. \<forall>k. findNode ?E ?nodes (mp_nodeName m) = Some k \<longrightarrow> \<not> isActive (?nodes ! k)
     | Some (k, n) \<Rightarrow> isActive (?nodes ! k) \<and> tn_name (?nodes ! k) \<in> mp_nodeName ` set [m] \<and>
         unat n = length (filter (\<lambda>m'. mp_nodeName m' = tn_name (?nodes ! k)) [m])" by (auto split: option.splits)
  then obtain k n where kn: "sel = Some (k, n)" "tn_name (?nodes ! k) = ''n1''" "unat n = 1" using find m(2) by (auto split: option.splits)
  have k: "fold_opt (countTemporals ?E ?nodes) [m] [] = Some [(Some 0, 1)]" using m(2) find by (simp add: countTemporals_def)
  then have "sel = Some (0, 1)" using sel(1) find by (simp add: select_for_reduce_def selectMoreTempsNode_def)
  with kn sel(1) m(1) show ?thesis by auto
qed

end
