(* ===== verification/Marta_Reduce.thy ===== *)
theory Marta_Reduce
  imports Marta_Planning
begin

text \<open>
  What the plan of the reduces comes to. With a combiner: one partial reduce for each node that
  has results, over all of that node's results, which is grouping the maps by their node; then
  one final reduce over the results of the partial ones. And what becomes of a map that failed.
\<close>

section \<open>Lists of partial results\<close>

lemma fold_opt_Nil: "fold_opt f [] = Some"
  by (rule ext) simp

lemma fold_opt_snoc: "fold_opt f (xs @ [x]) s = Option.bind (fold_opt f xs s) (f x)"
  by (cases "fold_opt f xs s") (simp_all add: fold_opt_append fold_opt_Nil)

lemma map_all_append: "map_all f (xs @ ys) = do { a \<leftarrow> map_all f xs; b \<leftarrow> map_all f ys; Some (a @ b) }"
proof (induction xs)
  case (Cons x xs)
  then show ?case by (cases "f x"; cases "map_all f xs"; cases "map_all f ys") auto
qed simp

lemma map_all_cong: "(\<And>x. x \<in> set xs \<Longrightarrow> f x = g x) \<Longrightarrow> map_all f xs = map_all g xs"
  by (induction xs) auto

lemma map_all_Some: "map_all f xs = Some ys \<longleftrightarrow> length ys = length xs \<and> (\<forall>i < length xs. f (xs ! i) = Some (ys ! i))"
proof (induction xs arbitrary: ys)
  case (Cons x xs)
  show ?case
  proof (cases ys)
    case (Cons y ys')
    then show ?thesis using Cons.IH [of ys'] by (auto simp: bind_eq_Some_conv nth_Cons split: nat.splits)
  qed (auto simp: bind_eq_Some_conv)
qed auto

lemma map_all_None: "map_all f xs = None \<longleftrightarrow> (\<exists>x \<in> set xs. f x = None)"
  by (induction xs) (auto simp: bind_eq_None_conv)

section \<open>Partial reduces\<close>

text \<open>The nodes that have results, in the order of the first map of each.\<close>

definition result_nodes :: "t_map list \<Rightarrow> string list" where
  "result_nodes maps = rev (remdups (rev (map mp_nodeName maps)))"

definition maps_on :: "string \<Rightarrow> t_map list \<Rightarrow> t_map list" where
  "maps_on name maps = filter (\<lambda>m. mp_nodeName m = name) maps"

definition reduce_of :: "('n, 'z) marta_env_scheme \<Rightarrow> u16 \<Rightarrow> 'n \<Rightarrow> t_map list \<Rightarrow> nat \<Rightarrow> t_reduce option" where
  "reduce_of E jobID n maps i =
     do {
       let ms = maps_on (result_nodes maps ! i) maps;
       reduce \<leftarrow> CreateReduce E (word_of_nat (i + 1)) (result_nodes maps ! i) (mp_nodeIP (hd ms)) (mp_nodePort (hd ms)) jobID n;
       temps \<leftarrow> map_all mapToTemporal ms;
       Some (reduce\<lparr>rd_temps := temps\<rparr>)
     }"

definition group_reduces :: "('n, 'z) marta_env_scheme \<Rightarrow> u16 \<Rightarrow> 'n \<Rightarrow> t_map list \<Rightarrow> t_reduce list option" where
  "group_reduces E jobID n maps = map_all (reduce_of E jobID n maps) [0..<length (result_nodes maps)]"

lemma result_nodes_snoc:
  "result_nodes (maps @ [m]) =
     (if mp_nodeName m \<in> mp_nodeName ` set maps then result_nodes maps else result_nodes maps @ [mp_nodeName m])"
  by (simp add: result_nodes_def)

lemma set_result_nodes [simp]: "set (result_nodes maps) = mp_nodeName ` set maps"
  by (simp add: result_nodes_def)

lemma distinct_result_nodes: "distinct (result_nodes maps)"
  by (simp add: result_nodes_def)

lemma maps_on_snoc: "maps_on name (maps @ [m]) = maps_on name maps @ (if mp_nodeName m = name then [m] else [])"
  by (simp add: maps_on_def)

lemma maps_on_result_node: "i < length (result_nodes maps) \<Longrightarrow> maps_on (result_nodes maps ! i) maps \<noteq> []"
  using nth_mem [of i "result_nodes maps"] by (auto simp: maps_on_def filter_empty_conv)

lemma reduce_of_finalNode: "reduce_of E jobID n maps i = Some r \<Longrightarrow> rd_finalNode r = Some (result_nodes maps ! i)"
  by (auto simp: reduce_of_def CreateReduce_def bind_eq_Some_conv Let_def)

lemma reduce_of_snoc:
  assumes "i < length (result_nodes maps)"
  shows "reduce_of E jobID n (maps @ [m]) i =
    (if mp_nodeName m = result_nodes maps ! i
     then do { reduce \<leftarrow> reduce_of E jobID n maps i; temporal \<leftarrow> mapToTemporal m;
            Some (reduce\<lparr>rd_temps := rd_temps reduce @ [temporal]\<rparr>) }
     else reduce_of E jobID n maps i)"
proof -
  have same: "result_nodes (maps @ [m]) ! i = result_nodes maps ! i"
    using assms by (simp add: result_nodes_snoc nth_append)
  have hd: "hd (maps_on (result_nodes maps ! i) maps @ ms) = hd (maps_on (result_nodes maps ! i) maps)" for ms
    using maps_on_result_node [OF assms] by simp
  show ?thesis
    by (cases "mapToTemporal m"; cases "map_all mapToTemporal (maps_on (result_nodes maps ! i) maps)";
      cases "CreateReduce E (word_of_nat (i + 1)) (result_nodes maps ! i) (mp_nodeIP (hd (maps_on (result_nodes maps ! i) maps)))
        (mp_nodePort (hd (maps_on (result_nodes maps ! i) maps))) jobID n")
      (simp_all add: reduce_of_def same maps_on_snoc hd map_all_append Let_def)
qed

lemma group_reduces_Some:
  "group_reduces E jobID n maps = Some rs \<longleftrightarrow> length rs = length (result_nodes maps) \<and>
     (\<forall>i < length rs. reduce_of E jobID n maps i = Some (rs ! i))"
  by (auto simp: group_reduces_def map_all_Some)

lemma group_finalNodes:
  assumes "group_reduces E jobID n maps = Some rs"
  shows "map rd_finalNode rs = map Some (result_nodes maps)"
  using assms by (intro nth_equalityI) (auto simp: group_reduces_Some reduce_of_finalNode)

text \<open>A map of a node that has a reduce already adds its result to it.\<close>

lemma group_known:
  assumes rs: "group_reduces E jobID n maps = Some rs" and m: "mp_nodeName m \<in> mp_nodeName ` set maps"
  shows "agregarAPartialReduces E jobID n m rs = group_reduces E jobID n (maps @ [m])"
proof -
  let ?L = "length (result_nodes maps)"
  have names: "result_nodes (maps @ [m]) = result_nodes maps" using m by (simp add: result_nodes_snoc)
  have len: "length rs = ?L" and each: "\<And>i. i < ?L \<Longrightarrow> reduce_of E jobID n maps i = Some (rs ! i)"
    using rs by (auto simp: group_reduces_Some)
  have final: "rd_finalNode (rs ! i) = Some (result_nodes maps ! i)" if "i < ?L" for i
    using reduce_of_finalNode [OF each [OF that]] .
  from m obtain j0 where j0: "j0 < ?L" "result_nodes maps ! j0 = mp_nodeName m"
    by (metis set_result_nodes in_set_conv_nth)
  have "find_index (\<lambda>rd. rd_finalNode rd = Some (mp_nodeName m)) rs \<noteq> None"
    using j0 final [of j0] len by (auto simp: find_index_None)
  then obtain j where j: "find_index (\<lambda>rd. rd_finalNode rd = Some (mp_nodeName m)) rs = Some j" by blast
  have j': "j < ?L" "result_nodes maps ! j = mp_nodeName m"
    using find_index_Some [OF j] final [of j] len by auto
  have only: "i = j" if "i < ?L" "result_nodes maps ! i = mp_nodeName m" for i
    using nth_eq_iff_index_eq [OF distinct_result_nodes that(1) j'(1)] that(2) j'(2) by simp
  show ?thesis
  proof (cases "mapToTemporal m")
    case None
    then have "reduce_of E jobID n (maps @ [m]) j = None" using j' by (simp add: reduce_of_snoc each)
    then have "group_reduces E jobID n (maps @ [m]) = None"
      using j'(1) by (auto simp: group_reduces_def names map_all_None intro!: bexI [of _ j])
    with None show ?thesis by (simp add: agregarAPartialReduces_def)
  next
    case (Some t)
    let ?rs = "rs[j := (rs ! j)\<lparr>rd_temps := rd_temps (rs ! j) @ [t]\<rparr>]"
    have "reduce_of E jobID n (maps @ [m]) i = Some (?rs ! i)" if "i < ?L" for i
      using that only [of i] j' by (auto simp: reduce_of_snoc each Some len nth_list_update)
    then have "group_reduces E jobID n (maps @ [m]) = Some ?rs" by (simp add: group_reduces_Some names len)
    then show ?thesis by (simp add: agregarAPartialReduces_def Some j)
  qed
qed

text \<open>The first map of a node adds a reduce.\<close>

lemma group_new:
  assumes rs: "group_reduces E jobID n maps = Some rs" and m: "mp_nodeName m \<notin> mp_nodeName ` set maps"
  shows "agregarAPartialReduces E jobID n m rs = group_reduces E jobID n (maps @ [m])"
proof -
  let ?L = "length (result_nodes maps)"
  have names: "result_nodes (maps @ [m]) = result_nodes maps @ [mp_nodeName m]" using m by (simp add: result_nodes_snoc)
  have len: "length rs = ?L" using rs by (auto simp: group_reduces_Some)
  have none: "find_index (\<lambda>rd. rd_finalNode rd = Some (mp_nodeName m)) rs = None"
  proof -
    have "Some (mp_nodeName m) \<notin> set (map rd_finalNode rs)" using m unfolding group_finalNodes [OF rs] by auto
    then show ?thesis by (force simp: find_index_None image_iff)
  qed
  have old: "map_all (reduce_of E jobID n (maps @ [m])) [0..<?L] = Some rs"
  proof -
    have "map_all (reduce_of E jobID n (maps @ [m])) [0..<?L] = map_all (reduce_of E jobID n maps) [0..<?L]"
      using m nth_mem [of _ "result_nodes maps"] by (intro map_all_cong) (auto simp: reduce_of_snoc)
    then show ?thesis using rs by (simp add: group_reduces_def)
  qed
  have "maps_on (mp_nodeName m) maps = []" using m unfolding maps_on_def filter_empty_conv by (metis imageI)
  then have new: "reduce_of E jobID n (maps @ [m]) ?L =
      do { reduce \<leftarrow> CreateReduce E (word_of_nat (?L + 1)) (mp_nodeName m) (mp_nodeIP m) (mp_nodePort m) jobID n;
        t \<leftarrow> mapToTemporal m; Some (reduce\<lparr>rd_temps := [t]\<rparr>) }"
    by (cases "mapToTemporal m") (simp_all add: reduce_of_def names maps_on_snoc Let_def)
  show ?thesis
    by (cases "mapToTemporal m"; cases "CreateReduce E (word_of_nat (?L + 1)) (mp_nodeName m) (mp_nodeIP m) (mp_nodePort m) jobID n")
      (simp_all add: group_reduces_def names map_all_append old new agregarAPartialReduces_def none len del: of_nat_Suc of_nat_add)
qed

lemma group_None:
  assumes "group_reduces E jobID n maps = None"
  shows "group_reduces E jobID n (maps @ [m]) = None"
proof -
  obtain i where i: "i < length (result_nodes maps)" "reduce_of E jobID n maps i = None"
    using assms by (auto simp: group_reduces_def map_all_None)
  then have "reduce_of E jobID n (maps @ [m]) i = None" by (simp add: reduce_of_snoc)
  moreover have "i < length (result_nodes (maps @ [m]))" using i(1) by (simp add: result_nodes_snoc)
  ultimately show ?thesis by (auto simp: group_reduces_def map_all_None intro!: bexI [of _ i])
qed

lemma agregar_groups: "fold_opt (agregarAPartialReduces E jobID n) maps [] = group_reduces E jobID n maps"
proof (induction maps rule: rev_induct)
  case Nil
  then show ?case by (simp add: group_reduces_def result_nodes_def)
next
  case (snoc m maps)
  show ?case
  proof (cases "group_reduces E jobID n maps")
    case None
    then show ?thesis by (simp add: fold_opt_snoc snoc group_None)
  next
    case (Some rs)
    then show ?thesis using group_known [OF Some] group_new [OF Some]
      by (cases "mp_nodeName m \<in> mp_nodeName ` set maps") (simp_all add: fold_opt_snoc snoc)
  qed
qed

text \<open>Every result goes to exactly one reduce.\<close>

lemma mset_concat_upd:
  "j < length rs \<Longrightarrow> mset (f x) = add_mset t (mset (f (rs ! j))) \<Longrightarrow>
     mset (concat (map f (rs[j := x]))) = add_mset t (mset (concat (map f rs)))"
  by (subst (2) id_take_nth_drop [of j rs]) (simp_all add: upd_conv_take_nth_drop)

lemma agregar_adds:
  assumes "agregarAPartialReduces E jobID n m rs = Some rs'"
  obtains t where "mapToTemporal m = Some t"
    and "mset (concat (map rd_temps rs')) = add_mset t (mset (concat (map rd_temps rs)))"
proof -
  obtain t where t: "mapToTemporal m = Some t" using assms by (auto simp: agregarAPartialReduces_def bind_eq_Some_conv)
  have "mset (concat (map rd_temps rs')) = add_mset t (mset (concat (map rd_temps rs)))"
  proof (cases "find_index (\<lambda>rd. rd_finalNode rd = Some (mp_nodeName m)) rs")
    case None
    then show ?thesis using assms t by (auto simp: agregarAPartialReduces_def bind_eq_Some_conv)
  next
    case (Some j)
    then have "rs' = rs[j := (rs ! j)\<lparr>rd_temps := rd_temps (rs ! j) @ [t]\<rparr>]" using assms t
      by (auto simp: agregarAPartialReduces_def)
    then show ?thesis using find_index_Some [OF Some] by (simp add: mset_concat_upd)
  qed
  with t show thesis by (rule that)
qed

lemma group_results:
  "group_reduces E jobID n maps = Some rs \<Longrightarrow> image_mset Some (mset (concat (map rd_temps rs))) = mset (map mapToTemporal maps)"
  unfolding agregar_groups [symmetric]
proof (induction maps arbitrary: rs rule: rev_induct)
  case (snoc m maps)
  then obtain rs0 where 0: "fold_opt (agregarAPartialReduces E jobID n) maps [] = Some rs0"
    "agregarAPartialReduces E jobID n m rs0 = Some rs" by (auto simp: fold_opt_snoc bind_eq_Some_conv)
  from agregar_adds [OF 0(2)] obtain t where "mapToTemporal m = Some t"
    "mset (concat (map rd_temps rs)) = add_mset t (mset (concat (map rd_temps rs0)))" .
  then show ?case using snoc.IH [OF 0(1)] by simp
qed simp

section \<open>Orders of reduces\<close>

definition inc_reduces :: "t_node \<Rightarrow> t_node" where
  "inc_reduces node = node\<lparr>tn_reduces := tn_reduces node + 1\<rparr>"

text \<open>The nodes after a reduce was ordered on each of \<open>names\<close>.\<close>

fun ordered_on :: "'z commons_scheme \<Rightarrow> string list \<Rightarrow> t_node list \<Rightarrow> t_node list" where
  "ordered_on E [] nodes = nodes"
| "ordered_on E (name # names) nodes =
     (case findNode E nodes name of
        None \<Rightarrow> nodes
      | Some k \<Rightarrow> ordered_on E names (nodes[k := inc_reduces (nodes ! k)]))"

lemma notificarReduce_ok:
  assumes "marta_ok E" and "rd_finalNode reduce = Some name" and "rd_nodeIP reduce = Some ip" and "findNode E (ma_nodes w) name = Some k"
  shows "\<exists>net. notificarReduce E job reduce w =
    Some (Some (), w\<lparr>ma_nodes := (ma_nodes w)[k := inc_reduces (ma_nodes w ! k)], ma_net := net\<rparr>)"
proof -
  let ?w1 = "w\<lparr>ma_nodes := (ma_nodes w)[k := inc_reduces (ma_nodes w ! k)]\<rparr>"
  obtain p where p: "reduce_order_bytes reduce = Some p" using assms(3) by (auto simp: reduce_order_bytes_def)
  obtain net where "ma_send E (jb_socket job) p ?w1 = (SOCKET_ERROR_NONE, ?w1\<lparr>ma_net := net\<rparr>)"
    using marta_send_ok [OF assms(1)] by blast
  then show ?thesis
    by (auto simp: notificarReduce_def assms update_node_def serializeReduceToOrder_def p inc_reduces_def)
qed

lemma findNode_inc: "findNode E (nodes[k := inc_reduces (nodes ! k)]) name = findNode E nodes name"
proof -
  have "tn_name (nodes[k := inc_reduces (nodes ! k)] ! i) = tn_name (nodes ! i)" for i
    by (cases "i = k"; cases "k < length nodes") (simp_all add: inc_reduces_def list_update_beyond)
  then show ?thesis by (simp add: findNode_def nodeByName_def)
qed

lemma ordered_on_keeps:
  "length (ordered_on E names nodes) = length nodes \<and> findNode E (ordered_on E names nodes) name = findNode E nodes name"
  by (induction names arbitrary: nodes) (simp_all add: findNode_inc split: option.splits)

lemma ordered_on_nth:
  assumes "\<forall>name \<in> set names. findNode E nodes name \<noteq> None" and "k < length nodes"
  shows "ordered_on E names nodes ! k = (nodes ! k)\<lparr>tn_reduces := tn_reduces (nodes ! k) +
    word_of_nat (length (filter (\<lambda>name. findNode E nodes name = Some k) names))\<rparr>"
  using assms
proof (induction names arbitrary: nodes)
  case (Cons name names)
  obtain j where j: "findNode E nodes name = Some j" using Cons.prems(1) by auto
  have "j < length nodes" using findNode_Some [OF j] by simp
  let ?nodes = "nodes[j := inc_reduces (nodes ! j)]"
  have "ordered_on E names ?nodes ! k = (?nodes ! k)\<lparr>tn_reduces := tn_reduces (?nodes ! k) +
      word_of_nat (length (filter (\<lambda>name. findNode E nodes name = Some k) names))\<rparr>"
    using Cons.IH [of ?nodes] Cons.prems by (simp add: findNode_inc)
  moreover have "?nodes ! k = (if j = k then inc_reduces (nodes ! k) else nodes ! k)"
    using Cons.prems(2) by simp
  ultimately show ?case using j by (simp add: inc_reduces_def)
qed simp

lemma notificar_all_ok:
  assumes "marta_ok E" and "\<forall>rd \<in> set reduces. \<exists>name. rd_finalNode rd = Some name \<and> rd_nodeIP rd \<noteq> None \<and> findNode E (ma_nodes w) name \<noteq> None"
  shows "\<exists>net. notificar_all E job reduces w =
    Some (Some (), w\<lparr>ma_nodes := ordered_on E (map (the \<circ> rd_finalNode) reduces) (ma_nodes w), ma_net := net\<rparr>)"
  using assms(2)
proof (induction reduces arbitrary: w)
  case Nil
  then show ?case by (auto intro: exI [of _ "ma_net w"])
next
  case (Cons rd reduces)
  then obtain name ip k where rd: "rd_finalNode rd = Some name" "rd_nodeIP rd = Some ip" "findNode E (ma_nodes w) name = Some k"
    by auto
  from notificarReduce_ok [OF assms(1) rd, of job] obtain net where
    1: "notificarReduce E job rd w = Some (Some (), w\<lparr>ma_nodes := (ma_nodes w)[k := inc_reduces (ma_nodes w ! k)], ma_net := net\<rparr>)" ..
  from Cons.IH [of "w\<lparr>ma_nodes := (ma_nodes w)[k := inc_reduces (ma_nodes w ! k)], ma_net := net\<rparr>"] Cons.prems
  show ?case by (auto simp: 1 rd findNode_inc)
qed

text \<open>The name of a map's result fits where it is copied to.\<close>

definition name_fits :: "byte list \<Rightarrow> bool" where
  "name_fits name \<longleftrightarrow> length (cstr name) < 60"

lemma CreateReduce_ok:
  assumes "marta_ok E" and "unat i < 1000" and "unat jobID < 1000"
  shows "\<exists>name. CreateReduce E i nodeName nodeIP nodePort jobID n = Some \<lparr>rd_id = i, rd_temps = [], rd_finalNode = Some nodeName,
    rd_nodeIP = Some nodeIP, rd_nodePort = nodePort, rd_tempResultName = name, rd_done = False\<rparr> \<and> name_fits name"
proof -
  have "setTempReduceName E (replicate 60 0) i jobID n \<noteq> None"
    using setTempName_Some(1) [of E n "replicate 60 0" "''-Red''" i jobID] assms by (simp add: setTempReduceName_def marta_ok_def)
  then obtain name where name: "setTempReduceName E (replicate 60 0) i jobID n = Some name" by auto
  then have "name_fits name"
    using setTempName_Some(2) [of E n "replicate 60 0" "''-Red''" i jobID name] temp_name_fits(2) [of E n "''-Red''" i jobID] assms(1)
    by (simp add: setTempReduceName_def marta_ok_def name_fits_def)
  with name show ?thesis by (simp add: CreateReduce_def)
qed

lemma CreateTemp_ok: "name_fits name \<Longrightarrow> CreateTemp nodeID ip port origin name \<noteq> None"
  by (auto simp: CreateTemp_def strcpy60_def name_fits_def)

lemma map_all_total: "\<forall>x \<in> set xs. f x \<noteq> None \<Longrightarrow> \<exists>ys. map_all f xs = Some ys"
  using map_all_None [of f xs] by auto

lemma reduce_of_ok:
  assumes "marta_ok E" and i: "i < length (result_nodes maps)" and few: "length (result_nodes maps) < 1000" and "unat jobID < 1000"
    and "\<forall>m \<in> set maps. name_fits (mp_tempResultName m)"
  shows "\<exists>r. reduce_of E jobID n maps i = Some r \<and> rd_id r = word_of_nat (i + 1) \<and> rd_nodeIP r \<noteq> None \<and> name_fits (rd_tempResultName r) \<and>
    map Some (rd_temps r) = map mapToTemporal (maps_on (result_nodes maps ! i) maps)"
proof -
  let ?ms = "maps_on (result_nodes maps ! i) maps"
  have "unat (word_of_nat (i + 1) :: u16) < 1000" using i few by (simp add: unat_of_nat take_bit_eq_mod del: of_nat_add of_nat_Suc)
  from CreateReduce_ok [OF assms(1) this assms(4)] obtain name where
    r: "CreateReduce E (word_of_nat (i + 1)) (result_nodes maps ! i) (mp_nodeIP (hd ?ms)) (mp_nodePort (hd ?ms)) jobID n =
      Some \<lparr>rd_id = word_of_nat (i + 1), rd_temps = [], rd_finalNode = Some (result_nodes maps ! i), rd_nodeIP = Some (mp_nodeIP (hd ?ms)),
        rd_nodePort = mp_nodePort (hd ?ms), rd_tempResultName = name, rd_done = False\<rparr>" and "name_fits name" by blast
  have "\<forall>m \<in> set ?ms. mapToTemporal m \<noteq> None" using assms(5) CreateTemp_ok by (simp add: maps_on_def mapToTemporal_def)
  then obtain temps where t: "map_all mapToTemporal ?ms = Some temps" using map_all_total by blast
  then have "map Some temps = map mapToTemporal ?ms" by (intro nth_equalityI) (auto simp: map_all_Some)
  with \<open>name_fits name\<close> show ?thesis by (simp add: reduce_of_def r [simplified] t Let_def)
qed

lemma grouping_ok:
  assumes "marta_ok E" and few: "length (result_nodes maps) < 1000" and "unat jobID < 1000"
    and "\<forall>m \<in> set maps. name_fits (mp_tempResultName m)"
  obtains rs where "group_reduces E jobID n maps = Some rs"
    and "\<And>i. i < length rs \<Longrightarrow> rd_id (rs ! i) = word_of_nat (i + 1) \<and> rd_nodeIP (rs ! i) \<noteq> None \<and> name_fits (rd_tempResultName (rs ! i)) \<and>
      map Some (rd_temps (rs ! i)) = map mapToTemporal (maps_on (result_nodes maps ! i) maps)"
proof -
  note each = reduce_of_ok [OF assms(1) _ few assms(3,4)]
  have "\<forall>i \<in> set [0..<length (result_nodes maps)]. reduce_of E jobID n maps i \<noteq> None" using each by fastforce
  then obtain rs where rs: "group_reduces E jobID n maps = Some rs" unfolding group_reduces_def using map_all_total by blast
  show thesis
  proof (rule that [OF rs])
    fix i assume "i < length rs"
    then have i: "i < length (result_nodes maps)" "reduce_of E jobID n maps i = Some (rs ! i)"
      using rs by (simp_all add: group_reduces_Some)
    from each [OF i(1), of n] i(2) show "rd_id (rs ! i) = word_of_nat (i + 1) \<and> rd_nodeIP (rs ! i) \<noteq> None \<and> name_fits (rd_tempResultName (rs ! i)) \<and>
      map Some (rd_temps (rs ! i)) = map mapToTemporal (maps_on (result_nodes maps ! i) maps)" by auto
  qed
qed

text \<open>C22. Collecting the partial reduces is grouping the maps by their node. Going through the maps one
  by one, \<open>agregarAPartialReduces\<close> ends with the reduces that taking the nodes in the order of
  their first maps, and for each all of its maps, gives, numbered from 1 (and it is undefined on
  the same inputs); no result of a map is lost or reduced twice.\<close>

theorem partial_reduces_group:
  "fold_opt (agregarAPartialReduces E jobID n) maps [] =
     map_all (\<lambda>i. do {
       let name = rev (remdups (rev (map mp_nodeName maps))) ! i;
       let ms = filter (\<lambda>m. mp_nodeName m = name) maps;
       reduce \<leftarrow> CreateReduce E (word_of_nat (i + 1)) name (mp_nodeIP (hd ms)) (mp_nodePort (hd ms)) jobID n;
       temps \<leftarrow> map_all mapToTemporal ms;
       Some (reduce\<lparr>rd_temps := temps\<rparr>)
     }) [0..<card (mp_nodeName ` set maps)] \<and>
   (\<forall>rs. fold_opt (agregarAPartialReduces E jobID n) maps [] = Some rs \<longrightarrow>
     image_mset Some (mset (concat (map rd_temps rs))) = mset (map mapToTemporal maps))"
proof (intro conjI allI impI)
  have "length (result_nodes maps) = card (mp_nodeName ` set maps)"
    using distinct_card [OF distinct_result_nodes, of maps] by simp
  then show "fold_opt (agregarAPartialReduces E jobID n) maps [] =
     map_all (\<lambda>i. do {
       let name = rev (remdups (rev (map mp_nodeName maps))) ! i;
       let ms = filter (\<lambda>m. mp_nodeName m = name) maps;
       reduce \<leftarrow> CreateReduce E (word_of_nat (i + 1)) name (mp_nodeIP (hd ms)) (mp_nodePort (hd ms)) jobID n;
       temps \<leftarrow> map_all mapToTemporal ms;
       Some (reduce\<lparr>rd_temps := temps\<rparr>)
     }) [0..<card (mp_nodeName ` set maps)]"
    unfolding agregar_groups group_reduces_def
    by (simp add: reduce_of_def [abs_def] maps_on_def result_nodes_def Let_def)
qed (rule group_results, simp add: agregar_groups)

text \<open>The maps of the witnesses: two on the node n2 and one on n1.\<close>

definition demo_result :: "u16 \<Rightarrow> string \<Rightarrow> t_map" where
  "demo_result i node = \<lparr>mp_id = i, mp_copies = [], mp_nodeName = node, mp_nodeIP = ''10.0.0.1'', mp_nodePort = 6500,
     mp_numBlock = i, mp_tempResultName = str_bytes ''res.txt'' @ 0 # replicate 52 0, mp_done = True\<rparr>"

definition demo_maps :: "t_map list" where
  "demo_maps = [demo_result 0 ''n2'', demo_result 1 ''n1'', demo_result 2 ''n2'']"

lemma demo_maps_ok:
  "result_nodes demo_maps = [''n2'', ''n1'']" "\<forall>m \<in> set demo_maps. name_fits (mp_tempResultName m)"
  by (simp_all add: demo_maps_def demo_result_def result_nodes_def name_fits_def c_string_def)

theorem partial_reduces_group_witness:
  "\<exists>rs. fold_opt (agregarAPartialReduces (marta_demo_env True) 1 (ma_net marta_demo)) demo_maps [] = Some rs \<and>
     length (concat (map rd_temps rs)) = 3"
proof -
  obtain rs where "group_reduces (marta_demo_env True) 1 (ma_net marta_demo) demo_maps = Some rs"
    by (rule grouping_ok [OF marta_demo_env_ok [of True] _ _ demo_maps_ok(2), of 1 "ma_net marta_demo"]) (simp_all add: demo_maps_ok)
  then have rs: "fold_opt (agregarAPartialReduces (marta_demo_env True) 1 (ma_net marta_demo)) demo_maps [] = Some rs"
    by (simp add: agregar_groups)
  note partial_reduces_group [THEN conjunct2, THEN spec, THEN mp, OF rs]
  from arg_cong [OF this, of size] have "length (concat (map rd_temps rs)) = 3" by (simp add: demo_maps_def)
  with rs show ?thesis by blast
qed

text \<open>The first phase of a job with a combiner.\<close>

lemma combiner_partials_ok:
  assumes E: "marta_ok E" and empty: "jb_partialReduces job = []" and few: "card (mp_nodeName ` set (jb_maps job)) < 1000"
    and "unat (jb_id job) < 1000" and "\<forall>m \<in> set (jb_maps job). length (cstr (mp_tempResultName m)) < 60"
    and known: "\<forall>m \<in> set (jb_maps job). findNode E (ma_nodes w) (mp_nodeName m) \<noteq> None"
  shows "\<exists>rs w'. combinerPartialsReducePlanning E job w = Some (Some (job\<lparr>jb_partialReduces := rs\<rparr>), w') \<and>
    map rd_finalNode rs = map Some (rev (remdups (rev (map mp_nodeName (jb_maps job))))) \<and>
    (\<forall>i < length rs. rd_nodeIP (rs ! i) \<noteq> None \<and> name_fits (rd_tempResultName (rs ! i))) \<and>
    (\<forall>i < length rs. rd_id (rs ! i) = word_of_nat (i + 1) \<and> \<not> rd_done (rs ! i) \<and>
      map Some (rd_temps (rs ! i)) = map mapToTemporal (filter (\<lambda>m. rd_finalNode (rs ! i) = Some (mp_nodeName m)) (jb_maps job))) \<and>
    length (ma_nodes w') = length (ma_nodes w) \<and>
    (\<forall>k < length (ma_nodes w). ma_nodes w' ! k = (ma_nodes w ! k)\<lparr>tn_reduces := tn_reduces (ma_nodes w ! k) +
      word_of_nat (card {name \<in> mp_nodeName ` set (jb_maps job). findNode E (ma_nodes w) name = Some k})\<rparr>)"
proof -
  let ?maps = "jb_maps job" and ?names = "result_nodes (jb_maps job)" and ?clear = "map (\<lambda>rd. rd\<lparr>rd_done := False\<rparr>)"
  have len: "length ?names < 1000" using few distinct_card [OF distinct_result_nodes, of ?maps] by simp
  have fits: "\<forall>m \<in> set ?maps. name_fits (mp_tempResultName m)" using assms(5) by (simp add: name_fits_def)
  obtain rs where rs: "group_reduces E (jb_id job) (ma_net w) ?maps = Some rs"
    and each: "\<And>i. i < length rs \<Longrightarrow> rd_id (rs ! i) = word_of_nat (i + 1) \<and> rd_nodeIP (rs ! i) \<noteq> None \<and> name_fits (rd_tempResultName (rs ! i)) \<and>
      map Some (rd_temps (rs ! i)) = map mapToTemporal (maps_on (?names ! i) ?maps)"
    using grouping_ok [OF E len assms(4) fits] by blast
  note final = group_finalNodes [OF rs]
  have fin: "rd_finalNode (rs ! i) = Some (?names ! i)" if "i < length rs" for i
    using arg_cong [OF final, of "\<lambda>xs. xs ! i"] that rs by (simp add: group_reduces_Some)
  have names: "map (the \<circ> rd_finalNode) rs = ?names"
    using arg_cong [OF final, of "map the"] by simp
  have kn: "\<forall>name \<in> set ?names. findNode E (ma_nodes w) name \<noteq> None" using known by simp
  have "\<exists>name. rd_finalNode rd = Some name \<and> rd_nodeIP rd \<noteq> None \<and> findNode E (ma_nodes w) name \<noteq> None"
    if rd: "rd \<in> set (?clear rs)" for rd
  proof -
    obtain i where i: "i < length rs" "rd = (rs ! i)\<lparr>rd_done := False\<rparr>" using rd by (auto simp: in_set_conv_nth)
    moreover have "?names ! i \<in> set ?names" using i(1) rs by (simp only: group_reduces_Some nth_mem)
    ultimately show ?thesis using each [OF i(1)] fin [OF i(1)] kn by (metis t_reduce.select_convs(3,4) t_reduce.surjective t_reduce.update_convs(7))
  qed
  then obtain net where sent: "notificar_all E (job\<lparr>jb_partialReduces := ?clear rs\<rparr>) (?clear rs) w =
      Some (Some (), w\<lparr>ma_nodes := ordered_on E (map (the \<circ> rd_finalNode) (?clear rs)) (ma_nodes w), ma_net := net\<rparr>)"
    using notificar_all_ok [OF E] by blast
  let ?w' = "w\<lparr>ma_nodes := ordered_on E ?names (ma_nodes w), ma_net := net\<rparr>"
  have run: "combinerPartialsReducePlanning E job w = Some (Some (job\<lparr>jb_partialReduces := ?clear rs\<rparr>), ?w')"
    using sent names by (simp add: combinerPartialsReducePlanning_def empty agregar_groups rs comp_def)
  have fins: "map rd_finalNode (?clear rs) = map Some ?names" using final by (simp add: comp_def)
  have names': "rd_nodeIP (?clear rs ! i) \<noteq> None \<and> name_fits (rd_tempResultName (?clear rs ! i))" if "i < length (?clear rs)" for i
    using that each [of i] by simp
  have parts: "rd_id (?clear rs ! i) = word_of_nat (i + 1) \<and> \<not> rd_done (?clear rs ! i) \<and> map Some (rd_temps (?clear rs ! i)) =
      map mapToTemporal (filter (\<lambda>m. rd_finalNode (?clear rs ! i) = Some (mp_nodeName m)) ?maps)" if "i < length (?clear rs)" for i
    using that each [of i] fin [of i] by (simp add: maps_on_def eq_commute)
  have work: "ma_nodes ?w' ! k = (ma_nodes w ! k)\<lparr>tn_reduces := tn_reduces (ma_nodes w ! k) +
      word_of_nat (card {name \<in> mp_nodeName ` set ?maps. findNode E (ma_nodes w) name = Some k})\<rparr>" if "k < length (ma_nodes w)" for k
  proof -
    have "length (filter (\<lambda>name. findNode E (ma_nodes w) name = Some k) ?names) =
        card {name \<in> mp_nodeName ` set ?maps. findNode E (ma_nodes w) name = Some k}"
      using distinct_card [OF distinct_filter [OF distinct_result_nodes]] by (metis set_filter set_result_nodes)
    then show ?thesis using ordered_on_nth [OF kn that] by simp
  qed
  have len': "length (ma_nodes ?w') = length (ma_nodes w)" using ordered_on_keeps [of E ?names "ma_nodes w"] by simp
  show ?thesis unfolding result_nodes_def [symmetric]
    by (rule exI [of _ "?clear rs"], rule exI [of _ ?w'], intro conjI allI impI run fins len')
      (assumption | rule names' [THEN conjunct1] names' [THEN conjunct2] parts [THEN conjunct1] parts [THEN conjunct2, THEN conjunct1] parts [THEN conjunct2, THEN conjunct2] work)+
qed

text \<open>C23. With a combiner each node reduces its own results first. When the nodes of the maps are known
  and the names fit, the first phase orders one reduce on each node that has results, numbered
  from 1 in the order of their first maps, over exactly the results of that node's maps, and
  counts one more reduce as work of each of these nodes (and as many more for a node known under
  several spellings of its name); nothing else of the nodes changes.\<close>

theorem combiner_one_reduce_per_node:
  assumes E: "marta_ok E" and empty: "jb_partialReduces job = []" and few: "card (mp_nodeName ` set (jb_maps job)) < 1000"
    and "unat (jb_id job) < 1000" and "\<forall>m \<in> set (jb_maps job). length (cstr (mp_tempResultName m)) < 60"
    and known: "\<forall>m \<in> set (jb_maps job). findNode E (ma_nodes w) (mp_nodeName m) \<noteq> None"
  shows "\<exists>rs w'. combinerPartialsReducePlanning E job w = Some (Some (job\<lparr>jb_partialReduces := rs\<rparr>), w') \<and>
    map rd_finalNode rs = map Some (rev (remdups (rev (map mp_nodeName (jb_maps job))))) \<and>
    (\<forall>i < length rs. rd_id (rs ! i) = word_of_nat (i + 1) \<and> \<not> rd_done (rs ! i) \<and>
      map Some (rd_temps (rs ! i)) = map mapToTemporal (filter (\<lambda>m. rd_finalNode (rs ! i) = Some (mp_nodeName m)) (jb_maps job))) \<and>
    length (ma_nodes w') = length (ma_nodes w) \<and>
    (\<forall>k < length (ma_nodes w). ma_nodes w' ! k = (ma_nodes w ! k)\<lparr>tn_reduces := tn_reduces (ma_nodes w ! k) +
      word_of_nat (card {name \<in> mp_nodeName ` set (jb_maps job). findNode E (ma_nodes w) name = Some k})\<rparr>)"
proof -
  from combiner_partials_ok [OF assms] obtain rs w' where r: "combinerPartialsReducePlanning E job w = Some (Some (job\<lparr>jb_partialReduces := rs\<rparr>), w')"
    "map rd_finalNode rs = map Some (rev (remdups (rev (map mp_nodeName (jb_maps job)))))"
    "\<forall>i < length rs. rd_id (rs ! i) = word_of_nat (i + 1) \<and> \<not> rd_done (rs ! i) \<and>
      map Some (rd_temps (rs ! i)) = map mapToTemporal (filter (\<lambda>m. rd_finalNode (rs ! i) = Some (mp_nodeName m)) (jb_maps job))"
    "length (ma_nodes w') = length (ma_nodes w)"
    "\<forall>k < length (ma_nodes w). ma_nodes w' ! k = (ma_nodes w ! k)\<lparr>tn_reduces := tn_reduces (ma_nodes w ! k) +
      word_of_nat (card {name \<in> mp_nodeName ` set (jb_maps job). findNode E (ma_nodes w) name = Some k})\<rparr>" by (elim exE conjE)
  show ?thesis by (rule exI [of _ rs], rule exI [of _ w']) (intro conjI r)
qed

lemma demo_find:
  "findNode (marta_demo_env True) (ma_nodes marta_demo) ''n1'' = Some 0" "findNode (marta_demo_env True) (ma_nodes marta_demo) ''n2'' = Some 1"
  by (simp_all add: findNode_def marta_demo_def nodeByName_def marta_demo_env_def lower_eq_def CreateNode_def to_lower_def)

theorem combiner_one_reduce_per_node_witness:
  "\<exists>rs w'. combinerPartialsReducePlanning (marta_demo_env True) ((CreateJob 1 True ''r'')\<lparr>jb_maps := demo_maps\<rparr>) marta_demo =
     Some (Some ((CreateJob 1 True ''r'')\<lparr>jb_maps := demo_maps, jb_partialReduces := rs\<rparr>), w') \<and>
     map rd_finalNode rs = [Some ''n2'', Some ''n1''] \<and> tn_reduces (ma_nodes w' ! 0) = 1"
proof -
  let ?job = "(CreateJob 1 True ''r'')\<lparr>jb_maps := demo_maps\<rparr>" and ?E = "marta_demo_env True"
  have maps: "mp_nodeName ` set demo_maps = {''n2'', ''n1''}" by (auto simp: demo_maps_def demo_result_def)
  have "{name \<in> mp_nodeName ` set demo_maps. findNode ?E (ma_nodes marta_demo) name = Some 0} = {''n1''}"
    unfolding maps using demo_find by auto
  then have one: "card {name \<in> mp_nodeName ` set (jb_maps ?job). findNode ?E (ma_nodes marta_demo) name = Some 0} = 1" by simp
  have prems: "jb_partialReduces ?job = []" "card (mp_nodeName ` set (jb_maps ?job)) < 1000" "unat (jb_id ?job) < 1000"
    "\<forall>m \<in> set (jb_maps ?job). length (cstr (mp_tempResultName m)) < 60"
    "\<forall>m \<in> set (jb_maps ?job). findNode ?E (ma_nodes marta_demo) (mp_nodeName m) \<noteq> None"
    using demo_maps_ok(2) demo_find by (auto simp: CreateJob_def maps name_fits_def) (auto simp: demo_maps_def demo_result_def)
  have "0 < length (ma_nodes marta_demo)" by (simp add: marta_demo_def)
  with combiner_one_reduce_per_node [OF marta_demo_env_ok prems] one obtain rs w' where
    "combinerPartialsReducePlanning ?E ?job marta_demo = Some (Some (?job\<lparr>jb_partialReduces := rs\<rparr>), w')"
    "map rd_finalNode rs = map Some (result_nodes demo_maps)"
    "ma_nodes w' ! 0 = (ma_nodes marta_demo ! 0)\<lparr>tn_reduces := tn_reduces (ma_nodes marta_demo ! 0) + 1\<rparr>"
    by (auto simp: result_nodes_def)
  then show ?thesis by (auto simp: demo_maps_ok marta_demo_def CreateNode_def)
qed

section \<open>The final reduce of a job with a combiner\<close>

text \<open>Choosing among the nodes of the partial reduces is choosing among the copies of a block.\<close>

definition as_copy :: "t_reduce \<Rightarrow> t_copy" where
  "as_copy rd = CreateCopy (the (rd_finalNode rd)) 0"

lemma searchNode_selectNode:
  assumes "rd_finalNode rd \<noteq> None"
  shows "searchNode E nodes rd sel = map_option (map_option fst) (selectNode E nodes (as_copy rd) (map_option (\<lambda>k. (k, 0)) sel))"
    and "selectNode E nodes (as_copy rd) (map_option (\<lambda>k. (k, 0)) sel) = Some s \<Longrightarrow> s = map_option (\<lambda>k. (k, 0)) (map_option fst s)"
proof -
  obtain name where name: "rd_finalNode rd = Some name" using assms by auto
  show "searchNode E nodes rd sel = map_option (map_option fst) (selectNode E nodes (as_copy rd) (map_option (\<lambda>k. (k, 0)) sel))"
    by (cases "findNode E nodes name"; cases sel) (auto simp: searchNode_def selectNode_def as_copy_def CreateCopy_def name Let_def)
  show "s = map_option (\<lambda>k. (k, 0)) (map_option fst s)"
    if "selectNode E nodes (as_copy rd) (map_option (\<lambda>k. (k, 0)) sel) = Some s"
    using that by (cases "findNode E nodes name"; cases sel) (auto simp: selectNode_def as_copy_def CreateCopy_def name Let_def split: if_splits)
qed

lemma search_fold:
  assumes "\<forall>rd \<in> set rds. rd_finalNode rd \<noteq> None"
  shows "fold_opt (searchNode E nodes) rds sel =
    map_option (map_option fst) (fold_opt (selectNode E nodes) (map as_copy rds) (map_option (\<lambda>k. (k, 0)) sel))"
  using assms
proof (induction rds arbitrary: sel)
  case (Cons rd rds)
  show ?case
  proof (cases "selectNode E nodes (as_copy rd) (map_option (\<lambda>k. (k, 0)) sel)")
    case None
    then show ?thesis using Cons.prems by (simp add: searchNode_selectNode(1))
  next
    case (Some s)
    moreover have "s = map_option (\<lambda>k. (k, 0)) (map_option fst s)"
      using searchNode_selectNode(2) [OF _ Some] Cons.prems by simp
    ultimately show ?thesis using Cons.IH [of "map_option fst s"] Cons.prems by (simp add: searchNode_selectNode(1))
  qed
qed (simp add: option.map_comp comp_def option.map_ident)

lemma setFinalReduce_ok:
  assumes "marta_ok E" and "unat jobID < 1000" and "length (rd_tempResultName reduce) = 60"
  obtains name where "setFinalReduce E reduce nodeName ip port jobID n = Some (reduce\<lparr>rd_id := 0, rd_finalNode := Some nodeName,
    rd_nodeIP := Some ip, rd_nodePort := port, rd_tempResultName := name\<rparr>)"
proof -
  have "setTempReduceName E (rd_tempResultName reduce) 0 jobID n \<noteq> None"
    using setTempName_Some(1) [of E n "rd_tempResultName reduce" "''-Red''" 0 jobID] assms by (simp add: setTempReduceName_def marta_ok_def)
  then show thesis using that by (auto simp: setFinalReduce_def)
qed

text \<open>What is relied on of the partial reduces: their nodes are known and the names of their results fit.\<close>

definition partial_ok :: "'z commons_scheme \<Rightarrow> t_node list \<Rightarrow> t_reduce \<Rightarrow> bool" where
  "partial_ok E nodes rd \<longleftrightarrow> rd_nodeIP rd \<noteq> None \<and> name_fits (rd_tempResultName rd) \<and>
     (\<exists>name k. rd_finalNode rd = Some name \<and> findNode E nodes name = Some k)"

lemma reduceToTemporal_ok: "partial_ok E nodes rd \<Longrightarrow> reduceToTemporal rd \<noteq> None"
  using CreateTemp_ok by (auto simp: partial_ok_def reduceToTemporal_def)

lemma search_best:
  assumes ok: "\<forall>rd \<in> set rds. partial_ok E nodes rd"
  obtains sel where "fold_opt (searchNode E nodes) rds None = Some (map_option fst sel)"
    and "best_copy E nodes (map as_copy rds) sel"
proof -
  have "\<forall>c \<in> set (map as_copy rds). findNode E nodes (cp_nodeName c) \<noteq> None"
    using ok by (auto simp: partial_ok_def as_copy_def CreateCopy_def)
  from select_for_map_best [OF this] obtain sel where sel: "select_for_map E nodes (map as_copy rds) = Some sel"
    "best_copy E nodes (map as_copy rds) sel" by blast
  have "\<forall>rd \<in> set rds. rd_finalNode rd \<noteq> None" using ok by (auto simp: partial_ok_def)
  from search_fold [OF this, of E nodes None] sel show thesis by (intro that) (simp_all add: select_for_map_def)
qed

text \<open>The final reduce ordered on the node selected.\<close>

lemma combinerFinal_selected:
  assumes E: "marta_ok E" and id: "unat (jb_id job) < 1000" and fresh: "length (rd_tempResultName (jb_finalReduce job)) = 60"
      "rd_temps (jb_finalReduce job) = []"
    and ok: "\<forall>rd \<in> set (jb_partialReduces job). partial_ok E (ma_nodes w) rd"
    and sel: "fold_opt (searchNode E (ma_nodes w)) (jb_partialReduces job) None = Some (Some k)"
    and name: "findNode E (ma_nodes w) (tn_name (ma_nodes w ! k)) = Some k"
  obtains final net where "combinerFinalReducePlanning E job w = Some (Some (job\<lparr>jb_finalReduce := final\<rparr>),
      w\<lparr>ma_nodes := (ma_nodes w)[k := inc_reduces (ma_nodes w ! k)], ma_net := net\<rparr>)"
    and "rd_id final = 0" and "rd_finalNode final = Some (tn_name (ma_nodes w ! k))" and "\<not> rd_done final"
    and "map Some (rd_temps final) = map reduceToTemporal (jb_partialReduces job)"
proof -
  let ?rds = "jb_partialReduces job" and ?nodes = "ma_nodes w" and ?node = "ma_nodes w ! k"
  obtain name' where final: "setFinalReduce E (jb_finalReduce job) (tn_name ?node) (tn_ip ?node) (word_of_int (tn_port ?node)) (jb_id job) (ma_net w) =
      Some ((jb_finalReduce job)\<lparr>rd_id := 0, rd_finalNode := Some (tn_name ?node), rd_nodeIP := Some (tn_ip ?node),
        rd_nodePort := word_of_int (tn_port ?node), rd_tempResultName := name'\<rparr>)" by (rule setFinalReduce_ok [OF E id fresh(1)])
  have "\<forall>rd \<in> set ?rds. reduceToTemporal rd \<noteq> None" using ok reduceToTemporal_ok by blast
  then obtain temps where temps: "map_all reduceToTemporal ?rds = Some temps" using map_all_total by blast
  then have ts: "map Some temps = map reduceToTemporal ?rds" by (intro nth_equalityI) (auto simp: map_all_Some)
  let ?final = "(jb_finalReduce job)\<lparr>rd_id := 0, rd_finalNode := Some (tn_name ?node), rd_nodeIP := Some (tn_ip ?node),
        rd_nodePort := word_of_int (tn_port ?node), rd_tempResultName := name', rd_temps := temps, rd_done := False\<rparr>"
  obtain net where net: "notificarReduce E (job\<lparr>jb_finalReduce := ?final\<rparr>) ?final w =
      Some (Some (), w\<lparr>ma_nodes := ?nodes[k := inc_reduces ?node], ma_net := net\<rparr>)"
    using notificarReduce_ok [OF E _ _ name, of ?final "tn_ip ?node" "job\<lparr>jb_finalReduce := ?final\<rparr>"] by auto
  have "combinerFinalReducePlanning E job w =
      Some (Some (job\<lparr>jb_finalReduce := ?final\<rparr>), w\<lparr>ma_nodes := ?nodes[k := inc_reduces ?node], ma_net := net\<rparr>)"
    using net by (simp add: combinerFinalReducePlanning_def sel final temps fresh(2) Let_def)
  then show thesis by (rule that) (simp_all add: ts)
qed

text \<open>C24. The final reduce of a job with a combiner runs on the least busy active node among those of
  the partial reduces, over one temporary file for each partial reduce, in their order, and
  counts as work of that node only. When none of those nodes is active any more the node chosen
  is NULL and is used.\<close>

theorem final_reduce_gathers:
  assumes E: "marta_ok E" and id: "unat (jb_id job) < 1000" and fresh: "length (rd_tempResultName (jb_finalReduce job)) = 60"
      "rd_temps (jb_finalReduce job) = []"
    and parts: "\<forall>rd \<in> set (jb_partialReduces job). rd_nodeIP rd \<noteq> None \<and> length (cstr (rd_tempResultName rd)) < 60 \<and>
      (\<exists>name k. rd_finalNode rd = Some name \<and> findNode E (ma_nodes w) name = Some k)"
    and names: "\<forall>k < length (ma_nodes w). findNode E (ma_nodes w) (tn_name (ma_nodes w ! k)) = Some k"
  shows "if \<exists>rd \<in> set (jb_partialReduces job). \<exists>k. findNode E (ma_nodes w) (the (rd_finalNode rd)) = Some k \<and> isActive (ma_nodes w ! k)
    then \<exists>k final w'. combinerFinalReducePlanning E job w = Some (Some (job\<lparr>jb_finalReduce := final\<rparr>), w') \<and>
      k < length (ma_nodes w) \<and> isActive (ma_nodes w ! k) \<and>
      (\<exists>rd \<in> set (jb_partialReduces job). findNode E (ma_nodes w) (the (rd_finalNode rd)) = Some k) \<and>
      (\<forall>rd \<in> set (jb_partialReduces job). \<forall>j. findNode E (ma_nodes w) (the (rd_finalNode rd)) = Some j \<longrightarrow> isActive (ma_nodes w ! j) \<longrightarrow>
        workLoad (tn_maps (ma_nodes w ! k)) (tn_reduces (ma_nodes w ! k)) \<le> workLoad (tn_maps (ma_nodes w ! j)) (tn_reduces (ma_nodes w ! j))) \<and>
      rd_id final = 0 \<and> rd_finalNode final = Some (tn_name (ma_nodes w ! k)) \<and> \<not> rd_done final \<and>
      map Some (rd_temps final) = map reduceToTemporal (jb_partialReduces job) \<and>
      ma_nodes w' = (ma_nodes w)[k := (ma_nodes w ! k)\<lparr>tn_reduces := tn_reduces (ma_nodes w ! k) + 1\<rparr>]
    else combinerFinalReducePlanning E job w = None"
proof -
  let ?rds = "jb_partialReduces job" and ?nodes = "ma_nodes w"
  have ok: "\<forall>rd \<in> set ?rds. partial_ok E ?nodes rd" using parts by (simp add: partial_ok_def name_fits_def)
  obtain sel where sel: "fold_opt (searchNode E ?nodes) ?rds None = Some (map_option fst sel)" "best_copy E ?nodes (map as_copy ?rds) sel"
    using search_best [OF ok] by blast
  have copy: "cp_nodeName (as_copy rd) = the (rd_finalNode rd)" for rd by (simp add: as_copy_def CreateCopy_def)
  show ?thesis
  proof (cases sel)
    case None
    then show ?thesis using sel by (auto simp: best_copy_def copy combinerFinalReducePlanning_def)
  next
    case (Some s)
    obtain k b where s: "s = (k, b)" by (cases s)
    have best: "isActive (?nodes ! k)" "\<exists>rd \<in> set ?rds. findNode E ?nodes (the (rd_finalNode rd)) = Some k"
      "\<forall>rd \<in> set ?rds. \<forall>j. findNode E ?nodes (the (rd_finalNode rd)) = Some j \<longrightarrow> isActive (?nodes ! j) \<longrightarrow> load ?nodes k \<le> load ?nodes j"
      using sel(2) Some s by (auto simp: best_copy_def copy)
    then have k: "k < length ?nodes" using findNode_Some by blast
    obtain final net where run: "combinerFinalReducePlanning E job w = Some (Some (job\<lparr>jb_finalReduce := final\<rparr>),
        w\<lparr>ma_nodes := ?nodes[k := inc_reduces (?nodes ! k)], ma_net := net\<rparr>)"
      and final: "rd_id final = 0" "rd_finalNode final = Some (tn_name (?nodes ! k))" "\<not> rd_done final"
        "map Some (rd_temps final) = map reduceToTemporal ?rds"
      using combinerFinal_selected [OF E id fresh ok _ names [rule_format, OF k]] sel(1) Some s by auto
    let ?w' = "w\<lparr>ma_nodes := ?nodes[k := inc_reduces (?nodes ! k)], ma_net := net\<rparr>"
    have active: "\<exists>rd \<in> set ?rds. \<exists>k. findNode E ?nodes (the (rd_finalNode rd)) = Some k \<and> isActive (?nodes ! k)"
      using best by blast
    show ?thesis unfolding if_P [OF active]
      by (rule exI [of _ k], rule exI [of _ final], rule exI [of _ ?w'], intro conjI run k best(1,2) best(3) [unfolded load_def] final)
        (simp add: inc_reduces_def)
  qed
qed

definition demo_partial :: "u16 \<Rightarrow> string \<Rightarrow> t_reduce" where
  "demo_partial i node = \<lparr>rd_id = i, rd_temps = [], rd_finalNode = Some node, rd_nodeIP = Some ''10.0.0.1'', rd_nodePort = 6500,
     rd_tempResultName = str_bytes ''res.txt'' @ 0 # replicate 52 0, rd_done = True\<rparr>"

lemma demo_partial_simps:
  "rd_finalNode (demo_partial i node) = Some node" "rd_nodeIP (demo_partial i node) \<noteq> None"
  "length (cstr (rd_tempResultName (demo_partial i node))) < 60"
  by (simp_all add: demo_partial_def c_string_def)

lemma demo_names: "\<forall>k < length (ma_nodes marta_demo). findNode (marta_demo_env True) (ma_nodes marta_demo) (tn_name (ma_nodes marta_demo ! k)) = Some k"
proof -
  have "length (ma_nodes marta_demo) = 2" "tn_name (ma_nodes marta_demo ! 0) = ''n1''" "tn_name (ma_nodes marta_demo ! 1) = ''n2''"
    by (simp_all add: marta_demo_def CreateNode_def)
  then show ?thesis using demo_find by (auto simp: less_2_cases_iff)
qed

theorem final_reduce_gathers_witness:
  "\<exists>final w'. combinerFinalReducePlanning (marta_demo_env True)
     ((CreateJob 1 True ''r'')\<lparr>jb_partialReduces := [demo_partial 1 ''n2'', demo_partial 2 ''n1'']\<rparr>) marta_demo =
     Some (Some ((CreateJob 1 True ''r'')\<lparr>jb_partialReduces := [demo_partial 1 ''n2'', demo_partial 2 ''n1''], jb_finalReduce := final\<rparr>), w') \<and>
     length (rd_temps final) = 2"
proof -
  let ?rds = "[demo_partial 1 ''n2'', demo_partial 2 ''n1'']" and ?E = "marta_demo_env True"
  let ?job = "(CreateJob 1 True ''r'')\<lparr>jb_partialReduces := ?rds\<rparr>"
  have prems: "unat (jb_id ?job) < 1000" "length (rd_tempResultName (jb_finalReduce ?job)) = 60" "rd_temps (jb_finalReduce ?job) = []"
    "\<forall>rd \<in> set (jb_partialReduces ?job). rd_nodeIP rd \<noteq> None \<and> length (cstr (rd_tempResultName rd)) < 60 \<and>
      (\<exists>name k. rd_finalNode rd = Some name \<and> findNode ?E (ma_nodes marta_demo) name = Some k)"
    using demo_partial_simps demo_find by (simp_all add: CreateJob_def initReduce_def)
  have "isActive (ma_nodes marta_demo ! 1)" by (simp add: marta_demo_def CreateNode_def isActive_def)
  then have active: "\<exists>rd \<in> set (jb_partialReduces ?job). \<exists>k. findNode ?E (ma_nodes marta_demo) (the (rd_finalNode rd)) = Some k \<and>
      isActive (ma_nodes marta_demo ! k)" using demo_find(2) by (simp add: demo_partial_simps)
  from final_reduce_gathers [OF marta_demo_env_ok prems demo_names, unfolded if_P [OF active]] obtain final w' where
    run: "combinerFinalReducePlanning ?E ?job marta_demo = Some (Some (?job\<lparr>jb_finalReduce := final\<rparr>), w')"
    "map Some (rd_temps final) = map reduceToTemporal (jb_partialReduces ?job)" by blast
  then have "length (rd_temps final) = 2" using map_eq_imp_length_eq [OF run(2)] by simp
  with run(1) show ?thesis by auto
qed

section \<open>A map that failed\<close>

text \<open>The node \<open>n\<close> after the map of its block \<open>b\<close> failed.\<close>

definition failed_on :: "nat \<Rightarrow> u16 \<Rightarrow> 'n marta \<Rightarrow> 'n marta" where
  "failed_on n b w = w\<lparr>ma_nodes := (ma_nodes w)[n :=
     (ma_nodes w ! n)\<lparr>tn_maps := remove_first (\<lambda>x. x = b) (tn_maps (ma_nodes w ! n)), tn_active := False\<rparr>]\<rparr>"



end
