(* ===== verification/Marta_Tests.thy ===== *)
theory Marta_Tests
  imports Marta_Reduce
begin

text \<open>
  \<open>MaRTA/test/PlanningTest.c\<close>: its nodes and jobs, its four tests, and the work of the nodes that
  two of them say to expect. The tests call the planning alone; the functions they call have since
  come to ask the file system for the blocks and to wait for results, so what is run here is the
  part of them that plans: the maps of the blocks given, the choice of the nodes and the orders of
  the reduces. \<open>MaRTA/test/SerializeTest.c\<close>: one turn of its loop.
\<close>

section \<open>The nodes, the jobs and the tests\<close>

definition planningTestSetup :: "t_node list \<times> t_job \<times> t_job" where
  "planningTestSetup =
     (let node1 = (CreateNode True ''IP Nodo1'' 3001 ''Node1'')\<lparr>tn_maps := [1, 1, 1, 1], tn_reduces := 1\<rparr>;
          node2 = (CreateNode True ''IP Nodo2'' 3002 ''Node2'')\<lparr>tn_maps := [1], tn_reduces := 1\<rparr>;
          node3 = CreateNode False ''IP Nodo3'' 3003 ''Node3'';
          node4 = CreateNode True ''IP Nodo4'' 3004 ''Node4'';
          node5 = CreateNode True ''IP Nodo5'' 3005 ''Node5'';
          copies1 = [CreateCopy ''Node3'' 2, CreateCopy ''Node2'' 919, CreateCopy ''Node5'' 227];
          copies2 = [CreateCopy ''Node3'' 7, CreateCopy ''Node5'' 307, CreateCopy ''Node4'' 13];
          copies3 = [CreateCopy ''Node1'' 17, CreateCopy ''Node3'' 421, CreateCopy ''Node5'' 23, CreateCopy ''Node2'' 29, CreateCopy ''Node4'' 821];
          file1 = (CreateFile ''sarasa.txt'')\<lparr>tf_blocks := [copies1, copies2]\<rparr>;
          file2 = (CreateFile ''pepe.txt'')\<lparr>tf_blocks := [copies3]\<rparr>;
          job = (CreateJob 42 False ''ResultadoFinalJob42'')\<lparr>jb_files := [file2, file1]\<rparr>;
          copies4 = [CreateCopy ''Node3'' 7, CreateCopy ''Node5'' 307, CreateCopy ''Node4'' 13];
          unavailableCopies = [CreateCopy ''Node3'' 821];
          file3 = (CreateFile ''QuierePeroNoPuede.txt'')\<lparr>tf_blocks := [copies4]\<rparr>;
          notAvailableFile = (CreateFile ''Inexistente.txt'')\<lparr>tf_blocks := [unavailableCopies]\<rparr>;
          created = CreateJob 23 False ''ResultadoFinalJob23'';
          job2 = created\<lparr>jb_finalReduce := (jb_finalReduce created)\<lparr>rd_finalNode := Some '''', rd_nodeIP := Some ''''\<rparr>,
            jb_files := [file3, notAvailableFile]\<rparr>
      in ([node1, node2, node3, node4, node5], job, job2))"

text \<open>What \<open>showTasks\<close> prints of a node: its maps and its reduces.\<close>

definition showTasks :: "t_node \<Rightarrow> nat \<times> nat" where
  "showTasks node = (length (tn_maps node), unat (tn_reduces node))"

text \<open>\<open>planMaps\<close> but for asking for the blocks and waiting for the results.\<close>

definition plan_job :: "('n, 'z) marta_env_scheme \<Rightarrow> t_job \<Rightarrow> 'n marta \<Rightarrow> (t_job, 'n) thread" where
  "plan_job E job w = plan_blocks E (concat (map tf_blocks (jb_files job))) job w"

definition and_then :: "('a, 'n) thread \<Rightarrow> ('a \<Rightarrow> 'n marta \<Rightarrow> ('b, 'n) thread) \<Rightarrow> ('b, 'n) thread" where
  "and_then r f = Option.bind r (\<lambda>(q, w). case q of None \<Rightarrow> Some (None, w) | Some x \<Rightarrow> f x w)"

text \<open>The tests, from the nodes and jobs of the setup.\<close>

definition noCombinerPlanTest_orders :: "('n, 'z) marta_env_scheme \<Rightarrow> 'n marta \<Rightarrow> (t_job, 'n) thread" where
  "noCombinerPlanTest_orders E w =
     (let (nodes, job, job2) = planningTestSetup
      in and_then (plan_job E job (w\<lparr>ma_nodes := nodes\<rparr>)) (\<lambda>job w1.
           and_then (plan_job E job2 w1) (\<lambda>job2 w2. noCombiner_order E job w2)))"

definition combinerPlanTest_orders :: "('n, 'z) marta_env_scheme \<Rightarrow> 'n marta \<Rightarrow> (t_job, 'n) thread" where
  "combinerPlanTest_orders E w =
     (let (nodes, job, job2) = planningTestSetup
      in and_then (plan_job E job (w\<lparr>ma_nodes := nodes\<rparr>)) (\<lambda>job w1.
           and_then (plan_job E job2 w1) (\<lambda>job2 w2.
             and_then (combinerPartialsReducePlanning E job w2) (\<lambda>job w3. combinerFinalReducePlanning E job w3))))"

text \<open>\<open>jobMapTest\<close> plans both jobs; \<open>RePlanTest\<close> plans the first, takes its second map off a node that
  is no longer active, and plans that map again.\<close>

definition jobMapTest_maps :: "('n, 'z) marta_env_scheme \<Rightarrow> 'n marta \<Rightarrow> (t_job \<times> t_job, 'n) thread" where
  "jobMapTest_maps E w =
     (let (nodes, job, job2) = planningTestSetup;
          job = job\<lparr>jb_finalReduce := (jb_finalReduce job)\<lparr>rd_finalNode := Some '''', rd_nodeIP := Some ''''\<rparr>\<rparr>
      in and_then (plan_job E job (w\<lparr>ma_nodes := nodes\<rparr>)) (\<lambda>job w1.
           and_then (plan_job E job2 w1) (\<lambda>job2 w2. Some (Some (job, job2), w2))))"

definition RePlanTest_order :: "('n, 'z) marta_env_scheme \<Rightarrow> 'n marta \<Rightarrow> (bool \<times> t_job, 'n) thread" where
  "RePlanTest_order E w =
     (let (nodes, job, _) = planningTestSetup
      in and_then (plan_job E job (w\<lparr>ma_nodes := nodes\<rparr>)) (\<lambda>job w1.
           let job = job\<lparr>jb_finalReduce := (jb_finalReduce job)\<lparr>rd_finalNode := Some '''', rd_nodeIP := Some ''''\<rparr>\<rparr>;
               w2 = w1\<lparr>ma_nodes := (ma_nodes w1)[4 := (ma_nodes w1 ! 4)\<lparr>tn_active := False\<rparr>]\<rparr>
           in rePlan_order E 1 job w2))"

text \<open>\<open>SerializeTest.c\<close>: one turn of its loop, with what \<open>socket_accept\<close> gave; whether the loop
  ends.\<close>

definition seializeCompleteJobTest_turn :: "('n, 'z) marta_env_scheme \<Rightarrow> int \<Rightarrow> 'n marta \<Rightarrow> (bool, 'n) thread" where
  "seializeCompleteJobTest_turn E fdAccepted w =
     do {
       (handshake, net) \<leftarrow> socket_handshake_to_client (y_os E) fdAccepted HANDSHAKE_MARTA
         (HANDSHAKE_FILESYSTEM OR HANDSHAKE_JOB) (ma_net w);
       let w0 = w\<lparr>ma_net := net\<rparr>;
       (if handshake = HANDSHAKE_JOB then do {
          let w1 = w0\<lparr>ma_cantJobs := ma_cantJobs w0 + 1\<rparr>;
          (job, w2) \<leftarrow> desserializeJob E fdAccepted (ma_cantJobs w1) w1;
          m \<leftarrow> CreateMap E 1 13 5001 ''NodoX'' ''192.168.1.113'' 1 (ma_net w2);
          let w3 = snd (serializeMapToOrder E fdAccepted m w2);
          (q, w4) \<leftarrow> recvResult E (job\<lparr>jb_maps := jb_maps job @ [m], jb_socket := fdAccepted\<rparr>) w3;
          (case q of
             None \<Rightarrow> Some (None, w4)
           | Some (_, job1) \<Rightarrow> do { w5 \<leftarrow> freeJob E job1 w4; Some (Some (ma_cantJobs w5 = 3), w5) })
        }
        else Some (Some False, w0))
     }"

section \<open>The nodes by their work\<close>

definition test_names :: "string list" where
  "test_names = [''Node1'', ''Node2'', ''Node3'', ''Node4'', ''Node5'']"

definition tnodes :: "(u16 list \<times> u16) list \<Rightarrow> t_node list" where
  "tnodes ws = map (\<lambda>((name, ip, port, active), ms, r). \<lparr>tn_name = name, tn_ip = ip, tn_port = port, tn_active = active, tn_maps = ms, tn_reduces = r\<rparr>)
     (zip [(''Node1'', ''IP Nodo1'', 3001, True), (''Node2'', ''IP Nodo2'', 3002, True), (''Node3'', ''IP Nodo3'', 3003, False),
       (''Node4'', ''IP Nodo4'', 3004, True), (''Node5'', ''IP Nodo5'', 3005, True)] ws)"

lemma find_tnodes:
  assumes "commons_laws E" and "length ws = 5"
  shows "findNode E (tnodes ws) ''Node1'' = Some 0" "findNode E (tnodes ws) ''Node2'' = Some 1" "findNode E (tnodes ws) ''Node3'' = Some 2"
    "findNode E (tnodes ws) ''Node4'' = Some 3" "findNode E (tnodes ws) ''Node5'' = Some 4"
proof -
  obtain a b c d e where ws: "ws = [a, b, c, d, e]" using assms(2) by (auto simp: length_Suc_conv numeral_eq_Suc)
  have eq: "c_eq_ignore_case E s t \<longleftrightarrow> map to_lower s = map to_lower t" for s t
    using assms(1) by (simp add: commons_laws_def string_lib_def)
  show "findNode E (tnodes ws) ''Node1'' = Some 0" "findNode E (tnodes ws) ''Node2'' = Some 1" "findNode E (tnodes ws) ''Node3'' = Some 2"
    "findNode E (tnodes ws) ''Node4'' = Some 3" "findNode E (tnodes ws) ''Node5'' = Some 4"
    by (simp_all add: ws tnodes_def findNode_def nodeByName_def eq to_lower_def split: prod.splits)
qed

lemma tnodes_nth:
  assumes "length ws = 5" and "k < 5"
  shows "isActive (tnodes ws ! k) \<longleftrightarrow> k \<noteq> 2" and "tn_maps (tnodes ws ! k) = fst (ws ! k)" and "tn_reduces (tnodes ws ! k) = snd (ws ! k)"
    and "tn_name (tnodes ws ! k) = test_names ! k"
    and "(tnodes ws)[k := (tnodes ws ! k)\<lparr>tn_maps := ms\<rparr>] = tnodes (ws[k := (ms, snd (ws ! k))])"
    and "(tnodes ws)[k := (tnodes ws ! k)\<lparr>tn_reduces := r\<rparr>] = tnodes (ws[k := (fst (ws ! k), r)])"
proof -
  obtain a b c d e where ws: "ws = [a, b, c, d, e]" using assms(1) by (auto simp: length_Suc_conv numeral_eq_Suc)
  have k: "k = 0 \<or> k = 1 \<or> k = 2 \<or> k = 3 \<or> k = 4" using assms(2) by linarith
  show "isActive (tnodes ws ! k) \<longleftrightarrow> k \<noteq> 2" "tn_maps (tnodes ws ! k) = fst (ws ! k)" "tn_reduces (tnodes ws ! k) = snd (ws ! k)"
    "tn_name (tnodes ws ! k) = test_names ! k"
    "(tnodes ws)[k := (tnodes ws ! k)\<lparr>tn_maps := ms\<rparr>] = tnodes (ws[k := (ms, snd (ws ! k))])"
    "(tnodes ws)[k := (tnodes ws ! k)\<lparr>tn_reduces := r\<rparr>] = tnodes (ws[k := (fst (ws ! k), r)])"
    using k by (elim disjE; simp add: ws tnodes_def isActive_def test_names_def split: prod.splits)+
qed

lemma setup_nodes: "fst planningTestSetup = tnodes [([1, 1, 1, 1], 1), ([1], 1), ([], 0), ([], 0), ([], 0)]"
  by (simp add: planningTestSetup_def tnodes_def CreateNode_def Let_def)

lemma select_simps:
  assumes "commons_laws E"
  shows "select_for_map E (tnodes [([1, 1, 1, 1], 1), ([1], 1), ([], 0), ([], 0), ([], 0)])
      [CreateCopy ''Node1'' 17, CreateCopy ''Node3'' 421, CreateCopy ''Node5'' 23, CreateCopy ''Node2'' 29, CreateCopy ''Node4'' 821] = Some (Some (4, 23))"
    and "select_for_map E (tnodes [([1, 1, 1, 1], 1), ([1], 1), ([], 0), ([], 0), ([23], 0)])
      [CreateCopy ''Node3'' 2, CreateCopy ''Node2'' 919, CreateCopy ''Node5'' 227] = Some (Some (4, 227))"
    and "select_for_map E (tnodes [([1, 1, 1, 1], 1), ([1], 1), ([], 0), ([], 0), ([23, 227], 0)])
      [CreateCopy ''Node3'' 7, CreateCopy ''Node5'' 307, CreateCopy ''Node4'' 13] = Some (Some (3, 13))"
    and "select_for_map E (tnodes [([1, 1, 1, 1], 1), ([1], 1), ([], 0), ([13], 0), ([23, 227], 0)])
      [CreateCopy ''Node3'' 7, CreateCopy ''Node5'' 307, CreateCopy ''Node4'' 13] = Some (Some (3, 13))"
    and "select_for_map E (tnodes [([1, 1, 1, 1], 1), ([1], 1), ([], 0), ([13, 13], 0), ([23, 227], 0)]) [CreateCopy ''Node3'' 821] = Some None"
  by (simp_all add: select_for_map_def selectNode_def CreateCopy_def lessWorkLoad_def workLoad_def tnodes_nth find_tnodes [OF assms] Let_def)

text \<open>One block planned on the node \<open>k\<close>.\<close>

lemma plan_one:
  assumes E: "marta_ok E" and "length ws = 5" "k < 5" and nodes: "ma_nodes w = tnodes ws"
    and sel: "select_for_map E (tnodes ws) copies = Some (Some (k, b))"
    and small: "length (jb_maps job) < 1000" "unat (jb_id job) < 1000"
  obtains m net where "mapPlanning E copies job w = Some (Some (job\<lparr>jb_maps := jb_maps job @ [m]\<rparr>),
      w\<lparr>ma_nodes := tnodes (ws[k := (fst (ws ! k) @ [b], snd (ws ! k))]), ma_net := net\<rparr>)"
    and "mp_nodeName m = test_names ! k" and "mp_numBlock m = b" and "name_fits (mp_tempResultName m)"
    and "mp_copies m = copies" and "unat (mp_id m) < 1000" and "length (mp_tempResultName m) = 60"
proof -
  have sel': "select_for_map E (ma_nodes w) copies = Some (Some (k, b))" using sel nodes by simp
  obtain m net where "mapPlanning E copies job w = Some (Some (job\<lparr>jb_maps := jb_maps job @ [m]\<rparr>),
      w\<lparr>ma_nodes := (ma_nodes w)[k := (ma_nodes w ! k)\<lparr>tn_maps := tn_maps (ma_nodes w ! k) @ [b]\<rparr>], ma_net := net\<rparr>)"
    "mp_nodeName m = tn_name (ma_nodes w ! k)" "mp_numBlock m = b" "length (cstr (mp_tempResultName m)) < 60"
    "mp_copies m = copies" "mp_id m = word_of_nat (length (jb_maps job))" "length (mp_tempResultName m) = 60"
    using mapPlanning_selected [OF E sel' small] by blast
  moreover from this(6) small(1) have "unat (mp_id m) < 1000" by (simp add: unat_of_nat take_bit_eq_mod)
  ultimately show thesis using that [of m net] unfolding nodes by (simp add: tnodes_nth [OF assms(2,3)] name_fits_def)
qed

lemma setup_jobs:
  obtains job job2 where "planningTestSetup = (tnodes [([1, 1, 1, 1], 1), ([1], 1), ([], 0), ([], 0), ([], 0)], job, job2)"
    and "jb_maps job = []" and "jb_id job = 42" and "jb_partialReduces job = []" and "jb_finalReduce job = initReduce"
    and "concat (map tf_blocks (jb_files job)) =
      [[CreateCopy ''Node1'' 17, CreateCopy ''Node3'' 421, CreateCopy ''Node5'' 23, CreateCopy ''Node2'' 29, CreateCopy ''Node4'' 821],
       [CreateCopy ''Node3'' 2, CreateCopy ''Node2'' 919, CreateCopy ''Node5'' 227],
       [CreateCopy ''Node3'' 7, CreateCopy ''Node5'' 307, CreateCopy ''Node4'' 13]]"
    and "jb_maps job2 = []" and "jb_id job2 = 23"
    and "concat (map tf_blocks (jb_files job2)) =
      [[CreateCopy ''Node3'' 7, CreateCopy ''Node5'' 307, CreateCopy ''Node4'' 13], [CreateCopy ''Node3'' 821]]"
proof (rule that)
  show "planningTestSetup = (tnodes [([1, 1, 1, 1], 1), ([1], 1), ([], 0), ([], 0), ([], 0)], fst (snd planningTestSetup), snd (snd planningTestSetup))"
    using setup_nodes by (metis prod.collapse)
qed (simp_all add: planningTestSetup_def Let_def CreateJob_def CreateFile_def)

definition planned_work :: "(u16 list \<times> u16) list" where
  "planned_work = [([1, 1, 1, 1], 1), ([1], 1), ([], 0), ([13], 0), ([23, 227], 0)]"

lemma planned_work: "length planned_work = 5"
  by (simp add: planned_work_def)

text \<open>The maps of both jobs: the second one's are taken off again, since one of its files is gone.\<close>

lemma plan_jobs:
  assumes E: "marta_ok E" and laws: "commons_laws E"
  obtains job job2 job1 w1 job2' net m1 m2 m3 where
    "planningTestSetup = (tnodes [([1, 1, 1, 1], 1), ([1], 1), ([], 0), ([], 0), ([], 0)], job, job2)"
    and "plan_job E job (w\<lparr>ma_nodes := tnodes [([1, 1, 1, 1], 1), ([1], 1), ([], 0), ([], 0), ([], 0)]\<rparr>) = Some (Some job1, w1)"
    and "plan_job E job2 w1 = Some (Some job2', w\<lparr>ma_nodes := tnodes planned_work, ma_net := net\<rparr>)"
    and "job1 = job\<lparr>jb_maps := [m1, m2, m3]\<rparr>" and "jb_id job = 42" and "jb_partialReduces job = []" and "jb_finalReduce job = initReduce"
    and "map mp_nodeName [m1, m2, m3] = [''Node5'', ''Node5'', ''Node4'']" and "\<forall>m \<in> {m1, m2, m3}. name_fits (mp_tempResultName m)"
    and "\<exists>net. w1 = w\<lparr>ma_nodes := tnodes planned_work, ma_net := net\<rparr>" and "unat (mp_id m2) < 1000" and "length (mp_tempResultName m2) = 60"
    and "mp_copies m2 = [CreateCopy ''Node3'' 2, CreateCopy ''Node2'' 919, CreateCopy ''Node5'' 227]"
proof -
  obtain job job2 where s: "planningTestSetup = (tnodes [([1, 1, 1, 1], 1), ([1], 1), ([], 0), ([], 0), ([], 0)], job, job2)"
    "jb_maps job = []" "jb_id job = 42" "jb_partialReduces job = []" "jb_finalReduce job = initReduce"
    "concat (map tf_blocks (jb_files job)) =
      [[CreateCopy ''Node1'' 17, CreateCopy ''Node3'' 421, CreateCopy ''Node5'' 23, CreateCopy ''Node2'' 29, CreateCopy ''Node4'' 821],
       [CreateCopy ''Node3'' 2, CreateCopy ''Node2'' 919, CreateCopy ''Node5'' 227],
       [CreateCopy ''Node3'' 7, CreateCopy ''Node5'' 307, CreateCopy ''Node4'' 13]]"
    "jb_maps job2 = []" "jb_id job2 = 23"
    "concat (map tf_blocks (jb_files job2)) =
      [[CreateCopy ''Node3'' 7, CreateCopy ''Node5'' 307, CreateCopy ''Node4'' 13], [CreateCopy ''Node3'' 821]]"
    by (rule setup_jobs)
  let ?w = "w\<lparr>ma_nodes := tnodes [([1, 1, 1, 1], 1), ([1], 1), ([], 0), ([], 0), ([], 0)]\<rparr>"
  obtain m1 n1 where 1: "mapPlanning E [CreateCopy ''Node1'' 17, CreateCopy ''Node3'' 421, CreateCopy ''Node5'' 23, CreateCopy ''Node2'' 29,
      CreateCopy ''Node4'' 821] job ?w = Some (Some (job\<lparr>jb_maps := [m1]\<rparr>),
      w\<lparr>ma_nodes := tnodes [([1, 1, 1, 1], 1), ([1], 1), ([], 0), ([], 0), ([23], 0)], ma_net := n1\<rparr>)"
    "mp_nodeName m1 = ''Node5''" "name_fits (mp_tempResultName m1)"
    by (rule plan_one [OF E _ _ _ select_simps(1) [OF laws], of ?w job]) (simp_all add: s test_names_def)
  let ?w1 = "w\<lparr>ma_nodes := tnodes [([1, 1, 1, 1], 1), ([1], 1), ([], 0), ([], 0), ([23], 0)], ma_net := n1\<rparr>"
  obtain m2 n2 where 2: "mapPlanning E [CreateCopy ''Node3'' 2, CreateCopy ''Node2'' 919, CreateCopy ''Node5'' 227] (job\<lparr>jb_maps := [m1]\<rparr>) ?w1 =
      Some (Some (job\<lparr>jb_maps := [m1, m2]\<rparr>), w\<lparr>ma_nodes := tnodes [([1, 1, 1, 1], 1), ([1], 1), ([], 0), ([], 0), ([23, 227], 0)], ma_net := n2\<rparr>)"
    "mp_nodeName m2 = ''Node5''" "name_fits (mp_tempResultName m2)" "unat (mp_id m2) < 1000" "length (mp_tempResultName m2) = 60"
    "mp_copies m2 = [CreateCopy ''Node3'' 2, CreateCopy ''Node2'' 919, CreateCopy ''Node5'' 227]"
    by (rule plan_one [OF E _ _ _ select_simps(2) [OF laws], of ?w1 "job\<lparr>jb_maps := [m1]\<rparr>"]) (simp_all add: s test_names_def)
  let ?w2 = "w\<lparr>ma_nodes := tnodes [([1, 1, 1, 1], 1), ([1], 1), ([], 0), ([], 0), ([23, 227], 0)], ma_net := n2\<rparr>"
  obtain m3 n3 where 3: "mapPlanning E [CreateCopy ''Node3'' 7, CreateCopy ''Node5'' 307, CreateCopy ''Node4'' 13] (job\<lparr>jb_maps := [m1, m2]\<rparr>) ?w2 =
      Some (Some (job\<lparr>jb_maps := [m1, m2, m3]\<rparr>), w\<lparr>ma_nodes := tnodes [([1, 1, 1, 1], 1), ([1], 1), ([], 0), ([13], 0), ([23, 227], 0)], ma_net := n3\<rparr>)"
    "mp_nodeName m3 = ''Node4''" "name_fits (mp_tempResultName m3)"
    by (rule plan_one [OF E _ _ _ select_simps(3) [OF laws], of ?w2 "job\<lparr>jb_maps := [m1, m2]\<rparr>"]) (simp_all add: s test_names_def)
  let ?w3 = "w\<lparr>ma_nodes := tnodes [([1, 1, 1, 1], 1), ([1], 1), ([], 0), ([13], 0), ([23, 227], 0)], ma_net := n3\<rparr>"
  obtain m4 n4 where 4: "mapPlanning E [CreateCopy ''Node3'' 7, CreateCopy ''Node5'' 307, CreateCopy ''Node4'' 13] job2 ?w3 =
      Some (Some (job2\<lparr>jb_maps := [m4]\<rparr>), w\<lparr>ma_nodes := tnodes [([1, 1, 1, 1], 1), ([1], 1), ([], 0), ([13, 13], 0), ([23, 227], 0)], ma_net := n4\<rparr>)"
    "mp_nodeName m4 = ''Node4''" "mp_numBlock m4 = 13"
    by (rule plan_one [OF E _ _ _ select_simps(4) [OF laws], of ?w3 job2]) (simp_all add: s test_names_def)
  let ?w4 = "w\<lparr>ma_nodes := tnodes [([1, 1, 1, 1], 1), ([1], 1), ([], 0), ([13, 13], 0), ([23, 227], 0)], ma_net := n4\<rparr>"
  have 5: "mapPlanning E [CreateCopy ''Node3'' 821] (job2\<lparr>jb_maps := [m4]\<rparr>) ?w4 =
      Some (Some (job2\<lparr>jb_maps := [m4]\<rparr>), w\<lparr>ma_nodes := tnodes planned_work, ma_net := n4\<rparr>)"
    by (simp add: mapPlanning_def select_simps(5) [OF laws] removeMapNode_def update_node_def 4 find_tnodes [OF laws] tnodes_nth planned_work_def)
  have "plan_job E job ?w = Some (Some (job\<lparr>jb_maps := [m1, m2, m3]\<rparr>), ?w3)" by (simp add: plan_job_def s(6) 1 2 3)
  moreover have "plan_job E job2 ?w3 = Some (Some (job2\<lparr>jb_maps := [m4]\<rparr>), w\<lparr>ma_nodes := tnodes planned_work, ma_net := n4\<rparr>)"
    by (simp add: plan_job_def s(9) 4 5)
  moreover have "map mp_nodeName [m1, m2, m3] = [''Node5'', ''Node5'', ''Node4'']" "\<forall>m \<in> {m1, m2, m3}. name_fits (mp_tempResultName m)"
    using 1 2 3 by simp_all
  moreover have "\<exists>net. ?w3 = w\<lparr>ma_nodes := tnodes planned_work, ma_net := net\<rparr>" by (auto simp: planned_work_def)
  ultimately show thesis by (rule that [OF s(1) _ _ refl s(3-5) _ _ _ 2(4-6)])
qed

section \<open>What the tests expect\<close>

lemma tnodes_inc:
  "length ws = 5 \<Longrightarrow> k < 5 \<Longrightarrow> (tnodes ws)[k := inc_reduces (tnodes ws ! k)] = tnodes (ws[k := (fst (ws ! k), snd (ws ! k) + 1)])"
  by (simp add: inc_reduces_def tnodes_nth)

lemma show_tnodes: "length ws = 5 \<Longrightarrow> map showTasks (tnodes ws) = map (\<lambda>(ms, r). (length ms, unat r)) ws"
  by (auto simp: tnodes_def showTasks_def length_Suc_conv numeral_eq_Suc split: prod.splits)

lemma length_tnodes: "length ws = 5 \<Longrightarrow> length (tnodes ws) = 5"
  by (simp add: tnodes_def)

lemma noCombiner_order_test:
  assumes E: "marta_ok E" and laws: "commons_laws E" and job: "jb_id job = 42" "jb_finalReduce job = initReduce"
    and maps: "map mp_nodeName (jb_maps job) = [''Node5'', ''Node5'', ''Node4'']" "\<forall>m \<in> set (jb_maps job). name_fits (mp_tempResultName m)"
    and w: "ma_nodes w = tnodes planned_work"
  obtains job' net where "noCombiner_order E job w = Some (Some job', w\<lparr>ma_nodes := tnodes (planned_work[4 := ([23, 227], 1)]), ma_net := net\<rparr>)"
proof -
  obtain m1 m2 m3 where ms: "jb_maps job = [m1, m2, m3]" "mp_nodeName m1 = ''Node5''" "mp_nodeName m2 = ''Node5''" "mp_nodeName m3 = ''Node4''"
    using maps(1) by (auto simp: map_eq_Cons_conv)
  have names: "tn_name (tnodes planned_work ! 3) = ''Node4''" "tn_name (tnodes planned_work ! 4) = ''Node5''"
    by (simp_all add: tnodes_nth planned_work test_names_def)
  have sel: "select_for_reduce E (ma_nodes w) (jb_maps job) = Some (Some (4, 2))"
    by (simp add: select_for_reduce_def ms countTemporals_def w find_tnodes [OF laws] planned_work names selectMoreTempsNode_def tnodes_nth)
  let ?node = "ma_nodes w ! 4"
  have fresh: "length (rd_tempResultName (jb_finalReduce job)) = 60" "unat (jb_id job) < 1000" by (simp_all add: job initReduce_def)
  obtain name where final: "setFinalReduce E (jb_finalReduce job) (tn_name ?node) (tn_ip ?node) (word_of_int (tn_port ?node)) (jb_id job) (ma_net w) =
      Some ((jb_finalReduce job)\<lparr>rd_id := 0, rd_finalNode := Some (tn_name ?node), rd_nodeIP := Some (tn_ip ?node),
        rd_nodePort := word_of_int (tn_port ?node), rd_tempResultName := name\<rparr>)"
    by (rule setFinalReduce_ok [OF E fresh(2,1)])
  have "\<forall>m \<in> set (jb_maps job). mapToTemporal m \<noteq> None" using maps(2) CreateTemp_ok by (simp add: mapToTemporal_def)
  then obtain temps where temps: "map_all mapToTemporal (jb_maps job) = Some temps" using map_all_total by blast
  let ?final = "(jb_finalReduce job)\<lparr>rd_id := 0, rd_finalNode := Some (tn_name ?node), rd_nodeIP := Some (tn_ip ?node),
        rd_nodePort := word_of_int (tn_port ?node), rd_tempResultName := name,
        rd_temps := rd_temps (jb_finalReduce job) @ temps, rd_done := False\<rparr>"
  have "findNode E (ma_nodes w) (tn_name ?node) = Some 4" by (simp add: w names find_tnodes [OF laws] planned_work)
  from notificarReduce_ok [OF E _ _ this, of ?final "tn_ip ?node" "job\<lparr>jb_finalReduce := ?final\<rparr>"] obtain net where
    "notificarReduce E (job\<lparr>jb_finalReduce := ?final\<rparr>) ?final w =
      Some (Some (), w\<lparr>ma_nodes := (ma_nodes w)[4 := inc_reduces ?node], ma_net := net\<rparr>)" by auto
  moreover have "(ma_nodes w)[4 := inc_reduces ?node] = tnodes (planned_work[4 := ([23, 227], 1)])"
    unfolding w by (subst tnodes_inc) (simp_all add: planned_work, simp add: planned_work_def)
  ultimately show thesis using that [of "job\<lparr>jb_finalReduce := ?final\<rparr>" net]
    by (simp add: noCombiner_order_def sel final temps Let_def)
qed

lemma combiner_order_test:
  assumes E: "marta_ok E" and laws: "commons_laws E" and job: "jb_id job = 42" "jb_finalReduce job = initReduce" "jb_partialReduces job = []"
    and maps: "map mp_nodeName (jb_maps job) = [''Node5'', ''Node5'', ''Node4'']" "\<forall>m \<in> set (jb_maps job). name_fits (mp_tempResultName m)"
    and w: "ma_nodes w = tnodes planned_work"
  obtains job' w' where "and_then (combinerPartialsReducePlanning E job w) (\<lambda>job w3. combinerFinalReducePlanning E job w3) = Some (Some job', w')"
    and "ma_nodes w' = tnodes (planned_work[3 := ([13], 2), 4 := ([23, 227], 1)])"
proof -
  have set: "mp_nodeName ` set (jb_maps job) = {''Node5'', ''Node4''}" using arg_cong [OF maps(1), of set] by auto
  have known: "\<forall>m \<in> set (jb_maps job). findNode E (ma_nodes w) (mp_nodeName m) \<noteq> None"
    using imageI [of _ "set (jb_maps job)" mp_nodeName] unfolding set w by (fastforce simp: find_tnodes [OF laws] planned_work)
  obtain rs w1 where run: "combinerPartialsReducePlanning E job w = Some (Some (job\<lparr>jb_partialReduces := rs\<rparr>), w1)"
    and final: "map rd_finalNode rs = map Some (rev (remdups (rev (map mp_nodeName (jb_maps job)))))"
    and fits: "\<forall>i < length rs. rd_nodeIP (rs ! i) \<noteq> None \<and> name_fits (rd_tempResultName (rs ! i))"
    and len: "length (ma_nodes w1) = length (ma_nodes w)"
    and work: "\<forall>k < length (ma_nodes w). ma_nodes w1 ! k = (ma_nodes w ! k)\<lparr>tn_reduces := tn_reduces (ma_nodes w ! k) +
      word_of_nat (card {name \<in> mp_nodeName ` set (jb_maps job). findNode E (ma_nodes w) name = Some k})\<rparr>"
    using combiner_partials_ok [OF E job(3) _ _ _ known] maps(2) by (auto simp: job set name_fits_def)
  have rs: "map rd_finalNode rs = [Some ''Node5'', Some ''Node4'']" using final by (simp add: maps(1))
  let ?ws = "planned_work[3 := ([13], 1), 4 := ([23, 227], 1)]"
  have "ma_nodes w1 = tnodes ?ws"
  proof (rule nth_equalityI)
    show "length (ma_nodes w1) = length (tnodes ?ws)" by (simp add: len w length_tnodes planned_work)
    fix k assume "k < length (ma_nodes w1)"
    then have k: "k < 5" by (simp add: len w length_tnodes planned_work)
    have "{name \<in> {''Node5'', ''Node4''}. findNode E (tnodes planned_work) name = Some k} =
        (if k = 4 then {''Node5''} else if k = 3 then {''Node4''} else {})"
      using find_tnodes [OF laws planned_work] by auto
    then have "ma_nodes w1 ! k = (tnodes planned_work ! k)\<lparr>tn_reduces := tn_reduces (tnodes planned_work ! k) + (if k = 4 \<or> k = 3 then 1 else 0)\<rparr>"
      using work k by (simp add: w length_tnodes planned_work set)
    moreover have "k = 0 \<or> k = 1 \<or> k = 2 \<or> k = 3 \<or> k = 4" using k by linarith
    ultimately show "ma_nodes w1 ! k = tnodes ?ws ! k" by (elim disjE) (simp_all add: planned_work_def tnodes_def)
  qed
  let ?job = "job\<lparr>jb_partialReduces := rs\<rparr>"
  have ws: "length ?ws = 5" by (simp add: planned_work)
  obtain r1 r2 where r: "rs = [r1, r2]" "rd_finalNode r1 = Some ''Node5''" "rd_finalNode r2 = Some ''Node4''"
    using rs by (auto simp: map_eq_Cons_conv)
  have ok: "\<forall>rd \<in> set (jb_partialReduces ?job). partial_ok E (ma_nodes w1) rd"
    using fits [rule_format, of 0] fits [rule_format, of 1]
    by (simp add: r \<open>ma_nodes w1 = tnodes ?ws\<close> partial_ok_def find_tnodes [OF laws ws])
  have sel: "fold_opt (searchNode E (ma_nodes w1)) (jb_partialReduces ?job) None = Some (Some 3)"
    by (simp add: r \<open>ma_nodes w1 = tnodes ?ws\<close> searchNode_def find_tnodes [OF laws ws] tnodes_nth planned_work lessWorkLoad_def workLoad_def Let_def)
  have name: "findNode E (ma_nodes w1) (tn_name (ma_nodes w1 ! 3)) = Some 3"
    by (simp add: \<open>ma_nodes w1 = tnodes ?ws\<close> tnodes_nth planned_work test_names_def find_tnodes [OF laws ws])
  have fresh: "unat (jb_id ?job) < 1000" "length (rd_tempResultName (jb_finalReduce ?job)) = 60" "rd_temps (jb_finalReduce ?job) = []"
    by (simp_all add: job initReduce_def)
  obtain final net where last: "combinerFinalReducePlanning E ?job w1 = Some (Some (?job\<lparr>jb_finalReduce := final\<rparr>),
      w1\<lparr>ma_nodes := (ma_nodes w1)[3 := inc_reduces (ma_nodes w1 ! 3)], ma_net := net\<rparr>)"
    using combinerFinal_selected [OF E fresh ok sel name] by blast
  have "(ma_nodes w1)[3 := inc_reduces (ma_nodes w1 ! 3)] = tnodes (planned_work[3 := ([13], 2), 4 := ([23, 227], 1)])"
    unfolding \<open>ma_nodes w1 = tnodes ?ws\<close> by (simp add: tnodes_inc ws del: length_list_update) (simp add: planned_work_def)
  then show thesis using run last
    by (intro that [of "?job\<lparr>jb_finalReduce := final\<rparr>" "w1\<lparr>ma_nodes := (ma_nodes w1)[3 := inc_reduces (ma_nodes w1 ! 3)], ma_net := net\<rparr>"])
      (simp_all add: and_then_def)
qed

text \<open>The planner does what its tests expect. From the nodes and jobs of \<open>PlanningTest.c\<close>, with any
  network that takes what is sent, planning both jobs and ordering the reduce of the first leaves
  each node with the maps and reduces that the test without combiner prints as expected,
  (4-1) (1-1) (0-0) (1-0) (2-1), and with the partial and the final reduces ordered the test with
  combiner, (4-1) (1-1) (0-0) (1-2) (2-1).\<close>

theorem planning_tests_expected:
  assumes "marta_ok E" and "commons_laws E"
  shows "(\<exists>job w'. noCombinerPlanTest_orders E w = Some (Some job, w') \<and>
      map showTasks (ma_nodes w') = [(4, 1), (1, 1), (0, 0), (1, 0), (2, 1)]) \<and>
    (\<exists>job w'. combinerPlanTest_orders E w = Some (Some job, w') \<and>
      map showTasks (ma_nodes w') = [(4, 1), (1, 1), (0, 0), (1, 2), (2, 1)])"
proof -
  obtain job job2 job1 w1 job2' net m1 m2 m3 where
    s: "planningTestSetup = (tnodes [([1, 1, 1, 1], 1), ([1], 1), ([], 0), ([], 0), ([], 0)], job, job2)"
    and p1: "plan_job E job (w\<lparr>ma_nodes := tnodes [([1, 1, 1, 1], 1), ([1], 1), ([], 0), ([], 0), ([], 0)]\<rparr>) = Some (Some job1, w1)"
    and p2: "plan_job E job2 w1 = Some (Some job2', w\<lparr>ma_nodes := tnodes planned_work, ma_net := net\<rparr>)"
    and job1: "job1 = job\<lparr>jb_maps := [m1, m2, m3]\<rparr>" "jb_id job = 42" "jb_partialReduces job = []" "jb_finalReduce job = initReduce"
    and maps: "map mp_nodeName [m1, m2, m3] = [''Node5'', ''Node5'', ''Node4'']" "\<forall>m \<in> {m1, m2, m3}. name_fits (mp_tempResultName m)"
    by (rule plan_jobs [OF assms, of w]) (rule that; assumption)
  let ?w2 = "w\<lparr>ma_nodes := tnodes planned_work, ma_net := net\<rparr>"
  have job: "jb_id job1 = 42" "jb_finalReduce job1 = initReduce" "jb_partialReduces job1 = []"
    "map mp_nodeName (jb_maps job1) = [''Node5'', ''Node5'', ''Node4'']" "\<forall>m \<in> set (jb_maps job1). name_fits (mp_tempResultName m)"
    using job1 maps by simp_all
  have w2: "ma_nodes ?w2 = tnodes planned_work" by simp
  obtain job' net' where "noCombiner_order E job1 ?w2 = Some (Some job', ?w2\<lparr>ma_nodes := tnodes (planned_work[4 := ([23, 227], 1)]), ma_net := net'\<rparr>)"
    by (rule noCombiner_order_test [OF assms job(1,2,4,5) w2])
  then have no: "\<exists>w'. noCombinerPlanTest_orders E w = Some (Some job', w') \<and> ma_nodes w' = tnodes (planned_work[4 := ([23, 227], 1)])"
    by (simp add: noCombinerPlanTest_orders_def s and_then_def p1 p2)
  obtain job'' w'' where "and_then (combinerPartialsReducePlanning E job1 ?w2) (\<lambda>job w3. combinerFinalReducePlanning E job w3) = Some (Some job'', w'')"
    "ma_nodes w'' = tnodes (planned_work[3 := ([13], 2), 4 := ([23, 227], 1)])"
    by (rule combiner_order_test [OF assms job w2])
  then have "combinerPlanTest_orders E w = Some (Some job'', w'')"
    by (simp add: combinerPlanTest_orders_def s and_then_def p1 p2)
  with no \<open>ma_nodes w'' = _\<close> show ?thesis by (auto simp: show_tnodes planned_work) (simp_all add: planned_work_def)
qed

interpretation marta_env_commons: commons_laws "marta_demo_env le"
  using msb.bitarray_axioms strs.string_lib_axioms by (simp add: commons_laws_def marta_demo_env_def)

theorem planning_tests_expected_witness:
  "\<exists>job w'. combinerPlanTest_orders (marta_demo_env True) marta_demo = Some (Some job, w') \<and>
     map showTasks (ma_nodes w') = [(4, 1), (1, 1), (0, 0), (1, 2), (2, 1)]"
  using planning_tests_expected [OF marta_demo_env_ok marta_env_commons.commons_laws_axioms] by blast

section \<open>The other tests\<close>

lemma mapPlanning_final:
  "mapPlanning E copies (job\<lparr>jb_finalReduce := f\<rparr>) w =
     map_option (\<lambda>(q, w'). (map_option (\<lambda>j. j\<lparr>jb_finalReduce := f\<rparr>) q, w')) (mapPlanning E copies job w)"
  by (simp add: mapPlanning_def add_map_def notificarMap_def serializeMapToOrder_def exit_job_def freeJob_def Let_def option.map_comp comp_def
      split: Option.bind_split option.split prod.split)

lemma plan_blocks_final:
  "plan_blocks E blocks (job\<lparr>jb_finalReduce := f\<rparr>) w =
     map_option (\<lambda>(q, w'). (map_option (\<lambda>j. j\<lparr>jb_finalReduce := f\<rparr>) q, w')) (plan_blocks E blocks job w)"
  by (induction blocks arbitrary: job w) (auto simp: mapPlanning_final split: Option.bind_split option.split)

text \<open>What \<open>jobMapTest\<close> leaves: the maps of the first job; the second, whose file is gone, leaves none.\<close>

lemma jobMapTest_work:
  assumes "marta_ok E" and "commons_laws E"
  shows "\<exists>jobs w'. jobMapTest_maps E w = Some (Some jobs, w') \<and>
    map showTasks (ma_nodes w') = [(4, 1), (1, 1), (0, 0), (1, 0), (2, 0)]"
proof -
  obtain job job2 job1 w1 job2' net m1 m2 m3 where
    s: "planningTestSetup = (tnodes [([1, 1, 1, 1], 1), ([1], 1), ([], 0), ([], 0), ([], 0)], job, job2)"
    and p1: "plan_job E job (w\<lparr>ma_nodes := tnodes [([1, 1, 1, 1], 1), ([1], 1), ([], 0), ([], 0), ([], 0)]\<rparr>) = Some (Some job1, w1)"
    and p2: "plan_job E job2 w1 = Some (Some job2', w\<lparr>ma_nodes := tnodes planned_work, ma_net := net\<rparr>)"
    by (rule plan_jobs [OF assms, of w]) (rule that; assumption)
  have "plan_job E (job\<lparr>jb_finalReduce := f\<rparr>) (w\<lparr>ma_nodes := tnodes [([1, 1, 1, 1], 1), ([1], 1), ([], 0), ([], 0), ([], 0)]\<rparr>) =
      Some (Some (job1\<lparr>jb_finalReduce := f\<rparr>), w1)" for f
    using p1 by (simp add: plan_job_def plan_blocks_final)
  then show ?thesis using p2 by (simp add: jobMapTest_maps_def s and_then_def Let_def show_tnodes planned_work) (simp add: planned_work_def)
qed

text \<open>\<open>RePlanTest\<close>: the block that went to the node that is no longer active goes to the one other
  active node that has it, unless the file system brings nodes back.\<close>

lemma RePlanTest_node:
  assumes E: "marta_ok E" and laws: "commons_laws E"
    and files: "\<And>(job :: t_job) w. \<exists>ok fs w'. request_files E (jb_files job) w = Some (ok, fs, w') \<and> ma_nodes w' = ma_nodes w"
  shows "\<exists>job w'. RePlanTest_order E w = Some (Some (True, job), w') \<and> length (jb_maps job) = 3 \<and>
    mp_nodeName (jb_maps job ! 1) = ''Node2'' \<and> mp_numBlock (jb_maps job ! 1) = 919"
proof -
  obtain job job2 w1 job2' net m1 m2 m3 where
    s: "planningTestSetup = (tnodes [([1, 1, 1, 1], 1), ([1], 1), ([], 0), ([], 0), ([], 0)], job, job2)"
    and p1: "plan_job E job (w\<lparr>ma_nodes := tnodes [([1, 1, 1, 1], 1), ([1], 1), ([], 0), ([], 0), ([], 0)]\<rparr>) =
      Some (Some (job\<lparr>jb_maps := [m1, m2, m3]\<rparr>), w1)"
    and id: "jb_id job = 42" and w1: "\<exists>net. w1 = w\<lparr>ma_nodes := tnodes planned_work, ma_net := net\<rparr>"
    and m2: "unat (mp_id m2) < 1000" "length (mp_tempResultName m2) = 60"
      "mp_copies m2 = [CreateCopy ''Node3'' 2, CreateCopy ''Node2'' 919, CreateCopy ''Node5'' 227]"
    by (rule plan_jobs [OF assms(1,2), of w]) (rule that; (assumption | simp))
  define nodes where "nodes = (tnodes planned_work)[4 := (tnodes planned_work ! 4)\<lparr>tn_active := False\<rparr>]"
  let ?w2 = "w1\<lparr>ma_nodes := nodes\<rparr>"
  let ?job = "job\<lparr>jb_maps := [m1, m2, m3], jb_finalReduce := (jb_finalReduce job)\<lparr>rd_finalNode := Some '''', rd_nodeIP := Some ''''\<rparr>\<rparr>"
  have eq: "c_eq_ignore_case E s t \<longleftrightarrow> map to_lower s = map to_lower t" for s t
    using laws by (simp add: commons_laws_def string_lib_def)
  have find: "findNode E nodes ''Node3'' = Some 2" "findNode E nodes ''Node2'' = Some 1" "findNode E nodes ''Node5'' = Some 4"
    by (simp_all add: nodes_def tnodes_def planned_work_def findNode_def nodeByName_def eq to_lower_def)
  have node: "\<not> isActive (nodes ! 2)" "isActive (nodes ! 1)" "\<not> isActive (nodes ! 4)" "tn_name (nodes ! 1) = ''Node2''"
    by (simp_all add: nodes_def tnodes_def planned_work_def isActive_def)
  obtain ok fs w3 where r: "request_files E (jb_files ?job) ?w2 = Some (ok, fs, w3)" and w3: "ma_nodes w3 = nodes"
    using files [of ?job ?w2] by auto
  have sel: "select_for_map E (ma_nodes w3) (mp_copies m2) = Some (Some (1, 919))"
    by (simp add: m2(3) w3 select_for_map_def selectNode_def CreateCopy_def Let_def find [unfolded One_nat_def] node [unfolded One_nat_def])
  have "setTempMapName E (mp_tempResultName m2) (mp_id m2) (jb_id job) (ma_net w3) \<noteq> None"
    using setTempName_Some(1) [of E "ma_net w3" "mp_tempResultName m2" "''-Map''" "mp_id m2" "jb_id job"] E m2 id
    by (simp add: setTempMapName_def marta_ok_def)
  then obtain name where name: "setTempMapName E (mp_tempResultName m2) (mp_id m2) (jb_id job) (ma_net w3) = Some name" by auto
  let ?m = "m2\<lparr>mp_nodeName := tn_name (ma_nodes w3 ! 1), mp_nodeIP := tn_ip (ma_nodes w3 ! 1),
    mp_nodePort := word_of_int (tn_port (ma_nodes w3 ! 1)), mp_numBlock := 919, mp_tempResultName := name\<rparr>"
  from notificarMap_ok [OF E, of "?job\<lparr>jb_files := fs, jb_maps := [m1, ?m, m3]\<rparr>" 1 w3] obtain net where
    "notificarMap E (?job\<lparr>jb_files := fs, jb_maps := [m1, ?m, m3]\<rparr>) 1 w3 =
      Some (Some (?job\<lparr>jb_files := fs, jb_maps := [m1, ?m\<lparr>mp_done := False\<rparr>, m3]\<rparr>), w3\<lparr>ma_net := net\<rparr>)" by auto
  then have "rePlan_order E 1 ?job ?w2 = Some (Some (True, ?job\<lparr>jb_files := fs, jb_maps := [m1, ?m\<lparr>mp_done := False\<rparr>, m3]\<rparr>), w3\<lparr>ma_net := net\<rparr>)"
    using r sel name by (simp add: rePlan_order_def Let_def)
  moreover have "RePlanTest_order E w = rePlan_order E 1 ?job ?w2"
    using w1 by (auto simp: RePlanTest_order_def s and_then_def p1 Let_def nodes_def)
  ultimately show ?thesis using node(4) by (simp add: w3)
qed

end
