(* ===== verification/Marta_Types.thy ===== *)
theory Marta_Types
  imports Marta_Tests
begin

text \<open>
  What the thread of a job keeps. A job conforms to the list of nodes when every copy, map and
  reduce it holds names a node of the list, its arrays for names have their 60 bytes with a NUL,
  and its maps have their position as number; the list itself never loses a node and never has
  two of one name. Lemmas: each step of the thread, the loops that wait included, keeps this;
  and what a conforming job never meets, a NULL pointer for a node.
\<close>

section \<open>Conformance\<close>

definition node_names :: "t_node list \<Rightarrow> string set" where
  "node_names nodes = tn_name ` set nodes"

text \<open>A name is found at its own node.\<close>

definition nodes_typed :: "'z commons_scheme \<Rightarrow> t_node list \<Rightarrow> bool" where
  "nodes_typed E nodes \<longleftrightarrow> (\<forall>k < length nodes. findNode E nodes (tn_name (nodes ! k)) = Some k)"

text \<open>A clock that gives a time.\<close>

definition clock_ok :: "('n, 'z) marta_env_scheme \<Rightarrow> bool" where
  "clock_ok E \<longleftrightarrow> (\<forall>n. 24 \<le> length (y_asctime E n) \<and> c_string (y_asctime E n))"

definition name60_typed :: "byte list \<Rightarrow> bool" where
  "name60_typed name \<longleftrightarrow> length name = 60 \<and> 0 \<in> set name"

definition copy_typed :: "'z commons_scheme \<Rightarrow> t_node list \<Rightarrow> t_copy \<Rightarrow> bool" where
  "copy_typed E nodes c \<longleftrightarrow> findNode E nodes (cp_nodeName c) \<noteq> None"

definition map_typed :: "'z commons_scheme \<Rightarrow> t_node list \<Rightarrow> t_map \<Rightarrow> bool" where
  "map_typed E nodes m \<longleftrightarrow> mp_nodeName m \<in> node_names nodes \<and> name60_typed (mp_tempResultName m) \<and> (\<forall>c \<in> set (mp_copies m). copy_typed E nodes c)"

definition temp_typed :: "t_node list \<Rightarrow> t_temp \<Rightarrow> bool" where
  "temp_typed nodes t \<longleftrightarrow> tp_nodeID t \<in> node_names nodes \<and> name60_typed (tp_tempName t)"

definition reduce_typed :: "t_node list \<Rightarrow> t_reduce \<Rightarrow> bool" where
  "reduce_typed nodes r \<longleftrightarrow> (rd_finalNode r = None \<longleftrightarrow> rd_nodeIP r = None) \<and> (\<forall>name. rd_finalNode r = Some name \<longrightarrow> name \<in> node_names nodes) \<and>
     name60_typed (rd_tempResultName r) \<and> (\<forall>t \<in> set (rd_temps r). temp_typed nodes t)"

definition partial_typed :: "t_node list \<Rightarrow> t_reduce \<Rightarrow> bool" where
  "partial_typed nodes r \<longleftrightarrow> reduce_typed nodes r \<and> rd_finalNode r \<noteq> None"

definition file_typed :: "'z commons_scheme \<Rightarrow> t_node list \<Rightarrow> t_file \<Rightarrow> bool" where
  "file_typed E nodes fi \<longleftrightarrow> (\<forall>copies \<in> set (tf_blocks fi). \<forall>c \<in> set copies. copy_typed E nodes c)"

definition job_typed :: "'z commons_scheme \<Rightarrow> t_node list \<Rightarrow> t_job \<Rightarrow> bool" where
  "job_typed E nodes job \<longleftrightarrow> (\<forall>fi \<in> set (jb_files job). file_typed E nodes fi) \<and>
     (\<forall>m \<in> set (jb_maps job). map_typed E nodes m) \<and> (\<forall>k < length (jb_maps job). mp_id (jb_maps job ! k) = word_of_nat k) \<and>
     (\<forall>r \<in> set (jb_partialReduces job). partial_typed nodes r) \<and> reduce_typed nodes (jb_finalReduce job)"

section \<open>The list of nodes only grows\<close>

definition grows :: "t_node list \<Rightarrow> t_node list \<Rightarrow> bool" where
  "grows nodes nodes' \<longleftrightarrow> (\<exists>names. map tn_name nodes' = map tn_name nodes @ names)"

lemma grows_refl [simp]: "grows nodes nodes" by (simp add: grows_def)

lemma grows_trans: "grows a b \<Longrightarrow> grows b c \<Longrightarrow> grows a c" by (auto simp: grows_def)

lemma grows_same: "map tn_name nodes' = map tn_name nodes \<Longrightarrow> grows nodes nodes'" by (simp add: grows_def)

lemma grows_nth:
  assumes "grows nodes nodes'" and "k < length nodes"
  shows "k < length nodes' \<and> tn_name (nodes' ! k) = tn_name (nodes ! k)"
proof -
  from assms(1) obtain names where eq: "map tn_name nodes' = map tn_name nodes @ names" by (auto simp: grows_def)
  have len: "k < length nodes'" using arg_cong [OF eq, of length] assms(2) by simp
  from arg_cong [OF eq, of "\<lambda>xs. xs ! k"] len assms(2) show ?thesis by (simp add: nth_append)
qed

lemma grows_names: "grows nodes nodes' \<Longrightarrow> node_names nodes \<subseteq> node_names nodes'"
  by (metis (no_types, lifting) grows_def list.set_map node_names_def set_append sup_ge1)

lemma find_first:
  "List.find P [0..<n] = Some k \<longleftrightarrow> k < n \<and> P k \<and> (\<forall>j < k. \<not> P j)"
proof -
  have "(\<forall>j < i. \<not> P ([0..<n] ! j)) \<longleftrightarrow> (\<forall>j < i. \<not> P j)" if "i < n" for i using that by (metis add_0 nth_upt order.strict_trans)
  then have "(\<exists>i < n. P ([0..<n] ! i) \<and> k = [0..<n] ! i \<and> (\<forall>j < i. \<not> P ([0..<n] ! j))) \<longleftrightarrow> (\<exists>i < n. P i \<and> k = i \<and> (\<forall>j < i. \<not> P j))"
    by (intro ex_cong1) (auto simp only: nth_upt add_0)
  then show ?thesis by (simp only: List.find_Some_iff length_upt diff_zero) blast
qed

lemma findNode_first:
  "findNode E nodes name = Some k \<longleftrightarrow> k < length nodes \<and> nodeByName E (nodes ! k) name \<and> (\<forall>j < k. \<not> nodeByName E (nodes ! j) name)"
  by (simp add: findNode_def find_first)

lemma findNode_None: "findNode E nodes name = None \<longleftrightarrow> (\<forall>k < length nodes. \<not> nodeByName E (nodes ! k) name)"
  by (auto simp: findNode_def find_None_iff)

lemma findNode_grows:
  assumes "grows nodes nodes'" and "findNode E nodes name = Some k"
  shows "findNode E nodes' name = Some k"
  using assms(2) grows_nth [OF assms(1)] unfolding findNode_first
  by (auto simp: nodeByName_def)

lemma copy_grows: "grows nodes nodes' \<Longrightarrow> copy_typed E nodes c \<Longrightarrow> copy_typed E nodes' c"
  by (auto simp: copy_typed_def dest: findNode_grows)

lemma map_grows: "grows nodes nodes' \<Longrightarrow> map_typed E nodes m \<Longrightarrow> map_typed E nodes' m"
  using grows_names copy_grows by (fastforce simp: map_typed_def)

lemma reduce_grows: "grows nodes nodes' \<Longrightarrow> reduce_typed nodes r \<Longrightarrow> reduce_typed nodes' r"
  using grows_names [of nodes nodes'] unfolding reduce_typed_def temp_typed_def by blast

lemma job_grows: "grows nodes nodes' \<Longrightarrow> job_typed E nodes job \<Longrightarrow> job_typed E nodes' job"
  using copy_grows [of nodes nodes' E] map_grows [of nodes nodes' E] reduce_grows [of nodes nodes']
  unfolding job_typed_def file_typed_def partial_typed_def by blast

lemma findNode_name:
  assumes "nodes_typed E nodes" and "name \<in> node_names nodes"
  obtains k where "k < length nodes" and "tn_name (nodes ! k) = name" and "findNode E nodes name = Some k"
  using assms by (auto simp: nodes_typed_def node_names_def in_set_conv_nth)
lemma nodes_typed_same:
  assumes "nodes_typed E nodes" and "map tn_name nodes' = map tn_name nodes"
  shows "nodes_typed E nodes'"
proof -
  have len: "length nodes' = length nodes" using arg_cong [OF assms(2), of length] by simp
  have name: "tn_name (nodes' ! k) = tn_name (nodes ! k)" if "k < length nodes" for k
    using arg_cong [OF assms(2), of "\<lambda>xs. xs ! k"] that len by simp
  have "findNode E nodes' = findNode E nodes"
    unfolding findNode_def len by (intro ext find_cong_list) (simp add: nodeByName_def name)
  then show ?thesis using assms(1) len name by (simp add: nodes_typed_def)
qed

text \<open>The state of the nodes and of the job that a step is to keep.\<close>

definition keeps_nodes :: "'z commons_scheme \<Rightarrow> 'n marta \<Rightarrow> 'n marta \<Rightarrow> bool" where
  "keeps_nodes E w w' \<longleftrightarrow> grows (ma_nodes w) (ma_nodes w') \<and> (nodes_typed E (ma_nodes w) \<longrightarrow> nodes_typed E (ma_nodes w'))"

lemma keeps_refl [simp]: "keeps_nodes E w w" by (simp add: keeps_nodes_def)

lemma keeps_trans: "keeps_nodes E a b \<Longrightarrow> keeps_nodes E b c \<Longrightarrow> keeps_nodes E a c"
  unfolding keeps_nodes_def by (blast intro: grows_trans)

lemma keeps_names: "map tn_name (ma_nodes w') = map tn_name (ma_nodes w) \<Longrightarrow> keeps_nodes E w w'"
  unfolding keeps_nodes_def by (blast intro: grows_same nodes_typed_same)

lemma keeps_eq: "ma_nodes w' = ma_nodes w \<Longrightarrow> keeps_nodes E w w'"
  by (simp add: keeps_names)

lemma keeps_typed:
  assumes "keeps_nodes E w w'"
  shows "nodes_typed E (ma_nodes w) \<Longrightarrow> nodes_typed E (ma_nodes w')"
    and "job_typed E (ma_nodes w) job \<Longrightarrow> job_typed E (ma_nodes w') job"
  using assms job_grows by (auto simp: keeps_nodes_def)

lemma update_node_keeps:
  assumes "update_node E name f w = Some w'" and "\<And>n. tn_name (f n) = tn_name n"
  shows "keeps_nodes E w w'"
proof (rule keeps_names)
  from assms(1) obtain k where "findNode E (ma_nodes w) name = Some k" and w': "w' = w\<lparr>ma_nodes := (ma_nodes w)[k := f (ma_nodes w ! k)]\<rparr>"
    by (auto simp: update_node_def)
  then have "k < length (ma_nodes w)" by (simp add: findNode_first)
  then show "map tn_name (ma_nodes w') = map tn_name (ma_nodes w)" using assms(2) w' by (simp add: map_update list_update_same_conv)
qed

lemma removeMapNode_keeps: "removeMapNode E m w = Some w' \<Longrightarrow> keeps_nodes E w w'"
  unfolding removeMapNode_def by (erule update_node_keeps) simp

lemma removeReduceNode_keeps: "removeReduceNode E r w = Some w' \<Longrightarrow> keeps_nodes E w w'"
  unfolding removeReduceNode_def by (auto simp: bind_eq_Some_conv intro: update_node_keeps)

lemma deactivateNode_keeps: "deactivateNode E name w = Some w' \<Longrightarrow> keeps_nodes E w w'"
  unfolding deactivateNode_def by (erule update_node_keeps) simp

lemma remove_maps_keeps: "fold_opt (removeMapNode E) maps w = Some w' \<Longrightarrow> keeps_nodes E w w'"
  by (induction maps arbitrary: w) (auto simp: bind_eq_Some_conv intro: keeps_trans removeMapNode_keeps)

lemma exit_keeps: "returns (exit_job E job w) (\<lambda>(q, w'). keeps_nodes E w w' \<and> q = None)"
  by (auto simp: exit_job_def freeJob_def returns_def intro: remove_maps_keeps)

section \<open>The file system's answers\<close>

context commons_laws begin

lemma nodeByName_refl: "nodeByName c node (tn_name node)"
  by (simp add: nodeByName_def str.eq_ic_refl)

lemma findNode_names:
  assumes "name \<in> node_names nodes" shows "findNode c nodes name \<noteq> None"
proof -
  from assms obtain k where "k < length nodes" "tn_name (nodes ! k) = name" by (auto simp: node_names_def in_set_conv_nth)
  then have "\<exists>k \<in> set [0..<length nodes]. nodeByName c (nodes ! k) name" using nodeByName_refl by (metis atLeast0LessThan atLeast_upt lessThan_iff)
  then show ?thesis by (auto simp: findNode_def find_None_iff)
qed

lemma updateNodes_keeps:
  "grows nodes (updateNodes c name ip port nodes) \<and> (nodes_typed c nodes \<longrightarrow> nodes_typed c (updateNodes c name ip port nodes)) \<and>
   findNode c (updateNodes c name ip port nodes) name \<noteq> None"
proof (cases "findNode c nodes name")
  case (Some k)
  then have k: "k < length nodes" by (simp add: findNode_first)
  let ?nodes = "nodes[k := (nodes ! k)\<lparr>tn_ip := ip, tn_port := uint port, tn_active := True\<rparr>]"
  have "map tn_name ?nodes = map tn_name nodes" using k by (simp add: map_update list_update_same_conv)
  with Some show ?thesis using nodes_typed_same grows_same findNode_grows [of nodes ?nodes c name k] by (auto simp: updateNodes_def)
next
  case None
  let ?nodes = "nodes @ [CreateNode True ip (uint port) name]"
  have new: "findNode c ?nodes name = Some (length nodes)"
    using None nodeByName_refl [of "CreateNode True ip (uint port) name"] unfolding findNode_first findNode_None
    by (simp add: nth_append CreateNode_def)
  have grow: "grows nodes ?nodes" by (simp add: grows_def)
  have "nodes_typed c ?nodes" if "nodes_typed c nodes"
    unfolding nodes_typed_def
  proof (intro allI impI)
    fix k assume "k < length ?nodes"
    then consider "k = length nodes" | "k < length nodes" by fastforce
    then show "findNode c ?nodes (tn_name (?nodes ! k)) = Some k"
    proof cases
      case 1
      then show ?thesis using new by (simp add: CreateNode_def)
    next
      case 2
      then have "findNode c nodes (tn_name (nodes ! k)) = Some k" using that by (simp add: nodes_typed_def)
      then show ?thesis using findNode_grows [OF grow] 2 by (simp add: nth_append)
    qed
  qed
  then show ?thesis using None grow new by (simp add: updateNodes_def)
qed

lemma update_all_keeps:
  "grows nodes (fold (\<lambda>(i, ip, port, b). updateNodes c i ip port) cs nodes) \<and>
   (nodes_typed c nodes \<longrightarrow> nodes_typed c (fold (\<lambda>(i, ip, port, b). updateNodes c i ip port) cs nodes)) \<and>
   (\<forall>(i, ip, port, b) \<in> set cs. findNode c (fold (\<lambda>(i, ip, port, b). updateNodes c i ip port) cs nodes) i \<noteq> None)"
proof (induction cs arbitrary: nodes)
  case (Cons r cs)
  obtain i ip port b where r: "r = (i, ip, port, b)" by (cases r)
  let ?n1 = "updateNodes c i ip port nodes"
  note one = updateNodes_keeps [of nodes i ip port] and rest = Cons.IH [of ?n1]
  from one obtain k where "findNode c ?n1 i = Some k" by auto
  then have "findNode c (fold (\<lambda>(i, ip, port, b). updateNodes c i ip port) cs ?n1) i = Some k"
    using rest by (blast intro: findNode_grows)
  then show ?case using one rest r by (auto intro: grows_trans)
qed simp

lemma take_reply_typed:
  assumes "file_typed c (ma_nodes w) fi" and "take_reply c blocks fi w = (ok, fi', w')"
  shows "keeps_nodes c w w' \<and> file_typed c (ma_nodes w') fi'"
proof (cases "blocks = []")
  case True
  then show ?thesis using assms by (auto simp: take_reply_def)
next
  case False
  let ?nodes = "fold (\<lambda>(i, ip, port, b). updateNodes c i ip port) (concat blocks) (ma_nodes w)"
  note all = update_all_keeps [of "ma_nodes w" "concat blocks"]
  have w': "w' = w\<lparr>ma_nodes := ?nodes\<rparr>" "tf_blocks fi' = tf_blocks fi @ map (map (\<lambda>(i, ip, port, b). CreateCopy i b)) blocks"
    using assms(2) False by (auto simp: take_reply_def)
  have "copy_typed c ?nodes x" if "copies \<in> set (tf_blocks fi)" "x \<in> set copies" for copies x
    using assms(1) that all copy_grows unfolding file_typed_def by blast
  moreover have "copy_typed c ?nodes (CreateCopy i b)" if "rs \<in> set blocks" "(i, ip, port, b) \<in> set rs" for rs i ip port b
    using all that by (fastforce simp: copy_typed_def CreateCopy_def)
  ultimately show ?thesis using all unfolding keeps_nodes_def file_typed_def w' by auto
qed

end
text \<open>Waiting for the file system changes no node.\<close>

lemma connectFS_nodes:
  assumes "connectFS E w = Some w'" shows "ma_nodes w' = ma_nodes w"
  apply (rule connectFS.raw_induct [OF _ assms, where P = "\<lambda>E w w'. ma_nodes w' = ma_nodes w"])
  subgoal premises prems for connect E w w'
    using prems(2) by (auto simp: Let_def bind_eq_Some_conv split: if_splits dest!: prems(1))
  done

lemma ma_send_nodes [simp]: "ma_nodes (snd (ma_send E s p w)) = ma_nodes w"
  by (simp add: ma_send_def split: prod.split)

lemma ma_recv_nodes [simp]: "ma_nodes (snd (snd (ma_recv E s w))) = ma_nodes w"
  by (simp add: ma_recv_def split: prod.split)

lemma lost_nodes: "FSConnectionLost E w = Some w' \<Longrightarrow> ma_nodes w' = ma_nodes w"
  by (auto simp: FSConnectionLost_def dest: connectFS_nodes)

lemma send_until_nodes:
  assumes "send_until E p w = Some w'" shows "ma_nodes w' = ma_nodes w"
  apply (rule send_until.raw_induct [OF _ assms, where P = "\<lambda>E p w w'. ma_nodes w' = ma_nodes w"])
  subgoal premises prems for send E p w w'
    using prems(2) by (auto simp: Let_def bind_eq_Some_conv split: if_splits dest!: prems(1) lost_nodes)
  done

lemma recv_until_nodes:
  assumes "recv_until E again w = Some y" shows "ma_nodes (snd y) = ma_nodes w"
  apply (rule recv_until.raw_induct [OF _ assms, where P = "\<lambda>E again w y. ma_nodes (snd y) = ma_nodes w"])
  subgoal premises prems for recv E again w y
    using prems(2) by (auto simp: Let_def bind_eq_Some_conv split: if_splits option.splits dest!: prems(1) lost_nodes send_until_nodes)
  done

section \<open>What a thread keeps\<close>

definition thread_typed :: "'z commons_scheme \<Rightarrow> 'n marta \<Rightarrow> ('a, 'n) thread \<Rightarrow> ('a \<Rightarrow> 'n marta \<Rightarrow> bool) \<Rightarrow> bool" where
  "thread_typed E w r P \<longleftrightarrow> returns r (\<lambda>(q, w'). keeps_nodes E w w' \<and> (\<forall>x. q = Some x \<longrightarrow> P x w'))"

lemma thread_Some [simp]: "thread_typed E w (Some (q, w')) P \<longleftrightarrow> keeps_nodes E w w' \<and> (\<forall>x. q = Some x \<longrightarrow> P x w')"
  by (simp add: thread_typed_def)

lemma thread_None [simp]: "thread_typed E w None P"
  by (simp add: thread_typed_def)

lemma thread_mono: "thread_typed E w r P \<Longrightarrow> (\<And>x w'. keeps_nodes E w w' \<Longrightarrow> P x w' \<Longrightarrow> Q x w') \<Longrightarrow> thread_typed E w r Q"
  by (auto simp: thread_typed_def returns_def)

lemma thread_from: "keeps_nodes E w w1 \<Longrightarrow> thread_typed E w1 r P \<Longrightarrow> thread_typed E w r P"
  by (auto simp: thread_typed_def returns_def intro: keeps_trans)

text \<open>A rule for each way the steps of a thread are put together.\<close>

lemma thread_if: "(b \<Longrightarrow> thread_typed E w x P) \<Longrightarrow> (\<not> b \<Longrightarrow> thread_typed E w y P) \<Longrightarrow> thread_typed E w (if b then x else y) P"
  by simp

lemma thread_opt: "(\<And>x. r = Some x \<Longrightarrow> thread_typed E w (f x) P) \<Longrightarrow> thread_typed E w (Option.bind r f) P"
  by (cases r) simp_all

lemma thread_prod: "(\<And>a b. x = (a, b) \<Longrightarrow> thread_typed E w (f a b) P) \<Longrightarrow> thread_typed E w (case x of (a, b) \<Rightarrow> f a b) P"
  by (cases x) simp

lemma thread_bind:
  assumes "thread_typed E w r P" and "\<And>x w1. keeps_nodes E w w1 \<Longrightarrow> P x w1 \<Longrightarrow> thread_typed E w1 (f x w1) Q"
  shows "thread_typed E w (Option.bind r (\<lambda>y. case y of (q, w1) \<Rightarrow> (case q of None \<Rightarrow> Some (None, w1) | Some x \<Rightarrow> f x w1))) Q"
proof (cases r)
  case (Some y)
  obtain q w1 where y: "y = (q, w1)" by (cases y)
  have keep: "keeps_nodes E w w1" and P: "\<And>x. q = Some x \<Longrightarrow> P x w1" using assms(1) by (simp_all add: Some y)
  show ?thesis
  proof (cases q)
    case None
    then show ?thesis using keep by (simp add: Some y)
  next
    case (Some x)
    then show ?thesis using thread_from [OF keep assms(2) [OF keep P [OF Some]]] by (simp add: \<open>r = Some y\<close> y)
  qed
qed simp

lemma thread_map:
  assumes "thread_typed E w r P" and "\<And>x w1. keeps_nodes E w w1 \<Longrightarrow> P x w1 \<Longrightarrow> Q (g x) w1"
  shows "thread_typed E w (Option.bind r (\<lambda>q. Some (map_option g (fst q), snd q))) Q"
proof (cases r)
  case (Some y)
  obtain q w1 where y: "y = (q, w1)" by (cases y)
  show ?thesis using assms by (cases q) (simp_all add: Some y)
qed simp

lemma thread_exit:
  assumes "keeps_nodes E w w1" shows "thread_typed E w (exit_job E job w1) P"
proof (cases "fold_opt (removeMapNode E) (jb_maps job) w1")
  case (Some w2)
  then show ?thesis using assms remove_maps_keeps [OF Some] by (auto simp: exit_job_def freeJob_def intro: keeps_trans)
qed (simp add: exit_job_def freeJob_def)
section \<open>The maps\<close>

locale planner = commons_laws E for E :: "('n, 'z) marta_env_scheme"
begin

text \<open>A state whose nodes are told apart and a job that conforms to them, and what is kept of a job:
  as many maps.\<close>

definition typed :: "t_job \<Rightarrow> 'n marta \<Rightarrow> bool" where
  "typed job w \<longleftrightarrow> nodes_typed E (ma_nodes w) \<and> job_typed E (ma_nodes w) job"

definition kept :: "t_job \<Rightarrow> t_job \<Rightarrow> 'n marta \<Rightarrow> bool" where
  "kept job job' w' \<longleftrightarrow> typed job' w' \<and> length (jb_maps job') = length (jb_maps job)"

lemma typed_keeps: "keeps_nodes E w w' \<Longrightarrow> typed job w \<Longrightarrow> typed job w'"
  by (simp add: typed_def keeps_typed [of E w w'])

lemma copy_keeps: "keeps_nodes E w w' \<Longrightarrow> copy_typed E (ma_nodes w) c \<Longrightarrow> copy_typed E (ma_nodes w') c"
  for w w' :: "'n marta"
  unfolding keeps_nodes_def by (blast intro: copy_grows)

lemma kept_refl: "kept job job w \<longleftrightarrow> typed job w" by (simp add: kept_def)

lemma kept_trans: "kept a b w \<Longrightarrow> kept b c w' \<Longrightarrow> kept a c w'"
  by (simp add: kept_def)

lemma requestFileBlocks_typed:
  assumes "file_typed E (ma_nodes w) fi" and "requestFileBlocks E fi w = Some (ok, fi', w')"
  shows "keeps_nodes E w w' \<and> file_typed E (ma_nodes w') fi'"
proof -
  from assms(2) obtain w1 w2 buffer blocks where 1: "send_until E (requestFileBlocks_bytes (tf_path fi)) w = Some w1"
    and 2: "recv_until E (Some (requestFileBlocks_bytes (tf_path fi))) w1 = Some (buffer, w2)"
    and 3: "take_reply E blocks fi w2 = (ok, fi', w')"
    by (auto simp: requestFileBlocks_def Let_def bind_eq_Some_conv)
  have eq: "ma_nodes w2 = ma_nodes w" using send_until_nodes [OF 1] recv_until_nodes [OF 2] by simp
  with assms(1) take_reply_typed [OF _ 3] show ?thesis using keeps_eq [OF eq, of E] keeps_trans by metis
qed

lemma request_files_typed:
  assumes "\<forall>fi \<in> set files. file_typed E (ma_nodes w) fi" and "request_files E files w = Some (ok, files', w')"
  shows "keeps_nodes E w w' \<and> (\<forall>fi \<in> set files'. file_typed E (ma_nodes w') fi)"
  using assms
proof (induction files arbitrary: w ok files')
  case (Cons fi files)
  from Cons.prems(2) obtain ok1 fi1 w1 ok2 files2 where 1: "requestFileBlocks E fi w = Some (ok1, fi1, w1)"
    and 2: "request_files E files w1 = Some (ok2, files2, w')" and files': "files' = fi1 # files2"
    by (clarsimp simp: bind_eq_Some_conv)
  have a: "keeps_nodes E w w1" "file_typed E (ma_nodes w1) fi1" using requestFileBlocks_typed [OF _ 1] Cons.prems(1) by auto
  have mono: "file_typed E (ma_nodes w2) f" if "keeps_nodes E w' w2" "file_typed E (ma_nodes w') f" for w' w2 :: "'n marta" and f
    using that copy_grows unfolding keeps_nodes_def file_typed_def by blast
  have "\<forall>fi \<in> set files. file_typed E (ma_nodes w1) fi" using Cons.prems(1) mono [OF a(1)] by simp
  from Cons.IH [OF this 2] a mono show ?case unfolding files' by (auto intro: keeps_trans)
qed simp

lemma select_in:
  assumes "\<forall>c \<in> set copies. copy_typed E nodes c" and "select_for_map E nodes copies = Some (Some (k, b))"
  shows "k < length nodes"
proof -
  have "best_copy E nodes copies (Some (k, b))" using select_for_map_best [of copies E nodes] assms by (auto simp: copy_typed_def)
  then show ?thesis by (auto simp: best_copy_def findNode_first)
qed

lemma setTempMapName_typed: "setTempMapName E old i j n = Some name \<Longrightarrow> length old = 60 \<Longrightarrow> name60_typed name"
  by (auto simp: setTempMapName_def strcpy60_def bind_eq_Some_conv name60_typed_def split: if_splits)

lemma notificarMap_typed:
  assumes "typed job w" and "k < length (jb_maps job)"
  shows "thread_typed E w (notificarMap E job k w) (kept job)"
proof -
  let ?job = "job\<lparr>jb_maps := (jb_maps job)[k := (jb_maps job ! k)\<lparr>mp_done := False\<rparr>]\<rparr>"
  have "map_typed E (ma_nodes w) ((jb_maps job ! k)\<lparr>mp_done := False\<rparr>)" using assms by (auto simp: typed_def job_typed_def map_typed_def)
  then have job: "job_typed E (ma_nodes w) ?job"
    using assms by (auto simp: typed_def job_typed_def nth_list_update dest: set_update_subset_insert [THEN subsetD])
  obtain status w1 where send: "serializeMapToOrder E (jb_socket job) ((jb_maps job ! k)\<lparr>mp_done := False\<rparr>) w = (status, w1)"
    by (cases "serializeMapToOrder E (jb_socket job) ((jb_maps job ! k)\<lparr>mp_done := False\<rparr>) w")
  have w1: "ma_nodes w1 = ma_nodes w" using ma_send_nodes [of E "jb_socket job" _ w] send by (metis serializeMapToOrder_def snd_conv)
  then have "kept job ?job w1" using job assms(1) by (simp add: kept_def typed_def)
  then have "thread_typed E w (Some (Some ?job, w1)) (kept job)" using keeps_eq [OF w1, of E] by simp
  moreover have "notificarMap E job k w = (if 0 > status_code status then exit_job E ?job w1 else Some (Some ?job, w1))"
    by (simp add: notificarMap_def Let_def send)
  ultimately show ?thesis by (simp add: thread_exit [OF keeps_eq [OF w1]])
qed
lemma typed_map:
  assumes "typed job w" and "k < length (jb_maps job)" and "map_typed E (ma_nodes w) m" and "mp_id m = mp_id (jb_maps job ! k)"
  shows "kept job (job\<lparr>jb_maps := (jb_maps job)[k := m]\<rparr>) w"
  using assms by (auto simp: kept_def typed_def job_typed_def nth_list_update dest: set_update_subset_insert [THEN subsetD])

lemma typed_nth: "typed job w \<Longrightarrow> k < length (jb_maps job) \<Longrightarrow> map_typed E (ma_nodes w) (jb_maps job ! k)"
  by (simp add: typed_def job_typed_def)

lemma add_map_typed:
  assumes "typed job w" and k: "k < length (ma_nodes w)" and copies: "\<forall>c \<in> set copies. copy_typed E (ma_nodes w) c"
  shows "thread_typed E w (add_map E copies k b job w) typed"
proof -
  let ?node = "ma_nodes w ! k"
  let ?w1 = "w\<lparr>ma_nodes := (ma_nodes w)[k := ?node\<lparr>tn_maps := tn_maps ?node @ [b]\<rparr>]\<rparr>"
  have keep: "keeps_nodes E w ?w1" using k by (intro keeps_names) (simp add: map_update list_update_same_conv)
  have name: "tn_name ?node \<in> node_names (ma_nodes ?w1)" using k grows_names [of "ma_nodes w" "ma_nodes ?w1"] keep
    by (auto simp: keeps_nodes_def node_names_def)
  show ?thesis unfolding add_map_def Let_def
  proof (rule thread_opt, rule thread_from [OF keep])
    fix m assume "CreateMap E (word_of_nat (length (jb_maps job))) b (word_of_int (tn_port ?node)) (tn_name ?node) (tn_ip ?node) (jb_id job) (ma_net ?w1) = Some m"
    then obtain nm where "setTempMapName E (replicate 60 0) (word_of_nat (length (jb_maps job))) (jb_id job) (ma_net ?w1) = Some nm"
      and m: "mp_nodeName m = tn_name ?node" "mp_tempResultName m = nm" "mp_id m = word_of_nat (length (jb_maps job))"
      by (auto simp: CreateMap_def bind_eq_Some_conv)
    then have "name60_typed nm" by (auto dest: setTempMapName_typed)
    then have "map_typed E (ma_nodes ?w1) (m\<lparr>mp_copies := copies\<rparr>)" using copies copy_keeps [OF keep] m name by (simp add: map_typed_def)
    then have "typed (job\<lparr>jb_maps := jb_maps job @ [m\<lparr>mp_copies := copies\<rparr>]\<rparr>) ?w1"
      using typed_keeps [OF keep assms(1)] m by (auto simp: typed_def job_typed_def nth_append less_Suc_eq)
    from notificarMap_typed [OF this] show "thread_typed E ?w1 (notificarMap E (job\<lparr>jb_maps := jb_maps job @ [m\<lparr>mp_copies := copies\<rparr>]\<rparr>) (length (jb_maps job)) ?w1) typed"
      by (rule thread_mono) (auto simp: kept_def)
  qed
qed

lemma mapPlanning_typed:
  assumes "typed job w" and copies: "\<forall>c \<in> set copies. copy_typed E (ma_nodes w) c"
  shows "thread_typed E w (mapPlanning E copies job w) typed"
  unfolding mapPlanning_def
proof (rule thread_opt)
  fix selected assume sel: "select_for_map E (ma_nodes w) copies = Some selected"
  show "thread_typed E w (case selected of
          None \<Rightarrow> map_option (Pair (Some job)) (fold_opt (removeMapNode E) (jb_maps job) w)
        | Some (k, numBlock) \<Rightarrow> add_map E copies k numBlock job w) typed"
  proof (cases selected)
    case None
    then show ?thesis using assms(1) remove_maps_keeps [of E "jb_maps job" w] typed_keeps
      by (cases "fold_opt (removeMapNode E) (jb_maps job) w") auto
  next
    case (Some kb)
    then show ?thesis using add_map_typed [OF assms(1) _ copies] select_in [OF copies] sel by (cases kb) simp
  qed
qed

lemma plan_blocks_typed:
  assumes "typed job w" and "\<forall>copies \<in> set blocks. \<forall>c \<in> set copies. copy_typed E (ma_nodes w) c"
  shows "thread_typed E w (plan_blocks E blocks job w) typed"
  using assms
proof (induction blocks arbitrary: job w)
  case (Cons copies blocks)
  show ?case unfolding plan_blocks.simps
  proof (rule thread_bind [OF mapPlanning_typed [OF Cons.prems(1)]])
    show "\<forall>c \<in> set copies. copy_typed E (ma_nodes w) c" using Cons.prems(2) by simp
    fix job1 w1 assume keep: "keeps_nodes E w w1" and "typed job1 w1"
    then show "thread_typed E w1 (plan_blocks E blocks job1 w1) typed"
      using Cons.prems(2) copy_keeps [OF keep] by (intro Cons.IH) simp_all
  qed
qed simp

lemma desserializeMapResult_typed:
  assumes "typed job w" and "desserializeMapResult E r job w = Some (failed, job1, w1)"
  shows "keeps_nodes E w w1 \<and> kept job job1 w1 \<and> (\<forall>k. failed = Some k \<longrightarrow> k < length (jb_maps job) \<and> job1 = job)"
proof -
  from assms(2) obtain result i k w2 where k: "find_index (\<lambda>m. isMap m i) (jb_maps job) = Some k"
    and w2: "removeMapNode E (jb_maps job ! k) w = Some w2"
    and res: "(if result then Some (None, job\<lparr>jb_maps := (jb_maps job)[k := (jb_maps job ! k)\<lparr>mp_done := True\<rparr>], jb_mapsDone := jb_mapsDone job + 1\<rparr>, w2)
        else do { w3 \<leftarrow> deactivateNode E (mp_nodeName (jb_maps job ! k)) w2; Some (Some k, job, w3) }) = Some (failed, job1, w1)"
    by (auto simp: desserializeMapResult_def Let_def bind_eq_Some_conv)
  have klen: "k < length (jb_maps job)" using find_index_Some [OF k] by simp
  note keep = removeMapNode_keeps [OF w2]
  show ?thesis
  proof (cases result)
    case True
    have "typed job w2" using typed_keeps [OF keep assms(1)] .
    moreover from this have "map_typed E (ma_nodes w2) ((jb_maps job ! k)\<lparr>mp_done := True\<rparr>)" using typed_nth klen by (simp add: map_typed_def)
    ultimately have "kept job (job\<lparr>jb_maps := (jb_maps job)[k := (jb_maps job ! k)\<lparr>mp_done := True\<rparr>]\<rparr>) w2" using klen by (intro typed_map) simp_all
    then show ?thesis using True res keep by (auto simp: kept_def typed_def job_typed_def)
  next
    case False
    then have w3: "deactivateNode E (mp_nodeName (jb_maps job ! k)) w2 = Some w1" "failed = Some k" "job1 = job"
      using res by (auto simp: bind_eq_Some_conv)
    note keep2 = keeps_trans [OF keep deactivateNode_keeps [OF w3(1)]]
    show ?thesis using keep2 w3 klen typed_keeps [OF keep2 assms(1)] by (simp add: kept_def)
  qed
qed
lemma rePlan_order_typed:
  assumes "typed job w" and "k < length (jb_maps job)"
  shows "thread_typed E w (rePlan_order E k job w) (\<lambda>x. kept job (snd x))"
proof (cases "request_files E (jb_files job) w")
  case (Some r)
  obtain ok files w1 where r: "r = (ok, files, w1)" by (cases r)
  let ?job = "job\<lparr>jb_files := files\<rparr>"
  have "keeps_nodes E w w1 \<and> (\<forall>fi \<in> set files. file_typed E (ma_nodes w1) fi)"
    using request_files_typed [of "jb_files job" w] assms(1) Some r by (simp add: typed_def job_typed_def)
  then have keep: "keeps_nodes E w w1" and files: "\<forall>fi \<in> set files. file_typed E (ma_nodes w1) fi" by simp_all
  have job: "typed ?job w1" using typed_keeps [OF keep assms(1)] files by (simp add: typed_def job_typed_def)
  let ?m = "jb_maps job ! k"
  have m: "map_typed E (ma_nodes w1) ?m" using typed_nth [OF job] assms(2) by simp
  show ?thesis
  proof (cases "select_for_map E (ma_nodes w1) (mp_copies ?m)")
    case sel: (Some selected)
    show ?thesis
    proof (cases selected)
      case None
      then show ?thesis using job keep by (simp add: rePlan_order_def Some r Let_def sel kept_def)
    next
      case ib: (Some ib)
      obtain i b where ib': "ib = (i, b)" by (cases ib)
      have i: "i < length (ma_nodes w1)" using select_in [of "mp_copies ?m"] m sel ib ib' by (simp add: map_typed_def)
      show ?thesis
      proof (cases "setTempMapName E (mp_tempResultName ?m) (mp_id ?m) (jb_id job) (ma_net w1)")
        case name: (Some name)
        let ?m' = "?m\<lparr>mp_nodeName := tn_name (ma_nodes w1 ! i), mp_nodeIP := tn_ip (ma_nodes w1 ! i),
          mp_nodePort := word_of_int (tn_port (ma_nodes w1 ! i)), mp_numBlock := b, mp_tempResultName := name\<rparr>"
        have "name60_typed name" using setTempMapName_typed [OF name] m by (simp add: map_typed_def name60_typed_def)
        then have "map_typed E (ma_nodes w1) ?m'" using m i by (simp add: map_typed_def node_names_def)
        then have "kept ?job (?job\<lparr>jb_maps := (jb_maps ?job)[k := ?m']\<rparr>) w1" using job assms(2) by (intro typed_map) simp_all
        then have "thread_typed E w1 (notificarMap E (?job\<lparr>jb_maps := (jb_maps job)[k := ?m']\<rparr>) k w1) (kept (?job\<lparr>jb_maps := (jb_maps job)[k := ?m']\<rparr>))"
          using assms(2) by (intro notificarMap_typed) (simp_all add: kept_def)
        then have order: "thread_typed E w1 (notificarMap E (?job\<lparr>jb_maps := (jb_maps job)[k := ?m']\<rparr>) k w1) (kept job)"
          by (rule thread_mono) (simp add: kept_def)
        have "thread_typed E w1 (Option.bind (notificarMap E (?job\<lparr>jb_maps := (jb_maps job)[k := ?m']\<rparr>) k w1)
            (\<lambda>q. Some (map_option (Pair True) (fst q), snd q))) (\<lambda>x. kept job (snd x))"
          by (rule thread_map [OF order]) simp
        from thread_from [OF keep this] show ?thesis by (simp add: rePlan_order_def Some r Let_def sel ib ib' name case_prod_unfold)
      qed (simp add: rePlan_order_def Some r Let_def sel ib ib')
    qed
  qed (simp add: rePlan_order_def Some r Let_def)
qed (simp add: rePlan_order_def)

lemma desserializaReduceResult_typed:
  assumes "typed job w" and "desserializaReduceResult E r job w = Some (failed, job1, w1)"
  shows "keeps_nodes E w w1 \<and> kept job job1 w1"
proof -
  note run = assms(2) [unfolded desserializaReduceResult_def Let_def]
  obtain i nodeID where r: "reduceResult r = Some (i, nodeID)" using run by (cases "reduceResult r") auto
  note run = run [unfolded r bind.bind_lunit prod.case]
  obtain k where k: "(if i = 0 then Some None else map_option Some (find_index (\<lambda>rd. isReduce rd i) (jb_partialReduces job))) = Some k"
    using run by (cases "if i = 0 then Some None else map_option Some (find_index (\<lambda>rd. isReduce rd i) (jb_partialReduces job))") simp_all
  note run = run [unfolded k bind.bind_lunit]
  obtain w2 where w2: "removeReduceNode E (case k of None \<Rightarrow> jb_finalReduce job | Some i \<Rightarrow> jb_partialReduces job ! i) w = Some w2"
    using run by (cases "removeReduceNode E (case k of None \<Rightarrow> jb_finalReduce job | Some i \<Rightarrow> jb_partialReduces job ! i) w") simp_all
  note res = run [unfolded w2 bind.bind_lunit]
  note keep = removeReduceNode_keeps [OF w2]
  note job = typed_keeps [OF keep assms(1)]
  show ?thesis
  proof (cases nodeID)
    case None
    have final: "kept job (job\<lparr>jb_finalReduce := (jb_finalReduce job)\<lparr>rd_done := True\<rparr>\<rparr>) w2"
      using job by (simp add: kept_def typed_def job_typed_def reduce_typed_def)
    have part: "kept job (job\<lparr>jb_partialReduces := (jb_partialReduces job)[j := (jb_partialReduces job ! j)\<lparr>rd_done := True\<rparr>]\<rparr>) w2"
      if "j < length (jb_partialReduces job)" for j
    proof -
      have "partial_typed (ma_nodes w2) ((jb_partialReduces job ! j)\<lparr>rd_done := True\<rparr>)"
        using job nth_mem [OF that] by (fastforce simp: typed_def job_typed_def partial_typed_def reduce_typed_def)
      then show ?thesis using job by (auto simp: kept_def typed_def job_typed_def dest: set_update_subset_insert [THEN subsetD])
    qed
    show ?thesis
    proof (cases k)
      case k0: None
      then show ?thesis using res None keep final by auto
    next
      case kj: (Some j)
      then have "j < length (jb_partialReduces job)" using k by (auto split: if_splits dest: find_index_Some)
      then show ?thesis using res None kj keep part by auto
    qed
  next
    case (Some name)
    then obtain node where w3: "deactivateNode E node w2 = Some w1" and same: "job1 = job" using res by (auto simp: bind_eq_Some_conv)
    note keep2 = deactivateNode_keeps [OF w3]
    show ?thesis using keeps_trans [OF keep keep2] typed_keeps [OF keep2 job] same by (simp add: kept_def)
  qed
qed
section \<open>Waiting for results\<close>

lemma ma_recv_keeps: "ma_recv E s w = (status, p, w1) \<Longrightarrow> keeps_nodes E w w1"
  using ma_recv_nodes [of E s w] by (intro keeps_eq) simp

lemma thread_recv:
  assumes "\<And>status p w1. keeps_nodes E w w1 \<Longrightarrow> thread_typed E w1 (f status p w1) P"
  shows "thread_typed E w (case ma_recv E s w of (status, p, w1) \<Rightarrow> f status p w1) P"
proof -
  obtain status p w1 where recv: "ma_recv E s w = (status, p, w1)" by (cases "ma_recv E s w")
  show ?thesis unfolding recv prod.case by (rule thread_from [OF ma_recv_keeps [OF recv] assms [OF ma_recv_keeps [OF recv]]])
qed

lemma notif_typed: "thread_typed E w (notifFileUnavailable E job w) P"
  unfolding notifFileUnavailable_def by (rule thread_exit) (simp add: keeps_eq sendDieOrder_def)

lemma thread_mapResult:
  assumes "typed job w" and "\<And>job1 w1. kept job job1 w1 \<Longrightarrow> thread_typed E w1 (f None job1 w1) P"
    and "\<And>k w1. typed job w1 \<Longrightarrow> k < length (jb_maps job) \<Longrightarrow> thread_typed E w1 (f (Some k) job w1) P"
  shows "thread_typed E w (Option.bind (desserializeMapResult E m job w) (\<lambda>res. case res of (failed, job1, w2) \<Rightarrow> f failed job1 w2)) P"
proof (cases "desserializeMapResult E m job w")
  case (Some res)
  obtain failed job1 w1 where res: "res = (failed, job1, w1)" by (cases res)
  note keep = desserializeMapResult_typed [OF assms(1) Some [unfolded res]]
  then have "thread_typed E w1 (f failed job1 w1) P" using assms(2,3) by (cases failed) (auto simp: kept_def)
  with thread_from keep show ?thesis by (auto simp: Some res)
qed simp

lemma thread_reduceResult:
  assumes "typed job w"
  shows "thread_typed E w (map_option (\<lambda>(nodeID, job1, w2). (Some (nodeID, job1), w2)) (desserializaReduceResult E m job w)) (\<lambda>x. kept job (snd x))"
proof (cases "desserializaReduceResult E m job w")
  case (Some res)
  obtain failed job1 w1 where res: "res = (failed, job1, w1)" by (cases res)
  show ?thesis using desserializaReduceResult_typed [OF assms Some [unfolded res]] by (simp add: Some res)
qed simp

lemma recvResult_typed: "typed job w \<Longrightarrow> thread_typed E w (recvResult E job w) (\<lambda>x. kept job (snd x))"
proof (cases "recvResult E job w")
  case (Some y)
  let ?P = "\<lambda>E' job w y. E' = E \<longrightarrow> typed job w \<longrightarrow> thread_typed E w (Some y) (\<lambda>x. kept job (snd x))"
  have "?P E job w y"
    apply (rule recvResult.raw_induct [OF _ Some, where P = ?P], intro impI)
    subgoal premises prems for rec E' job w y
    proof -
      have rec: "thread_typed E w2 (rec E job2 w2) (\<lambda>x. kept job2 (snd x))" if "typed job2 w2" for job2 w2
        using prems(1) [of E job2 w2] that by (cases "rec E job2 w2") simp_all
      show ?thesis unfolding prems(2) [unfolded prems(3), symmetric]
        apply (rule thread_recv thread_if thread_exit keeps_refl thread_mapResult thread_reduceResult typed_keeps [OF _ prems(4)] | assumption | rule thread_opt)+
        subgoal by (simp add: kept_def)
        subgoal for status p w1 buffer h k w2
          apply (simp only: option.case)
          apply (rule thread_bind [OF rePlan_order_typed])
            apply assumption+
          apply (intro thread_prod thread_if notif_typed)
          apply (rule thread_map [OF rec])
          by (auto simp: kept_def)
        apply (rule thread_if thread_reduceResult typed_keeps [OF _ prems(4)] | assumption)+
        by (simp add: kept_def typed_keeps [OF _ prems(4)])
    qed
    done
  then show "typed job w \<Longrightarrow> thread_typed E w (recvResult E job w) (\<lambda>x. kept job (snd x))" using Some by simp
qed simp
lemma recv_results_typed: "typed job w \<Longrightarrow> thread_typed E w (recv_results E n job w) (\<lambda>x. kept job (snd x))"
proof (induction n arbitrary: job w)
  case (Suc n)
  show ?case unfolding recv_results.simps
    apply (rule thread_bind [OF recvResult_typed [OF Suc.prems]])
    apply (rule thread_prod)
    apply (rule thread_map [OF Suc.IH])
    by (auto simp: kept_def)
qed (simp add: kept_def)

lemma planMaps_typed:
  assumes "typed job w" shows "thread_typed E w (planMaps E job w) typed"
proof (cases "request_files E (jb_files job) w")
  case (Some r)
  obtain ok files w1 where r: "r = (ok, files, w1)" by (cases r)
  let ?job = "job\<lparr>jb_files := files\<rparr>"
  have "keeps_nodes E w w1 \<and> (\<forall>fi \<in> set files. file_typed E (ma_nodes w1) fi)"
    using request_files_typed [of "jb_files job" w] assms Some r by (simp add: typed_def job_typed_def)
  then have keep: "keeps_nodes E w w1" and files: "\<forall>fi \<in> set files. file_typed E (ma_nodes w1) fi" by simp_all
  have job: "typed ?job w1" using typed_keeps [OF keep assms] files by (simp add: typed_def job_typed_def)
  have blocks: "\<forall>copies \<in> set (concat (map tf_blocks files)). \<forall>c \<in> set copies. copy_typed E (ma_nodes w1) c"
    using files by (auto simp: file_typed_def)
  have "thread_typed E w1 (Option.bind (plan_blocks E (concat (map tf_blocks files)) ?job w1) (\<lambda>r. case r of
              (None, w2) \<Rightarrow> Some (None, w2)
            | (Some job2, w2) \<Rightarrow>
                Option.bind (recv_results E (length (jb_maps job2)) job2 w2) (\<lambda>q. Some (map_option snd (fst q), snd q)))) typed"
    apply (rule thread_bind [OF plan_blocks_typed [OF job blocks]])
    apply (rule thread_map [OF recv_results_typed], assumption)
    by (auto simp: kept_def)
  then have "thread_typed E w1 (if ok then Option.bind (plan_blocks E (concat (map tf_blocks files)) ?job w1) (\<lambda>r. case r of
              (None, w2) \<Rightarrow> Some (None, w2)
            | (Some job2, w2) \<Rightarrow>
                Option.bind (recv_results E (length (jb_maps job2)) job2 w2) (\<lambda>q. Some (map_option snd (fst q), snd q)))
        else notifFileUnavailable E ?job w1) typed"
    by (simp add: notif_typed)
  from thread_from [OF keep this] show ?thesis by (simp add: planMaps_def Some r Let_def)
qed (simp add: planMaps_def)

lemma rePlanMap_typed:
  assumes "typed job w" and "k < length (jb_maps job)"
  shows "thread_typed E w (rePlanMap E k job w) (\<lambda>x. kept job (snd x))"
  unfolding rePlanMap_def
  apply (rule thread_bind [OF rePlan_order_typed [OF assms]])
  apply (rule thread_prod, rule thread_if)
   apply (rule thread_map [OF recvResult_typed])
  by (auto simp: kept_def)

lemma rePlan_maps_typed:
  assumes "typed job w" and "\<forall>k \<in> set ks. k < length (jb_maps job)"
  shows "thread_typed E w (rePlan_maps E node ks ok job w) (\<lambda>x. kept job (snd x))"
  using assms
proof (induction ks arbitrary: ok job w)
  case (Cons k ks)
  have job: "typed (job\<lparr>jb_mapsDone := jb_mapsDone job - 1\<rparr>) w" using Cons.prems(1) by (simp add: typed_def job_typed_def)
  have k: "k < length (jb_maps (job\<lparr>jb_mapsDone := jb_mapsDone job - 1\<rparr>))" using Cons.prems(2) by simp
  have rest: "thread_typed E w1 (rePlan_maps E node ks ok1 job1 w1) (\<lambda>x. kept job (snd x))" if "kept job job1 w1" for ok1 job1 w1
    by (rule thread_mono [OF Cons.IH]) (use that Cons.prems(2) in \<open>auto simp: kept_def\<close>)
  show ?case unfolding rePlan_maps.simps
    apply (rule thread_if)
     apply (rule thread_bind [OF rePlanMap_typed [OF job k]])
     apply (rule thread_prod, rule rest)
     apply (simp add: kept_def)
    using rest [of job w] Cons.prems(1) by (simp_all add: kept_refl)
qed (simp add: kept_def)

lemma rePlanMapsFromNode_typed:
  "typed job w \<Longrightarrow> thread_typed E w (rePlanMapsFromNode E node job w) (\<lambda>x. kept job (snd x))"
  unfolding rePlanMapsFromNode_def by (rule rePlan_maps_typed) simp_all

section \<open>The reduces\<close>

lemma notificarReduce_typed: "thread_typed E w (notificarReduce E job reduce w) (\<lambda>_ _. True)"
proof (cases "rd_finalNode reduce")
  case (Some name)
  show ?thesis
  proof (cases "update_node E name (\<lambda>node. node\<lparr>tn_reduces := tn_reduces node + 1\<rparr>) w")
    case w1: (Some w1)
    have keep: "keeps_nodes E w w1" using w1 by (rule update_node_keeps) simp
    show ?thesis
    proof (cases "serializeReduceToOrder E (jb_socket job) reduce w1")
      case order: (Some r)
      obtain status w2 where r: "r = (status, w2)" by (cases r)
      then have "ma_nodes w2 = ma_nodes w1" using order by (auto simp: serializeReduceToOrder_def) (metis ma_send_nodes snd_conv)
      then have "keeps_nodes E w w2" using keeps_trans [OF keep keeps_eq] by blast
      then show ?thesis by (simp add: notificarReduce_def Some w1 order r thread_exit)
    qed (simp add: notificarReduce_def Some w1)
  qed (simp add: notificarReduce_def Some)
qed (simp add: notificarReduce_def)
lemma select_for_reduce_in:
  assumes "select_for_reduce E nodes maps = Some (Some (k, n))" shows "k < length nodes"
proof -
  from assms obtain counts where counts: "fold_opt (countTemporals E nodes) maps [] = Some counts"
    and sel: "fold_opt (selectMoreTempsNode nodes) counts None = Some (Some (k, n))"
    by (auto simp: select_for_reduce_def bind_eq_Some_conv)
  have in_nodes: "\<forall>e \<in> set counts. \<forall>k. fst e = Some k \<longrightarrow> k < length nodes"
  proof (rule fold_opt_inv [OF counts, where I = "\<lambda>counts. \<forall>e \<in> set counts. \<forall>k. fst e = Some k \<longrightarrow> k < length nodes"])
    fix m and c c' :: "(nat option \<times> u16) list"
    assume c: "\<forall>e \<in> set c. \<forall>k. fst e = Some k \<longrightarrow> k < length nodes" and run: "countTemporals E nodes m c = Some c'"
    then obtain nodeCount where found: "findNodeInMaps nodes (mp_nodeName m) 0 c = Some nodeCount"
      and c': "c' = (case nodeCount of None \<Rightarrow> c @ [(findNode E nodes (mp_nodeName m), 1)] | Some i \<Rightarrow> c[i := (fst (c ! i), snd (c ! i) + 1)])"
      by (auto simp: countTemporals_def bind_eq_Some_conv)
    show "\<forall>e \<in> set c'. \<forall>k. fst e = Some k \<longrightarrow> k < length nodes"
    proof (cases nodeCount)
      case None
      then show ?thesis using c c' by (auto simp: findNode_first)
    next
      case (Some i)
      show ?thesis
      proof (cases "i < length c")
        case True
        then have "\<forall>k. fst (c ! i) = Some k \<longrightarrow> k < length nodes" using c nth_mem by blast
        then show ?thesis using c unfolding c' Some option.case by (auto dest!: set_update_subset_insert [THEN subsetD])
      next
        case False
        then have "c' = c" using c' Some by (simp add: list_update_beyond)
        then show ?thesis using c by simp
      qed
    qed
  qed simp
  have "\<forall>s. Some (k, n) = Some s \<longrightarrow> fst s < length nodes"
  proof (rule fold_opt_inv [OF sel, where I = "\<lambda>sel. \<forall>s. sel = Some s \<longrightarrow> fst s < length nodes"])
    fix e sel sel' assume "e \<in> set counts" "\<forall>s. sel = Some s \<longrightarrow> fst s < length nodes" "selectMoreTempsNode nodes e sel = Some sel'"
    then show "\<forall>s. sel' = Some s \<longrightarrow> fst s < length nodes"
      using in_nodes by (auto simp: selectMoreTempsNode_def bind_eq_Some_conv split: if_splits)
  qed simp
  then show ?thesis by simp
qed

lemma searchNode_in:
  assumes "fold_opt (searchNode E nodes) reduces None = Some (Some k)" shows "k < length nodes"
proof -
  have "\<forall>j. Some k = Some j \<longrightarrow> j < length nodes"
  proof (rule fold_opt_inv [OF assms, where I = "\<lambda>sel. \<forall>j. sel = Some j \<longrightarrow> j < length nodes"])
    fix r sel sel' assume "\<forall>j. sel = Some j \<longrightarrow> j < length nodes" "searchNode E nodes r sel = Some sel'"
    then show "\<forall>j. sel' = Some j \<longrightarrow> j < length nodes"
      by (auto simp: searchNode_def Let_def bind_eq_Some_conv findNode_first split: if_splits)
  qed simp
  then show ?thesis by simp
qed

lemma strcpy60_typed: "strcpy60 old s = Some name \<Longrightarrow> length old = 60 \<Longrightarrow> name60_typed name"
  by (auto simp: strcpy60_def name60_typed_def split: if_splits)

lemma mapToTemporal_typed: "mapToTemporal m = Some t \<Longrightarrow> mp_nodeName m \<in> node_names nodes \<Longrightarrow> temp_typed nodes t"
  by (auto simp: mapToTemporal_def CreateTemp_def temp_typed_def bind_eq_Some_conv intro: strcpy60_typed)

lemma reduceToTemporal_typed: "reduceToTemporal r = Some t \<Longrightarrow> reduce_typed nodes r \<Longrightarrow> temp_typed nodes t"
  by (auto simp: reduceToTemporal_def CreateTemp_def temp_typed_def reduce_typed_def bind_eq_Some_conv intro: strcpy60_typed)

lemma map_all_typed: "map_all f xs = Some ys \<Longrightarrow> (\<And>x y. x \<in> set xs \<Longrightarrow> f x = Some y \<Longrightarrow> P y) \<Longrightarrow> \<forall>y \<in> set ys. P y"
  by (fastforce simp: map_all_Some in_set_conv_nth)

text \<open>The final reduce on a node of the list, over typed temporary files.\<close>

lemma final_typed:
  assumes "typed job w" and "k < length (ma_nodes w)" and "\<forall>t \<in> set temps. temp_typed (ma_nodes w) t"
    and "setFinalReduce E (jb_finalReduce job) (tn_name (ma_nodes w ! k)) ip port (jb_id job) n = Some reduce"
  shows "kept job (job\<lparr>jb_finalReduce := reduce\<lparr>rd_temps := rd_temps reduce @ temps, rd_done := False\<rparr>\<rparr>) w"
proof -
  have old: "reduce_typed (ma_nodes w) (jb_finalReduce job)" using assms(1) by (simp add: typed_def job_typed_def)
  from assms(4) obtain name where name: "setTempReduceName E (rd_tempResultName (jb_finalReduce job)) 0 (jb_id job) n = Some name"
    and reduce: "reduce = (jb_finalReduce job)\<lparr>rd_id := 0, rd_finalNode := Some (tn_name (ma_nodes w ! k)), rd_nodeIP := Some ip,
      rd_nodePort := port, rd_tempResultName := name\<rparr>"
    by (auto simp: setFinalReduce_def bind_eq_Some_conv)
  have "name60_typed name" using name old
    by (auto simp: setTempReduceName_def bind_eq_Some_conv reduce_typed_def name60_typed_def dest: strcpy60_typed)
  moreover have "tn_name (ma_nodes w ! k) \<in> node_names (ma_nodes w)" using assms(2) by (simp add: node_names_def)
  ultimately have "reduce_typed (ma_nodes w) (reduce\<lparr>rd_temps := rd_temps reduce @ temps, rd_done := False\<rparr>)"
    using old assms(3) by (auto simp: reduce reduce_typed_def)
  then show ?thesis using assms(1) by (simp add: kept_def typed_def job_typed_def)
qed

lemma noCombiner_order_typed:
  assumes "typed job w" shows "thread_typed E w (noCombiner_order E job w) (kept job)"
  unfolding noCombiner_order_def
proof (rule thread_opt)
  fix selected assume sel: "select_for_reduce E (ma_nodes w) (jb_maps job) = Some selected"
  show "thread_typed E w (case selected of
          None \<Rightarrow> notifFileUnavailable E job w
        | Some (k, _) \<Rightarrow> do {
            let node = ma_nodes w ! k;
            reduce \<leftarrow> setFinalReduce E (jb_finalReduce job) (tn_name node) (tn_ip node) (word_of_int (tn_port node)) (jb_id job) (ma_net w);
            temps \<leftarrow> map_all mapToTemporal (jb_maps job);
            let job1 = job\<lparr>jb_finalReduce := reduce\<lparr>rd_temps := rd_temps reduce @ temps, rd_done := False\<rparr>\<rparr>;
            (n, w1) \<leftarrow> notificarReduce E job1 (jb_finalReduce job1) w;
            Some (map_option (\<lambda>_. job1) n, w1)
          }) (kept job)"
  proof (cases selected)
    case (Some kn)
    obtain k n where kn: "kn = (k, n)" by (cases kn)
    have k: "k < length (ma_nodes w)" using select_for_reduce_in sel Some kn by simp
    have order: "thread_typed E w (Option.bind (notificarReduce E job1 r w) (\<lambda>(n, w1). Some (map_option (\<lambda>_. job1) n, w1))) (kept job)"
      if job1: "kept job job1 w" for job1 r
      using thread_map [OF notificarReduce_typed [of w job1 r], where g = "\<lambda>_. job1" and Q = "kept job"] job1 typed_keeps
      by (simp add: kept_def case_prod_unfold)
    show ?thesis unfolding Some kn option.case prod.case Let_def
      apply (rule thread_opt, rule thread_opt)
      apply (rule order)
      apply (rule final_typed [OF assms k], erule map_all_typed, erule mapToTemporal_typed)
      using assms by (auto simp: typed_def job_typed_def map_typed_def)
  qed (simp add: notif_typed)
qed
section \<open>The turns and the loops of the reduces\<close>

lemma thread_case:
  "(x = None \<Longrightarrow> thread_typed E w a P) \<Longrightarrow> (\<And>y. x = Some y \<Longrightarrow> thread_typed E w (f y) P) \<Longrightarrow>
   thread_typed E w (case x of None \<Rightarrow> a | Some y \<Rightarrow> f y) P"
  by (cases x) simp_all

lemma kept_keeps: "keeps_nodes E w w' \<Longrightarrow> kept a b w \<Longrightarrow> kept a b w'"
  by (simp add: kept_def typed_keeps)

lemma copyFinalTemporal_typed: "thread_typed E w (copyFinalTemporal E job w) (\<lambda>_ _. True)"
  unfolding copyFinalTemporal_def
  apply (rule thread_opt, rule thread_opt, rule thread_opt, rule thread_prod, rule thread_opt, rule thread_prod)
  subgoal premises prems for p w1 x b w2 y result r
  proof -
    have keep: "keeps_nodes E w w2" using send_until_nodes [OF prems(2)] recv_until_nodes [OF prems(3)] prems(4) by (intro keeps_eq) simp
    have "keeps_nodes E w (snd (sendDieOrder E (jb_socket job) reason w2))" for reason
      by (rule keeps_trans [OF keep]) (simp add: keeps_eq sendDieOrder_def)
    then show ?thesis using keep by (intro thread_if thread_opt thread_prod thread_exit) simp_all
  qed
  done

text \<open>The node that failed in the final reduce or in the copy of its result.\<close>

lemma final_node_typed:
  "thread_typed E w (case fallenNode of
       Some i \<Rightarrow> Some (Some (Some i), w)
     | None \<Rightarrow> do {
         (finalResult, w3) \<leftarrow> copyFinalTemporal E job w;
         (case finalResult of
            None \<Rightarrow> Some (None, w3)
          | Some ok \<Rightarrow> if ok then Some (Some None, w3)
              else map_option (\<lambda>i. (Some (Some i), w3)) (rd_finalNode (jb_finalReduce job)))
       }) (\<lambda>_ _. True)"
  apply (rule thread_case)
   apply (rule thread_bind [OF copyFinalTemporal_typed], rule thread_if)
  subgoal by simp
  subgoal by (cases "rd_finalNode (jb_finalReduce job)") simp_all
  subgoal by simp
  done

text \<open>The maps of that node again, and the reduces from the start.\<close>

lemma start_over_typed:
  assumes "typed job w" and "\<And>job' w'. kept job job' w' \<Longrightarrow> kept job (f job') w'"
  shows "thread_typed E w (do {
       (q, w4) \<leftarrow> rePlanMapsFromNode E node job w;
       (case q of
          None \<Rightarrow> Some (None, w4)
        | Some (fileAvailable, job3) \<Rightarrow>
            if \<not> fileAvailable then notifFileUnavailable E job3 w4 else Some (Some (True, f job3), w4))
     }) (\<lambda>x. kept job (snd x))"
  apply (rule thread_bind [OF rePlanMapsFromNode_typed [OF assms(1)]])
  apply (rule thread_prod, rule thread_if, rule notif_typed)
  using assms(2) by simp

lemma forget_final: "kept job job' w \<Longrightarrow>
    kept job (job'\<lparr>jb_finalReduce := (jb_finalReduce job')\<lparr>rd_temps := [], rd_finalNode := None, rd_nodeIP := None\<rparr>\<rparr>) w"
  "kept job job' w \<Longrightarrow>
    kept job (job'\<lparr>jb_partialReduces := [], jb_finalReduce := (jb_finalReduce job')\<lparr>rd_temps := []\<rparr>\<rparr>) w"
  by (auto simp: kept_def typed_def job_typed_def reduce_typed_def)

lemma noCombiner_turn_typed:
  assumes "typed job w" shows "thread_typed E w (noCombiner_turn E job w) (\<lambda>x. kept job (snd x))"
  unfolding noCombiner_turn_def
  apply (rule thread_bind [OF noCombiner_order_typed [OF assms]])
  subgoal for job1 w1
    apply (rule thread_bind [OF recvResult_typed [of job1]], simp add: kept_def)
    apply (rule thread_prod)
    apply (rule thread_bind [OF final_node_typed])
    apply (rule thread_case)
    subgoal by (auto simp: kept_def typed_keeps)
    subgoal for x w2 fallen job2 c w3 node
      apply (rule thread_mono [OF start_over_typed [of job2]])
      subgoal by (auto simp: kept_def typed_keeps)
      subgoal by (rule forget_final)
      subgoal by (auto simp: kept_def)
      done
    done
  done

lemma noCombinerReducePlanning_typed:
  "typed job w \<Longrightarrow> thread_typed E w (noCombinerReducePlanning E job w) (kept job)"
proof (cases "noCombinerReducePlanning E job w")
  case (Some y)
  let ?P = "\<lambda>E' job w y. E' = E \<longrightarrow> typed job w \<longrightarrow> thread_typed E w (Some y) (kept job)"
  have "?P E job w y"
    apply (rule noCombinerReducePlanning.raw_induct [OF _ Some, where P = ?P], intro impI)
    subgoal premises prems for rec E' job w y
    proof -
      have rec: "thread_typed E w2 (rec E job2 w2) (kept job2)" if "typed job2 w2" for job2 w2
        using prems(1) [of E job2 w2] that by (cases "rec E job2 w2") simp_all
      show ?thesis unfolding prems(2) [unfolded prems(3), symmetric]
        apply (rule thread_bind [OF noCombiner_turn_typed [OF prems(4)]])
        apply (rule thread_prod, rule thread_if, rule thread_mono [OF rec])
        by (auto simp: kept_def)
    qed
    done
  then show "typed job w \<Longrightarrow> thread_typed E w (noCombinerReducePlanning E job w) (kept job)" using Some by simp
qed simp
section \<open>With a combiner\<close>

lemma agregar_typed:
  assumes "agregarAPartialReduces E jobID n m reduces = Some reduces'" and "map_typed E nodes m"
    and "\<forall>r \<in> set reduces. partial_typed nodes r"
  shows "\<forall>r \<in> set reduces'. partial_typed nodes r"
proof -
  have name: "mp_nodeName m \<in> node_names nodes" using assms(2) by (simp add: map_typed_def)
  from assms(1) obtain t where t: "mapToTemporal m = Some t" by (cases "mapToTemporal m") (simp_all add: agregarAPartialReduces_def)
  note run = assms(1) [unfolded agregarAPartialReduces_def t bind.bind_lunit]
  note temp = mapToTemporal_typed [OF t name]
  show ?thesis
  proof (cases "find_index (\<lambda>rd. rd_finalNode rd = Some (mp_nodeName m)) reduces")
    case None
    then obtain reduce where create: "CreateReduce E (word_of_nat (length reduces + 1)) (mp_nodeName m) (mp_nodeIP m) (mp_nodePort m) jobID n = Some reduce"
      and reduces': "reduces' = reduces @ [reduce\<lparr>rd_temps := [t]\<rparr>]" using run by (auto simp: bind_eq_Some_conv)
    from create have "partial_typed nodes (reduce\<lparr>rd_temps := [t]\<rparr>)"
      using name temp by (auto simp: CreateReduce_def bind_eq_Some_conv partial_typed_def reduce_typed_def setTempReduceName_def intro: strcpy60_typed)
    with assms(3) show ?thesis by (simp add: reduces')
  next
    case (Some i)
    then have "partial_typed nodes (reduces ! i)" using assms(3) find_index_Some [OF Some] by simp
    then have "partial_typed nodes ((reduces ! i)\<lparr>rd_temps := rd_temps (reduces ! i) @ [t]\<rparr>)"
      using temp by (auto simp: partial_typed_def reduce_typed_def)
    with assms(3) run Some show ?thesis by (auto dest!: set_update_subset_insert [THEN subsetD])
  qed
qed

lemma notificar_all_typed: "thread_typed E w (notificar_all E job reduces w) (\<lambda>_ _. True)"
proof (induction reduces arbitrary: w)
  case (Cons reduce reduces)
  show ?case unfolding notificar_all.simps by (rule thread_bind [OF notificarReduce_typed Cons.IH])
qed simp

lemma combinerPartials_typed:
  assumes "typed job w" shows "thread_typed E w (combinerPartialsReducePlanning E job w) (kept job)"
  unfolding combinerPartialsReducePlanning_def Let_def
proof (rule thread_opt)
  fix reduces assume run: "fold_opt (agregarAPartialReduces E (jb_id job) (ma_net w)) (jb_maps job) (jb_partialReduces job) = Some reduces"
  let ?job = "job\<lparr>jb_partialReduces := map (\<lambda>rd. rd\<lparr>rd_done := False\<rparr>) reduces\<rparr>"
  have "\<forall>r \<in> set reduces. partial_typed (ma_nodes w) r"
    by (rule fold_opt_inv [OF run, where I = "\<lambda>rs. \<forall>r \<in> set rs. partial_typed (ma_nodes w) r"])
      (use assms in \<open>auto simp: typed_def job_typed_def intro: agregar_typed [rule_format]\<close>)
  then have job: "kept job ?job w" using assms by (auto simp: kept_def typed_def job_typed_def partial_typed_def reduce_typed_def)
  show "thread_typed E w (Option.bind (notificar_all E ?job (jb_partialReduces ?job) w) (\<lambda>(r, w1). Some (map_option (\<lambda>_. ?job) r, w1))) (kept job)"
    using thread_map [OF notificar_all_typed [of w ?job], where g = "\<lambda>_. ?job" and Q = "kept job"] job kept_keeps
    by (simp add: case_prod_unfold)
qed

lemma combinerFinal_typed:
  assumes "typed job w" shows "thread_typed E w (combinerFinalReducePlanning E job w) (kept job)"
  unfolding combinerFinalReducePlanning_def Let_def
  apply (rule thread_opt, rule thread_opt, rule thread_opt, rule thread_opt)
  subgoal premises prems for selectedNode k reduce temps
  proof -
    have k: "k < length (ma_nodes w)" using searchNode_in prems(1,2) by simp
    have "\<forall>t \<in> set temps. temp_typed (ma_nodes w) t"
      by (rule map_all_typed [OF prems(4)], erule reduceToTemporal_typed)
        (use assms in \<open>auto simp: typed_def job_typed_def partial_typed_def\<close>)
    note job = final_typed [OF assms k this prems(3)]
    show ?thesis
      using thread_map [OF notificarReduce_typed [of w "job\<lparr>jb_finalReduce := reduce\<lparr>rd_temps := rd_temps reduce @ temps, rd_done := False\<rparr>\<rparr>"],
          where g = "\<lambda>_. job\<lparr>jb_finalReduce := reduce\<lparr>rd_temps := rd_temps reduce @ temps, rd_done := False\<rparr>\<rparr>" and Q = "kept job"] job kept_keeps
      by (simp add: case_prod_unfold)
  qed
  done

lemma rePlan_fallen_typed:
  "typed job w \<Longrightarrow> thread_typed E w (rePlan_fallen E fallen ok job w) (\<lambda>x. kept job (snd x))"
proof (induction fallen arbitrary: ok job w)
  case (Cons node fallen)
  show ?case unfolding rePlan_fallen.simps
    apply (rule thread_bind [OF rePlanMapsFromNode_typed [OF Cons.prems]])
    apply (rule thread_prod, rule thread_mono [OF Cons.IH])
    by (auto simp: kept_def)
qed (simp add: kept_def)

lemma partials_loop_typed: "typed job w \<Longrightarrow> thread_typed E w (partials_loop E job w) (kept job)"
proof (cases "partials_loop E job w")
  case (Some y)
  let ?P = "\<lambda>E' job w y. E' = E \<longrightarrow> typed job w \<longrightarrow> thread_typed E w (Some y) (kept job)"
  have "?P E job w y"
    apply (rule partials_loop.raw_induct [OF _ Some, where P = ?P], intro impI)
    subgoal premises prems for rec E' job w y
    proof -
      have rec: "thread_typed E w2 (rec E job2 w2) (kept job2)" if "typed job2 w2" for job2 w2
        using prems(1) [of E job2 w2] that by (cases "rec E job2 w2") simp_all
      show ?thesis unfolding prems(2) [unfolded prems(3), symmetric]
        apply (rule thread_bind [OF combinerPartials_typed [OF prems(4)]])
        apply (rule thread_bind [OF recv_results_typed], simp add: kept_def)
        apply (rule thread_prod, rule thread_if, simp add: kept_def)
        apply (rule thread_bind [OF rePlan_fallen_typed], simp add: kept_def)
        apply (rule thread_prod, rule thread_if, rule thread_mono [OF rec])
        by (auto simp: kept_def typed_def job_typed_def notif_typed)
    qed
    done
  then show "typed job w \<Longrightarrow> thread_typed E w (partials_loop E job w) (kept job)" using Some by simp
qed simp

lemma combiner_turn_typed:
  assumes "typed job w" shows "thread_typed E w (combiner_turn E job w) (\<lambda>x. kept job (snd x))"
  unfolding combiner_turn_def
  apply (rule thread_bind [OF partials_loop_typed [OF assms]])
  subgoal for job1 w1
    apply (rule thread_bind [OF combinerFinal_typed [of job1]], simp add: kept_def)
    subgoal for job2 w2
      apply (rule thread_bind [OF recvResult_typed [of job2]], simp add: kept_def)
      apply (rule thread_prod)
      apply (rule thread_bind [OF final_node_typed])
      apply (rule thread_case)
      subgoal by (auto simp: kept_def typed_keeps)
      subgoal for x w3 fallen job3 c w4 node
        apply (rule thread_mono [OF start_over_typed [of job3]])
        subgoal by (auto simp: kept_def typed_keeps)
        subgoal by (rule forget_final)
        subgoal by (auto simp: kept_def)
        done
      done
    done
  done

lemma combinerReducePlanning_typed:
  "typed job w \<Longrightarrow> thread_typed E w (combinerReducePlanning E job w) (kept job)"
proof (cases "combinerReducePlanning E job w")
  case (Some y)
  let ?P = "\<lambda>E' job w y. E' = E \<longrightarrow> typed job w \<longrightarrow> thread_typed E w (Some y) (kept job)"
  have "?P E job w y"
    apply (rule combinerReducePlanning.raw_induct [OF _ Some, where P = ?P], intro impI)
    subgoal premises prems for rec E' job w y
    proof -
      have rec: "thread_typed E w2 (rec E job2 w2) (kept job2)" if "typed job2 w2" for job2 w2
        using prems(1) [of E job2 w2] that by (cases "rec E job2 w2") simp_all
      show ?thesis unfolding prems(2) [unfolded prems(3), symmetric]
        apply (rule thread_bind [OF combiner_turn_typed [OF prems(4)]])
        apply (rule thread_prod, rule thread_if, rule thread_mono [OF rec])
        by (auto simp: kept_def)
    qed
    done
  then show "typed job w \<Longrightarrow> thread_typed E w (combinerReducePlanning E job w) (kept job)" using Some by simp
qed simp
section \<open>The thread of a job and the listener\<close>

lemma new_job_typed:
  "nodes_typed E (ma_nodes w) \<Longrightarrow> typed ((CreateJob i combiner result)\<lparr>jb_files := stringsToPathFile E paths\<rparr>) w"
  by (auto simp: typed_def job_typed_def CreateJob_def stringsToPathFile_def CreateFile_def file_typed_def initReduce_def
      reduce_typed_def name60_typed_def)

lemma typed_socket: "typed job w \<Longrightarrow> typed (job\<lparr>jb_socket := s\<rparr>) w"
  by (simp add: typed_def job_typed_def)

lemma desserializeJob_typed:
  assumes "desserializeJob E s i w = Some (job, w1)" and "nodes_typed E (ma_nodes w)"
  shows "keeps_nodes E w w1 \<and> typed job w1"
proof -
  obtain status p w2 where recv: "ma_recv E s w = (status, p, w2)" by (cases "ma_recv E s w")
  note keep = ma_recv_keeps [OF recv]
  with assms have "w1 = w2" and "\<exists>combiner result paths. job = (CreateJob i combiner result)\<lparr>jb_files := stringsToPathFile E paths\<rparr>"
    by (auto simp: desserializeJob_def recv bind_eq_Some_conv split: if_splits)
  then show ?thesis using keep new_job_typed keeps_typed(1) [OF keep assms(2)] by auto
qed

lemma freeJob_keeps: "freeJob E job w = Some w' \<Longrightarrow> keeps_nodes E w w'"
  by (simp add: freeJob_def remove_maps_keeps)

lemma acceptJob_typed:
  assumes "nodes_typed E (ma_nodes w)"
  shows "thread_typed E w (acceptJob E s w) (\<lambda>_ _. True)"
  unfolding acceptJob_def Let_def
proof (rule thread_opt, rule thread_prod)
  fix x job0 w1 assume x: "desserializeJob E s (ma_cantJobs (w\<lparr>ma_cantJobs := ma_cantJobs w + 1\<rparr>)) (w\<lparr>ma_cantJobs := ma_cantJobs w + 1\<rparr>) = Some x"
    and x': "x = (job0, w1)"
  have keep0: "keeps_nodes E w (w\<lparr>ma_cantJobs := ma_cantJobs w + 1\<rparr>)" by (simp add: keeps_eq)
  from desserializeJob_typed [OF x [unfolded x'] keeps_typed(1) [OF keep0 assms]]
  have keep: "keeps_nodes E w w1" and job: "typed (job0\<lparr>jb_socket := s\<rparr>) w1" using keeps_trans [OF keep0] typed_socket by blast+
  show "thread_typed E w (do {
       (q, w2) \<leftarrow> planMaps E (job0\<lparr>jb_socket := s\<rparr>) w1;
       (case q of None \<Rightarrow> Some (None, w2) | Some job1 \<Rightarrow> do {
         (q, w3) \<leftarrow> (if jb_combiner job1 then combinerReducePlanning E job1 w2 else noCombinerReducePlanning E job1 w2);
         (case q of None \<Rightarrow> Some (None, w3) | Some job2 \<Rightarrow> do {
           w5 \<leftarrow> freeJob E job2 (snd (sendDieOrder E (jb_socket job2) COMMAND_RESULT_OK w3));
           Some (Some (), w5)
         })
       })
     }) (\<lambda>_ _. True)"
    apply (rule thread_from [OF keep])
    apply (rule thread_bind [OF planMaps_typed [OF job]])
    subgoal for job1 w2
      apply (rule thread_bind [where P = "kept job1"])
       apply (rule thread_if, erule combinerReducePlanning_typed, erule noCombinerReducePlanning_typed)
      apply (rule thread_opt)
      apply simp
      apply (rule keeps_trans [OF _ freeJob_keeps], rule keeps_eq)
       prefer 2 apply assumption
      by (simp add: sendDieOrder_def)
    done
qed

lemma listenJobs_typed: "nodes_typed E (ma_nodes w) \<Longrightarrow> thread_typed E w (listenJobs E s w) (\<lambda>_ _. True)"
  unfolding listenJobs_def
  apply (rule thread_opt, rule thread_prod, rule thread_if)
   apply (rule thread_from [OF _ acceptJob_typed])
  by (simp_all add: keeps_eq)

section \<open>What a conforming job never meets\<close>

lemma update_node_defined: "name \<in> node_names (ma_nodes w) \<Longrightarrow> update_node E name f w \<noteq> None"
  using findNode_names by (simp add: update_node_def)

lemma remove_maps_defined:
  "\<forall>m \<in> set maps. mp_nodeName m \<in> node_names (ma_nodes w) \<Longrightarrow> fold_opt (removeMapNode E) maps w \<noteq> None"
proof (induction maps arbitrary: w)
  case (Cons m maps)
  obtain w1 where w1: "removeMapNode E m w = Some w1"
    using update_node_defined [of "mp_nodeName m" w] Cons.prems by (auto simp: removeMapNode_def)
  have "grows (ma_nodes w) (ma_nodes w1)" using removeMapNode_keeps [OF w1] by (simp add: keeps_nodes_def)
  with Cons.prems have "\<forall>m \<in> set maps. mp_nodeName m \<in> node_names (ma_nodes w1)" using grows_names by auto
  with Cons.IH w1 show ?case by simp
qed simp

lemma freeJob_defined: "typed job w \<Longrightarrow> freeJob E job w \<noteq> None"
  unfolding freeJob_def by (rule remove_maps_defined) (simp add: typed_def job_typed_def map_typed_def)

lemma exit_defined: "typed job w \<Longrightarrow> (exit_job E job w :: ('a, 'n) thread) \<noteq> None"
  using freeJob_defined [of job w] by (simp add: exit_job_def)

lemma notif_defined: "typed job w \<Longrightarrow> (notifFileUnavailable E job w :: ('a, 'n) thread) \<noteq> None"
  unfolding notifFileUnavailable_def
  by (rule exit_defined) (erule typed_keeps [rotated], simp add: keeps_eq sendDieOrder_def)

lemma notificarMap_defined:
  assumes "typed job w" and "k < length (jb_maps job)" shows "notificarMap E job k w \<noteq> None"
proof -
  let ?m = "(jb_maps job ! k)\<lparr>mp_done := False\<rparr>"
  let ?job = "job\<lparr>jb_maps := (jb_maps job)[k := ?m]\<rparr>"
  obtain status w1 where send: "serializeMapToOrder E (jb_socket job) ?m w = (status, w1)"
    by (cases "serializeMapToOrder E (jb_socket job) ?m w")
  have "ma_nodes w1 = ma_nodes w" using ma_send_nodes [of E "jb_socket job" _ w] send by (metis serializeMapToOrder_def snd_conv)
  moreover have "typed ?job w" using typed_map [OF assms, of ?m] typed_nth [OF assms] by (simp add: kept_def map_typed_def)
  ultimately have job: "typed ?job w1" using typed_keeps keeps_eq by blast
  show ?thesis by (simp add: notificarMap_def Let_def send exit_defined [OF job] del: not_None_eq)
qed

text \<open>Names: defined for numbers below 1000.\<close>

lemma setTempMapName_defined:
  "clock_ok E \<Longrightarrow> length old = 60 \<Longrightarrow> unat i < 1000 \<Longrightarrow> unat j < 1000 \<Longrightarrow> setTempMapName E old i j n \<noteq> None"
  using setTempName_Some(1) [of E n old "''-Map''" i j] by (simp add: setTempMapName_def clock_ok_def)

lemma setTempReduceName_defined:
  "clock_ok E \<Longrightarrow> length old = 60 \<Longrightarrow> unat i < 1000 \<Longrightarrow> unat j < 1000 \<Longrightarrow> setTempReduceName E old i j n \<noteq> None"
  using setTempName_Some(1) [of E n old "''-Red''" i j] by (simp add: setTempReduceName_def clock_ok_def)

lemma select_defined: "\<forall>c \<in> set copies. copy_typed E nodes c \<Longrightarrow> select_for_map E nodes copies \<noteq> None"
  using select_for_map_best [of copies E nodes] by (auto simp: copy_typed_def)

lemma mapPlanning_defined:
  assumes "typed job w" and "clock_ok E" and "unat (jb_id job) < 1000" and "length (jb_maps job) < 1000"
    and copies: "\<forall>c \<in> set copies. copy_typed E (ma_nodes w) c"
  shows "mapPlanning E copies job w \<noteq> None"
proof -
  obtain selected where sel: "select_for_map E (ma_nodes w) copies = Some selected" using select_defined [OF copies] by auto
  show ?thesis
  proof (cases selected)
    case None
    then show ?thesis using freeJob_defined [OF assms(1)] by (simp add: mapPlanning_def sel freeJob_def)
  next
    case (Some kb)
    obtain k b where kb: "kb = (k, b)" by (cases kb)
    have k: "k < length (ma_nodes w)" using select_in [OF copies] sel Some kb by simp
    let ?node = "ma_nodes w ! k"
    let ?w1 = "w\<lparr>ma_nodes := (ma_nodes w)[k := ?node\<lparr>tn_maps := tn_maps ?node @ [b]\<rparr>]\<rparr>"
    have keep: "keeps_nodes E w ?w1" using k by (intro keeps_names) (simp add: map_update list_update_same_conv)
    have "unat (word_of_nat (length (jb_maps job)) :: u16) < 1000" using assms(4) by (simp add: unat_of_nat take_bit_eq_mod)
    then obtain name where name: "setTempMapName E (replicate 60 0) (word_of_nat (length (jb_maps job))) (jb_id job) (ma_net ?w1) = Some name"
      using setTempMapName_defined [OF assms(2) _ _ assms(3), of "replicate 60 0"] by fastforce
    let ?m = "\<lparr>mp_id = word_of_nat (length (jb_maps job)), mp_copies = copies, mp_nodeName = tn_name ?node, mp_nodeIP = tn_ip ?node,
      mp_nodePort = word_of_int (tn_port ?node), mp_numBlock = b, mp_tempResultName = name, mp_done = False\<rparr>"
    have "tn_name ?node \<in> node_names (ma_nodes ?w1)" using k grows_names [of "ma_nodes w" "ma_nodes ?w1"] keep
      by (auto simp: keeps_nodes_def node_names_def)
    then have "map_typed E (ma_nodes ?w1) ?m"
      using copies copy_keeps [OF keep] setTempMapName_typed [OF name] by (simp add: map_typed_def)
    then have "typed (job\<lparr>jb_maps := jb_maps job @ [?m]\<rparr>) ?w1"
      using typed_keeps [OF keep assms(1)] by (auto simp: typed_def job_typed_def nth_append less_Suc_eq)
    from notificarMap_defined [OF this, of "length (jb_maps job)"] show ?thesis
      by (simp add: mapPlanning_def add_map_def sel Some kb Let_def CreateMap_def name [simplified] del: not_None_eq)
  qed
qed

lemma mapResult_defined:
  assumes "typed job w" and "mapResult r = Some (ok, i)" and "unat i < length (jb_maps job)"
  shows "desserializeMapResult E r job w \<noteq> None"
proof -
  have "isMap (jb_maps job ! unat i) i" using assms(1,3) by (simp add: typed_def job_typed_def isMap_def)
  then have "find_index (\<lambda>m. isMap m i) (jb_maps job) \<noteq> None" using assms(3) by (auto simp: find_index_None)
  then obtain k where k: "find_index (\<lambda>m. isMap m i) (jb_maps job) = Some k" by auto
  let ?m = "jb_maps job ! k"
  have m: "mp_nodeName ?m \<in> node_names (ma_nodes w)" using typed_nth [OF assms(1)] find_index_Some [OF k] by (simp add: map_typed_def)
  then obtain w1 where w1: "removeMapNode E ?m w = Some w1" using update_node_defined by (fastforce simp: removeMapNode_def)
  have "mp_nodeName ?m \<in> node_names (ma_nodes w1)"
    using m removeMapNode_keeps [OF w1] grows_names by (auto simp: keeps_nodes_def)
  then have "deactivateNode E (mp_nodeName ?m) w1 \<noteq> None" unfolding deactivateNode_def by (rule update_node_defined)
  then obtain w2 where "deactivateNode E (mp_nodeName ?m) w1 = Some w2" by auto
  then show ?thesis by (simp add: desserializeMapResult_def assms(2) k w1 Let_def)
qed

text \<open>The reduces.\<close>

lemma notificarReduce_defined:
  assumes job: "typed job w" and r: "reduce_typed (ma_nodes w) reduce" and final: "rd_finalNode reduce \<noteq> None"
  shows "notificarReduce E job reduce w \<noteq> None"
proof -
  obtain name where name: "rd_finalNode reduce = Some name" "name \<in> node_names (ma_nodes w)" using r final by (auto simp: reduce_typed_def)
  obtain w1 where w1: "update_node E name (\<lambda>node. node\<lparr>tn_reduces := tn_reduces node + 1\<rparr>) w = Some w1"
    using update_node_defined [OF name(2)] by blast
  obtain ip where ip: "rd_nodeIP reduce = Some ip" using r name(1) by (auto simp: reduce_typed_def)
  obtain p where p: "reduce_order_bytes reduce = Some p" using ip by (simp add: reduce_order_bytes_def)
  obtain status w2 where send: "ma_send E (jb_socket job) p w1 = (status, w2)" by (cases "ma_send E (jb_socket job) p w1")
  have "keeps_nodes E w w1" using w1 by (rule update_node_keeps) simp
  moreover have "ma_nodes w2 = ma_nodes w1" using ma_send_nodes [of E "jb_socket job" p w1] send by simp
  ultimately have job2: "typed job w2" using job typed_keeps keeps_trans keeps_eq by blast
  show ?thesis by (simp add: notificarReduce_def name(1) w1 serializeReduceToOrder_def p send exit_defined [OF job2] del: not_None_eq)
qed

lemma name_typed_fits: "name60_typed name \<Longrightarrow> name_fits name"
proof -
  assume "name60_typed name"
  then have len: "length name = 60" and nul: "0 \<in> set name" by (simp_all add: name60_typed_def)
  have "length (takeWhile (\<lambda>b. b \<noteq> 0) name) \<noteq> length name"
    using nul takeWhile_eq_all_conv [of "\<lambda>b. b \<noteq> 0" name] takeWhile_eq_take [of "\<lambda>b. b \<noteq> 0" name] by (metis take_all order_refl)
  moreover have "length (takeWhile (\<lambda>b. b \<noteq> 0) name) \<le> length name" by (rule length_takeWhile_le)
  ultimately show "name_fits name" using len by (simp add: name_fits_def cstr_def)
qed

lemma mapToTemporal_defined: "map_typed E nodes m \<Longrightarrow> mapToTemporal m \<noteq> None"
  using CreateTemp_ok [OF name_typed_fits] by (simp add: mapToTemporal_def map_typed_def)

lemma reduceToTemporal_defined: "partial_typed nodes r \<Longrightarrow> reduceToTemporal r \<noteq> None"
  using CreateTemp_ok [OF name_typed_fits] by (auto simp: reduceToTemporal_def partial_typed_def reduce_typed_def)

lemma final_defined:
  assumes "typed job w" and "clock_ok E" and "unat (jb_id job) < 1000" and k: "k < length (ma_nodes w)" and "\<forall>t \<in> set temps. temp_typed (ma_nodes w) t"
  obtains reduce where "setFinalReduce E (jb_finalReduce job) (tn_name (ma_nodes w ! k)) ip port (jb_id job) (ma_net w) = Some reduce"
    and "notificarReduce E (job\<lparr>jb_finalReduce := reduce\<lparr>rd_temps := rd_temps reduce @ temps, rd_done := False\<rparr>\<rparr>)
      (reduce\<lparr>rd_temps := rd_temps reduce @ temps, rd_done := False\<rparr>) w \<noteq> None"
proof -
  have "length (rd_tempResultName (jb_finalReduce job)) = 60" using assms(1) by (simp add: typed_def job_typed_def reduce_typed_def name60_typed_def)
  then obtain name where "setTempReduceName E (rd_tempResultName (jb_finalReduce job)) 0 (jb_id job) (ma_net w) = Some name"
    using setTempReduceName_defined [OF assms(2) _ _ assms(3), of "rd_tempResultName (jb_finalReduce job)" 0 "ma_net w"] by fastforce
  then obtain reduce where reduce: "setFinalReduce E (jb_finalReduce job) (tn_name (ma_nodes w ! k)) ip port (jb_id job) (ma_net w) = Some reduce"
    and final: "rd_finalNode reduce \<noteq> None" by (simp add: setFinalReduce_def)
  have "kept job (job\<lparr>jb_finalReduce := reduce\<lparr>rd_temps := rd_temps reduce @ temps, rd_done := False\<rparr>\<rparr>) w"
    by (rule final_typed [OF assms(1) k assms(5) reduce])
  then have "notificarReduce E (job\<lparr>jb_finalReduce := reduce\<lparr>rd_temps := rd_temps reduce @ temps, rd_done := False\<rparr>\<rparr>)
      (reduce\<lparr>rd_temps := rd_temps reduce @ temps, rd_done := False\<rparr>) w \<noteq> None"
    using final by (intro notificarReduce_defined) (simp_all add: kept_def typed_def job_typed_def)
  with reduce show thesis by (rule that)
qed

lemma noCombiner_order_defined:
  assumes job: "typed job w" and "clock_ok E" and "unat (jb_id job) < 1000"
  shows "noCombiner_order E job w \<noteq> None"
proof -
  have maps: "\<forall>m \<in> set (jb_maps job). \<exists>k. findNode E (ma_nodes w) (mp_nodeName m) = Some k \<and> tn_name (ma_nodes w ! k) = mp_nodeName m"
    using job by (auto simp: typed_def job_typed_def map_typed_def elim: findNode_name)
  have "counts_ok E (ma_nodes w) [] []" by (simp add: counts_ok_def)
  from counts_fold_ok [OF maps this] obtain counts where
    counts: "fold_opt (countTemporals E (ma_nodes w)) (jb_maps job) [] = Some counts" "counts_ok E (ma_nodes w) (jb_maps job) counts" by auto
  then obtain ks where "map fst counts = map Some ks" by (auto simp: counts_ok_def)
  then have "fst ` set counts = Some ` set ks" by (metis list.set_map)
  then have "\<forall>e \<in> set counts. \<exists>k. fst e = Some k" by blast
  then obtain sel where "fold_opt (selectMoreTempsNode (ma_nodes w)) counts None = Some sel"
    using selectMoreTemps_fold [of counts "ma_nodes w" "[]" None] by (auto simp: best_count_def)
  then have sel: "select_for_reduce E (ma_nodes w) (jb_maps job) = Some sel" by (simp add: select_for_reduce_def counts(1))
  have "\<forall>m \<in> set (jb_maps job). mapToTemporal m \<noteq> None" using job mapToTemporal_defined by (auto simp: typed_def job_typed_def)
  then obtain temps where temps: "map_all mapToTemporal (jb_maps job) = Some temps" using map_all_total by blast
  have typed_temps: "\<forall>t \<in> set temps. temp_typed (ma_nodes w) t"
    by (rule map_all_typed [OF temps], erule mapToTemporal_typed) (use job in \<open>simp add: typed_def job_typed_def map_typed_def\<close>)
  show ?thesis
  proof (cases sel)
    case None
    then show ?thesis by (simp add: noCombiner_order_def sel notif_defined [OF job] del: not_None_eq)
  next
    case (Some kn)
    obtain k n where kn: "kn = (k, n)" by (cases kn)
    have k: "k < length (ma_nodes w)" using select_for_reduce_in sel Some kn by simp
    let ?node = "ma_nodes w ! k"
    obtain reduce where reduce: "setFinalReduce E (jb_finalReduce job) (tn_name ?node) (tn_ip ?node) (word_of_int (tn_port ?node)) (jb_id job) (ma_net w) = Some reduce"
      and order: "notificarReduce E (job\<lparr>jb_finalReduce := reduce\<lparr>rd_temps := rd_temps reduce @ temps, rd_done := False\<rparr>\<rparr>)
        (reduce\<lparr>rd_temps := rd_temps reduce @ temps, rd_done := False\<rparr>) w \<noteq> None"
      by (rule final_defined [OF assms k typed_temps])
    then show ?thesis by (auto simp: noCombiner_order_def sel Some kn Let_def temps case_prod_unfold)
  qed
qed

lemma combinerFinal_defined:
  assumes job: "typed job w" and "clock_ok E" and "unat (jb_id job) < 1000"
    and active: "r \<in> set (jb_partialReduces job)" "rd_finalNode r = Some name" "findNode E (ma_nodes w) name = Some j" "isActive (ma_nodes w ! j)"
  shows "combinerFinalReducePlanning E job w \<noteq> None"
proof -
  have parts: "\<forall>r \<in> set (jb_partialReduces job). partial_typed (ma_nodes w) r" using job by (simp add: typed_def job_typed_def)
  have "\<forall>r \<in> set (jb_partialReduces job). partial_ok E (ma_nodes w) r"
    using parts name_typed_fits findNode_names by (fastforce simp: partial_typed_def reduce_typed_def partial_ok_def)
  then obtain sel where sel: "fold_opt (searchNode E (ma_nodes w)) (jb_partialReduces job) None = Some (map_option fst sel)"
    "best_copy E (ma_nodes w) (map as_copy (jb_partialReduces job)) sel" by (rule search_best)
  have "as_copy r \<in> set (map as_copy (jb_partialReduces job))" "findNode E (ma_nodes w) (cp_nodeName (as_copy r)) = Some j"
    using active imageI [OF active(1), of as_copy] by (simp_all add: as_copy_def CreateCopy_def)
  then obtain i b where sel': "sel = Some (i, b)" using best_copy_active [OF sel(2) _ _ active(4)] by blast
  then have k: "i < length (ma_nodes w)" using searchNode_in sel(1) by simp
  have "\<forall>r \<in> set (jb_partialReduces job). reduceToTemporal r \<noteq> None" using parts reduceToTemporal_defined by blast
  then obtain temps where temps: "map_all reduceToTemporal (jb_partialReduces job) = Some temps" using map_all_total by blast
  have typed_temps: "\<forall>t \<in> set temps. temp_typed (ma_nodes w) t"
    by (rule map_all_typed [OF temps], erule reduceToTemporal_typed) (use parts in \<open>simp add: partial_typed_def\<close>)
  let ?node = "ma_nodes w ! i"
  obtain reduce where "setFinalReduce E (jb_finalReduce job) (tn_name ?node) (tn_ip ?node) (word_of_int (tn_port ?node)) (jb_id job) (ma_net w) = Some reduce"
    and "notificarReduce E (job\<lparr>jb_finalReduce := reduce\<lparr>rd_temps := rd_temps reduce @ temps, rd_done := False\<rparr>\<rparr>)
        (reduce\<lparr>rd_temps := rd_temps reduce @ temps, rd_done := False\<rparr>) w \<noteq> None"
    by (rule final_defined [OF job assms(2,3) k typed_temps])
  then show ?thesis by (auto simp: combinerFinalReducePlanning_def sel(1) sel' Let_def temps case_prod_unfold)
qed

lemma agregar_all_defined:
  assumes "clock_ok E" and "unat jobID < 1000" and "\<forall>m \<in> set maps. map_typed E nodes m" and "length reduces + length maps < 1000"
  shows "fold_opt (agregarAPartialReduces E jobID n) maps reduces \<noteq> None"
  using assms(3,4)
proof (induction maps arbitrary: reduces)
  case (Cons m maps)
  obtain t where t: "mapToTemporal m = Some t" using mapToTemporal_defined Cons.prems(1) by fastforce
  have "\<exists>reduces'. agregarAPartialReduces E jobID n m reduces = Some reduces' \<and> length reduces' \<le> length reduces + 1"
  proof (cases "find_index (\<lambda>rd. rd_finalNode rd = Some (mp_nodeName m)) reduces")
    case None
    have "unat (word_of_nat (length reduces + 1) :: u16) < 1000" using Cons.prems(2) by (simp add: unat_of_nat take_bit_eq_mod del: of_nat_add of_nat_Suc)
    then have "setTempReduceName E (replicate 60 0) (word_of_nat (length reduces + 1)) jobID n \<noteq> None"
      using assms(1,2) by (intro setTempReduceName_defined) simp_all
    then obtain name where "setTempReduceName E (replicate 60 0) (word_of_nat (length reduces + 1)) jobID n = Some name" by blast
    then show ?thesis using None t by (simp add: agregarAPartialReduces_def CreateReduce_def del: of_nat_add of_nat_Suc)
  qed (simp add: agregarAPartialReduces_def t)
  then obtain reduces' where one: "agregarAPartialReduces E jobID n m reduces = Some reduces'" "length reduces' \<le> length reduces + 1" by blast
  have "fold_opt (agregarAPartialReduces E jobID n) maps reduces' \<noteq> None" using Cons.prems one(2) by (intro Cons.IH) simp_all
  then show ?case using one(1) by simp
qed simp

lemma notificar_all_defined:
  assumes "typed job w" and "\<forall>r \<in> set reduces. partial_typed (ma_nodes w) r"
  shows "notificar_all E job reduces w \<noteq> None"
  using assms
proof (induction reduces arbitrary: w)
  case (Cons r reduces)
  obtain q w1 where one: "notificarReduce E job r w = Some (q, w1)"
    using notificarReduce_defined [OF Cons.prems(1), of r] Cons.prems(2) by (auto simp: partial_typed_def)
  have keep: "keeps_nodes E w w1" using notificarReduce_typed [of w job r] one by simp
  have "\<forall>r \<in> set reduces. partial_typed (ma_nodes w1) r"
    using Cons.prems(2) keep reduce_grows unfolding keeps_nodes_def partial_typed_def by fastforce
  then have "notificar_all E job reduces w1 \<noteq> None" using Cons.IH typed_keeps [OF keep Cons.prems(1)] by blast
  then show ?case using one by (cases q) simp_all
qed simp

lemma combinerPartials_defined:
  assumes job: "typed job w" and "clock_ok E" and "unat (jb_id job) < 1000" and "length (jb_partialReduces job) + length (jb_maps job) < 1000"
  shows "combinerPartialsReducePlanning E job w \<noteq> None"
proof -
  have "\<forall>m \<in> set (jb_maps job). map_typed E (ma_nodes w) m" using job by (simp add: typed_def job_typed_def)
  from agregar_all_defined [OF assms(2,3) this assms(4)] obtain reduces where
    reduces: "fold_opt (agregarAPartialReduces E (jb_id job) (ma_net w)) (jb_maps job) (jb_partialReduces job) = Some reduces" by blast
  let ?reduces = "map (\<lambda>rd. rd\<lparr>rd_done := False\<rparr>) reduces"
  have "\<forall>r \<in> set reduces. partial_typed (ma_nodes w) r"
    by (rule fold_opt_inv [OF reduces, where I = "\<lambda>rs. \<forall>r \<in> set rs. partial_typed (ma_nodes w) r"])
      (use job in \<open>auto simp: typed_def job_typed_def intro: agregar_typed [rule_format]\<close>)
  then have parts: "\<forall>r \<in> set ?reduces. partial_typed (ma_nodes w) r" by (simp add: partial_typed_def reduce_typed_def)
  then have "typed (job\<lparr>jb_partialReduces := ?reduces\<rparr>) w" using job by (simp add: typed_def job_typed_def)
  from notificar_all_defined [OF this parts] show ?thesis
    by (auto simp: combinerPartialsReducePlanning_def reduces case_prod_unfold Let_def)
qed

end

interpretation planner_demo: planner "marta_demo_env le"
  by (simp add: planner_def marta_env_commons.commons_laws_axioms)

text \<open>C16. The types of MaRTA are kept. The list of nodes never loses a node, never renames one and never
  has two that a name could mean, through everything that a job's thread and the listener do; a
  new job conforms to any such list; and when the maps or the reduces of a conforming job have
  been carried out, with every wait, failure and new plan there was, the job conforms to the
  list as it is then: each copy, map, reduce and temporary file names a node of the list, each
  name of 60 bytes ends inside them, and each map has its position as number.\<close>

theorem marta_keeps_types:
  assumes "commons_laws E" and "nodes_typed E (ma_nodes w)"
  shows "(listenJobs E s w = Some (q, w1) \<longrightarrow> nodes_typed E (ma_nodes w1) \<and> grows (ma_nodes w) (ma_nodes w1)) \<and>
    job_typed E (ma_nodes w) ((CreateJob i combiner result)\<lparr>jb_files := stringsToPathFile E paths\<rparr>) \<and>
    (job_typed E (ma_nodes w) job \<longrightarrow>
     r \<in> {planMaps E job w, noCombinerReducePlanning E job w, combinerReducePlanning E job w} \<longrightarrow> r = Some (Some job', w2) \<longrightarrow>
       job_typed E (ma_nodes w2) job' \<and> nodes_typed E (ma_nodes w2) \<and> grows (ma_nodes w) (ma_nodes w2))"
proof -
  have p: "planner E" using assms(1) by (simp add: planner_def)
  have listen: "nodes_typed E (ma_nodes w1) \<and> grows (ma_nodes w) (ma_nodes w1)" if "listenJobs E s w = Some (q, w1)"
    using planner.listenJobs_typed [OF p assms(2), of s] that assms(2) by (simp add: keeps_nodes_def)
  have job: "job_typed E (ma_nodes w2) job' \<and> nodes_typed E (ma_nodes w2) \<and> grows (ma_nodes w) (ma_nodes w2)"
    if a: "job_typed E (ma_nodes w) job" and r: "r \<in> {planMaps E job w, noCombinerReducePlanning E job w, combinerReducePlanning E job w}"
      and res: "r = Some (Some job', w2)"
  proof -
    have typed: "planner.typed E job w" using a assms(2) by (simp add: planner.typed_def [OF p])
    have "thread_typed E w r (planner.typed E)"
      using r planner.planMaps_typed [OF p typed] planner.noCombinerReducePlanning_typed [OF p typed]
        planner.combinerReducePlanning_typed [OF p typed] by (auto elim!: thread_mono simp: planner.kept_def [OF p])
    then show ?thesis by (simp add: res keeps_nodes_def planner.typed_def [OF p])
  qed
  show ?thesis using listen job planner.new_job_typed [OF p assms(2)] by (simp add: planner.typed_def [OF p])
qed

text \<open>The job of the witnesses: one map on the node n1, whose block n2 has too; and the nodes, with the
  result of the map to be received.\<close>

definition typed_job :: t_job where
  "typed_job = (CreateJob 1 False ''r'')\<lparr>jb_socket := 5,
     jb_maps := [(demo_result 0 ''n1'')\<lparr>mp_copies := [CreateCopy ''n1'' 0, CreateCopy ''n2'' 3]\<rparr>]\<rparr>"

definition answered :: "chunk_net marta" where
  "answered = marta_demo\<lparr>ma_net := ((\<lambda>_. [])(5 := packet_bytes [COMMAND_MAP, 1, 0, 0]), (\<lambda>_. []))\<rparr>"

lemma demo_typed:
  "nodes_typed (marta_demo_env True) (ma_nodes marta_demo)" "job_typed (marta_demo_env True) (ma_nodes marta_demo) typed_job"
proof -
  have names: "node_names (ma_nodes marta_demo) = {''n1'', ''n2''}" by (auto simp: node_names_def marta_demo_def CreateNode_def)
  have "k = 0 \<or> k = 1" if "k < length (ma_nodes marta_demo)" for k using that by (auto simp: marta_demo_def)
  then show "nodes_typed (marta_demo_env True) (ma_nodes marta_demo)"
    using demo_find by (fastforce simp: nodes_typed_def marta_demo_def CreateNode_def)
  show "job_typed (marta_demo_env True) (ma_nodes marta_demo) typed_job"
    using demo_find by (simp add: job_typed_def typed_job_def CreateJob_def map_typed_def demo_result_def names name60_typed_def
        copy_typed_def CreateCopy_def initReduce_def reduce_typed_def)
qed

lemma answered_run:
  "\<exists>w'. planMaps (marta_demo_env True) typed_job answered =
    Some (Some (typed_job\<lparr>jb_maps := [(jb_maps typed_job ! 0)\<lparr>mp_done := True\<rparr>], jb_mapsDone := 1\<rparr>), w')"
proof -
  let ?E = "marta_demo_env True" and ?p = "[COMMAND_MAP, 1, 0, 0] :: byte list"
  let ?job = "typed_job\<lparr>jb_maps := [(jb_maps typed_job ! 0)\<lparr>mp_done := True\<rparr>], jb_mapsDone := 1\<rparr>"
  have "fst (ma_net answered) 5 = packet_bytes ?p @ []" "packet_ok ?p" by (simp_all add: answered_def packet_ok_def)
  from chunk.recv_packet_reliable [OF this, of True 0] obtain n' where
    "socket_recv_packet (chunk_os True) 5 0 (ma_net answered) = (SOCKET_ERROR_NONE, Some ?p, word_of_nat (length ?p), n')" by auto
  then have recv: "ma_recv ?E 5 answered = (SOCKET_ERROR_NONE, Some ?p, answered\<lparr>ma_net := n'\<rparr>)"
    by (simp add: ma_recv_def marta_demo_env_def)
  have m: "jb_socket typed_job = 5" "jb_maps typed_job = [(demo_result 0 ''n1'')\<lparr>mp_copies := [CreateCopy ''n1'' 0, CreateCopy ''n2'' 3]\<rparr>]"
    "jb_mapsDone typed_job = 0" "jb_files typed_job = []" "typed_job\<lparr>jb_files := []\<rparr> = typed_job" by (simp_all add: typed_job_def CreateJob_def)
  have find: "findNode ?E (ma_nodes answered) ''n1'' = Some 0" using demo_find by (simp add: answered_def)
  have "mapResult [1, 0, 0] = Some (True, 0)" by (simp add: mapResult_def get_u8_def get_u16_def get_bytes_def of_be_def numeral_2_eq_2)
  moreover have "find_index (\<lambda>m. isMap m 0) (jb_maps typed_job) = Some 0" by (simp add: find_index_def m isMap_def demo_result_def)
  ultimately obtain w1 where one: "desserializeMapResult ?E [1, 0, 0] typed_job (answered\<lparr>ma_net := n'\<rparr>) = Some (None, ?job, w1)"
    using find by (simp add: desserializeMapResult_def m removeMapNode_def update_node_def demo_result_def)
  have "recvResult ?E typed_job answered = Some (Some (None, ?job), w1)"
    by (subst recvResult.simps) (simp add: m(1) recv get_u8_def one)
  then show ?thesis by (simp add: planMaps_def m)
qed

theorem marta_keeps_types_witness:
  "\<exists>job' w'. planMaps (marta_demo_env True) typed_job answered = Some (Some job', w') \<and> jb_mapsDone job' = 1 \<and>
     job_typed (marta_demo_env True) (ma_nodes w') job'"
proof -
  obtain w' where run: "planMaps (marta_demo_env True) typed_job answered =
    Some (Some (typed_job\<lparr>jb_maps := [(jb_maps typed_job ! 0)\<lparr>mp_done := True\<rparr>], jb_mapsDone := 1\<rparr>), w')" using answered_run by blast
  have nodes: "ma_nodes answered = ma_nodes marta_demo" by (simp add: answered_def)
  have "job_typed (marta_demo_env True) (ma_nodes w') (typed_job\<lparr>jb_maps := [(jb_maps typed_job ! 0)\<lparr>mp_done := True\<rparr>], jb_mapsDone := 1\<rparr>)"
    using marta_keeps_types [OF marta_env_commons.commons_laws_axioms demo_typed(1) [folded nodes], THEN conjunct2, THEN conjunct2,
        THEN mp, OF demo_typed(2) [folded nodes], THEN mp, OF insertI1, THEN mp, OF run] by blast
  with run show ?thesis by auto
qed



end
