(* ===== verification/Marta_Jobs.thy ===== *)
theory Marta_Jobs
  imports Marta_Types
begin

text \<open>
  Several jobs of MaRTA at once. Every job has a thread (\<open>acceptJob\<close>); the threads share the list
  of nodes and the number of jobs. A step is what one thread does between two places where it
  waits or releases a mutex: counting and reading the number are two steps, and so are the
  choice of a node for a map, which is made under the mutex of the nodes, and the rest of its
  plan, which is not. Lemmas: every interleaving keeps the types of the nodes and of every job;
  two jobs can get one number; and what a job takes off the nodes' work when it ends.
\<close>

section \<open>The steps of the threads\<close>

text \<open>Where a thread is; a job that runs is with it.\<close>

datatype job_pc =
    Arrived int
  | Counted int
  | Numbered int u16
  | Running t_job
  | Chosen t_job "t_copy list" nat u16
  | Ended

type_synonym 'n jobs = "'n marta \<times> (nat \<Rightarrow> job_pc)"

inductive job_step :: "('n, 'z) marta_env_scheme \<Rightarrow> 'n jobs \<Rightarrow> 'n jobs \<Rightarrow> bool" for E where
  Count: "ts t = Arrived s \<Longrightarrow> job_step E (w, ts) (w\<lparr>ma_cantJobs := ma_cantJobs w + 1\<rparr>, ts(t := Counted s))"
| Number: "ts t = Counted s \<Longrightarrow> job_step E (w, ts) (w, ts(t := Numbered s (ma_cantJobs w)))"
| Receive: "ts t = Numbered s i \<Longrightarrow> desserializeJob E s i w = Some (job, w1) \<Longrightarrow>
    job_step E (w, ts) (w1, ts(t := Running (job\<lparr>jb_socket := s\<rparr>)))"
| Ask: "ts t = Running job \<Longrightarrow> k < length (jb_files job) \<Longrightarrow> requestFileBlocks E (jb_files job ! k) w = Some (ok, fi, w1) \<Longrightarrow>
    job_step E (w, ts) (w1, ts(t := Running (job\<lparr>jb_files := (jb_files job)[k := fi]\<rparr>)))"
| Choose: "ts t = Running job \<Longrightarrow> copies \<in> set (concat (map tf_blocks (jb_files job))) \<Longrightarrow>
    select_for_map E (ma_nodes w) copies = Some (Some (k, b)) \<Longrightarrow> job_step E (w, ts) (w, ts(t := Chosen job copies k b))"
| Unavailable: "ts t = Running job \<Longrightarrow> fold_opt (removeMapNode E) (jb_maps job) w = Some w1 \<Longrightarrow> job_step E (w, ts) (w1, ts)"
| Add: "ts t = Chosen job copies k b \<Longrightarrow> add_map E copies k b job w = Some (Some job1, w1) \<Longrightarrow>
    job_step E (w, ts) (w1, ts(t := Running job1))"
| MapResult: "ts t = Running job \<Longrightarrow> desserializeMapResult E r job w = Some (failed, job1, w1) \<Longrightarrow>
    job_step E (w, ts) (w1, ts(t := Running job1))"
| RePlan: "ts t = Running job \<Longrightarrow> k < length (jb_maps job) \<Longrightarrow> rePlan_order E k job w = Some (Some (again, job1), w1) \<Longrightarrow>
    job_step E (w, ts) (w1, ts(t := Running job1))"
| Order: "ts t = Running job \<Longrightarrow> noCombiner_order E job w = Some (Some job1, w1) \<Longrightarrow> job_step E (w, ts) (w1, ts(t := Running job1))"
| Partials: "ts t = Running job \<Longrightarrow> combinerPartialsReducePlanning E job w = Some (Some job1, w1) \<Longrightarrow>
    job_step E (w, ts) (w1, ts(t := Running job1))"
| Final: "ts t = Running job \<Longrightarrow> combinerFinalReducePlanning E job w = Some (Some job1, w1) \<Longrightarrow>
    job_step E (w, ts) (w1, ts(t := Running job1))"
| ReduceResult: "ts t = Running job \<Longrightarrow> desserializaReduceResult E r job w = Some (fallen, job1, w1) \<Longrightarrow>
    job_step E (w, ts) (w1, ts(t := Running job1))"
| StartOver: "ts t = Running job \<Longrightarrow>
    job_step E (w, ts) (w, ts(t := Running (job\<lparr>jb_partialReduces := [], jb_finalReduce := (jb_finalReduce job)\<lparr>rd_temps := []\<rparr>\<rparr>)))"
| StartAgain: "ts t = Running job \<Longrightarrow>
    job_step E (w, ts) (w, ts(t := Running (job\<lparr>jb_finalReduce := (jb_finalReduce job)\<lparr>rd_temps := [], rd_finalNode := None, rd_nodeIP := None\<rparr>\<rparr>)))"
| Finish: "ts t = Running job \<Longrightarrow> freeJob E job w = Some w1 \<Longrightarrow> job_step E (w, ts) (w1, ts(t := Ended))"

section \<open>Every interleaving keeps the types\<close>

definition pc_typed :: "'z commons_scheme \<Rightarrow> t_node list \<Rightarrow> job_pc \<Rightarrow> bool" where
  "pc_typed E nodes pc \<longleftrightarrow>
     (case pc of
        Running job \<Rightarrow> job_typed E nodes job
      | Chosen job copies k b \<Rightarrow> job_typed E nodes job \<and> k < length nodes \<and> (\<forall>c \<in> set copies. copy_typed E nodes c)
      | _ \<Rightarrow> True)"

definition jobs_typed :: "'z commons_scheme \<Rightarrow> t_node list \<Rightarrow> 'n jobs \<Rightarrow> bool" where
  "jobs_typed E nodes0 s \<longleftrightarrow> grows nodes0 (ma_nodes (fst s)) \<and> nodes_typed E (ma_nodes (fst s)) \<and> (\<forall>t. pc_typed E (ma_nodes (fst s)) (snd s t))"

lemma pc_grows: "grows nodes nodes' \<Longrightarrow> pc_typed E nodes pc \<Longrightarrow> pc_typed E nodes' pc"
  using job_grows copy_grows grows_nth by (fastforce simp: pc_typed_def split: job_pc.splits)

text \<open>What one thread does is harmless for the others.\<close>

lemma jobs_typed_step:
  assumes "jobs_typed E nodes0 (w, ts)" and "keeps_nodes E w w1" and "pc_typed E (ma_nodes w1) pc"
  shows "jobs_typed E nodes0 (w1, ts(t := pc))"
proof -
  have "grows (ma_nodes w) (ma_nodes w1)" "nodes_typed E (ma_nodes w1)" using assms(1,2) by (simp_all add: jobs_typed_def keeps_nodes_def)
  then show ?thesis using assms(1,3) pc_grows [of "ma_nodes w" "ma_nodes w1" E] grows_trans [of nodes0 "ma_nodes w" "ma_nodes w1"]
    by (simp add: jobs_typed_def)
qed

context planner begin

lemma running_typed:
  assumes "jobs_typed E nodes0 (w, ts)" and "ts t = Running job" shows "typed job w"
proof -
  have "pc_typed E (ma_nodes w) (ts t)" "nodes_typed E (ma_nodes w)" using assms(1) by (simp_all add: jobs_typed_def)
  then show ?thesis by (simp add: assms(2) pc_typed_def typed_def)
qed

lemma to_running:
  assumes "jobs_typed E nodes0 (w, ts)" and "keeps_nodes E w w1" and "typed job w1"
  shows "jobs_typed E nodes0 (w1, ts(t := Running job))"
  using jobs_typed_step [OF assms(1,2), of "Running job"] assms(3) by (simp add: pc_typed_def typed_def)

lemma thread_running:
  assumes "jobs_typed E nodes0 (w, ts)" and "thread_typed E w (Some (Some x, w1)) (\<lambda>x w. typed (f x) w)"
  shows "jobs_typed E nodes0 (w1, ts(t := Running (f x)))"
  using assms by (auto intro: to_running)

lemma job_step_typed: "job_step E s s' \<Longrightarrow> jobs_typed E nodes0 s \<Longrightarrow> jobs_typed E nodes0 s'"
proof (induction rule: job_step.induct)
  case (Count ts t s w)
  show ?case by (rule jobs_typed_step [OF Count.prems]) (simp_all add: keeps_eq pc_typed_def)
next
  case (Number ts t s w)
  show ?case by (rule jobs_typed_step [OF Number.prems]) (simp_all add: pc_typed_def)
next
  case (Receive ts t s i w job w1)
  have "nodes_typed E (ma_nodes w)" using Receive.prems by (simp add: jobs_typed_def)
  from desserializeJob_typed [OF Receive.hyps(2) this] show ?case using to_running [OF Receive.prems] typed_socket by blast
next
  case (Ask ts t job k w ok fi w1)
  note job = running_typed [OF Ask.prems Ask.hyps(1)]
  then have "file_typed E (ma_nodes w) (jb_files job ! k)" using Ask.hyps(2) by (simp add: typed_def job_typed_def)
  from requestFileBlocks_typed [OF this Ask.hyps(3)] have r: "keeps_nodes E w w1" "file_typed E (ma_nodes w1) fi" by simp_all
  have "typed (job\<lparr>jb_files := (jb_files job)[k := fi]\<rparr>) w1"
    using typed_keeps [OF r(1) job] r(2) by (auto simp: typed_def job_typed_def dest: set_update_subset_insert [THEN subsetD])
  then show ?case by (rule to_running [OF Ask.prems r(1)])
next
  case (Choose ts t job copies w k b)
  note job = running_typed [OF Choose.prems Choose.hyps(1)]
  have copies: "\<forall>c \<in> set copies. copy_typed E (ma_nodes w) c"
    using job Choose.hyps(2) by (auto simp: typed_def job_typed_def file_typed_def)
  show ?case by (rule jobs_typed_step [OF Choose.prems])
    (use job copies select_in [OF copies Choose.hyps(3)] in \<open>simp_all add: pc_typed_def typed_def\<close>)
next
  case (Unavailable ts t job w w1)
  have "jobs_typed E nodes0 (w1, ts(t := Running job))"
    by (rule to_running [OF Unavailable.prems])
      (use remove_maps_keeps [OF Unavailable.hyps(2)] typed_keeps running_typed [OF Unavailable.prems Unavailable.hyps(1)] in auto)
  then show ?case using Unavailable.hyps(1) by (simp add: fun_upd_idem)
next
  case (Add ts t job copies k b w job1 w1)
  have pc: "job_typed E (ma_nodes w) job" "k < length (ma_nodes w)" "\<forall>c \<in> set copies. copy_typed E (ma_nodes w) c" "nodes_typed E (ma_nodes w)"
    using Add.prems Add.hyps(1) unfolding jobs_typed_def pc_typed_def by (auto dest!: spec [of _ t])
  from add_map_typed [OF _ pc(2,3), of job b] pc(1,4) Add.hyps(2) show ?case
    using thread_running [OF Add.prems, of job1 w1 "\<lambda>x. x"] by (simp add: typed_def)
next
  case (MapResult ts t job r w failed job1 w1)
  from desserializeMapResult_typed [OF running_typed [OF MapResult.prems MapResult.hyps(1)] MapResult.hyps(2)]
  show ?case using to_running [OF MapResult.prems] by (simp add: kept_def)
next
  case (RePlan ts t job k w again job1 w1)
  from rePlan_order_typed [OF running_typed [OF RePlan.prems RePlan.hyps(1)] RePlan.hyps(2)] RePlan.hyps(3)
  show ?case using to_running [OF RePlan.prems] by (simp add: kept_def)
next
  case (Order ts t job w job1 w1)
  from noCombiner_order_typed [OF running_typed [OF Order.prems Order.hyps(1)]] Order.hyps(2)
  show ?case using to_running [OF Order.prems] by (simp add: kept_def)
next
  case (Partials ts t job w job1 w1)
  from combinerPartials_typed [OF running_typed [OF Partials.prems Partials.hyps(1)]] Partials.hyps(2)
  show ?case using to_running [OF Partials.prems] by (simp add: kept_def)
next
  case (Final ts t job w job1 w1)
  from combinerFinal_typed [OF running_typed [OF Final.prems Final.hyps(1)]] Final.hyps(2)
  show ?case using to_running [OF Final.prems] by (simp add: kept_def)
next
  case (ReduceResult ts t job r w fallen job1 w1)
  from desserializaReduceResult_typed [OF running_typed [OF ReduceResult.prems ReduceResult.hyps(1)] ReduceResult.hyps(2)]
  show ?case using to_running [OF ReduceResult.prems] by (simp add: kept_def)
next
  case (StartOver ts t job w)
  have "kept job job w" using running_typed [OF StartOver.prems StartOver.hyps] by (simp add: kept_refl)
  from forget_final(2) [OF this] show ?case using to_running [OF StartOver.prems keeps_refl] by (simp add: kept_def)
next
  case (StartAgain ts t job w)
  have "kept job job w" using running_typed [OF StartAgain.prems StartAgain.hyps] by (simp add: kept_refl)
  from forget_final(1) [OF this] show ?case using to_running [OF StartAgain.prems keeps_refl] by (simp add: kept_def)
next
  case (Finish ts t job w w1)
  show ?case by (rule jobs_typed_step [OF Finish.prems freeJob_keeps [OF Finish.hyps(2)]]) (simp add: pc_typed_def)
qed

lemma jobs_run_typed: "(job_step E)\<^sup>*\<^sup>* s s' \<Longrightarrow> jobs_typed E nodes0 s \<Longrightarrow> jobs_typed E nodes0 s'"
  by (induction rule: rtranclp_induct) (blast intro: job_step_typed)+

end


text \<open>C20. Two jobs can get one number. Between counting itself and reading the number a thread has
  released the mutex: when another counts in between, both read the same number, although one
  after the other they would have got two. Their maps of one number, when they are planned in one
  second, then write one temporary file.\<close>

theorem two_jobs_one_number:
  assumes "t \<noteq> u" and "ts t = Arrived s" and "ts u = Arrived v"
  shows "(\<exists>ts' c. (job_step E)\<^sup>*\<^sup>* (w, ts) (w\<lparr>ma_cantJobs := c\<rparr>, ts') \<and> ts' t = Numbered s c \<and> ts' u = Numbered v c \<and>
      (CreateMap E k b port name ip c n = Some m \<longrightarrow> CreateMap E k b' port' name' ip' c n = Some m' \<longrightarrow>
        mp_tempResultName m = mp_tempResultName m')) \<and>
    (\<exists>ts' c. (job_step E)\<^sup>*\<^sup>* (w, ts) (w\<lparr>ma_cantJobs := c + 1\<rparr>, ts') \<and> ts' t = Numbered s c \<and> ts' u = Numbered v (c + 1))"
proof -
  let ?c = "ma_cantJobs w"
  let ?w1 = "w\<lparr>ma_cantJobs := ?c + 1\<rparr>" and ?w2 = "w\<lparr>ma_cantJobs := ?c + 1 + 1\<rparr>"
  let ?a = "ts(t := Counted s)" and ?b = "ts(t := Counted s, u := Counted v)"
  have path: "(job_step E)\<^sup>*\<^sup>* s0 s4" if "job_step E s0 s1" "job_step E s1 s2" "job_step E s2 s3" "job_step E s3 s4" for s0 s1 s2 s3 s4
    using that by (meson r_into_rtranclp rtranclp_trans)
  have one: "job_step E (w, ts) (?w1, ?a)" using job_step.Count [of ts t s E w] assms(2) by simp
  have "job_step E (?w1, ?a) (?w2, ?b)" using job_step.Count [of ?a u v E ?w1] assms by simp
  moreover have "job_step E (?w2, ?b) (?w2, ?b(t := Numbered s (?c + 1 + 1)))" using job_step.Number [of ?b t s E ?w2] assms(1) by simp
  moreover have "job_step E (?w2, ?b(t := Numbered s (?c + 1 + 1))) (?w2, ?b(t := Numbered s (?c + 1 + 1), u := Numbered v (?c + 1 + 1)))"
    using job_step.Number [of "?b(t := Numbered s (?c + 1 + 1))" u v E ?w2] assms(1) by simp
  ultimately have same: "(job_step E)\<^sup>*\<^sup>* (w, ts) (?w2, ?b(t := Numbered s (?c + 1 + 1), u := Numbered v (?c + 1 + 1)))" by (rule path [OF one])
  let ?d = "?a(t := Numbered s (?c + 1))"
  have "job_step E (?w1, ?a) (?w1, ?d)" using job_step.Number [of ?a t s E ?w1] by simp
  moreover have "job_step E (?w1, ?d) (?w2, ?d(u := Counted v))" using job_step.Count [of ?d u v E ?w1] assms by simp
  moreover have "job_step E (?w2, ?d(u := Counted v)) (?w2, ?d(u := Counted v, u := Numbered v (?c + 1 + 1)))"
    using job_step.Number [of "?d(u := Counted v)" u v E ?w2] by simp
  ultimately have two: "(job_step E)\<^sup>*\<^sup>* (w, ts) (?w2, ?d(u := Counted v, u := Numbered v (?c + 1 + 1)))" by (rule path [OF one])
  have name_eq: "mp_tempResultName m = mp_tempResultName m'"
    if "CreateMap E k b port name ip c n = Some m" "CreateMap E k b' port' name' ip' c n = Some m'" for c
    using that by (auto simp: CreateMap_def bind_eq_Some_conv)
  have ends: "(?b(t := Numbered s (?c + 1 + 1), u := Numbered v (?c + 1 + 1))) t = Numbered s (?c + 1 + 1)"
    "(?d(u := Counted v, u := Numbered v (?c + 1 + 1))) t = Numbered s (?c + 1)" using assms(1) by simp_all
  show ?thesis
    by (intro conjI exI [of _ "?b(t := Numbered s (?c + 1 + 1), u := Numbered v (?c + 1 + 1))"] exI [of _ "?c + 1 + 1"] same ends impI name_eq
        exI [of _ "?d(u := Counted v, u := Numbered v (?c + 1 + 1))"] exI [of _ "?c + 1"] two) simp_all
qed
section \<open>The work of the nodes when a job ends\<close>

definition works_on :: "t_node list \<Rightarrow> nat \<Rightarrow> u16 \<Rightarrow> nat" where
  "works_on nodes k b = count_list (tn_maps (nodes ! k)) b"

text \<open>The maps of a job that are on the node \<open>k\<close> for its block \<open>b\<close>.\<close>

definition is_at :: "'z commons_scheme \<Rightarrow> t_node list \<Rightarrow> nat \<Rightarrow> u16 \<Rightarrow> t_map \<Rightarrow> bool" where
  "is_at E nodes k b m \<longleftrightarrow> findNode E nodes (mp_nodeName m) = Some k \<and> mp_numBlock m = b"

definition maps_at :: "'z commons_scheme \<Rightarrow> t_node list \<Rightarrow> t_map list \<Rightarrow> nat \<Rightarrow> u16 \<Rightarrow> nat" where
  "maps_at E nodes maps k b = length (filter (is_at E nodes k b) maps)"

lemma count_remove_first: "count_list (remove_first (\<lambda>x. x = b) xs) c = count_list xs c - (if c = b then 1 else 0)"
  by (induction xs) (auto simp: Suc_diff_le count_list_0_iff)

lemma same_findNode:
  assumes "map tn_name nodes' = map tn_name nodes" shows "findNode E nodes' = findNode E nodes"
proof -
  have len: "length nodes' = length nodes" using arg_cong [OF assms, of length] by simp
  have "tn_name (nodes' ! k) = tn_name (nodes ! k)" if "k < length nodes" for k
    using arg_cong [OF assms, of "\<lambda>xs. xs ! k"] that len by simp
  then show ?thesis unfolding findNode_def len by (intro ext find_cong_list) (simp add: nodeByName_def)
qed

lemma removeMapNode_work:
  assumes "removeMapNode E m w = Some w'"
  shows "map tn_name (ma_nodes w') = map tn_name (ma_nodes w) \<and>
    (\<forall>k < length (ma_nodes w). works_on (ma_nodes w') k b = works_on (ma_nodes w) k b - (if is_at E (ma_nodes w) k b m then 1 else 0))"
proof -
  from assms obtain j where j: "findNode E (ma_nodes w) (mp_nodeName m) = Some j"
    and w': "ma_nodes w' = (ma_nodes w)[j := (ma_nodes w ! j)\<lparr>tn_maps := remove_first (\<lambda>b. b = mp_numBlock m) (tn_maps (ma_nodes w ! j))\<rparr>]"
    by (auto simp: removeMapNode_def update_node_def)
  have "j < length (ma_nodes w)" using j by (simp add: findNode_first)
  then show ?thesis using j
    by (auto simp: w' works_on_def is_at_def count_remove_first nth_list_update map_update list_update_same_conv)
qed

lemma remove_maps_work:
  "fold_opt (removeMapNode E) maps w = Some w' \<Longrightarrow> map tn_name (ma_nodes w') = map tn_name (ma_nodes w) \<and>
    (\<forall>k < length (ma_nodes w). works_on (ma_nodes w') k b = works_on (ma_nodes w) k b - maps_at E (ma_nodes w) maps k b)"
proof (induction maps arbitrary: w)
  case (Cons m maps)
  from Cons.prems obtain w1 where 1: "removeMapNode E m w = Some w1" and 2: "fold_opt (removeMapNode E) maps w1 = Some w'"
    by (auto simp: bind_eq_Some_conv)
  note one = removeMapNode_work [OF 1, of b] and rest = Cons.IH [OF 2]
  have len: "length (ma_nodes w1) = length (ma_nodes w)" using one by (metis length_map)
  have "is_at E (ma_nodes w1) k b = is_at E (ma_nodes w) k b" for k
    using same_findNode [of "ma_nodes w1" "ma_nodes w" E] one by (simp add: is_at_def fun_eq_iff)
  then have at_eq: "maps_at E (ma_nodes w1) maps k b = maps_at E (ma_nodes w) maps k b" for k by (simp add: maps_at_def)
  show ?case
  proof (intro conjI allI impI)
    show "map tn_name (ma_nodes w') = map tn_name (ma_nodes w)" using one rest by simp
    fix k assume "k < length (ma_nodes w)"
    then show "works_on (ma_nodes w') k b = works_on (ma_nodes w) k b - maps_at E (ma_nodes w) (m # maps) k b"
      using one rest len at_eq by (simp add: maps_at_def)
  qed
qed (simp add: maps_at_def)

text \<open>The results of a job taken in, all of them good.\<close>

fun take_results :: "('n, 'z) marta_env_scheme \<Rightarrow> byte list list \<Rightarrow> t_job \<Rightarrow> 'n marta \<Rightarrow> (t_job \<times> 'n marta) option" where
  "take_results E [] job w = Some (job, w)"
| "take_results E (r # rs) job w =
     Option.bind (desserializeMapResult E r job w) (\<lambda>(failed, job1, w1). if failed = None then take_results E rs job1 w1 else None)"

lemma good_result:
  assumes "desserializeMapResult E r job w = Some (None, job1, w1)"
  obtains k where "k < length (jb_maps job)" and "mapResult r = Some (True, mp_id (jb_maps job ! k))"
    and "removeMapNode E (jb_maps job ! k) w = Some w1" and "jb_maps job1 = (jb_maps job)[k := (jb_maps job ! k)\<lparr>mp_done := True\<rparr>]"
proof -
  obtain result i where r: "mapResult r = Some (result, i)" using assms by (cases "mapResult r") (auto simp: desserializeMapResult_def)
  obtain k where k: "find_index (\<lambda>m. isMap m i) (jb_maps job) = Some k"
    using assms by (cases "find_index (\<lambda>m. isMap m i) (jb_maps job)") (simp_all add: desserializeMapResult_def r)
  obtain w2 where w2: "removeMapNode E (jb_maps job ! k) w = Some w2"
    using assms by (cases "removeMapNode E (jb_maps job ! k) w") (simp_all add: desserializeMapResult_def r k Let_def)
  have res: "result" "w2 = w1" "jb_maps job1 = (jb_maps job)[k := (jb_maps job ! k)\<lparr>mp_done := True\<rparr>]"
    using assms by (auto simp: desserializeMapResult_def r k w2 Let_def bind_eq_Some_conv split: if_splits)
  have "k < length (jb_maps job)" "mp_id (jb_maps job ! k) = i" using find_index_Some [OF k] by (simp_all add: isMap_def)
  with r w2 res that show thesis by simp
qed
text \<open>The maps but for whether they are done.\<close>

abbreviation undone :: "t_map list \<Rightarrow> t_map list" where
  "undone maps \<equiv> map (\<lambda>m. m\<lparr>mp_done := True\<rparr>) maps"

lemma undone_upd: "k < length maps \<Longrightarrow> undone (maps[k := (maps ! k)\<lparr>mp_done := True\<rparr>]) = undone maps"
  by (simp add: map_update list_update_same_conv)

lemma undone_nth:
  assumes "undone maps = undone maps'" and "k < length maps"
  shows "mp_id (maps ! k) = mp_id (maps' ! k)" and "is_at E nodes j b (maps ! k) = is_at E nodes j b (maps' ! k)"
proof -
  have len: "length maps = length maps'" using arg_cong [OF assms(1), of length] by simp
  then have eq: "(maps ! k)\<lparr>mp_done := True\<rparr> = (maps' ! k)\<lparr>mp_done := True\<rparr>"
    using arg_cong [OF assms(1), of "\<lambda>xs. xs ! k"] assms(2) by simp
  show "mp_id (maps ! k) = mp_id (maps' ! k)" using arg_cong [OF eq, of mp_id] by simp
  show "is_at E nodes j b (maps ! k) = is_at E nodes j b (maps' ! k)"
    using arg_cong [OF eq, of mp_nodeName] arg_cong [OF eq, of mp_numBlock] by (simp add: is_at_def)
qed

lemma take_results_work:
  assumes "take_results E rs job w = Some (job1, w1)"
  shows "undone (jb_maps job1) = undone (jb_maps job) \<and> map tn_name (ma_nodes w1) = map tn_name (ma_nodes w) \<and>
    (\<exists>ks. (\<forall>k \<in> set ks. k < length (jb_maps job)) \<and> map mapResult rs = map (\<lambda>k. Some (True, mp_id (jb_maps job ! k))) ks \<and>
      (\<forall>j < length (ma_nodes w). works_on (ma_nodes w1) j b =
        works_on (ma_nodes w) j b - length (filter (\<lambda>k. is_at E (ma_nodes w) j b (jb_maps job ! k)) ks)))"
  using assms
proof (induction rs arbitrary: job w)
  case Nil
  then show ?case by (intro conjI exI [of _ "[]"]) simp_all
next
  case (Cons r rs)
  from Cons.prems obtain jobA wA where 1: "desserializeMapResult E r job w = Some (None, jobA, wA)" and 2: "take_results E rs jobA wA = Some (job1, w1)"
    by (auto simp: bind_eq_Some_conv split: if_splits)
  from good_result [OF 1] obtain k where k: "k < length (jb_maps job)" "mapResult r = Some (True, mp_id (jb_maps job ! k))"
    "removeMapNode E (jb_maps job ! k) w = Some wA" "jb_maps jobA = (jb_maps job)[k := (jb_maps job ! k)\<lparr>mp_done := True\<rparr>]" .
  have same: "undone (jb_maps jobA) = undone (jb_maps job)" using undone_upd [OF k(1)] k(4) by simp
  have len: "length (jb_maps jobA) = length (jb_maps job)" by (simp add: k(4))
  note one = removeMapNode_work [OF k(3), of b]
  have find: "is_at E (ma_nodes wA) j b = is_at E (ma_nodes w) j b" for j
    using same_findNode [of "ma_nodes wA" "ma_nodes w" E] one by (simp add: is_at_def fun_eq_iff)
  from Cons.IH [OF 2] obtain ks where ks: "\<forall>k \<in> set ks. k < length (jb_maps jobA)"
      "map mapResult rs = map (\<lambda>k. Some (True, mp_id (jb_maps jobA ! k))) ks"
      "\<forall>j < length (ma_nodes wA). works_on (ma_nodes w1) j b =
        works_on (ma_nodes wA) j b - length (filter (\<lambda>k. is_at E (ma_nodes wA) j b (jb_maps jobA ! k)) ks)"
    and rest: "undone (jb_maps job1) = undone (jb_maps jobA)" "map tn_name (ma_nodes w1) = map tn_name (ma_nodes wA)" by blast
  note nth = undone_nth [OF same]
  have ids: "map mapResult rs = map (\<lambda>k. Some (True, mp_id (jb_maps job ! k))) ks" using ks(1,2) nth(1) by simp
  have filters: "filter (\<lambda>k. is_at E (ma_nodes wA) j b (jb_maps jobA ! k)) ks = filter (\<lambda>k. is_at E (ma_nodes w) j b (jb_maps job ! k)) ks" for j
    by (rule filter_cong [OF refl]) (use ks(1) nth(2) [of _ E "ma_nodes w"] find in simp)
  have nodes: "length (ma_nodes wA) = length (ma_nodes w)" using one by (metis length_map)
  show ?case
  proof (intro conjI exI [of _ "k # ks"] allI impI)
    show "undone (jb_maps job1) = undone (jb_maps job)" using rest(1) same by simp
    show "map tn_name (ma_nodes w1) = map tn_name (ma_nodes w)" using rest(2) one by simp
    show "\<forall>k \<in> set (k # ks). k < length (jb_maps job)" using ks(1) k(1) len by simp
    show "map mapResult (r # rs) = map (\<lambda>k. Some (True, mp_id (jb_maps job ! k))) (k # ks)" using ids k(2) by simp
    fix j assume "j < length (ma_nodes w)"
    then show "works_on (ma_nodes w1) j b = works_on (ma_nodes w) j b - length (filter (\<lambda>k. is_at E (ma_nodes w) j b (jb_maps job ! k)) (k # ks))"
      using ks(3) one nodes filters [of j] by simp
  qed
qed

text \<open>When each map is answered once, its number is enough to count it.\<close>

lemma answered_once:
  assumes "distinct (map mp_id maps)" and "mset (map mp_id xs) = mset (map mp_id maps)" and "set xs \<subseteq> set maps"
  shows "length (filter P xs) = length (filter P maps)"
proof -
  let ?S = "mp_id ` {m \<in> set maps. P m}"
  have inj: "inj_on mp_id (set maps)" using assms(1) by (simp add: distinct_map)
  have P: "P m \<longleftrightarrow> mp_id m \<in> ?S" if "m \<in> set maps" for m using that inj by (auto dest: inj_onD)
  have count: "length (filter P ys) = length (filter (\<lambda>i. i \<in> ?S) (map mp_id ys))" if "set ys \<subseteq> set maps" for ys
  proof -
    have "filter P ys = filter (\<lambda>m. mp_id m \<in> ?S) ys" by (rule filter_cong [OF refl]) (use P that in blast)
    then have "length (filter P ys) = length (filter (\<lambda>m. mp_id m \<in> ?S) ys)" by (rule arg_cong)
    also have "\<dots> = length (map mp_id (filter (\<lambda>m. mp_id m \<in> ?S) ys))" by (rule length_map [symmetric])
    finally show ?thesis unfolding filter_map comp_def .
  qed
  have "size (mset (filter (\<lambda>i. i \<in> ?S) (map mp_id xs))) = size (mset (filter (\<lambda>i. i \<in> ?S) (map mp_id maps)))"
    by (simp only: mset_filter assms(2))
  then have "length (filter (\<lambda>i. i \<in> ?S) (map mp_id xs)) = length (filter (\<lambda>i. i \<in> ?S) (map mp_id maps))" by (simp only: size_mset)
  then show ?thesis unfolding count [OF assms(3)] count [OF subset_refl] .
qed

text \<open>C19. A job that ends takes the work of other jobs off the nodes. Its results, one for each map, leave
  on every node exactly the work of the others; \<open>freeJob\<close> then takes each of its maps off once
  more, and so for each of them one map of another job on the same block of the same node, which
  the node is from then on not seen to be busy with.\<close>

theorem job_end_takes_work:
  assumes results: "take_results E rs job w = Some (job1, w1)" and free: "freeJob E job1 w1 = Some w2"
    and once: "mset (map mapResult rs) = mset (map (\<lambda>m. Some (True, mp_id m)) (jb_maps job))" and ids: "distinct (map mp_id (jb_maps job))"
    and k: "k < length (ma_nodes w)" and work: "works_on (ma_nodes w) k b = others + maps_at E (ma_nodes w) (jb_maps job) k b"
  shows "works_on (ma_nodes w1) k b = others \<and> works_on (ma_nodes w2) k b = others - maps_at E (ma_nodes w) (jb_maps job) k b"
proof -
  from take_results_work [OF results, of b] obtain ks where same: "undone (jb_maps job1) = undone (jb_maps job)"
    and names: "map tn_name (ma_nodes w1) = map tn_name (ma_nodes w)" and ks: "\<forall>k \<in> set ks. k < length (jb_maps job)"
    and msgs: "map mapResult rs = map (\<lambda>k. Some (True, mp_id (jb_maps job ! k))) ks"
    and done1: "works_on (ma_nodes w1) k b = works_on (ma_nodes w) k b - length (filter (\<lambda>i. is_at E (ma_nodes w) k b (jb_maps job ! i)) ks)"
    using k by blast
  let ?xs = "map (\<lambda>i. jb_maps job ! i) ks"
  have "image_mset (\<lambda>i. snd (the i)) (mset (map mapResult rs)) = image_mset (\<lambda>i. snd (the i)) (mset (map (\<lambda>m. Some (True, mp_id m)) (jb_maps job)))"
    by (simp only: once)
  then have "mset (map mp_id ?xs) = mset (map mp_id (jb_maps job))" unfolding msgs by (simp add: multiset.map_comp comp_def)
  moreover have "set ?xs \<subseteq> set (jb_maps job)" using ks by auto
  ultimately have "length (filter (is_at E (ma_nodes w) k b) ?xs) = maps_at E (ma_nodes w) (jb_maps job) k b"
    unfolding maps_at_def by (rule answered_once [OF ids])
  then have first: "works_on (ma_nodes w1) k b = others" using done1 work by (simp add: filter_map comp_def)
  have len: "k < length (ma_nodes w1)" using k names by (metis length_map)
  have len_maps: "length (jb_maps job1) = length (jb_maps job)" using arg_cong [OF same, of length] by simp
  have "maps_at E (ma_nodes w1) (jb_maps job1) k b = maps_at E (ma_nodes w) (jb_maps job) k b"
  proof -
    have "map (is_at E (ma_nodes w1) k b) (jb_maps job1) = map (is_at E (ma_nodes w) k b) (jb_maps job)"
      using undone_nth(2) [OF same, of _ E "ma_nodes w"] len_maps same_findNode [OF names, of E]
      by (intro nth_equalityI) (simp_all add: is_at_def)
    then have "filter (\<lambda>x. x) (map (is_at E (ma_nodes w1) k b) (jb_maps job1)) = filter (\<lambda>x. x) (map (is_at E (ma_nodes w) k b) (jb_maps job))" by simp
    then have "length (filter (\<lambda>x. x) (map (is_at E (ma_nodes w1) k b) (jb_maps job1))) = length (filter (\<lambda>x. x) (map (is_at E (ma_nodes w) k b) (jb_maps job)))" by simp
    then show ?thesis by (simp add: maps_at_def filter_map comp_def)
  qed
  with remove_maps_work [OF free [unfolded freeJob_def], of b] first len show ?thesis by simp
qed
section \<open>Examples\<close>


theorem two_jobs_one_number_witness:
  "\<exists>w' ts' c. (job_step (marta_demo_env True))\<^sup>*\<^sup>* (marta_demo, (\<lambda>_. Arrived 6)(0 := Arrived 5)) (w', ts') \<and>
     ts' 0 = Numbered 5 c \<and> ts' 1 = Numbered 6 c"
proof -
  have "(0 :: nat) \<noteq> 1" "((\<lambda>_. Arrived 6)(0 := Arrived 5)) (0 :: nat) = Arrived 5" "((\<lambda>_. Arrived 6)(0 := Arrived 5)) (1 :: nat) = Arrived 6" by simp_all
  from two_jobs_one_number [OF this, of "marta_demo_env True" marta_demo, THEN conjunct1] show ?thesis by blast
qed

text \<open>The job's map and one of another job on block 0 of n1.\<close>

definition shared :: "chunk_net marta" where
  "shared = marta_demo\<lparr>ma_nodes := [(CreateNode True ''10.0.0.1'' 6500 ''n1'')\<lparr>tn_maps := [0, 0]\<rparr>, CreateNode True ''10.0.0.2'' 6501 ''n2'']\<rparr>"

theorem job_end_takes_work_witness:
  "\<exists>job1 w1 w2. take_results (marta_demo_env True) [[1, 0, 0]] typed_job shared = Some (job1, w1) \<and>
     freeJob (marta_demo_env True) job1 w1 = Some w2 \<and> works_on (ma_nodes w1) 0 0 = 1 \<and> works_on (ma_nodes w2) 0 0 = 0"
proof -
  let ?E = "marta_demo_env True"
  have names: "map tn_name (ma_nodes shared) = map tn_name (ma_nodes marta_demo)" by (simp add: shared_def marta_demo_def CreateNode_def)
  note find = same_findNode [OF names, of ?E]
  have "nodes_typed ?E (ma_nodes shared)" by (rule nodes_typed_same [OF demo_typed(1) names])
  moreover have "job_typed ?E (ma_nodes shared) typed_job" by (rule job_grows [OF grows_same [OF names] demo_typed(2)])
  ultimately have typed: "planner.typed ?E typed_job shared" by (simp add: planner.typed_def [OF planner_demo.planner_axioms])
  have maps: "jb_maps typed_job = [(demo_result 0 ''n1'')\<lparr>mp_copies := [CreateCopy ''n1'' 0, CreateCopy ''n2'' 3]\<rparr>]"
    by (simp add: typed_job_def)
  have msg: "mapResult [1, 0, 0] = Some (True, 0)"
    by (simp add: mapResult_def get_u8_def get_u16_def get_bytes_def of_be_def numeral_2_eq_2)
  have "find_index (\<lambda>m. isMap m 0) (jb_maps typed_job) = Some 0" by (simp add: find_index_def maps isMap_def demo_result_def)
  then obtain job1 w1 where r: "desserializeMapResult ?E [1, 0, 0] typed_job shared = Some (None, job1, w1)"
    using find demo_find by (simp add: desserializeMapResult_def msg maps removeMapNode_def update_node_def demo_result_def)
  then have results: "take_results ?E [[1, 0, 0]] typed_job shared = Some (job1, w1)" by simp
  have "planner.typed ?E job1 w1"
    using planner.desserializeMapResult_typed [OF planner_demo.planner_axioms typed r] by (simp add: planner.kept_def [OF planner_demo.planner_axioms])
  then obtain w2 where free: "freeJob ?E job1 w1 = Some w2" using planner.freeJob_defined [OF planner_demo.planner_axioms] by blast
  have "maps_at ?E (ma_nodes shared) (jb_maps typed_job) 0 0 = 1"
    using demo_find find by (simp add: maps_at_def is_at_def maps demo_result_def)
  moreover have "works_on (ma_nodes shared) 0 0 = 2" by (simp add: works_on_def shared_def)
  ultimately have "works_on (ma_nodes w1) 0 0 = 1 \<and> works_on (ma_nodes w2) 0 0 = 1 - 1"
    using job_end_takes_work [OF results free, of 0 0 1] by (simp add: msg maps demo_result_def shared_def)
  with results free show ?thesis by auto
qed

end
