(* ===== verification/Marta_MDFS.thy ===== *)
theory Marta_MDFS
  imports Marta_Connections FS_Marta
begin

text \<open>
  MaRTA and the file system together: the list of blocks that one writes and the other reads,
  and the order to copy a final result.
\<close>

section \<open>The blocks of a file on the wire\<close>

definition active_copy :: "('n, 'db) world \<Rightarrow> file_block_t \<Rightarrow> reply_copy option" where
  "active_copy w c =
     (case map_of (w_active w) (fb_nodeId c) of
        None \<Rightarrow> None
      | Some nc \<Rightarrow> map_option (\<lambda>port. (fb_nodeId c, nc_ip nc, port, fb_blockIndex c)) (nc_listenPort nc))"

definition active_copies :: "('n, 'db) world \<Rightarrow> file_block_t list \<Rightarrow> reply_copy list" where
  "active_copies w copies = List.map_filter (active_copy w) copies"

text \<open>The connections of nodes that introduced themselves: names and addresses are C strings whose
  length the messages can hold, and the port is known.\<close>

definition connections_ok :: "('n, 'db) world \<Rightarrow> bool" where
  "connections_ok w \<longleftrightarrow> (\<forall>i c. map_of (w_active w) i = Some c \<longrightarrow> c_string i \<and> length i < 2 ^ 32 \<and>
     c_string (nc_ip c) \<and> length (nc_ip c) < 2 ^ 16 \<and> nc_listenPort c \<noteq> None)"

definition reply_bytes :: "reply_copy \<Rightarrow> byte list" where
  "reply_bytes c = (case c of (i, ip, port, b) \<Rightarrow>
     be32 (word_of_nat (length i)) @ str_bytes i @ be16 (word_of_nat (length ip)) @ str_bytes ip @ be16 port @ be16 b)"

lemma unat_length16: "length s < 2 ^ 16 \<Longrightarrow> unat (word_of_nat (length s) :: u16) = length s"
  by (simp add: unat_of_nat take_bit_eq_mod)

lemma unat_length32: "length s < 2 ^ 32 \<Longrightarrow> unat (word_of_nat (length s) :: u32) = length s"
  by (simp add: unat_of_nat take_bit_eq_mod)

lemma copy_roundtrip:
  assumes "connections_ok w" and "active_copy w c = Some r"
  shows "\<exists>nc. connections_node_getActiveNodeConnection (fb_nodeId c) w = Some nc \<and> copy_bytes c nc = Some (reply_bytes r) \<and>
    (\<forall>rest. get_copy (reply_bytes r @ rest) = Some (r, rest))"
proof -
  obtain nc port where nc: "map_of (w_active w) (fb_nodeId c) = Some nc" "nc_listenPort nc = Some port"
    and r: "r = (fb_nodeId c, nc_ip nc, port, fb_blockIndex c)"
    using assms(2) by (auto simp: active_copy_def split: option.splits)
  have ok: "c_string (fb_nodeId c)" "length (fb_nodeId c) < 2 ^ 32" "c_string (nc_ip nc)" "length (nc_ip nc) < 2 ^ 16"
    using assms(1) nc(1) by (auto simp: connections_ok_def)
  show ?thesis using nc ok
    by (intro exI [of _ nc])
      (simp add: connections_node_getActiveNodeConnection_def copy_bytes_def reply_bytes_def get_copy_def r Let_def
        unat_length16 unat_length32)
qed

lemma no_copy: "connections_ok w \<Longrightarrow> active_copy w c = None \<Longrightarrow> connections_node_getActiveNodeConnection (fb_nodeId c) w = None"
  by (fastforce simp: active_copy_def connections_ok_def connections_node_getActiveNodeConnection_def split: option.splits)

lemma copies_bytes_eq:
  assumes "connections_ok w"
  shows "copies_bytes w copies n buf =
    Some (n + word_of_nat (length (active_copies w copies)), buf @ concat (map reply_bytes (active_copies w copies)))"
proof (induction copies arbitrary: n buf)
  case Nil
  then show ?case by (simp add: active_copies_def)
next
  case (Cons c copies)
  show ?case
  proof (cases "active_copy w c")
    case None
    then show ?thesis using Cons.IH no_copy [OF assms None] by (simp add: active_copies_def)
  next
    case (Some r)
    from copy_roundtrip [OF assms Some] obtain nc where
      "connections_node_getActiveNodeConnection (fb_nodeId c) w = Some nc" "copy_bytes c nc = Some (reply_bytes r)" by blast
    then show ?thesis using Cons.IH Some by (simp add: active_copies_def add.assoc)
  qed
qed

lemma get_copies_eq:
  assumes "connections_ok w"
  shows "get_copies (length (active_copies w copies)) (concat (map reply_bytes (active_copies w copies)) @ rest) =
    Some (active_copies w copies, rest)"
proof (induction copies)
  case Nil
  then show ?case by (simp add: active_copies_def)
next
  case (Cons c copies)
  show ?case
  proof (cases "active_copy w c")
    case None
    then show ?thesis using Cons.IH by (simp add: active_copies_def)
  next
    case (Some r)
    from copy_roundtrip [OF assms Some] Cons.IH Some show ?thesis by (auto simp: active_copies_def)
  qed
qed

definition block_bytes :: "('n, 'db) world \<Rightarrow> file_block_t list \<Rightarrow> byte list" where
  "block_bytes w copies = be16 (word_of_nat (length (active_copies w copies))) @ concat (map reply_bytes (active_copies w copies))"

lemma length_active_copies: "length (active_copies w copies) \<le> length copies"
  by (induction copies) (simp_all add: active_copies_def split: option.split)

lemma blocks_bytes_eq:
  assumes "connections_ok w" and "\<forall>copies \<in> set blocks. length copies < 2 ^ 16"
  shows "blocks_bytes w blocks buf =
    Some (if \<exists>copies \<in> set blocks. active_copies w copies = [] then None else Some (buf @ concat (map (block_bytes w) blocks)))"
  using assms(2)
proof (induction blocks arbitrary: buf)
  case (Cons copies blocks)
  let ?n = "length (active_copies w copies)"
  have "?n < 2 ^ 16" using Cons.prems length_active_copies [of w copies] by (auto intro: le_less_trans)
  then have "(word_of_nat ?n :: u16) = 0 \<longleftrightarrow> active_copies w copies = []"
    using unat_length16 [of "active_copies w copies"] by (metis length_0_conv unat_eq_zero)
  with Cons show ?case by (simp add: copies_bytes_eq [OF assms(1)] block_bytes_def)
qed simp

lemma get_blocks_eq:
  assumes "connections_ok w" and "\<forall>copies \<in> set blocks. length copies < 2 ^ 16"
  shows "get_blocks (length blocks) (concat (map (block_bytes w) blocks)) = Some (map (active_copies w) blocks)"
  using assms(2)
proof (induction blocks)
  case (Cons copies blocks)
  have "length (active_copies w copies) < 2 ^ 16"
    using Cons.prems length_active_copies [of w copies] by (auto intro: le_less_trans)
  then show ?case using Cons by (simp add: block_bytes_def unat_length16 get_copies_eq [OF assms(1)])
qed simp

lemma request_roundtrip:
  "c_string path \<Longrightarrow> length path < 2 ^ 32 \<Longrightarrow> sendFileBlocks_request (requestFileBlocks_bytes path) = Some path"
  by (simp add: sendFileBlocks_request_def requestFileBlocks_bytes_def Let_def unat_length32 get_str_all)

text \<open>What the file system answers to a request for a file.\<close>

definition reply_for :: "('n, 'db) world \<Rightarrow> file_block_t list list \<Rightarrow> byte list" where
  "reply_for w blocks = (if \<exists>copies \<in> set blocks. active_copies w copies = [] then be16 0
     else be16 (word_of_nat (length blocks)) @ concat (map (block_bytes w) blocks))"

lemma get_reply_for:
  assumes "connections_ok w" and "\<forall>copies \<in> set blocks. length copies < 2 ^ 16" and "length blocks < 2 ^ 16"
  shows "get_reply (reply_for w blocks) =
    Some (if \<exists>copies \<in> set blocks. active_copies w copies = [] then [] else map (active_copies w) blocks)"
  using get_blocks_eq [OF assms(1,2)] get_u16_be16 [of 0 "[]"]
  by (simp add: get_reply_def reply_for_def unat_length16 [OF assms(3)])

lemma sendFileBlocks_reply:
  assumes "connections_ok w" and "\<forall>copies \<in> set (file_blocks f). length copies < 2 ^ 16"
    and "c_string path" and "length path < 2 ^ 32"
    and "filesystem_resolveFilePath E path ROOT_DIR_ID ''/'' w = Some (Some f)"
  shows "connections_marta_sendFileBlocks E (requestFileBlocks_bytes path) (s, w) =
    Some (marta_send E (reply_for w (file_blocks f)) (s, w))"
  using assms by (simp add: connections_marta_sendFileBlocks_def request_roundtrip blocks_bytes_eq reply_for_def)

section \<open>The exchange\<close>

lemma requestFileBlocks_receives:
  assumes rel: "reliable_os (y_os M) inp out" and inp: "inp (ma_net m) (ma_fsSocket m) = packet_bytes p @ rest"
    and p: "packet_ok p" "get_reply p = Some blocks"
  shows "\<exists>net. requestFileBlocks M fi m = Some (take_reply M blocks fi (m\<lparr>ma_net := net\<rparr>)) \<and>
    out net (ma_fsSocket m) = out (ma_net m) (ma_fsSocket m) @ packet_bytes (requestFileBlocks_bytes (tf_path fi)) \<and>
    inp net (ma_fsSocket m) = rest"
proof -
  let ?s = "ma_fsSocket m" and ?q = "requestFileBlocks_bytes (tf_path fi)"
  obtain n1 where 1: "socket_send_packet (y_os M) ?s (Some ?q) (ma_net m) = (SOCKET_ERROR_NONE, n1)" "inp n1 = inp (ma_net m)"
    "out n1 ?s = out (ma_net m) ?s @ packet_bytes ?q"
    using reliable_os.send_packet_reliable [OF rel] by blast
  have send: "send_until M ?q m = Some (m\<lparr>ma_net := n1\<rparr>)"
    by (subst send_until.simps) (simp add: ma_send_def 1(1))
  have "inp n1 ?s = packet_bytes p @ rest" using 1(2) inp by simp
  from reliable_os.recv_packet_reliable [OF rel this p(1)] obtain n2 where
    2: "socket_recv_packet (y_os M) ?s 0 n1 = (SOCKET_ERROR_NONE, Some p, word_of_nat (length p), n2)" "inp n2 ?s = rest" "out n2 = out n1"
    by blast
  have "recv_until M (Some ?q) (m\<lparr>ma_net := n1\<rparr>) = Some (p, m\<lparr>ma_net := n2\<rparr>)"
    by (subst recv_until.simps) (simp add: ma_recv_def 2(1))
  then show ?thesis using send p(2) 1 2 by (intro exI [of _ n2]) (simp add: requestFileBlocks_def)
qed

text \<open>C25. MaRTA plans on the blocks the file system has. The file system answers the request of
  \<open>requestFileBlocks\<close> for a file with the list of its blocks; when every block has a copy on an
  active node, MaRTA's file gets exactly these copies (the node and the block of each, in
  order); when some block has none, or the file no blocks, the answer says that it is not
  available and MaRTA's file stays as it was.\<close>

theorem file_blocks_reach_marta:
  assumes "reliable_os (e_os E) inp out" and "reliable_os (y_os M) inp' out'" and "connections_ok w"
    and "c_string path" and "length path < 2 ^ 32" and "tf_path fi = path"
    and "filesystem_resolveFilePath E path ROOT_DIR_ID ''/'' w = Some (Some f)"
    and "\<forall>copies \<in> set (file_blocks f). length copies < 2 ^ 16" and "length (file_blocks f) < 2 ^ 16"
    and "connections_marta_sendFileBlocks E (requestFileBlocks_bytes path) (s, w) = Some (r, (s', w'))"
    and "packet_ok (reply_for w (file_blocks f))"
    and "out (w_net w') s = out (w_net w) s @ inp' (ma_net m) (ma_fsSocket m)"
  shows "r \<and> (\<exists>available fi' m'. requestFileBlocks M fi m = Some (available, fi', m') \<and>
    out' (ma_net m') (ma_fsSocket m) = out' (ma_net m) (ma_fsSocket m) @ packet_bytes (requestFileBlocks_bytes path) \<and>
    available = (file_blocks f \<noteq> [] \<and> (\<forall>copies \<in> set (file_blocks f). active_copies w copies \<noteq> [])) \<and>
    tf_blocks fi' = tf_blocks fi @ (if available
      then map (\<lambda>copies. map (\<lambda>(i, ip, port, b). CreateCopy i b) (active_copies w copies)) (file_blocks f) else []))"
proof -
  let ?p = "reply_for w (file_blocks f)"
  have sent: "marta_send E ?p (s, w) = (r, (s', w'))" using sendFileBlocks_reply [OF assms(3,8,4,5,7), of s] assms(10) by simp
  obtain n1 where n1: "socket_send_packet (e_os E) s (Some ?p) (w_net w) = (SOCKET_ERROR_NONE, n1)"
    "out n1 s = out (w_net w) s @ packet_bytes ?p"
    using reliable_os.send_packet_reliable [OF assms(1)] by blast
  then have r: "r" "w_net w' = n1" using sent by (auto simp: marta_send_def w_send_packet_def)
  then have inp: "inp' (ma_net m) (ma_fsSocket m) = packet_bytes ?p @ []" using assms(12) n1(2) by simp
  note reply = get_reply_for [OF assms(3,8,9)]
  from requestFileBlocks_receives [OF assms(2) inp assms(11) reply, of fi] obtain net where
    req: "requestFileBlocks M fi m = Some (take_reply M (if \<exists>copies \<in> set (file_blocks f). active_copies w copies = [] then []
      else map (active_copies w) (file_blocks f)) fi (m\<lparr>ma_net := net\<rparr>))"
    "out' net (ma_fsSocket m) = out' (ma_net m) (ma_fsSocket m) @ packet_bytes (requestFileBlocks_bytes path)"
    using assms(6) by blast
  show ?thesis
  proof (cases "file_blocks f \<noteq> [] \<and> (\<forall>copies \<in> set (file_blocks f). active_copies w copies \<noteq> [])")
    case True
    then show ?thesis using r req by (auto simp: take_reply_def comp_def)
  next
    case False
    then show ?thesis using r req by (auto simp: take_reply_def)
  qed
qed

definition active_world :: "(chunk_net, lstore) world" where
  "active_world = tree_world\<lparr>w_active := [(''n1'', \<lparr>nc_socket = 7, nc_ip = ''10.0.0.1'', nc_listenPort = Some 6500\<rparr>)]\<rparr>"

lemma active_world_ok: "connections_ok active_world"
  by (simp add: connections_ok_def active_world_def c_string_def)

lemma active_world_file:
  "filesystem_resolveFilePath (fs_env True) ''/a/b/x'' ROOT_DIR_ID ''/'' active_world = Some (Some (hd demo_files))"
proof -
  let ?D = "set demo_dirs"
  have child: "child ?D [] ''a''" "child ?D [''a''] ''b''" using demo_at by (auto simp: child_def)
  have walk: "walk_path ?D [] ''/a/b/'' = Some [''a'', ''b'']" using child by (simp add: walk_path_def pieces_def)
  have db: "w_db active_world = demo_db" by (simp add: tree_world_def active_world_def)
  have wf: "meta_wf (\<lambda>c. set (ls_view (w_db active_world) c)) (ls_uniq (w_db active_world))" using demo_wf by (simp add: db)
  have tree: "\<forall>d \<in> meta_dirs (\<lambda>c. set (ls_view (w_db active_world) c)). dir_id d \<noteq> ROOT_DIR_ID" using demo_tree by (simp add: db)
  have root: "dir_at (meta_dirs (\<lambda>c. set (ls_view (w_db active_world) c))) [] ROOT_DIR_ID" by (rule dir_at.Root)
  have "hd demo_files \<in> set demo_files" "file_name (hd demo_files) = Some ''x''" "file_parentId (hd demo_files) = ''b1''"
    by (simp_all add: demo_files_def)
  then have "filesystem_resolveFilePath (fs_env True) (''/a/b/'' @ ''x'') ROOT_DIR_ID (render []) active_world = Some (Some (hd demo_files))"
    using fs_laws.resolveFilePath_file [OF fsenv.fs_laws_axioms wf fs_laws.tree_of_wf [OF fsenv.fs_laws_axioms wf tree] root,
        where dp = "''/a/b/''" and fname = "''x''" and f = "hd demo_files"] demo_at(2) by (auto simp: db walk render_def)
  then show ?thesis by (simp add: render_def)
qed

theorem file_blocks_reach_marta_witness:
  "\<exists>w' fi' m'. connections_marta_sendFileBlocks (fs_env True) (requestFileBlocks_bytes ''/a/b/x'') (3, active_world) = Some (True, (3, w')) \<and>
     requestFileBlocks (marta_demo_env True) (CreateFile ''/a/b/x'')
       \<lparr>ma_nodes = [], ma_fsSocket = 3, ma_cantJobs = 0, ma_net = ((\<lambda>_. packet_bytes (reply_for active_world [[\<lparr>fb_nodeId = ''n1'', fb_blockIndex = 0\<rparr>]])), (\<lambda>_. []))\<rparr>
       = Some (True, fi', m') \<and> tf_blocks fi' = [[CreateCopy ''n1'' 0]]"
proof -
  let ?b = "[[\<lparr>fb_nodeId = ''n1'', fb_blockIndex = 0\<rparr>]]" and ?f = "hd demo_files" and ?path = "''/a/b/x''"
  let ?m = "\<lparr>ma_nodes = [], ma_fsSocket = 3, ma_cantJobs = 0, ma_net = ((\<lambda>_. packet_bytes (reply_for active_world ?b)), (\<lambda>_. []))\<rparr>"
  have rel: "reliable_os (e_os (fs_env True)) fst snd" "reliable_os (y_os (marta_demo_env True)) fst snd"
    using chunk.reliable_os_axioms by (simp_all add: fs_env_def marta_demo_env_def)
  have f: "file_blocks ?f = ?b" by (simp add: demo_files_def)
  have copies: "active_copies active_world [\<lparr>fb_nodeId = ''n1'', fb_blockIndex = 0\<rparr>] = [(''n1'', ''10.0.0.1'', 6500, 0)]"
    by (simp add: active_copies_def active_copy_def active_world_def)
  have path: "c_string ?path" "length ?path < 2 ^ 32" "tf_path (CreateFile ?path) = ?path"
    by (simp_all add: c_string_def CreateFile_def)
  have small: "\<forall>copies \<in> set (file_blocks ?f). length copies < 2 ^ 16" "length (file_blocks ?f) < 2 ^ 16"
    "packet_ok (reply_for active_world (file_blocks ?f))"
    by (simp_all add: f reply_for_def copies block_bytes_def reply_bytes_def packet_ok_def)
  obtain r s' w' where run: "connections_marta_sendFileBlocks (fs_env True) (requestFileBlocks_bytes ?path) (3, active_world) = Some (r, (s', w'))"
    using sendFileBlocks_reply [OF active_world_ok small(1) path(1,2) active_world_file, of 3]
    by (cases "marta_send (fs_env True) (reply_for active_world (file_blocks ?f)) (3, active_world)") auto
  have s': "s' = 3" using run sendFileBlocks_reply [OF active_world_ok small(1) path(1,2) active_world_file, of 3]
    by (auto simp: marta_send_def split: prod.splits)
  have "snd (w_net w') 3 = snd (w_net active_world) 3 @ fst (ma_net ?m) (ma_fsSocket ?m)"
  proof -
    obtain n1 where n1: "socket_send_packet (e_os (fs_env True)) 3 (Some (reply_for active_world ?b)) (w_net active_world) = (SOCKET_ERROR_NONE, n1)"
      "snd n1 3 = snd (w_net active_world) 3 @ packet_bytes (reply_for active_world ?b)"
      using reliable_os.send_packet_reliable [OF rel(1)] by blast
    then show ?thesis using run sendFileBlocks_reply [OF active_world_ok small(1) path(1,2) active_world_file, of 3]
      by (auto simp: marta_send_def w_send_packet_def f)
  qed
  from file_blocks_reach_marta [OF rel active_world_ok path active_world_file small(1,2) run small(3) this]
  show ?thesis using run s' by (auto simp: f copies CreateFile_def)
qed

end
