(* ===== verification/Job.thy ===== *)
theory Job
  imports Socket
begin

text \<open>
  \<open>Job/src\<close>: the client of a map-reduce job. It sends its configuration to MaRTA, then carries
  out MaRTA's orders: for each map or reduce it starts a thread that takes the routine to a
  storage node, waits for the node's answer and reports it to MaRTA. A thread is one step here;
  the mutex around the socket of MaRTA keeps the reports whole. A routine is read through a map
  of its file: \<open>strlen\<close> of it is undefined when the file has no NUL and fills its last page. A
  process that aborts, like undefined behaviour, is \<^const>\<open>None\<close>.
\<close>

section \<open>State\<close>

record t_configJob =
  jc_PUERTO_MARTA :: u16
  jc_IP_MARTA :: string
  jc_MAPPER :: string
  jc_REDUCER :: string
  jc_RESULTADO :: string
  jc_LIST_ARCHIVOS :: string
  jc_COMBINER :: bool

record job_map_t =
  jm_mapID :: u16
  jm_ip_nodo :: string
  jm_port_nodo :: u16
  jm_numBlock :: u16
  jm_tempResultName :: string

record job_reduce_t =
  jr_reduceID :: u16
  jr_ip_nodo :: string
  jr_port_nodo :: u16
  jr_tempResultName :: string
  jr_buffer_tmps :: "byte list"

record 'n job_env =
  k_os :: "'n os"
  k_connect :: "string \<Rightarrow> u16 \<Rightarrow> 'n \<Rightarrow> int \<times> 'n"
  k_file :: "string \<Rightarrow> byte list option"
  k_page :: nat
  k_cfg :: t_configJob

record 'n job_world =
  jw_marta :: int
  jw_net :: 'n

definition job_send :: "'n job_env \<Rightarrow> int \<Rightarrow> byte list \<Rightarrow> 'n job_world \<Rightarrow> e_socket_status \<times> 'n job_world" where
  "job_send E s p w = (case socket_send_packet (k_os E) s (Some p) (jw_net w) of (status, n) \<Rightarrow> (status, w\<lparr>jw_net := n\<rparr>))"

definition job_recv :: "'n job_env \<Rightarrow> int \<Rightarrow> 'n job_world \<Rightarrow> e_socket_status \<times> byte list option \<times> 'n job_world" where
  "job_recv E s w = (case socket_recv_packet (k_os E) s 0 (jw_net w) of (status, p, _, n) \<Rightarrow> (status, p, w\<lparr>jw_net := n\<rparr>))"

section \<open>Routines and what goes to a node\<close>

definition getMapReduceRoutine :: "'n job_env \<Rightarrow> string \<Rightarrow> string option" where
  "getMapReduceRoutine E pathFile =
     do {
       bs \<leftarrow> k_file E pathFile;
       (if bs \<noteq> [] \<and> (0 \<in> set bs \<or> length bs mod k_page E \<noteq> 0) then Some (cstr bs) else None)
     }"

definition map_packet :: "string \<Rightarrow> job_map_t \<Rightarrow> byte list" where
  "map_packet fileMap m =
     (let sfileMap = word_of_nat (length fileMap) :: u32; sTempName = word_of_nat (length (jm_tempResultName m)) :: u32
      in COMMAND_MAP # be16 (jm_numBlock m) @ be32 sfileMap @ take (unat sfileMap) (str_bytes fileMap) @
         be32 sTempName @ take (unat sTempName) (str_bytes (jm_tempResultName m)))"

definition serializeMap :: "'n job_env \<Rightarrow> int \<Rightarrow> job_map_t \<Rightarrow> 'n job_world \<Rightarrow> 'n job_world option" where
  "serializeMap E sock_nodo m w =
     map_option (\<lambda>fileMap. snd (job_send E sock_nodo (map_packet fileMap m) w)) (getMapReduceRoutine E (jc_MAPPER (k_cfg E)))"

text \<open>The buffer is four bytes longer than what is written to it.\<close>

definition reduce_packet :: "string \<Rightarrow> job_reduce_t \<Rightarrow> byte list" where
  "reduce_packet fileReduce r =
     (let sfileReduce = word_of_nat (length fileReduce) :: u32; sTempName = word_of_nat (length (jr_tempResultName r)) :: u32
      in COMMAND_REDUCE # be32 sfileReduce @ take (unat sfileReduce) (str_bytes fileReduce) @
         be32 sTempName @ take (unat sTempName) (str_bytes (jr_tempResultName r)) @ jr_buffer_tmps r @ replicate 4 0)"

definition serializeReduce :: "'n job_env \<Rightarrow> int \<Rightarrow> job_reduce_t \<Rightarrow> 'n job_world \<Rightarrow> 'n job_world option" where
  "serializeReduce E sock_nodo r w =
     map_option (\<lambda>fileReduce. snd (job_send E sock_nodo (reduce_packet fileReduce r) w)) (getMapReduceRoutine E (jc_REDUCER (k_cfg E)))"

section \<open>What goes to MaRTA\<close>

text \<open>\<open>htons\<close> of a \<open>bool\<close> is a \<open>bool\<close> again.\<close>

definition config_bytes :: "bool \<Rightarrow> string \<Rightarrow> string \<Rightarrow> byte list" where
  "config_bytes combiner fileResult stringFiles =
     (let filesLength = word_of_nat (length stringFiles) :: u16; sizeResult = word_of_nat (length fileResult) :: u16
      in (if combiner then 1 else 0) # be16 sizeResult @ take (unat sizeResult) (str_bytes fileResult) @
         take (unat filesLength) (str_bytes stringFiles))"

definition serializeConfigMaRTA :: "'n job_env \<Rightarrow> int \<Rightarrow> bool \<Rightarrow> string \<Rightarrow> string \<Rightarrow> 'n job_world \<Rightarrow> 'n job_world" where
  "serializeConfigMaRTA E fd combiner fileResult stringFiles w =
     snd (job_send E fd (config_bytes combiner fileResult stringFiles) w)"

definition sendMapResult_bytes :: "u16 \<Rightarrow> bool \<Rightarrow> byte list" where
  "sendMapResult_bytes mapID result = COMMAND_MAP # (if result then 1 else 0) # be16 mapID"

definition sendMapResult :: "'n job_env \<Rightarrow> job_map_t \<Rightarrow> bool \<Rightarrow> 'n job_world \<Rightarrow> 'n job_world" where
  "sendMapResult E m result w = snd (job_send E (jw_marta w) (sendMapResult_bytes (jm_mapID m) result) w)"

definition failReduce_bytes :: "u16 \<Rightarrow> string \<Rightarrow> byte list" where
  "failReduce_bytes reduceID fallenNode =
     (let sfallenNode = word_of_nat (length fallenNode) :: u16
      in COMMAND_REDUCE # 0 # be16 reduceID @ be16 sfallenNode @ take (unat sfallenNode) (str_bytes fallenNode))"

text \<open>\<open>failReduce\<close> frees its argument: a string literal there is undefined after it is sent.\<close>

definition failReduce :: "'n job_env \<Rightarrow> job_reduce_t \<Rightarrow> string \<Rightarrow> bool \<Rightarrow> 'n job_world \<Rightarrow> 'n job_world option" where
  "failReduce E r fallenNode allocated w =
     (if allocated then Some (snd (job_send E (jw_marta w) (failReduce_bytes (jr_reduceID r) fallenNode) w)) else None)"

definition confirm_bytes :: "u16 \<Rightarrow> byte list" where
  "confirm_bytes reduceID = COMMAND_REDUCE # 1 # be16 reduceID"

text \<open>\<open>bufferNodo\<close> is what follows the result in the answer of the node.\<close>

definition confirmarReduce :: "'n job_env \<Rightarrow> job_reduce_t \<Rightarrow> bool \<Rightarrow> byte list \<Rightarrow> 'n job_world \<Rightarrow> 'n job_world option" where
  "confirmarReduce E r result bufferNodo w =
     (if result then Some (snd (job_send E (jw_marta w) (confirm_bytes (jr_reduceID r)) w))
      else do {
        (snodeID, b) \<leftarrow> get_u16 bufferNodo;
        (nodeID, _) \<leftarrow> get_str (unat snodeID) b;
        failReduce E r nodeID True w
      })"

section \<open>The threads\<close>

text \<open>A handshake fails with a negative code, which \<open>!hand_nodo\<close> does not see.\<close>

definition atenderMapper :: "'n job_env \<Rightarrow> job_map_t \<Rightarrow> 'n job_world \<Rightarrow> 'n job_world option" where
  "atenderMapper E m w =
     (case k_connect E (jm_ip_nodo m) (jm_port_nodo m) (jw_net w) of (sock_nodo, net) \<Rightarrow>
        let w1 = w\<lparr>jw_net := net\<rparr> in
        if sock_nodo < 0 then Some (sendMapResult E m False w1)
        else do {
          (hand_nodo, net) \<leftarrow> socket_handshake_to_server (k_os E) sock_nodo HANDSHAKE_NODO HANDSHAKE_JOB net;
          let w2 = w1\<lparr>jw_net := net\<rparr>;
          (if hand_nodo = 0 then Some w2
           else do {
             w3 \<leftarrow> serializeMap E sock_nodo m w2;
             (case job_recv E sock_nodo w3 of (status, p, w4) \<Rightarrow>
                if status_code status < 0 then Some (sendMapResult E m False w4)
                else do {
                  buffer \<leftarrow> p;
                  (result, _) \<leftarrow> get_u8 buffer;
                  Some (sendMapResult E m (result \<noteq> 0) w4)
                })
           })
        })"

definition atenderReducer :: "'n job_env \<Rightarrow> job_reduce_t \<Rightarrow> 'n job_world \<Rightarrow> 'n job_world option" where
  "atenderReducer E r w =
     (case k_connect E (jr_ip_nodo r) (jr_port_nodo r) (jw_net w) of (sock_nodo, net) \<Rightarrow>
        let w1 = w\<lparr>jw_net := net\<rparr> in
        if sock_nodo < 0 then failReduce E r ''ErrorAlConectar'' True w1
        else do {
          (hand_nodo, net) \<leftarrow> socket_handshake_to_server (k_os E) sock_nodo HANDSHAKE_NODO HANDSHAKE_JOB net;
          let w2 = w1\<lparr>jw_net := net\<rparr>;
          (if hand_nodo = 0 then failReduce E r ''ErrorAlConectar'' False w2
           else do {
             w3 \<leftarrow> serializeReduce E sock_nodo r w2;
             (case job_recv E sock_nodo w3 of (status, p, w4) \<Rightarrow>
                if status_code status < 0 then failReduce E r ''ErrorAlConectar'' True w4
                else do {
                  buffer \<leftarrow> p;
                  (result, rest) \<leftarrow> get_u8 buffer;
                  confirmarReduce E r (result \<noteq> 0) rest w4
                })
           })
        })"

section \<open>The orders of MaRTA\<close>

definition get_temp60 :: "byte list \<Rightarrow> (string \<times> byte list) option" where
  "get_temp60 bs = do { (h, r) \<leftarrow> get_bytes 60 bs; if 0 \<in> set h then Some (cstr h, r) else None }"

definition desserializeMapOrder :: "byte list \<Rightarrow> job_map_t option" where
  "desserializeMapOrder buffer =
     do {
       (idMap, r) \<leftarrow> get_u16 buffer;
       (snodeIP, r) \<leftarrow> get_u16 r;
       (nodeIP, r) \<leftarrow> get_str (unat snodeIP) r;
       (nodePort, r) \<leftarrow> get_u16 r;
       (numBlock, r) \<leftarrow> get_u16 r;
       (tempResultName, _) \<leftarrow> get_temp60 r;
       Some \<lparr>jm_mapID = idMap, jm_ip_nodo = nodeIP, jm_port_nodo = nodePort, jm_numBlock = numBlock,
         jm_tempResultName = tempResultName\<rparr>
     }"

text \<open>The temporary files to reduce are passed on as they came.\<close>

definition desserializeReduceOrder :: "byte list \<Rightarrow> job_reduce_t option" where
  "desserializeReduceOrder buffer =
     do {
       (reduceID, r) \<leftarrow> get_u16 buffer;
       (snodeIP, r) \<leftarrow> get_u16 r;
       (nodeIP, r) \<leftarrow> get_str (unat snodeIP) r;
       (nodePort, r) \<leftarrow> get_u16 r;
       (tempResultName, r) \<leftarrow> get_temp60 r;
       let stemps = (word_of_nat (length r) :: u32);
       Some \<lparr>jr_reduceID = reduceID, jr_ip_nodo = nodeIP, jr_port_nodo = nodePort, jr_tempResultName = tempResultName,
         jr_buffer_tmps = take (unat stemps) r\<rparr>
     }"

text \<open>One order: the exit code, if the process ends, and the state.\<close>

definition recvOrder :: "'n job_env \<Rightarrow> int \<Rightarrow> 'n job_world \<Rightarrow> (int option \<times> 'n job_world) option" where
  "recvOrder E fd w =
     (case job_recv E fd w of (status, p, w1) \<Rightarrow>
        if status_code status < 0 then Some (Some (-1), w1)
        else do {
          buffer \<leftarrow> p;
          (order, r) \<leftarrow> get_u8 buffer;
          (if order = COMMAND_MAP then do { m \<leftarrow> desserializeMapOrder r; w2 \<leftarrow> atenderMapper E m w1; Some (None, w2) }
           else if order = COMMAND_REDUCE then do { rd \<leftarrow> desserializeReduceOrder r; w2 \<leftarrow> atenderReducer E rd w1; Some (None, w2) }
           else if order = COMMAND_MARTA_TO_JOB_DIE then do { _ \<leftarrow> get_u8 r; Some (Some 0, w1) }
           else Some (None, w1))
        })"

partial_function (option) recv_orders :: "'n job_env \<Rightarrow> 'n job_world \<Rightarrow> (int \<times> 'n job_world) option" where
  "recv_orders E w =
     Option.bind (recvOrder E (jw_marta w) w) (\<lambda>r. case r of (code, w1) \<Rightarrow>
       (case code of Some c \<Rightarrow> Some (c, w1) | None \<Rightarrow> recv_orders E w1))"

definition atenderMarta :: "'n job_env \<Rightarrow> 'n job_world \<Rightarrow> (int \<times> 'n job_world) option" where
  "atenderMarta E w =
     recv_orders E (serializeConfigMaRTA E (jw_marta w) (jc_COMBINER (k_cfg E)) (jc_RESULTADO (k_cfg E))
       (jc_LIST_ARCHIVOS (k_cfg E)) w)"

definition conectarMarta :: "'n job_env \<Rightarrow> 'n job_world \<Rightarrow> (int \<times> 'n job_world) option" where
  "conectarMarta E w =
     (case k_connect E (jc_IP_MARTA (k_cfg E)) (jc_PUERTO_MARTA (k_cfg E)) (jw_net w) of (s, net) \<Rightarrow>
        if s < 0 then Some (-1, w\<lparr>jw_marta := s, jw_net := net\<rparr>)
        else do {
          (handshake, net) \<leftarrow> socket_handshake_to_server (k_os E) s HANDSHAKE_MARTA HANDSHAKE_JOB net;
          Some (if handshake = 0 then -1 else s, w\<lparr>jw_marta := s, jw_net := net\<rparr>)
        })"

end
