(* ===== verification/Job_Protocol.thy ===== *)
theory Job_Protocol
  imports Job Marta_Connections Nodo_Connections
begin

text \<open>
  MaRTA, the job and the storage nodes together: an order that MaRTA writes is read by the job,
  which writes the request the node reads; the result comes back the same way. Each of the
  three programs has its own reader and its own writer of these messages.
\<close>

section \<open>Messages that fit\<close>

definition fits16 :: "string \<Rightarrow> bool" where
  "fits16 s \<longleftrightarrow> c_string s \<and> length s < 2 ^ 16"

definition fits32 :: "string \<Rightarrow> bool" where
  "fits32 s \<longleftrightarrow> c_string s \<and> length s < 2 ^ 32"

lemma unat_small32: "n < 2 ^ 32 \<Longrightarrow> unat (word_of_nat n :: u32) = n"
  by (simp add: unat_of_nat take_bit_eq_mod)

text \<open>The array of 60 bytes with the name of a temporary file.\<close>

definition name60 :: "byte list \<Rightarrow> bool" where
  "name60 bs \<longleftrightarrow> length bs = 60 \<and> 0 \<in> set bs"

lemma get_fits16 [wire]:
  "fits16 s \<Longrightarrow> get_str (unat (word_of_nat (length s) :: u16)) (str_bytes s @ r) = Some (s, r)"
  "fits16 s \<Longrightarrow> take (unat (word_of_nat (length s) :: u16)) (str_bytes s) = str_bytes s"
  by (simp_all add: fits16_def unat_of_nat take_bit_eq_mod)

lemma get_fits32 [wire]:
  "fits32 s \<Longrightarrow> get_str (unat (word_of_nat (length s) :: u32)) (str_bytes s @ r) = Some (s, r)"
  "fits32 s \<Longrightarrow> take (unat (word_of_nat (length s) :: u32)) (str_bytes s) = str_bytes s"
  by (simp_all add: fits32_def unat_of_nat take_bit_eq_mod)

lemma get_name60 [wire]:
  "name60 bs \<Longrightarrow> get_name60 (bs @ r) = Some (cstr bs, r)"
  "name60 bs \<Longrightarrow> get_temp60 (bs @ r) = Some (cstr bs, r)"
  by (simp_all add: name60_def get_name60_def get_temp60_def)

lemma fits32_name60: "name60 bs \<Longrightarrow> fits32 (cstr bs)"
  using length_takeWhile_le [of "\<lambda>b. b \<noteq> 0" bs] by (simp add: name60_def fits32_def) (simp add: cstr_def)

lemma at_end [wire]:
  "fits32 s \<Longrightarrow> get_str (unat (word_of_nat (length s) :: u32)) (str_bytes s) = Some (s, [])"
  "name60 bs \<Longrightarrow> get_temp60 bs = Some (cstr bs, [])"
  using get_fits32(1) [of s "[]"] get_name60(2) [of bs "[]"] by simp_all

section \<open>A map\<close>

definition map_fits :: "t_map \<Rightarrow> bool" where
  "map_fits m \<longleftrightarrow> fits16 (mp_nodeIP m) \<and> name60 (mp_tempResultName m)"

text \<open>C27. The order of a map reaches the node. What MaRTA writes about a map the job reads as the same map
  at the same address, and what the job then writes the node reads as the routine of the job,
  the block of the map and the name of its temporary file, without bytes missing or left over
  in any of its parts.\<close>

theorem map_order_reaches_node:
  assumes "map_fits m" and "fits32 fileMap"
  shows "\<exists>jm. map_order_bytes m = COMMAND_MAP # tl (map_order_bytes m) \<and>
    desserializeMapOrder (tl (map_order_bytes m)) = Some jm \<and>
    jm_mapID jm = mp_id m \<and> jm_ip_nodo jm = mp_nodeIP m \<and> jm_port_nodo jm = mp_nodePort m \<and>
    deserializeMap_request (map_packet fileMap jm) = Some (mp_numBlock m, fileMap, cstr (mp_tempResultName m))"
proof -
  have m: "fits16 (mp_nodeIP m)" "name60 (mp_tempResultName m)" "fits32 (cstr (mp_tempResultName m))"
    using assms(1) fits32_name60 by (auto simp: map_fits_def)
  show ?thesis
    by (simp add: map_order_bytes_def Let_def desserializeMapOrder_def deserializeMap_request_def map_packet_def wire m assms(2))
qed

definition demo_map :: t_map where
  "demo_map = \<lparr>mp_id = 3, mp_copies = [], mp_nodeName = ''n1'', mp_nodeIP = ''10.0.0.1'', mp_nodePort = 6500, mp_numBlock = 4,
     mp_tempResultName = str_bytes ''t'' @ replicate 59 0, mp_done = False\<rparr>"

lemma demo_map_fits: "map_fits demo_map"
  by (simp add: map_fits_def demo_map_def fits16_def name60_def c_string_def)

theorem map_order_reaches_node_witness:
  "\<exists>jm. desserializeMapOrder (tl (map_order_bytes demo_map)) = Some jm \<and>
     deserializeMap_request (map_packet ''cat'' jm) = Some (4, ''cat'', cstr (str_bytes ''t'' @ replicate 59 0))"
  using map_order_reaches_node [OF demo_map_fits, of "''cat''"] by (auto simp: fits32_def c_string_def demo_map_def)

section \<open>A reduce\<close>

definition temp_fits :: "t_temp \<Rightarrow> bool" where
  "temp_fits t \<longleftrightarrow> fits16 (tp_nodeID t) \<and> fits16 (tp_nodeIP t) \<and> name60 (tp_tempName t)"

definition reduce_fits :: "t_reduce \<Rightarrow> bool" where
  "reduce_fits rd \<longleftrightarrow> (\<forall>ip. rd_nodeIP rd = Some ip \<longrightarrow> fits16 ip) \<and> name60 (rd_tempResultName rd) \<and>
     (\<forall>t \<in> set (rd_temps rd). temp_fits t) \<and> length (rd_temps rd) < 2 ^ 16 \<and>
     length (concat (map serializeTemp (rd_temps rd))) + 2 < 2 ^ 32"

text \<open>What the node makes of a temporary file of the reduce.\<close>

definition operation_of :: "t_temp \<Rightarrow> node_connection_getTmpFileOperation_t" where
  "operation_of t = node_connection_getTmpFileOperation_create (tp_nodeID t) (tp_nodeIP t) (tp_nodePort t) (cstr (tp_tempName t))"

lemma get_operation_eq: "temp_fits t \<Longrightarrow> get_operation (serializeTemp t @ r) = Some (operation_of t, r)"
  by (simp add: temp_fits_def serializeTemp_def get_operation_def operation_of_def Let_def wire)

lemma get_operations_eq:
  "\<forall>t \<in> set ts. temp_fits t \<Longrightarrow> get_operations (length ts) (concat (map serializeTemp ts) @ r) = Some (map operation_of ts)"
  by (induction ts) (simp_all add: get_operation_eq)

text \<open>C26. The order of a reduce reaches the node. The job passes on the list of temporary files without
  reading it; the node reads one operation for each of them, in their order, with the node that
  has the file, its address and the name of the file, and the name for the result.\<close>

theorem reduce_order_reaches_node:
  assumes "reduce_fits rd" and "rd_nodeIP rd = Some ip" and "fits32 fileReduce"
  shows "\<exists>bs jr. reduce_order_bytes rd = Some (COMMAND_REDUCE # bs) \<and> desserializeReduceOrder bs = Some jr \<and>
    jr_reduceID jr = rd_id rd \<and> jr_ip_nodo jr = ip \<and> jr_port_nodo jr = rd_nodePort rd \<and>
    deserializeReduce_request (reduce_packet fileReduce jr) =
      Some (fileReduce, cstr (rd_tempResultName rd), map operation_of (rd_temps rd))"
proof -
  let ?temps = "concat (map serializeTemp (rd_temps rd))"
  have r: "fits16 ip" "name60 (rd_tempResultName rd)" "fits32 (cstr (rd_tempResultName rd))"
    using assms(1,2) fits32_name60 by (auto simp: reduce_fits_def)
  have small: "unat (word_of_nat (length (rd_temps rd)) :: u16) = length (rd_temps rd)"
    using assms(1) by (auto simp: reduce_fits_def unat_of_nat take_bit_eq_mod)
  let ?tail = "be16 (word_of_nat (length (rd_temps rd))) @ ?temps"
  have "unat (word_of_nat (length ?tail) :: u32) = length ?tail"
    using assms(1) by (intro unat_small32) (simp add: reduce_fits_def)
  then have tail: "take (unat (word_of_nat (length ?tail) :: u32)) ?tail = ?tail" by (simp only: take_all order_refl)
  have "get_operations (length (rd_temps rd)) (?temps @ replicate 4 0) = Some (map operation_of (rd_temps rd))"
    using assms(1) by (intro get_operations_eq) (auto simp: reduce_fits_def)
  then show ?thesis
    by (simp add: reduce_order_bytes_def Let_def desserializeReduceOrder_def deserializeReduce_request_def reduce_packet_def wire
        assms(2,3) r small tail del: length_append take_append)
qed

definition demo_reduce :: t_reduce where
  "demo_reduce = \<lparr>rd_id = 1, rd_temps = [\<lparr>tp_originMap = 3, tp_nodeID = ''n1'', tp_nodeIP = ''10.0.0.1'', tp_nodePort = 6500,
       tp_tempName = str_bytes ''t'' @ replicate 59 0\<rparr>],
     rd_finalNode = Some ''n2'', rd_nodeIP = Some ''10.0.0.2'', rd_nodePort = 6501,
     rd_tempResultName = str_bytes ''u'' @ replicate 59 0, rd_done = False\<rparr>"

theorem reduce_order_reaches_node_witness:
  "\<exists>bs jr ops. reduce_order_bytes demo_reduce = Some (COMMAND_REDUCE # bs) \<and> desserializeReduceOrder bs = Some jr \<and>
     deserializeReduce_request (reduce_packet ''sort'' jr) = Some (''sort'', cstr (rd_tempResultName demo_reduce), ops) \<and>
     map go_nodeId ops = [''n1'']"
proof -
  have "reduce_fits demo_reduce"
    by (simp add: reduce_fits_def demo_reduce_def temp_fits_def fits16_def name60_def c_string_def serializeTemp_def)
  moreover have "rd_nodeIP demo_reduce = Some ''10.0.0.2''" "fits32 ''sort''" by (simp_all add: demo_reduce_def fits32_def c_string_def)
  ultimately show ?thesis using reduce_order_reaches_node [of demo_reduce "''10.0.0.2''" "''sort''"]
    by (fastforce simp: demo_reduce_def operation_of_def node_connection_getTmpFileOperation_create_def)
qed

section \<open>Requests and results\<close>

text \<open>What MaRTA reads from a request of the job: the combiner, the result file and the list of files.\<close>

lemma job_request_config:
  "fits16 fileResult \<Longrightarrow> fits16 stringFiles \<Longrightarrow>
     job_request (config_bytes combiner fileResult stringFiles) = Some (combiner, fileResult, stringFiles)"
  by (simp add: job_request_def config_bytes_def Let_def wire) (simp add: fits16_def)

lemma mapResult_bytes: "mapResult (tl (sendMapResult_bytes i result)) = Some (result, i)"
  using get_u16_be16 [of i "[]"] by (simp add: mapResult_def sendMapResult_bytes_def)

lemma reduceResult_fail: "fits16 fallen \<Longrightarrow> reduceResult (tl (failReduce_bytes i fallen)) = Some (i, Some fallen)"
  using get_fits16(1) [of fallen "[]"] by (simp add: reduceResult_def failReduce_bytes_def Let_def wire)

lemma reduceResult_done: "reduceResult (tl (confirm_bytes i)) = Some (i, None)"
  using get_u16_be16 [of i "[]"] by (simp add: reduceResult_def confirm_bytes_def)

text \<open>The node that a node blames for a failed reduce.\<close>

definition blamed :: "string option \<Rightarrow> 'n node_world \<Rightarrow> string option" where
  "blamed nodeIdFailed w = (case nodeIdFailed of Some i \<Rightarrow> Some i | None \<Rightarrow> cf_name (n_cfg w))"

text \<open>The result of a reduce reaches MaRTA. Whatever the node answers, the job makes of it exactly one
  message for MaRTA, which MaRTA reads as the reduce of the order: done, or failed with the name
  of the node that the node blames, its own when no other failed. The job never reports a
  failure as a success.\<close>

theorem reduce_result_reaches_marta:
  assumes "reduce_answer ok nodeIdFailed w = Some (answer, w')" and "\<not> ok \<Longrightarrow> blamed nodeIdFailed w = Some i \<and> fits16 i"
  shows "\<exists>result rest bs. get_u8 answer = Some (result, rest) \<and>
    confirmarReduce E r (result \<noteq> 0) rest jw = Some (snd (job_send E (jw_marta jw) (COMMAND_REDUCE # bs) jw)) \<and>
    reduceResult bs = Some (jr_reduceID r, if ok then None else Some i)"
proof (cases ok)
  case True
  then have "answer = [1]" using assms(1) by (simp add: reduce_answer_def)
  then show ?thesis using True reduceResult_done [of "jr_reduceID r"]
    by (auto simp: confirmarReduce_def confirm_bytes_def intro: exI [of _ "1 # be16 (jr_reduceID r)"])
next
  case False
  with assms(2) have i: "blamed nodeIdFailed w = Some i" "fits16 i" by simp_all
  then have "answer = 0 # be16 (word_of_nat (length i)) @ str_bytes i"
    using assms(1) False by (auto simp: reduce_answer_def blamed_def Let_def bind_eq_Some_conv wire split: option.splits)
  then show ?thesis using False i(2) reduceResult_fail [OF i(2), of "jr_reduceID r"] get_fits16(1) [of i "[]"]
    by (intro exI [of _ 0] exI [of _ "be16 (word_of_nat (length i)) @ str_bytes i"] exI [of _ "tl (failReduce_bytes (jr_reduceID r) i)"])
      (simp add: confirmarReduce_def failReduce_def, simp add: failReduce_bytes_def Let_def)
qed

definition job_demo_env :: "chunk_net job_env" where
  "job_demo_env = \<lparr>k_os = chunk_os True, k_connect = (\<lambda>_ _ net. (8, net)), k_file = (\<lambda>_. None), k_page = 4096,
     k_cfg = \<lparr>jc_PUERTO_MARTA = 1, jc_IP_MARTA = ''h'', jc_MAPPER = ''m'', jc_REDUCER = ''r'', jc_RESULTADO = ''res'',
       jc_LIST_ARCHIVOS = ''/a'', jc_COMBINER = True\<rparr>\<rparr>"

theorem reduce_result_reaches_marta_witness:
  "\<exists>result rest bs. get_u8 (0 # be16 2 @ str_bytes ''n2'') = Some (result, rest) \<and>
     confirmarReduce job_demo_env \<lparr>jr_reduceID = 7, jr_ip_nodo = ''h'', jr_port_nodo = 1, jr_tempResultName = ''t'', jr_buffer_tmps = []\<rparr>
       (result \<noteq> 0) rest \<lparr>jw_marta = 5, jw_net = ((\<lambda>_. []), (\<lambda>_. []))\<rparr> =
     Some (snd (job_send job_demo_env 5 (COMMAND_REDUCE # bs) \<lparr>jw_marta = 5, jw_net = ((\<lambda>_. []), (\<lambda>_. []))\<rparr>)) \<and>
     reduceResult bs = Some (7, Some ''n2'')"
proof -
  let ?r = "\<lparr>jr_reduceID = 7, jr_ip_nodo = ''h'', jr_port_nodo = 1, jr_tempResultName = ''t'', jr_buffer_tmps = []\<rparr>"
  let ?w = "node_demo ((\<lambda>_. []), (\<lambda>_. []))" and ?jw = "\<lparr>jw_marta = 5, jw_net = ((\<lambda>_. []), (\<lambda>_. []))\<rparr>"
  have "reduce_answer False (Some ''n2'') ?w = Some (0 # be16 2 @ str_bytes ''n2'', ?w)" by (simp add: reduce_answer_def)
  from reduce_result_reaches_marta [where E = job_demo_env and r = ?r and jw = ?jw and i = "''n2''", OF this]
  show ?thesis by (simp add: blamed_def fits16_def c_string_def)
qed

text \<open>The result of a map reaches MaRTA, and so does the configuration of the job.\<close>

lemma job_messages_reach_marta:
  assumes "fits16 fileResult" and "fits16 stringFiles"
  shows "job_request (config_bytes combiner fileResult stringFiles) = Some (combiner, fileResult, stringFiles) \<and>
    sendMapResult_bytes i result = COMMAND_MAP # tl (sendMapResult_bytes i result) \<and>
    mapResult (tl (sendMapResult_bytes i result)) = Some (result, i)"
  using assms by (simp add: job_request_config mapResult_bytes) (simp add: sendMapResult_bytes_def)

end
