(* ===== verification/Socket_Setup.thy ===== *)
theory Socket_Setup
  imports Socket
begin

text \<open>
  The first part of \<open>utils/socket.c\<close>: opening, accepting, connecting and closing. The calls of
  the operating system are parameters acting on the state of the outside world; the locale
  \<open>descriptors\<close> says what they do to the descriptors the process has open: \<open>socket\<close> and \<open>accept\<close>
  open one, \<open>close\<close> closes one, and no other call, \<open>shutdown\<close> among them, does either. Lemmas:
  what every function leaves open when it succeeds and when it fails.
\<close>

section \<open>The system calls\<close>

text \<open>What \<open>getaddrinfo\<close> leaves in its result: the list of addresses, NULL, or, when it fails,
  whatever was there.\<close>

datatype 'a addrinfo = Addr 'a | NoAddr | Unset

record ('a, 'n) setup_os =
  s_getaddrinfo :: "string option \<Rightarrow> string \<Rightarrow> 'n \<Rightarrow> 'a addrinfo \<times> 'n"
  s_socket :: "'a \<Rightarrow> 'n \<Rightarrow> int \<times> 'n"
  s_bind :: "int \<Rightarrow> 'a \<Rightarrow> 'n \<Rightarrow> int \<times> 'n"
  s_reuseaddr :: "int \<Rightarrow> 'n \<Rightarrow> int \<times> 'n"
  s_listen :: "int \<Rightarrow> int \<Rightarrow> 'n \<Rightarrow> int \<times> 'n"
  s_accept :: "int \<Rightarrow> 'n \<Rightarrow> int \<times> string \<times> 'n"
  s_connect :: "int \<Rightarrow> 'a \<Rightarrow> 'n \<Rightarrow> int \<times> 'n"
  s_close :: "int \<Rightarrow> 'n \<Rightarrow> 'n"
  s_shutdown :: "int \<Rightarrow> 'n \<Rightarrow> int \<times> 'n"

section \<open>socket.c\<close>

text \<open>\<open>sprintf\<close> of the port into ten bytes.\<close>

definition socket_set_port_string :: "u16 \<Rightarrow> string" where
  "socket_set_port_string port = dec (unat port)"

text \<open>\<^const>\<open>None\<close>: the pointer that \<open>getaddrinfo\<close> should have set is used without a test.\<close>

definition socket_listen :: "('a, 'n) setup_os \<Rightarrow> u16 \<Rightarrow> 'n \<Rightarrow> (int \<times> 'n) option" where
  "socket_listen S port n =
     (case s_getaddrinfo S None (socket_set_port_string port) n of
        (Addr serverInfo, n1) \<Rightarrow>
          let (fd, n2) = s_socket S serverInfo n1
          in if 0 > fd then Some (status_code SOCKET_ERROR_SOCKET, n2)
             else let (bound, n3) = s_bind S fd serverInfo n2
               in if 0 > bound then Some (status_code SOCKET_ERROR_BIND, n3)
                  else let (opt, n4) = s_reuseaddr S fd n3
                    in if opt = -1 then Some (status_code SOCKET_ERROR_SETSOCKETOPT, n4)
                       else let (listening, n5) = s_listen S fd 5 n4
                         in if 0 > listening then Some (status_code SOCKET_ERROR_LISTEN, n5)
                            else Some (fd, n5)
      | _ \<Rightarrow> None)"

text \<open>The address stays NULL when there is no client.\<close>

definition socket_accept_and_get_ip :: "('a, 'n) setup_os \<Rightarrow> int \<Rightarrow> 'n \<Rightarrow> int \<times> string option \<times> 'n" where
  "socket_accept_and_get_ip S fdListener n =
     (let (fd, addr, n1) = s_accept S fdListener n
      in if 0 > fd then (status_code SOCKET_ERROR_ACCEPT, None, n1) else (fd, Some addr, n1))"

definition socket_accept :: "('a, 'n) setup_os \<Rightarrow> int \<Rightarrow> 'n \<Rightarrow> int \<times> 'n" where
  "socket_accept S fdListener n = (let (fd, _, n1) = socket_accept_and_get_ip S fdListener n in (fd, n1))"

text \<open>The test of \<open>serverInfo\<close> reads an unset pointer when \<open>getaddrinfo\<close> failed.\<close>

definition socket_connect :: "('a, 'n) setup_os \<Rightarrow> string \<Rightarrow> u16 \<Rightarrow> 'n \<Rightarrow> (int \<times> 'n) option" where
  "socket_connect S ip port n =
     (case s_getaddrinfo S (Some ip) (socket_set_port_string port) n of
        (Unset, n1) \<Rightarrow> None
      | (NoAddr, n1) \<Rightarrow> Some (status_code SOCKET_ERROR_ADDRESS, n1)
      | (Addr serverInfo, n1) \<Rightarrow>
          let (fd, n2) = s_socket S serverInfo n1
          in if 0 > fd then Some (status_code SOCKET_ERROR_SOCKET, n2)
             else let (connected, n3) = s_connect S fd serverInfo n2
               in if 0 > connected then Some (status_code SOCKET_ERROR_CONNECT, s_close S fd n3)
                  else Some (fd, n3))"

definition socket_close :: "('a, 'n) setup_os \<Rightarrow> int \<Rightarrow> 'n \<Rightarrow> e_socket_status \<times> 'n" where
  "socket_close S socket n =
     (let (r, n1) = s_shutdown S socket n in (if 0 > r then SOCKET_ERROR_CLOSE else SOCKET_ERROR_NONE, n1))"

lemma port_string_fits: "length (socket_set_port_string port) < 10"
proof -
  have "unat port < 10 ^ 5" using unsigned_less [where 'a = nat, of port] by simp
  then show ?thesis using length_dec_le [of "unat port" 5] by (simp add: socket_set_port_string_def)
qed

section \<open>Descriptors\<close>

locale descriptors =
  fixes S :: "('a, 'n) setup_os" and fds :: "'n \<Rightarrow> int set"
  assumes getaddrinfo_fds: "s_getaddrinfo S ip port n = (info, n') \<Longrightarrow> fds n' = fds n"
    and socket_fds: "s_socket S a n = (fd, n') \<Longrightarrow> (if 0 > fd then fds n' = fds n else fd \<notin> fds n \<and> fds n' = insert fd (fds n))"
    and bind_fds: "s_bind S fd a n = (r, n') \<Longrightarrow> fds n' = fds n"
    and reuseaddr_fds: "s_reuseaddr S fd n = (r, n') \<Longrightarrow> fds n' = fds n"
    and listen_fds: "s_listen S fd k n = (r, n') \<Longrightarrow> fds n' = fds n"
    and accept_fds: "s_accept S l n = (fd, addr, n') \<Longrightarrow> (if 0 > fd then fds n' = fds n else fd \<notin> fds n \<and> fds n' = insert fd (fds n))"
    and connect_fds: "s_connect S fd a n = (r, n') \<Longrightarrow> fds n' = fds n"
    and close_fds: "fds (s_close S fd n) = fds n - {fd}"
    and shutdown_fds: "s_shutdown S fd n = (r, n') \<Longrightarrow> fds n' = fds n"
begin

lemma connect_opens:
  assumes "socket_connect S ip port n = Some (fd, n')"
  shows "if 0 > fd then fds n' = fds n else fd \<notin> fds n \<and> fds n' = insert fd (fds n)"
proof -
  obtain info n1 where g: "s_getaddrinfo S (Some ip) (socket_set_port_string port) n = (info, n1)" by fastforce
  note g' = getaddrinfo_fds [OF g]
  show ?thesis
  proof (cases info)
    case (Addr a)
    obtain d n2 where s: "s_socket S a n1 = (d, n2)" by fastforce
    obtain r n3 where c: "s_connect S d a n2 = (r, n3)" by fastforce
    show ?thesis using assms g' socket_fds [OF s] connect_fds [OF c]
      by (auto simp: socket_connect_def g Addr s c close_fds split: if_splits)
  qed (use assms g g' in \<open>simp_all add: socket_connect_def\<close>)
qed

lemma accept_opens:
  assumes "socket_accept_and_get_ip S l n = (fd, ip, n')"
  shows "(if 0 > fd then fds n' = fds n else fd \<notin> fds n \<and> fds n' = insert fd (fds n)) \<and> (ip = None \<longleftrightarrow> 0 > fd)"
proof -
  obtain d addr n1 where a: "s_accept S l n = (d, addr, n1)" by (cases "s_accept S l n") auto
  show ?thesis using accept_fds [OF a] assms by (cases "0 > d") (auto simp: socket_accept_and_get_ip_def a)
qed

lemma listen_opens:
  assumes "socket_listen S port n = Some (fd, n')"
  shows "if 0 \<le> fd then fd \<notin> fds n \<and> fds n' = insert fd (fds n)
    else if fd = status_code SOCKET_ERROR_SOCKET then fds n' = fds n
    else \<exists>d. d \<notin> fds n \<and> fds n' = insert d (fds n)"
proof -
  obtain info n1 where g: "s_getaddrinfo S None (socket_set_port_string port) n = (info, n1)" by fastforce
  note g' = getaddrinfo_fds [OF g]
  show ?thesis
  proof (cases info)
    case (Addr a)
    obtain d n2 where s: "s_socket S a n1 = (d, n2)" by fastforce
    obtain b n3 where b: "s_bind S d a n2 = (b, n3)" by fastforce
    obtain u n4 where u: "s_reuseaddr S d n3 = (u, n4)" by fastforce
    obtain l n5 where l: "s_listen S d 5 n4 = (l, n5)" by fastforce
    show ?thesis using assms g' socket_fds [OF s] bind_fds [OF b] reuseaddr_fds [OF u] listen_fds [OF l]
      by (cases "0 > d"; cases "0 > b"; cases "u = -1"; cases "0 > l") (auto simp: socket_listen_def g Addr s b u l)
  qed (use assms g g' in \<open>simp_all add: socket_listen_def\<close>)
qed

lemma close_keeps: "socket_close S fd n = (st, n') \<Longrightarrow> fds n' = fds n"
  by (cases "s_shutdown S fd n") (auto simp: socket_close_def dest: shutdown_fds)

end

section \<open>A host\<close>

text \<open>A host that gives each descriptor once. Its state: the descriptors open, the next one, and
  the ports bound.\<close>

record host =
  h_fds :: "int list"
  h_next :: nat
  h_bound :: "string list"

definition host_os :: "(string, host) setup_os" where
  "host_os = \<lparr>
     s_getaddrinfo = (\<lambda>ip port n. (Addr port, n)),
     s_socket = (\<lambda>a n. (int (h_next n), n\<lparr>h_fds := int (h_next n) # h_fds n, h_next := h_next n + 1\<rparr>)),
     s_bind = (\<lambda>fd a n. if a \<in> set (h_bound n) then (-1, n) else (0, n\<lparr>h_bound := a # h_bound n\<rparr>)),
     s_reuseaddr = (\<lambda>fd n. (0, n)),
     s_listen = (\<lambda>fd k n. (0, n)),
     s_accept = (\<lambda>l n. (int (h_next n), ''10.0.0.9'', n\<lparr>h_fds := int (h_next n) # h_fds n, h_next := h_next n + 1\<rparr>)),
     s_connect = (\<lambda>fd a n. (if a \<in> set (h_bound n) then 0 else -1, n)),
     s_close = (\<lambda>fd n. n\<lparr>h_fds := removeAll fd (h_fds n)\<rparr>),
     s_shutdown = (\<lambda>fd n. (0, n))\<rparr>"

text \<open>The descriptors that are open and below the next one; the rest the host never gave.\<close>

definition host_fds :: "host \<Rightarrow> int set" where
  "host_fds n = {d \<in> set (h_fds n). 0 \<le> d \<and> d < int (h_next n)}"

interpretation host: descriptors host_os host_fds
  by unfold_locales (auto simp: host_os_def host_fds_def split: if_splits)

lemma port_3000: "socket_set_port_string 3000 = ''3000''"
  by (simp add: socket_set_port_string_def dec.simps digit_def char_of_def bit_iff_odd)

section \<open>Properties\<close>

text \<open>What opening a connection leaves open. \<open>socket_connect\<close> and \<open>socket_accept_and_get_ip\<close> open
  one descriptor, the one they return, and none when they fail. \<open>socket_listen\<close> opens the one it
  returns; when binding, the option or listening fails, the descriptor it made stays open and
  nobody knows it.\<close>

theorem failed_listen_leaks:
  assumes "descriptors S fds"
  shows "(socket_connect S ip port n = Some (fd, n1) \<longrightarrow>
      (if 0 > fd then fds n1 = fds n else fd \<notin> fds n \<and> fds n1 = insert fd (fds n))) \<and>
    (socket_accept_and_get_ip S l n = (fd, addr, n1) \<longrightarrow>
      (if 0 > fd then fds n1 = fds n else fd \<notin> fds n \<and> fds n1 = insert fd (fds n)) \<and> (addr = None \<longleftrightarrow> 0 > fd)) \<and>
    (socket_listen S port n = Some (fd, n1) \<longrightarrow>
      (if 0 \<le> fd then fd \<notin> fds n \<and> fds n1 = insert fd (fds n)
       else if fd = status_code SOCKET_ERROR_SOCKET then fds n1 = fds n
       else \<exists>d. d \<notin> fds n \<and> fds n1 = insert d (fds n)))"
  using descriptors.connect_opens [OF assms] descriptors.accept_opens [OF assms] descriptors.listen_opens [OF assms] by blast

definition busy_host :: host where
  "busy_host = \<lparr>h_fds = [0, 1, 2], h_next = 3, h_bound = [''3000'']\<rparr>"

theorem failed_listen_leaks_witness:
  "\<exists>n1. socket_listen host_os 3000 busy_host = Some (status_code SOCKET_ERROR_BIND, n1) \<and> (\<exists>d. d \<notin> host_fds busy_host \<and> d \<in> host_fds n1)"
proof -
  have run: "socket_listen host_os 3000 busy_host =
      Some (status_code SOCKET_ERROR_BIND, \<lparr>h_fds = [3, 0, 1, 2], h_next = 4, h_bound = [''3000'']\<rparr>)"
    by (simp add: socket_listen_def host_os_def busy_host_def port_3000)
  from failed_listen_leaks [OF host.descriptors_axioms, THEN conjunct2, THEN conjunct2, THEN mp, OF run] run show ?thesis by auto
qed

text \<open>Connecting to a server and closing the connection, \<open>k\<close> times.\<close>

fun visits :: "('a, 'n) setup_os \<Rightarrow> string \<Rightarrow> u16 \<Rightarrow> nat \<Rightarrow> 'n \<Rightarrow> (nat \<times> 'n) option" where
  "visits S ip port 0 n = Some (0, n)"
| "visits S ip port (Suc k) n =
     do {
       (fd, n1) \<leftarrow> socket_connect S ip port n;
       let n2 = (if 0 > fd then n1 else snd (socket_close S fd n1));
       (connected, n3) \<leftarrow> visits S ip port k n2;
       Some (if 0 > fd then connected else connected + 1, n3)
     }"

text \<open>C35. Closing a connection does not close its descriptor: \<open>socket_close\<close> shuts the connection down
  and leaves the descriptor open. A process that connects and closes \<open>k\<close> times has one more
  descriptor open for every time it was connected, until the system refuses it more.\<close>

theorem closing_keeps_descriptors:
  assumes "descriptors S fds" and "visits S ip port k n = Some (connected, n')" and "finite (fds n)"
  shows "card (fds n') = card (fds n) + connected \<and> fds n \<subseteq> fds n'"
proof -
  have "finite (fds n') \<and> card (fds n') = card (fds n) + connected \<and> fds n \<subseteq> fds n'" using assms(2,3)
  proof (induction k arbitrary: n connected)
    case (Suc k)
    from Suc.prems(1) obtain fd n1 c where 1: "socket_connect S ip port n = Some (fd, n1)"
      and 2: "visits S ip port k (if 0 > fd then n1 else snd (socket_close S fd n1)) = Some (c, n')"
      and c: "connected = (if 0 > fd then c else c + 1)" by (auto simp: bind_eq_Some_conv Let_def)
    have "fds (snd (socket_close S fd n1)) = fds n1" using descriptors.close_keeps [OF assms(1)] by (metis prod.collapse)
    moreover note descriptors.connect_opens [OF assms(1) 1]
    ultimately show ?case using Suc.IH [OF 2] Suc.prems(2) c by (auto split: if_splits)
  qed simp
  then show ?thesis by simp
qed

theorem closing_keeps_descriptors_witness:
  "\<exists>n'. visits host_os ''10.0.0.1'' 3000 2 busy_host = Some (2, n') \<and> card (host_fds n') = card (host_fds busy_host) + 2"
proof -
  have run: "visits host_os ''10.0.0.1'' 3000 2 busy_host = Some (2, \<lparr>h_fds = [4, 3, 0, 1, 2], h_next = 5, h_bound = [''3000'']\<rparr>)"
    by (simp add: numeral_2_eq_2 socket_connect_def host_os_def busy_host_def port_3000 socket_close_def)
  have "finite (host_fds busy_host)" by (simp add: host_fds_def)
  from closing_keeps_descriptors [OF host.descriptors_axioms run this] run show ?thesis by auto
qed

end
