(* ===== verification/Startup.thy ===== *)
theory Startup
  imports Console_Session FS_Listener Marta_Planning Nodo_Connections Job
begin

text \<open>
  The starts of the four programs: \<open>FileSystem/src/main.c\<close>, \<open>MaRTA/src/MaRTA.c\<close>, \<open>Nodo/src/node.c\<close>
  and \<open>Job/src/Job.c\<close>. Each reads its configuration file with the commons library, which is a
  parameter: the file is a map from keys to values, or does not exist, and \<open>g_int\<close> is the number
  that \<open>config_get_int_value\<close> reads from a value. A program that goes on after its start
  \<open>Runs\<close>; \<^const>\<open>None\<close> is undefined behaviour, a NULL pointer used. Lemmas: which configurations
  are accepted, what a wrong start does, and that the file system starts consistent.
\<close>

section \<open>Configuration files\<close>

record config_env =
  g_config :: "string \<Rightarrow> (string \<rightharpoonup> string) option"
  g_int :: "string \<Rightarrow> int"

text \<open>The functions inside every \<open>initConfig\<close>: the value and whether a key has been missing.\<close>

definition getConfigInt :: "config_env \<Rightarrow> (string \<rightharpoonup> string) \<Rightarrow> string \<Rightarrow> bool \<Rightarrow> int \<times> bool" where
  "getConfigInt G config property failure =
     (case config property of Some v \<Rightarrow> (g_int G v, failure) | None \<Rightarrow> (-1, True))"

definition getConfigString :: "(string \<rightharpoonup> string) \<Rightarrow> string \<Rightarrow> bool \<Rightarrow> string \<times> bool" where
  "getConfigString config property failure =
     (case config property of Some v \<Rightarrow> (v, failure) | None \<Rightarrow> ('''', True))"

text \<open>Only the storage node tests whether there is a file.\<close>

definition mdfs_initConfig :: "config_env \<Rightarrow> (bool \<times> fs_connections_cfg_t) option" where
  "mdfs_initConfig G =
     do {
       config \<leftarrow> g_config G ''config.cfg'';
       let (port, missing) = getConfigInt G config ''PORT'' False;
       let (minNodesCount, missing) = getConfigInt G config ''MIN_NODES_COUNT'' missing;
       Some (\<not> missing, \<lparr>fc_port = port, fc_minNodesCount = minNodesCount\<rparr>)
     }"

record t_configMaRTA =
  mc_listenPort :: u16
  mc_fsIP :: string
  mc_fsPort :: u16

definition marta_initConfig :: "config_env \<Rightarrow> string \<Rightarrow> (bool \<times> t_configMaRTA) option" where
  "marta_initConfig G configFile =
     do {
       config \<leftarrow> g_config G configFile;
       let (listenPort, failure) = getConfigInt G config ''PUERTO_LISTEN'' False;
       let (fsIP, failure) = getConfigString config ''IP_FILE_SYSTEM'' failure;
       let (fsPort, failure) = getConfigInt G config ''PUERTO_FILE_SYSTEM'' failure;
       Some (\<not> failure, \<lparr>mc_listenPort = word_of_int listenPort, mc_fsIP = fsIP, mc_fsPort = word_of_int fsPort\<rparr>)
     }"

definition job_initConfig :: "config_env \<Rightarrow> string \<Rightarrow> (bool \<times> t_configJob) option" where
  "job_initConfig G configFile =
     do {
       config \<leftarrow> g_config G configFile;
       let (puerto, failure) = getConfigInt G config ''PUERTO_MARTA'' False;
       let (ip, failure) = getConfigString config ''IP_MARTA'' failure;
       let (mapper, failure) = getConfigString config ''MAPPER'' failure;
       let (reducer, failure) = getConfigString config ''REDUCER'' failure;
       let (resultado, failure) = getConfigString config ''RESULTADO'' failure;
       let (archivos, failure) = getConfigString config ''LIST_ARCHIVOS'' failure;
       let (combiner, failure) = getConfigInt G config ''COMBINER'' failure;
       Some (\<not> failure, \<lparr>jc_PUERTO_MARTA = word_of_int puerto, jc_IP_MARTA = ip, jc_MAPPER = mapper, jc_REDUCER = reducer,
         jc_RESULTADO = resultado, jc_LIST_ARCHIVOS = archivos, jc_COMBINER = (combiner \<noteq> 0)\<rparr>)
     }"

text \<open>Without a file the configuration keeps its NULL fields: the inner \<^const>\<open>None\<close>.\<close>

definition node_initConfig :: "config_env \<Rightarrow> string \<Rightarrow> bool \<times> t_nodeCfg option" where
  "node_initConfig G configFile =
     (case g_config G configFile of
        None \<Rightarrow> (False, None)
      | Some config \<Rightarrow>
          let (fsIp, failure) = getConfigString config ''FS_IP'' False;
              (fsPort, failure) = getConfigInt G config ''FS_PORT'' failure;
              (listenPort, failure) = getConfigInt G config ''LISTEN_PORT'' failure;
              (binFilePath, failure) = getConfigString config ''BIN_FILE_PATH'' failure;
              (newNode, failure) = getConfigInt G config ''NEW_NODE'' failure;
              (blocksCount, failure) = getConfigInt G config ''BLOCKS_COUNT'' failure;
              (name, failure) = getConfigString config ''NAME'' failure;
              (tmpDir, failure) = getConfigString config ''TMP_DIR'' failure
          in (\<not> failure, Some \<lparr>cf_fsIp = fsIp, cf_fsPort = word_of_int fsPort, cf_listenPort = word_of_int listenPort,
               cf_binFilePath = binFilePath, cf_tmpDir = tmpDir, cf_newNode = (newNode \<noteq> 0), cf_name = Some name,
               cf_blocksCount = word_of_int blocksCount\<rparr>))"

section \<open>The programs\<close>

datatype 'a process = Exits int | Runs 'a

definition EXIT_SUCCESS :: int where "EXIT_SUCCESS = 0"
definition EXIT_FAILURE :: int where "EXIT_FAILURE = 1"

text \<open>The file system: the console is its main thread, so it ends when the user leaves it.\<close>

definition mdfs_main :: "config_env \<Rightarrow> ('n, 'db) env \<Rightarrow> popen \<Rightarrow> (nat \<Rightarrow> nat list) \<Rightarrow> byte list \<Rightarrow> ('n, 'db) marta_world \<Rightarrow>
    (int \<times> message list \<times> ('n, 'db) marta_world) option" where
  "mdfs_main G E popen schedules input s =
     do {
       (ok, config) \<leftarrow> mdfs_initConfig G;
       (if \<not> ok then Some (EXIT_FAILURE, [], s)
        else do {
          let (fs, w) = connections_initialize (filesystem_initialize E (snd s));
          (ms, c, w1) \<leftarrow> console_start E popen schedules input w;
          Some (EXIT_SUCCESS, ms, (fs, w1))
        })
     }"

text \<open>MaRTA: a start that fails calls \<open>freeMaRTA\<close>, which uses the configuration and the list of
  nodes before they are made.\<close>

definition marta_main :: "config_env \<Rightarrow> string list \<Rightarrow> ('n, 'z) marta_env_scheme \<Rightarrow> 'n marta \<Rightarrow>
    (t_configMaRTA \<times> 'n marta) process option" where
  "marta_main G args E w =
     (case args of
        [configFile] \<Rightarrow> do {
          (ok, cfg) \<leftarrow> marta_initConfig G configFile;
          (if \<not> ok then None
           else do {
             w1 \<leftarrow> initFSConnection (E\<lparr>y_fsIP := mc_fsIP cfg, y_fsPort := mc_fsPort cfg\<rparr>) (w\<lparr>ma_nodes := [], ma_cantJobs := 0\<rparr>);
             Some (Runs (cfg, w1))
           })
        }
      | _ \<Rightarrow> None)"

text \<open>A storage node: its threads run until a signal comes.\<close>

definition node_main :: "config_env \<Rightarrow> string list \<Rightarrow> 'n node_env \<Rightarrow> 'n node_world \<Rightarrow> 'n node_world process option" where
  "node_main G args E w =
     (case args of
        [configFile] \<Rightarrow>
          (case node_initConfig G configFile of
             (True, Some cfg) \<Rightarrow> do {
               (started, w1) \<leftarrow> node_init E (w\<lparr>n_cfg := cfg, n_map := NullMap, n_locks := 0\<rparr>);
               Some (if started then Runs (w1\<lparr>n_fsSocket := -1\<rparr>) else Exits EXIT_FAILURE)
             }
           | _ \<Rightarrow> Some (Exits EXIT_FAILURE))
      | _ \<Rightarrow> Some (Exits EXIT_FAILURE))"

text \<open>A job: it ends as the order of MaRTA or a lost connection says, and with success when it could
  not even connect. \<open>mutex\<close>: whether the mutex could be made.\<close>

definition job_main :: "config_env \<Rightarrow> string list \<Rightarrow> bool \<Rightarrow> 'n job_env \<Rightarrow> 'n job_world \<Rightarrow> (int \<times> 'n job_world) option" where
  "job_main G args mutex E w =
     (case args of
        [configFile] \<Rightarrow> do {
          (ok, cfg) \<leftarrow> job_initConfig G configFile;
          (if \<not> ok then Some (EXIT_FAILURE, w)
           else if \<not> mutex then Some (1, w)
           else do {
             let E' = E\<lparr>k_cfg := cfg\<rparr>;
             (s, w1) \<leftarrow> conectarMarta E' w;
             (if 0 \<le> s then atenderMarta E' w1 else Some (EXIT_SUCCESS, w1))
           })
        }
      | _ \<Rightarrow> Some (EXIT_FAILURE, w))"

section \<open>Which configurations are accepted\<close>

named_theorems config "reading a configuration"

lemma getConfigInt_snd [config]: "snd (getConfigInt G config property failure) \<longleftrightarrow> failure \<or> property \<notin> dom config"
  by (auto simp: getConfigInt_def split: option.splits)

lemma getConfigString_snd [config]: "snd (getConfigString config property failure) \<longleftrightarrow> failure \<or> property \<notin> dom config"
  by (auto simp: getConfigString_def split: option.splits)

lemma getConfigInt_fst [config]: "config property = Some v \<Longrightarrow> fst (getConfigInt G config property failure) = g_int G v"
  by (simp add: getConfigInt_def)

lemma getConfigString_fst [config]: "config property = Some v \<Longrightarrow> fst (getConfigString config property failure) = v"
  by (simp add: getConfigString_def)

definition marta_keys :: "string set" where
  "marta_keys = {''PUERTO_LISTEN'', ''IP_FILE_SYSTEM'', ''PUERTO_FILE_SYSTEM''}"

definition job_keys :: "string set" where
  "job_keys = {''PUERTO_MARTA'', ''IP_MARTA'', ''MAPPER'', ''REDUCER'', ''RESULTADO'', ''LIST_ARCHIVOS'', ''COMBINER''}"

definition node_keys :: "string set" where
  "node_keys = {''FS_IP'', ''FS_PORT'', ''LISTEN_PORT'', ''BIN_FILE_PATH'', ''NEW_NODE'', ''BLOCKS_COUNT'', ''NAME'', ''TMP_DIR''}"

lemma mdfs_initConfig_ok:
  "map_option fst (mdfs_initConfig G) = map_option (\<lambda>config. {''PORT'', ''MIN_NODES_COUNT''} \<subseteq> dom config) (g_config G ''config.cfg'')"
  by (cases "g_config G ''config.cfg''") (simp_all add: mdfs_initConfig_def case_prod_unfold Let_def config)

lemma marta_initConfig_ok:
  "map_option fst (marta_initConfig G configFile) = map_option (\<lambda>config. marta_keys \<subseteq> dom config) (g_config G configFile)"
  by (cases "g_config G configFile") (simp_all add: marta_initConfig_def case_prod_unfold Let_def config marta_keys_def)

lemma job_initConfig_ok:
  "map_option fst (job_initConfig G configFile) = map_option (\<lambda>config. job_keys \<subseteq> dom config) (g_config G configFile)"
  by (cases "g_config G configFile") (simp_all add: job_initConfig_def case_prod_unfold Let_def config job_keys_def)

lemma node_initConfig_ok:
  "fst (node_initConfig G configFile) \<longleftrightarrow> (case g_config G configFile of None \<Rightarrow> False | Some config \<Rightarrow> node_keys \<subseteq> dom config)"
  by (cases "g_config G configFile") (simp_all add: node_initConfig_def case_prod_unfold Let_def config node_keys_def)

section \<open>The file system starts consistent\<close>

context fs_laws begin

lemma initialize_docs: "docs (w_db (filesystem_initialize E w)) = docs (w_db w)"
  by (rule ext) (simp add: filesystem_initialize_def mongo_file_init_def mongo_dir_init_def mongo_createIndexIfAbsent_def mon.index_frame)

lemma initialize_consistent:
  assumes "mdfs_inv E docs uniq (w_db w) \<or> (\<forall>c. docs (w_db w) c = {}) \<and> \<not> uniq (w_db w) NodeColl"
  shows "mdfs_inv E docs uniq (w_db (filesystem_initialize E w))"
proof -
  let ?db = "m_index E DirColl uniqueKeys True (w_db w)"
  have db: "w_db (filesystem_initialize E w) = m_index E FileColl uniqueKeys True ?db"
    by (simp add: filesystem_initialize_def mongo_file_init_def mongo_dir_init_def mongo_createIndexIfAbsent_def)
  have node: "uniq (w_db (filesystem_initialize E w)) NodeColl = uniq (w_db w) NodeColl" unfolding db by (simp add: mon.index_other)
  show ?thesis using assms
  proof
    assume inv: "mdfs_inv E docs uniq (w_db w)"
    then have "uniq (w_db (filesystem_initialize E w)) DirColl" "uniq (w_db (filesystem_initialize E w)) FileColl"
      unfolding db by (simp_all add: mdfs_inv_def meta_wf_def mon.index_keep)
    with inv node show ?thesis by (simp add: mdfs_inv_def meta_wf_def initialize_docs)
  next
    assume fresh: "(\<forall>c. docs (w_db w) c = {}) \<and> \<not> uniq (w_db w) NodeColl"
    then have "uniq ?db DirColl" by (intro mon.index_uniq) simp
    moreover have "uniq (m_index E FileColl uniqueKeys True ?db) FileColl"
      using fresh by (intro mon.index_uniq) (simp add: mon.index_frame)
    ultimately have "uniq (w_db (filesystem_initialize E w)) DirColl" "uniq (w_db (filesystem_initialize E w)) FileColl"
      unfolding db by (simp_all add: mon.index_keep)
    with fresh node show ?thesis
      by (simp add: mdfs_inv_def meta_wf_def initialize_docs typed_def space_ok_def meta_files_def meta_nodes_def elems_def)
  qed
qed

lemma started_consistent:
  assumes "mdfs_inv E docs uniq (w_db w) \<or> (\<forall>c. docs (w_db w) c = {}) \<and> \<not> uniq (w_db w) NodeColl"
  shows "mdfs_inv E docs uniq (w_db (snd (connections_initialize (filesystem_initialize E w))))"
  using initialize_consistent [OF assms] by (simp add: connections_initialize_def connections_marta_initialize_def connections_node_initialize_def)

end

section \<open>Properties\<close>

text \<open>The state in which the console and the threads start.\<close>

definition mdfs_started :: "('n, 'db) env \<Rightarrow> ('n, 'db) world \<Rightarrow> ('n, 'db) world" where
  "mdfs_started E w = snd (connections_initialize (filesystem_initialize E w))"

text \<open>C4. The file system starts consistent and its files survive a restart. On an empty database, or on
  one that an earlier run left consistent, the start changes no directory, file or node, makes
  the unique indexes and begins with no connection; every session of the console from there,
  with the operations of the other threads between its commands, keeps the database
  consistent, and so does \<open>main\<close>: it returns success with a consistent database, or failure,
  exactly when a key of its configuration is missing, with nothing changed.\<close>

theorem mdfs_starts_consistent:
  assumes "fs_laws E docs uniq"
    and "mdfs_inv E docs uniq (w_db w) \<or> (\<forall>c. docs (w_db w) c = {}) \<and> \<not> uniq (w_db w) NodeColl"
  shows "docs (w_db (mdfs_started E w)) = docs (w_db w) \<and> mdfs_inv E docs uniq (w_db (mdfs_started E w)) \<and>
    w_active (mdfs_started E w) = [] \<and> w_standby (mdfs_started E w) = [] \<and>
    (session E popen docs \<lparr>cs_dirId = ROOT_DIR_ID, cs_prompt = ''/''\<rparr> (mdfs_started E w) c w' \<longrightarrow> mdfs_inv E docs uniq (w_db w')) \<and>
    (\<forall>config. g_config G ''config.cfg'' = Some config \<longrightarrow> mdfs_main G E popen schedules input (fs, w) = Some (code, ms, (fs', w')) \<longrightarrow>
      (if {''PORT'', ''MIN_NODES_COUNT''} \<subseteq> dom config then code = EXIT_SUCCESS \<and> mdfs_inv E docs uniq (w_db w')
       else code = EXIT_FAILURE \<and> fs' = fs \<and> w' = w))"
proof -
  let ?c0 = "\<lparr>cs_dirId = ROOT_DIR_ID, cs_prompt = ''/''\<rparr>"
  have inv: "mdfs_inv E docs uniq (w_db (mdfs_started E w))" unfolding mdfs_started_def by (rule fs_laws.started_consistent [OF assms(1,2)])
  have docs: "docs (w_db (mdfs_started E w)) = docs (w_db w)"
    unfolding mdfs_started_def connections_initialize_def connections_marta_initialize_def connections_node_initialize_def
    using fs_laws.initialize_docs [OF assms(1), of w] by simp
  have reg: "w_active (mdfs_started E w) = []" "w_standby (mdfs_started E w) = []"
    by (simp_all add: mdfs_started_def connections_initialize_def connections_marta_initialize_def connections_node_initialize_def)
  have "console_ok ?c0" by (simp add: console_ok_def id_ok_def ROOT_DIR_ID_def ID_SIZE_def)
  note keep = fs_laws.session_inv [OF assms(1) _ inv this]
  have main: "if {''PORT'', ''MIN_NODES_COUNT''} \<subseteq> dom config then code = EXIT_SUCCESS \<and> mdfs_inv E docs uniq (w_db w')
       else code = EXIT_FAILURE \<and> fs' = fs \<and> w' = w"
    if conf: "g_config G ''config.cfg'' = Some config" and ends: "mdfs_main G E popen schedules input (fs, w) = Some (code, ms, (fs', w'))" for config
  proof -
    have "map_option fst (mdfs_initConfig G) = Some ({''PORT'', ''MIN_NODES_COUNT''} \<subseteq> dom config)"
      by (simp only: mdfs_initConfig_ok conf option.map)
    then obtain x where x: "mdfs_initConfig G = Some x" "fst x \<longleftrightarrow> {''PORT'', ''MIN_NODES_COUNT''} \<subseteq> dom config"
      unfolding map_option_eq_Some by (elim exE conjE) (rule that, assumption, simp)
    then have cfg: "mdfs_initConfig G = Some ({''PORT'', ''MIN_NODES_COUNT''} \<subseteq> dom config, snd x)"
      by (simp only: prod_eq_iff option.inject fst_conv snd_conv simp_thms)
    show ?thesis
    proof (cases "{''PORT'', ''MIN_NODES_COUNT''} \<subseteq> dom config")
      case False
      then have "mdfs_main G E popen schedules input (fs, w) = Some (EXIT_FAILURE, [], (fs, w))"
        unfolding mdfs_main_def cfg by simp
      then show ?thesis unfolding if_not_P [OF False] using ends by simp
    next
      case True
      then obtain c where run: "console_start E popen schedules input (mdfs_started E w) = Some (ms, c, w')" and code: "code = EXIT_SUCCESS"
        using ends unfolding mdfs_main_def cfg mdfs_started_def by (auto simp: bind_eq_Some_conv case_prod_unfold Let_def)
      have "session E popen docs ?c0 (mdfs_started E w) c w'"
        using console_loop_session [OF run [unfolded console_start_def] session.Start] .
      with keep code show ?thesis unfolding if_P [OF True] by blast
    qed
  qed
  show ?thesis using inv docs reg keep main by blast
qed

definition demo_config :: config_env where
  "demo_config = \<lparr>g_config = (\<lambda>path. if path = ''config.cfg'' then Some [''PORT'' \<mapsto> ''3000'', ''MIN_NODES_COUNT'' \<mapsto> ''1''] else None),
     g_int = (\<lambda>v. if v = ''3000'' then 3000 else 1)\<rparr>"

theorem mdfs_starts_consistent_witness:
  "\<exists>ms fs' w'. mdfs_main demo_config (fs_env True) (\<lambda>_ _. None) (\<lambda>_. []) exit_line (0, tree_world) = Some (EXIT_SUCCESS, ms, (fs', w')) \<and>
     mdfs_inv (fs_env True) (\<lambda>s c. set (ls_view s c)) ls_uniq (w_db w')"
proof -
  let ?E = "fs_env True" and ?c = "\<lparr>cs_dirId = ROOT_DIR_ID, cs_prompt = ''/''\<rparr>"
  let ?w1 = "snd (connections_initialize (filesystem_initialize ?E tree_world))"
  let ?config = "[''PORT'' \<mapsto> ''3000'', ''MIN_NODES_COUNT'' \<mapsto> ''1'']"
  have conf: "g_config demo_config ''config.cfg'' = Some ?config" by (simp add: demo_config_def)
  have run: "mdfs_main demo_config ?E (\<lambda>_ _. None) (\<lambda>_. []) exit_line (0, tree_world) = Some (EXIT_SUCCESS, [Help, Bye], (-1, ?w1))"
    by (simp add: mdfs_main_def mdfs_initConfig_def conf getConfigInt_def exit_session case_prod_unfold Let_def)
      (simp add: connections_initialize_def connections_marta_initialize_def)
  have "{''PORT'', ''MIN_NODES_COUNT''} \<subseteq> dom ?config" by simp
  with mdfs_starts_consistent [OF fsenv.fs_laws_axioms disjI1 [OF tree_inv], THEN conjunct2, THEN conjunct2, THEN conjunct2, THEN conjunct2,
      THEN conjunct2, rule_format, OF conf run] run
  show ?thesis by auto
qed

text \<open>What a wrong start does. Without a configuration file on the command line, or with one that
  lacks a key, a storage node and a job end with failure and do nothing, while MaRTA uses memory
  that was never made. When the file does not exist only the storage node ends with failure;
  MaRTA, a job and the file system read from NULL. A job that cannot connect to MaRTA ends with
  success.\<close>

theorem wrong_starts:
  assumes "\<forall>config. g_config G path = Some config \<longrightarrow>
      \<not> node_keys \<subseteq> dom config \<and> \<not> job_keys \<subseteq> dom config \<and> \<not> marta_keys \<subseteq> dom config"
  shows "node_main G [] N w1 = Some (Exits EXIT_FAILURE) \<and> job_main G [] mutex J w2 = Some (EXIT_FAILURE, w2) \<and> marta_main G [] M w3 = None \<and>
    node_main G [path] N w1 = Some (Exits EXIT_FAILURE) \<and>
    job_main G [path] mutex J w2 = (if g_config G path = None then None else Some (EXIT_FAILURE, w2)) \<and>
    marta_main G [path] M w3 = None \<and>
    (g_config G ''config.cfg'' = None \<longrightarrow> mdfs_main G E popen schedules input s = None) \<and>
    (job_initConfig G' path = Some (True, cfg) \<and> fst (k_connect J (jc_IP_MARTA cfg) (jc_PUERTO_MARTA cfg) (jw_net w2)) < 0 \<longrightarrow>
      map_option fst (job_main G' [path] True J w2) = Some EXIT_SUCCESS)"
proof -
  have node: "\<not> fst (node_initConfig G path)" unfolding node_initConfig_ok using assms by (auto split: option.splits)
  have job: "job_initConfig G path = None \<and> g_config G path = None \<or> (\<exists>cfg. job_initConfig G path = Some (False, cfg)) \<and> g_config G path \<noteq> None"
    using job_initConfig_ok [of G path] assms by (cases "g_config G path"; cases "job_initConfig G path") auto
  have marta: "marta_initConfig G path = None \<or> (\<exists>cfg. marta_initConfig G path = Some (False, cfg))"
    using marta_initConfig_ok [of G path] assms by (cases "g_config G path"; cases "marta_initConfig G path") auto
  have late: "map_option fst (job_main G' [path] True J w2) = Some EXIT_SUCCESS"
    if "job_initConfig G' path = Some (True, cfg)" "fst (k_connect J (jc_IP_MARTA cfg) (jc_PUERTO_MARTA cfg) (jw_net w2)) < 0"
    using that by (simp add: job_main_def conectarMarta_def case_prod_unfold)
  show ?thesis
  proof (intro conjI impI)
    show "node_main G [path] N w1 = Some (Exits EXIT_FAILURE)"
      using node by (cases "node_initConfig G path") (simp add: node_main_def)
    show "job_main G [path] mutex J w2 = (if g_config G path = None then None else Some (EXIT_FAILURE, w2))"
      using job by (auto simp: job_main_def)
    show "marta_main G [path] M w3 = None" using marta by (auto simp: marta_main_def)
    show "mdfs_main G E popen schedules input s = None" if "g_config G ''config.cfg'' = None"
      using that by (simp add: mdfs_main_def mdfs_initConfig_def)
  qed (use late in \<open>simp_all add: node_main_def job_main_def marta_main_def\<close>)
qed

text \<open>Configuration files that are empty or missing; one that has every key; and no network.\<close>

definition empty_config :: config_env where
  "empty_config = \<lparr>g_config = (\<lambda>path. if path = ''config.cfg'' then None else Some Map.empty), g_int = (\<lambda>_. 0)\<rparr>"

definition full_config :: config_env where
  "full_config = \<lparr>g_config = (\<lambda>_. Some (\<lambda>_. Some ''1'')), g_int = (\<lambda>_. 1)\<rparr>"

definition offline_env :: "chunk_net job_env" where
  "offline_env = \<lparr>k_os = chunk_os True, k_connect = (\<lambda>_ _ net. (-1, net)), k_file = (\<lambda>_. None), k_page = 4096,
     k_cfg = \<lparr>jc_PUERTO_MARTA = 1, jc_IP_MARTA = ''h'', jc_MAPPER = ''m'', jc_REDUCER = ''r'', jc_RESULTADO = ''res'',
       jc_LIST_ARCHIVOS = ''/a'', jc_COMBINER = True\<rparr>\<rparr>"

theorem wrong_starts_witness:
  "node_main empty_config [''n.cfg''] (node_demo_env True) (node_demo_t ((\<lambda>_. []), (\<lambda>_. []))) = Some (Exits EXIT_FAILURE) \<and>
     marta_main empty_config [''n.cfg''] (marta_demo_env True) marta_demo = None \<and>
     mdfs_main empty_config (fs_env True) (\<lambda>_ _. None) (\<lambda>_. []) exit_line (0, tree_world) = None \<and>
     map_option fst (job_main full_config [''n.cfg''] True offline_env \<lparr>jw_marta = 0, jw_net = ((\<lambda>_. []), (\<lambda>_. []))\<rparr>) = Some EXIT_SUCCESS"
proof -
  let ?w2 = "\<lparr>jw_marta = 0, jw_net = ((\<lambda>_. []), (\<lambda>_. []))\<rparr> :: chunk_net job_world"
  obtain cfg where cfg: "job_initConfig full_config ''n.cfg'' = Some (True, cfg)"
    by (simp add: job_initConfig_def full_config_def getConfigInt_def getConfigString_def)
  have offline: "fst (k_connect offline_env (jc_IP_MARTA cfg) (jc_PUERTO_MARTA cfg) (jw_net ?w2)) < 0"
    by (simp add: offline_env_def)
  have prem: "\<forall>config. g_config empty_config ''n.cfg'' = Some config \<longrightarrow>
      \<not> node_keys \<subseteq> dom config \<and> \<not> job_keys \<subseteq> dom config \<and> \<not> marta_keys \<subseteq> dom config"
    by (simp add: empty_config_def node_keys_def job_keys_def marta_keys_def)
  have gone: "g_config empty_config ''config.cfg'' = None" by (simp add: empty_config_def)
  note all = wrong_starts [OF prem, of "node_demo_env True" "node_demo_t ((\<lambda>_. []), (\<lambda>_. []))" True offline_env ?w2 "marta_demo_env True" marta_demo
      "fs_env True" "\<lambda>_ _. None" "\<lambda>_. []" exit_line "(0, tree_world)" full_config cfg]
  show ?thesis using all gone cfg offline by blast
qed

end
