(* ===== verification/Test_Clients.thy ===== *)
theory Test_Clients
  imports Marta_MDFS Nodo_MDFS Job_Protocol
begin

text \<open>
  \<open>Ejemplos/FileSystemClientTest/src\<close>: a MaRTA that asks for the blocks of a file (\<open>marta.c\<close>) and a
  storage node (\<open>node.c\<close>), to try the file system with. Lemmas: the file system of today answers
  the first as it answers MaRTA, while the second still introduces itself in an earlier form.

  What a client prints is a list of values; whether it then loops for ever without doing anything
  is a flag of the result.
\<close>

record 'n client_env =
  c_os :: "'n os"
  c_connect :: "string \<Rightarrow> u16 \<Rightarrow> 'n \<Rightarrow> int \<times> 'n"
  c_listen :: "u16 \<Rightarrow> 'n \<Rightarrow> int \<times> 'n"
  c_accept :: "int \<Rightarrow> 'n \<Rightarrow> int \<times> 'n"
  c_close :: "int \<Rightarrow> 'n \<Rightarrow> 'n"

definition client_send :: "'n client_env \<Rightarrow> int \<Rightarrow> byte list \<Rightarrow> 'n \<Rightarrow> e_socket_status \<times> 'n" where
  "client_send C s p n = socket_send_packet (c_os C) s (Some p) n"

definition client_recv :: "'n client_env \<Rightarrow> int \<Rightarrow> 'n \<Rightarrow> e_socket_status \<times> byte list option \<times> 'n" where
  "client_recv C s n = (case socket_recv_packet (c_os C) s 0 n of (status, p, _, n') \<Rightarrow> (status, p, n'))"

section \<open>FileSystemClientTest/src/marta.c\<close>

datatype client_line =
    NotAvailable
  | BlocksOf string nat
  | BlockCopies nat nat
  | CopyAt string string u16 u16

definition pedirBloquesArchivo_bytes :: "byte list" where
  "pedirBloquesArchivo_bytes =
     (let archivo = ''a''; sArchivo = (word_of_nat (length archivo) :: u32)
      in COMMAND_MARTA_TO_FS_GET_FILE_BLOCKS # be32 sArchivo @ take (unat sArchivo) (str_bytes archivo))"

fun print_copies :: "nat \<Rightarrow> byte list \<Rightarrow> (client_line list \<times> byte list) option" where
  "print_copies 0 buffer = Some ([], buffer)"
| "print_copies (Suc j) buffer =
     do {
       (sNodeId, r) \<leftarrow> get_u32 buffer;
       (nodeId, r) \<leftarrow> get_str (unat sNodeId) r;
       (sNodeIp, r) \<leftarrow> get_u16 r;
       (nodeIp, r) \<leftarrow> get_str (unat sNodeIp) r;
       (nodePort, r) \<leftarrow> get_u16 r;
       (nodeBlockNumber, r) \<leftarrow> get_u16 r;
       (ls, r) \<leftarrow> print_copies j r;
       Some (CopyAt nodeId nodeIp nodePort nodeBlockNumber # ls, r)
     }"

text \<open>\<open>k\<close> is how many blocks are left, \<open>fileBlockNumber\<close> the number of the next.\<close>

fun print_blocks :: "nat \<Rightarrow> nat \<Rightarrow> byte list \<Rightarrow> client_line list option" where
  "print_blocks fileBlockNumber 0 buffer = Some []"
| "print_blocks fileBlockNumber (Suc k) buffer =
     do {
       (copyesCount, r) \<leftarrow> get_u16 buffer;
       (copies, r) \<leftarrow> print_copies (unat copyesCount) r;
       rest \<leftarrow> print_blocks (Suc fileBlockNumber) k r;
       Some (BlockCopies fileBlockNumber (unat copyesCount) # copies @ rest)
     }"

definition pedirBloquesArchivo :: "'n client_env \<Rightarrow> int \<Rightarrow> 'n \<Rightarrow> (client_line list \<times> 'n) option" where
  "pedirBloquesArchivo C fsSocket n =
     (let (_, n1) = client_send C fsSocket pedirBloquesArchivo_bytes n;
          (status, p, n2) = client_recv C fsSocket n1
      in if status \<noteq> SOCKET_ERROR_NONE then Some ([], n2)
         else do {
           buffer \<leftarrow> p;
           (blocksCount, r) \<leftarrow> get_u16 buffer;
           (if blocksCount = 0 then Some ([NotAvailable], n2)
            else do {
              ls \<leftarrow> print_blocks 0 (unat blocksCount) r;
              Some (BlocksOf ''a'' (unat blocksCount) # ls, n2)
            })
         })"

text \<open>\<open>while (0 > fsSocket) fsSocket = socket_connect(FS_IP, FS_PORT);\<close>\<close>

partial_function (option) client_connect_until :: "'n client_env \<Rightarrow> string \<Rightarrow> u16 \<Rightarrow> 'n \<Rightarrow> (int \<times> 'n) option" where
  "client_connect_until C ip port n =
     (let r = c_connect C ip port n in if 0 > fst r then client_connect_until C ip port (snd r) else Some r)"

text \<open>Only 0 is taken as a handshake that failed. After the request the client spins.\<close>

definition startMarta :: "'n client_env \<Rightarrow> 'n \<Rightarrow> (client_line list \<times> bool \<times> 'n) option" where
  "startMarta C n =
     do {
       (fsSocket, n1) \<leftarrow> client_connect_until C ''127.0.0.1'' 5000 n;
       (hand, n2) \<leftarrow> socket_handshake_to_server (c_os C) fsSocket HANDSHAKE_FILESYSTEM HANDSHAKE_MARTA n1;
       (if hand = 0 then Some ([], False, n2)
        else do { (ls, n3) \<leftarrow> pedirBloquesArchivo C fsSocket n2; Some (ls, True, n3) })
     }"

definition client_test_main :: "'n client_env \<Rightarrow> 'n \<Rightarrow> (client_line list \<times> bool \<times> 'n) option" where
  "client_test_main C n = startMarta C n"

text \<open>One turn of the loop: both commands do nothing. A reception that failed leaves the pointer
  unset.\<close>

definition marta_escuchar_turn :: "'n client_env \<Rightarrow> int \<Rightarrow> 'n \<Rightarrow> 'n option" where
  "marta_escuchar_turn C fsSocket n =
     (case client_recv C fsSocket n of (status, p, n1) \<Rightarrow> do { buffer \<leftarrow> p; (command, _) \<leftarrow> get_u8 buffer; Some n1 })"

section \<open>FileSystemClientTest/src/node.c\<close>

datatype node_line = SetLine u16 string | GetLine u16

text \<open>The introduction of this node: new or not, blocks, length of the name, name.\<close>

definition startNodo_bytes :: "byte list" where
  "startNodo_bytes =
     (let soyNuevoNodo = (0 :: byte); cantBloques = (30 :: u16); myName = ''Node4'';
          sName = (word_of_nat (length myName) :: u16)
      in soyNuevoNodo # be16 cantBloques @ be16 sName @ take (unat sName) (str_bytes myName))"

definition client_setBloque :: "u16 \<Rightarrow> string \<Rightarrow> node_line" where
  "client_setBloque numBlock blockData = SetLine numBlock blockData"

definition client_getBloque :: "u16 \<Rightarrow> string \<times> node_line" where
  "client_getBloque numBlock = (''Este es el bloque'' @ [CHR 0x0A], GetLine numBlock)"

definition deserialzeSetBloque :: "byte list \<Rightarrow> node_line option" where
  "deserialzeSetBloque buffer =
     do {
       (_, r) \<leftarrow> get_u8 buffer;
       (numBlock, r) \<leftarrow> get_u16 r;
       (sBlockData, r) \<leftarrow> get_u32 r;
       (blockData, _) \<leftarrow> get_str (unat sBlockData) r;
       Some (client_setBloque numBlock blockData)
     }"

definition deserialzeGetBloque :: "'n client_env \<Rightarrow> byte list \<Rightarrow> int \<Rightarrow> 'n \<Rightarrow> (node_line \<times> 'n) option" where
  "deserialzeGetBloque C buffer fsSocket n =
     do {
       (_, r) \<leftarrow> get_u8 buffer;
       (numBlock, _) \<leftarrow> get_u16 r;
       (case client_getBloque numBlock of (bloque, l) \<Rightarrow>
          (case client_send C fsSocket (str_bytes bloque) n of (status, n1) \<Rightarrow> Some (l, n1)))
     }"

text \<open>One turn of \<open>nodo_escucharAcciones\<close>: what it prints, if anything.\<close>

definition nodo_escuchar_turn :: "'n client_env \<Rightarrow> int \<Rightarrow> 'n \<Rightarrow> (node_line option \<times> 'n) option" where
  "nodo_escuchar_turn C fsSocket n =
     (case client_recv C fsSocket n of (status, p, n1) \<Rightarrow>
        do {
          buffer \<leftarrow> p;
          (command, _) \<leftarrow> get_u8 buffer;
          (if command = COMMAND_FS_TO_NODE_SET_BLOCK then do { l \<leftarrow> deserialzeSetBloque buffer; Some (Some l, n1) }
           else if command = COMMAND_FS_TO_NODE_GET_BLOCK then do { (l, n2) \<leftarrow> deserialzeGetBloque C buffer fsSocket n1; Some (Some l, n2) }
           else Some (None, n1))
        })"

text \<open>The loop that follows never ends by itself; here it takes \<open>turns\<close> turns.\<close>

fun nodo_escucharAcciones :: "nat \<Rightarrow> 'n client_env \<Rightarrow> int \<Rightarrow> 'n \<Rightarrow> (node_line list \<times> 'n) option" where
  "nodo_escucharAcciones 0 C fsSocket n = Some ([], n)"
| "nodo_escucharAcciones (Suc turns) C fsSocket n =
     do {
       (l, n1) \<leftarrow> nodo_escuchar_turn C fsSocket n;
       (ls, n2) \<leftarrow> nodo_escucharAcciones turns C fsSocket n1;
       Some ((case l of Some x \<Rightarrow> [x] | None \<Rightarrow> []) @ ls, n2)
     }"

definition startNodo :: "nat \<Rightarrow> 'n client_env \<Rightarrow> 'n \<Rightarrow> (node_line list \<times> 'n) option" where
  "startNodo turns C n =
     (case c_connect C ''127.0.0.1'' 5000 n of (fsSocket, n1) \<Rightarrow>
        do {
          (hand, n2) \<leftarrow> socket_handshake_to_server (c_os C) fsSocket HANDSHAKE_FILESYSTEM HANDSHAKE_NODO n1;
          (if hand = 0 then Some ([], n2)
           else nodo_escucharAcciones turns C fsSocket (snd (client_send C fsSocket startNodo_bytes n2)))
        })"

section \<open>The test clients and the file system of today\<close>

definition copy_line :: "reply_copy \<Rightarrow> client_line" where
  "copy_line c = (case c of (nodeId, nodeIp, nodePort, nodeBlockNumber) \<Rightarrow> CopyAt nodeId nodeIp nodePort nodeBlockNumber)"

lemma print_copies_eq: "print_copies j buffer = map_option (\<lambda>(cs, r). (map copy_line cs, r)) (get_copies j buffer)"
  by (induction j arbitrary: buffer)
    (simp_all add: get_copy_def copy_line_def option.map_comp comp_def case_prod_beta map_option_case split: Option.bind_split option.split)

fun block_lines :: "nat \<Rightarrow> reply_copy list list \<Rightarrow> client_line list" where
  "block_lines k [] = []"
| "block_lines k (cs # blocks) = BlockCopies k (length cs) # map copy_line cs @ block_lines (Suc k) blocks"

lemma get_copies_length: "get_copies n bs = Some (cs, r) \<Longrightarrow> length cs = n"
  by (induction n arbitrary: bs cs r) (auto simp: bind_eq_Some_conv)

lemma print_blocks_eq: "print_blocks k j buffer = map_option (block_lines k) (get_blocks j buffer)"
proof (induction j arbitrary: k buffer)
  case (Suc j)
  show ?case
  proof (cases "get_u16 buffer")
    case (Some p)
    obtain n r where p: "p = (n, r)" by (cases p)
    show ?thesis
    proof (cases "get_copies (unat n) r")
      case (Some q)
      obtain cs r' where q: "q = (cs, r')" by (cases q)
      then show ?thesis using Some \<open>get_u16 buffer = Some p\<close> p Suc.IH get_copies_length [of "unat n" r cs r']
        by (simp add: print_copies_eq option.map_comp comp_def map_option_case split: Option.bind_split option.split)
    qed (simp add: \<open>get_u16 buffer = Some p\<close> p print_copies_eq)
  qed simp
qed simp

lemma pedirBloques_request: "sendFileBlocks_request pedirBloquesArchivo_bytes = Some ''a''"
  using request_roundtrip [of "''a''"] by (simp add: requestFileBlocks_bytes_def pedirBloquesArchivo_bytes_def c_string_def)

text \<open>The test client is answered as MaRTA is, and prints every block of the file with its copies on
  active nodes, or that it is not available.\<close>

lemma client_prints_blocks:
  assumes rel: "reliable_os (c_os C) inp out" and conns: "connections_ok w"
    and found: "filesystem_resolveFilePath E ''a'' ROOT_DIR_ID ''/'' w = Some (Some f)"
    and small: "\<forall>copies \<in> set (file_blocks f). length copies < 2 ^ 16" "length (file_blocks f) < 2 ^ 16"
    and reply: "inp n s = packet_bytes (reply_for w (file_blocks f)) @ rest" "packet_ok (reply_for w (file_blocks f))"
  shows "connections_marta_sendFileBlocks E pedirBloquesArchivo_bytes (m, w) = Some (marta_send E (reply_for w (file_blocks f)) (m, w)) \<and>
    (\<exists>n'. pedirBloquesArchivo C s n = Some
      (if file_blocks f = [] \<or> (\<exists>copies \<in> set (file_blocks f). active_copies w copies = []) then [NotAvailable]
       else BlocksOf ''a'' (length (file_blocks f)) # block_lines 0 (map (active_copies w) (file_blocks f)), n') \<and>
      out n' s = out n s @ packet_bytes pedirBloquesArchivo_bytes)"
proof -
  let ?p = "reply_for w (file_blocks f)" and ?q = pedirBloquesArchivo_bytes
  have req: "connections_marta_sendFileBlocks E ?q (m, w) = Some (marta_send E ?p (m, w))"
    using found small by (simp add: connections_marta_sendFileBlocks_def pedirBloques_request blocks_bytes_eq [OF conns] reply_for_def)
  obtain n1 where n1: "socket_send_packet (c_os C) s (Some ?q) n = (SOCKET_ERROR_NONE, n1)" "inp n1 = inp n" "out n1 s = out n s @ packet_bytes ?q"
    using reliable_os.send_packet_reliable [OF rel] by blast
  then have "inp n1 s = packet_bytes ?p @ rest" using reply(1) by simp
  from reliable_os.recv_packet_reliable [OF rel this reply(2)] obtain n2 where
    n2: "socket_recv_packet (c_os C) s 0 n1 = (SOCKET_ERROR_NONE, Some ?p, word_of_nat (length ?p), n2)" "out n2 = out n1" by blast
  let ?none = "file_blocks f = [] \<or> (\<exists>copies \<in> set (file_blocks f). active_copies w copies = [])"
  have "(if ?none then get_u16 ?p = Some (0, []) else \<exists>r. get_u16 ?p = Some (word_of_nat (length (file_blocks f)), r) \<and>
      get_blocks (length (file_blocks f)) r = Some (map (active_copies w) (file_blocks f)))"
    using get_reply_for [OF conns small] get_u16_be16 [of 0 "[]"] by (auto simp: reply_for_def get_reply_def unat_length16 [OF small(2)])
  then have "pedirBloquesArchivo C s n = Some (if ?none then [NotAvailable]
       else BlocksOf ''a'' (length (file_blocks f)) # block_lines 0 (map (active_copies w) (file_blocks f)), n2)"
    using n1(1) n2(1) unat_length16 [OF small(2)]
    by (cases ?none) (auto simp: pedirBloquesArchivo_def client_send_def client_recv_def print_blocks_eq)
  then show ?thesis using req n1 n2 by auto
qed

text \<open>The test node introduces itself without its port, so the file system of today takes its name's
  length for the port and two letters of the name for the length, and reads past the packet; and
  the test node reads past a request to store a block, whose data come in a packet of their own.\<close>

lemma test_node_misread: "node_deserialize startNodo_bytes = None \<and> deserialzeSetBloque (COMMAND_FS_TO_NODE_SET_BLOCK # be16 n) = None"
proof
  have "str_bytes ''Node4'' = [78, 111] @ str_bytes ''de4''" by (simp add: str_bytes_def byte_of_char_def)
  moreover have "of_be [78, 111] = 20079" by (simp add: of_be_def)
  ultimately have "get_u16 (str_bytes ''Node4'') = Some (20079, str_bytes ''de4'')"
    using get_bytes_append [of 2 "[78, 111]" "str_bytes ''de4''"] by (simp add: get_u16_def)
  then show "node_deserialize startNodo_bytes = None"
    by (simp add: node_deserialize_def startNodo_bytes_def get_str_def get_bytes_def)
next
  have "get_u16 (be16 n) = Some (n, [])" using get_u16_be16 [of n "[]"] by simp
  then show "deserialzeSetBloque (COMMAND_FS_TO_NODE_SET_BLOCK # be16 n) = None"
    by (simp add: deserialzeSetBloque_def get_u32_def get_bytes_def)
qed

text \<open>Asked for a block, it answers what today's file system takes for one.\<close>

lemma test_node_gives_block:
  assumes rel: "reliable_os (c_os C) inp out"
    and inp: "inp n s = packet_bytes (COMMAND_FS_TO_NODE_GET_BLOCK # be16 b) @ rest"
  shows "\<exists>n'. nodo_escuchar_turn C s n = Some (Some (GetLine b), n') \<and> inp n' s = rest \<and>
    out n' s = out n s @ packet_bytes (str_bytes (''Este es el bloque'' @ [CHR 0x0A]))"
proof -
  let ?cmd = "COMMAND_FS_TO_NODE_GET_BLOCK # be16 b" and ?blk = "str_bytes (''Este es el bloque'' @ [CHR 0x0A])"
  have "packet_ok ?cmd" by (simp add: packet_ok_def)
  from reliable_os.recv_packet_reliable [OF rel inp this] obtain n1 where
    r: "socket_recv_packet (c_os C) s 0 n = (SOCKET_ERROR_NONE, Some ?cmd, word_of_nat (length ?cmd), n1)" "inp n1 s = rest" "out n1 = out n"
    by blast
  obtain n2 where n2: "socket_send_packet (c_os C) s (Some ?blk) n1 = (SOCKET_ERROR_NONE, n2)" "inp n2 = inp n1" "out n2 s = out n1 s @ packet_bytes ?blk"
    using reliable_os.send_packet_reliable [OF rel] by blast
  have get: "get_u16 (be16 b) = Some (b, [])" using get_u16_be16 [of b "[]"] by simp
  have "nodo_escuchar_turn C s n = Some (Some (GetLine b), n2)"
    using r(1) n2(1) by (simp add: nodo_escuchar_turn_def client_recv_def client_send_def deserialzeGetBloque_def client_getBloque_def get
        COMMAND_FS_TO_NODE_GET_BLOCK_def COMMAND_FS_TO_NODE_SET_BLOCK_def)
  then show ?thesis using r n2 by simp
qed

end
