(* ===== verification/Prototypes.thy ===== *)
theory Prototypes
  imports Test_Clients
begin

text \<open>
  Under \<open>Ejemplos\<close>, what speaks an earlier form of the protocols: \<open>MaRTATestClient/src/clienteJob.c\<close>
  (a job, for MaRTA), \<open>NodoServerTest/src\<close> (a file system and a job, for a storage node),
  \<open>ServidorTestNodo/Servidor.c\<close> (a server for a handshake), \<open>Testnodomap/src/testnodomap.c\<close> and
  \<open>Nodoold/src/Nodo.c\<close> (storage nodes). Lengths go as a \<open>size_t\<close> of the host, commands as letters. Lemmas: what the programs of today make of these
  messages, and these clients of theirs.

  \<open>pad n\<close> says whether the byte after an allocation of \<open>n\<close> bytes can be written without harm.
\<close>

section \<open>Integers in the order of the host\<close>

definition of_host :: "('n, 'z) os_scheme \<Rightarrow> byte list \<Rightarrow> nat" where
  "of_host os bs = of_be (if isLittleEndian os then rev bs else bs)"

definition get_host16 :: "('n, 'z) os_scheme \<Rightarrow> byte list \<Rightarrow> (u16 \<times> byte list) option" where
  "get_host16 os bs = map_option (\<lambda>(h, r). (word_of_nat (of_host os h), r)) (get_bytes 2 bs)"

definition get_host32 :: "('n, 'z) os_scheme \<Rightarrow> byte list \<Rightarrow> (u32 \<times> byte list) option" where
  "get_host32 os bs = map_option (\<lambda>(h, r). (word_of_nat (of_host os h), r)) (get_bytes 4 bs)"

definition get_host_size :: "('n, 'z) os_scheme \<Rightarrow> byte list \<Rightarrow> (u64 \<times> byte list) option" where
  "get_host_size os bs = map_option (\<lambda>(h, r). (size_of_host os h, r)) (get_bytes 8 bs)"

text \<open>\<open>malloc(n)\<close> and \<open>memcpy\<close> of \<open>n\<close> bytes, printed as a string: without a NUL among them it
  reads on.\<close>

definition get_text :: "nat \<Rightarrow> byte list \<Rightarrow> (string \<times> byte list) option" where
  "get_text n bs = do { (h, r) \<leftarrow> get_bytes n bs; if 0 \<in> set h then Some (cstr h, r) else None }"

section \<open>MaRTATestClient/src/clienteJob.c\<close>

definition lengthStringList :: "string list \<Rightarrow> nat" where
  "lengthStringList stringList = sum_list (map (\<lambda>s. length s + 1) stringList)"

text \<open>The files with a blank after each, in an allocation without room for the NUL; the last blank
  becomes a NUL. \<open>htons\<close> of a \<open>bool\<close> is a \<open>bool\<close> again.\<close>

definition serializeJobToMaRTA_bytes :: "(nat \<Rightarrow> bool) \<Rightarrow> bool \<Rightarrow> string list \<Rightarrow> byte list option" where
  "serializeJobToMaRTA_bytes pad combiner files =
     (let filesLength = lengthStringList files;
          stringFiles = concat (map (\<lambda>f. f @ '' '') files)
      in if files = [] \<or> \<not> pad filesLength then None
         else Some ((if combiner then 1 else 0) # take (filesLength - 1) (str_bytes stringFiles) @ [0]))"

definition serializeJobToMaRTA :: "(nat \<Rightarrow> bool) \<Rightarrow> 'n client_env \<Rightarrow> int \<Rightarrow> bool \<Rightarrow> string list \<Rightarrow> 'n \<Rightarrow> 'n option" where
  "serializeJobToMaRTA pad C fd combiner files n =
     map_option (\<lambda>buffer. snd (client_send C fd buffer n)) (serializeJobToMaRTA_bytes pad combiner files)"

record proto_map =
  pm_idMap :: u16
  pm_nodeIP :: string
  pm_nodePort :: u16
  pm_numBlock :: u16
  pm_tempResultName :: string

record proto_temp =
  pt_originMap :: u16
  pt_nodeIP :: string
  pt_nodePort :: u16
  pt_tempName :: string

record proto_reduce =
  pr_nodeIP :: string
  pr_nodePort :: u16
  pr_tempResultName :: string
  pr_temps :: "proto_temp list"

definition proto_desserializeMapOrder :: "('n, 'z) os_scheme \<Rightarrow> byte list \<Rightarrow> proto_map option" where
  "proto_desserializeMapOrder os buffer =
     do {
       (idMap, r) \<leftarrow> get_u16 buffer;
       (snodeIP, r) \<leftarrow> get_host_size os r;
       (nodeIP, r) \<leftarrow> get_text (unat snodeIP) r;
       (nodePort, r) \<leftarrow> get_u16 r;
       (numBlock, r) \<leftarrow> get_u16 r;
       (tempResultName, _) \<leftarrow> get_text 60 r;
       Some \<lparr>pm_idMap = idMap, pm_nodeIP = nodeIP, pm_nodePort = nodePort, pm_numBlock = numBlock, pm_tempResultName = tempResultName\<rparr>
     }"

text \<open>One temporary file, and what follows it.\<close>

definition desserializeTempToList :: "('n, 'z) os_scheme \<Rightarrow> byte list \<Rightarrow> (proto_temp \<times> byte list) option" where
  "desserializeTempToList os buffer =
     do {
       (originMap, r) \<leftarrow> get_u16 buffer;
       (snodeIP, r) \<leftarrow> get_host_size os r;
       (nodeIP, r) \<leftarrow> get_text (unat snodeIP) r;
       (nodePort, r) \<leftarrow> get_u16 r;
       (tempName, r) \<leftarrow> get_text 60 r;
       Some (\<lparr>pt_originMap = originMap, pt_nodeIP = nodeIP, pt_nodePort = nodePort, pt_tempName = tempName\<rparr>, r)
     }"

fun proto_temps :: "('n, 'z) os_scheme \<Rightarrow> nat \<Rightarrow> byte list \<Rightarrow> proto_temp list option" where
  "proto_temps os 0 tempsBuffer = Some []"
| "proto_temps os (Suc countTemps) tempsBuffer =
     do { (t, r) \<leftarrow> desserializeTempToList os tempsBuffer; ts \<leftarrow> proto_temps os countTemps r; Some (t # ts) }"

definition proto_desserializeReduceOrder :: "('n, 'z) os_scheme \<Rightarrow> byte list \<Rightarrow> proto_reduce option" where
  "proto_desserializeReduceOrder os buffer =
     do {
       (snodeIP, r) \<leftarrow> get_host_size os buffer;
       (nodeIP, r) \<leftarrow> get_text (unat snodeIP) r;
       (nodePort, r) \<leftarrow> get_u16 r;
       (tempResultName, r) \<leftarrow> get_text 60 r;
       (countTemps, r) \<leftarrow> get_u16 r;
       temps \<leftarrow> proto_temps os (unat countTemps) r;
       Some \<lparr>pr_nodeIP = nodeIP, pr_nodePort = nodePort, pr_tempResultName = tempResultName, pr_temps = temps\<rparr>
     }"

datatype order_line = RecvOrder byte | MapLine proto_map | ReduceLine proto_reduce | DieJob

abbreviation letter :: "char \<Rightarrow> byte" where
  "letter \<equiv> byte_of_char"

definition proto_recvOrder :: "'n client_env \<Rightarrow> int \<Rightarrow> 'n \<Rightarrow> (order_line list \<times> 'n) option" where
  "proto_recvOrder C fd n =
     (case client_recv C fd n of (status, p, n1) \<Rightarrow>
        do {
          buffer \<leftarrow> p;
          (order, r) \<leftarrow> get_u8 buffer;
          ls \<leftarrow> (if order = letter (CHR ''m'') then map_option (\<lambda>m. [MapLine m]) (proto_desserializeMapOrder (c_os C) r)
                 else if order = letter (CHR ''r'') then map_option (\<lambda>m. [ReduceLine m]) (proto_desserializeReduceOrder (c_os C) r)
                 else if order = letter (CHR ''d'') then Some [DieJob] else Some []);
          Some (RecvOrder order # ls, n1)
        })"

definition serializeMapResult_bytes :: "bool \<Rightarrow> u16 \<Rightarrow> byte list" where
  "serializeMapResult_bytes result idMap = letter (CHR ''m'') # (if result then 1 else 0) # be16 idMap"

text \<open>\<open>failedTemp\<close> is an array of 60 bytes.\<close>

definition serializeReduceResult_bytes :: "bool \<Rightarrow> u16 \<Rightarrow> byte list \<Rightarrow> byte list" where
  "serializeReduceResult_bytes result idResult failedTemp =
     letter (CHR ''r'') # (if result then 1 else 0) # be16 idResult @ take 60 failedTemp"

definition clienteJob_main :: "(nat \<Rightarrow> bool) \<Rightarrow> 'n client_env \<Rightarrow> 'n \<Rightarrow> (order_line list \<times> 'n) option" where
  "clienteJob_main pad C n =
     (let files = replicate 5 ''sarasa''; (fd, n1) = c_connect C ''127.0.0.1'' 30000 n
      in do {
        (hand, n2) \<leftarrow> socket_handshake_to_server (c_os C) fd HANDSHAKE_MARTA HANDSHAKE_JOB n1;
        (if hand = 0 then Some ([], n2)
         else do {
           n3 \<leftarrow> serializeJobToMaRTA pad C fd False files n2;
           (l1, n4) \<leftarrow> proto_recvOrder C fd n3;
           let n5 = snd (client_send C fd (serializeMapResult_bytes True 1) n4);
           (l2, n6) \<leftarrow> proto_recvOrder C fd n5;
           let failedTemp = str_bytes ''TemporalFallido'' @ replicate 45 0;
           let n7 = snd (client_send C fd (serializeReduceResult_bytes False 0 failedTemp) n6);
           (l3, n8) \<leftarrow> proto_recvOrder C fd n7;
           Some (l1 @ l2 @ l3, n8)
         })
      })"

section \<open>NodoServerTest/src\<close>

definition fs_enviarAcciones_bytes :: "byte list" where
  "fs_enviarAcciones_bytes = [1, 21, 0, 2, 0, 0, 0, 70, 70]"

definition fs_enviarAcciones :: "'n client_env \<Rightarrow> int \<Rightarrow> 'n \<Rightarrow> 'n" where
  "fs_enviarAcciones C nodeSocket n = snd (client_send C nodeSocket fs_enviarAcciones_bytes n)"

text \<open>A reception that fails leaves unset the pointer that is freed.\<close>

definition startFS :: "'n client_env \<Rightarrow> 'n \<Rightarrow> 'n option" where
  "startFS C n =
     (let (fsSocket, n1) = c_listen C 5000 n; (nodeSocket, n2) = c_accept C fsSocket n1
      in do {
        (hand, n3) \<leftarrow> socket_handshake_to_client (c_os C) nodeSocket HANDSHAKE_FILESYSTEM HANDSHAKE_NODO n2;
        (if hand = 0 then Some n3
         else (case client_recv C nodeSocket n3 of (status, p, n4) \<Rightarrow> do { buffer \<leftarrow> p; Some (fs_enviarAcciones C nodeSocket n4) }))
      })"

definition job_enviarAcciones_bytes :: "byte list" where
  "job_enviarAcciones_bytes = [3, 5, 0, 1, 0, 69, 0, 0, 68]"

text \<open>The same packet twice, then the socket is closed.\<close>

definition job_enviarAcciones :: "'n client_env \<Rightarrow> int \<Rightarrow> 'n \<Rightarrow> 'n" where
  "job_enviarAcciones C nodeSocket n =
     (let n1 = snd (client_send C nodeSocket job_enviarAcciones_bytes n);
          n2 = snd (client_send C nodeSocket job_enviarAcciones_bytes n1)
      in c_close C nodeSocket n2)"

definition nodo_server_test_main :: "'n client_env \<Rightarrow> 'n \<Rightarrow> 'n option" where
  "nodo_server_test_main C n = startFS C n"

section \<open>ServidorTestNodo/Servidor.c\<close>

text \<open>The handshake goes to the listening descriptor, not to the connection accepted: the exit code
  and what the handshake gave.\<close>

definition servidor_test_main :: "'n client_env \<Rightarrow> 'n \<Rightarrow> (int \<times> int \<times> 'n) option" where
  "servidor_test_main C n =
     (let (my_socket, n1) = c_listen C 5000 n; (socket_nodo, n2) = c_accept C my_socket n1
      in do {
        (nodo, n3) \<leftarrow> socket_handshake_to_client (c_os C) my_socket HANDSHAKE_NODO HANDSHAKE_FILESYSTEM n2;
        Some (1, nodo, n3)
      })"

section \<open>Testnodomap/src/testnodomap.c\<close>

text \<open>The order of a map: letter, block, routine and name of the result.\<close>

definition desserializeMap :: "('n, 'z) os_scheme \<Rightarrow> byte list \<Rightarrow> (byte \<times> u16 \<times> string \<times> string) option" where
  "desserializeMap os buffer =
     do {
       (order, r) \<leftarrow> get_u8 buffer;
       (numBlock, r) \<leftarrow> get_u16 r;
       (sfilemap, r) \<leftarrow> get_host_size os r;
       (filemap, r) \<leftarrow> get_text (unat sfilemap) r;
       (stempname, r) \<leftarrow> get_host_size os r;
       (tempResultName, _) \<leftarrow> get_text (unat stempname) r;
       Some (order, numBlock, filemap, tempResultName)
     }"

text \<open>The exit code, and the order if there was one.\<close>

definition testnodomap_main :: "'n client_env \<Rightarrow> 'n \<Rightarrow> (int \<times> (byte \<times> u16 \<times> string \<times> string) option \<times> 'n) option" where
  "testnodomap_main C n =
     (let (fd, n1) = c_listen C 30123 n; (sock_job, n2) = c_accept C fd n1
      in do {
        (hand, n3) \<leftarrow> socket_handshake_to_client (c_os C) sock_job HANDSHAKE_NODO HANDSHAKE_JOB n2;
        (if hand = 0 then Some (1, None, n3)
         else (case client_recv C sock_job n3 of (status, p, n4) \<Rightarrow>
           do { buffer \<leftarrow> p; m \<leftarrow> desserializeMap (c_os C) buffer; Some (0, Some m, n4) }))
      })"

section \<open>Nodoold/src/Nodo.c\<close>

definition obtenerComando :: "byte list \<Rightarrow> byte option" where
  "obtenerComando paquete = map_option fst (get_u8 paquete)"

definition obtenerNumBlock :: "('n, 'z) os_scheme \<Rightarrow> byte list \<Rightarrow> u16 option" where
  "obtenerNumBlock os paquete = (if paquete = [] then None else map_option fst (get_host16 os (drop 1 paquete)))"

definition obtenerSize :: "('n, 'z) os_scheme \<Rightarrow> byte list \<Rightarrow> u32 option" where
  "obtenerSize os paquete = (if length paquete < 3 then None else map_option fst (get_host32 os (drop 3 paquete)))"

definition obtenerDatosBloque :: "byte list \<Rightarrow> u32 \<Rightarrow> byte list option" where
  "obtenerDatosBloque paquete sz = (if length paquete < 7 then None else map_option fst (get_bytes (unat sz) (drop 7 paquete)))"

text \<open>The process prints what it reads in a packet of its own and returns; what follows in \<open>main\<close> is
  never reached. The data of the block have no NUL after them.\<close>

definition nodoold_main :: "('n, 'z) os_scheme \<Rightarrow> (byte \<times> u16 \<times> u32 \<times> string) option" where
  "nodoold_main os =
     do {
       let paquete = [1, 21, 0, 1, 0, 0, 0, 70];
       comando \<leftarrow> obtenerComando paquete;
       numBlock \<leftarrow> obtenerNumBlock os paquete;
       sz \<leftarrow> obtenerSize os paquete;
       datos \<leftarrow> obtenerDatosBloque paquete sz;
       (if 0 \<in> set datos then Some (comando, numBlock, sz, cstr datos) else None)
     }"

text \<open>The roles in the handshake are swapped.\<close>

definition conectarFileSystem :: "'n client_env \<Rightarrow> string \<Rightarrow> u16 \<Rightarrow> 'n \<Rightarrow> (int \<times> 'n) option" where
  "conectarFileSystem C ip_fs puerto_fs n =
     (case c_connect C ip_fs puerto_fs n of (descriptorFileSystem, n1) \<Rightarrow>
        do {
          (handshakea, n2) \<leftarrow> socket_handshake_to_server (c_os C) descriptorFileSystem HANDSHAKE_NODO HANDSHAKE_FILESYSTEM n1;
          Some (descriptorFileSystem, n2)
        })"

section \<open>The programs of today and the earlier protocols\<close>

text \<open>The packet of the test server, as the old node reads it on a little-endian host.\<close>

lemma old_node_reads:
  assumes "isLittleEndian os"
  shows "obtenerComando fs_enviarAcciones_bytes = Some 1" and "obtenerNumBlock os fs_enviarAcciones_bytes = Some 21"
    and "obtenerSize os fs_enviarAcciones_bytes = Some 2" and "obtenerDatosBloque fs_enviarAcciones_bytes 2 = Some [70, 70]"
  using assms by (simp_all add: obtenerComando_def obtenerNumBlock_def obtenerSize_def obtenerDatosBloque_def
      fs_enviarAcciones_bytes_def get_host16_def get_host32_def of_host_def get_bytes_def of_be_def)

text \<open>The old node prints past its buffer on every host.\<close>

lemma nodoold_main_undefined: "nodoold_main os = None"
  by (simp add: nodoold_main_def obtenerComando_def obtenerNumBlock_def obtenerSize_def obtenerDatosBloque_def
      get_host16_def get_host32_def of_host_def get_bytes_def of_be_def)

text \<open>The storage node of today takes the block number in network order: 21 becomes 5376, which no
  node has, so a packet of the test server makes it write outside its map.\<close>

lemma old_server_out_of_map:
  assumes "reliable_os (x_os X) inp out" and "nodo_ok v" and "inp (n_net v) (n_fsSocket v) = packet_bytes fs_enviarAcciones_bytes @ rest"
  shows "fs_listen_turn X v = None"
proof -
  have "packet_ok fs_enviarAcciones_bytes" by (simp add: packet_ok_def fs_enviarAcciones_bytes_def)
  from reliable_os.recv_packet_reliable [OF assms(1,3) this] obtain net where
    r: "socket_recv_packet (x_os X) (n_fsSocket v) 0 (n_net v) =
      (SOCKET_ERROR_NONE, Some fs_enviarAcciones_bytes, word_of_nat (length fs_enviarAcciones_bytes), net)" by blast
  have "get_u16 [21, 0, 2, 0, 0, 0, 70, 70] = Some (5376, [2, 0, 0, 0, 70, 70])"
    by (simp add: get_u16_def get_bytes_def of_be_def)
  moreover have "node_setBlockFromPacket X 5376 (n_fsSocket v) (v\<lparr>n_net := net\<rparr>) = None"
    by (rule node_block_undefined) simp
  ultimately show ?thesis
    by (simp add: fs_listen_turn_def r fs_enviarAcciones_bytes_def connections_fs_deserializeSetBlock_def COMMAND_FS_TO_NODE_SET_BLOCK_def)
qed

text \<open>The test job sends no name for the result: MaRTA of today takes two letters of the first
  file for its length and reads past the packet.\<close>

lemma old_job_misread:
  assumes "pad 35"
  shows "\<exists>p. serializeJobToMaRTA_bytes pad False (replicate 5 ''sarasa'') = Some p \<and> job_request p = None"
proof -
  let ?files = "replicate 5 ''sarasa''"
  let ?body = "take (lengthStringList ?files - 1) (str_bytes (concat (map (\<lambda>f. f @ '' '') ?files))) @ [0]"
  have len: "lengthStringList ?files = 35" by (simp add: lengthStringList_def sum_list_replicate)
  have p: "serializeJobToMaRTA_bytes pad False ?files = Some (0 # ?body)"
    using assms by (simp add: serializeJobToMaRTA_bytes_def len)
  have head: "?body = [115, 97] @ drop 2 ?body" and short: "length ?body = 35"
    unfolding len by (simp_all add: str_bytes_def byte_of_char_def numeral_eq_Suc)
  have "of_be [115, 97] = 29537" by (simp add: of_be_def)
  then have "get_u16 ?body = Some (29537, drop 2 ?body)"
    using get_bytes_append [of 2 "[115, 97]" "drop 2 ?body"] head by (simp add: get_u16_def)
  moreover have "get_str 29537 (drop 2 ?body) = None" using short by (simp add: get_str_def get_bytes_def)
  ultimately have "job_request (0 # ?body) = None" by (simp add: job_request_def)
  with p show ?thesis by blast
qed

text \<open>The test job knows none of the orders of today's MaRTA: it takes none of them for a map, a
  reduce or the end.\<close>

lemma old_job_ignores_orders:
  assumes rel: "reliable_os (c_os C) inp out" and inp: "inp n s = packet_bytes (order # q) @ rest" and ok: "packet_ok (order # q)"
    and order: "order \<in> {COMMAND_MAP, COMMAND_REDUCE, COMMAND_MARTA_TO_JOB_DIE}"
  shows "\<exists>n'. proto_recvOrder C s n = Some ([RecvOrder order], n') \<and> inp n' s = rest \<and> out n' = out n"
proof -
  from reliable_os.recv_packet_reliable [OF rel inp ok] obtain n' where
    r: "socket_recv_packet (c_os C) s 0 n = (SOCKET_ERROR_NONE, Some (order # q), word_of_nat (length (order # q)), n')"
    "inp n' s = rest" "out n' = out n" by blast
  have "order \<noteq> letter (CHR ''m'')" "order \<noteq> letter (CHR ''r'')" "order \<noteq> letter (CHR ''d'')"
    using order by (auto simp: byte_of_char_def COMMAND_MAP_def COMMAND_REDUCE_def COMMAND_MARTA_TO_JOB_DIE_def)
  then show ?thesis using r by (simp add: proto_recvOrder_def client_recv_def)
qed

end
