(* ===== verification/Socket_Examples.thy ===== *)
theory Socket_Examples
  imports Startup Prototypes
begin

text \<open>
  The exercises on sockets under \<open>Ejemplos\<close>: in \<open>ClienteServidor\<close> a server and a client of one
  greeting (\<open>servidor\<close>, \<open>cliente\<close>, \<open>cliente-multihilo\<close>), a server of many clients with \<open>select\<close>
  (\<open>servidor-multihilo\<close>), the same with a handshake of structs (\<open>ServidorEstructurado\<close>,
  \<open>ClienteEstructurado\<close>), and \<open>Ejemplos/ServidorEstructurado\<close>, its next version, for jobs. Lemmas: what
  a pass over the descriptors does to the set, and what the clients and servers make of each other.

  The calls of the system are parameters; an address is \<^const>\<open>None\<close> for \<open>INADDR_ANY\<close>. What a program
  sends or reads of memory it never set is the parameter \<open>junk\<close>. The outer \<^const>\<open>None\<close> is undefined
  behaviour or a loop without an end.
\<close>

record 'n example_os =
  ex_os :: "'n os"
  ex_socket :: "'n \<Rightarrow> int \<times> 'n"
  ex_reuseaddr :: "int \<Rightarrow> 'n \<Rightarrow> int \<times> 'n"
  ex_bind :: "int \<Rightarrow> string option \<Rightarrow> u16 \<Rightarrow> 'n \<Rightarrow> int \<times> 'n"
  ex_listen :: "int \<Rightarrow> int \<Rightarrow> 'n \<Rightarrow> int \<times> 'n"
  ex_accept :: "int \<Rightarrow> 'n \<Rightarrow> int \<times> 'n"
  ex_connect :: "int \<Rightarrow> string option \<Rightarrow> u16 \<Rightarrow> 'n \<Rightarrow> int \<times> 'n"
  ex_close :: "int \<Rightarrow> 'n \<Rightarrow> 'n"
  ex_select :: "int \<Rightarrow> int set \<Rightarrow> 'n \<Rightarrow> int set option \<times> 'n"
  ex_list :: "u64 \<Rightarrow> string list option"

text \<open>\<open>send\<close> and \<open>recv\<close>: how many bytes were sent, -1 for an error; the bytes received.\<close>

definition ex_send :: "'n example_os \<Rightarrow> int \<Rightarrow> byte list \<Rightarrow> 'n \<Rightarrow> int \<times> 'n" where
  "ex_send X s bs n = (case os_send (ex_os X) s bs n of (k, _, n1) \<Rightarrow> (case k of None \<Rightarrow> -1 | Some k \<Rightarrow> int k, n1))"

definition ex_recv :: "'n example_os \<Rightarrow> int \<Rightarrow> nat \<Rightarrow> 'n \<Rightarrow> byte list option \<times> 'n" where
  "ex_recv X s m n = (case os_recv (ex_os X) s m n of (bs, _, n1) \<Rightarrow> (bs, n1))"

section \<open>One greeting\<close>

definition MAXDATASIZE :: nat where "MAXDATASIZE = 100"
definition BACKLOG :: int where "BACKLOG = 2"

definition bienvenido :: "byte list" where
  "bienvenido = str_bytes ''Bienvenido'' @ replicate (MAXDATASIZE - 10) 0"

text \<open>\<open>servidor.c\<close>: its loop ends when a call fails.\<close>

partial_function (option) servidor_loop :: "'n example_os \<Rightarrow> int \<Rightarrow> 'n \<Rightarrow> (int \<times> 'n) option" where
  "servidor_loop X sockfd n =
     (let (sockfd2, n1) = ex_accept X sockfd n
      in if sockfd2 = -1 then Some (-1, n1)
         else let (error, n2) = ex_send X sockfd2 bienvenido n1; n3 = ex_close X sockfd2 n2
           in if error \<le> 0 then Some (-1, n3) else servidor_loop X sockfd n3)"

definition servidor_main :: "'n example_os \<Rightarrow> 'n \<Rightarrow> (int \<times> 'n) option" where
  "servidor_main X n =
     (let (sockfd, n1) = ex_socket X n
      in if sockfd = -1 then Some (-1, n1)
         else let (bound, n2) = ex_bind X sockfd None 5000 n1
           in if bound = -1 then Some (-1, n2)
              else let (listening, n3) = ex_listen X sockfd BACKLOG n2
                in if listening = -1 then Some (-1, n3) else servidor_loop X sockfd n3)"

text \<open>The part the two clients share: the socket and the text that is printed, if no call failed.
  The NUL goes after the bytes received, outside the buffer when it is full.\<close>

definition recv_saludo :: "'n example_os \<Rightarrow> 'n \<Rightarrow> ((int \<times> string) option \<times> 'n) option" where
  "recv_saludo X n =
     (let (sockfd, n1) = ex_socket X n
      in if sockfd = -1 then Some (None, n1)
         else let (connected, n2) = ex_connect X sockfd None 5000 n1
           in if connected = -1 then Some (None, n2)
              else case ex_recv X sockfd MAXDATASIZE n2 of
                  (None, n3) \<Rightarrow> Some (None, n3)
                | (Some buf, n3) \<Rightarrow> if length buf < MAXDATASIZE then Some (Some (sockfd, cstr (buf @ [0])), n3) else None)"

definition cliente_main :: "'n example_os \<Rightarrow> 'n \<Rightarrow> (string option \<times> 'n) option" where
  "cliente_main X n =
     do {
       (r, n1) \<leftarrow> recv_saludo X n;
       (case r of None \<Rightarrow> Some (None, n1) | Some (sockfd, t) \<Rightarrow> Some (Some t, ex_close X sockfd n1))
     }"

text \<open>This one then sleeps for ever.\<close>

definition cliente_multihilo_main :: "'n example_os \<Rightarrow> 'n \<Rightarrow> (string process \<times> 'n) option" where
  "cliente_multihilo_main X n =
     do {
       (r, n1) \<leftarrow> recv_saludo X n;
       (case r of None \<Rightarrow> Some (Exits (-1), n1) | Some (sockfd, t) \<Rightarrow> Some (Runs t, n1))
     }"

section \<open>Many clients with select\<close>

text \<open>\<open>escuchar\<close> of \<open>Ejemplos/ServidorEstructurado\<close>; the others have their own address and port.\<close>

definition escuchar_en :: "'n example_os \<Rightarrow> string option \<Rightarrow> u16 \<Rightarrow> 'n \<Rightarrow> int \<times> 'n" where
  "escuchar_en X ip port n =
     (let (sock_escucha, n1) = ex_socket X n
      in if sock_escucha = -1 then (-1, n1)
         else let (opt, n2) = ex_reuseaddr X sock_escucha n1
           in if opt = -1 then (-1, n2)
              else let (bound, n3) = ex_bind X sock_escucha ip port n2
                in if bound = -1 then (-1, n3)
                   else let (listening, n4) = ex_listen X sock_escucha BACKLOG n3
                     in if listening = -1 then (-1, n4) else (sock_escucha, n4))"

definition multi_escuchar :: "'n example_os \<Rightarrow> 'n \<Rightarrow> int \<times> 'n" where
  "multi_escuchar X n = escuchar_en X None 5000 n"

definition multi_escuchar_puerto :: "'n example_os \<Rightarrow> int \<Rightarrow> 'n \<Rightarrow> int \<times> 'n" where
  "multi_escuchar_puerto X sock_escucha n =
     (let (new_socket, n1) = ex_accept X sock_escucha n
      in if new_socket = -1 then (-1, n1)
         else let (numbytes, n2) = ex_send X new_socket bienvenido n1
           in if numbytes \<le> 0 then (-1, ex_close X new_socket n2) else (new_socket, n2))"

text \<open>A set of descriptors has room for 1024.\<close>

definition FD_SETSIZE :: int where "FD_SETSIZE = 1024"

text \<open>The loop over the descriptors, whose bound may grow on the way.\<close>

function fd_pass :: "(int \<Rightarrow> 'n \<Rightarrow> (int \<times> 'n) option) \<Rightarrow> int set \<Rightarrow> int \<Rightarrow> int \<Rightarrow> int \<Rightarrow> int set \<Rightarrow> 'n \<Rightarrow>
    (int \<times> int set \<times> 'n) option" where
  "fd_pass puerto read_fds sock i fdmax master n =
     (if i > fdmax then Some (fdmax, master, n)
      else if i \<in> read_fds \<and> i = sock then
        (case puerto sock n of
           None \<Rightarrow> None
         | Some (new_socket, n1) \<Rightarrow>
             if new_socket = -1 then fd_pass puerto read_fds sock (i + 1) fdmax master n1
             else if new_socket < 0 \<or> FD_SETSIZE \<le> new_socket then None
             else fd_pass puerto read_fds sock (i + 1) (max fdmax new_socket) (insert new_socket master) n1)
      else fd_pass puerto read_fds sock (i + 1) fdmax master n)"
  by pat_completeness auto
termination
  by (relation "measures [\<lambda>(p, r, sock, i, m, s, n). if i \<le> sock then 1 else 0, \<lambda>(p, r, sock, i, m, s, n). nat (m + 1 - i)]") auto

declare fd_pass.simps [simp del]

text \<open>The loop of the server ends only when \<open>select\<close> fails.\<close>

partial_function (option) select_loop :: "'n example_os \<Rightarrow> (int \<Rightarrow> 'n \<Rightarrow> (int \<times> 'n) option) \<Rightarrow> int \<Rightarrow> int \<Rightarrow> int set \<Rightarrow> 'n \<Rightarrow>
    (int \<times> 'n) option" where
  "select_loop X puerto sock fdmax master n =
     (case ex_select X (fdmax + 1) master n of
        (None, n1) \<Rightarrow> Some (-1, n1)
      | (Some read_fds, n1) \<Rightarrow>
          Option.bind (fd_pass puerto read_fds sock 0 fdmax master n1)
            (\<lambda>r. select_loop X puerto sock (fst r) (fst (snd r)) (snd (snd r))))"

definition multi_main :: "'n example_os \<Rightarrow> 'n \<Rightarrow> (int \<times> 'n) option" where
  "multi_main X n =
     (let (sock_escucha, n1) = multi_escuchar X n
      in if sock_escucha = -1 then Some (-1, n1)
         else if FD_SETSIZE \<le> sock_escucha then None
         else select_loop X (\<lambda>s n. Some (multi_escuchar_puerto X s n)) sock_escucha sock_escucha {sock_escucha} n1)"

section \<open>A handshake of structs\<close>

record t_mensaje =
  me_tipo :: u32
  me_id_proceso :: u32
  me_datosNumericos :: u32
  me_mensaje :: "byte list"

definition HANDSHAKE :: u32 where "HANDSHAKE = 100"
definition HANDSHAKEOK :: u32 where "HANDSHAKEOK = 110"
definition CLIENTE :: u32 where "CLIENTE = 200"
definition SERVIDOR :: u32 where "SERVIDOR = 300"

definition host32 :: "('n, 'z) os_scheme \<Rightarrow> u32 \<Rightarrow> byte list" where
  "host32 os v = (if isLittleEndian os then rev (be32 v) else be32 v)"

text \<open>\<open>SIZE_MSG\<close> bytes, 28 of them.\<close>

definition mensaje_bytes :: "('n, 'z) os_scheme \<Rightarrow> t_mensaje \<Rightarrow> byte list" where
  "mensaje_bytes os m = host32 os (me_tipo m) @ host32 os (me_id_proceso m) @ host32 os (me_datosNumericos m) @ me_mensaje m"

definition get_mensaje :: "('n, 'z) os_scheme \<Rightarrow> byte list \<Rightarrow> t_mensaje option" where
  "get_mensaje os bs =
     do {
       (tipo, r) \<leftarrow> get_host32 os bs;
       (id, r) \<leftarrow> get_host32 os r;
       (datos, r) \<leftarrow> get_host32 os r;
       (mensaje, _) \<leftarrow> get_bytes 16 r;
       Some \<lparr>me_tipo = tipo, me_id_proceso = id, me_datosNumericos = datos, me_mensaje = mensaje\<rparr>
     }"

text \<open>\<open>strncpy(mensaje, s, sizeof(s))\<close>, and \<open>%s\<close> of the sixteen bytes.\<close>

definition set_mensaje :: "string \<Rightarrow> byte list \<Rightarrow> byte list" where
  "set_mensaje s bs = str_bytes s @ 0 # drop (length s + 1) bs"

definition print_mensaje :: "byte list \<Rightarrow> string option" where
  "print_mensaje bs = (if 0 \<in> set bs then Some (cstr bs) else None)"

text \<open>A received message over what the buffer held before.\<close>

definition over :: "byte list \<Rightarrow> byte list \<Rightarrow> byte list" where
  "over bs buffer = bs @ drop (length bs) buffer"

definition getInfoConf :: "config_env \<Rightarrow> string \<Rightarrow> (string \<times> int) option" where
  "getInfoConf G conf =
     do {
       config \<leftarrow> g_config G conf;
       ip \<leftarrow> config ''IP_SERVIDOR'';
       puerto \<leftarrow> config ''PUERTO_SERVIDOR'';
       (if length ip < 16 then Some (ip, g_int G puerto) else None)
     }"

definition escuchar :: "'n example_os \<Rightarrow> string \<Rightarrow> int \<Rightarrow> 'n \<Rightarrow> int \<times> 'n" where
  "escuchar X ip puerto n = escuchar_en X (Some ip) (word_of_int puerto) n"

text \<open>\<open>recv(...) <= 0\<close>: an error or the end of the stream; else the bytes.\<close>

definition recv_some :: "'n example_os \<Rightarrow> int \<Rightarrow> nat \<Rightarrow> 'n \<Rightarrow> byte list option \<times> 'n" where
  "recv_some X s m n = (case ex_recv X s m n of (r, n1) \<Rightarrow> (if r = Some [] then None else r, n1))"

text \<open>The test of the answer assigns its kind, so it tests only who it is from.\<close>

definition escuchar_puerto :: "'n example_os \<Rightarrow> t_mensaje \<Rightarrow> int \<Rightarrow> 'n \<Rightarrow> (int \<times> 'n) option" where
  "escuchar_puerto X junk sock_escucha n =
     (if \<not> os_malloc (ex_os X) MAXDATASIZE then Some (-1, n)
      else let (new_socket, n1) = ex_accept X sock_escucha n
        in if new_socket = -1 then Some (-1, n1)
           else let mensaje = junk\<lparr>me_tipo := HANDSHAKE, me_id_proceso := SERVIDOR, me_mensaje := set_mensaje ''HOLA'' (me_mensaje junk)\<rparr>;
                    (numbytes, n2) = ex_send X new_socket (mensaje_bytes (ex_os X) mensaje) n1
             in if numbytes \<le> 0 then Some (-1, ex_close X new_socket n2)
                else let (r, n3) = recv_some X new_socket 28 n2
                  in case r of
                       None \<Rightarrow> Some (-1, ex_close X new_socket n3)
                     | Some bs \<Rightarrow> do {
                         mensaje \<leftarrow> get_mensaje (ex_os X) (over bs (replicate MAXDATASIZE 0));
                         (if me_id_proceso mensaje = CLIENTE
                          then do { _ \<leftarrow> print_mensaje (me_mensaje mensaje); Some (new_socket, n3) }
                          else Some (-1, n3))
                       })"

text \<open>The argument of the program, if it has just one, is the name of its configuration file.\<close>

definition estructurado_main :: "config_env \<Rightarrow> 'n example_os \<Rightarrow> t_mensaje \<Rightarrow> string option \<Rightarrow> 'n \<Rightarrow> (int \<times> 'n) option" where
  "estructurado_main G X junk arg n =
     (case arg of
        None \<Rightarrow> Some (-1, n)
      | Some conf \<Rightarrow> do {
          (ip, puerto) \<leftarrow> getInfoConf G conf;
          let (sock_escucha, n1) = escuchar X ip puerto n;
          (if sock_escucha = -1 then Some (-1, n1)
           else if FD_SETSIZE \<le> sock_escucha then None
           else select_loop X (escuchar_puerto X junk) sock_escucha sock_escucha {sock_escucha} n1)
        })"

text \<open>The client. Its buffer is not cleared before the first message, and \<open>junk\<close> is what it held.
  After its answer it sleeps for ever: what it logged of the server.\<close>

definition cliente_estructurado_main :: "config_env \<Rightarrow> 'n example_os \<Rightarrow> byte list \<Rightarrow> string option \<Rightarrow> 'n \<Rightarrow>
    ((u32 \<times> string) process \<times> 'n) option" where
  "cliente_estructurado_main G X junk arg n =
     (case arg of
        None \<Rightarrow> Some (Exits (-1), n)
      | Some conf \<Rightarrow> do {
          (ip, puerto) \<leftarrow> getInfoConf G conf;
          (if \<not> os_malloc (ex_os X) MAXDATASIZE then Some (Exits (-1), n)
           else let (sockfd, n1) = ex_socket X n
             in if sockfd = -1 then Some (Exits (-1), n1)
                else let (connected, n2) = ex_connect X sockfd (Some ip) (word_of_int puerto) n1
                  in if connected = -1 then Some (Exits (-1), n2)
                     else case ex_recv X sockfd 28 n2 of
                         (None, n3) \<Rightarrow> Some (Exits (-1), n3)
                       | (Some bs, n3) \<Rightarrow> do {
                           mensaje \<leftarrow> get_mensaje (ex_os X) (over bs junk);
                           (if me_id_proceso mensaje \<noteq> SERVIDOR then Some (Exits (-1), n3)
                            else do {
                              t \<leftarrow> print_mensaje (me_mensaje mensaje);
                              let answer = mensaje\<lparr>me_tipo := HANDSHAKEOK, me_id_proceso := CLIENTE\<rparr>;
                              let (numbytes, n4) = ex_send X sockfd (mensaje_bytes (ex_os X) answer) n3;
                              Some (if numbytes \<le> 0 then Exits (-1) else Runs (me_id_proceso mensaje, t), n4)
                            })
                         })
        })"
section \<open>The server of jobs\<close>

text \<open>With a pointer in the message, aligned to eight bytes: \<open>SIZE_MSG\<close> is 40. \<open>ex_list\<close> says which list
  of strings is at an address, if there is one.\<close>

record t_mensaje_job =
  mj_tipo :: u32
  mj_id_proceso :: u32
  mj_datosNumericos :: u32
  mj_pad :: "byte list"
  mj_list_archivos :: u64
  mj_mensaje :: "byte list"

definition MARTA :: u32 where "MARTA = 200"
definition JOB :: u32 where "JOB = 400"
definition REDUCE :: u32 where "REDUCE = 120"
definition MAP :: u32 where "MAP = 130"

definition mensaje_job_bytes :: "('n, 'z) os_scheme \<Rightarrow> t_mensaje_job \<Rightarrow> byte list" where
  "mensaje_job_bytes os m =
     host32 os (mj_tipo m) @ host32 os (mj_id_proceso m) @ host32 os (mj_datosNumericos m) @ mj_pad m @
     (if isLittleEndian os then rev (be64 (mj_list_archivos m)) else be64 (mj_list_archivos m)) @ mj_mensaje m"

definition get_mensaje_job :: "('n, 'z) os_scheme \<Rightarrow> byte list \<Rightarrow> t_mensaje_job option" where
  "get_mensaje_job os bs =
     do {
       (tipo, r) \<leftarrow> get_host32 os bs;
       (id, r) \<leftarrow> get_host32 os r;
       (datos, r) \<leftarrow> get_host32 os r;
       (pad, r) \<leftarrow> get_bytes 4 r;
       (archivos, r) \<leftarrow> get_host_size os r;
       (mensaje, _) \<leftarrow> get_bytes 16 r;
       Some \<lparr>mj_tipo = tipo, mj_id_proceso = id, mj_datosNumericos = datos, mj_pad = pad, mj_list_archivos = archivos, mj_mensaje = mensaje\<rparr>
     }"

text \<open>The messages that are sent, one after another, until one fails; whether all were sent.\<close>

fun send_mensajes :: "'n example_os \<Rightarrow> int \<Rightarrow> t_mensaje_job list \<Rightarrow> 'n \<Rightarrow> bool \<times> 'n" where
  "send_mensajes X s [] n = (True, n)"
| "send_mensajes X s (m # ms) n =
     (let (numbytes, n1) = ex_send X s (mensaje_job_bytes (ex_os X) m) n
      in if numbytes \<le> 0 then (False, ex_close X s n1) else send_mensajes X s ms n1)"

text \<open>One message of the client: the line for the log is made only when it is from a job.\<close>

definition recv_mensaje_job :: "'n example_os \<Rightarrow> int \<Rightarrow> 'n \<Rightarrow> (t_mensaje_job option \<times> 'n) option" where
  "recv_mensaje_job X s n =
     (let (r, n1) = recv_some X s 40 n
      in case r of
           None \<Rightarrow> Some (None, ex_close X s n1)
         | Some bs \<Rightarrow> do {
             mensaje \<leftarrow> get_mensaje_job (ex_os X) (over bs (replicate MAXDATASIZE 0));
             _ \<leftarrow> (if mj_id_proceso mensaje = JOB then print_mensaje (mj_mensaje mensaje) else Some '''');
             Some (Some mensaje, n1)
           })"

text \<open>The orders of the server: a map twice, a reduce, a map.\<close>

definition job_ordenes :: "t_mensaje_job \<Rightarrow> t_mensaje_job list" where
  "job_ordenes mensaje =
     (let orden = \<lambda>tipo. mensaje\<lparr>mj_tipo := tipo, mj_id_proceso := MARTA, mj_mensaje := set_mensaje ''MAP'' (mj_mensaje mensaje)\<rparr>
      in [orden MAP, orden MAP, orden REDUCE, orden MAP])"

definition job_escuchar_puerto :: "'n example_os \<Rightarrow> t_mensaje_job \<Rightarrow> int \<Rightarrow> 'n \<Rightarrow> (int \<times> 'n) option" where
  "job_escuchar_puerto X junk sock_escucha n =
     (if \<not> os_malloc (ex_os X) MAXDATASIZE then Some (-1, n)
      else let (new_socket, n1) = ex_accept X sock_escucha n
        in if new_socket = -1 then Some (-1, n1)
           else let mensaje = junk\<lparr>mj_tipo := HANDSHAKE, mj_id_proceso := MARTA, mj_mensaje := set_mensaje ''HOLA'' (mj_mensaje junk)\<rparr>;
                    (sent, n2) = send_mensajes X new_socket [mensaje] n1
             in if \<not> sent then Some (-1, n2)
                else do {
                  (r, n3) \<leftarrow> recv_mensaje_job X new_socket n2;
                  (case r of None \<Rightarrow> Some (-1, n3) | Some _ \<Rightarrow> do {
                     (r, n4) \<leftarrow> recv_mensaje_job X new_socket n3;
                     (case r of None \<Rightarrow> Some (-1, n4) | Some mensaje \<Rightarrow> do {
                        archivos \<leftarrow> ex_list X (mj_list_archivos mensaje);
                        (case send_mensajes X new_socket (job_ordenes mensaje) n4 of
                           (sent, n5) \<Rightarrow> Some (if sent then 1 else -1, n5))
                     })
                  })
                })"

definition job_servidor_main :: "config_env \<Rightarrow> 'n example_os \<Rightarrow> t_mensaje_job \<Rightarrow> string option \<Rightarrow> 'n \<Rightarrow> (int \<times> 'n) option" where
  "job_servidor_main G X junk arg n =
     (case arg of
        None \<Rightarrow> Some (-1, n)
      | Some conf \<Rightarrow> do {
          (ip, puerto) \<leftarrow> getInfoConf G conf;
          let (sock_escucha, n1) = escuchar X ip puerto n;
          (if sock_escucha = -1 then Some (-1, n1)
           else if FD_SETSIZE \<le> sock_escucha then None
           else select_loop X (job_escuchar_puerto X junk) sock_escucha sock_escucha {sock_escucha} n1)
        })"

section \<open>What they do\<close>

text \<open>The client of one greeting goes past its buffer exactly when the greeting of the server, 100
  bytes, comes whole.\<close>

lemma greeting_overflows:
  assumes "ex_socket X n = (s, n1)" and "s \<noteq> -1" and "ex_connect X s None 5000 n1 = (c, n2)" and "c \<noteq> -1"
    and "os_recv (ex_os X) s MAXDATASIZE n2 = (Some buf, e, n3)" and "length buf \<le> MAXDATASIZE"
  shows "recv_saludo X n = None \<longleftrightarrow> length buf = length bienvenido"
  using assms by (auto simp: recv_saludo_def ex_recv_def bienvenido_def MAXDATASIZE_def)

text \<open>A pass only adds to the set, and keeps every descriptor of it within the bound: a connection
  stays in it when its client is gone.\<close>

lemma fd_pass_adds:
  assumes "fd_pass puerto read_fds sock i fdmax master n = Some (fdmax', master', n')"
    and "\<forall>s \<in> master. s \<le> fdmax \<and> 0 \<le> s" and "fdmax < FD_SETSIZE"
  shows "master \<subseteq> master' \<and> (\<forall>s \<in> master'. s \<le> fdmax' \<and> 0 \<le> s) \<and> fdmax \<le> fdmax' \<and> fdmax' < FD_SETSIZE"
  using assms
proof (induction puerto read_fds sock i fdmax master n rule: fd_pass.induct)
  case (1 puerto read_fds sock i fdmax master n)
  note step = fd_pass.simps [of puerto read_fds sock i fdmax master n]
  show ?case
  proof (cases "i > fdmax")
    case True
    then show ?thesis using "1.prems" by (simp add: step)
  next
    case in_: False
    show ?thesis
    proof (cases "i \<in> read_fds \<and> i = sock")
      case here: True
      then obtain s n1 where p: "puerto sock n = Some (s, n1)"
        using in_ "1.prems"(1) unfolding step by (auto split: option.splits)
      show ?thesis
      proof (cases "s = -1")
        case True
        then have "fd_pass puerto read_fds sock (i + 1) fdmax master n1 = Some (fdmax', master', n')"
          using in_ here p "1.prems"(1) unfolding step by auto
        then show ?thesis using "1.IH"(1) [OF in_ here p refl True] "1.prems"(2,3) by blast
      next
        case False
        then have s: "\<not> (s < 0 \<or> FD_SETSIZE \<le> s)"
          using in_ here p "1.prems"(1) unfolding step by (auto split: if_splits)
        have run: "fd_pass puerto read_fds sock (i + 1) (max fdmax s) (insert s master) n1 = Some (fdmax', master', n')"
          using in_ here p False s "1.prems"(1) unfolding step by auto
        have "\<forall>t \<in> insert s master. t \<le> max fdmax s \<and> 0 \<le> t" using s "1.prems"(2) by (auto simp: max_def)
        moreover have "max fdmax s < FD_SETSIZE" using s "1.prems"(3) by simp
        ultimately have "insert s master \<subseteq> master' \<and> (\<forall>s \<in> master'. s \<le> fdmax' \<and> 0 \<le> s) \<and> max fdmax s \<le> fdmax' \<and> fdmax' < FD_SETSIZE"
          by (rule "1.IH"(2) [OF in_ here p refl False s run])
        then show ?thesis by auto
      qed
    next
      case False
      then have "fd_pass puerto read_fds sock (i + 1) fdmax master n = Some (fdmax', master', n')"
        using in_ "1.prems"(1) unfolding step by auto
      then show ?thesis using "1.IH"(3) [OF in_ False] "1.prems"(2,3) by blast
    qed
  qed
qed

text \<open>When only connections already made are ready, a pass does nothing: what a client sends is
  never read, nor its end, and \<open>select\<close> reports it again at once.\<close>

lemma fd_pass_idle: "sock \<notin> read_fds \<Longrightarrow> fd_pass puerto read_fds sock i fdmax master n = Some (fdmax, master, n)"
proof (induction puerto read_fds sock i fdmax master n rule: fd_pass.induct)
  case (1 puerto read_fds sock i fdmax master n)
  then show ?case by (cases "i > fdmax") (auto simp: fd_pass.simps [of puerto read_fds sock i fdmax])
qed

text \<open>The server of jobs never answers with the new connection: 1 goes into the set in its place, the
  descriptor of the standard output.\<close>

lemma job_server_answer: "job_escuchar_puerto X junk s n = Some (r, n') \<Longrightarrow> r = 1 \<or> r = -1"
  by (auto simp: job_escuchar_puerto_def Let_def bind_eq_Some_conv split: if_splits prod.splits option.splits)
    (metis (full_types) surj_pair)

text \<open>What a client sends as its list is an address of the client, where the server has none.\<close>

lemma job_list_undefined:
  assumes "os_malloc (ex_os X) MAXDATASIZE" and "ex_accept X l n = (s, n1)" and "s \<noteq> -1"
    and "send_mensajes X s [junk\<lparr>mj_tipo := HANDSHAKE, mj_id_proceso := MARTA, mj_mensaje := set_mensaje ''HOLA'' (mj_mensaje junk)\<rparr>] n1 = (True, n2)"
    and "recv_mensaje_job X s n2 = Some (Some m1, n3)" and "recv_mensaje_job X s n3 = Some (Some m2, n4)"
    and "ex_list X (mj_list_archivos m2) = None"
  shows "job_escuchar_puerto X junk l n = None"
  using assms by (simp add: job_escuchar_puerto_def)

end
