(* ===== verification/Trim.thy ===== *)
theory Trim
  imports Prelude
begin

text \<open>
  \<open>FileSystem/tests/testtrim.c\<close>: trimming the blanks of a string in place, which the file says
  still is to be tested. A buffer is its characters, the string and its NUL first; without a NUL
  every access past the end is undefined. Lemma: both ends lose their blanks and nothing else
  changes.
\<close>

definition buffer_strlen :: "string \<Rightarrow> nat option" where
  "buffer_strlen s = (if CHR 0x00 \<in> set s then Some (length (takeWhile (\<lambda>c. c \<noteq> CHR 0x00) s)) else None)"

text \<open>The loop, with one more than \<open>i\<close> as argument.\<close>

fun trim_right_loop :: "nat \<Rightarrow> string \<Rightarrow> string" where
  "trim_right_loop 0 s = s"
| "trim_right_loop (Suc i) s = (if s ! i = CHR '' '' then trim_right_loop i (s[i := CHR 0x00]) else s)"

definition string_static_trim_right :: "string \<Rightarrow> string option" where
  "string_static_trim_right s = map_option (\<lambda>n. trim_right_loop n s) (buffer_strlen s)"

text \<open>The second loop: \<open>for (j = i; string[j - 1] != 0; j++) string[j - i] = string[j];\<close>\<close>

function shift_left :: "nat \<Rightarrow> nat \<Rightarrow> string \<Rightarrow> string option" where
  "shift_left i j s =
     (if s ! (j - 1) = CHR 0x00 then Some s
      else if j < length s then shift_left i (Suc j) (s[j - i := s ! j]) else None)"
  by pat_completeness auto
termination by (relation "measure (\<lambda>(i, j, s). length s - j)") auto

declare shift_left.simps [simp del]

definition string_static_trim_left :: "string \<Rightarrow> string option" where
  "string_static_trim_left s =
     (if CHR 0x00 \<notin> set s then None
      else let i = length (takeWhile (\<lambda>c. c \<noteq> CHR 0x00 \<and> c = CHR '' '') s)
           in if i = 0 then Some s else shift_left i i s)"

definition string_static_trim :: "string \<Rightarrow> string option" where
  "string_static_trim s = Option.bind (string_static_trim_left s) string_static_trim_right"

section \<open>What the loops do\<close>

lemma trim_right_loop_strips:
  "\<exists>r'. length r' = length v + length r - length (rev (dropWhile (\<lambda>c. c = CHR '' '') (rev v))) \<and>
     trim_right_loop (length v) (v @ CHR 0x00 # r) = rev (dropWhile (\<lambda>c. c = CHR '' '') (rev v)) @ CHR 0x00 # r'"
proof (induction v arbitrary: r rule: rev_induct)
  case (snoc c v)
  show ?case
  proof (cases "c = CHR '' ''")
    case True
    then show ?thesis using snoc.IH [of "CHR 0x00 # r"] by (simp add: nth_append list_update_append)
  qed (auto simp: nth_append)
qed simp

lemma shift_left_moves:
  assumes "gap \<noteq> []" and "last gap \<noteq> CHR 0x00" and "CHR 0x00 \<notin> set u"
  shows "\<exists>r'. length r' = length gap + length r \<and>
    shift_left (length gap) (length front + length gap) (front @ gap @ u @ CHR 0x00 # r) = Some (front @ u @ CHR 0x00 # r')"
  using assms
proof (induction u arbitrary: front gap)
  case Nil
  obtain g gs where gap: "gap = g # gs" using Nil.prems(1) by (cases gap) auto
  let ?j = "length front + length gap" and ?s = "front @ gap @ CHR 0x00 # r"
  have "?s ! (length front + (length gap - 1)) = last gap" using Nil.prems(1) by (simp add: nth_append last_conv_nth)
  moreover have "?j - 1 = length front + (length gap - 1)" using gap by simp
  ultimately have prev: "?s ! (?j - 1) = last gap" by simp
  have at_: "?s ! ?j = CHR 0x00" "?j < length ?s" "?s[?j - length gap := CHR 0x00] = front @ CHR 0x00 # gs @ CHR 0x00 # r"
    using gap by (simp_all add: nth_append list_update_append)
  have "shift_left (length gap) (Suc ?j) (front @ CHR 0x00 # gs @ CHR 0x00 # r) = Some (front @ CHR 0x00 # gs @ CHR 0x00 # r)"
    by (subst shift_left.simps) (simp add: gap nth_append)
  then have "shift_left (length gap) ?j ?s = Some (front @ CHR 0x00 # gs @ CHR 0x00 # r)"
    by (subst shift_left.simps) (use prev at_ Nil.prems(2) in simp)
  then show ?case by (intro exI [of _ "gs @ CHR 0x00 # r"]) (simp add: gap)
next
  case (Cons c u)
  obtain g gs where gap: "gap = g # gs" using Cons.prems(1) by (cases gap) auto
  let ?j = "length front + length gap" and ?s = "front @ gap @ (c # u) @ CHR 0x00 # r"
  have "?s ! (length front + (length gap - 1)) = last gap" using Cons.prems(1) by (simp add: nth_append last_conv_nth)
  moreover have "?j - 1 = length front + (length gap - 1)" using gap by simp
  ultimately have prev: "?s ! (?j - 1) = last gap" by simp
  have at_: "?s ! ?j = c" "?j < length ?s"
    "?s[?j - length gap := c] = (front @ [c]) @ (gs @ [c]) @ u @ CHR 0x00 # r"
    using gap by (simp_all add: nth_append list_update_append)
  have "\<exists>r'. length r' = length (gs @ [c]) + length r \<and> shift_left (length (gs @ [c])) (length (front @ [c]) + length (gs @ [c]))
      ((front @ [c]) @ (gs @ [c]) @ u @ CHR 0x00 # r) = Some ((front @ [c]) @ u @ CHR 0x00 # r')"
    by (rule Cons.IH) (use Cons.prems(3) in auto)
  moreover have "shift_left (length gap) ?j ?s = shift_left (length gap) (Suc ?j) ((front @ [c]) @ (gs @ [c]) @ u @ CHR 0x00 # r)"
    by (subst shift_left.simps) (use prev at_ Cons.prems(2) in simp)
  ultimately show ?case by (simp add: gap)
qed

text \<open>Trimming a string in place leaves it without the blanks at both ends, in a buffer of the same
  size.\<close>

lemma string_static_trim_trims:
  assumes "CHR 0x00 \<notin> set t"
  shows "\<exists>r'. string_static_trim (t @ CHR 0x00 # r) =
      Some (rev (dropWhile (\<lambda>c. c = CHR '' '') (rev (dropWhile (\<lambda>c. c = CHR '' '') t))) @ CHR 0x00 # r') \<and>
    length (rev (dropWhile (\<lambda>c. c = CHR '' '') (rev (dropWhile (\<lambda>c. c = CHR '' '') t)))) + length r' = length t + length r"
proof -
  let ?p = "\<lambda>c. c = CHR '' ''"
  let ?gap = "takeWhile ?p t" and ?u = "dropWhile ?p t"
  have "takeWhile (\<lambda>c. c \<noteq> CHR 0x00 \<and> c = CHR '' '') (t @ CHR 0x00 # r) = ?gap"
  proof -
    have "(\<lambda>c. c \<noteq> CHR 0x00 \<and> c = CHR '' '') = ?p" by (auto simp: fun_eq_iff)
    then show ?thesis by (cases "\<forall>x \<in> set t. ?p x") (simp_all add: takeWhile_append takeWhile_eq_all_conv [THEN iffD2])
  qed
  have u: "CHR 0x00 \<notin> set ?u" using assms by (auto dest: set_dropWhileD)
  have left: "\<exists>r1. string_static_trim_left (t @ CHR 0x00 # r) = Some (?u @ CHR 0x00 # r1) \<and> length ?u + length r1 = length t + length r"
  proof (cases "?gap = []")
    case True
    then show ?thesis using \<open>takeWhile _ _ = ?gap\<close> takeWhile_dropWhile_id [of ?p t] by (simp add: string_static_trim_left_def)
  next
    case False
    have "?p (last ?gap)" using set_takeWhileD [OF last_in_set [OF False]] by simp
    then have "last ?gap \<noteq> CHR 0x00" by auto
    from shift_left_moves [OF False this u, of r "[]"] obtain r1 where
      r1: "length r1 = length ?gap + length r" "shift_left (length ?gap) (length ?gap) (t @ CHR 0x00 # r) = Some (?u @ CHR 0x00 # r1)"
      by (auto simp flip: append_assoc)
    moreover have "length t = length ?gap + length ?u" by (metis length_append takeWhile_dropWhile_id)
    ultimately show ?thesis using False \<open>takeWhile _ _ = ?gap\<close> by (simp add: string_static_trim_left_def)
  qed
  then obtain r1 where r1: "string_static_trim_left (t @ CHR 0x00 # r) = Some (?u @ CHR 0x00 # r1)" "length ?u + length r1 = length t + length r" by blast
  have "buffer_strlen (?u @ CHR 0x00 # r1) = Some (length ?u)" using u by (auto simp: buffer_strlen_def takeWhile_append)
  with trim_right_loop_strips [of ?u r1] r1 show ?thesis
    using length_dropWhile_le [of ?p "rev ?u"] by (auto simp: string_static_trim_def string_static_trim_right_def)
qed

end
