(* ===== verification/Spec2Isabelle.thy ===== *)
theory Spec2Isabelle
  imports Console_Session FS_Listener Nodo_MDFS Nodo_Locks Marta_Jobs Marta_MDFS Job_Protocol Socket_Setup Startup Prototypes Socket_Examples Trim
begin

text \<open>
  A verification development of a small map-reduce system in C: a distributed file system, the
  storage nodes that keep its blocks and run the routines of a job, the planner that spreads a
  job over the nodes, and the client that carries out the planner's orders.

  \<^bold>\<open>The programs and how they interact.\<close>
  \<^item> The file system (MDFS, \<open>FileSystem/src\<close>) cuts a file into blocks of 20 MB at line ends and puts
    three copies of each on different nodes. Directories, files and nodes are documents of
    MongoDB. Its user types commands; storage nodes and MaRTA connect to it.
  \<^item> A storage node (\<open>Nodo/src\<close>) introduces itself to the file system and then answers its
    requests: store a block, give a block, give a temporary file. Jobs ask it to map a block or to
    reduce temporary files; for a reduce it asks other nodes for theirs.
  \<^item> MaRTA (\<open>MaRTA/src\<close>) gets the blocks of a job's files from the file system, orders one map for
    each block and then the reduces, and orders the file system to copy the final result in. A node
    that fails has its maps planned again elsewhere.
  \<^item> A job (\<open>Job/src\<close>) sends its configuration to MaRTA, takes each order to a node with the
    user's routine, and reports the result.
  \<^item> All talk over the packets of \<open>utils/socket.c\<close>: eight bytes of length, then the content.

  \<^bold>\<open>Theories and sources.\<close>
  \<^item> \<open>Prelude\<close>: words, C strings, the big-endian integers on the wire and the readers that are
    \<^const>\<open>None\<close> past the end of a buffer. \<open>Commons\<close>: the laws of the commons library (bit arrays,
    splitting, sorting), which is not in the repository, and an implementation of them.
  \<^item> \<open>Socket\<close>: \<open>utils/socket.c\<close>, over an operating system whose calls may fail or be partial;
    \<open>Socket_Setup\<close>: its part that opens and closes descriptors.
  \<^item> \<open>FS_Structs\<close>, \<open>FS_Node\<close>: \<open>structs/dir.c\<close>, \<open>file.c\<close>, \<open>node.c\<close> of the file system, with their
    form as BSON. \<open>Mongo\<close>: \<open>mongo/*.c\<close>; \<open>MongoStore\<close>: what is relied on of the server, the locale
    \<open>doc_store\<close>; \<open>ListStore\<close>: a store that has these laws; \<open>Metadata\<close>: each operation as a change of
    the sets of directories, files and nodes.
  \<^item> \<open>FS_Connections\<close>, \<open>FS_Membership\<close>: \<open>connections/connections_node.c\<close>, nodes joining;
    \<open>FS_Marta\<close>: \<open>connections_marta.c\<close>; \<open>FS_Listener\<close>: \<open>connections.c\<close>.
  \<^item> \<open>FS_Paths\<close>, \<open>FS_Blocks\<close>, \<open>FS_Distribute\<close>, \<open>Filesystem\<close>, \<open>FS_Copies\<close>: \<open>filesystem/filesystem.c\<close>.
    \<open>FS_Space\<close>, \<open>FS_Tree\<close>, \<open>MDFS\<close>: its invariant, the recursion over directories, all operations
    as steps and the properties of each.
  \<^item> \<open>Console\<close>, \<open>Console_Session\<close>: \<open>console/console.c\<close> and what a session keeps.
  \<^item> \<open>Nodo\<close>, \<open>Nodo_Connections\<close>: \<open>Nodo/src\<close>; \<open>Nodo_Locks\<close>: its threads, byte by
    byte, under the locks of the blocks; \<open>Nodo_MDFS\<close>: the file system and a node together.
  \<^item> \<open>Marta_Structs\<close>, \<open>Marta_Connections\<close>, \<open>Marta_Planning\<close>: \<open>MaRTA/src\<close>; \<open>Marta_Reduce\<close>: what
    the phases of a job with a combiner do; \<open>Marta_Tests\<close>: the tests in
    \<open>MaRTA/test\<close>; \<open>Marta_Types\<close>: what the thread of a job keeps;
    \<open>Marta_Jobs\<close>: several jobs at once; \<open>Marta_MDFS\<close>: MaRTA and the file system together.
  \<^item> \<open>Job\<close>: \<open>Job/src\<close>; \<open>Job_Protocol\<close>: MaRTA, a job and a node together.
  \<^item> \<open>Startup\<close>: \<open>main\<close> and the reading of the configuration, for the four programs.
  \<^item> \<open>Test_Clients\<close>, \<open>Prototypes\<close>: of \<open>Ejemplos\<close>, the test clients of the file system, and a job, a file
    system and nodes that speak an earlier form of the protocols; \<open>Socket_Examples\<close>: its exercises on
    sockets; \<open>Trim\<close>: \<open>FileSystem/tests\<close>.

  A definition has the name of its function. A record has the fields of its struct with a
  prefix. The state of a process is one record threaded through its operations (\<open>world\<close>,
  \<open>node_world\<close>, \<open>marta\<close>, \<open>job_world\<close>), and what the process does not control is another, its
  environment. The outer \<^const>\<open>None\<close> of a result is undefined behaviour in C (NULL read, a
  read past a buffer, an overflow of \<open>int\<close>) or a loop that does not end; an inner one is NULL.

  \<^bold>\<open>What the lemmas show.\<close> For the file system: the block invariant over every sequence of its
  operations and over every session of the console; where the copies go and what is sent for
  them; what each operation does to the tree, the files and the bitmaps; that resolving a
  path is walking the tree; when cutting a text ends and what it gives. For a node: that a block
  comes back as it was sent and no other block changes, that threads which copy blocks byte by byte
  act as if each request were one step and never block each other, the sizes at which this fails, that a
  reduce joins one part for each operation in every order of its threads. For MaRTA: one map for
  each block, on the least busy active node that has a copy, and again on another when it fails; a
  reduce where most results are; with a combiner, partial reduces that group the maps by node
  and a final one of all their results; names of temporary files that differ; the types of jobs
  and nodes, kept by every step of every interleaving of jobs, and that a job that has them meets
  no NULL node; what jobs do to each other. Of the starts: the file system starts consistent, and what a wrong configuration does. Across programs: each
  message is read as it was written; and what today's programs make of the messages of the
  prototypes.

  \<^bold>\<open>Interfaces.\<close> \<open>bitarray\<close>, \<open>string_lib\<close>, \<open>list_sorter\<close> (commons), \<open>stream_os\<close>, \<open>reliable_os\<close> and
  \<open>descriptors\<close> (sockets), \<open>doc_store\<close> (MongoDB), \<open>bson_codec\<close> (records and documents),
  \<open>block_space\<close> (the bitmap of a node), and \<open>commons_laws\<close>, \<open>mongo_laws\<close>, \<open>fs_laws\<close>, \<open>planner\<close>, which put
  them together for an environment. Each is interpreted on the model's own definitions or on a
  complete implementation of the library, which the witnesses run.

  \<^bold>\<open>Bounds and fuel.\<close> Integers keep the width they have in C. Loops over data are structural;
  the loop of the console ends because each turn takes a byte of the input. Loops that wait for
  another process, the cutting of blocks and the recursion over directories are partial
  functions, and for the last two it is shown when they end. The gathering of a reduce runs two
  steps for each of its operations, one to start a thread and one to finish it, which is shown to
  be enough for all to end, whatever the schedule.

  \<^bold>\<open>Not modelled.\<close> The log, the layout of what is printed and the release of memory. How a
  process waits for the signal that ends it, and joins its threads. Threads: the senders of a
  distribution and the parts of a reduce are interleaved step by step, and the console's commands
  with the other operations; the jobs of MaRTA between the places where they wait or release a
  mutex; the requests to a node byte by byte for its blocks, not for its temporary files. Of \<open>Ejemplos\<close>,
  the exercises on logs, configuration files, \<open>mmap\<close> and redirection, which only call a library; the
  start of the test job of \<open>NodoServerTest\<close>, which frees a literal and is never called; of \<open>Testnodomap\<close>
  and \<open>Nodoold\<close> what is never called, commented out or after the \<open>return\<close> of \<open>main\<close>.
\<close>

end
